(* ===== verification/Prelude.thy ===== *)
theory Prelude
  imports Complex_Main "HOL-Library.Finite_Map" "HOL-Library.Multiset"
    "HOL-Library.List_Lexorder" "HOL-Library.Product_Lexorder" "HOL-Library.Char_ord"
begin

text \<open>
  Shared vocabulary of the development: Python values and dictionaries as the
  services store them in JSON columns, errors as values, the string and integer
  conversions of the language the sources use, and generic lemmas on lists,
  optional results and finite maps.

  A JSON value is a \<open>pyval\<close>; a JSON object is a finite map from strings, so
  two dictionaries are equal when they have the same items, as in Python.
  Floating point numbers are rationals: arithmetic on them is exact here.
  Strings are lists of characters, each one a code point below 256.
\<close>

subsection \<open>Collections of facts\<close>

named_theorems frame_simps \<open>fields an operation leaves alone\<close>
named_theorems inv_intros \<open>preservation lemmas of the row invariants\<close>
named_theorems res_elims \<open>inversion of results\<close>

subsection \<open>Errors as values\<close>

datatype py_error =
    ValueError string
  | TypeError string
  | IndexError string
  | KeyError string
  | AttributeError string
  | RuntimeError string
  | NoResultFound
  | MultipleResultsFound
  | ZeroDivisionError
  | StageExecutionCancelled string
  | StorageQuotaExceeded int int int
  | KubernetesApiError int string

type_synonym 'a res = "py_error + 'a"

definition rbind :: "'a res \<Rightarrow> ('a \<Rightarrow> 'b res) \<Rightarrow> 'b res" where
  "rbind r f = (case r of Inl e \<Rightarrow> Inl e | Inr x \<Rightarrow> f x)"

lemma rbind_simps [simp]:
  "rbind (Inl e) f = Inl e"
  "rbind (Inr x) f = f x"
  by (simp_all add: rbind_def)

lemma rbind_Inr_iff [res_elims]:
  "rbind r f = Inr y \<longleftrightarrow> (\<exists>x. r = Inr x \<and> f x = Inr y)"
  by (cases r) simp_all

lemma rbind_Inl_iff [res_elims]:
  "rbind r f = Inl e \<longleftrightarrow> r = Inl e \<or> (\<exists>x. r = Inr x \<and> f x = Inl e)"
  by (cases r) simp_all

text \<open>\<open>is_value_error\<close> is what an \<open>except ValueError\<close> clause catches.\<close>

fun is_value_error :: "py_error \<Rightarrow> bool" where
  "is_value_error (ValueError _) = True"
| "is_value_error _ = False"

text \<open>Run a fallible step over a list, first error wins.\<close>

fun rmap :: "('a \<Rightarrow> 'b res) \<Rightarrow> 'a list \<Rightarrow> 'b list res" where
  "rmap f [] = Inr []"
| "rmap f (x # xs) = rbind (f x) (\<lambda>y. rbind (rmap f xs) (\<lambda>ys. Inr (y # ys)))"

lemma rmap_length: "rmap f xs = Inr ys \<Longrightarrow> length ys = length xs"
  by (induction xs arbitrary: ys) (auto simp: rbind_Inr_iff)

lemma rmap_all2: "rmap f xs = Inr ys \<Longrightarrow> list_all2 (\<lambda>x y. f x = Inr y) xs ys"
  by (induction xs arbitrary: ys) (auto simp: rbind_Inr_iff)

subsection \<open>Python values\<close>

datatype pyval =
    PNone
  | PBool bool
  | PInt int
  | PFloat rat
  | PStr string
  | PList "pyval list"
  | PDict "(string, pyval) fmap"

type_synonym dict = "(string, pyval) fmap"

text \<open>Truth of a value, as \<open>if x\<close> and \<open>x or y\<close> decide it.\<close>

fun truthy :: "pyval \<Rightarrow> bool" where
  "truthy PNone = False"
| "truthy (PBool b) = b"
| "truthy (PInt i) = (i \<noteq> 0)"
| "truthy (PFloat q) = (q \<noteq> 0)"
| "truthy (PStr s) = (s \<noteq> [])"
| "truthy (PList xs) = (xs \<noteq> [])"
| "truthy (PDict d) = (d \<noteq> fmempty)"

definition py_or :: "pyval \<Rightarrow> pyval \<Rightarrow> pyval" where
  "py_or a b = (if truthy a then a else b)"

text \<open>\<open>d.get(k)\<close>: the value or None.\<close>

definition dget :: "dict \<Rightarrow> string \<Rightarrow> pyval" where
  "dget d k = (case fmlookup d k of None \<Rightarrow> PNone | Some v \<Rightarrow> v)"

lemma dget_fmupd [simp]: "dget (fmupd k v d) k' = (if k = k' then v else dget d k')"
  by (simp add: dget_def)

lemma dget_fmempty [simp]: "dget fmempty k = PNone"
  by (simp add: dget_def)

lemma dget_fmdrop [simp]: "dget (fmdrop k d) k' = (if k = k' then PNone else dget d k')"
  by (simp add: dget_def)

text \<open>
  Equality of values, \<open>==\<close>: numbers compare by value across bool, int and float,
  containers element by element.
\<close>

primrec py_norm :: "pyval \<Rightarrow> pyval" where
  "py_norm PNone = PNone"
| "py_norm (PBool b) = PFloat (if b then 1 else 0)"
| "py_norm (PInt i) = PFloat (of_int i)"
| "py_norm (PFloat q) = PFloat q"
| "py_norm (PStr s) = PStr s"
| "py_norm (PList xs) = PList (map py_norm xs)"
| "py_norm (PDict d) = PDict (fmmap py_norm d)"

definition py_eq :: "pyval \<Rightarrow> pyval \<Rightarrow> bool" where
  "py_eq a b \<longleftrightarrow> py_norm a = py_norm b"

definition dict_eq :: "dict \<Rightarrow> dict \<Rightarrow> bool" where
  "dict_eq a b \<longleftrightarrow> py_eq (PDict a) (PDict b)"

lemma py_eq_refl [simp]: "py_eq a a"
  by (simp add: py_eq_def)

lemma dict_eq_refl [simp]: "dict_eq a a"
  by (simp add: dict_eq_def)

lemma py_eq_sym: "py_eq a b \<Longrightarrow> py_eq b a"
  by (simp add: py_eq_def)

lemma py_eq_trans: "py_eq a b \<Longrightarrow> py_eq b c \<Longrightarrow> py_eq a c"
  by (simp add: py_eq_def)

lemma dict_eq_alt: "dict_eq a b \<longleftrightarrow> fmmap py_norm a = fmmap py_norm b"
  by (simp add: dict_eq_def py_eq_def)

subsection \<open>Characters and strings\<close>

definition is_digit :: "char \<Rightarrow> bool" where
  "is_digit c \<longleftrightarrow> 48 \<le> (of_char c :: nat) \<and> (of_char c :: nat) \<le> 57"

definition is_lower :: "char \<Rightarrow> bool" where
  "is_lower c \<longleftrightarrow> 97 \<le> (of_char c :: nat) \<and> (of_char c :: nat) \<le> 122"

definition is_upper :: "char \<Rightarrow> bool" where
  "is_upper c \<longleftrightarrow> 65 \<le> (of_char c :: nat) \<and> (of_char c :: nat) \<le> 90"

text \<open>White space of \<open>str.strip\<close> among the code points below 256.\<close>

definition is_space :: "char \<Rightarrow> bool" where
  "is_space c \<longleftrightarrow>
     (let n = (of_char c :: nat)
      in (9 \<le> n \<and> n \<le> 13) \<or> (28 \<le> n \<and> n \<le> 32) \<or> n = 133 \<or> n = 160)"

definition str_lstrip :: "string \<Rightarrow> string" where
  "str_lstrip s = dropWhile is_space s"

definition str_rstrip :: "(char \<Rightarrow> bool) \<Rightarrow> string \<Rightarrow> string" where
  "str_rstrip P s = rev (dropWhile P (rev s))"

definition str_strip :: "string \<Rightarrow> string" where
  "str_strip s = str_rstrip is_space (str_lstrip s)"

definition char_lower :: "char \<Rightarrow> char" where
  "char_lower c =
     (let n = (of_char c :: nat)
      in if (65 \<le> n \<and> n \<le> 90) \<or> (192 \<le> n \<and> n \<le> 222 \<and> n \<noteq> 215) then char_of (n + 32) else c)"

definition str_lower :: "string \<Rightarrow> string" where
  "str_lower s = map char_lower s"

definition starts_with :: "string \<Rightarrow> string \<Rightarrow> bool" where
  "starts_with p s \<longleftrightarrow> take (length p) s = p"

definition ends_with :: "string \<Rightarrow> string \<Rightarrow> bool" where
  "ends_with p s \<longleftrightarrow> starts_with (rev p) (rev s)"

text \<open>Membership of a substring, \<open>p in s\<close>.\<close>

fun contains_sub :: "string \<Rightarrow> string \<Rightarrow> bool" where
  "contains_sub p [] = (p = [])"
| "contains_sub p (c # s) = (starts_with p (c # s) \<or> contains_sub p s)"

lemma starts_with_append [simp]: "starts_with p (p @ s)"
  by (simp add: starts_with_def)

lemma dropWhile_rev_rev: "dropWhile P (rev (dropWhile P (rev s))) = rev (dropWhile P (rev (dropWhile P s)))"
proof (induction s)
  case Nil
  show ?case by simp
next
  case (Cons c s)
  show ?case
  proof (cases "\<forall>x \<in> set s. P x")
    case True
    then show ?thesis
      by (cases "P c") (auto simp: dropWhile_append dest: set_dropWhileD)
  next
    case False
    then have ne: "dropWhile P (rev s) \<noteq> []" by auto
    then have split: "dropWhile P (rev (c # s)) = dropWhile P (rev s) @ [c]"
      by (simp add: dropWhile_append)
    show ?thesis
    proof (cases "P c")
      case True
      with Cons.IH split show ?thesis by simp
    next
      case False
      with split show ?thesis by simp
    qed
  qed
qed

lemma str_strip_idem [simp]: "str_strip (str_strip s) = str_strip s"
  by (simp add: str_strip_def str_rstrip_def str_lstrip_def dropWhile_rev_rev [symmetric])

subsection \<open>Integers and text\<close>

fun nat_text :: "nat \<Rightarrow> string" where
  "nat_text n =
     (if n < 10 then [char_of (48 + n)] else nat_text (n div 10) @ [char_of (48 + n mod 10)])"

declare nat_text.simps [simp del]

definition int_text :: "int \<Rightarrow> string" where
  "int_text i = (if i < 0 then CHR ''-'' # nat_text (nat (- i)) else nat_text (nat i))"

text \<open>\<open>str(list)\<close> of a list of integers.\<close>

fun join_text :: "string \<Rightarrow> string list \<Rightarrow> string" where
  "join_text sep [] = []"
| "join_text sep [s] = s"
| "join_text sep (s # ss) = s @ sep @ join_text sep ss"

definition int_list_text :: "int list \<Rightarrow> string" where
  "int_list_text is = ''['' @ join_text '', '' (map int_text is) @ '']''"

text \<open>\<open>int(text)\<close>: optional white space and sign, digits with single underscores.\<close>

fun parse_dec :: "int \<Rightarrow> bool \<Rightarrow> string \<Rightarrow> int option" where
  "parse_dec acc ok [] = (if ok then Some acc else None)"
| "parse_dec acc ok (c # cs) =
     (if is_digit c then parse_dec (acc * 10 + (int (of_char c) - 48)) True cs
      else if c = CHR ''_'' \<and> ok then parse_dec acc False cs else None)"

definition parse_int :: "string \<Rightarrow> int option" where
  "parse_int s =
     (case str_strip s of
        [] \<Rightarrow> None
      | c # cs \<Rightarrow>
          (if c = CHR ''-'' then map_option uminus (parse_dec 0 False cs)
           else if c = CHR ''+'' then parse_dec 0 False cs
           else parse_dec 0 False (c # cs)))"

text \<open>\<open>int(value)\<close>: None stands for the TypeError or ValueError it raises.\<close>

fun py_int :: "pyval \<Rightarrow> int option" where
  "py_int (PInt i) = Some i"
| "py_int (PBool b) = Some (if b then 1 else 0)"
| "py_int (PFloat q) = Some (if q < 0 then - \<lfloor>- q\<rfloor> else \<lfloor>q\<rfloor>)"
| "py_int (PStr s) = parse_int s"
| "py_int _ = None"

text \<open>
  \<open>str(value)\<close> for the values whose text the code stores or compares; containers and
  floats only reach error messages and have a fixed text here.
\<close>

fun py_str :: "pyval \<Rightarrow> string" where
  "py_str PNone = ''None''"
| "py_str (PBool b) = (if b then ''True'' else ''False'')"
| "py_str (PInt i) = int_text i"
| "py_str (PStr s) = s"
| "py_str _ = ''...''"

text \<open>The text of an error, \<open>str(error)\<close>.\<close>

fun error_text :: "py_error \<Rightarrow> string" where
  "error_text (ValueError s) = s"
| "error_text (TypeError s) = s"
| "error_text (IndexError s) = s"
| "error_text (KeyError s) = [CHR 0x27] @ s @ [CHR 0x27]"
| "error_text (AttributeError s) = s"
| "error_text (RuntimeError s) = s"
| "error_text NoResultFound = ''No row was found when one was required''"
| "error_text MultipleResultsFound =
     ''Multiple rows were found when exactly one was required''"
| "error_text ZeroDivisionError = ''division by zero''"
| "error_text (StageExecutionCancelled s) = s"
| "error_text (StorageQuotaExceeded a b c) =
     ''Organization storage quota exceeded: '' @ int_text a @ '' + '' @ int_text b @ '' > '' @ int_text c @ '' bytes''"
| "error_text (KubernetesApiError code detail) = ''Kubernetes API HTTP '' @ int_text code @ '': '' @ detail"

text \<open>
  \<open>value.get\<close>, iteration and item access on a JSON value: the attribute, type or key
  error of the language when the value has another type or no such item.
\<close>

definition as_items :: "pyval \<Rightarrow> pyval list res" where
  "as_items v =
     (case v of
        PList xs \<Rightarrow> Inr xs
      | PStr s \<Rightarrow> Inr (map (\<lambda>c. PStr [c]) s)
      | _ \<Rightarrow> Inl (TypeError ''object is not subscriptable''))"

definition require_key :: "dict \<Rightarrow> string \<Rightarrow> pyval res" where
  "require_key d k = (case fmlookup d k of None \<Rightarrow> Inl (KeyError k) | Some v \<Rightarrow> Inr v)"

definition as_dict :: "pyval \<Rightarrow> dict res" where
  "as_dict v = (case v of PDict d \<Rightarrow> Inr d | _ \<Rightarrow> Inl (AttributeError ''object has no attribute get''))"

definition value_get :: "pyval \<Rightarrow> string \<Rightarrow> pyval res" where
  "value_get v k = rbind (as_dict v) (\<lambda>d. Inr (dget d k))"

subsection \<open>Patterns of names\<close>

definition hex_char :: "char \<Rightarrow> bool" where
  "hex_char c \<longleftrightarrow> c \<in> set ''0123456789abcdef''"

text \<open>
  A full match of \<open>[first](?:[char]{0,n}[first])?\<close>, the shape of every identifier
  the services accept.
\<close>

definition label_pattern :: "(char \<Rightarrow> bool) \<Rightarrow> (char \<Rightarrow> bool) \<Rightarrow> nat \<Rightarrow> string \<Rightarrow> bool" where
  "label_pattern edge inner n s \<longleftrightarrow>
     s \<noteq> [] \<and> edge (hd s) \<and> (tl s \<noteq> [] \<longrightarrow>
       edge (last s) \<and> list_all inner (butlast (tl s)) \<and> length s \<le> n + 2)"

text \<open>The segments of a slash-separated path.\<close>

fun path_segments :: "string \<Rightarrow> string list" where
  "path_segments [] = [[]]"
| "path_segments (c # s) =
     (if c = CHR ''/'' then [] # path_segments s
      else (case path_segments s of [] \<Rightarrow> [[c]] | seg # segs \<Rightarrow> (c # seg) # segs))"

text \<open>\<open>round(100 * a / b)\<close> and its like: round half to even, as Python 3 does.\<close>

definition py_round :: "rat \<Rightarrow> int" where
  "py_round q =
     (let f = \<lfloor>q\<rfloor>; d = q - of_int f
      in if d < 1 / 2 then f else if d > 1 / 2 then f + 1
         else if even f then f else f + 1)"

lemma py_round_of_int [simp]: "py_round (of_int n) = n"
  by (simp add: py_round_def)

lemma py_round_mono_int: "q \<le> of_int n \<Longrightarrow> py_round q \<le> n"
proof -
  assume le: "q \<le> of_int n"
  show ?thesis
  proof (cases "q = of_int n")
    case True
    then show ?thesis by simp
  next
    case False
    with le have "\<lfloor>q\<rfloor> < n" by (simp add: floor_less_iff)
    then show ?thesis by (auto simp: py_round_def Let_def)
  qed
qed

lemma py_round_ge_int: "of_int n \<le> q \<Longrightarrow> n \<le> py_round q"
proof -
  assume "of_int n \<le> q"
  then have "n \<le> \<lfloor>q\<rfloor>" by (simp add: le_floor_iff)
  then show ?thesis by (auto simp: py_round_def Let_def)
qed

subsection \<open>Lists of rows\<close>

text \<open>First occurrences in order, the key order of a dictionary filled from a list.\<close>

definition first_keys :: "'a list \<Rightarrow> 'a list" where
  "first_keys xs = rev (remdups (rev xs))"

lemma set_first_keys [simp]: "set (first_keys xs) = set xs"
  by (simp add: first_keys_def)

lemma distinct_first_keys [simp]: "distinct (first_keys xs)"
  by (simp add: first_keys_def)

text \<open>Indexing: negative indices count from the end, others must be in range.\<close>

definition py_nth :: "'a list \<Rightarrow> int \<Rightarrow> 'a res" where
  "py_nth xs i =
     (let j = (if i < 0 then i + int (length xs) else i)
      in if 0 \<le> j \<and> j < int (length xs) then Inr (xs ! nat j) else Inl (IndexError ''list index out of range''))"

lemma py_nth_Inr: "0 \<le> i \<Longrightarrow> i < int (length xs) \<Longrightarrow> py_nth xs i = Inr (xs ! nat i)"
  by (simp add: py_nth_def)

text \<open>\<open>range(a, b, s)\<close> for a positive step.\<close>

definition py_range :: "int \<Rightarrow> int \<Rightarrow> int \<Rightarrow> int list" where
  "py_range a b s = map (\<lambda>k. a + int k * s) [0..<nat ((b - a + s - 1) div s)]"

text \<open>A step that always succeeds maps as \<open>map\<close> does.\<close>

lemma rmap_Inr: "(\<And>x. x \<in> set xs \<Longrightarrow> f x = Inr (g x)) \<Longrightarrow> rmap f xs = Inr (map g xs)"
  by (induction xs) auto

text \<open>\<open>query.one()\<close> and \<open>query.one_or_none()\<close>.\<close>

fun one_row :: "'a list \<Rightarrow> 'a res" where
  "one_row [] = Inl NoResultFound"
| "one_row [x] = Inr x"
| "one_row _ = Inl MultipleResultsFound"

fun one_or_none :: "'a list \<Rightarrow> 'a option res" where
  "one_or_none [] = Inr None"
| "one_or_none [x] = Inr (Some x)"
| "one_or_none _ = Inl MultipleResultsFound"

lemma one_row_Inr [res_elims]: "one_row xs = Inr x \<longleftrightarrow> xs = [x]"
  by (induction xs rule: one_row.induct) auto

lemma one_or_none_Some [res_elims]: "one_or_none xs = Inr (Some x) \<longleftrightarrow> xs = [x]"
  by (induction xs rule: one_or_none.induct) auto

lemma one_or_none_None [res_elims]: "one_or_none xs = Inr None \<longleftrightarrow> xs = []"
  by (induction xs rule: one_or_none.induct) auto

text \<open>\<open>query.first()\<close>.\<close>

definition first_row :: "'a list \<Rightarrow> 'a option" where
  "first_row xs = (case xs of [] \<Rightarrow> None | x # _ \<Rightarrow> Some x)"

lemma first_row_None [simp]: "first_row xs = None \<longleftrightarrow> xs = []"
  by (simp add: first_row_def split: list.splits)

lemma first_row_Some_mem: "first_row xs = Some x \<Longrightarrow> x \<in> set xs"
  by (auto simp: first_row_def split: list.splits)

text \<open>Rewrite the rows that satisfy a predicate, the others stay.\<close>

definition update_where :: "('a \<Rightarrow> bool) \<Rightarrow> ('a \<Rightarrow> 'a) \<Rightarrow> 'a list \<Rightarrow> 'a list" where
  "update_where P f xs = map (\<lambda>x. if P x then f x else x) xs"

lemma update_where_Nil [simp]: "update_where P f [] = []"
  by (simp add: update_where_def)

lemma update_where_Cons [simp]:
  "update_where P f (x # xs) = (if P x then f x else x) # update_where P f xs"
  by (simp add: update_where_def)

lemma length_update_where [simp]: "length (update_where P f xs) = length xs"
  by (simp add: update_where_def)

lemma map_update_where:
  "(\<And>x. P x \<Longrightarrow> g (f x) = g x) \<Longrightarrow> map g (update_where P f xs) = map g xs"
  by (simp add: update_where_def)

lemma update_where_all:
  "(\<And>x. x \<in> set xs \<Longrightarrow> Q x) \<Longrightarrow> (\<And>x. x \<in> set xs \<Longrightarrow> P x \<Longrightarrow> Q x \<Longrightarrow> Q (f x)) \<Longrightarrow>
   y \<in> set (update_where P f xs) \<Longrightarrow> Q y"
  by (auto simp: update_where_def)

lemma distinct_submset: "mset xs \<subseteq># mset ys \<Longrightarrow> distinct ys \<Longrightarrow> distinct xs"
proof -
  assume sub: "mset xs \<subseteq># mset ys" and d: "distinct ys"
  have "count (mset xs) a = (if a \<in> set xs then 1 else 0)" for a
  proof -
    have "count (mset xs) a \<le> count (mset ys) a" using sub by (rule mset_subset_eq_count)
    also have "\<dots> \<le> 1" using d by (simp add: distinct_count_atmost_1)
    finally show ?thesis by (auto simp: count_mset_0_iff le_Suc_eq)
  qed
  then show "distinct xs" unfolding distinct_count_atmost_1 by blast
qed

lemma sum_list_nonneg_int: "(\<And>x. x \<in> set xs \<Longrightarrow> 0 \<le> f x) \<Longrightarrow> (0::int) \<le> sum_list (map f xs)"
  by (induction xs) auto

end
