(* ===== verification/StageContracts.thy ===== *)
theory StageContracts
  imports Prelude
begin

text \<open>
  The version-two stage contract shared by the API and the workers
  (\<open>shared/stage_contracts.py\<close>): the stages and their dependencies, the resource
  classes with their envelopes, the choice of a class for a stage, and the
  validation of a stage selection.

  Stages and resource classes are closed enumerations in the code (\<open>Literal\<close> types
  checked by the database), so they are datatypes; their names are \<open>stage_name\<close> and
  \<open>class_name\<close>.
\<close>

subsection \<open>Stages\<close>

datatype stage_id =
    Reconstruction | GaussianTraining | GaussianFiltering
  | Rasterization | Detection | GaussianViewer

fun stage_name :: "stage_id \<Rightarrow> string" where
  "stage_name Reconstruction = ''reconstruction''"
| "stage_name GaussianTraining = ''gaussian_training''"
| "stage_name GaussianFiltering = ''gaussian_filtering''"
| "stage_name Rasterization = ''rasterization''"
| "stage_name Detection = ''detection''"
| "stage_name GaussianViewer = ''gaussian_viewer''"

definition STAGE_DAG_VERSION :: int where
  "STAGE_DAG_VERSION = 2"

definition STAGE_ORDER :: "stage_id list" where
  "STAGE_ORDER =
     [Reconstruction, GaussianTraining, GaussianFiltering,
      Rasterization, Detection, GaussianViewer]"

fun stage_dependencies :: "stage_id \<Rightarrow> stage_id list" where
  "stage_dependencies Reconstruction = []"
| "stage_dependencies GaussianTraining = [Reconstruction]"
| "stage_dependencies GaussianFiltering = [GaussianTraining]"
| "stage_dependencies Rasterization = [GaussianFiltering]"
| "stage_dependencies Detection = [Rasterization]"
| "stage_dependencies GaussianViewer = [GaussianFiltering]"

definition NON_BLOCKING_STAGES :: "stage_id set" where
  "NON_BLOCKING_STAGES = {GaussianViewer}"

fun stage_artifact_kind :: "stage_id \<Rightarrow> string" where
  "stage_artifact_kind Reconstruction = ''reconstruction_workspace''"
| "stage_artifact_kind GaussianTraining = ''gaussian_training_workspace''"
| "stage_artifact_kind GaussianFiltering = ''gaussian_filtering_workspace''"
| "stage_artifact_kind Rasterization = ''raster_product_workspace''"
| "stage_artifact_kind Detection = ''detection_workspace''"
| "stage_artifact_kind GaussianViewer = ''gaussian_viewer_bundle''"

subsection \<open>Resource classes\<close>

datatype resource_class = CpuStandard | CpuHighMemory | GpuStandard | GpuGeometry | GpuHighMemory

fun class_name :: "resource_class \<Rightarrow> string" where
  "class_name CpuStandard = ''cpu-standard''"
| "class_name CpuHighMemory = ''cpu-high-memory''"
| "class_name GpuStandard = ''gpu-standard''"
| "class_name GpuGeometry = ''gpu-geometry''"
| "class_name GpuHighMemory = ''gpu-high-memory''"

record resource_class_spec =
  cpu_request :: string
  cpu_limit :: string
  memory_request :: string
  memory_limit :: string
  ephemeral_storage_request :: string
  ephemeral_storage_limit :: string
  gpu_count :: int
  minimum_vram_gib :: int

definition RESOURCE_CLASS_KEYS :: "resource_class list" where
  "RESOURCE_CLASS_KEYS = [CpuStandard, CpuHighMemory, GpuStandard, GpuGeometry, GpuHighMemory]"

fun resource_classes :: "resource_class \<Rightarrow> resource_class_spec" where
  "resource_classes CpuStandard =
     \<lparr>cpu_request = ''2'', cpu_limit = ''8'', memory_request = ''4Gi'', memory_limit = ''16Gi'',
      ephemeral_storage_request = ''10Gi'', ephemeral_storage_limit = ''50Gi'',
      gpu_count = 0, minimum_vram_gib = 0\<rparr>"
| "resource_classes CpuHighMemory =
     \<lparr>cpu_request = ''4'', cpu_limit = ''12'', memory_request = ''16Gi'', memory_limit = ''64Gi'',
      ephemeral_storage_request = ''40Gi'', ephemeral_storage_limit = ''200Gi'',
      gpu_count = 0, minimum_vram_gib = 0\<rparr>"
| "resource_classes GpuStandard =
     \<lparr>cpu_request = ''2'', cpu_limit = ''8'', memory_request = ''8Gi'', memory_limit = ''24Gi'',
      ephemeral_storage_request = ''20Gi'', ephemeral_storage_limit = ''60Gi'',
      gpu_count = 1, minimum_vram_gib = 8\<rparr>"
| "resource_classes GpuGeometry =
     \<lparr>cpu_request = ''4'', cpu_limit = ''12'', memory_request = ''16Gi'', memory_limit = ''32Gi'',
      ephemeral_storage_request = ''40Gi'', ephemeral_storage_limit = ''120Gi'',
      gpu_count = 1, minimum_vram_gib = 12\<rparr>"
| "resource_classes GpuHighMemory =
     \<lparr>cpu_request = ''4'', cpu_limit = ''12'', memory_request = ''24Gi'', memory_limit = ''64Gi'',
      ephemeral_storage_request = ''40Gi'', ephemeral_storage_limit = ''120Gi'',
      gpu_count = 1, minimum_vram_gib = 24\<rparr>"

definition class_of_name :: "string \<Rightarrow> resource_class option" where
  "class_of_name s = find (\<lambda>c. class_name c = s) RESOURCE_CLASS_KEYS"

fun default_stage_resource_class :: "stage_id \<Rightarrow> resource_class" where
  "default_stage_resource_class Reconstruction = GpuGeometry"
| "default_stage_resource_class GaussianTraining = GpuHighMemory"
| "default_stage_resource_class GaussianFiltering = GpuHighMemory"
| "default_stage_resource_class Rasterization = GpuStandard"
| "default_stage_resource_class Detection = GpuStandard"
| "default_stage_resource_class GaussianViewer = CpuHighMemory"

definition RASTER_HIGH_MEMORY_GAUSSIAN_THRESHOLD :: int where
  "RASTER_HIGH_MEMORY_GAUSSIAN_THRESHOLD = 3000000"

definition SAM3_MINIMUM_VRAM_GIB :: int where
  "SAM3_MINIMUM_VRAM_GIB = 12"

text \<open>
  The profile text is \<open>str(value or "").strip().lower()\<close>; the text of a truthy value
  that is not a string never starts with the profile prefix, so it is empty here.
\<close>

definition rasterization_requires_high_memory :: "dict \<Rightarrow> bool" where
  "rasterization_requires_high_memory parameters =
     (let profile = (case dget parameters ''quality_profile'' of
                       PStr s \<Rightarrow> str_lower (str_strip s) | _ \<Rightarrow> [])
      in if starts_with ''high-quality'' profile then True
         else (case py_or (dget parameters ''colmap_params'') (PDict fmempty) of
                 PDict colmap \<Rightarrow>
                   (case py_int (py_or (dget colmap ''gs_cap_max'') (PInt 0)) of
                      None \<Rightarrow> False
                    | Some cap \<Rightarrow> cap > RASTER_HIGH_MEMORY_GAUSSIAN_THRESHOLD)
               | _ \<Rightarrow> False))"

definition resource_class_meets_gpu_envelope :: "resource_class \<Rightarrow> resource_class \<Rightarrow> bool" where
  "resource_class_meets_gpu_envelope candidate required \<longleftrightarrow>
     (let c = resource_classes candidate; r = resource_classes required
      in gpu_count c \<ge> gpu_count r \<and> minimum_vram_gib c \<ge> minimum_vram_gib r)"

text \<open>
  A quantity is a decimal number with an optional binary suffix; \<open>float(value)\<close> is
  modelled on the decimal integers, the only texts the resource classes hold.
\<close>

definition resource_quantity :: "string \<Rightarrow> int option" where
  "resource_quantity value =
     (if ends_with ''Ki'' value then map_option (\<lambda>n. n * 1024) (parse_dec 0 False (take (length value - 2) value))
      else if ends_with ''Mi'' value then map_option (\<lambda>n. n * 1024 ^ 2) (parse_dec 0 False (take (length value - 2) value))
      else if ends_with ''Gi'' value then map_option (\<lambda>n. n * 1024 ^ 3) (parse_dec 0 False (take (length value - 2) value))
      else parse_dec 0 False value)"

definition resource_quantity_fields :: "(resource_class_spec \<Rightarrow> string) list" where
  "resource_quantity_fields =
     [cpu_request, cpu_limit, memory_request, memory_limit,
      ephemeral_storage_request, ephemeral_storage_limit]"

definition quantity_ge :: "int option \<Rightarrow> int option \<Rightarrow> bool" where
  "quantity_ge a b = (case (a, b) of (Some x, Some y) \<Rightarrow> x \<ge> y | _ \<Rightarrow> False)"

definition resource_class_meets_envelope :: "resource_class \<Rightarrow> resource_class \<Rightarrow> bool" where
  "resource_class_meets_envelope candidate required \<longleftrightarrow>
     (let c = resource_classes candidate; r = resource_classes required
      in list_all (\<lambda>name. quantity_ge (resource_quantity (name c)) (resource_quantity (name r)))
           resource_quantity_fields
         \<and> resource_class_meets_gpu_envelope candidate required)"

text \<open>The node labels a class requires, as (label, value) items.\<close>

definition resource_class_node_selector :: "resource_class \<Rightarrow> (string \<times> string) list" where
  "resource_class_node_selector cls =
     (let spec = resource_classes cls
      in if gpu_count spec < 1 then []
         else (''nvidia.com/gpu.present'', ''true'') #
              (if minimum_vram_gib spec > 0
               then [(''droneai.io/gpu-vram-at-least-'' @ int_text (minimum_vram_gib spec) @ ''gb'', ''true'')]
               else []))"

text \<open>\<open>min(xs, key=f)\<close> keeps the first of the smallest.\<close>

fun min_by :: "('a \<Rightarrow> int) \<Rightarrow> 'a list \<Rightarrow> 'a option" where
  "min_by f [] = None"
| "min_by f (x # xs) =
     (case min_by f xs of None \<Rightarrow> Some x | Some y \<Rightarrow> if f y < f x then Some y else Some x)"

definition sam3_compatible_classes :: "resource_class list" where
  "sam3_compatible_classes =
     filter (\<lambda>c. gpu_count (resource_classes c) \<ge> 1
                 \<and> minimum_vram_gib (resource_classes c) \<ge> SAM3_MINIMUM_VRAM_GIB)
       RESOURCE_CLASS_KEYS"

text \<open>The class a stage needs before any request is looked at.\<close>

definition stage_baseline_class :: "stage_id \<Rightarrow> dict \<Rightarrow> resource_class res" where
  "stage_baseline_class stage parameters =
     (let baseline = (if stage = Rasterization \<and> rasterization_requires_high_memory parameters
                      then GpuHighMemory else default_stage_resource_class stage)
      in if stage = Detection
         then (case py_or (dget parameters ''ai'') (PDict fmempty) of
                 PDict ai \<Rightarrow>
                   (if py_eq (dget ai ''backend'') (PStr ''sam3'')
                    then (case min_by (\<lambda>c. minimum_vram_gib (resource_classes c)) sam3_compatible_classes of
                            Some c \<Rightarrow> Inr c
                          | None \<Rightarrow> Inl (ValueError ''min() iterable argument is empty''))
                    else Inr baseline)
               | _ \<Rightarrow> Inl (AttributeError ''object has no attribute get''))
         else Inr baseline)"

definition resource_class_for_stage :: "stage_id \<Rightarrow> dict \<Rightarrow> resource_class res" where
  "resource_class_for_stage stage parameters =
     rbind (stage_baseline_class stage parameters) (\<lambda>baseline.
       (case dget parameters ''resource_class'' of
          PNone \<Rightarrow> Inr baseline
        | PList _ \<Rightarrow> Inl (TypeError ''unhashable type'')
        | PDict _ \<Rightarrow> Inl (TypeError ''unhashable type'')
        | requested \<Rightarrow>
            (case (case requested of PStr s \<Rightarrow> class_of_name s | _ \<Rightarrow> None) of
               None \<Rightarrow> Inl (ValueError (''Unknown stage resource class: '' @ py_str requested))
             | Some c \<Rightarrow>
                 (if resource_class_meets_envelope c baseline then Inr c
                  else Inl (ValueError (''Resource class '' @ class_name c @ '' is below the ''
                              @ class_name baseline @ '' resource envelope''))))))"

record stage_catalog_entry =
  sc_id :: stage_id
  sc_dependencies :: "stage_id list"
  sc_artifact_kind :: string
  sc_resource_class :: resource_class
  sc_failure_policy :: string

definition stage_dag_catalog :: "stage_catalog_entry list" where
  "stage_dag_catalog =
     map (\<lambda>stage. \<lparr>sc_id = stage, sc_dependencies = stage_dependencies stage,
                   sc_artifact_kind = stage_artifact_kind stage,
                   sc_resource_class = default_stage_resource_class stage,
                   sc_failure_policy = (if stage \<in> NON_BLOCKING_STAGES
                                        then ''independent'' else ''blocking'')\<rparr>)
       STAGE_ORDER"

definition ordered_stages :: "stage_id list \<Rightarrow> stage_id list res" where
  "ordered_stages stages =
     (if \<not> distinct stages then Inl (ValueError ''Mission phases must not contain duplicates'')
      else if stages = [] then Inl (ValueError ''At least one mission phase must be selected'')
      else Inr (filter (\<lambda>s. s \<in> set stages) STAGE_ORDER))"

definition missing_dependencies ::
  "stage_id list \<Rightarrow> (stage_id \<rightharpoonup> string) \<Rightarrow> stage_id \<Rightarrow> stage_id list" where
  "missing_dependencies selected upstream stage =
     filter (\<lambda>d. d \<notin> set selected \<and> upstream d = None) (stage_dependencies stage)"

definition validate_stage_selection ::
  "stage_id list \<Rightarrow> (stage_id \<rightharpoonup> string) \<Rightarrow> stage_id list res" where
  "validate_stage_selection stages upstream =
     rbind (ordered_stages stages) (\<lambda>ordered.
       (case find (\<lambda>s. missing_dependencies ordered upstream s \<noteq> []) ordered of
          None \<Rightarrow> Inr ordered
        | Some s \<Rightarrow> Inl (ValueError (''Stage '' @ stage_name s
                      @ '' requires selected phase or exact artifact for: ''
                      @ join_text '', '' (map stage_name (missing_dependencies ordered upstream s))))))"

subsection \<open>Facts about the contract\<close>

lemma set_STAGE_ORDER [simp]: "set STAGE_ORDER = UNIV"
proof -
  have "s \<in> set STAGE_ORDER" for s by (cases s) (simp_all add: STAGE_ORDER_def)
  then show ?thesis by blast
qed

lemma distinct_STAGE_ORDER [simp]: "distinct STAGE_ORDER"
  by (simp add: STAGE_ORDER_def)

lemma set_RESOURCE_CLASS_KEYS [simp]: "set RESOURCE_CLASS_KEYS = UNIV"
proof -
  have "c \<in> set RESOURCE_CLASS_KEYS" for c by (cases c) (simp_all add: RESOURCE_CLASS_KEYS_def)
  then show ?thesis by blast
qed

lemma stage_name_inj: "stage_name a = stage_name b \<longleftrightarrow> a = b"
  by (cases a; cases b) simp_all

lemma class_name_inj: "class_name a = class_name b \<longleftrightarrow> a = b"
  by (cases a; cases b) simp_all

lemma class_of_name_name [simp]: "class_of_name (class_name c) = Some c"
  by (cases c) (simp_all add: class_of_name_def RESOURCE_CLASS_KEYS_def)

lemma class_of_name_SomeD: "class_of_name s = Some c \<Longrightarrow> s = class_name c"
  by (auto simp: class_of_name_def find_Some_iff)

text \<open>The position of a stage in the order; dependencies come earlier.\<close>

fun stage_rank :: "stage_id \<Rightarrow> nat" where
  "stage_rank Reconstruction = 0"
| "stage_rank GaussianTraining = 1"
| "stage_rank GaussianFiltering = 2"
| "stage_rank Rasterization = 3"
| "stage_rank Detection = 4"
| "stage_rank GaussianViewer = 5"

lemma stage_rank_less: "stage_rank s < 6"
  by (cases s) simp_all

lemma stage_rank_inj: "stage_rank a = stage_rank b \<longleftrightarrow> a = b"
  by (cases a; cases b) simp_all

lemma STAGE_ORDER_nth: "STAGE_ORDER ! stage_rank s = s"
  by (cases s) (simp_all add: STAGE_ORDER_def)

lemma take_rank_STAGE_ORDER: "set (take (stage_rank s) STAGE_ORDER) = {d. stage_rank d < stage_rank s}"
proof -
  have "d \<in> set (take (stage_rank s) STAGE_ORDER) \<longleftrightarrow> stage_rank d < stage_rank s" for d
    by (cases s; cases d) (simp_all add: STAGE_ORDER_def)
  then show ?thesis by blast
qed

lemma dependency_earlier: "d \<in> set (stage_dependencies s) \<Longrightarrow> stage_rank d < stage_rank s"
  by (cases s) simp_all

lemmas quantity_simps =
  resource_quantity_def quantity_ge_def ends_with_def starts_with_def is_digit_def

text \<open>The numbers behind the quantity texts of every class.\<close>

lemma resource_quantities:
  "map (resource_quantity \<circ> (\<lambda>f. f (resource_classes CpuStandard))) resource_quantity_fields =
     [Some 2, Some 8, Some (4 * 1024 ^ 3), Some (16 * 1024 ^ 3), Some (10 * 1024 ^ 3), Some (50 * 1024 ^ 3)]"
  "map (resource_quantity \<circ> (\<lambda>f. f (resource_classes CpuHighMemory))) resource_quantity_fields =
     [Some 4, Some 12, Some (16 * 1024 ^ 3), Some (64 * 1024 ^ 3), Some (40 * 1024 ^ 3), Some (200 * 1024 ^ 3)]"
  "map (resource_quantity \<circ> (\<lambda>f. f (resource_classes GpuStandard))) resource_quantity_fields =
     [Some 2, Some 8, Some (8 * 1024 ^ 3), Some (24 * 1024 ^ 3), Some (20 * 1024 ^ 3), Some (60 * 1024 ^ 3)]"
  "map (resource_quantity \<circ> (\<lambda>f. f (resource_classes GpuGeometry))) resource_quantity_fields =
     [Some 4, Some 12, Some (16 * 1024 ^ 3), Some (32 * 1024 ^ 3), Some (40 * 1024 ^ 3), Some (120 * 1024 ^ 3)]"
  "map (resource_quantity \<circ> (\<lambda>f. f (resource_classes GpuHighMemory))) resource_quantity_fields =
     [Some 4, Some 12, Some (24 * 1024 ^ 3), Some (64 * 1024 ^ 3), Some (40 * 1024 ^ 3), Some (120 * 1024 ^ 3)]"
  by (simp_all add: resource_quantity_fields_def quantity_simps)


subsection \<open>Stages ordered by their position\<close>

instantiation stage_id :: linorder
begin

definition less_eq_stage_id :: "stage_id \<Rightarrow> stage_id \<Rightarrow> bool" where
  "less_eq_stage_id a b \<longleftrightarrow> stage_rank a \<le> stage_rank b"

definition less_stage_id :: "stage_id \<Rightarrow> stage_id \<Rightarrow> bool" where
  "less_stage_id a b \<longleftrightarrow> stage_rank a < stage_rank b"

instance
  by standard (auto simp: less_eq_stage_id_def less_stage_id_def stage_rank_inj)

end

lemma sorted_STAGE_ORDER: "sorted STAGE_ORDER"
  by (simp add: STAGE_ORDER_def less_eq_stage_id_def)

subsection \<open>Resource envelopes as an interface\<close>

text \<open>
  What the clients of the envelope test rely on: it is a preorder on the classes.
  A class accepted against one requirement stays accepted against every weaker one.
\<close>

locale envelope =
  fixes meets :: "'c \<Rightarrow> 'c \<Rightarrow> bool"
  assumes meets_refl: "meets c c"
    and meets_trans: "meets a b \<Longrightarrow> meets b c \<Longrightarrow> meets a c"
begin

definition upgrade :: "'c \<Rightarrow> 'c \<Rightarrow> 'c" where
  "upgrade actual required = (if meets actual required then actual else required)"

lemma upgrade_meets: "meets (upgrade actual required) required"
  by (simp add: upgrade_def meets_refl)

lemma upgrade_idem: "upgrade (upgrade actual required) required = upgrade actual required"
  by (simp add: upgrade_def meets_refl)

lemma upgrade_weaker: "meets required weaker \<Longrightarrow> meets (upgrade actual required) weaker"
  using upgrade_meets meets_trans by blast

end

text \<open>The fifteen comparisons that hold between two of the five classes.\<close>

fun meets_table :: "resource_class \<Rightarrow> resource_class list" where
  "meets_table CpuStandard = [CpuStandard]"
| "meets_table CpuHighMemory = [CpuStandard, CpuHighMemory]"
| "meets_table GpuStandard = [CpuStandard, GpuStandard]"
| "meets_table GpuGeometry = [CpuStandard, GpuStandard, GpuGeometry]"
| "meets_table GpuHighMemory = [CpuStandard, GpuStandard, GpuGeometry, GpuHighMemory]"

lemma meets_envelope_table:
  "resource_class_meets_envelope a b \<longleftrightarrow> b \<in> set (meets_table a)"
  by (cases a; cases b)
     (simp_all add: resource_class_meets_envelope_def resource_class_meets_gpu_envelope_def
        resource_quantity_fields_def quantity_simps)

interpretation env: envelope resource_class_meets_envelope
proof unfold_locales
  show "resource_class_meets_envelope c c" for c
    by (cases c) (simp_all add: meets_envelope_table)
  show "resource_class_meets_envelope a c"
    if "resource_class_meets_envelope a b" and "resource_class_meets_envelope b c" for a b c
    using that by (cases a; cases b; cases c) (simp_all add: meets_envelope_table)
qed

lemma sam3_class: "min_by (\<lambda>c. minimum_vram_gib (resource_classes c)) sam3_compatible_classes = Some GpuGeometry"
  by (simp add: sam3_compatible_classes_def RESOURCE_CLASS_KEYS_def SAM3_MINIMUM_VRAM_GIB_def)

lemma baseline_cases:
  assumes "stage_baseline_class stage parameters = Inr b"
  shows "b = default_stage_resource_class stage
    \<or> (stage = Rasterization \<and> b = GpuHighMemory) \<or> (stage = Detection \<and> b = GpuGeometry)"
proof (cases "stage = Detection")
  case True
  then have "stage \<noteq> Rasterization" by simp
  with assms show ?thesis
    by (simp only: stage_baseline_class_def sam3_class Let_def True simp_thms if_True if_False option.case)
       (simp split: pyval.splits if_splits)
next
  case False
  with assms show ?thesis
    by (auto simp: stage_baseline_class_def Let_def split: if_splits)
qed

lemma baseline_meets_default:
  "stage_baseline_class stage parameters = Inr b \<Longrightarrow>
   resource_class_meets_envelope b (default_stage_resource_class stage)"
  by (drule baseline_cases, cases stage) (auto simp: meets_envelope_table)

lemma resource_class_for_stage_cases:
  assumes "resource_class_for_stage stage parameters = Inr c"
  shows "\<exists>b. stage_baseline_class stage parameters = Inr b \<and>
    ((c = b \<and> dget parameters ''resource_class'' = PNone)
     \<or> (dget parameters ''resource_class'' = PStr (class_name c)
        \<and> resource_class_meets_envelope c b))"
proof -
  obtain b where b: "stage_baseline_class stage parameters = Inr b"
    using assms by (auto simp: resource_class_for_stage_def rbind_Inr_iff)
  show ?thesis
  proof (cases "dget parameters ''resource_class''")
    case (PStr s)
    show ?thesis
    proof (cases "class_of_name s")
      case None
      with assms b PStr show ?thesis by (simp add: resource_class_for_stage_def)
    next
      case (Some d)
      then have "s = class_name d" by (rule class_of_name_SomeD)
      with assms b PStr show ?thesis
        by (simp add: resource_class_for_stage_def split: if_splits)
    qed
  qed (use assms b in \<open>simp_all add: resource_class_for_stage_def\<close>)
qed

lemma resource_class_for_stage_meets_baseline:
  assumes "resource_class_for_stage stage parameters = Inr c"
  shows "\<exists>b. stage_baseline_class stage parameters = Inr b \<and> resource_class_meets_envelope c b"
  using resource_class_for_stage_cases [OF assms] env.meets_refl by blast

lemma resource_class_for_stage_meets_default:
  "resource_class_for_stage stage parameters = Inr c \<Longrightarrow>
   resource_class_meets_envelope c (default_stage_resource_class stage)"
  using resource_class_for_stage_meets_baseline baseline_meets_default env.meets_trans by blast

subsection \<open>Selections of stages\<close>

lemma ordered_stages_Inr:
  "ordered_stages stages = Inr ordered \<longleftrightarrow>
   distinct stages \<and> stages \<noteq> [] \<and> ordered = filter (\<lambda>s. s \<in> set stages) STAGE_ORDER"
  by (auto simp: ordered_stages_def)

lemma ordered_stages_set: "ordered_stages stages = Inr ordered \<Longrightarrow> set ordered = set stages"
  by (auto simp: ordered_stages_Inr)

lemma ordered_stages_sorted: "ordered_stages stages = Inr ordered \<Longrightarrow> sorted ordered \<and> distinct ordered"
  using sorted_filter [of id STAGE_ORDER] sorted_STAGE_ORDER by (auto simp: ordered_stages_Inr)

lemma missing_dependencies_empty:
  "missing_dependencies selected upstream s = [] \<longleftrightarrow>
   (\<forall>d \<in> set (stage_dependencies s). d \<in> set selected \<or> upstream d \<noteq> None)"
  by (auto simp: missing_dependencies_def filter_empty_conv)

lemma validate_stage_selection_Inr:
  "validate_stage_selection stages upstream = Inr ordered \<longleftrightarrow>
   ordered_stages stages = Inr ordered \<and>
   (\<forall>s \<in> set ordered. \<forall>d \<in> set (stage_dependencies s). d \<in> set ordered \<or> upstream d \<noteq> None)"
  by (auto simp: validate_stage_selection_def rbind_Inr_iff find_None_iff missing_dependencies_empty
      split: option.splits)

end
