(* ===== verification/Tenancy.thy ===== *)
theory Tenancy
  imports Prelude
begin

text \<open>
  The organization boundary (\<open>shared/tenancy.py\<close>): validation of organization
  identifiers and object-key components, the versioned key prefixes of datasets and
  missions, the durable namespace of a mission, and the organization bound to the
  current task, whose context variable is passed explicitly.
\<close>

subsection \<open>Identifiers and prefixes\<close>

definition LEGACY_ORGANIZATION_ID :: string where
  "LEGACY_ORGANIZATION_ID = ''legacy-unassigned''"

definition object_key_component :: "string \<Rightarrow> string \<Rightarrow> string res" where
  "object_key_component value field_name =
     (let normalized = str_strip value
      in if normalized = [] \<or> normalized \<in> {''.'', ''..''} \<or> CHR ''/'' \<in> set normalized
            \<or> CHR 0x5C \<in> set normalized \<or> CHR 0x00 \<in> set normalized
         then Inl (ValueError (field_name @ '' must be one safe object-key component''))
         else Inr normalized)"

definition id_char :: "char \<Rightarrow> bool" where
  "id_char c \<longleftrightarrow> is_lower c \<or> is_digit c"

text \<open>A full match of \<open>[a-z0-9](?:[a-z0-9-]{0,62}[a-z0-9])?\<close>.\<close>

definition organization_id_pattern :: "string \<Rightarrow> bool" where
  "organization_id_pattern s \<longleftrightarrow>
     s \<noteq> [] \<and> length s \<le> 64 \<and> id_char (hd s) \<and> id_char (last s)
     \<and> list_all (\<lambda>c. id_char c \<or> c = CHR ''-'') s"

definition validate_organization_id :: "string \<Rightarrow> string res" where
  "validate_organization_id value =
     (let normalized = str_strip value
      in if \<not> organization_id_pattern normalized
         then Inl (ValueError
           ''organization_id must be a lower-case DNS-like identifier of 1-64 characters'')
         else Inr normalized)"

definition dataset_prefix :: "string \<Rightarrow> string \<Rightarrow> string res" where
  "dataset_prefix organization_id dataset_name =
     rbind (validate_organization_id organization_id) (\<lambda>organization.
     rbind (object_key_component dataset_name ''dataset_name'') (\<lambda>dataset.
       if organization = LEGACY_ORGANIZATION_ID then Inr (''datasets/'' @ dataset)
       else Inr (''organizations/'' @ organization @ ''/datasets/'' @ dataset)))"

definition mission_prefix :: "string \<Rightarrow> string \<Rightarrow> string res" where
  "mission_prefix organization_id vol_id =
     rbind (validate_organization_id organization_id) (\<lambda>organization.
     rbind (object_key_component vol_id ''vol_id'') (\<lambda>mission_id.
       if organization = LEGACY_ORGANIZATION_ID then Inr (''missions/'' @ mission_id)
       else Inr (''organizations/'' @ organization @ ''/missions/'' @ mission_id)))"

subsection \<open>The organization of the current task\<close>

text \<open>
  The context variable holds an optional organization; binding returns the value to
  restore, and the context manager restores it whether or not its body fails.
\<close>

definition bind_organization_id :: "string option \<Rightarrow> string \<Rightarrow> (string option \<times> string option) res" where
  "bind_organization_id current organization_id =
     rbind (validate_organization_id organization_id) (\<lambda>organization. Inr (current, Some organization))"

definition reset_organization_id :: "string option \<Rightarrow> string option" where
  "reset_organization_id tok = tok"

definition organization_context ::
  "string option \<Rightarrow> string \<Rightarrow> (string option \<Rightarrow> 'a res \<times> string option) \<Rightarrow> 'a res \<times> string option" where
  "organization_context current organization_id body =
     (case bind_organization_id current organization_id of
        Inl e \<Rightarrow> (Inl e, current)
      | Inr (tok, bound) \<Rightarrow> (case body bound of (r, _) \<Rightarrow> (r, reset_organization_id tok)))"

subsection \<open>Mission namespaces\<close>

record mission_namespace =
  ns_organization_id :: string
  ns_vol_id :: string
  ns_root :: string

definition ns_create :: "string \<Rightarrow> string \<Rightarrow> mission_namespace res" where
  "ns_create organization_id vol_id =
     rbind (mission_prefix organization_id vol_id) (\<lambda>canonical.
     rbind (validate_organization_id organization_id) (\<lambda>organization.
     rbind (object_key_component vol_id ''vol_id'') (\<lambda>mission_id.
       Inr \<lparr>ns_organization_id = organization, ns_vol_id = mission_id, ns_root = canonical\<rparr>)))"

definition ns_from_binding :: "string \<Rightarrow> string \<Rightarrow> string option \<Rightarrow> mission_namespace res" where
  "ns_from_binding organization_id vol_id workspace_prefix =
     (case workspace_prefix of
        None \<Rightarrow> Inl (ValueError ''Mission has no durable workspace prefix'')
      | Some prefix \<Rightarrow>
          (let durable = str_rstrip (\<lambda>c. c = CHR ''/'') (str_strip prefix)
           in rbind (ns_create organization_id vol_id) (\<lambda>namespace.
                if durable \<noteq> ns_root namespace
                then Inl (ValueError ''Mission workspace prefix is outside its tenant namespace'')
                else Inr namespace)))"

definition ns_key :: "mission_namespace \<Rightarrow> string list \<Rightarrow> string res" where
  "ns_key namespace components =
     (if components = [] then Inr (ns_root namespace)
      else rbind (rmap (\<lambda>c. object_key_component c ''object key component'') components) (\<lambda>safe.
             Inr (join_text ''/'' (ns_root namespace # safe))))"

definition ns_prefix :: "mission_namespace \<Rightarrow> string list \<Rightarrow> string res" where
  "ns_prefix namespace components =
     rbind (ns_key namespace components) (\<lambda>key. Inr (key @ ''/''))"

definition mission_event_namespace :: "dict \<Rightarrow> mission_namespace res" where
  "mission_event_namespace payload =
     (let vol_id = py_str (py_or (dget payload ''vol_id'') (PStr []));
          organization_id = py_str (py_or (dget payload ''organization_id'') (PStr LEGACY_ORGANIZATION_ID))
      in case dget payload ''workspace_prefix'' of
           PNone \<Rightarrow>
             (if organization_id \<noteq> LEGACY_ORGANIZATION_ID
              then Inl (ValueError ''Tenant-bound mission event has no durable workspace prefix'')
              else ns_create organization_id vol_id)
         | prefix \<Rightarrow> ns_from_binding organization_id vol_id (Some (py_str prefix)))"

subsection \<open>Facts about namespaces\<close>

lemma id_char_not_slash: "id_char c \<or> c = CHR ''-'' \<Longrightarrow> c \<noteq> CHR ''/''"
  by (auto simp: id_char_def is_lower_def is_digit_def)

lemma validate_organization_id_Inr [res_elims]:
  "validate_organization_id v = Inr o' \<longleftrightarrow> str_strip v = o' \<and> organization_id_pattern o'"
  by (auto simp: validate_organization_id_def Let_def)

lemma organization_no_slash: "validate_organization_id v = Inr o' \<Longrightarrow> CHR ''/'' \<notin> set o'"
  using id_char_not_slash
  by (auto simp: validate_organization_id_Inr organization_id_pattern_def list_all_iff)

lemma validate_organization_id_idem: "validate_organization_id v = Inr o' \<Longrightarrow> validate_organization_id o' = Inr o'"
  by (auto simp: validate_organization_id_Inr)

lemma object_key_component_Inr [res_elims]:
  "object_key_component v f = Inr c \<longleftrightarrow>
   str_strip v = c \<and> c \<noteq> [] \<and> c \<noteq> ''.'' \<and> c \<noteq> ''..'' \<and> CHR ''/'' \<notin> set c
     \<and> CHR 0x5C \<notin> set c \<and> CHR 0x00 \<notin> set c"
  by (auto simp: object_key_component_def Let_def)

lemma object_key_component_idem: "object_key_component v f = Inr c \<Longrightarrow> object_key_component c g = Inr c"
  by (auto simp: object_key_component_Inr)

definition root_of :: "string \<Rightarrow> string \<Rightarrow> string" where
  "root_of organization mission_id =
     (if organization = LEGACY_ORGANIZATION_ID then ''missions/'' @ mission_id
      else ''organizations/'' @ organization @ ''/missions/'' @ mission_id)"

lemma mission_prefix_Inr:
  "mission_prefix org vol = Inr p \<longleftrightarrow>
   (\<exists>a b. validate_organization_id org = Inr a \<and> object_key_component vol ''vol_id'' = Inr b \<and> p = root_of a b)"
  by (auto simp: mission_prefix_def root_of_def rbind_Inr_iff)

lemma ns_create_Inr:
  "ns_create org vol = Inr n \<longleftrightarrow>
   validate_organization_id org = Inr (ns_organization_id n)
   \<and> object_key_component vol ''vol_id'' = Inr (ns_vol_id n)
   \<and> ns_root n = root_of (ns_organization_id n) (ns_vol_id n)"
proof -
  obtain a b c where n: "n = \<lparr>ns_organization_id = a, ns_vol_id = b, ns_root = c\<rparr>" by (cases n)
  show ?thesis by (auto simp: n ns_create_def rbind_Inr_iff mission_prefix_Inr)
qed

lemma ns_from_binding_Inr:
  "ns_from_binding org vol p = Inr n \<longleftrightarrow>
   ns_create org vol = Inr n \<and> (\<exists>w. p = Some w \<and> str_rstrip (\<lambda>c. c = CHR ''/'') (str_strip w) = ns_root n)"
  by (auto simp: ns_from_binding_def rbind_Inr_iff Let_def split: option.splits if_splits)

text \<open>The first segment of a path determines it.\<close>

lemma segment_eq:
  assumes "CHR ''/'' \<notin> set a" and "CHR ''/'' \<notin> set b"
    and "a @ CHR ''/'' # s = b @ CHR ''/'' # t"
  shows "a = b \<and> s = t"
proof -
  have "takeWhile (\<lambda>c. c \<noteq> CHR ''/'') (a @ CHR ''/'' # s) = a"
    using assms(1) by (subst takeWhile_append2) auto
  moreover have "takeWhile (\<lambda>c. c \<noteq> CHR ''/'') (b @ CHR ''/'' # t) = b"
    using assms(2) by (subst takeWhile_append2) auto
  ultimately show ?thesis using assms(3) by simp
qed

lemma root_of_segments:
  assumes "CHR ''/'' \<notin> set a" "CHR ''/'' \<notin> set a'" "CHR ''/'' \<notin> set b" "CHR ''/'' \<notin> set b'"
    and "root_of a b @ CHR ''/'' # s = root_of a' b' @ CHR ''/'' # t"
  shows "a = a' \<and> b = b' \<and> s = t"
proof (cases "a = LEGACY_ORGANIZATION_ID"; cases "a' = LEGACY_ORGANIZATION_ID")
  assume "a = LEGACY_ORGANIZATION_ID" "a' = LEGACY_ORGANIZATION_ID"
  with assms(5) show ?thesis using segment_eq [OF assms(3,4)] by (simp add: root_of_def)
next
  assume ne: "a \<noteq> LEGACY_ORGANIZATION_ID" "a' \<noteq> LEGACY_ORGANIZATION_ID"
  have "a @ CHR ''/'' # ''missions/'' @ b @ CHR ''/'' # s = a' @ CHR ''/'' # ''missions/'' @ b' @ CHR ''/'' # t"
    using assms(5) ne by (simp add: root_of_def)
  from segment_eq [OF assms(1,2) this] segment_eq [OF assms(3,4)] show ?thesis by auto
qed (use assms(5) in \<open>simp_all add: root_of_def\<close>)

lemma ns_key_extends:
  assumes "ns_key n cs = Inr k"
  shows "\<exists>r. k @ ''/'' = ns_root n @ CHR ''/'' # r"
proof (cases "cs = []")
  case False
  with assms obtain safe where "rmap (\<lambda>c. object_key_component c ''object key component'') cs = Inr safe"
    and k: "k = join_text ''/'' (ns_root n # safe)" by (auto simp: ns_key_def rbind_Inr_iff)
  with False have "safe \<noteq> []" using rmap_length by fastforce
  then show ?thesis unfolding k by (cases safe) simp_all
qed (use assms in \<open>simp add: ns_key_def\<close>)

subsection \<open>Properties of the organization boundary\<close>

text \<open>The object namespaces of two missions never overlap: when a key of one mission
  lies under the prefix of the other, the two are the same mission of the same
  organization, legacy missions included.\<close>

theorem mission_namespaces_disjoint:
  assumes "ns_create org vol = Inr n" and "ns_create org' vol' = Inr n'"
    and "ns_prefix n [] = Inr p" and "ns_prefix n' components = Inr q" and "starts_with p q"
  shows "n = n'"
proof -
  from assms(4) obtain k where "ns_key n' components = Inr k" and q: "q = k @ ''/''"
    by (auto simp: ns_prefix_def rbind_Inr_iff)
  with ns_key_extends obtain r where r: "q = ns_root n' @ CHR ''/'' # r" by blast
  have "p = ns_root n @ ''/''" using assms(3) by (simp add: ns_prefix_def ns_key_def)
  moreover obtain t where "q = p @ t" using assms(5) append_take_drop_id [of "length p" q]
    by (metis starts_with_def)
  ultimately have "ns_root n @ CHR ''/'' # t = ns_root n' @ CHR ''/'' # r" using r by simp
  moreover note c = assms(1) [unfolded ns_create_Inr] and c' = assms(2) [unfolded ns_create_Inr]
  ultimately have "root_of (ns_organization_id n) (ns_vol_id n) @ CHR ''/'' # t
      = root_of (ns_organization_id n') (ns_vol_id n') @ CHR ''/'' # r" by simp
  moreover have "CHR ''/'' \<notin> set (ns_organization_id n)" "CHR ''/'' \<notin> set (ns_organization_id n')"
    using c c' organization_no_slash by blast+
  moreover have "CHR ''/'' \<notin> set (ns_vol_id n)" "CHR ''/'' \<notin> set (ns_vol_id n')"
    using c c' by (simp_all add: object_key_component_Inr)
  ultimately have "ns_organization_id n = ns_organization_id n' \<and> ns_vol_id n = ns_vol_id n'"
    using root_of_segments by blast
  with c c' show ?thesis by simp
qed

lemma example_namespaces:
  "ns_create ''acme'' '' flight-7 '' = Inr \<lparr>ns_organization_id = ''acme'', ns_vol_id = ''flight-7'',
      ns_root = ''organizations/acme/missions/flight-7''\<rparr>"
  "ns_create ''acme '' ''flight-7'' = Inr \<lparr>ns_organization_id = ''acme'', ns_vol_id = ''flight-7'',
      ns_root = ''organizations/acme/missions/flight-7''\<rparr>"
  by code_simp+

theorem mission_namespaces_disjoint_witness:
  "\<lparr>ns_organization_id = ''acme'', ns_vol_id = ''flight-7'', ns_root = ''organizations/acme/missions/flight-7''\<rparr>
   = (\<lparr>ns_organization_id = ''acme'', ns_vol_id = ''flight-7'',
       ns_root = ''organizations/acme/missions/flight-7''\<rparr> :: mission_namespace)"
  by (rule mission_namespaces_disjoint [OF example_namespaces, where components = "[''ortho'', ''a.tif'']"
        and p = "''organizations/acme/missions/flight-7/''"
        and q = "''organizations/acme/missions/flight-7/ortho/a.tif/''"]) code_simp+

text \<open>An event is resolved inside the tenant it names: the namespace of an event is
  that of its organization and mission, and an event of a tenant without a durable
  prefix, or with the prefix of another mission, is refused.\<close>

theorem event_namespace_is_tenant_bound:
  assumes "mission_event_namespace payload = Inr n"
  shows "validate_organization_id
       (py_str (py_or (dget payload ''organization_id'') (PStr LEGACY_ORGANIZATION_ID))) = Inr (ns_organization_id n)
    \<and> ns_create (ns_organization_id n) (ns_vol_id n) = Inr n
    \<and> (dget payload ''workspace_prefix'' = PNone
         \<longrightarrow> ns_organization_id n = LEGACY_ORGANIZATION_ID)
    \<and> (\<forall>w. dget payload ''workspace_prefix'' = PStr w
         \<longrightarrow> str_rstrip (\<lambda>c. c = CHR ''/'') (str_strip w) = ns_root n)"
proof -
  let ?o = "py_str (py_or (dget payload ''organization_id'') (PStr LEGACY_ORGANIZATION_ID))"
  let ?v = "py_str (py_or (dget payload ''vol_id'') (PStr []))"
  have created: "ns_create ?o ?v = Inr n"
    using assms by (cases "dget payload ''workspace_prefix''")
      (auto simp: mission_event_namespace_def Let_def ns_from_binding_Inr split: if_splits)
  then have v: "validate_organization_id ?o = Inr (ns_organization_id n)"
    and "object_key_component ?v ''vol_id'' = Inr (ns_vol_id n)"
    and "ns_root n = root_of (ns_organization_id n) (ns_vol_id n)" by (simp_all add: ns_create_Inr)
  then have again: "ns_create (ns_organization_id n) (ns_vol_id n) = Inr n"
    using validate_organization_id_idem object_key_component_idem unfolding ns_create_Inr by blast
  have legacy: "ns_organization_id n = LEGACY_ORGANIZATION_ID" if "dget payload ''workspace_prefix'' = PNone"
  proof -
    have "?o = LEGACY_ORGANIZATION_ID"
      using assms that by (simp add: mission_event_namespace_def Let_def split: if_splits)
    moreover have "validate_organization_id LEGACY_ORGANIZATION_ID = Inr LEGACY_ORGANIZATION_ID" by code_simp
    ultimately show ?thesis using v by simp
  qed
  have bound: "str_rstrip (\<lambda>c. c = CHR ''/'') (str_strip w) = ns_root n"
    if "dget payload ''workspace_prefix'' = PStr w" for w
    using assms that by (simp add: mission_event_namespace_def Let_def ns_from_binding_Inr)
  show ?thesis using v again legacy bound by blast
qed

definition example_event :: dict where
  "example_event = fmap_of_list [(''vol_id'', PStr ''flight-7''), (''organization_id'', PStr ''acme''),
     (''workspace_prefix'', PStr ''organizations/acme/missions/flight-7/'')]"

theorem event_namespace_is_tenant_bound_witness:
  "let n = \<lparr>ns_organization_id = ''acme'', ns_vol_id = ''flight-7'',
            ns_root = ''organizations/acme/missions/flight-7''\<rparr>
   in validate_organization_id
       (py_str (py_or (dget example_event ''organization_id'') (PStr LEGACY_ORGANIZATION_ID))) = Inr (ns_organization_id n)
    \<and> ns_create (ns_organization_id n) (ns_vol_id n) = Inr n
    \<and> (dget example_event ''workspace_prefix'' = PNone
         \<longrightarrow> ns_organization_id n = LEGACY_ORGANIZATION_ID)
    \<and> (\<forall>w. dget example_event ''workspace_prefix'' = PStr w
         \<longrightarrow> str_rstrip (\<lambda>c. c = CHR ''/'') (str_strip w) = ns_root n)"
  unfolding Let_def by (rule event_namespace_is_tenant_bound) code_simp

end
