(* ===== verification/Clock.thy ===== *)
theory Clock
  imports Prelude
begin

text \<open>
  Instants and their texts. An instant is the number of microseconds since
  1970-01-01T00:00:00 UTC, what \<open>datetime.now(UTC)\<close> returns; \<open>isoformat\<close> is the text the
  control loop stores in provenance and compares in queries. The order of the texts is
  the order of the instants (\<open>isoformat_less\<close>), so that a lease stored as text can be
  compared as text.
\<close>

type_synonym instant = int

subsection \<open>Texts of numbers and dates\<close>

fun pad :: "nat \<Rightarrow> int \<Rightarrow> string" where
  "pad 0 n = []"
| "pad (Suc w) n = pad w (n div 10) @ [char_of (48 + nat (n mod 10))]"

definition leap_year :: "int \<Rightarrow> bool" where
  "leap_year y \<longleftrightarrow> (y mod 4 = 0 \<and> y mod 100 \<noteq> 0) \<or> y mod 400 = 0"

definition year_days :: "int \<Rightarrow> int" where
  "year_days y = (if leap_year y then 366 else 365)"

function year_day :: "int \<Rightarrow> int \<Rightarrow> int \<times> int" where
  "year_day y d = (if d < year_days y then (y, d) else year_day (y + 1) (d - year_days y))"
  by auto
termination
  by (relation "measure (\<lambda>(y, d). nat (d + 1))") (auto simp: year_days_def split: if_splits)

declare year_day.simps [simp del]

definition month_lengths :: "int \<Rightarrow> int list" where
  "month_lengths y = [31, if leap_year y then 29 else 28, 31, 30, 31, 30, 31, 31, 30, 31, 30, 31]"

fun month_day :: "int \<Rightarrow> int list \<Rightarrow> int \<Rightarrow> int \<times> int" where
  "month_day m [] d = (m, d + 1)"
| "month_day m (l # ls) d = (if d < l then (m, d + 1) else month_day (m + 1) ls (d - l))"

definition date_text :: "int \<Rightarrow> string" where
  "date_text days =
     (case year_day 1970 days of (y, doy) \<Rightarrow>
        (case month_day 1 (month_lengths y) doy of (m, d) \<Rightarrow>
           pad 4 y @ ''-'' @ pad 2 m @ ''-'' @ pad 2 d))"

definition seconds_text :: "int \<Rightarrow> string" where
  "seconds_text s = pad 2 (s div 3600) @ '':'' @ pad 2 (s div 60 mod 60) @ '':'' @ pad 2 (s mod 60)"

definition micros_text :: "int \<Rightarrow> string" where
  "micros_text us = (if us = 0 then ''+00:00'' else ''.'' @ pad 6 us @ ''+00:00'')"

definition isoformat :: "instant \<Rightarrow> string" where
  "isoformat t =
     (let s = t div 1000000
      in date_text (s div 86400) @ ''T'' @ seconds_text (s mod 86400) @ micros_text (t mod 1000000))"

text \<open>Instants from 1970 on whose year has four digits.\<close>

definition instant_ok :: "instant \<Rightarrow> bool" where
  "instant_ok t \<longleftrightarrow> 0 \<le> t \<and> t < 365 * 8000 * 86400 * 1000000"

definition seconds :: "int \<Rightarrow> instant" where
  "seconds n = n * 1000000"

subsection \<open>Order of the texts\<close>

lemma append_less_iff:
  fixes xs ys s t :: string
  shows "length xs = length ys \<Longrightarrow> xs @ s < ys @ t \<longleftrightarrow> xs < ys \<or> (xs = ys \<and> s < t)"
  by (induction xs ys rule: list_induct2) auto

lemma div_mod_less:
  fixes a b k :: int
  assumes "0 < k" and "a < b"
  shows "a div k < b div k \<or> (a div k = b div k \<and> a mod k < b mod k)"
proof (cases "a div k = b div k")
  case True
  have "a div k * k + a mod k = a" "a div k * k + b mod k = b"
    using div_mult_mod_eq [of a k] div_mult_mod_eq [of b k] True by simp_all
  with assms(2) have "a mod k < b mod k" by linarith
  with True show ?thesis by simp
next
  case False
  have "a div k \<le> b div k" using assms by (simp add: zdiv_mono1)
  with False show ?thesis by simp
qed

lemma length_pad [simp]: "length (pad w n) = w"
  by (induction w arbitrary: n) simp_all

lemma digit_less:
  fixes a b :: int
  assumes "0 \<le> a" "a < b" "b < 10"
  shows "(char_of (48 + nat a) :: char) < char_of (48 + nat b)"
  using assms by (simp add: less_char_def)

lemma pad_less: "0 \<le> a \<Longrightarrow> a < b \<Longrightarrow> b < 10 ^ w \<Longrightarrow> pad w a < pad w b"
proof (induction w arbitrary: a b)
  case 0
  then show ?case by simp
next
  case (Suc w)
  have bound: "b div 10 < 10 ^ w" using Suc.prems by (simp add: div_less_iff_less_mult mult.commute)
  have step: "pad w (a div 10) < pad w (b div 10)" if "a div 10 < b div 10"
    using Suc.IH [OF _ that bound] Suc.prems(1) by (simp add: pos_imp_zdiv_nonneg_iff)
  from div_mod_less [of 10 a b] Suc.prems(2) consider
    "a div 10 < b div 10" | "a div 10 = b div 10" "a mod 10 < b mod 10" by auto
  then show ?case
  proof cases
    case 1
    then show ?thesis using step by (simp add: append_less_iff)
  next
    case 2
    then show ?thesis using digit_less [of "a mod 10" "b mod 10"] by (simp add: append_less_iff)
  qed
qed

lemma year_day_bounds:
  "0 \<le> d \<Longrightarrow> year_day y d = (y', r) \<Longrightarrow> y \<le> y' \<and> 365 * (y' - y) \<le> d \<and> 0 \<le> r \<and> r < year_days y'"
proof (induction y d rule: year_day.induct)
  case (1 y d)
  show ?case
  proof (cases "d < year_days y")
    case True
    with 1 show ?thesis by (simp add: year_day.simps)
  next
    case False
    moreover have "365 \<le> year_days y" by (simp add: year_days_def)
    moreover have "year_day (y + 1) (d - year_days y) = (y', r)" using 1(3) False by (simp add: year_day.simps [of y d])
    ultimately show ?thesis using 1(1) [OF False] by (auto simp: algebra_simps)
  qed
qed

lemma year_day_less:
  "d < d' \<Longrightarrow> year_day y d = (a, r) \<Longrightarrow> year_day y d' = (b, r') \<Longrightarrow> 0 \<le> d \<Longrightarrow> a < b \<or> (a = b \<and> r < r')"
proof (induction y d arbitrary: d' rule: year_day.induct)
  case (1 y d)
  show ?case
  proof (cases "d < year_days y")
    case True
    then have a: "a = y" "r = d" using 1(3) by (simp_all add: year_day.simps [of y d])
    show ?thesis
    proof (cases "d' < year_days y")
      case True
      then show ?thesis using a 1(2,4) by (simp add: year_day.simps [of y d'])
    next
      case False
      then have "year_day (y + 1) (d' - year_days y) = (b, r')" using 1(4) by (simp add: year_day.simps [of y d'])
      then have "y + 1 \<le> b" using year_day_bounds [of "d' - year_days y"] False by simp
      with a show ?thesis by simp
    qed
  next
    case False
    then have "\<not> d' < year_days y" using 1(2) by simp
    with False 1(3,4) have "year_day (y + 1) (d - year_days y) = (a, r)"
      "year_day (y + 1) (d' - year_days y) = (b, r')"
      by (simp_all add: year_day.simps [of y d] year_day.simps [of y d'])
    with 1(1) [OF False, of "d' - year_days y"] 1(2) False show ?thesis by simp
  qed
qed

lemma month_day_bounds:
  "0 \<le> d \<Longrightarrow> d < sum_list ls \<Longrightarrow> \<forall>l \<in> set ls. 0 < l \<and> l \<le> 31 \<Longrightarrow> month_day m ls d = (m', r) \<Longrightarrow>
   m \<le> m' \<and> m' < m + int (length ls) \<and> 1 \<le> r \<and> r \<le> 31"
  by (induction m ls d rule: month_day.induct) (fastforce split: if_splits)+

lemma month_day_less:
  "d < d' \<Longrightarrow> d' < sum_list ls \<Longrightarrow> 0 \<le> d \<Longrightarrow> \<forall>l \<in> set ls. 0 < l \<and> l \<le> 31 \<Longrightarrow>
   month_day m ls d = (a, r) \<Longrightarrow> month_day m ls d' = (b, r') \<Longrightarrow> a < b \<or> (a = b \<and> r < r')"
proof (induction m ls d arbitrary: d' rule: month_day.induct)
  case (1 m d)
  then show ?case by simp
next
  case (2 m l ls d)
  show ?case
  proof (cases "d' < l")
    case True
    with 2 show ?thesis by simp
  next
    case False
    note d' = this
    show ?thesis
    proof (cases "d < l")
      case True
      from 2(6) True have a: "a = m" by simp
      have "m + 1 \<le> b"
        using month_day_bounds [of "d' - l" ls "m + 1" b r'] 2 d' by simp
      with a show ?thesis by simp
    next
      case False
      with d' 2(6,7) have "month_day (m + 1) ls (d - l) = (a, r)" "month_day (m + 1) ls (d' - l) = (b, r')"
        by simp_all
      with 2(1) [OF False, of "d' - l"] 2(2-5) False show ?thesis by simp
    qed
  qed
qed

lemma month_lengths_facts:
  "sum_list (month_lengths y) = year_days y" "\<forall>l \<in> set (month_lengths y). 0 < l \<and> l \<le> 31"
  "length (month_lengths y) = 12"
  by (simp_all add: month_lengths_def year_days_def)

lemma length_date_text [simp]: "length (date_text days) = 10"
  by (simp add: date_text_def split: prod.splits)

lemma date_text_less:
  assumes "0 \<le> a" "a < b" "b < 365 * 8000"
  shows "date_text a < date_text b"
proof -
  obtain y r where y: "year_day 1970 a = (y, r)" by fastforce
  obtain y' r' where y': "year_day 1970 b = (y', r')" by fastforce
  obtain m d where m: "month_day 1 (month_lengths y) r = (m, d)" by fastforce
  obtain m' d' where m': "month_day 1 (month_lengths y') r' = (m', d')" by fastforce
  have yb: "1970 \<le> y \<and> 0 \<le> r \<and> r < year_days y" using year_day_bounds [OF assms(1) y] by simp
  have yb': "y' < 10 ^ 4 \<and> 0 \<le> r' \<and> r' < year_days y'"
    using year_day_bounds [OF _ y'] assms by simp
  have mb: "1 \<le> m" "1 \<le> d"
    using month_day_bounds [OF _ _ _ m] yb month_lengths_facts [of y] by auto
  have mb': "m' \<le> 12" "d' \<le> 31"
    using month_day_bounds [OF _ _ _ m'] yb' month_lengths_facts [of y'] by auto
  from year_day_less [OF assms(2) y y' assms(1)] consider
    "y < y'" | "y = y'" "r < r'" by blast
  then show ?thesis
  proof cases
    case 1
    then have "pad 4 y < pad 4 y'" using pad_less yb yb' by simp
    then show ?thesis by (simp add: date_text_def y y' m m' append_less_iff)
  next
    case 2
    have "m < m' \<or> (m = m' \<and> d < d')"
      using month_day_less [of r r' "month_lengths y" 1 m d m' d'] 2 yb yb' m m' month_lengths_facts [of y] by auto
    moreover have "pad 2 m < pad 2 m'" if "m < m'" using pad_less [of m m' 2] that mb mb' by simp
    moreover have "pad 2 d < pad 2 d'" if "d < d'" using pad_less [of d d' 2] that mb mb' by simp
    moreover have "month_day 1 (month_lengths y') r = (m, d)" using m 2 by simp
    ultimately show ?thesis using 2 by (auto simp: date_text_def y y' m' append_less_iff)
  qed
qed

lemma length_seconds_text [simp]: "length (seconds_text s) = 8"
  by (simp add: seconds_text_def)

lemma triple_less:
  fixes x y z x' y' z' sep :: string
  shows "x < x' \<Longrightarrow> length x = length x' \<Longrightarrow> x @ sep @ y @ sep @ z < x' @ sep @ y' @ sep @ z'"
    and "y < y' \<Longrightarrow> length y = length y' \<Longrightarrow> x @ sep @ y @ sep @ z < x @ sep @ y' @ sep @ z'"
    and "z < z' \<Longrightarrow> x @ sep @ y @ sep @ z < x @ sep @ y @ sep @ z'"
  by (simp_all add: append_less_iff)

lemma seconds_text_less:
  assumes "0 \<le> a" "a < b" "b < 86400"
  shows "seconds_text a < seconds_text b"
proof -
  have h: "pad 2 (a div 3600) < pad 2 (b div 3600)" if "a div 3600 < b div 3600"
    using pad_less [OF _ that, of 2] assms by (simp add: pos_imp_zdiv_nonneg_iff)
  have m: "pad 2 (a div 60 mod 60) < pad 2 (b div 60 mod 60)" if "a div 60 mod 60 < b div 60 mod 60"
    using pad_less [OF _ that, of 2] pos_mod_bound [of 60 "b div 60"] by simp
  have s: "pad 2 (a mod 60) < pad 2 (b mod 60)" if "a mod 60 < b mod 60"
    using pad_less [OF _ that, of 2] pos_mod_bound [of 60 b] by simp
  have hours: "x div 60 div 60 = x div 3600" for x :: int
    using zdiv_zmult2_eq [of 60 x 60] by simp
  consider "a div 3600 < b div 3600"
    | "a div 3600 = b div 3600" "a div 60 mod 60 < b div 60 mod 60"
    | "a div 3600 = b div 3600" "a div 60 mod 60 = b div 60 mod 60" "a mod 60 < b mod 60"
  proof -
    from div_mod_less [of 60 a b] assms(2)
    consider (L) "a div 60 < b div 60" | (E) "a div 60 = b div 60" "a mod 60 < b mod 60" by auto
    then show thesis
    proof cases
      case L
      have "a div 3600 < b div 3600 \<or> (a div 3600 = b div 3600 \<and> a div 60 mod 60 < b div 60 mod 60)"
        using div_mod_less [OF _ L, of 60] unfolding hours by simp
      with that(1,2) show thesis by blast
    next
      case E
      have "a div 3600 = b div 3600" using E(1) hours [of a] hours [of b] by simp
      with E that(3) show thesis by simp
    qed
  qed
  then show ?thesis
  proof cases
    case 1
    from h [OF this] show ?thesis unfolding seconds_text_def by (rule triple_less(1)) simp
  next
    case 2
    from m [OF 2(2)] show ?thesis unfolding seconds_text_def 2(1) by (rule triple_less(2)) simp
  next
    case 3
    from s [OF 3(3)] show ?thesis unfolding seconds_text_def 3(1,2) by (rule triple_less(3))
  qed
qed

lemma micros_text_less:
  assumes "0 \<le> a" "a < b" "b < 1000000"
  shows "micros_text a < micros_text b"
proof (cases "a = 0")
  case True
  with assms show ?thesis by (simp add: micros_text_def less_char_def)
next
  case False
  moreover have "pad 6 a < pad 6 b" using pad_less [of a b 6] assms by simp
  ultimately show ?thesis using assms by (simp add: micros_text_def append_less_iff)
qed

lemma isoformat_less:
  assumes "instant_ok a" "instant_ok b" "a < b"
  shows "isoformat a < isoformat b"
proof -
  let ?s = "a div 1000000" and ?s' = "b div 1000000"
  have nonneg: "0 \<le> a" "0 \<le> ?s" "0 \<le> ?s div 86400"
    using assms(1) by (simp_all add: instant_ok_def pos_imp_zdiv_nonneg_iff)
  have "b < 365 * 8000 * 86400 * 1000000" using assms(2) by (simp add: instant_ok_def)
  then have "?s' < 365 * 8000 * 86400" by linarith
  then have days: "?s' div 86400 < 365 * 8000" by simp
  have D: "date_text (?s div 86400) < date_text (?s' div 86400)" if "?s div 86400 < ?s' div 86400"
    using date_text_less [OF nonneg(3) that days] .
  have S: "seconds_text (?s mod 86400) < seconds_text (?s' mod 86400)" if "?s mod 86400 < ?s' mod 86400"
    using seconds_text_less [OF _ that] by simp
  have M: "micros_text (a mod 1000000) < micros_text (b mod 1000000)" if "a mod 1000000 < b mod 1000000"
    using micros_text_less [OF _ that] by simp
  from div_mod_less [of 1000000 a b] assms(3)
  consider (L) "?s < ?s'" | (E) "?s = ?s'" "a mod 1000000 < b mod 1000000" by auto
  then show ?thesis
  proof cases
    case L
    from div_mod_less [OF _ this, of 86400]
    show ?thesis using D S by (auto simp: isoformat_def Let_def append_less_iff)
  next
    case E
    then show ?thesis using M by (simp add: isoformat_def Let_def append_less_iff)
  qed
qed

lemma isoformat_less_iff:
  assumes "instant_ok a" "instant_ok b"
  shows "isoformat a < isoformat b \<longleftrightarrow> a < b"
  using isoformat_less [OF assms] isoformat_less [OF assms(2,1)] by (cases a b rule: linorder_cases) auto

end
