(* ===== verification/DatabaseModel.thy ===== *)
theory DatabaseModel
  imports StageContracts Tenancy Clock
begin

text \<open>
  The durable rows of the control plane (\<open>shared/database_mission_models.py\<close>,
  \<open>shared/database_analysis_models.py\<close>, \<open>shared/database_saas_models.py\<close>,
  \<open>shared/database_identity_models.py\<close>, \<open>shared/database_schema.py\<close>) and the
  transaction that operations on them run in (\<open>get_session\<close> of \<open>shared/database.py\<close>).

  A table is a list of rows in insertion order. A nullable column is an option, a
  closed set of values checked by the database is a datatype, a JSON object is a
  \<open>dict\<close>. Creation and update times are kept for the rows whose operations read them
  (missions, runs, artifacts); \<open>updated_at\<close> holds the last value the code assigned; the \<open>onupdate\<close> hook of
  the mapper is not modelled. The CHECK and UNIQUE constraints are the predicates
  \<open>..._row_ok\<close> and \<open>..._table_ok\<close>.
\<close>

subsection \<open>Closed sets of values\<close>

datatype mission_status =
    MissionPending | MissionProcessing | MissionSuccess | MissionCompleted | MissionError
  | MissionCancelled | MissionStale | MissionDeleting | MissionDeletionFailed

datatype aggregation_status =
    AggregationPending | AggregationCollecting | AggregationFinalizing | AggregationCompleted
  | AggregationFailed

datatype run_status = Blocked | Queued | Running | Succeeded | Failed | Cancelled

fun run_status_name :: "run_status \<Rightarrow> string" where
  "run_status_name Blocked = ''blocked''"
| "run_status_name Queued = ''queued''"
| "run_status_name Running = ''running''"
| "run_status_name Succeeded = ''succeeded''"
| "run_status_name Failed = ''failed''"
| "run_status_name Cancelled = ''cancelled''"

datatype analysis_status =
    AnalysisQueued | AnalysisTiling | AnalysisRunning | AnalysisFinalizing
  | AnalysisCompleted | AnalysisFailed | AnalysisCancelled

datatype analysis_phase =
    PhaseQueued | PhaseTiling | PhaseDetecting | PhaseDeduplicating | PhaseCompleted
  | PhaseTilingFailed | PhaseFinalizationFailed | PhaseRecoveryQueued | PhaseCancelled
  | PhaseRecoveryFinalizing | PhaseRecoveryRetiling | PhaseTileAttemptsExhausted
  | PhaseRecoveryDetecting

datatype feature_source = ManualFeature | AiFeature

datatype dataset_status = DatasetReady | DatasetDeleting | DatasetDeletionFailed | DatasetDeleted

datatype upload_status =
    UploadInitializing | UploadUploading | UploadFinalizing | UploadCompleted
  | UploadAborted | UploadFailed

datatype organization_status = OrganizationActive | OrganizationSuspended

datatype usage_action =
    PolicyUpdated | StorageReserved | StorageReleased | StageScheduled | RequestThrottled
  | RetentionDeleted | RetentionFailed | LegacyAdoptionStarted | LegacyAdoptionResource
  | LegacyAdoptionCompleted | LegacyAdoptionFailed

subsection \<open>Rows\<close>

record mission =
  m_id :: int
  m_vol_id :: string
  m_owner_subject :: string
  m_organization_id :: string
  m_status :: mission_status
  m_pipeline :: string
  m_dataset_id :: "int option"
  m_input_dataset :: "string option"
  m_workspace_prefix :: string
  m_params :: "dict option"
  m_current_step :: "string option"
  m_progress :: int
  m_retry_count :: int
  m_service_states :: "dict option"
  m_resume_info :: "dict option"
  m_error_message :: "string option"
  m_total_tiles :: "int option"
  m_tiles_received :: int
  m_ortho_s3_key :: "string option"
  m_tiling_metadata :: "dict option"
  m_aggregation_status :: aggregation_status
  m_aggregation_completed_at :: "instant option"
  m_created_at :: instant
  m_updated_at :: instant

record stage_run =
  sr_id :: int
  sr_run_id :: string
  sr_mission_id :: int
  sr_analysis_run_id :: "int option"
  sr_stage :: stage_id
  sr_attempt :: int
  sr_status :: run_status
  sr_progress :: int
  sr_current_step :: "string option"
  sr_idempotency_key :: string
  sr_executor :: "string option"
  sr_resource_class :: resource_class
  sr_job_name :: "string option"
  sr_dispatch_attempts :: int
  sr_dispatch_error :: "string option"
  sr_scheduled_at :: "instant option"
  sr_parameters :: dict
  sr_upstream_artifact_ids :: "string list"
  sr_provenance :: dict
  sr_quality_metrics :: dict
  sr_error_message :: "string option"
  sr_heartbeat_at :: "instant option"
  sr_started_at :: "instant option"
  sr_completed_at :: "instant option"
  sr_created_at :: instant
  sr_updated_at :: instant

record shard_receipt =
  dr_id :: int
  dr_stage_run_id :: int
  dr_plan_checksum_sha256 :: string
  dr_shard_index :: int
  dr_shard_count :: int
  dr_tile_count :: int
  dr_result_key :: string
  dr_result_checksum_sha256 :: string
  dr_result_size_bytes :: int

record artifact =
  ma_id :: int
  ma_artifact_id :: string
  ma_mission_id :: int
  ma_stage_run_id :: int
  ma_kind :: string
  ma_uri :: string
  ma_checksum_sha256 :: string
  ma_size_bytes :: "int option"
  ma_metadata :: dict
  ma_created_at :: instant

record artifact_parent =
  mp_artifact_id :: int
  mp_parent_artifact_id :: int
  mp_relation :: string

record analysis =
  ar_id :: int
  ar_run_id :: string
  ar_mission_id :: int
  ar_vol_id :: string
  ar_name :: string
  ar_description :: "string option"
  ar_color :: string
  ar_tags :: pyval
  ar_backend :: string
  ar_model_variant :: "string option"
  ar_prompt :: "string option"
  ar_classes :: pyval
  ar_confidence :: rat
  ar_tile_size :: int
  ar_persist_results :: bool
  ar_status :: analysis_status
  ar_phase :: analysis_phase
  ar_total_tiles :: int
  ar_tiles_completed :: int
  ar_detection_count :: int
  ar_progress :: int
  ar_retry_count :: int
  ar_error_message :: "string option"
  ar_finalization_owner :: "string option"
  ar_finalization_lease_until :: "instant option"
  ar_ortho_s3_key :: string
  ar_result_s3_key :: pyval
  ar_tiling_metadata :: pyval
  ar_model_manifest :: pyval
  ar_heartbeat_at :: instant
  ar_started_at :: "instant option"
  ar_completed_at :: "instant option"
  ar_created_by :: "string option"

record map_feature =
  mf_id :: int
  mf_feature_id :: string
  mf_mission_id :: int
  mf_analysis_run_id :: "int option"
  mf_vol_id :: string
  mf_source :: feature_source
  mf_geometry :: string
  mf_name :: string
  mf_description :: "string option"
  mf_color :: string
  mf_tags :: pyval
  mf_properties :: dict
  mf_class_name :: pyval
  mf_confidence :: pyval
  mf_tile_index :: "int option"
  mf_created_by :: "string option"
  mf_version :: int
  mf_reviewed_at :: "instant option"
  mf_reviewed_by :: "string option"
  mf_deleted_at :: "instant option"
  mf_deleted_by :: "string option"
  mf_deletion_reason :: "string option"

record organization =
  og_id :: string
  og_display_name :: string
  og_status :: organization_status
  og_created_by :: string
  og_updated_by :: string

record saas_policy =
  po_organization_id :: string
  po_storage_limit_bytes :: "int option"
  po_concurrent_stage_runs_limit :: "int option"
  po_request_rate_per_minute :: "int option"
  po_request_burst :: "int option"
  po_retention_days :: "int option"
  po_version :: int
  po_created_by :: string
  po_updated_by :: string

record usage_event =
  ue_id :: int
  ue_event_id :: string
  ue_organization_id :: string
  ue_action :: usage_action
  ue_resource_type :: string
  ue_resource_id :: string
  ue_quantity :: "int option"
  ue_unit :: "string option"
  ue_actor_subject :: string
  ue_idempotency_key :: "string option"
  ue_details :: dict

record request_bucket =
  rb_organization_id :: string
  rb_tokens :: rat
  rb_updated_at :: instant

record dataset =
  ds_id :: int
  ds_dataset_id :: string
  ds_upload_session_id :: "int option"
  ds_name :: string
  ds_organization_id :: string
  ds_owner_subject :: string
  ds_prefix :: string
  ds_status :: dataset_status
  ds_manifest_s3_key :: string
  ds_file_count :: int
  ds_image_count :: int
  ds_total_bytes :: int
  ds_ready_at :: instant
  ds_deletion_requested_at :: "instant option"
  ds_deleted_at :: "instant option"

record upload_session =
  us_id :: int
  us_session_id :: string
  us_dataset_name :: string
  us_organization_id :: string
  us_status :: upload_status
  us_total_bytes :: int
  us_file_count :: int
  us_part_size :: int
  us_created_by :: string
  us_expires_at :: instant
  us_completed_at :: "instant option"
  us_last_error :: "string option"

record db =
  db_organizations :: "organization list"
  db_missions :: "mission list"
  db_runs :: "stage_run list"
  db_receipts :: "shard_receipt list"
  db_artifacts :: "artifact list"
  db_parents :: "artifact_parent list"
  db_analyses :: "analysis list"
  db_features :: "map_feature list"
  db_policies :: "saas_policy list"
  db_usage :: "usage_event list"
  db_buckets :: "request_bucket list"
  db_datasets :: "dataset list"
  db_uploads :: "upload_session list"
  db_uuids :: nat

text \<open>
  What the operations take from outside: the SHA-256 of a canonical JSON text and of a
  text, the n-th random UUID of the process, the name-based UUID of a URL, and the text
  of a coordinate. \<open>db_uuids\<close> counts the random UUIDs drawn so far.
\<close>

record world =
  w_digest :: "pyval \<Rightarrow> string"
  w_sha256 :: "string \<Rightarrow> string"
  w_uuid4 :: "nat \<Rightarrow> string"
  w_uuid5 :: "string \<Rightarrow> string"
  w_coordinate :: "pyval \<Rightarrow> string"

definition draw_uuid :: "world \<Rightarrow> db \<Rightarrow> string \<times> db" where
  "draw_uuid w d = (w_uuid4 w (db_uuids d), d\<lparr>db_uuids := db_uuids d + 1\<rparr>)"

subsection \<open>Constraints\<close>

definition run_row_ok :: "stage_run \<Rightarrow> bool" where
  "run_row_ok r \<longleftrightarrow>
     (sr_analysis_run_id r \<noteq> None \<longrightarrow> sr_stage r = Detection)
     \<and> 0 \<le> sr_progress r \<and> sr_progress r \<le> 100 \<and> 0 \<le> sr_attempt r
     \<and> 0 \<le> sr_dispatch_attempts r \<and> length (sr_idempotency_key r) = 64"

definition run_table_ok :: "stage_run list \<Rightarrow> bool" where
  "run_table_ok rs \<longleftrightarrow>
     list_all run_row_ok rs \<and> distinct (map sr_id rs) \<and> distinct (map sr_run_id rs)
     \<and> distinct (map (\<lambda>r. (sr_mission_id r, sr_stage r, sr_attempt r)) rs)
     \<and> distinct (map sr_idempotency_key rs)
     \<and> distinct (filter (\<lambda>n. n \<noteq> None) (map sr_job_name rs))"

definition receipt_row_ok :: "shard_receipt \<Rightarrow> bool" where
  "receipt_row_ok r \<longleftrightarrow>
     length (dr_plan_checksum_sha256 r) = 64 \<and> length (dr_result_checksum_sha256 r) = 64
     \<and> 2 \<le> dr_shard_count r \<and> dr_shard_count r \<le> 256
     \<and> 0 \<le> dr_shard_index r \<and> dr_shard_index r < dr_shard_count r
     \<and> 0 < dr_tile_count r \<and> 0 < dr_result_size_bytes r"

definition receipt_identity :: "shard_receipt \<Rightarrow> int \<times> string \<times> int" where
  "receipt_identity r = (dr_stage_run_id r, dr_plan_checksum_sha256 r, dr_shard_index r)"

definition receipt_table_ok :: "shard_receipt list \<Rightarrow> bool" where
  "receipt_table_ok rs \<longleftrightarrow> list_all receipt_row_ok rs \<and> distinct (map receipt_identity rs)"

definition artifact_row_ok :: "artifact \<Rightarrow> bool" where
  "artifact_row_ok a \<longleftrightarrow> length (ma_checksum_sha256 a) = 64"

definition artifact_table_ok :: "artifact list \<Rightarrow> bool" where
  "artifact_table_ok as \<longleftrightarrow>
     list_all artifact_row_ok as \<and> distinct (map ma_id as) \<and> distinct (map ma_artifact_id as)"

definition parent_row_ok :: "artifact_parent \<Rightarrow> bool" where
  "parent_row_ok e \<longleftrightarrow> mp_artifact_id e \<noteq> mp_parent_artifact_id e"

definition positive_or_null :: "int option \<Rightarrow> bool" where
  "positive_or_null v = (case v of None \<Rightarrow> True | Some n \<Rightarrow> 1 \<le> n)"

definition policy_row_ok :: "saas_policy \<Rightarrow> bool" where
  "policy_row_ok p \<longleftrightarrow>
     positive_or_null (po_storage_limit_bytes p) \<and> positive_or_null (po_concurrent_stage_runs_limit p)
     \<and> positive_or_null (po_request_rate_per_minute p) \<and> positive_or_null (po_request_burst p)
     \<and> (po_request_rate_per_minute p = None) = (po_request_burst p = None)
     \<and> positive_or_null (po_retention_days p) \<and> 1 \<le> po_version p"

definition policy_table_ok :: "saas_policy list \<Rightarrow> bool" where
  "policy_table_ok ps \<longleftrightarrow> list_all policy_row_ok ps \<and> distinct (map po_organization_id ps)"

definition usage_keys :: "db \<Rightarrow> string list" where
  "usage_keys d = List.map_filter ue_idempotency_key (db_usage d)"

subsection \<open>Transactions\<close>

text \<open>
  \<open>get_session\<close>: the body's changes are committed when it returns and rolled back when it
  raises; an explicit organization must agree with the one bound to the request.
\<close>

definition session_organization_conflicts :: "string option \<Rightarrow> string option \<Rightarrow> bool res" where
  "session_organization_conflicts contextual organization_id =
     (case (organization_id, contextual) of
        (Some explicit, Some bound) \<Rightarrow>
          rbind (validate_organization_id explicit) (\<lambda>valid. Inr (valid \<noteq> bound))
      | _ \<Rightarrow> Inr False)"

definition in_session ::
  "string option \<Rightarrow> string option \<Rightarrow> (db \<Rightarrow> ('a \<times> db) res) \<Rightarrow> db \<Rightarrow> 'a res \<times> db" where
  "in_session contextual organization_id body d =
     (case session_organization_conflicts contextual organization_id of
        Inl e \<Rightarrow> (Inl e, d)
      | Inr True \<Rightarrow> (Inl (ValueError ''Explicit organization_id conflicts with the request context''), d)
      | Inr False \<Rightarrow> (case body d of Inl e \<Rightarrow> (Inl e, d) | Inr (x, d') \<Rightarrow> (Inr x, d')))"

lemma in_session_error: "fst (in_session c org body d) = Inl e \<Longrightarrow> snd (in_session c org body d) = d"
  by (auto simp: in_session_def split: sum.splits bool.splits prod.splits)

lemma in_session_unbound [simp]:
  "in_session None org body d = (case body d of Inl e \<Rightarrow> (Inl e, d) | Inr (x, d') \<Rightarrow> (Inr x, d'))"
  by (simp add: in_session_def session_organization_conflicts_def split: option.splits)

subsection \<open>Reading and writing rows\<close>

text \<open>The next value of an autoincremented key.\<close>

definition next_id :: "int list \<Rightarrow> int" where
  "next_id ids = foldr max ids 0 + 1"

lemma next_id_fresh: "next_id ids \<notin> set ids"
proof -
  have "i \<le> foldr max ids 0" if "i \<in> set ids" for i
    using that by (induction ids) (auto simp: le_max_iff_disj)
  then show ?thesis by (force simp: next_id_def)
qed

definition run_by_run_id :: "db \<Rightarrow> string \<Rightarrow> stage_run res" where
  "run_by_run_id d run_id = one_row (filter (\<lambda>r. sr_run_id r = run_id) (db_runs d))"

definition mission_by_id :: "db \<Rightarrow> int \<Rightarrow> mission res" where
  "mission_by_id d i = one_row (filter (\<lambda>m. m_id m = i) (db_missions d))"

definition artifact_stage_run :: "db \<Rightarrow> artifact \<Rightarrow> stage_run res" where
  "artifact_stage_run d a = one_row (filter (\<lambda>r. sr_id r = ma_stage_run_id a) (db_runs d))"

definition put_run :: "stage_run \<Rightarrow> db \<Rightarrow> db" where
  "put_run r d = d\<lparr>db_runs := update_where (\<lambda>x. sr_id x = sr_id r) (\<lambda>_. r) (db_runs d)\<rparr>"

definition put_analysis :: "analysis \<Rightarrow> db \<Rightarrow> db" where
  "put_analysis a d = d\<lparr>db_analyses := update_where (\<lambda>x. ar_id x = ar_id a) (\<lambda>_. a) (db_analyses d)\<rparr>"

definition put_mission :: "mission \<Rightarrow> db \<Rightarrow> db" where
  "put_mission m d = d\<lparr>db_missions := update_where (\<lambda>x. m_id x = m_id m) (\<lambda>_. m) (db_missions d)\<rparr>"

subsection \<open>Tables keyed by an identifier\<close>

text \<open>
  What the operations rely on when they write a row back: its table keeps its keys and
  every other row, and a later lookup by key finds the row that was written.
\<close>

locale row_table =
  fixes rows :: "'d \<Rightarrow> 'r list" and key :: "'r \<Rightarrow> int" and put :: "'r \<Rightarrow> 'd \<Rightarrow> 'd"
  assumes rows_put: "rows (put r d) = update_where (\<lambda>x. key x = key r) (\<lambda>_. r) (rows d)"
begin

lemma keys_put: "map key (rows (put r d)) = map key (rows d)"
  by (simp add: rows_put update_where_def)

lemma put_member: "x \<in> set (rows (put r d)) \<Longrightarrow> x = r \<or> (x \<in> set (rows d) \<and> key x \<noteq> key r)"
  by (auto simp: rows_put update_where_def split: if_splits)

lemma put_present: "x \<in> set (rows d) \<Longrightarrow> key x = key r \<Longrightarrow> r \<in> set (rows (put r d))"
  by (auto simp: rows_put update_where_def)

lemma put_other: "x \<in> set (rows d) \<Longrightarrow> key x \<noteq> key r \<Longrightarrow> x \<in> set (rows (put r d))"
  by (auto simp: rows_put update_where_def)

lemma lookup_put:
  "distinct (map key (rows d)) \<Longrightarrow> x \<in> set (rows d) \<Longrightarrow> key x = key r \<Longrightarrow>
   filter (\<lambda>y. key y = key r) (rows (put r d)) = [r]"
proof -
  have "distinct (map key xs) \<Longrightarrow> x \<in> set xs \<Longrightarrow> key x = key r \<Longrightarrow>
      filter (\<lambda>y. key y = key r) (update_where (\<lambda>y. key y = key r) (\<lambda>_. r) xs) = [r]" for xs
  proof (induction xs)
    case (Cons y ys)
    show ?case
    proof (cases "key y = key r")
      case True
      with Cons.prems have "\<forall>z \<in> set ys. key z \<noteq> key r" by (simp add: image_iff) metis
      then have "filter (\<lambda>y. key y = key r) (update_where (\<lambda>y. key y = key r) (\<lambda>_. r) ys) = []"
        by (auto simp: filter_empty_conv update_where_def)
      with True show ?thesis by simp
    next
      case False
      with Cons show ?thesis by auto
    qed
  qed simp
  then show "distinct (map key (rows d)) \<Longrightarrow> x \<in> set (rows d) \<Longrightarrow> key x = key r \<Longrightarrow> ?thesis"
    by (simp add: rows_put)
qed

lemma put_all:
  "(\<And>x. x \<in> set (rows d) \<Longrightarrow> P x) \<Longrightarrow> P r \<Longrightarrow> x \<in> set (rows (put r d)) \<Longrightarrow> P x"
  using put_member by blast

lemma put_put: "key r = key r' \<Longrightarrow> rows (put r' (put r d)) = rows (put r' d)"
  by (auto simp: rows_put update_where_def)

lemma put_same:
  assumes "distinct (map key (rows d))" and "r \<in> set (rows d)"
  shows "rows (put r d) = rows d"
proof -
  have "r = x" if "x \<in> set (rows d)" "key x = key r" for x
    using that assms by (auto simp: distinct_map inj_on_def)
  then show ?thesis unfolding rows_put update_where_def by (intro map_idI) simp
qed

end

interpretation runs: row_table db_runs sr_id put_run
  by unfold_locales (simp add: put_run_def)

interpretation analyses: row_table db_analyses ar_id put_analysis
  by unfold_locales (simp add: put_analysis_def)

interpretation missions: row_table db_missions m_id put_mission
  by unfold_locales (simp add: put_mission_def)

text \<open>What writing a run leaves alone.\<close>

lemma put_run_frame [simp]:
  "db_organizations (put_run r d) = db_organizations d" "db_missions (put_run r d) = db_missions d"
  "db_receipts (put_run r d) = db_receipts d" "db_artifacts (put_run r d) = db_artifacts d"
  "db_parents (put_run r d) = db_parents d" "db_analyses (put_run r d) = db_analyses d"
  "db_features (put_run r d) = db_features d" "db_policies (put_run r d) = db_policies d"
  "db_usage (put_run r d) = db_usage d" "db_buckets (put_run r d) = db_buckets d"
  "db_datasets (put_run r d) = db_datasets d" "db_uploads (put_run r d) = db_uploads d"
  "db_uuids (put_run r d) = db_uuids d"
  by (simp_all add: put_run_def)

lemma put_analysis_frame [simp]:
  "db_organizations (put_analysis a d) = db_organizations d" "db_missions (put_analysis a d) = db_missions d"
  "db_receipts (put_analysis a d) = db_receipts d" "db_artifacts (put_analysis a d) = db_artifacts d"
  "db_parents (put_analysis a d) = db_parents d" "db_runs (put_analysis a d) = db_runs d"
  "db_features (put_analysis a d) = db_features d" "db_policies (put_analysis a d) = db_policies d"
  "db_usage (put_analysis a d) = db_usage d" "db_buckets (put_analysis a d) = db_buckets d"
  "db_datasets (put_analysis a d) = db_datasets d" "db_uploads (put_analysis a d) = db_uploads d"
  "db_uuids (put_analysis a d) = db_uuids d"
  by (simp_all add: put_analysis_def)

lemma run_by_run_id_Inr:
  "run_by_run_id d rid = Inr r \<Longrightarrow> r \<in> set (db_runs d) \<and> sr_run_id r = rid"
proof -
  assume "run_by_run_id d rid = Inr r"
  then have "r \<in> set (filter (\<lambda>r. sr_run_id r = rid) (db_runs d))" by (simp add: run_by_run_id_def one_row_Inr)
  then show ?thesis by simp
qed

lemma mission_by_id_Inr:
  "mission_by_id d i = Inr m \<Longrightarrow> m \<in> set (db_missions d) \<and> m_id m = i"
proof -
  assume "mission_by_id d i = Inr m"
  then have "m \<in> set (filter (\<lambda>m. m_id m = i) (db_missions d))" by (simp add: mission_by_id_def one_row_Inr)
  then show ?thesis by simp
qed

lemma distinct_filter_one:
  "distinct (map f xs) \<Longrightarrow> x \<in> set xs \<Longrightarrow> filter (\<lambda>y. f y = f x) xs = [x]"
proof (induction xs)
  case (Cons y ys)
  show ?case
  proof (cases "f y = f x")
    case True
    have "\<forall>z \<in> set ys. f z \<noteq> f x" using Cons.prems(1) True by (simp add: image_iff) metis
    with True Cons.prems show ?thesis by (auto simp: filter_empty_conv)
  next
    case False
    with Cons show ?thesis by auto
  qed
qed simp

text \<open>A mission whose work is over or being removed accepts no more results.\<close>

definition mission_stopped :: "mission \<Rightarrow> bool" where
  "mission_stopped m \<longleftrightarrow> m_status m \<in> {MissionCancelled, MissionDeleting, MissionDeletionFailed}"

text \<open>\<open>value or {}\<close> of a nullable JSON object.\<close>

definition dict_or :: "dict option \<Rightarrow> dict" where
  "dict_or v = (case v of None \<Rightarrow> fmempty | Some d \<Rightarrow> d)"

text \<open>The value stored for an optional text, and back.\<close>

definition opt_str :: "string option \<Rightarrow> pyval" where
  "opt_str v = (case v of None \<Rightarrow> PNone | Some s \<Rightarrow> PStr s)"

text \<open>\<open>{**a, **b}\<close>.\<close>

definition dict_merge :: "dict \<Rightarrow> dict \<Rightarrow> dict" where
  "dict_merge a b = a ++\<^sub>f b"

lemma dget_merge: "dget (dict_merge a b) k = (if k |\<in>| fmdom b then dget b k else dget a k)"
  by (auto simp: dict_merge_def dget_def fmdom_notI split: option.splits)

end
