(* ===== verification/KubernetesJobs.thy ===== *)
theory KubernetesJobs
  imports DatabaseModel
begin

text \<open>
  The Kubernetes Job of a bounded stage (\<open>app4-dashboard/api/kubernetes_jobs.py\<close>): the
  request and configuration records with their checks, the name of a Job, the manifest
  that is submitted, the comparison of an existing Job with the expected manifest, and
  the batch client.

  A manifest is a JSON object (\<open>dict\<close>). The HTTP transport of the client is a parameter:
  a call takes a method, a URL and a payload and may change the cluster.
\<close>

subsection \<open>Requests\<close>

record stage_job_request =
  jr_run_id :: string
  jr_mission_id :: int
  jr_organization_id :: string
  jr_vol_id :: string
  jr_workspace_prefix :: string
  jr_owner_subject :: string
  jr_stage :: stage_id
  jr_resource_class :: resource_class

definition request_post_init :: "stage_job_request \<Rightarrow> stage_job_request res" where
  "request_post_init r =
     rbind (validate_organization_id (jr_organization_id r)) (\<lambda>organization_id.
       if jr_mission_id r < 1 \<or> jr_run_id r = [] \<or> jr_owner_subject r = []
       then Inl (ValueError ''Stage Job mission binding is incomplete'')
       else rbind (mission_prefix organization_id (jr_vol_id r)) (\<lambda>prefix.
         if jr_workspace_prefix r \<noteq> prefix
         then Inl (ValueError ''Stage Job workspace prefix must match its durable tenant mission'')
         else Inr r))"

record secret_environment =
  se_name :: string
  se_secret_name :: string
  se_secret_key :: string

subsection \<open>Tolerations\<close>

text \<open>The fields hold whatever the configuration's JSON gave; the checks establish their types.\<close>

record toleration =
  tl_key :: pyval
  tl_operator :: pyval
  tl_value :: pyval
  tl_effect :: pyval
  tl_seconds :: pyval

definition toleration_effect_ok :: "pyval \<Rightarrow> bool res" where
  "toleration_effect_ok effect =
     (case effect of
        PNone \<Rightarrow> Inr True
      | PStr s \<Rightarrow> Inr (s \<in> {''NoSchedule'', ''PreferNoSchedule'', ''NoExecute''})
      | PList _ \<Rightarrow> Inl (TypeError ''unhashable type'')
      | PDict _ \<Rightarrow> Inl (TypeError ''unhashable type'')
      | _ \<Rightarrow> Inr False)"

definition toleration_seconds_ok :: "toleration \<Rightarrow> bool" where
  "toleration_seconds_ok t \<longleftrightarrow>
     (case tl_seconds t of
        PNone \<Rightarrow> True
      | PInt n \<Rightarrow> tl_effect t = PStr ''NoExecute'' \<and> n \<ge> 0
      | _ \<Rightarrow> False)"

definition toleration_post_init :: "toleration \<Rightarrow> toleration res" where
  "toleration_post_init t =
     (if \<not> (case tl_key t of PStr s \<Rightarrow> str_strip s \<noteq> [] | _ \<Rightarrow> False)
      then Inl (ValueError ''Stage Job toleration key must not be blank'')
      else if \<not> (tl_operator t = PStr ''Equal'' \<or> tl_operator t = PStr ''Exists'')
      then Inl (ValueError ''Stage Job toleration operator must be Equal or Exists'')
      else if \<not> (case tl_value t of PNone \<Rightarrow> True | PStr _ \<Rightarrow> True | _ \<Rightarrow> False)
      then Inl (ValueError ''Stage Job toleration value must be a string'')
      else if tl_operator t = PStr ''Exists'' \<and> tl_value t \<noteq> PNone
      then Inl (ValueError ''Exists tolerations must not declare a value'')
      else rbind (toleration_effect_ok (tl_effect t)) (\<lambda>ok.
        if \<not> ok then Inl (ValueError ''Stage Job toleration effect is invalid'')
        else if \<not> toleration_seconds_ok t
        then Inl (ValueError ''Stage Job toleration seconds require a non-negative NoExecute toleration'')
        else Inr t))"

definition json_object :: "(string \<times> pyval) list \<Rightarrow> pyval" where
  "json_object items = PDict (fmap_of_list items)"

definition unless_none :: "string \<Rightarrow> pyval \<Rightarrow> (string \<times> pyval) list" where
  "unless_none k v = (if v = PNone then [] else [(k, v)])"

definition toleration_manifest :: "toleration \<Rightarrow> pyval" where
  "toleration_manifest t =
     json_object ([(''key'', tl_key t), (''operator'', tl_operator t)]
       @ unless_none ''value'' (tl_value t) @ unless_none ''effect'' (tl_effect t)
       @ unless_none ''tolerationSeconds'' (tl_seconds t))"

subsection \<open>Indexed Jobs and work volumes\<close>

record indexed_config =
  ix_completions :: int
  ix_parallelism :: int

definition indexed_post_init :: "indexed_config \<Rightarrow> indexed_config res" where
  "indexed_post_init c =
     (if \<not> (2 \<le> ix_completions c \<and> ix_completions c \<le> 256)
      then Inl (ValueError ''Indexed Job completions must be between 2 and 256'')
      else if \<not> (1 \<le> ix_parallelism c \<and> ix_parallelism c \<le> ix_completions c)
      then Inl (ValueError ''Indexed Job parallelism must be within its completions'')
      else Inr c)"

text \<open>A volume source is a dictionary, here its items in order.\<close>

record work_volume =
  wv_source :: "(string \<times> pyval) list"

definition claim_name_pattern :: "string \<Rightarrow> bool" where
  "claim_name_pattern s =
     label_pattern id_char (\<lambda>c. id_char c \<or> c = CHR ''-'' \<or> c = CHR ''.'') 251 s"

definition size_limit_pattern :: "string \<Rightarrow> bool" where
  "size_limit_pattern s \<longleftrightarrow>
     (ends_with ''Mi'' s \<or> ends_with ''Gi'' s \<or> ends_with ''Ti'' s)
     \<and> (let digits = take (length s - 2) s
        in digits \<noteq> [] \<and> list_all is_digit digits \<and> hd digits \<noteq> CHR ''0'')"

definition host_path_ok :: "dict \<Rightarrow> bool" where
  "host_path_ok d \<longleftrightarrow>
     (case dget d ''path'' of
        PStr path \<Rightarrow> starts_with ''/'' path \<and> path \<noteq> ''/'' \<and> ''..'' \<notin> set (path_segments path)
          \<and> dget d ''type'' = PStr ''Directory''
      | _ \<Rightarrow> False)"

definition work_volume_post_init :: "work_volume \<Rightarrow> work_volume res" where
  "work_volume_post_init v =
     (case wv_source v of
        [(kind, value)] \<Rightarrow>
          if kind = ''hostPath'' then
            (case value of
               PDict d \<Rightarrow>
                 if fmdom d \<noteq> {|''path'', ''type''|}
                 then Inl (ValueError ''Stage Job hostPath work volumes require path and type'')
                 else if \<not> host_path_ok d then Inl (ValueError ''Stage Job hostPath work volume is unsafe'')
                 else Inr v
             | _ \<Rightarrow> Inl (ValueError ''Stage Job hostPath work volumes require path and type''))
          else if kind = ''persistentVolumeClaim'' then
            (case value of
               PDict d \<Rightarrow>
                 if fmdom d \<noteq> {|''claimName''|}
                 then Inl (ValueError ''Stage Job PVC work volumes require claimName'')
                 else if \<not> (case dget d ''claimName'' of PStr s \<Rightarrow> claim_name_pattern s | _ \<Rightarrow> False)
                 then Inl (ValueError ''Stage Job PVC claim name is invalid'')
                 else Inr v
             | _ \<Rightarrow> Inl (ValueError ''Stage Job PVC work volumes require claimName''))
          else if kind = ''emptyDir'' then
            (case value of
               PDict d \<Rightarrow>
                 if fmdom (fmdrop ''sizeLimit'' d) \<noteq> {||}
                 then Inl (ValueError ''Stage Job emptyDir work volume is invalid'')
                 else if \<not> (case dget d ''sizeLimit'' of PNone \<Rightarrow> True | PStr s \<Rightarrow> size_limit_pattern s | _ \<Rightarrow> False)
                 then Inl (ValueError ''Stage Job emptyDir size limit is invalid'')
                 else Inr v
             | _ \<Rightarrow> Inl (ValueError ''Stage Job emptyDir work volume is invalid''))
          else Inl (ValueError (''Unsupported Stage Job work volume source: '' @ kind))
      | _ \<Rightarrow> Inl (ValueError ''A Stage Job work volume requires exactly one source''))"

subsection \<open>Configuration\<close>

record stage_job_config =
  jc_namespace :: string
  jc_image :: string
  jc_command :: "string list"
  jc_service_account_name :: string
  jc_active_deadline_seconds :: int
  jc_ttl_seconds_after_finished :: int
  jc_runtime_class_name :: "string option"
  jc_node_selector :: "(string \<times> pyval) list"
  jc_tolerations :: "toleration list"
  jc_environment :: "(string \<times> string) list"
  jc_secret_environment :: "secret_environment list"
  jc_indexed :: "indexed_config option"
  jc_name_suffix :: "string option"
  jc_work_volume :: "work_volume option"

definition reserved_names :: "string list" where
  "reserved_names =
     [''DRONEAI_STAGE_RUN_ID'', ''DRONEAI_MISSION_ID'', ''DRONEAI_ORGANIZATION_ID'', ''DRONEAI_VOL_ID'',
      ''DRONEAI_WORKSPACE_PREFIX'', ''DRONEAI_STAGE'', ''DRONEAI_OWNER_SUBJECT'', ''DRONEAI_RESOURCE_CLASS'',
      ''DRONEAI_DETECTION_SHARD_INDEX'', ''DRONEAI_DETECTION_SHARD_COUNT'']"

definition config_names :: "stage_job_config \<Rightarrow> string list" where
  "config_names c = map fst (jc_environment c) @ map se_name (jc_secret_environment c)"

definition name_suffix_pattern :: "string \<Rightarrow> bool" where
  "name_suffix_pattern s = label_pattern id_char (\<lambda>c. id_char c \<or> c = CHR ''-'') 30 s"

definition config_post_init :: "stage_job_config \<Rightarrow> stage_job_config res" where
  "config_post_init c =
     (if jc_image c = [] \<or> jc_command c = []
      then Inl (ValueError ''A stage Job requires an image and command'')
      else if jc_active_deadline_seconds c < 1 \<or> jc_ttl_seconds_after_finished c < 0
      then Inl (ValueError ''Stage Job deadlines must be non-negative'')
      else if (case jc_runtime_class_name c of None \<Rightarrow> False | Some s \<Rightarrow> str_strip s = [])
      then Inl (ValueError ''Stage Job runtime class must not be blank'')
      else if (case jc_name_suffix c of None \<Rightarrow> False | Some s \<Rightarrow> \<not> name_suffix_pattern s)
      then Inl (ValueError ''Stage Job name suffix must be a canonical DNS label'')
      else if \<not> distinct (config_names c) \<or> list_ex (\<lambda>n. n \<in> set reserved_names) (config_names c)
      then Inl (ValueError ''Stage Job environment names must be unique and non-reserved'')
      else if list_ex (\<lambda>s. se_name s = [] \<or> se_secret_name s = [] \<or> se_secret_key s = [])
                (jc_secret_environment c)
      then Inl (ValueError ''Stage Job secret references must be complete'')
      else Inr c)"

subsection \<open>Names\<close>

definition name_char :: "char \<Rightarrow> bool" where
  "name_char c \<longleftrightarrow> id_char c \<or> c = CHR ''-''"

text \<open>\<open>re.sub("[^a-z0-9-]+", "-", s)\<close>; the flag tells whether the run of other characters has its dash.\<close>

fun dash_runs :: "bool \<Rightarrow> string \<Rightarrow> string" where
  "dash_runs dashed [] = []"
| "dash_runs dashed (c # s) =
     (if name_char c then c # dash_runs False s
      else if dashed then dash_runs True s
      else CHR ''-'' # dash_runs True s)"

definition strip_dashes :: "string \<Rightarrow> string" where
  "strip_dashes s = str_rstrip (\<lambda>c. c = CHR ''-'') (dropWhile (\<lambda>c. c = CHR ''-'') s)"

definition stage_job_name :: "world \<Rightarrow> string \<Rightarrow> string" where
  "stage_job_name w run_id =
     (let normalized = strip_dashes (dash_runs False (str_lower run_id));
          digest = take 10 (w_sha256 w run_id);
          cut = str_rstrip (\<lambda>c. c = CHR ''-'') (take 41 normalized);
          prefix = (if cut = [] then ''run'' else cut)
      in ''droneai-'' @ prefix @ ''-'' @ digest)"

subsection \<open>Comparison with an existing Job\<close>

definition TEMPLATE_HASH_ANNOTATION :: string where
  "TEMPLATE_HASH_ANNOTATION = ''droneai.io/job-template-sha256''"

definition job_identity :: "dict \<Rightarrow> dict res" where
  "job_identity job =
     rbind (as_dict (py_or (dget job ''metadata'') (PDict fmempty))) (\<lambda>metadata.
       Inr (fmap_of_list
         [(''apiVersion'', dget job ''apiVersion''), (''kind'', dget job ''kind''),
          (''metadata'', json_object
             [(''name'', dget metadata ''name''), (''namespace'', dget metadata ''namespace''),
              (''labels'', dget metadata ''labels'')]),
          (''spec'', dget job ''spec'')]))"

definition stage_job_template_sha256 :: "world \<Rightarrow> dict \<Rightarrow> string res" where
  "stage_job_template_sha256 w job =
     rbind (job_identity job) (\<lambda>identity. Inr (w_digest w (PDict identity)))"

text \<open>\<open>_contains_expected\<close>, by recursion on what is expected.\<close>

primrec contains_in :: "pyval \<Rightarrow> pyval \<Rightarrow> bool" where
  "contains_in PNone = py_eq PNone"
| "contains_in (PBool b) = py_eq (PBool b)"
| "contains_in (PInt i) = py_eq (PInt i)"
| "contains_in (PFloat q) = py_eq (PFloat q)"
| "contains_in (PStr s) = py_eq (PStr s)"
| "contains_in (PList xs) =
     (\<lambda>actual. case actual of PList ys \<Rightarrow> list_all2 (\<lambda>p y. p y) (map contains_in xs) ys | _ \<Rightarrow> False)"
| "contains_in (PDict d) =
     (\<lambda>actual. case actual of
        PDict a \<Rightarrow> fmpred (\<lambda>k p. case fmlookup a k of None \<Rightarrow> False | Some v \<Rightarrow> p v) (fmmap contains_in d)
      | _ \<Rightarrow> False)"

definition contains_expected :: "pyval \<Rightarrow> pyval \<Rightarrow> bool" where
  "contains_expected actual expected = contains_in expected actual"

definition stage_job_matches_expected :: "world \<Rightarrow> pyval \<Rightarrow> dict \<Rightarrow> bool res" where
  "stage_job_matches_expected w existing expected =
     (case existing of
        PDict actual \<Rightarrow>
          rbind (value_get (py_or (dget actual ''metadata'') (PDict fmempty)) ''annotations'') (\<lambda>found.
          rbind (stage_job_template_sha256 w expected) (\<lambda>expected_hash.
          rbind (value_get (py_or found (PDict fmempty)) TEMPLATE_HASH_ANNOTATION) (\<lambda>hash.
            if \<not> py_eq hash (PStr expected_hash) then Inr False
            else rbind (job_identity actual) (\<lambda>i. rbind (job_identity expected) (\<lambda>e.
                   Inr (contains_expected (PDict i) (PDict e)))))))
      | _ \<Rightarrow> Inr False)"

subsection \<open>The manifest\<close>

definition env_value :: "string \<Rightarrow> string \<Rightarrow> pyval" where
  "env_value name value = json_object [(''name'', PStr name), (''value'', PStr value)]"

definition env_secret :: "secret_environment \<Rightarrow> pyval" where
  "env_secret s =
     json_object [(''name'', PStr (se_name s)),
       (''valueFrom'', json_object [(''secretKeyRef'',
          json_object [(''name'', PStr (se_secret_name s)), (''key'', PStr (se_secret_key s))])])]"

definition env_shard_index :: pyval where
  "env_shard_index =
     json_object [(''name'', PStr ''DRONEAI_DETECTION_SHARD_INDEX''),
       (''valueFrom'', json_object [(''fieldRef'', json_object [(''fieldPath'',
          PStr (''metadata.annotations['' @ [CHR 0x27] @ ''batch.kubernetes.io/job-completion-index''
            @ [CHR 0x27] @ '']''))])])]"

definition binding_environment :: "stage_job_request \<Rightarrow> (string \<times> string) list" where
  "binding_environment r =
     [(''DRONEAI_STAGE_RUN_ID'', jr_run_id r), (''DRONEAI_MISSION_ID'', int_text (jr_mission_id r)),
      (''DRONEAI_ORGANIZATION_ID'', jr_organization_id r), (''DRONEAI_VOL_ID'', jr_vol_id r),
      (''DRONEAI_WORKSPACE_PREFIX'', jr_workspace_prefix r), (''DRONEAI_STAGE'', stage_name (jr_stage r)),
      (''DRONEAI_OWNER_SUBJECT'', jr_owner_subject r),
      (''DRONEAI_RESOURCE_CLASS'', class_name (jr_resource_class r))]"

definition indexed_environment :: "indexed_config option \<Rightarrow> pyval list" where
  "indexed_environment i =
     (case i of
        None \<Rightarrow> []
      | Some c \<Rightarrow> [env_shard_index, env_value ''DRONEAI_DETECTION_SHARD_COUNT'' (int_text (ix_completions c))])"

definition job_environment :: "stage_job_request \<Rightarrow> stage_job_config \<Rightarrow> pyval list" where
  "job_environment r c =
     map (\<lambda>(n, v). env_value n v) (binding_environment r) @ map (\<lambda>(n, v). env_value n v) (jc_environment c)
     @ map env_secret (jc_secret_environment c) @ indexed_environment (jc_indexed c)"

definition job_labels :: "world \<Rightarrow> stage_job_request \<Rightarrow> pyval" where
  "job_labels w r =
     json_object
       [(''app.kubernetes.io/name'', PStr ''droneai-stage''), (''app.kubernetes.io/part-of'', PStr ''drone-ai''),
        (''droneai.stage'', PStr (stage_name (jr_stage r))),
        (''droneai.resource-class'', PStr (class_name (jr_resource_class r))),
        (''droneai.run-id-hash'', PStr (take 16 (w_sha256 w (jr_run_id r))))]"

definition job_requests :: "resource_class_spec \<Rightarrow> pyval" where
  "job_requests s =
     json_object [(''cpu'', PStr (cpu_request s)), (''memory'', PStr (memory_request s)),
       (''ephemeral-storage'', PStr (ephemeral_storage_request s))]"

definition job_limits :: "resource_class_spec \<Rightarrow> pyval" where
  "job_limits s =
     json_object ([(''cpu'', PStr (cpu_limit s)), (''memory'', PStr (memory_limit s)),
       (''ephemeral-storage'', PStr (ephemeral_storage_limit s))]
       @ (if gpu_count s \<noteq> 0 then [(''nvidia.com/gpu'', PStr (int_text (gpu_count s)))] else []))"

definition sized_empty_dir :: "resource_class_spec \<Rightarrow> pyval" where
  "sized_empty_dir s = json_object [(''sizeLimit'', PStr (ephemeral_storage_limit s))]"

definition job_work_volume :: "stage_job_config \<Rightarrow> resource_class_spec \<Rightarrow> pyval" where
  "job_work_volume c s =
     (case jc_work_volume c of
        Some v \<Rightarrow> PDict (dict_merge (fmap_of_list [(''name'', PStr ''work'')]) (fmap_of_list (wv_source v)))
      | None \<Rightarrow> json_object [(''name'', PStr ''work''), (''emptyDir'', sized_empty_dir s)])"

definition job_mounts :: "stage_job_request \<Rightarrow> stage_job_config \<Rightarrow> pyval" where
  "job_mounts r c =
     PList
       [json_object [(''name'', PStr ''tmp''), (''mountPath'', PStr ''/tmp'')],
        json_object ([(''name'', PStr ''work''), (''mountPath'', PStr ''/work'')]
          @ (case jc_work_volume c of
               None \<Rightarrow> []
             | Some v \<Rightarrow> if ''emptyDir'' \<in> set (map fst (wv_source v)) then []
                         else [(''subPath'', PStr (jr_workspace_prefix r))])),
        json_object [(''name'', PStr ''cache''), (''mountPath'', PStr ''/cache'')]]"

definition job_container :: "stage_job_request \<Rightarrow> stage_job_config \<Rightarrow> resource_class_spec \<Rightarrow> pyval" where
  "job_container r c s =
     json_object
       [(''name'', PStr ''stage''), (''image'', PStr (jc_image c)), (''imagePullPolicy'', PStr ''IfNotPresent''),
        (''command'', PList (map PStr (jc_command c))), (''env'', PList (job_environment r c)),
        (''resources'', json_object [(''requests'', job_requests s), (''limits'', job_limits s)]),
        (''securityContext'', json_object
          [(''allowPrivilegeEscalation'', PBool False), (''readOnlyRootFilesystem'', PBool True),
           (''capabilities'', json_object [(''drop'', PList [PStr ''ALL''])])]),
        (''volumeMounts'', job_mounts r c)]"

text \<open>The node labels of the class, extended by the configured ones; a different value is a conflict.\<close>

fun merge_selector :: "(string \<times> pyval) list \<Rightarrow> dict \<Rightarrow> dict res" where
  "merge_selector [] selector = Inr selector"
| "merge_selector ((key, value) # rest) selector =
     (if dget selector key \<noteq> PNone \<and> \<not> py_eq (dget selector key) value
      then Inl (ValueError (''Stage Job node selector conflicts with resource class for '' @ key))
      else merge_selector rest (fmupd key value selector))"

definition job_selector :: "stage_job_request \<Rightarrow> stage_job_config \<Rightarrow> dict res" where
  "job_selector r c =
     merge_selector (jc_node_selector c)
       (fmap_of_list (map (\<lambda>(k, v). (k, PStr v)) (resource_class_node_selector (jr_resource_class r))))"

definition pod_spec ::
  "stage_job_request \<Rightarrow> stage_job_config \<Rightarrow> resource_class_spec \<Rightarrow> dict \<Rightarrow> pyval" where
  "pod_spec r c s selector =
     json_object
       ([(''restartPolicy'', PStr ''Never''), (''serviceAccountName'', PStr (jc_service_account_name c)),
         (''securityContext'', json_object
            [(''runAsNonRoot'', PBool True),
             (''seccompProfile'', json_object [(''type'', PStr ''RuntimeDefault'')])]),
         (''containers'', PList [job_container r c s]),
         (''volumes'', PList
            [json_object [(''name'', PStr ''tmp''), (''emptyDir'', PDict fmempty)], job_work_volume c s,
             json_object [(''name'', PStr ''cache''), (''emptyDir'', sized_empty_dir s)]])]
        @ (if selector \<noteq> fmempty then [(''nodeSelector'', PDict selector)] else [])
        @ (if jc_tolerations c \<noteq> []
           then [(''tolerations'', PList (map toleration_manifest (jc_tolerations c)))] else [])
        @ (case jc_runtime_class_name c of
             Some name \<Rightarrow> if gpu_count s \<noteq> 0 \<and> name \<noteq> [] then [(''runtimeClassName'', PStr name)] else []
           | None \<Rightarrow> []))"

definition job_spec ::
  "world \<Rightarrow> stage_job_request \<Rightarrow> stage_job_config \<Rightarrow> dict \<Rightarrow> pyval" where
  "job_spec w r c selector =
     json_object
       ([(''backoffLimit'', PInt 0), (''activeDeadlineSeconds'', PInt (jc_active_deadline_seconds c)),
         (''ttlSecondsAfterFinished'', PInt (jc_ttl_seconds_after_finished c)),
         (''template'', json_object
            [(''metadata'', json_object [(''labels'', job_labels w r)]),
             (''spec'', pod_spec r c (resource_classes (jr_resource_class r)) selector)])]
        @ (case jc_indexed c of
             None \<Rightarrow> []
           | Some i \<Rightarrow> [(''completionMode'', PStr ''Indexed''), (''completions'', PInt (ix_completions i)),
                        (''parallelism'', PInt (ix_parallelism i))]))"

definition name_identity :: "stage_job_request \<Rightarrow> stage_job_config \<Rightarrow> string" where
  "name_identity r c =
     (case jc_name_suffix c of Some suffix \<Rightarrow> jr_run_id r @ ''-'' @ suffix | None \<Rightarrow> jr_run_id r)"

definition job_metadata :: "world \<Rightarrow> stage_job_request \<Rightarrow> stage_job_config \<Rightarrow> (string \<times> pyval) list" where
  "job_metadata w r c =
     [(''name'', PStr (stage_job_name w (name_identity r c))), (''namespace'', PStr (jc_namespace c)),
      (''labels'', job_labels w r)]"

definition job_with_metadata ::
  "world \<Rightarrow> stage_job_request \<Rightarrow> stage_job_config \<Rightarrow> dict \<Rightarrow> (string \<times> pyval) list \<Rightarrow> dict" where
  "job_with_metadata w r c selector metadata =
     fmap_of_list
       [(''apiVersion'', PStr ''batch/v1''), (''kind'', PStr ''Job''), (''metadata'', json_object metadata),
        (''spec'', job_spec w r c selector)]"

definition build_stage_job :: "world \<Rightarrow> stage_job_request \<Rightarrow> stage_job_config \<Rightarrow> dict res" where
  "build_stage_job w r c =
     rbind (job_selector r c) (\<lambda>selector.
     rbind (stage_job_template_sha256 w (job_with_metadata w r c selector (job_metadata w r c))) (\<lambda>hash.
       Inr (job_with_metadata w r c selector
              (job_metadata w r c
               @ [(''annotations'', json_object [(TEMPLATE_HASH_ANNOTATION, PStr hash)])]))))"

subsection \<open>The batch client\<close>

text \<open>
  \<open>kc_call\<close> is the HTTP transport: method, URL, payload and cluster to an answer and the
  cluster after the call. A status of 400 or more is a \<open>KubernetesApiError\<close>.
\<close>

record 'k job_client =
  kc_namespace :: string
  kc_host :: string
  kc_port :: string
  kc_call :: "string \<Rightarrow> string \<Rightarrow> pyval option \<Rightarrow> 'k \<Rightarrow> pyval res \<times> 'k"

definition jobs_url :: "'k job_client \<Rightarrow> string" where
  "jobs_url c =
     ''https://'' @ kc_host c @ '':'' @ kc_port c @ ''/apis/batch/v1/namespaces/'' @ kc_namespace c @ ''/jobs''"

definition pods_url :: "'k job_client \<Rightarrow> string" where
  "pods_url c =
     ''https://'' @ kc_host c @ '':'' @ kc_port c @ ''/api/v1/namespaces/'' @ kc_namespace c @ ''/pods''"

definition hex_digit :: "nat \<Rightarrow> char" where
  "hex_digit n = ''0123456789ABCDEF'' ! n"

text \<open>\<open>quote_plus\<close> of a value whose characters are ASCII, as Job names are.\<close>

definition quote_char :: "char \<Rightarrow> string" where
  "quote_char c =
     (if is_lower c \<or> is_upper c \<or> is_digit c \<or> c \<in> set ''_.-~'' then [c]
      else if c = CHR '' '' then ''+''
      else ''%'' @ [hex_digit (of_char c div 16), hex_digit (of_char c mod 16)])"

definition client_create :: "'k job_client \<Rightarrow> dict \<Rightarrow> 'k \<Rightarrow> pyval res \<times> 'k" where
  "client_create c job k = kc_call c ''POST'' (jobs_url c) (Some (PDict job)) k"

definition client_get :: "'k job_client \<Rightarrow> string \<Rightarrow> 'k \<Rightarrow> pyval res \<times> 'k" where
  "client_get c name k = kc_call c ''GET'' (jobs_url c @ ''/'' @ name) None k"

definition client_pods_for_job :: "'k job_client \<Rightarrow> string \<Rightarrow> 'k \<Rightarrow> pyval res \<times> 'k" where
  "client_pods_for_job c name k =
     (let query = ''labelSelector='' @ concat (map quote_char (''job-name='' @ name))
      in case kc_call c ''GET'' (pods_url c @ ''?'' @ query) None k of
           (Inl e, k') \<Rightarrow> (Inl e, k')
         | (Inr result, k') \<Rightarrow> (rbind (value_get result ''items'') (\<lambda>items. Inr (py_or items (PList []))), k'))"

definition client_delete :: "'k job_client \<Rightarrow> string \<Rightarrow> string \<Rightarrow> 'k \<Rightarrow> pyval res \<times> 'k" where
  "client_delete c name uid k =
     kc_call c ''DELETE'' (jobs_url c @ ''/'' @ name)
       (Some (json_object
          [(''apiVersion'', PStr ''v1''), (''kind'', PStr ''DeleteOptions''),
           (''propagationPolicy'', PStr ''Foreground''),
           (''preconditions'', json_object [(''uid'', PStr uid)])])) k"

subsection \<open>Names are DNS labels\<close>

text \<open>What the code relies on of \<open>hashlib.sha256(text).hexdigest()\<close>.\<close>

definition hex_digests :: "world \<Rightarrow> bool" where
  "hex_digests w \<longleftrightarrow> (\<forall>s. length (w_sha256 w s) = 64 \<and> list_all hex_char (w_sha256 w s))"

lemma hex_char_id: "hex_char c \<Longrightarrow> id_char c"
  by (auto simp: hex_char_def id_char_def is_lower_def is_digit_def)

lemma dash_runs_chars: "list_all name_char (dash_runs b s)"
  by (induction b s rule: dash_runs.induct) (auto simp: name_char_def)

lemma rstrip_prefix: "set (str_rstrip P s) \<subseteq> set s" "length (str_rstrip P s) \<le> length s"
  by (auto simp: str_rstrip_def dest: set_dropWhileD intro: order.trans [OF length_dropWhile_le])

lemma strip_dashes_chars: "list_all name_char s \<Longrightarrow> list_all name_char (strip_dashes s)"
  using rstrip_prefix(1) by (fastforce simp: strip_dashes_def list_all_iff dest: set_dropWhileD)

lemma job_prefix_chars:
  "list_all name_char (str_rstrip P (take 41 (strip_dashes (dash_runs b s))))
   \<and> length (str_rstrip P (take 41 (strip_dashes (dash_runs b s)))) \<le> 41"
proof -
  have "list_all name_char (take 41 (strip_dashes (dash_runs b s)))"
    using strip_dashes_chars [OF dash_runs_chars] by (auto simp: list_all_iff dest: in_set_takeD)
  moreover have "length (str_rstrip P (take 41 (strip_dashes (dash_runs b s)))) \<le> 41"
    by (rule order.trans [OF rstrip_prefix(2)]) simp
  ultimately show ?thesis using rstrip_prefix(1) by (fastforce simp: list_all_iff)
qed

text \<open>The name of a stage Job is a DNS label of at most 60 characters that starts with a letter and ends with a letter or digit, whatever the run id is.\<close>

theorem stage_job_name_is_dns_label:
  assumes "hex_digests w"
  shows "length (stage_job_name w run_id) \<le> 60 \<and> list_all name_char (stage_job_name w run_id)
    \<and> is_lower (hd (stage_job_name w run_id)) \<and> id_char (last (stage_job_name w run_id))"
proof -
  define digest where "digest = take 10 (w_sha256 w run_id)"
  have digest: "length digest = 10" "list_all id_char digest"
    using assms by (auto simp: digest_def hex_digests_def list_all_iff dest!: in_set_takeD intro!: hex_char_id)
  obtain prefix where name: "stage_job_name w run_id = ''droneai-'' @ prefix @ ''-'' @ digest"
    and prefix: "list_all name_char prefix" "length prefix \<le> 41"
  proof -
    let ?cut = "str_rstrip (\<lambda>c. c = CHR ''-'') (take 41 (strip_dashes (dash_runs False (str_lower run_id))))"
    have "stage_job_name w run_id = ''droneai-'' @ (if ?cut = [] then ''run'' else ?cut) @ ''-'' @ digest"
      by (simp add: stage_job_name_def digest_def Let_def)
    moreover have "list_all name_char (if ?cut = [] then ''run'' else ?cut)"
      using job_prefix_chars by (auto simp: name_char_def id_char_def is_lower_def)
    moreover have "length (if ?cut = [] then ''run'' else ?cut) \<le> 41" using job_prefix_chars by simp
    ultimately show thesis using that by blast
  qed
  have "digest \<noteq> []" using digest(1) by auto
  then have "id_char (last digest)" using digest(2) by (simp add: list_all_iff)
  moreover have "list_all name_char digest" using digest(2) by (auto simp: list_all_iff name_char_def)
  ultimately show ?thesis
    using prefix digest(1) \<open>digest \<noteq> []\<close> unfolding name
    by (auto simp: name_char_def id_char_def is_lower_def)
qed

subsection \<open>Accepted Jobs\<close>

lemma contains_list [simp]:
  "contains_in (PList xs) a \<longleftrightarrow> (\<exists>ys. a = PList ys \<and> list_all2 contains_in xs ys)"
  by (cases a) (auto simp: list_all2_map1)

lemma contains_dict [simp]:
  "contains_in (PDict d) a \<longleftrightarrow>
     (\<exists>e. a = PDict e \<and> (\<forall>k v. fmlookup d k = Some v \<longrightarrow> (\<exists>v'. fmlookup e k = Some v' \<and> contains_in v v')))"
  by (cases a) (fastforce simp: fmpred_iff fmlookup_map split: option.splits)+

declare contains_in.simps(6,7) [simp del]

lemma contains_refl: "contains_in v v"
proof (induction v)
  case (PList xs)
  then show ?case by (auto simp: list_all2_same)
next
  case (PDict d)
  have "contains_in v v" if "fmlookup d k = Some v" for k v
    using PDict [OF fmran'I [OF that]] .
  then show ?case by auto
qed simp_all

lemma py_eq_PStr [simp]: "py_eq (PStr s) v \<longleftrightarrow> v = PStr s" "py_eq v (PStr s) \<longleftrightarrow> v = PStr s"
  by (cases v; auto simp: py_eq_def)+

lemma contains_items [simp]:
  "contains_in (json_object items) a \<longleftrightarrow>
     (\<exists>e. a = PDict e \<and> (\<forall>k v. map_of items k = Some v \<longrightarrow> (\<exists>v'. fmlookup e k = Some v' \<and> contains_in v v')))"
  by (simp add: json_object_def fmlookup_of_list)

lemma contains_spec_some: "contains_in (job_spec w r c selector) v \<Longrightarrow> v \<noteq> PNone"
  by (auto simp: job_spec_def)

lemma contains_labels_some: "contains_in (job_labels w r) v \<Longrightarrow> v \<noteq> PNone"
  by (auto simp: job_labels_def)

lemma dget_Some: "fmlookup d k = Some v \<Longrightarrow> dget d k = v"
  by (simp add: dget_def)

lemma dget_not_none: "dget d k \<noteq> PNone \<Longrightarrow> fmlookup d k = Some (dget d k)"
  by (auto simp: dget_def split: option.splits)

lemma map_of_Cons_all:
  "(\<forall>k v. map_of ((k0, v0) # items) k = Some v \<longrightarrow> P k v) \<longleftrightarrow>
     P k0 v0 \<and> (\<forall>k v. k \<noteq> k0 \<longrightarrow> map_of items k = Some v \<longrightarrow> P k v)"
  by (auto split: if_splits)

lemma job_identity_of_manifest:
  assumes "metadata = job_metadata w r c @ others" and "\<forall>k \<in> {''name'', ''namespace'', ''labels''}. map_of others k = None"
  shows "job_identity (job_with_metadata w r c selector metadata)
    = Inr (job_with_metadata w r c selector (job_metadata w r c))"
proof -
  have "truthy (json_object metadata)"
  proof -
    have "fmlookup (fmap_of_list metadata) ''name'' \<noteq> None"
      by (simp add: assms(1) fmlookup_of_list job_metadata_def)
    then have "fmap_of_list metadata \<noteq> fmempty" by auto
    then show ?thesis by (simp add: json_object_def)
  qed
  then have md: "py_or (json_object metadata) (PDict fmempty) = PDict (fmap_of_list metadata)"
    by (simp add: py_or_def json_object_def)
  have look: "dget (fmap_of_list metadata) ''name'' = PStr (stage_job_name w (name_identity r c))"
    "dget (fmap_of_list metadata) ''namespace'' = PStr (jc_namespace c)"
    "dget (fmap_of_list metadata) ''labels'' = job_labels w r"
    by (simp_all add: assms(1) job_metadata_def)
  show ?thesis
    by (simp add: job_identity_def job_with_metadata_def md as_dict_def look job_metadata_def)
qed

lemma contains_at:
  "\<not> contains_in v PNone \<Longrightarrow> (\<exists>v'. fmlookup e k = Some v' \<and> contains_in v v') \<longleftrightarrow> contains_in v (dget e k)"
  by (auto simp: dget_def split: option.splits)

lemma contains_fmupd:
  assumes "fmlookup d k = None"
  shows "contains_in (PDict (fmupd k v d)) (PDict e) \<longleftrightarrow>
    (\<exists>v'. fmlookup e k = Some v' \<and> contains_in v v') \<and> contains_in (PDict d) (PDict e)"
  using assms unfolding contains_dict by (auto split: if_splits)

lemma contains_manifest:
  "contains_in (PDict (job_with_metadata w r c selector metadata)) (PDict e) \<longleftrightarrow>
     dget e ''apiVersion'' = PStr ''batch/v1'' \<and> dget e ''kind'' = PStr ''Job''
     \<and> contains_in (json_object metadata) (dget e ''metadata'')
     \<and> contains_in (job_spec w r c selector) (dget e ''spec'')"
proof -
  let ?in = "\<lambda>k v. \<exists>v'. fmlookup e k = Some v' \<and> contains_in v v'"
  have "contains_in (PDict (job_with_metadata w r c selector metadata)) (PDict e) \<longleftrightarrow>
      ?in ''apiVersion'' (PStr ''batch/v1'') \<and> ?in ''kind'' (PStr ''Job'')
      \<and> ?in ''metadata'' (json_object metadata) \<and> ?in ''spec'' (job_spec w r c selector)"
    unfolding job_with_metadata_def fmap_of_list_simps by (subst contains_fmupd, simp)+ simp
  moreover have spec: "\<not> contains_in (job_spec w r c selector) PNone" using contains_spec_some by blast
  moreover have meta: "\<not> contains_in (json_object metadata) PNone" by simp
  moreover have "?in k (PStr t) \<longleftrightarrow> dget e k = PStr t" for k t
    by (auto simp: dget_def split: option.splits)
  ultimately show ?thesis by (simp only: contains_at [OF spec] contains_at [OF meta])
qed

lemma contains_metadata:
  assumes "metadata = job_metadata w r c @ others" and "\<forall>k \<in> {''name'', ''namespace'', ''labels''}. map_of others k = None"
  shows "contains_in (json_object metadata) (PDict m) \<longleftrightarrow>
    dget m ''name'' = PStr (stage_job_name w (name_identity r c)) \<and> dget m ''namespace'' = PStr (jc_namespace c)
    \<and> contains_in (job_labels w r) (dget m ''labels'') \<and> contains_in (json_object others) (PDict m)"
proof -
  let ?in = "\<lambda>k v. \<exists>v'. fmlookup m k = Some v' \<and> contains_in v v'"
  have "contains_in (json_object metadata) (PDict m) \<longleftrightarrow>
      ?in ''name'' (PStr (stage_job_name w (name_identity r c))) \<and> ?in ''namespace'' (PStr (jc_namespace c))
      \<and> ?in ''labels'' (job_labels w r) \<and> contains_in (json_object others) (PDict m)"
    unfolding json_object_def assms(1) job_metadata_def append.simps fmap_of_list_simps
    using assms(2) by (subst contains_fmupd, simp add: fmlookup_of_list)+ simp
  moreover have labels: "\<not> contains_in (job_labels w r) PNone" using contains_labels_some by blast
  moreover have "?in k (PStr t) \<longleftrightarrow> dget m k = PStr t" for k t
    by (auto simp: dget_def split: option.splits)
  ultimately show ?thesis by (simp only: contains_at [OF labels])
qed

lemma annotation_found:
  "value_get (py_or F (PDict fmempty)) k = Inr (PStr h) \<longleftrightarrow> (\<exists>a. F = PDict a \<and> dget a k = PStr h)"
  by (cases F) (auto simp: value_get_def py_or_def as_dict_def)

lemma matches_iff_contains:
  assumes "build_stage_job w r c = Inr job"
  shows "stage_job_matches_expected w (PDict existing) job = Inr True
    \<longleftrightarrow> contains_expected (PDict existing) (PDict job)"
proof -
  let ?md = "job_metadata w r c" and ?M = "dget existing ''metadata''"
  obtain selector hash where sha: "stage_job_template_sha256 w (job_with_metadata w r c selector ?md) = Inr hash"
    and job: "job = job_with_metadata w r c selector
        (?md @ [(''annotations'', json_object [(TEMPLATE_HASH_ANNOTATION, PStr hash)])])"
    using assms by (auto simp: build_stage_job_def rbind_Inr_iff)
  have id_plain: "job_identity (job_with_metadata w r c selector ?md) = Inr (job_with_metadata w r c selector ?md)"
    by (rule job_identity_of_manifest [where others = "[]"]) simp_all
  have id_job: "job_identity job = Inr (job_with_metadata w r c selector ?md)"
    unfolding job by (rule job_identity_of_manifest [OF refl]) simp
  have sha_job: "stage_job_template_sha256 w job = Inr hash"
    using sha by (simp add: stage_job_template_sha256_def id_plain id_job)
  let ?spec = "contains_in (job_spec w r c selector) (dget existing ''spec'')"
  have whole: "contains_expected (PDict existing) (PDict job) \<longleftrightarrow>
      dget existing ''apiVersion'' = PStr ''batch/v1'' \<and> dget existing ''kind'' = PStr ''Job''
      \<and> contains_in (json_object (?md @ [(''annotations'', json_object [(TEMPLATE_HASH_ANNOTATION, PStr hash)])])) ?M \<and> ?spec"
    by (simp only: contains_expected_def job contains_manifest)
  show ?thesis
  proof (cases "\<exists>m. ?M = PDict m \<and> m \<noteq> fmempty")
    case True
    then obtain m where m: "?M = PDict m" "m \<noteq> fmempty" by blast
    then have md: "py_or ?M (PDict fmempty) = PDict m" by (simp add: py_or_def)
    let ?I = "fmap_of_list
         [(''apiVersion'', dget existing ''apiVersion''), (''kind'', dget existing ''kind''),
          (''metadata'', json_object
             [(''name'', dget m ''name''), (''namespace'', dget m ''namespace''), (''labels'', dget m ''labels'')]),
          (''spec'', dget existing ''spec'')]"
    have id: "job_identity existing = Inr ?I" by (simp add: job_identity_def md as_dict_def)
    have inner: "contains_in (json_object ?md) (json_object
             [(''name'', dget m ''name''), (''namespace'', dget m ''namespace''), (''labels'', dget m ''labels'')]) \<longleftrightarrow>
        dget m ''name'' = PStr (stage_job_name w (name_identity r c)) \<and> dget m ''namespace'' = PStr (jc_namespace c)
        \<and> contains_in (job_labels w r) (dget m ''labels'')"
      using contains_metadata [where others = "[]" and metadata = ?md]
      by (simp add: json_object_def del: contains_dict) simp
    have same: "contains_expected (PDict ?I) (PDict (job_with_metadata w r c selector ?md)) \<longleftrightarrow>
        dget existing ''apiVersion'' = PStr ''batch/v1'' \<and> dget existing ''kind'' = PStr ''Job''
        \<and> dget m ''name'' = PStr (stage_job_name w (name_identity r c)) \<and> dget m ''namespace'' = PStr (jc_namespace c)
        \<and> contains_in (job_labels w r) (dget m ''labels'') \<and> ?spec"
      unfolding contains_expected_def contains_manifest using inner by simp
    have "contains_in (json_object (?md @ [(''annotations'', json_object [(TEMPLATE_HASH_ANNOTATION, PStr hash)])])) ?M
      \<longleftrightarrow> dget m ''name'' = PStr (stage_job_name w (name_identity r c)) \<and> dget m ''namespace'' = PStr (jc_namespace c)
        \<and> contains_in (job_labels w r) (dget m ''labels'')
        \<and> value_get (py_or (dget m ''annotations'') (PDict fmempty)) TEMPLATE_HASH_ANNOTATION = Inr (PStr hash)"
    proof -
      have "contains_in (json_object [(''annotations'', json_object [(TEMPLATE_HASH_ANNOTATION, PStr hash)])]) (PDict m)
          \<longleftrightarrow> (\<exists>a. dget m ''annotations'' = PDict a \<and> dget a TEMPLATE_HASH_ANNOTATION = PStr hash)"
        by (auto simp: dget_def split: option.splits if_splits)
      then show ?thesis unfolding m(1) annotation_found by (subst contains_metadata [OF refl]) simp_all
    qed
    moreover have "stage_job_matches_expected w (PDict existing) job = Inr True \<longleftrightarrow>
        value_get (py_or (dget m ''annotations'') (PDict fmempty)) TEMPLATE_HASH_ANNOTATION = Inr (PStr hash)
        \<and> contains_expected (PDict ?I) (PDict (job_with_metadata w r c selector ?md))"
      by (cases "value_get (py_or (dget m ''annotations'') (PDict fmempty)) TEMPLATE_HASH_ANNOTATION")
         (simp_all add: stage_job_matches_expected_def md value_get_def [of "PDict m"] as_dict_def sha_job id id_job)
    ultimately show ?thesis using whole same by blast
  next
    case False
    have "stage_job_matches_expected w (PDict existing) job \<noteq> Inr True"
    proof (cases "truthy ?M")
      case True
      then have "as_dict ?M = Inl (AttributeError ''object has no attribute get'')"
        using False by (cases ?M) (auto simp: as_dict_def)
      with True show ?thesis by (simp add: stage_job_matches_expected_def py_or_def value_get_def)
    next
      case False
      then show ?thesis
        by (simp add: stage_job_matches_expected_def py_or_def value_get_def as_dict_def sha_job)
    qed
    moreover have "\<not> contains_in (json_object (?md @ others)) ?M" for others
    proof
      assume "contains_in (json_object (?md @ others)) ?M"
      moreover have "map_of (?md @ others) ''name'' = Some (PStr (stage_job_name w (name_identity r c)))"
        by (simp add: job_metadata_def)
      ultimately obtain m where "?M = PDict m" "fmlookup m ''name'' \<noteq> None" unfolding contains_items by blast
      with False show False by fastforce
    qed
    ultimately show ?thesis using whole by blast
  qed
qed

text \<open>The comparison of an existing Job with the expected manifest (annotation hash, then the identity fields) accepts the existing Job exactly when that Job contains the whole submitted manifest, whatever the API server has added to it.\<close>

theorem accepted_jobs_contain_manifest:
  assumes "build_stage_job w r c = Inr job"
  shows "stage_job_matches_expected w (PDict existing) job = Inr True
    \<longleftrightarrow> contains_expected (PDict existing) (PDict job)"
  using assms by (rule matches_iff_contains)


subsection \<open>The environment of the container\<close>

definition shard_names :: "indexed_config option \<Rightarrow> string list" where
  "shard_names i = (case i of None \<Rightarrow> [] | Some _ \<Rightarrow> [''DRONEAI_DETECTION_SHARD_INDEX'', ''DRONEAI_DETECTION_SHARD_COUNT''])"

lemma env_names:
  "map (\<lambda>e. value_get e ''name'') (job_environment r c)
   = map (\<lambda>n. Inr (PStr n)) (map fst (binding_environment r) @ config_names c @ shard_names (jc_indexed c))"
proof -
  have v: "value_get (env_value n x) ''name'' = Inr (PStr n)" for n x
    by (simp add: env_value_def json_object_def value_get_def as_dict_def)
  have k: "value_get (env_secret x) ''name'' = Inr (PStr (se_name x))" for x
    by (simp add: env_secret_def json_object_def value_get_def as_dict_def)
  have i: "map (\<lambda>e. value_get e ''name'') (indexed_environment j) = map (\<lambda>n. Inr (PStr n)) (shard_names j)" for j
  proof -
    have "value_get env_shard_index ''name'' = Inr (PStr ''DRONEAI_DETECTION_SHARD_INDEX'')"
      by (simp add: env_shard_index_def json_object_def value_get_def as_dict_def)
    then show ?thesis by (simp add: indexed_environment_def shard_names_def v split: option.splits)
  qed
  show ?thesis
    by (simp add: job_environment_def config_names_def i v k comp_def case_prod_unfold)
qed

lemma config_ok_names:
  "config_post_init c = Inr c' \<Longrightarrow> distinct (config_names c) \<and> set (config_names c) \<inter> set reserved_names = {}"
  by (auto simp: config_post_init_def list_ex_iff split: if_splits)

text \<open>A checked configuration cannot shadow the tenant binding of a Job: the names of the container's environment are distinct and every binding variable (run, mission, organization, flight, prefix, stage, owner, class) has the value of the request.\<close>

theorem environment_keeps_binding:
  assumes "config_post_init c = Inr c'"
  shows "distinct (map (\<lambda>e. value_get e ''name'') (job_environment r c))
    \<and> (\<forall>(n, v) \<in> set (binding_environment r). filter (\<lambda>e. value_get e ''name'' = Inr (PStr n)) (job_environment r c) = [env_value n v])"
proof -
  note names = config_ok_names [OF assms]
  have reserved: "set (map fst (binding_environment r)) \<subseteq> set reserved_names"
    "set (shard_names (jc_indexed c)) \<subseteq> set reserved_names"
    "set (map fst (binding_environment r)) \<inter> set (shard_names (jc_indexed c)) = {}"
    "distinct (map fst (binding_environment r))" "distinct (shard_names (jc_indexed c))"
    by (auto simp: binding_environment_def reserved_names_def shard_names_def split: option.splits)
  have "distinct (map fst (binding_environment r) @ config_names c @ shard_names (jc_indexed c))"
    using names reserved by (simp only: distinct_append set_append) blast
  then have distinct: "distinct (map (\<lambda>e. value_get e ''name'') (job_environment r c))"
    unfolding env_names by (subst distinct_map) (simp add: inj_on_def)
  have "filter (\<lambda>e. value_get e ''name'' = Inr (PStr n)) (job_environment r c) = [env_value n v]"
    if "(n, v) \<in> set (binding_environment r)" for n v
  proof -
    have "env_value n v \<in> set (job_environment r c)" using that by (force simp: job_environment_def)
    moreover have "value_get (env_value n v) ''name'' = Inr (PStr n)"
      by (simp add: env_value_def json_object_def value_get_def as_dict_def)
    ultimately show ?thesis using distinct_filter_one [OF distinct, of "env_value n v"] by simp
  qed
  with distinct show ?thesis by blast
qed

subsection \<open>Examples\<close>

definition example_job_request :: stage_job_request where
  "example_job_request =
     \<lparr>jr_run_id = ''Run_1'', jr_mission_id = 7, jr_organization_id = ''acme'', jr_vol_id = ''flight-7'',
      jr_workspace_prefix = ''organizations/acme/missions/flight-7'', jr_owner_subject = ''ann'',
      jr_stage = Reconstruction, jr_resource_class = GpuGeometry\<rparr>"

definition example_job_config :: stage_job_config where
  "example_job_config =
     \<lparr>jc_namespace = ''drone-ai'', jc_image = ''img'', jc_command = [''run''], jc_service_account_name = ''sa'',
      jc_active_deadline_seconds = 60, jc_ttl_seconds_after_finished = 0, jc_runtime_class_name = Some ''nvidia'',
      jc_node_selector = [(''zone'', PStr ''a'')], jc_tolerations = [], jc_environment = [(''S3_BUCKET'', ''b'')],
      jc_secret_environment = [\<lparr>se_name = ''DATABASE_URL'', se_secret_name = ''s'', se_secret_key = ''k''\<rparr>],
      jc_indexed = None, jc_name_suffix = None, jc_work_volume = None\<rparr>"

definition example_hex_world :: world where
  "example_hex_world =
     \<lparr>w_digest = \<lambda>v. ''digest'', w_sha256 = \<lambda>s. replicate 64 CHR ''a'', w_uuid4 = nat_text, w_uuid5 = \<lambda>s. s,
      w_coordinate = py_str\<rparr>"

lemma example_hex: "hex_digests example_hex_world"
  by (simp add: hex_digests_def example_hex_world_def list_all_iff hex_char_def)

theorem stage_job_name_is_dns_label_witness:
  "length (stage_job_name example_hex_world ''Run_1'') \<le> 60 \<and> list_all name_char (stage_job_name example_hex_world ''Run_1'')"
  using stage_job_name_is_dns_label [OF example_hex, of "''Run_1''"] by blast

theorem accepted_jobs_contain_manifest_witness:
  "\<exists>job. build_stage_job example_hex_world example_job_request example_job_config = Inr job
    \<and> stage_job_matches_expected example_hex_world (PDict job) job = Inr True
    \<and> stage_job_matches_expected example_hex_world (PDict fmempty) job \<noteq> Inr True"
proof -
  have "\<not> isl (build_stage_job example_hex_world example_job_request example_job_config)" by code_simp
  then obtain job where built: "build_stage_job example_hex_world example_job_request example_job_config = Inr job"
    by (cases "build_stage_job example_hex_world example_job_request example_job_config") auto
  have "contains_expected (PDict job) (PDict job)" by (simp only: contains_expected_def contains_refl)
  moreover have "\<not> contains_expected (PDict fmempty) (PDict job)"
  proof
    assume "contains_expected (PDict fmempty) (PDict job)"
    then have "fmlookup job k = None" for k by (cases "fmlookup job k") (auto simp: contains_expected_def)
    moreover have "fmlookup job ''kind'' = Some (PStr ''Job'')"
      using built by (auto simp: build_stage_job_def rbind_Inr_iff job_with_metadata_def)
    ultimately show False by simp
  qed
  ultimately show ?thesis
    using accepted_jobs_contain_manifest [OF built, of job] accepted_jobs_contain_manifest [OF built, of fmempty] built
    by blast
qed

theorem environment_keeps_binding_witness:
  "distinct (map (\<lambda>e. value_get e ''name'') (job_environment example_job_request example_job_config))"
proof -
  have "config_post_init example_job_config = Inr example_job_config" by code_simp
  from environment_keeps_binding [OF this] show ?thesis by blast
qed

end
