(* ===== verification/OrganizationSaas.thy ===== *)
theory OrganizationSaas
  imports DatabaseModel
begin

text \<open>
  Commercial policy, metering and quotas of an organization
  (\<open>shared/organization_saas.py\<close>): the policy row, the idempotent usage ledger, storage
  accounting and reservations, concurrency limits and the request token bucket.
  Tokens and rates, floats in the code, are exact rationals.
\<close>

subsection \<open>Policies\<close>

record policy_values =
  pv_storage_limit_bytes :: "int option"
  pv_concurrent_stage_runs_limit :: "int option"
  pv_request_rate_per_minute :: "int option"
  pv_request_burst :: "int option"
  pv_retention_days :: "int option"

definition policy_values_post_init :: "policy_values \<Rightarrow> policy_values res" where
  "policy_values_post_init v =
     (let positive = [pv_storage_limit_bytes v, pv_concurrent_stage_runs_limit v,
                      pv_request_rate_per_minute v, pv_request_burst v, pv_retention_days v]
      in if list_ex (\<lambda>value. \<not> positive_or_null value) positive
           then Inl (ValueError ''SaaS policy limits must be positive or null'')
         else if (pv_request_rate_per_minute v = None) \<noteq> (pv_request_burst v = None)
           then Inl (ValueError ''Request rate and burst must be configured together'')
         else Inr v)"

definition policy_values_of :: "saas_policy option \<Rightarrow> policy_values res" where
  "policy_values_of record =
     (case record of
        None \<Rightarrow> policy_values_post_init
          \<lparr>pv_storage_limit_bytes = None, pv_concurrent_stage_runs_limit = None,
           pv_request_rate_per_minute = None, pv_request_burst = None, pv_retention_days = None\<rparr>
      | Some p \<Rightarrow> policy_values_post_init
          \<lparr>pv_storage_limit_bytes = po_storage_limit_bytes p,
           pv_concurrent_stage_runs_limit = po_concurrent_stage_runs_limit p,
           pv_request_rate_per_minute = po_request_rate_per_minute p,
           pv_request_burst = po_request_burst p, pv_retention_days = po_retention_days p\<rparr>)"

definition get_policy :: "db \<Rightarrow> string \<Rightarrow> saas_policy option res" where
  "get_policy d organization_id =
     one_or_none (filter (\<lambda>p. po_organization_id p = organization_id) (db_policies d))"

definition opt_int :: "int option \<Rightarrow> pyval" where
  "opt_int v = (case v of None \<Rightarrow> PNone | Some i \<Rightarrow> PInt i)"

definition policy_asdict :: "policy_values \<Rightarrow> dict" where
  "policy_asdict v = fmap_of_list
     [(''storage_limit_bytes'', opt_int (pv_storage_limit_bytes v)),
      (''concurrent_stage_runs_limit'', opt_int (pv_concurrent_stage_runs_limit v)),
      (''request_rate_per_minute'', opt_int (pv_request_rate_per_minute v)),
      (''request_burst'', opt_int (pv_request_burst v)),
      (''retention_days'', opt_int (pv_retention_days v))]"

subsection \<open>The usage ledger\<close>

text \<open>The keyword arguments of \<open>append_usage_event\<close>.\<close>

record usage_entry =
  un_organization_id :: string
  un_action :: usage_action
  un_resource_type :: string
  un_resource_id :: string
  un_actor_subject :: string
  un_quantity :: "int option"
  un_unit :: "string option"
  un_idempotency_key :: "string option"
  un_details :: dict

definition new_usage_event :: "int \<Rightarrow> string \<Rightarrow> usage_entry \<Rightarrow> usage_event" where
  "new_usage_event i event_id e =
     \<lparr>ue_id = i, ue_event_id = event_id, ue_organization_id = un_organization_id e,
      ue_action = un_action e, ue_resource_type = un_resource_type e,
      ue_resource_id = un_resource_id e, ue_quantity = un_quantity e, ue_unit = un_unit e,
      ue_actor_subject = un_actor_subject e, ue_idempotency_key = un_idempotency_key e,
      ue_details = un_details e\<rparr>"

definition append_usage_event :: "world \<Rightarrow> usage_entry \<Rightarrow> db \<Rightarrow> (usage_event \<times> db) res" where
  "append_usage_event w e d =
     rbind (case un_idempotency_key e of
              None \<Rightarrow> Inr None
            | Some key \<Rightarrow> one_or_none (filter (\<lambda>x. ue_idempotency_key x = Some key) (db_usage d))) (\<lambda>existing.
       (case existing of
          Some event \<Rightarrow> Inr (event, d)
        | None \<Rightarrow>
            (case draw_uuid w d of
               (event_id, d1) \<Rightarrow>
                 (let event = new_usage_event (next_id (map ue_id (db_usage d))) event_id e
                  in Inr (event, d1\<lparr>db_usage := db_usage d1 @ [event]\<rparr>)))))"

definition set_policy ::
  "world \<Rightarrow> string \<Rightarrow> policy_values \<Rightarrow> string \<Rightarrow> db \<Rightarrow> (saas_policy \<times> db) res" where
  "set_policy w organization_id values actor_subject d =
     (let actor = str_strip actor_subject
      in if actor = [] \<or> length actor > 256
         then Inl (ValueError ''Policy actor subject must contain 1 to 256 characters'')
         else
           rbind (get_policy d organization_id) (\<lambda>found.
           rbind (policy_values_of found) (\<lambda>before.
             (let base = (case found of
                    None \<Rightarrow> \<lparr>po_organization_id = organization_id, po_storage_limit_bytes = None,
                       po_concurrent_stage_runs_limit = None, po_request_rate_per_minute = None,
                       po_request_burst = None, po_retention_days = None, po_version = 1,
                       po_created_by = actor, po_updated_by = actor\<rparr>
                  | Some p \<Rightarrow> p\<lparr>po_version := po_version p + 1, po_updated_by := actor\<rparr>);
                  record = base
                    \<lparr>po_storage_limit_bytes := pv_storage_limit_bytes values,
                     po_concurrent_stage_runs_limit := pv_concurrent_stage_runs_limit values,
                     po_request_rate_per_minute := pv_request_rate_per_minute values,
                     po_request_burst := pv_request_burst values,
                     po_retention_days := pv_retention_days values\<rparr>;
                  d1 = (case found of
                    None \<Rightarrow> d\<lparr>db_policies := db_policies d @ [record]\<rparr>
                  | Some _ \<Rightarrow> d\<lparr>db_policies :=
                      update_where (\<lambda>p. po_organization_id p = organization_id) (\<lambda>_. record) (db_policies d)\<rparr>)
              in rbind (append_usage_event w
                   \<lparr>un_organization_id = organization_id, un_action = PolicyUpdated,
                    un_resource_type = ''organization_policy'', un_resource_id = organization_id,
                    un_actor_subject = actor, un_quantity = Some (po_version record),
                    un_unit = Some ''policy_version'',
                    un_idempotency_key = Some (''organization-policy:'' @ organization_id @ '':''
                                           @ int_text (po_version record)),
                    un_details = fmap_of_list [(''before'', PDict (policy_asdict before)),
                                               (''after'', PDict (policy_asdict values))]\<rparr> d1)
                 (\<lambda>(_, d2). Inr (record, d2))))))"

subsection \<open>Storage\<close>

definition active_upload :: "upload_status \<Rightarrow> bool" where
  "active_upload s \<longleftrightarrow> s \<in> {UploadInitializing, UploadUploading, UploadFinalizing, UploadFailed}"

definition size_or_zero :: "int option \<Rightarrow> int" where
  "size_or_zero v = (case v of None \<Rightarrow> 0 | Some n \<Rightarrow> n)"

text \<open>The rows of \<open>missions\<close> an artifact joins with inside an organization.\<close>

definition artifact_missions :: "db \<Rightarrow> string \<Rightarrow> artifact \<Rightarrow> mission list" where
  "artifact_missions d organization_id a =
     filter (\<lambda>m. m_id m = ma_mission_id a \<and> m_organization_id m = organization_id) (db_missions d)"

definition storage_usage_bytes :: "db \<Rightarrow> string \<Rightarrow> int" where
  "storage_usage_bytes d organization_id =
     (let dataset_bytes = sum_list (map ds_total_bytes
            (filter (\<lambda>x. ds_organization_id x = organization_id \<and> ds_status x \<noteq> DatasetDeleted) (db_datasets d)));
          reserved_upload_bytes = sum_list (map us_total_bytes
            (filter (\<lambda>x. us_organization_id x = organization_id \<and> active_upload (us_status x)) (db_uploads d)));
          artifact_bytes = sum_list (map (\<lambda>a. sum_list
            (map (\<lambda>_. size_or_zero (ma_size_bytes a)) (artifact_missions d organization_id a))) (db_artifacts d))
      in dataset_bytes + reserved_upload_bytes + artifact_bytes)"

definition check_storage_reservation :: "db \<Rightarrow> string \<Rightarrow> int \<Rightarrow> int res" where
  "check_storage_reservation d organization_id requested_bytes =
     (if requested_bytes < 0 then Inl (ValueError ''Storage reservation cannot be negative'')
      else
        rbind (get_policy d organization_id) (\<lambda>policy.
          (let current = storage_usage_bytes d organization_id
           in rbind (policy_values_of policy) (\<lambda>values.
                (case pv_storage_limit_bytes values of
                   None \<Rightarrow> Inr current
                 | Some limit \<Rightarrow>
                     (if current + requested_bytes > limit
                      then Inl (StorageQuotaExceeded current requested_bytes limit)
                      else Inr current))))))"

definition record_storage_reservation ::
  "world \<Rightarrow> string \<Rightarrow> string \<Rightarrow> int \<Rightarrow> string \<Rightarrow> db \<Rightarrow> db res" where
  "record_storage_reservation w organization_id upload_session_id requested_bytes actor_subject d =
     rbind (append_usage_event w
         \<lparr>un_organization_id = organization_id, un_action = StorageReserved,
          un_resource_type = ''dataset_upload'', un_resource_id = upload_session_id,
          un_actor_subject = actor_subject, un_quantity = Some requested_bytes,
          un_unit = Some ''bytes'',
          un_idempotency_key = Some (''storage-reserved:upload:'' @ upload_session_id),
          un_details = fmap_of_list
            [(''usage_after_bytes'', PInt (storage_usage_bytes d organization_id))]\<rparr> d)
       (\<lambda>(_, d'). Inr d')"

definition reserve_stage_output_storage ::
  "world \<Rightarrow> string \<Rightarrow> string \<Rightarrow> string \<Rightarrow> int \<Rightarrow> string \<Rightarrow> db \<Rightarrow> db res" where
  "reserve_stage_output_storage w organization_id stage_run_id artifact_id output_bytes actor_subject d =
     rbind (check_storage_reservation d organization_id output_bytes) (\<lambda>current.
     rbind (append_usage_event w
         \<lparr>un_organization_id = organization_id, un_action = StorageReserved,
          un_resource_type = ''stage_artifact'', un_resource_id = artifact_id,
          un_actor_subject = actor_subject, un_quantity = Some output_bytes,
          un_unit = Some ''bytes'',
          un_idempotency_key = Some (''storage-reserved:stage-artifact:'' @ artifact_id),
          un_details = fmap_of_list
            [(''stage_run_id'', PStr stage_run_id),
             (''usage_after_bytes'', PInt (current + output_bytes))]\<rparr> d)
       (\<lambda>(_, d'). Inr d'))"

definition record_storage_release ::
  "world \<Rightarrow> string \<Rightarrow> string \<Rightarrow> string \<Rightarrow> int \<Rightarrow> string \<Rightarrow> string \<Rightarrow> dict option \<Rightarrow> db \<Rightarrow> db res" where
  "record_storage_release w organization_id resource_type resource_id released_bytes actor_subject
       idempotency_key details d =
     (let payload = dict_merge
            (fmap_of_list [(''usage_after_bytes'', PInt (storage_usage_bytes d organization_id))])
            (dict_or details)
      in rbind (append_usage_event w
           \<lparr>un_organization_id = organization_id, un_action = StorageReleased,
            un_resource_type = resource_type, un_resource_id = resource_id,
            un_actor_subject = actor_subject, un_quantity = Some (- released_bytes),
            un_unit = Some ''bytes'', un_idempotency_key = Some idempotency_key,
            un_details = payload\<rparr> d)
         (\<lambda>(_, d'). Inr d'))"

subsection \<open>Concurrency limits and usage\<close>

definition stage_run_limits :: "db \<Rightarrow> string list \<Rightarrow> int \<Rightarrow> (string \<times> int) list" where
  "stage_run_limits d organization_ids platform_limit =
     List.map_filter (\<lambda>p.
        (case po_concurrent_stage_runs_limit p of
           None \<Rightarrow> None
         | Some limit \<Rightarrow>
             (if po_organization_id p \<in> set organization_ids
              then Some (po_organization_id p, min platform_limit limit) else None)))
       (db_policies d)"

definition provenance_units :: "stage_run \<Rightarrow> int" where
  "provenance_units run =
     (case fmlookup (sr_provenance run) ''resource_units'' of
        Some (PInt n) \<Rightarrow> (if 1 \<le> n then n else 1)
      | _ \<Rightarrow> 1)"

record organization_usage =
  ou_storage_bytes :: int
  ou_active_stage_runs :: int
  ou_active_stage_resource_units :: int
  ou_retention_eligible_missions :: int

definition retention_terminal :: "mission_status \<Rightarrow> bool" where
  "retention_terminal s \<longleftrightarrow>
     s \<in> {MissionSuccess, MissionCompleted, MissionError, MissionCancelled, MissionStale}"

definition organization_usage_of :: "db \<Rightarrow> string \<Rightarrow> instant \<Rightarrow> organization_usage res" where
  "organization_usage_of d organization_id now =
     (let rows = concat (map (\<lambda>r.
            map (\<lambda>_. r) (filter (\<lambda>m. m_id m = sr_mission_id r \<and> m_organization_id m = organization_id)
              (db_missions d)))
            (filter (\<lambda>r. sr_executor r = Some ''kubernetes-job'' \<and> sr_status r \<in> {Queued, Running}) (db_runs d)))
      in rbind (get_policy d organization_id) (\<lambda>found.
         rbind (policy_values_of found) (\<lambda>policy.
           (let eligible = (case pv_retention_days policy of
                  None \<Rightarrow> 0
                | Some days \<Rightarrow> int (length (filter (\<lambda>m. m_organization_id m = organization_id
                      \<and> retention_terminal (m_status m)
                      \<and> m_updated_at m \<le> now - seconds (days * 86400)) (db_missions d))))
            in Inr \<lparr>ou_storage_bytes = storage_usage_bytes d organization_id,
                    ou_active_stage_runs = int (length rows),
                    ou_active_stage_resource_units = sum_list (map provenance_units rows),
                    ou_retention_eligible_missions = eligible\<rparr>))))"

subsection \<open>The request bucket\<close>

record request_quota_decision =
  rq_requests_per_minute :: "int option"
  rq_retry_after_seconds :: "rat option"

text \<open>The tokens of a bucket after the time since its last use.\<close>

definition refilled_tokens :: "int \<Rightarrow> int \<Rightarrow> request_bucket \<Rightarrow> instant \<Rightarrow> rat" where
  "refilled_tokens rate burst bucket current_time =
     min (of_int burst)
       (rb_tokens bucket
        + max 0 (of_int (current_time - rb_updated_at bucket) / 1000000) * (of_int rate / 60))"

definition put_bucket :: "request_bucket \<Rightarrow> db \<Rightarrow> db" where
  "put_bucket b d = d\<lparr>db_buckets :=
     update_where (\<lambda>x. rb_organization_id x = rb_organization_id b) (\<lambda>_. b) (db_buckets d)\<rparr>"

definition consume_request_quota ::
  "world \<Rightarrow> string \<Rightarrow> string \<Rightarrow> instant \<Rightarrow> db \<Rightarrow> (request_quota_decision \<times> db) res" where
  "consume_request_quota w organization_id actor_subject current_time d =
     rbind (get_policy d organization_id) (\<lambda>policy.
     rbind (policy_values_of policy) (\<lambda>values.
       (case (pv_request_rate_per_minute values, pv_request_burst values) of
          (Some rate, Some burst) \<Rightarrow>
            (case first_row (filter (\<lambda>b. rb_organization_id b = organization_id) (db_buckets d)) of
               None \<Rightarrow>
                 Inr (\<lparr>rq_requests_per_minute = Some rate, rq_retry_after_seconds = None\<rparr>,
                      d\<lparr>db_buckets := db_buckets d @
                         [\<lparr>rb_organization_id = organization_id, rb_tokens = of_int (burst - 1),
                           rb_updated_at = current_time\<rparr>]\<rparr>)
             | Some bucket \<Rightarrow>
                 (let refill_rate = of_int rate / 60;
                      tokens = refilled_tokens rate burst bucket current_time
                  in if tokens \<ge> 1
                     then Inr (\<lparr>rq_requests_per_minute = Some rate, rq_retry_after_seconds = None\<rparr>,
                               put_bucket (bucket\<lparr>rb_tokens := tokens - 1, rb_updated_at := current_time\<rparr>) d)
                     else
                       (let retry_after = (1 - tokens) / refill_rate;
                            minute = current_time div seconds 60
                        in rbind (append_usage_event w
                             \<lparr>un_organization_id = organization_id, un_action = RequestThrottled,
                              un_resource_type = ''api_request_bucket'', un_resource_id = organization_id,
                              un_actor_subject = actor_subject, un_quantity = Some 1,
                              un_unit = Some ''request'',
                              un_idempotency_key = Some (''request-throttled:'' @ organization_id @ '':''
                                                     @ int_text minute),
                              un_details = fmap_of_list
                                [(''retry_after_seconds'', PFloat retry_after), (''rate_per_minute'', PInt rate)]\<rparr>
                             (put_bucket (bucket\<lparr>rb_tokens := tokens, rb_updated_at := current_time\<rparr>) d))
                           (\<lambda>(_, d'). Inr (\<lparr>rq_requests_per_minute = Some rate,
                                            rq_retry_after_seconds = Some retry_after\<rparr>, d')))))
        | _ \<Rightarrow> Inr (\<lparr>rq_requests_per_minute = None, rq_retry_after_seconds = None\<rparr>, d))))"


subsection \<open>Facts about the ledger\<close>

lemma usage_keys_filter:
  "length (filter (\<lambda>x. ue_idempotency_key x = Some k) xs) = count_list (List.map_filter ue_idempotency_key xs) k"
  by (induction xs) (auto simp: List.map_filter_def)

lemma distinct_keys_at_most_one:
  assumes "distinct (usage_keys d)"
  shows "length (filter (\<lambda>x. ue_idempotency_key x = Some k) (db_usage d)) \<le> 1"
proof -
  have "count_list xs k \<le> 1" if "distinct xs" for xs :: "string list"
    using that by (induction xs) (auto simp: count_list_0_iff)
  then show ?thesis using assms by (simp add: usage_keys_filter usage_keys_def)
qed

lemma one_or_none_at_most_one: "length xs \<le> 1 \<Longrightarrow> \<exists>r. one_or_none xs = Inr r"
  by (cases xs rule: one_or_none.cases) simp_all

text \<open>Appending finds the event of its key, or adds one at the end.\<close>

lemma append_usage_event_cases:
  assumes "append_usage_event w e d = Inr (x, d')"
  obtains (Existing) k where "un_idempotency_key e = Some k" "d' = d"
      "filter (\<lambda>x. ue_idempotency_key x = Some k) (db_usage d) = [x]"
    | (Added) "x = new_usage_event (next_id (map ue_id (db_usage d))) (w_uuid4 w (db_uuids d)) e"
      "d' = d\<lparr>db_usage := db_usage d @ [x], db_uuids := db_uuids d + 1\<rparr>"
      "\<And>k. un_idempotency_key e = Some k \<Longrightarrow> filter (\<lambda>x. ue_idempotency_key x = Some k) (db_usage d) = []"
proof (cases "un_idempotency_key e")
  case None
  with assms show ?thesis
    by (intro Added) (auto simp: append_usage_event_def draw_uuid_def Let_def)
next
  case (Some k)
  with assms obtain existing where
    ex: "one_or_none (filter (\<lambda>x. ue_idempotency_key x = Some k) (db_usage d)) = Inr existing"
    by (auto simp: append_usage_event_def rbind_Inr_iff)
  show ?thesis
  proof (cases existing)
    case None
    with ex Some assms show ?thesis
      by (intro Added) (auto simp: append_usage_event_def draw_uuid_def Let_def one_or_none_None)
  next
    case (Some y)
    with ex \<open>un_idempotency_key e = Some k\<close> assms show ?thesis
      by (intro Existing [of k]) (auto simp: append_usage_event_def one_or_none_Some)
  qed
qed

lemma append_usage_event_total:
  assumes "distinct (usage_keys d)"
  shows "\<exists>x d'. append_usage_event w e d = Inr (x, d')"
proof -
  have "\<exists>r. (case un_idempotency_key e of None \<Rightarrow> Inr None
      | Some key \<Rightarrow> one_or_none (filter (\<lambda>x. ue_idempotency_key x = Some key) (db_usage d))) = Inr r"
    using one_or_none_at_most_one distinct_keys_at_most_one [OF assms] by (auto split: option.split)
  then show ?thesis
    by (auto simp: append_usage_event_def draw_uuid_def Let_def split: option.splits)
qed

lemma append_usage_event_frame [frame_simps]:
  assumes "append_usage_event w e d = Inr (x, d')"
  shows "db_organizations d' = db_organizations d" "db_missions d' = db_missions d" "db_runs d' = db_runs d"
    "db_receipts d' = db_receipts d" "db_artifacts d' = db_artifacts d" "db_parents d' = db_parents d"
    "db_analyses d' = db_analyses d" "db_features d' = db_features d" "db_policies d' = db_policies d"
    "db_buckets d' = db_buckets d" "db_datasets d' = db_datasets d" "db_uploads d' = db_uploads d"
  using assms by (cases rule: append_usage_event_cases; simp)+

lemma append_usage_event_keys:
  assumes "append_usage_event w e d = Inr (x, d')"
  shows "(distinct (usage_keys d) \<longrightarrow> distinct (usage_keys d'))
    \<and> (\<exists>added. db_usage d' = db_usage d @ added)
    \<and> (\<forall>k. un_idempotency_key e = Some k \<longrightarrow> ue_idempotency_key x = Some k \<and> x \<in> set (db_usage d'))"
  using assms
proof (cases rule: append_usage_event_cases)
  case (Existing k)
  then have "x \<in> set (filter (\<lambda>x. ue_idempotency_key x = Some k) (db_usage d))" by simp
  then have "x \<in> set (db_usage d) \<and> ue_idempotency_key x = Some k" by simp
  with Existing show ?thesis by simp
next
  case Added
  have "distinct (usage_keys d')" if "distinct (usage_keys d)"
  proof (cases "un_idempotency_key e")
    case None
    with Added that show ?thesis by (simp add: usage_keys_def List.map_filter_def new_usage_event_def)
  next
    case (Some k)
    then have "k \<notin> set (usage_keys d)"
      using Added(3) [OF Some] by (auto simp: usage_keys_def List.map_filter_def filter_empty_conv)
    with Some Added that show ?thesis
      by (simp add: usage_keys_def List.map_filter_def new_usage_event_def)
  qed
  with Added show ?thesis by (simp add: new_usage_event_def)
qed

lemma append_usage_event_again:
  assumes "distinct (usage_keys d)" and "append_usage_event w e d = Inr (x, d')"
    and "un_idempotency_key e' = Some k" and "un_idempotency_key e = Some k"
  shows "append_usage_event w' e' d' = Inr (x, d')"
proof -
  note facts = append_usage_event_keys [OF assms(2)]
  have mem: "x \<in> set (filter (\<lambda>x. ue_idempotency_key x = Some k) (db_usage d'))" using facts assms(4) by simp
  moreover have "length (filter (\<lambda>x. ue_idempotency_key x = Some k) (db_usage d')) \<le> 1"
    using facts assms(1) by (intro distinct_keys_at_most_one) simp
  ultimately have "filter (\<lambda>x. ue_idempotency_key x = Some k) (db_usage d') = [x]"
    by (cases "filter (\<lambda>x. ue_idempotency_key x = Some k) (db_usage d')") auto
  then show ?thesis by (simp add: append_usage_event_def assms(3))
qed

subsection \<open>Facts about policies and storage\<close>

lemma policy_values_post_init_Inr [res_elims]:
  "policy_values_post_init v = Inr v' \<longleftrightarrow> v' = v
     \<and> positive_or_null (pv_storage_limit_bytes v) \<and> positive_or_null (pv_concurrent_stage_runs_limit v)
     \<and> positive_or_null (pv_request_rate_per_minute v) \<and> positive_or_null (pv_request_burst v)
     \<and> positive_or_null (pv_retention_days v)
     \<and> (pv_request_rate_per_minute v = None) = (pv_request_burst v = None)"
  by (auto simp: policy_values_post_init_def Let_def)

definition values_of_row :: "saas_policy \<Rightarrow> policy_values" where
  "values_of_row p =
     \<lparr>pv_storage_limit_bytes = po_storage_limit_bytes p,
      pv_concurrent_stage_runs_limit = po_concurrent_stage_runs_limit p,
      pv_request_rate_per_minute = po_request_rate_per_minute p,
      pv_request_burst = po_request_burst p, pv_retention_days = po_retention_days p\<rparr>"

lemma policy_values_of_row: "policy_row_ok p \<Longrightarrow> policy_values_of (Some p) = Inr (values_of_row p)"
  by (simp add: policy_values_of_def values_of_row_def policy_row_ok_def policy_values_post_init_Inr)

lemma get_policy_Some: "get_policy d org = Inr (Some p) \<Longrightarrow> p \<in> set (db_policies d) \<and> po_organization_id p = org"
proof -
  assume "get_policy d org = Inr (Some p)"
  then have "p \<in> set (filter (\<lambda>p. po_organization_id p = org) (db_policies d))"
    by (simp add: get_policy_def one_or_none_Some)
  then show ?thesis by simp
qed

lemma check_storage_reservation_Inr:
  assumes "check_storage_reservation d org n = Inr current"
  shows "0 \<le> n \<and> current = storage_usage_bytes d org
    \<and> (\<forall>p limit. get_policy d org = Inr (Some p) \<longrightarrow> po_storage_limit_bytes p = Some limit \<longrightarrow> current + n \<le> limit)"
proof -
  from assms obtain p v where p: "get_policy d org = Inr p" "policy_values_of p = Inr v"
    and n: "0 \<le> n" and c: "current = storage_usage_bytes d org"
    and lim: "\<forall>limit. pv_storage_limit_bytes v = Some limit \<longrightarrow> current + n \<le> limit"
    by (fastforce simp: check_storage_reservation_def rbind_Inr_iff Let_def not_le not_less split: if_splits option.splits)
  have "pv_storage_limit_bytes v = po_storage_limit_bytes q" if "p = Some q" for q
    using p(2) that by (simp add: policy_values_of_def policy_values_post_init_Inr)
  with n c lim p show ?thesis by auto
qed

lemma reserve_stage_output_Inr:
  assumes "reserve_stage_output_storage w org run art n actor d = Inr d'"
  shows "\<exists>x e. check_storage_reservation d org n = Inr (storage_usage_bytes d org)
    \<and> append_usage_event w e d = Inr (x, d')
    \<and> un_idempotency_key e = Some (''storage-reserved:stage-artifact:'' @ art)
    \<and> un_quantity e = Some n \<and> un_organization_id e = org"
proof -
  from assms obtain c where c: "check_storage_reservation d org n = Inr c"
    by (auto simp: reserve_stage_output_storage_def rbind_Inr_iff)
  moreover have "c = storage_usage_bytes d org" using check_storage_reservation_Inr [OF c] by simp
  ultimately show ?thesis using assms by (fastforce simp: reserve_stage_output_storage_def rbind_Inr_iff)
qed

text \<open>A new artifact of a mission of the organization adds its size once.\<close>

lemma storage_usage_new_artifact:
  assumes "distinct (map m_id (db_missions d))" and "m \<in> set (db_missions d)"
    and "ma_mission_id a = m_id m" and "m_organization_id m = org"
  shows "storage_usage_bytes (d\<lparr>db_artifacts := db_artifacts d @ [a]\<rparr>) org
    = storage_usage_bytes d org + size_or_zero (ma_size_bytes a)"
proof -
  have "filter (\<lambda>x. m_id x = m_id m \<and> m_organization_id x = org) (db_missions d)
      = filter (\<lambda>x. m_organization_id x = org) (filter (\<lambda>x. m_id x = m_id m) (db_missions d))"
    by (simp add: conj_commute)
  then have "artifact_missions d org a = [m]"
    using distinct_filter_one [OF assms(1,2)] assms(3,4) by (simp add: artifact_missions_def)
  then show ?thesis by (simp add: storage_usage_bytes_def Let_def artifact_missions_def)
qed

lemma storage_usage_cong:
  "db_missions d' = db_missions d \<Longrightarrow> db_artifacts d' = db_artifacts d \<Longrightarrow> db_datasets d' = db_datasets d \<Longrightarrow>
   db_uploads d' = db_uploads d \<Longrightarrow> storage_usage_bytes d' org = storage_usage_bytes d org"
  by (simp add: storage_usage_bytes_def artifact_missions_def)

subsection \<open>Properties of the ledger and of policies\<close>

text \<open>The usage ledger is append-only and idempotent: recording an event under a key
  keeps every earlier event and the uniqueness of keys, and recording the same key again,
  whatever the rest of the event, changes nothing and returns the first event.\<close>

theorem usage_ledger_idempotent:
  assumes "distinct (usage_keys d)" and "un_idempotency_key e = Some k" and "un_idempotency_key e' = Some k"
  shows "\<exists>x d'. append_usage_event w e d = Inr (x, d') \<and> append_usage_event w e' d' = Inr (x, d')
    \<and> ue_idempotency_key x = Some k \<and> distinct (usage_keys d')
    \<and> (\<exists>added. db_usage d' = db_usage d @ added)"
proof -
  obtain x d' where a: "append_usage_event w e d = Inr (x, d')" using append_usage_event_total [OF assms(1)] by blast
  from append_usage_event_again [OF assms(1) a assms(3,2)] append_usage_event_keys [OF a] a assms
  show ?thesis by blast
qed

text \<open>Writing a policy keeps the constraints of the policy table, moves the version by
  exactly one, and records the values before and after under a key of that version.\<close>

theorem set_policy_versions:
  assumes "policy_table_ok (db_policies d)" and "policy_values_post_init v = Inr v"
    and "set_policy w org v actor d = Inr (p, d')"
  shows "policy_table_ok (db_policies d') \<and> get_policy d' org = Inr (Some p) \<and> values_of_row p = v
    \<and> po_version p = (case get_policy d org of Inr (Some q) \<Rightarrow> po_version q + 1 | _ \<Rightarrow> 1)
    \<and> list_ex (\<lambda>x. ue_idempotency_key x
         = Some (''organization-policy:'' @ org @ '':'' @ int_text (po_version p))) (db_usage d')"
proof -
  from assms(3) obtain found before where found: "get_policy d org = Inr found"
    and before: "policy_values_of found = Inr before"
    by (auto simp: set_policy_def Let_def rbind_Inr_iff split: if_splits)
  have uniq: "distinct (map po_organization_id (db_policies d))" "list_all policy_row_ok (db_policies d)"
    using assms(1) by (simp_all add: policy_table_ok_def)
  show ?thesis
  proof (cases found)
    case None
    from assms(3) found before None obtain x e where
      app: "append_usage_event w e (d\<lparr>db_policies := db_policies d @ [p]\<rparr>) = Inr (x, d')"
      and key: "un_idempotency_key e = Some (''organization-policy:'' @ org @ '':'' @ int_text (po_version p))"
      and p: "po_organization_id p = org" "po_version p = 1" "values_of_row p = v"
      by (fastforce simp: set_policy_def Let_def rbind_Inr_iff values_of_row_def split: if_splits)
    have pol: "db_policies d' = db_policies d @ [p]" using append_usage_event_frame [OF app] by simp
    have none: "filter (\<lambda>p. po_organization_id p = org) (db_policies d) = []"
      using found None by (simp add: get_policy_def one_or_none_None)
    have "policy_row_ok p"
      using assms(2) p by (auto simp: policy_values_post_init_Inr policy_row_ok_def values_of_row_def)
    then have "policy_table_ok (db_policies d')"
      using uniq none p by (auto simp: pol policy_table_ok_def filter_empty_conv)
    moreover have "get_policy d' org = Inr (Some p)" using none p by (simp add: get_policy_def pol)
    moreover have "list_ex (\<lambda>x. ue_idempotency_key x
         = Some (''organization-policy:'' @ org @ '':'' @ int_text (po_version p))) (db_usage d')"
      using append_usage_event_keys [OF app] key by (auto simp: list_ex_iff)
    ultimately show ?thesis using p found None by simp
  next
    case (Some q)
    have q: "q \<in> set (db_policies d)" "po_organization_id q = org"
      using get_policy_Some [of d org q] found Some by simp_all
    let ?u = "update_where (\<lambda>p. po_organization_id p = org) (\<lambda>_. p) (db_policies d)"
    from assms(3) found before Some obtain x e where
      app: "append_usage_event w e (d\<lparr>db_policies := ?u\<rparr>) = Inr (x, d')"
      and key: "un_idempotency_key e = Some (''organization-policy:'' @ org @ '':'' @ int_text (po_version p))"
      and p: "po_organization_id p = po_organization_id q" "po_version p = po_version q + 1" "values_of_row p = v"
      by (fastforce simp: set_policy_def Let_def rbind_Inr_iff values_of_row_def split: if_splits)
    have pol: "db_policies d' = ?u" using append_usage_event_frame [OF app] by simp
    have "1 \<le> po_version q" using uniq(2) q(1) by (auto simp: list_all_iff policy_row_ok_def)
    then have "policy_row_ok p"
      using assms(2) p by (auto simp: policy_values_post_init_Inr policy_row_ok_def values_of_row_def)
    moreover have "map po_organization_id ?u = map po_organization_id (db_policies d)"
      using p(1) q(2) by (intro map_update_where) simp
    ultimately have "policy_table_ok (db_policies d')"
      using uniq unfolding pol policy_table_ok_def by (simp only:) (auto simp: list_all_iff update_where_def)
    moreover have "filter (\<lambda>x. po_organization_id x = org) ?u = [p]"
    proof -
      have "filter (\<lambda>x. po_organization_id x = org) ?u
          = map (\<lambda>_. p) (filter (\<lambda>x. po_organization_id x = org) (db_policies d))"
        using p(1) q(2) by (simp add: update_where_def filter_map o_def if_distrib cong: if_cong filter_cong)
      also have "filter (\<lambda>x. po_organization_id x = org) (db_policies d) = [q]"
        using found Some by (simp add: get_policy_def one_or_none_Some)
      finally show ?thesis by simp
    qed
    then have "get_policy d' org = Inr (Some p)" by (simp add: get_policy_def pol)
    moreover have "list_ex (\<lambda>x. ue_idempotency_key x
         = Some (''organization-policy:'' @ org @ '':'' @ int_text (po_version p))) (db_usage d')"
      using append_usage_event_keys [OF app] key by (auto simp: list_ex_iff)
    ultimately show ?thesis using p found Some by simp
  qed
qed


subsection \<open>Properties of the request bucket\<close>

text \<open>The decisions on a sequence of requests, and how many of them pass.\<close>

fun consume_requests ::
  "world \<Rightarrow> string \<Rightarrow> string \<Rightarrow> instant list \<Rightarrow> db \<Rightarrow> (request_quota_decision list \<times> db) res" where
  "consume_requests w org actor [] d = Inr ([], d)"
| "consume_requests w org actor (t # ts) d =
     rbind (consume_request_quota w org actor t d) (\<lambda>(q, d1).
     rbind (consume_requests w org actor ts d1) (\<lambda>(qs, d2). Inr (q # qs, d2)))"

definition granted :: "request_quota_decision list \<Rightarrow> int" where
  "granted qs = int (length (filter (\<lambda>q. rq_retry_after_seconds q = None) qs))"

definition bucket_of :: "db \<Rightarrow> string \<Rightarrow> request_bucket option" where
  "bucket_of d org = first_row (filter (\<lambda>b. rb_organization_id b = org) (db_buckets d))"

definition quota_policy :: "db \<Rightarrow> string \<Rightarrow> int \<Rightarrow> int \<Rightarrow> bool" where
  "quota_policy d org rate burst \<longleftrightarrow>
     distinct (usage_keys d) \<and>
     (case get_policy d org of
        Inr (Some p) \<Rightarrow> policy_row_ok p \<and> po_request_rate_per_minute p = Some rate
                        \<and> po_request_burst p = Some burst
      | _ \<Rightarrow> False)"

lemma bucket_of_put:
  assumes "bucket_of d org = Some b" and "rb_organization_id b' = org"
  shows "bucket_of (put_bucket b' d) org = Some b'"
proof -
  have "first_row (filter (\<lambda>b. rb_organization_id b = org) xs) = Some b \<Longrightarrow>
      first_row (filter (\<lambda>b. rb_organization_id b = org)
        (update_where (\<lambda>x. rb_organization_id x = org) (\<lambda>_. b') xs)) = Some b'" for xs
    by (induction xs) (auto simp: first_row_def assms(2))
  then show ?thesis using assms by (simp add: bucket_of_def put_bucket_def)
qed

lemma bucket_of_Some: "bucket_of d org = Some b \<Longrightarrow> rb_organization_id b = org"
  by (auto simp: bucket_of_def dest: first_row_Some_mem)

lemma bucket_of_cong: "db_buckets d' = db_buckets d \<Longrightarrow> bucket_of d' org = bucket_of d org"
  by (simp add: bucket_of_def)

lemma quota_policyD:
  assumes "quota_policy d org rate burst"
  shows "1 \<le> rate" "1 \<le> burst" "\<exists>p v. get_policy d org = Inr p \<and> policy_values_of p = Inr v
     \<and> pv_request_rate_per_minute v = Some rate \<and> pv_request_burst v = Some burst"
proof -
  from assms obtain p where p: "get_policy d org = Inr (Some p)" "policy_row_ok p"
    "po_request_rate_per_minute p = Some rate" "po_request_burst p = Some burst"
    by (auto simp: quota_policy_def split: sum.splits option.splits)
  then show "1 \<le> rate" "1 \<le> burst" by (auto simp: policy_row_ok_def positive_or_null_def)
  from p policy_values_of_row [OF p(2)] show "\<exists>p v. get_policy d org = Inr p \<and> policy_values_of p = Inr v
     \<and> pv_request_rate_per_minute v = Some rate \<and> pv_request_burst v = Some burst"
    by (fastforce simp: values_of_row_def)
qed

lemma quota_policy_cong:
  "quota_policy d org r b \<Longrightarrow> db_policies d' = db_policies d \<Longrightarrow> distinct (usage_keys d') \<Longrightarrow> quota_policy d' org r b"
  by (simp add: quota_policy_def get_policy_def)

lemma put_bucket_frame [simp]:
  "db_policies (put_bucket b d) = db_policies d" "db_usage (put_bucket b d) = db_usage d"
  by (simp_all add: put_bucket_def)

lemma consume_first:
  assumes "quota_policy d org rate burst" and "bucket_of d org = None"
  shows "\<exists>q d'. consume_request_quota w org actor t d = Inr (q, d') \<and> rq_retry_after_seconds q = None
    \<and> quota_policy d' org rate burst
    \<and> bucket_of d' org = Some \<lparr>rb_organization_id = org, rb_tokens = of_int (burst - 1), rb_updated_at = t\<rparr>"
proof -
  have none: "filter (\<lambda>b. rb_organization_id b = org) (db_buckets d) = []"
    using assms(2) by (simp add: bucket_of_def)
  obtain p v where "get_policy d org = Inr p" "policy_values_of p = Inr v"
     "pv_request_rate_per_minute v = Some rate" "pv_request_burst v = Some burst"
    using quota_policyD(3) [OF assms(1)] by blast
  then show ?thesis
    using assms(1) none
    by (simp add: consume_request_quota_def first_row_def bucket_of_def quota_policy_def get_policy_def usage_keys_def)
qed

lemma consume_next:
  assumes "quota_policy d org rate burst" and "bucket_of d org = Some b"
  shows "\<exists>q d' b'. consume_request_quota w org actor t d = Inr (q, d') \<and> quota_policy d' org rate burst
    \<and> bucket_of d' org = Some b' \<and> rb_updated_at b' = t
    \<and> (let tokens = refilled_tokens rate burst b t
       in if 1 \<le> tokens then rq_retry_after_seconds q = None \<and> rb_tokens b' = tokens - 1
          else rq_retry_after_seconds q \<noteq> None \<and> rb_tokens b' = tokens)"
proof -
  let ?tokens = "refilled_tokens rate burst b t"
  obtain p v where pv: "get_policy d org = Inr p" "policy_values_of p = Inr v"
     "pv_request_rate_per_minute v = Some rate" "pv_request_burst v = Some burst"
    using quota_policyD(3) [OF assms(1)] by blast
  have fr: "first_row (filter (\<lambda>b. rb_organization_id b = org) (db_buckets d)) = Some b"
    using assms(2) by (simp add: bucket_of_def)
  have org: "rb_organization_id b = org" using bucket_of_Some [OF assms(2)] .
  have keys: "distinct (usage_keys d)" using assms(1) by (simp add: quota_policy_def)
  show ?thesis
  proof (cases "1 \<le> ?tokens")
    case True
    let ?b = "b\<lparr>rb_tokens := ?tokens - 1, rb_updated_at := t\<rparr>"
    have "quota_policy (put_bucket ?b d) org rate burst"
      by (rule quota_policy_cong [OF assms(1)]) (use keys in \<open>simp_all add: usage_keys_def\<close>)
    with True pv fr bucket_of_put [OF assms(2), of ?b] org show ?thesis
      by (simp add: consume_request_quota_def Let_def)
  next
    case False
    let ?b = "b\<lparr>rb_tokens := ?tokens, rb_updated_at := t\<rparr>"
    have keys': "distinct (usage_keys (put_bucket ?b d))" using keys by (simp add: usage_keys_def)
    obtain e x d' where e: "append_usage_event w e (put_bucket ?b d) = Inr (x, d')"
      and run: "consume_request_quota w org actor t d = Inr (\<lparr>rq_requests_per_minute = Some rate,
          rq_retry_after_seconds = Some ((1 - ?tokens) / (of_int rate / 60))\<rparr>, d')"
    proof -
      let ?e = "\<lparr>un_organization_id = org, un_action = RequestThrottled,
                              un_resource_type = ''api_request_bucket'', un_resource_id = org,
                              un_actor_subject = actor, un_quantity = Some 1,
                              un_unit = Some ''request'',
                              un_idempotency_key = Some (''request-throttled:'' @ org @ '':''
                                                     @ int_text (t div seconds 60)),
                              un_details = fmap_of_list
                                [(''retry_after_seconds'', PFloat ((1 - ?tokens) / (of_int rate / 60))),
                                 (''rate_per_minute'', PInt rate)]\<rparr>"
      obtain x d' where "append_usage_event w ?e (put_bucket ?b d) = Inr (x, d')"
        using append_usage_event_total [OF keys'] by blast
      with that False pv fr show thesis by (simp add: consume_request_quota_def Let_def)
    qed
    have "quota_policy d' org rate burst"
      by (rule quota_policy_cong [OF assms(1)])
         (use append_usage_event_frame [OF e] append_usage_event_keys [OF e] keys' in simp_all)
    moreover have "bucket_of d' org = Some ?b"
      using bucket_of_cong [OF append_usage_event_frame(10) [OF e]] bucket_of_put [OF assms(2), of ?b] org by simp
    ultimately show ?thesis using run False by (simp add: Let_def)
  qed
qed

lemma refilled_bound:
  assumes "rb_updated_at b \<le> t" and "1 \<le> rate"
  shows "refilled_tokens rate burst b t \<le> rb_tokens b + of_int rate * of_int (t - rb_updated_at b) / 60000000"
proof -
  have "refilled_tokens rate burst b t
      \<le> rb_tokens b + max 0 (of_int (t - rb_updated_at b) / 1000000) * (of_int rate / 60)"
    by (simp add: refilled_tokens_def)
  also have "max 0 (of_int (t - rb_updated_at b) / 1000000 :: rat) = of_int (t - rb_updated_at b) / 1000000"
    using assms(1) by simp
  finally show ?thesis by (simp add: mult.commute)
qed

lemma refilled_nonneg:
  "0 \<le> rb_tokens b \<Longrightarrow> 1 \<le> rate \<Longrightarrow> 1 \<le> burst \<Longrightarrow> 0 \<le> refilled_tokens rate burst b t"
  by (simp add: refilled_tokens_def)

lemma granted_Cons:
  "granted (q # qs) = (if rq_retry_after_seconds q = None then 1 + granted qs else granted qs)"
  by (simp add: granted_def)

lemma consume_requests_bound:
  assumes "quota_policy d org rate burst" and "bucket_of d org = Some b" and "0 \<le> rb_tokens b"
    and "sorted (rb_updated_at b # ts)"
  shows "\<exists>qs d'. consume_requests w org actor ts d = Inr (qs, d')
    \<and> of_int (granted qs) \<le> rb_tokens b + of_int rate * of_int (last (rb_updated_at b # ts) - rb_updated_at b) / 60000000"
  using assms
proof (induction ts arbitrary: d b)
  case Nil
  then show ?case by (simp add: granted_def)
next
  case (Cons t ts)
  let ?tokens = "refilled_tokens rate burst b t"
  note pol = quota_policyD(1,2) [OF Cons.prems(1)]
  obtain q d1 b1 where step: "consume_request_quota w org actor t d = Inr (q, d1)"
    "quota_policy d1 org rate burst" "bucket_of d1 org = Some b1" "rb_updated_at b1 = t"
    and tok: "if 1 \<le> ?tokens then rq_retry_after_seconds q = None \<and> rb_tokens b1 = ?tokens - 1
          else rq_retry_after_seconds q \<noteq> None \<and> rb_tokens b1 = ?tokens"
    using consume_next [OF Cons.prems(1,2), of w actor t] by (auto simp: Let_def)
  have nonneg: "0 \<le> rb_tokens b1"
    using tok refilled_nonneg [OF Cons.prems(3) pol, of t] by (auto split: if_splits)
  have srt: "sorted (rb_updated_at b1 # ts)" using Cons.prems(4) step(4) by simp
  from Cons.IH [OF step(2,3) nonneg srt] obtain qs d' where
    rest: "consume_requests w org actor ts d1 = Inr (qs, d')"
    and bound: "of_int (granted qs) \<le> rb_tokens b1 + of_int rate * of_int (last (t # ts) - t) / 60000000"
    using step(4) by blast
  have refill: "?tokens \<le> rb_tokens b + of_int rate * of_int (t - rb_updated_at b) / 60000000"
    using Cons.prems(4) by (intro refilled_bound pol) simp
  have "of_int (granted (q # qs)) \<le> ?tokens + of_int rate * of_int (last (t # ts) - t) / (60000000 :: rat)"
    using bound tok by (auto simp: granted_Cons split: if_splits)
  also have "\<dots> \<le> rb_tokens b + (of_int rate * of_int (t - rb_updated_at b) / 60000000
      + of_int rate * of_int (last (t # ts) - t) / 60000000)" using refill by simp
  also have "of_int rate * of_int (t - rb_updated_at b) / 60000000
      + of_int rate * of_int (last (t # ts) - t) / 60000000
    = (of_int rate * of_int (last (t # ts) - rb_updated_at b) / 60000000 :: rat)"
    by (simp add: add_divide_distrib [symmetric] distrib_left [symmetric] del: of_int_mult)
  finally show ?case using step(1) rest by simp
qed

text \<open>The request quota is a token bucket: whatever the requests, at most the burst plus
  the rate times the elapsed time pass, and the bucket always answers.\<close>

theorem request_quota_bound:
  assumes "quota_policy d org rate burst" and "bucket_of d org = None" and "sorted (t # ts)"
  shows "\<exists>qs d'. consume_requests w org actor (t # ts) d = Inr (qs, d')
    \<and> of_int (granted qs) \<le> (of_int burst + of_int rate * of_int (last (t # ts) - t) / 60000000 :: rat)"
proof -
  obtain q d1 where first: "consume_request_quota w org actor t d = Inr (q, d1)"
    "rq_retry_after_seconds q = None" "quota_policy d1 org rate burst"
    and b: "bucket_of d1 org = Some \<lparr>rb_organization_id = org, rb_tokens = of_int (burst - 1), rb_updated_at = t\<rparr>"
    using consume_first [OF assms(1,2), of w actor t] by blast
  from consume_requests_bound [OF first(3) b, of ts w actor] quota_policyD(2) [OF assms(1)] assms(3)
  obtain qs d' where "consume_requests w org actor ts d1 = Inr (qs, d')"
    and "of_int (granted qs) \<le> of_int (burst - 1) + of_int rate * of_int (last (t # ts) - t) / (60000000 :: rat)"
    by fastforce
  with first show ?thesis by (simp add: granted_Cons)
qed

subsection \<open>A small ledger\<close>

definition example_world :: world where
  "example_world = \<lparr>w_digest = (\<lambda>_. replicate 64 CHR ''d''), w_sha256 = (\<lambda>s. s), w_uuid4 = (\<lambda>n. int_text (int n)),
     w_uuid5 = (\<lambda>s. s), w_coordinate = (\<lambda>_. [])\<rparr>"

definition example_policy :: saas_policy where
  "example_policy = \<lparr>po_organization_id = ''acme'', po_storage_limit_bytes = Some 1000,
     po_concurrent_stage_runs_limit = Some 2, po_request_rate_per_minute = Some 60,
     po_request_burst = Some 2, po_retention_days = None, po_version = 3,
     po_created_by = ''root'', po_updated_by = ''root''\<rparr>"

definition empty_db :: db where
  "empty_db = \<lparr>db_organizations = [], db_missions = [], db_runs = [], db_receipts = [], db_artifacts = [],
     db_parents = [], db_analyses = [], db_features = [], db_policies = [], db_usage = [],
     db_buckets = [], db_datasets = [], db_uploads = [], db_uuids = 0\<rparr>"

definition example_entry :: usage_entry where
  "example_entry = \<lparr>un_organization_id = ''acme'', un_action = StorageReserved,
     un_resource_type = ''dataset_upload'', un_resource_id = ''u1'', un_actor_subject = ''ann'',
     un_quantity = Some 10, un_unit = Some ''bytes'', un_idempotency_key = Some ''k'', un_details = fmempty\<rparr>"

theorem usage_ledger_idempotent_witness:
  "\<exists>x d'. append_usage_event example_world example_entry empty_db = Inr (x, d')
    \<and> append_usage_event example_world (example_entry\<lparr>un_quantity := Some 99\<rparr>) d' = Inr (x, d')
    \<and> ue_idempotency_key x = Some ''k'' \<and> distinct (usage_keys d')
    \<and> (\<exists>added. db_usage d' = db_usage empty_db @ added)"
  by (rule usage_ledger_idempotent)
     (simp_all add: usage_keys_def empty_db_def example_entry_def List.map_filter_def)

theorem set_policy_versions_witness:
  "\<exists>p d'. policy_table_ok (db_policies d') \<and> get_policy d' ''acme'' = Inr (Some p) \<and> po_version p = 4"
proof -
  let ?d = "empty_db\<lparr>db_policies := [example_policy]\<rparr>" and ?v = "values_of_row example_policy\<lparr>pv_retention_days := Some 30\<rparr>"
  have ok: "policy_table_ok (db_policies ?d)" "policy_values_post_init ?v = Inr ?v" by code_simp+
  have "\<exists>p d'. set_policy example_world ''acme'' ?v '' ann '' ?d = Inr (p, d')"
    by (simp add: set_policy_def get_policy_def empty_db_def example_policy_def policy_values_of_def
        policy_values_post_init_def positive_or_null_def append_usage_event_def draw_uuid_def Let_def
        str_strip_def str_lstrip_def str_rstrip_def is_space_def)
  then obtain p d' where "set_policy example_world ''acme'' ?v '' ann '' ?d = Inr (p, d')" by blast
  from set_policy_versions [OF ok this]
  have "policy_table_ok (db_policies d') \<and> get_policy d' ''acme'' = Inr (Some p) \<and>
    po_version p = (case get_policy ?d ''acme'' of Inr (Some q) \<Rightarrow> po_version q + 1 | _ \<Rightarrow> 1)" by blast
  moreover have "get_policy ?d ''acme'' = Inr (Some example_policy)" by code_simp
  ultimately show ?thesis by (intro exI [of _ p] exI [of _ d']) (simp add: example_policy_def)
qed

theorem request_quota_bound_witness:
  "\<exists>qs d'. consume_requests example_world ''acme'' ''ann'' [0, 0, 0, 500000, 1000000]
        (empty_db\<lparr>db_policies := [example_policy]\<rparr>) = Inr (qs, d')
    \<and> of_int (granted qs) \<le> (of_int 2 + of_int 60 * of_int (last [0, 0, 0, 500000, 1000000] - 0) / 60000000 :: rat)"
  by (rule request_quota_bound) code_simp+

end
