(* ===== verification/PhaseDag.thy ===== *)
theory PhaseDag
  imports DatabaseModel
begin

text \<open>
  The stage plan of a mission (\<open>shared/phase_dag.py\<close>): idempotency keys, the specs of the
  selected stages and the rows they become, and the projection of service status events on
  stage runs.

  The launch payload is a record of the fields the code reads: a missing or empty list of
  phases is the empty list, the upstream artifacts are a partial map of stages, and the
  remaining fields stay in a dictionary.
\<close>

subsection \<open>Specs of the selected stages\<close>

record launch_payload =
  lp_vol_id :: string
  lp_organization_id :: string
  lp_phases :: "stage_id list"
  lp_upstream_artifact_ids :: "stage_id \<rightharpoonup> string"
  lp_fields :: dict

record stage_run_spec =
  sp_stage :: stage_id
  sp_attempt :: int
  sp_status :: run_status
  sp_parameters :: dict
  sp_upstream_artifact_ids :: "string list"
  sp_idempotency_key :: string
  sp_resource_class :: resource_class

definition idempotency_payload ::
  "string \<Rightarrow> stage_id \<Rightarrow> int \<Rightarrow> dict \<Rightarrow> string list \<Rightarrow> string \<Rightarrow> pyval" where
  "idempotency_payload vol_id stage attempt parameters upstream organization_id =
     PDict (fmap_of_list
       [(''idempotency_version'', PInt 2),
        (''organization_id'', PStr organization_id),
        (''vol_id'', PStr vol_id),
        (''dag_version'', PInt STAGE_DAG_VERSION),
        (''stage'', PStr (stage_name stage)),
        (''attempt'', PInt attempt),
        (''parameters'', PDict parameters),
        (''upstream_artifact_ids'', PList (map PStr (sort upstream)))])"

definition stage_idempotency_key ::
  "world \<Rightarrow> string \<Rightarrow> stage_id \<Rightarrow> int \<Rightarrow> dict \<Rightarrow> string list \<Rightarrow> string \<Rightarrow> string" where
  "stage_idempotency_key w vol_id stage attempt parameters upstream organization_id =
     w_digest w (idempotency_payload vol_id stage attempt parameters upstream organization_id)"

definition launch_parameters :: "dict \<Rightarrow> dict" where
  "launch_parameters payload = fmap_of_list
     [(''dag_version'', PInt STAGE_DAG_VERSION),
      (''quality_profile'', dget payload ''quality_profile''),
      (''quality_profile_version'', dget payload ''quality_profile_version''),
      (''work_drive'', dget payload ''work_drive''),
      (''colmap_params'', py_or (dget payload ''colmap_params'') (PDict fmempty)),
      (''ai'', PDict (fmap_of_list
         [(''backend'', dget payload ''ai_backend''),
          (''model_variant'', dget payload ''ai_model_variant''),
          (''classes'', py_or (dget payload ''classes'') (PList [])),
          (''confidence'', dget payload ''ai_confidence''),
          (''confidence_policy'', PStr ''strict''),
          (''sam_prompt'', dget payload ''sam_prompt''),
          (''tile_size'', dget payload ''tile_size'')]))]"

definition external_inputs :: "launch_payload \<Rightarrow> stage_id \<Rightarrow> string list" where
  "external_inputs payload stage =
     List.map_filter (lp_upstream_artifact_ids payload) (stage_dependencies stage)"

definition waits_for_selected_stage :: "launch_payload \<Rightarrow> stage_id list \<Rightarrow> stage_id \<Rightarrow> bool" where
  "waits_for_selected_stage payload selected stage \<longleftrightarrow>
     list_ex (\<lambda>d. d \<in> set selected \<and> lp_upstream_artifact_ids payload d = None) (stage_dependencies stage)"

definition stage_spec :: "world \<Rightarrow> launch_payload \<Rightarrow> stage_id list \<Rightarrow> stage_id \<Rightarrow> stage_run_spec res" where
  "stage_spec w payload selected stage =
     (let parameters = launch_parameters (lp_fields payload);
          inputs = external_inputs payload stage
      in rbind (resource_class_for_stage stage parameters) (\<lambda>cls.
           Inr \<lparr>sp_stage = stage, sp_attempt = 0,
                sp_status = (if waits_for_selected_stage payload selected stage then Blocked else Queued),
                sp_parameters = parameters, sp_upstream_artifact_ids = inputs,
                sp_idempotency_key = stage_idempotency_key w (lp_vol_id payload) stage 0 parameters inputs
                  (lp_organization_id payload),
                sp_resource_class = cls\<rparr>))"

definition build_stage_run_specs :: "world \<Rightarrow> launch_payload \<Rightarrow> stage_run_spec list res" where
  "build_stage_run_specs w payload =
     rbind (validate_stage_selection
              (if lp_phases payload = [] then STAGE_ORDER else lp_phases payload)
              (lp_upstream_artifact_ids payload)) (\<lambda>stages.
       rmap (stage_spec w payload stages) stages)"

subsection \<open>Stage run rows\<close>

definition new_stage_run ::
  "int \<Rightarrow> string \<Rightarrow> instant \<Rightarrow> int \<Rightarrow> int option \<Rightarrow> string option \<Rightarrow> stage_run_spec \<Rightarrow> stage_run" where
  "new_stage_run i run_id now mission_id analysis_id step spec =
     \<lparr>sr_id = i, sr_run_id = run_id, sr_mission_id = mission_id, sr_analysis_run_id = analysis_id,
      sr_stage = sp_stage spec, sr_attempt = sp_attempt spec, sr_status = sp_status spec,
      sr_progress = 0, sr_current_step = step, sr_idempotency_key = sp_idempotency_key spec,
      sr_executor = None, sr_resource_class = sp_resource_class spec, sr_job_name = None,
      sr_dispatch_attempts = 0, sr_dispatch_error = None, sr_scheduled_at = None,
      sr_parameters = sp_parameters spec, sr_upstream_artifact_ids = sp_upstream_artifact_ids spec,
      sr_provenance = fmempty, sr_quality_metrics = fmempty, sr_error_message = None,
      sr_heartbeat_at = None, sr_started_at = None, sr_completed_at = None,
      sr_created_at = now, sr_updated_at = now\<rparr>"

definition add_stage_run ::
  "world \<Rightarrow> instant \<Rightarrow> int \<Rightarrow> int option \<Rightarrow> string option \<Rightarrow> stage_run_spec \<Rightarrow> db \<Rightarrow> stage_run \<times> db" where
  "add_stage_run w now mission_id analysis_id step spec d =
     (case draw_uuid w d of
        (run_id, d1) \<Rightarrow>
          (let run = new_stage_run (next_id (map sr_id (db_runs d1))) run_id now mission_id analysis_id step spec
           in (run, d1\<lparr>db_runs := db_runs d1 @ [run]\<rparr>)))"

fun add_stage_runs ::
  "world \<Rightarrow> instant \<Rightarrow> int \<Rightarrow> stage_run_spec list \<Rightarrow> db \<Rightarrow> stage_run list \<times> db" where
  "add_stage_runs w now mission_id [] d = ([], d)"
| "add_stage_runs w now mission_id (spec # specs) d =
     (case add_stage_run w now mission_id None None spec d of
        (run, d1) \<Rightarrow> (case add_stage_runs w now mission_id specs d1 of (runs, d2) \<Rightarrow> (run # runs, d2)))"

definition initialize_stage_runs ::
  "world \<Rightarrow> instant \<Rightarrow> mission \<Rightarrow> launch_payload \<Rightarrow> db \<Rightarrow> (stage_run list \<times> db) res" where
  "initialize_stage_runs w now mission payload d =
     rbind (build_stage_run_specs w (payload\<lparr>lp_organization_id := m_organization_id mission\<rparr>)) (\<lambda>specs.
       Inr (add_stage_runs w now (m_id mission) specs d))"

subsection \<open>Status events\<close>

text \<open>\<open>str.upper\<close> on code points below 256; the two letters whose capital lies above stay.\<close>

definition char_upper :: "char \<Rightarrow> string" where
  "char_upper c =
     (let n = (of_char c :: nat)
      in if (97 \<le> n \<and> n \<le> 122) \<or> (224 \<le> n \<and> n \<le> 254 \<and> n \<noteq> 247) then [char_of (n - 32)]
         else if n = 223 then ''SS'' else [c])"

definition str_upper :: "string \<Rightarrow> string" where
  "str_upper s = concat (map char_upper s)"

definition opt_text :: "string option \<Rightarrow> string" where
  "opt_text v = (case v of None \<Rightarrow> [] | Some s \<Rightarrow> s)"

definition stage_for_status_event :: "string \<Rightarrow> string option \<Rightarrow> stage_id" where
  "stage_for_status_event service step =
     (let normalized = str_upper (opt_text step)
      in if service = ''IA'' then Detection
         else if service = ''TILER'' then Rasterization
         else if contains_sub ''FILTER'' normalized then GaussianFiltering
         else if normalized \<in> {''GAUSS'', ''GAUSSIAN'', ''TRAINING''} then GaussianTraining
         else if normalized \<in> {''ORTHO'', ''UPLOADING'', ''DONE''} then Rasterization
         else Reconstruction)"

definition terminal_status :: "run_status \<Rightarrow> bool" where
  "terminal_status s \<longleftrightarrow> s \<in> {Succeeded, Failed, Cancelled}"

definition pipeline_runs_by_attempt :: "db \<Rightarrow> mission \<Rightarrow> stage_run list" where
  "pipeline_runs_by_attempt d mission =
     sort_key (\<lambda>r. - sr_attempt r)
       (filter (\<lambda>r. sr_mission_id r = m_id mission \<and> sr_analysis_run_id r = None) (db_runs d))"

definition latest_of_stage :: "stage_run list \<Rightarrow> stage_id \<Rightarrow> stage_run option" where
  "latest_of_stage runs stage = find (\<lambda>r. sr_stage r = stage) runs"

text \<open>The run an event is about.\<close>

definition event_run ::
  "stage_run list \<Rightarrow> stage_id \<Rightarrow> string option \<Rightarrow> string \<Rightarrow> string option \<Rightarrow> stage_run option" where
  "event_run runs stage step event_status stage_run_id =
     (let run = (case stage_run_id of
            Some run_id \<Rightarrow> find (\<lambda>r. sr_run_id r = run_id) runs
          | None \<Rightarrow> latest_of_stage runs stage)
      in if event_status \<in> {''error'', ''cancelled''} \<and> str_upper (opt_text step) \<in> {''ERROR'', ''CANCELLED''}
         then (case find (\<lambda>s. case latest_of_stage runs s of None \<Rightarrow> False
                                | Some r \<Rightarrow> sr_status r \<in> {Queued, Running}) (rev STAGE_ORDER) of
                 Some s \<Rightarrow> latest_of_stage runs s
               | None \<Rightarrow> run)
         else run)"

definition complete_previous :: "instant \<Rightarrow> stage_run \<Rightarrow> stage_run" where
  "complete_previous now previous =
     (if terminal_status (sr_status previous) then previous
      else previous\<lparr>sr_status := Succeeded, sr_progress := 100, sr_completed_at := Some now,
                    sr_heartbeat_at := Some now, sr_updated_at := now\<rparr>)"

definition event_status_map :: "string \<Rightarrow> run_status" where
  "event_status_map s =
     (if s = ''success'' then Succeeded else if s = ''error'' then Failed
      else if s = ''cancelled'' then Cancelled else Running)"

definition apply_status_event ::
  "instant \<Rightarrow> string option \<Rightarrow> string \<Rightarrow> int \<Rightarrow> string option \<Rightarrow> stage_run \<Rightarrow> stage_run" where
  "apply_status_event now step event_status progress error_message run =
     (let status = event_status_map event_status
      in run\<lparr>sr_status := status, sr_progress := max 0 (min 100 progress), sr_current_step := step,
             sr_heartbeat_at := Some now,
             sr_started_at := (case sr_started_at run of None \<Rightarrow> Some now | t \<Rightarrow> t),
             sr_completed_at := (if terminal_status status then Some now else sr_completed_at run),
             sr_error_message := (if status = Failed then error_message else None),
             sr_updated_at := now\<rparr>)"

definition earlier_stages :: "stage_id \<Rightarrow> stage_id list" where
  "earlier_stages stage = takeWhile (\<lambda>s. s \<noteq> stage) STAGE_ORDER"

definition project_status_to_stage_run ::
  "instant \<Rightarrow> mission \<Rightarrow> string \<Rightarrow> string option \<Rightarrow> string \<Rightarrow> int \<Rightarrow> string option \<Rightarrow> string option \<Rightarrow> db \<Rightarrow> db" where
  "project_status_to_stage_run now mission service step event_status progress error_message stage_run_id d =
     (let stage = stage_for_status_event service step;
          runs = pipeline_runs_by_attempt d mission
      in case event_run runs stage step event_status stage_run_id of
           None \<Rightarrow> d
         | Some run \<Rightarrow>
             (let d1 = foldl (\<lambda>d' s. case latest_of_stage runs s of None \<Rightarrow> d'
                                     | Some previous \<Rightarrow> put_run (complete_previous now previous) d')
                         d (earlier_stages (sr_stage run))
              in put_run (apply_status_event now step event_status progress error_message run) d1))"

subsection \<open>Facts about specs\<close>

lemma stage_spec_Inr:
  "stage_spec w payload selected stage = Inr spec \<longleftrightarrow>
   (\<exists>cls. resource_class_for_stage stage (launch_parameters (lp_fields payload)) = Inr cls \<and>
     spec = \<lparr>sp_stage = stage, sp_attempt = 0,
                sp_status = (if waits_for_selected_stage payload selected stage then Blocked else Queued),
                sp_parameters = launch_parameters (lp_fields payload),
                sp_upstream_artifact_ids = external_inputs payload stage,
                sp_idempotency_key = stage_idempotency_key w (lp_vol_id payload) stage 0
                  (launch_parameters (lp_fields payload)) (external_inputs payload stage)
                  (lp_organization_id payload),
                sp_resource_class = cls\<rparr>)"
  by (auto simp: stage_spec_def Let_def rbind_Inr_iff)

lemma build_specs_Inr:
  assumes "build_stage_run_specs w payload = Inr specs"
  shows "\<exists>stages. validate_stage_selection (if lp_phases payload = [] then STAGE_ORDER else lp_phases payload)
       (lp_upstream_artifact_ids payload) = Inr stages
     \<and> list_all2 (\<lambda>s spec. stage_spec w payload stages s = Inr spec) stages specs
     \<and> map sp_stage specs = stages"
proof -
  from assms obtain stages where v: "validate_stage_selection
      (if lp_phases payload = [] then STAGE_ORDER else lp_phases payload) (lp_upstream_artifact_ids payload) = Inr stages"
    and m: "rmap (stage_spec w payload stages) stages = Inr specs"
    by (auto simp: build_stage_run_specs_def rbind_Inr_iff)
  from rmap_all2 [OF m] have all2: "list_all2 (\<lambda>s spec. stage_spec w payload stages s = Inr spec) stages specs" .
  then have "map sp_stage specs = stages"
    by (auto simp: list_all2_conv_all_nth stage_spec_Inr intro!: nth_equalityI)
  with v all2 show ?thesis by blast
qed

lemma map_filter_set: "set (List.map_filter f xs) = {y. \<exists>x \<in> set xs. f x = Some y}"
  by (force simp: List.map_filter_def)

lemma external_inputs_complete:
  "(\<forall>d \<in> set (stage_dependencies s). lp_upstream_artifact_ids payload d \<noteq> None) \<Longrightarrow>
   map Some (external_inputs payload s) = map (lp_upstream_artifact_ids payload) (stage_dependencies s)"
proof -
  have "(\<forall>d \<in> set xs. f d \<noteq> None) \<Longrightarrow> map Some (List.map_filter f xs) = map f xs" for xs and f :: "'a \<Rightarrow> 'b option"
    by (induction xs) (auto simp: List.map_filter_def)
  then show "(\<forall>d \<in> set (stage_dependencies s). lp_upstream_artifact_ids payload d \<noteq> None) \<Longrightarrow> ?thesis"
    by (simp add: external_inputs_def)
qed

lemma idempotency_payload_eq:
  "idempotency_payload v s a p u o' = idempotency_payload v' s' a' p' u' o'' \<longleftrightarrow>
   v = v' \<and> s = s' \<and> a = a' \<and> p = p' \<and> sort u = sort u' \<and> o' = o''"
proof
  assume eq: "idempotency_payload v s a p u o' = idempotency_payload v' s' a' p' u' o''"
  let ?get = "\<lambda>x k. case x of PDict d \<Rightarrow> dget d k | _ \<Rightarrow> PNone"
  have "?get (idempotency_payload v s a p u o') k = ?get (idempotency_payload v' s' a' p' u' o'') k" for k
    using eq by simp
  from this [of "''vol_id''"] this [of "''stage''"] this [of "''attempt''"] this [of "''parameters''"]
    this [of "''upstream_artifact_ids''"] this [of "''organization_id''"]
  show "v = v' \<and> s = s' \<and> a = a' \<and> p = p' \<and> sort u = sort u' \<and> o' = o''"
    by (simp add: idempotency_payload_def dget_def fmlookup_of_list stage_name_inj inj_map_eq_map inj_def)
next
  assume "v = v' \<and> s = s' \<and> a = a' \<and> p = p' \<and> sort u = sort u' \<and> o' = o''"
  then show "idempotency_payload v s a p u o' = idempotency_payload v' s' a' p' u' o''"
    by (simp add: idempotency_payload_def)
qed


subsection \<open>Facts about the projection\<close>

text \<open>Writing several rows with different keys.\<close>

definition put_runs :: "stage_run list \<Rightarrow> db \<Rightarrow> db" where
  "put_runs rs d = foldl (\<lambda>d' r. put_run r d') d rs"

lemma put_runs_simps [simp]:
  "put_runs [] d = d" "put_runs (r # rs) d = put_runs rs (put_run r d)"
  by (simp_all add: put_runs_def)

lemma put_runs_keys: "map sr_id (db_runs (put_runs rs d)) = map sr_id (db_runs d)"
  by (induction rs arbitrary: d) (simp_all add: runs.keys_put)

lemma put_runs_other:
  "x \<in> set (db_runs d) \<Longrightarrow> sr_id x \<notin> sr_id ` set rs \<Longrightarrow> x \<in> set (db_runs (put_runs rs d))"
  by (induction rs arbitrary: d) (auto intro: runs.put_other)

lemma put_runs_present:
  "distinct (map sr_id rs) \<Longrightarrow> \<forall>r \<in> set rs. sr_id r \<in> set (map sr_id (db_runs d)) \<Longrightarrow>
   r \<in> set rs \<Longrightarrow> r \<in> set (db_runs (put_runs rs d))"
proof (induction rs arbitrary: d)
  case (Cons q rs)
  show ?case
  proof (cases "r = q")
    case True
    have "q \<in> set (db_runs (put_run q d))" using Cons.prems(2) runs.put_present by fastforce
    moreover have "sr_id q \<notin> sr_id ` set rs" using Cons.prems(1) by simp
    ultimately show ?thesis using True put_runs_other by simp
  next
    case False
    then show ?thesis using Cons.prems Cons.IH [of "put_run q d"] by (simp add: runs.keys_put [simplified])
  qed
qed simp

lemma put_runs_all:
  "(\<And>x. x \<in> set (db_runs d) \<Longrightarrow> P x) \<Longrightarrow> (\<And>x. x \<in> set rs \<Longrightarrow> P x) \<Longrightarrow> x \<in> set (db_runs (put_runs rs d)) \<Longrightarrow> P x"
proof (induction rs arbitrary: d)
  case (Cons q rs)
  have "P y" if "y \<in> set (db_runs (put_run q d))" for y
    using runs.put_member [OF that] Cons.prems(1,2) by auto
  then show ?case using Cons.IH [of "put_run q d"] Cons.prems(2,3) by simp
qed simp

lemma put_runs_frame [simp]:
  "db_missions (put_runs rs d) = db_missions d" "db_artifacts (put_runs rs d) = db_artifacts d"
  "db_analyses (put_runs rs d) = db_analyses d" "db_receipts (put_runs rs d) = db_receipts d"
  "db_usage (put_runs rs d) = db_usage d" "db_policies (put_runs rs d) = db_policies d"
  by (induction rs arbitrary: d) simp_all

lemma latest_of_stage_Some:
  "latest_of_stage runs s = Some r \<Longrightarrow> r \<in> set runs \<and> sr_stage r = s"
  by (auto simp: latest_of_stage_def find_Some_iff)

lemma pipeline_runs_set:
  "set (pipeline_runs_by_attempt d m)
   = {r \<in> set (db_runs d). sr_mission_id r = m_id m \<and> sr_analysis_run_id r = None}"
  by (auto simp: pipeline_runs_by_attempt_def)

lemma event_run_mem: "event_run runs stage step ev rid = Some r \<Longrightarrow> r \<in> set runs"
proof -
  assume ev: "event_run runs stage step ev rid = Some r"
  have base: "x \<in> set runs" if "(case rid of Some run_id \<Rightarrow> find (\<lambda>r. sr_run_id r = run_id) runs
      | None \<Rightarrow> latest_of_stage runs stage) = Some x" for x
    using that by (auto split: option.splits dest: latest_of_stage_Some simp: find_Some_iff)
  show ?thesis
  proof (cases "event_run runs stage step ev rid = (case rid of Some run_id \<Rightarrow> find (\<lambda>r. sr_run_id r = run_id) runs
      | None \<Rightarrow> latest_of_stage runs stage)")
    case True
    then show ?thesis using ev base by simp
  next
    case False
    then obtain s where "latest_of_stage runs s = Some r"
      using ev unfolding event_run_def Let_def by (auto split: if_splits option.splits)
    then show ?thesis by (rule latest_of_stage_Some [THEN conjunct1])
  qed
qed

lemma earlier_stages_less: "s \<in> set (earlier_stages stage) \<longleftrightarrow> stage_rank s < stage_rank stage"
  by (cases stage; cases s) (simp_all add: earlier_stages_def STAGE_ORDER_def)

lemma distinct_earlier [simp]: "distinct (earlier_stages stage)"
  by (simp add: earlier_stages_def)

definition previous_rows :: "instant \<Rightarrow> stage_run list \<Rightarrow> stage_id list \<Rightarrow> stage_run list" where
  "previous_rows now runs stages = map (complete_previous now) (List.map_filter (latest_of_stage runs) stages)"

lemma complete_previous_id [simp]: "sr_id (complete_previous now r) = sr_id r"
  by (simp add: complete_previous_def)

lemma project_fold:
  "foldl (\<lambda>d' s. case latest_of_stage runs s of None \<Rightarrow> d'
      | Some previous \<Rightarrow> put_run (complete_previous now previous) d') d stages
   = put_runs (previous_rows now runs stages) d"
  by (induction stages arbitrary: d) (auto simp: previous_rows_def List.map_filter_def split: option.splits)

lemma previous_rows_ids:
  assumes "distinct (map sr_id runs)" and "distinct stages"
  shows "distinct (map sr_id (previous_rows now runs stages))"
proof -
  have inj: "inj_on sr_id (set runs)" using assms(1) by (simp add: distinct_map)
  have "distinct stages \<Longrightarrow> distinct (map sr_id (List.map_filter (latest_of_stage runs) stages))"
  proof (induction stages)
    case (Cons s ss)
    show ?case
    proof (cases "latest_of_stage runs s")
      case (Some r)
      have "sr_id r' \<noteq> sr_id r" if "r' \<in> set (List.map_filter (latest_of_stage runs) ss)" for r'
      proof -
        from that obtain s' where s': "s' \<in> set ss" "latest_of_stage runs s' = Some r'"
          by (auto simp: map_filter_set)
        then have "sr_stage r' \<noteq> sr_stage r"
          using Cons.prems latest_of_stage_Some [OF Some] latest_of_stage_Some [OF s'(2)] by auto
        then show ?thesis
          using latest_of_stage_Some [OF Some] latest_of_stage_Some [OF s'(2)] inj by (auto dest: inj_onD)
      qed
      then have "sr_id r \<notin> set (map sr_id (List.map_filter (latest_of_stage runs) ss))"
        by (simp only: set_map image_iff) metis
      with Some Cons show ?thesis by (simp add: map_filter_simps)
    qed (use Cons in \<open>simp add: map_filter_simps\<close>)
  qed (simp add: map_filter_simps)
  with assms(2) show ?thesis by (simp add: previous_rows_def o_def)
qed

lemma complete_previous_ok: "run_row_ok r \<Longrightarrow> run_row_ok (complete_previous now r)"
  by (simp add: complete_previous_def run_row_ok_def)

lemma apply_status_event_ok [inv_intros]:
  "run_row_ok r \<Longrightarrow> run_row_ok (apply_status_event now step ev progress err r)"
  by (simp add: apply_status_event_def run_row_ok_def Let_def)

lemma project_status_eq:
  assumes "event_run (pipeline_runs_by_attempt d m) (stage_for_status_event service step) step ev rid = Some run"
  shows "project_status_to_stage_run now m service step ev progress err rid d
    = put_run (apply_status_event now step ev progress err run)
        (put_runs (previous_rows now (pipeline_runs_by_attempt d m) (earlier_stages (sr_stage run))) d)"
  using assms by (simp add: project_status_to_stage_run_def Let_def project_fold)

subsection \<open>Properties of the stage plan\<close>

text \<open>The specs of a launch are the selected stages in pipeline order; a stage starts
  queued exactly when every dependency comes with an artifact, and then carries those
  artifacts as its inputs, one per dependency; otherwise it is blocked on a selected stage.
  Its resource class is never below the default envelope of the stage.\<close>

theorem specs_follow_dependencies:
  assumes "build_stage_run_specs w payload = Inr specs"
  shows "set (map sp_stage specs) = (if lp_phases payload = [] then UNIV else set (lp_phases payload))
    \<and> sorted (map sp_stage specs) \<and> distinct (map sp_stage specs)
    \<and> list_all (\<lambda>spec.
        sp_status spec = (if list_all (\<lambda>d. lp_upstream_artifact_ids payload d \<noteq> None)
                               (stage_dependencies (sp_stage spec)) then Queued else Blocked)
        \<and> (sp_status spec = Queued \<longrightarrow> map Some (sp_upstream_artifact_ids spec)
             = map (lp_upstream_artifact_ids payload) (stage_dependencies (sp_stage spec)))
        \<and> (sp_status spec = Blocked \<longrightarrow> list_ex (\<lambda>d. d \<in> set (map sp_stage specs)
             \<and> lp_upstream_artifact_ids payload d = None) (stage_dependencies (sp_stage spec)))
        \<and> resource_class_meets_envelope (sp_resource_class spec)
             (default_stage_resource_class (sp_stage spec))) specs"
proof -
  from build_specs_Inr [OF assms] obtain stages where
    v: "validate_stage_selection (if lp_phases payload = [] then STAGE_ORDER else lp_phases payload)
       (lp_upstream_artifact_ids payload) = Inr stages"
    and all2: "list_all2 (\<lambda>s spec. stage_spec w payload stages s = Inr spec) stages specs"
    and st: "map sp_stage specs = stages" by blast
  from v have o: "ordered_stages (if lp_phases payload = [] then STAGE_ORDER else lp_phases payload) = Inr stages"
    and sel: "\<forall>s \<in> set stages. \<forall>d \<in> set (stage_dependencies s). d \<in> set stages \<or> lp_upstream_artifact_ids payload d \<noteq> None"
    by (simp_all add: validate_stage_selection_Inr)
  have each: "stage_spec w payload stages (sp_stage spec) = Inr spec \<and> sp_stage spec \<in> set stages" if "spec \<in> set specs" for spec
  proof -
    from that obtain i where i: "i < length specs" "specs ! i = spec" by (auto simp: in_set_conv_nth)
    with all2 have "stage_spec w payload stages (stages ! i) = Inr spec" "i < length stages"
      by (auto simp: list_all2_conv_all_nth)
    then show ?thesis by (auto simp: stage_spec_Inr)
  qed
  have "sp_status spec = (if list_all (\<lambda>d. lp_upstream_artifact_ids payload d \<noteq> None)
           (stage_dependencies (sp_stage spec)) then Queued else Blocked)
    \<and> (sp_status spec = Queued \<longrightarrow> map Some (sp_upstream_artifact_ids spec)
         = map (lp_upstream_artifact_ids payload) (stage_dependencies (sp_stage spec)))
    \<and> (sp_status spec = Blocked \<longrightarrow> list_ex (\<lambda>d. d \<in> set stages
         \<and> lp_upstream_artifact_ids payload d = None) (stage_dependencies (sp_stage spec)))
    \<and> resource_class_meets_envelope (sp_resource_class spec) (default_stage_resource_class (sp_stage spec))"
    if "spec \<in> set specs" for spec
  proof -
    let ?s = "sp_stage spec"
    from each [OF that] obtain cls where cls: "resource_class_for_stage ?s (launch_parameters (lp_fields payload)) = Inr cls"
      and status: "sp_status spec = (if waits_for_selected_stage payload stages ?s then Blocked else Queued)"
      and up: "sp_upstream_artifact_ids spec = external_inputs payload ?s" and c: "sp_resource_class spec = cls"
      and mem: "?s \<in> set stages" unfolding stage_spec_Inr by (metis stage_run_spec.select_convs(3,5,7))
    have waits: "waits_for_selected_stage payload stages ?s
        \<longleftrightarrow> \<not> list_all (\<lambda>d. lp_upstream_artifact_ids payload d \<noteq> None) (stage_dependencies ?s)"
    proof -
      have "d \<in> set stages \<or> lp_upstream_artifact_ids payload d \<noteq> None" if "d \<in> set (stage_dependencies ?s)" for d
        using sel mem that by blast
      then show ?thesis unfolding waits_for_selected_stage_def list_ex_iff list_all_iff by metis
    qed
    moreover have "map Some (external_inputs payload ?s) = map (lp_upstream_artifact_ids payload) (stage_dependencies ?s)"
      if "list_all (\<lambda>d. lp_upstream_artifact_ids payload d \<noteq> None) (stage_dependencies ?s)"
      using that by (intro external_inputs_complete) (simp add: list_all_iff)
    moreover have "resource_class_meets_envelope cls (default_stage_resource_class ?s)"
      using resource_class_for_stage_meets_default [OF cls] .
    moreover have "list_ex (\<lambda>d. d \<in> set stages \<and> lp_upstream_artifact_ids payload d = None) (stage_dependencies ?s)"
      if "waits_for_selected_stage payload stages ?s" using that by (simp add: waits_for_selected_stage_def)
    ultimately show ?thesis by (auto simp: status up c)
  qed
  then show ?thesis
    using ordered_stages_set [OF o] ordered_stages_sorted [OF o] by (auto simp: st list_all_iff)
qed

definition example_launch :: launch_payload where
  "example_launch = \<lparr>lp_vol_id = ''flight-7'', lp_organization_id = ''acme'',
     lp_phases = [Detection, Rasterization], lp_upstream_artifact_ids = [GaussianFiltering \<mapsto> ''a1''],
     lp_fields = fmap_of_list [(''ai_backend'', PStr ''sam3'')]\<rparr>"

definition example_digest_world :: world where
  "example_digest_world = \<lparr>w_digest = (\<lambda>v. case v of
       PDict p \<Rightarrow> (case dget p ''stage'' of PStr s \<Rightarrow> s | _ \<Rightarrow> []) | _ \<Rightarrow> []),
     w_sha256 = (\<lambda>s. s), w_uuid4 = (\<lambda>n. int_text (int n)), w_uuid5 = (\<lambda>s. s), w_coordinate = (\<lambda>_. [])\<rparr>"

lemma example_launch_built: "\<exists>specs. build_stage_run_specs w example_launch = Inr specs"
  by (simp add: build_stage_run_specs_def validate_stage_selection_def ordered_stages_def STAGE_ORDER_def
      example_launch_def missing_dependencies_def stage_spec_def Let_def resource_class_for_stage_def
      stage_baseline_class_def launch_parameters_def dget_def fmlookup_of_list py_or_def
      rasterization_requires_high_memory_def fmempty_of_list [symmetric] sam3_class py_eq_def)

theorem specs_follow_dependencies_witness:
  "\<exists>specs. build_stage_run_specs example_digest_world example_launch = Inr specs
    \<and> set (map sp_stage specs) = {Detection, Rasterization} \<and> sorted (map sp_stage specs)"
proof -
  obtain specs where built: "build_stage_run_specs example_digest_world example_launch = Inr specs"
    using example_launch_built by blast
  from specs_follow_dependencies [OF built]
  have "set (map sp_stage specs) = (if lp_phases example_launch = [] then UNIV else set (lp_phases example_launch))"
    "sorted (map sp_stage specs)" by blast+
  with built show ?thesis by (simp add: example_launch_def)
qed

text \<open>An idempotency key identifies its work: unless the digest collides on the two
  payloads at hand, runs of equal keys are the same stage and attempt of the same mission of
  the same organization, with the same parameters and the same input artifacts.\<close>

theorem idempotency_key_identifies_work:
  assumes "inj_on (w_digest w) {idempotency_payload vol s a p u org, idempotency_payload vol' s' a' p' u' org'}"
    and "stage_idempotency_key w vol s a p u org = stage_idempotency_key w vol' s' a' p' u' org'"
  shows "vol = vol' \<and> s = s' \<and> a = a' \<and> p = p' \<and> mset u = mset u' \<and> org = org'"
proof -
  from assms have "idempotency_payload vol s a p u org = idempotency_payload vol' s' a' p' u' org'"
    by (auto simp: stage_idempotency_key_def dest: inj_onD)
  then have "vol = vol' \<and> s = s' \<and> a = a' \<and> p = p' \<and> sort u = sort u' \<and> org = org'"
    by (simp only: idempotency_payload_eq)
  then show ?thesis by (metis mset_sort)
qed

theorem idempotency_key_identifies_work_witness:
  "''v'' = ''v'' \<and> Detection = Detection \<and> (0::int) = 0 \<and> (fmempty::dict) = fmempty
    \<and> mset [''b'', ''a''] = mset [''a'', ''b''] \<and> ''acme'' = ''acme''"
proof -
  have same: "idempotency_payload ''v'' Detection 0 fmempty [''b'', ''a''] ''acme''
      = idempotency_payload ''v'' Detection 0 fmempty [''a'', ''b''] ''acme''"
    by (simp add: idempotency_payload_eq)
  show ?thesis
    by (rule idempotency_key_identifies_work [of example_digest_world "''v''" Detection 0 fmempty "[''b'', ''a'']" "''acme''"])
       (simp_all add: same stage_idempotency_key_def)
qed

text \<open>A status event moves the run it names to the mapped status and leaves no earlier
  stage of the mission open; runs of other missions and of analyses, the identity of rows
  and the row constraints are untouched.\<close>

theorem status_event_projection:
  assumes "distinct (map sr_id (db_runs d))" and "list_all run_row_ok (db_runs d)"
    and "event_run (pipeline_runs_by_attempt d m) (stage_for_status_event service step) step ev rid = Some run"
  shows "let d' = project_status_to_stage_run now m service step ev progress err rid d in
    apply_status_event now step ev progress err run \<in> set (db_runs d')
    \<and> (\<forall>s p. stage_rank s < stage_rank (sr_stage run) \<longrightarrow> latest_of_stage (pipeline_runs_by_attempt d m) s = Some p
         \<longrightarrow> complete_previous now p \<in> set (db_runs d') \<and> terminal_status (sr_status (complete_previous now p)))
    \<and> (\<forall>r \<in> set (db_runs d). sr_mission_id r \<noteq> m_id m \<or> sr_analysis_run_id r \<noteq> None \<longrightarrow> r \<in> set (db_runs d'))
    \<and> map sr_id (db_runs d') = map sr_id (db_runs d) \<and> list_all run_row_ok (db_runs d')"
proof -
  let ?runs = "pipeline_runs_by_attempt d m"
  let ?prev = "previous_rows now ?runs (earlier_stages (sr_stage run))"
  let ?run' = "apply_status_event now step ev progress err run"
  let ?d' = "project_status_to_stage_run now m service step ev progress err rid d"
  have d': "?d' = put_run ?run' (put_runs ?prev d)" using project_status_eq [OF assms(3)] .
  have run: "run \<in> set (db_runs d)" "sr_mission_id run = m_id m" "sr_analysis_run_id run = None"
    using event_run_mem [OF assms(3)] by (simp_all add: pipeline_runs_set)
  have id': "sr_id ?run' = sr_id run" by (simp add: apply_status_event_def Let_def)
  have inj: "inj_on sr_id (set (db_runs d))" using assms(1) by (simp add: distinct_map)
  have runs_distinct: "distinct (map sr_id ?runs)"
  proof -
    have "mset (map sr_id ?runs)
        = mset (map sr_id (filter (\<lambda>r. sr_mission_id r = m_id m \<and> sr_analysis_run_id r = None) (db_runs d)))"
      by (simp add: pipeline_runs_by_attempt_def)
    then have "distinct (map sr_id ?runs)
        = distinct (map sr_id (filter (\<lambda>r. sr_mission_id r = m_id m \<and> sr_analysis_run_id r = None) (db_runs d)))"
      by (rule mset_eq_imp_distinct_iff)
    then show ?thesis using assms(1) by (simp add: distinct_map_filter)
  qed
  have prev: "\<exists>p s. q = complete_previous now p \<and> p \<in> set (db_runs d) \<and> sr_mission_id p = m_id m
       \<and> sr_analysis_run_id p = None \<and> stage_rank s < stage_rank (sr_stage run) \<and> sr_stage p = s" if "q \<in> set ?prev" for q
    using that by (auto simp: previous_rows_def map_filter_set earlier_stages_less pipeline_runs_set
        dest!: latest_of_stage_Some)
  have ids: "\<forall>q \<in> set ?prev. sr_id q \<in> set (map sr_id (db_runs d))" using prev by force
  have dist: "distinct (map sr_id ?prev)" using previous_rows_ids [OF runs_distinct] by simp
  have not_run: "sr_id q \<noteq> sr_id run" if q: "q \<in> set ?prev" for q
  proof
    assume eq: "sr_id q = sr_id run"
    from prev [OF q] obtain p where p: "q = complete_previous now p" "p \<in> set (db_runs d)"
      "stage_rank (sr_stage p) < stage_rank (sr_stage run)" by blast
    with eq have "p = run" using inj run(1) by (auto dest: inj_onD)
    with p(3) show False by simp
  qed
  have "run \<in> set (db_runs (put_runs ?prev d))" using put_runs_other [OF run(1)] not_run by (metis imageE)
  then have A: "?run' \<in> set (db_runs ?d')" unfolding d' by (rule runs.put_present) (simp add: id')
  have B: "complete_previous now p \<in> set (db_runs ?d') \<and> terminal_status (sr_status (complete_previous now p))"
    if "stage_rank s < stage_rank (sr_stage run)" "latest_of_stage ?runs s = Some p" for s p
  proof -
    have mem: "complete_previous now p \<in> set ?prev"
      using that by (auto simp: previous_rows_def map_filter_set earlier_stages_less intro!: image_eqI)
    then have "complete_previous now p \<in> set (db_runs (put_runs ?prev d))" using put_runs_present dist ids by blast
    then have "complete_previous now p \<in> set (db_runs ?d')"
      unfolding d' by (rule runs.put_other) (use not_run [OF mem] id' in \<open>simp\<close>)
    moreover have "terminal_status (sr_status (complete_previous now p))"
      by (simp add: complete_previous_def terminal_status_def)
    ultimately show ?thesis by simp
  qed
  have C: "r \<in> set (db_runs ?d')"
    if "r \<in> set (db_runs d)" "sr_mission_id r \<noteq> m_id m \<or> sr_analysis_run_id r \<noteq> None" for r
  proof -
    have "sr_id r \<notin> sr_id ` set ?prev"
    proof
      assume "sr_id r \<in> sr_id ` set ?prev"
      then obtain q where "q \<in> set ?prev" "sr_id q = sr_id r" by force
      from prev [OF this(1)] obtain p where "q = complete_previous now p" "p \<in> set (db_runs d)"
        "sr_mission_id p = m_id m" "sr_analysis_run_id p = None" by blast
      moreover from this \<open>sr_id q = sr_id r\<close> have "p = r" using inj that(1) by (simp add: inj_onD)
      ultimately show False using that(2) by simp
    qed
    then have "r \<in> set (db_runs (put_runs ?prev d))" by (rule put_runs_other [OF that(1)])
    moreover have "sr_id r \<noteq> sr_id ?run'"
    proof
      assume "sr_id r = sr_id ?run'"
      with id' inj that(1) run(1) have "r = run" by (simp add: inj_onD)
      with that(2) run show False by simp
    qed
    ultimately show ?thesis unfolding d' by (rule runs.put_other)
  qed
  have D: "map sr_id (db_runs ?d') = map sr_id (db_runs d)" by (simp only: d' runs.keys_put put_runs_keys)
  have ok: "run_row_ok r" if "r \<in> set (db_runs d)" for r using that assms(2) by (simp add: list_all_iff)
  have okp: "run_row_ok q" if "q \<in> set ?prev" for q
    using prev [OF that] ok complete_previous_ok by blast
  have okm: "run_row_ok r" if "r \<in> set (db_runs (put_runs ?prev d))" for r
    by (rule put_runs_all [where P = run_row_ok, OF ok okp that])
  have "run_row_ok r" if "r \<in> set (db_runs ?d')" for r
    by (rule runs.put_all [where P = run_row_ok, OF okm apply_status_event_ok [OF ok [OF run(1)]] that [unfolded d']])
  then have E: "list_all run_row_ok (db_runs ?d')" by (simp add: list_all_iff)
  show ?thesis
    unfolding Let_def using A B C D E by (intro conjI allI ballI impI) (simp_all only: simp_thms)
qed

definition example_run :: stage_run where
  "example_run = \<lparr>sr_id = 1, sr_run_id = ''r1'', sr_mission_id = 7, sr_analysis_run_id = None,
     sr_stage = Reconstruction, sr_attempt = 0, sr_status = Queued, sr_progress = 0,
     sr_current_step = None, sr_idempotency_key = replicate 64 CHR ''0'', sr_executor = None,
     sr_resource_class = GpuGeometry, sr_job_name = None, sr_dispatch_attempts = 0,
     sr_dispatch_error = None, sr_scheduled_at = None, sr_parameters = fmempty,
     sr_upstream_artifact_ids = [], sr_provenance = fmempty, sr_quality_metrics = fmempty,
     sr_error_message = None, sr_heartbeat_at = None, sr_started_at = None,
     sr_completed_at = None, sr_created_at = 0, sr_updated_at = 0\<rparr>"

definition example_mission :: mission where
  "example_mission = \<lparr>m_id = 7, m_vol_id = ''flight-7'', m_owner_subject = ''ann'',
     m_organization_id = ''acme'', m_status = MissionProcessing, m_pipeline = ''modern'',
     m_dataset_id = None, m_input_dataset = None,
     m_workspace_prefix = ''organizations/acme/missions/flight-7'', m_params = None,
     m_current_step = None, m_progress = 0, m_retry_count = 0, m_service_states = None,
     m_resume_info = None, m_error_message = None, m_total_tiles = None, m_tiles_received = 0,
     m_ortho_s3_key = None, m_tiling_metadata = None, m_aggregation_status = AggregationPending,
     m_aggregation_completed_at = None, m_created_at = 0, m_updated_at = 0\<rparr>"

definition example_pipeline :: db where
  "example_pipeline =
     \<lparr>db_organizations = [], db_missions = [example_mission],
      db_runs = [example_run, example_run\<lparr>sr_id := 2, sr_run_id := ''r2'', sr_stage := GaussianTraining,
                   sr_status := Blocked, sr_idempotency_key := replicate 64 CHR ''1''\<rparr>],
      db_receipts = [], db_artifacts = [], db_parents = [], db_analyses = [], db_features = [],
      db_policies = [], db_usage = [], db_buckets = [], db_datasets = [], db_uploads = [], db_uuids = 0\<rparr>"

lemma example_event_run:
  "event_run (pipeline_runs_by_attempt example_pipeline example_mission)
     (stage_for_status_event ''COLMAP'' (Some ''gauss'')) (Some ''gauss'') ''success'' None
   = Some (example_run\<lparr>sr_id := 2, sr_run_id := ''r2'', sr_stage := GaussianTraining,
                   sr_status := Blocked, sr_idempotency_key := replicate 64 CHR ''1''\<rparr>)"
  by code_simp

theorem status_event_projection_witness:
  "map sr_id (db_runs (project_status_to_stage_run 5 example_mission ''COLMAP'' (Some ''gauss'') ''success''
      120 None None example_pipeline)) = [1, 2]"
proof -
  have ok: "distinct (map sr_id (db_runs example_pipeline))" "list_all run_row_ok (db_runs example_pipeline)"
    by code_simp+
  from status_event_projection [OF ok example_event_run, of 5 120 None]
  have "map sr_id (db_runs (project_status_to_stage_run 5 example_mission ''COLMAP'' (Some ''gauss'') ''success''
      120 None None example_pipeline)) = map sr_id (db_runs example_pipeline)" by (simp only: Let_def)
  then show ?thesis by (simp add: example_pipeline_def example_run_def)
qed

end
