(* ===== verification/StageArtifacts.thy ===== *)
theory StageArtifacts
  imports PhaseDag
begin

text \<open>
  Completion of a stage run and release of the stages that waited for its artifact
  (\<open>shared/stage_artifacts.py\<close>).
\<close>

definition mark_stage_run_succeeded :: "instant \<Rightarrow> stage_run \<Rightarrow> stage_run" where
  "mark_stage_run_succeeded now run =
     run\<lparr>sr_status := Succeeded, sr_progress := 100, sr_current_step := Some ''SUCCEEDED'',
         sr_heartbeat_at := Some now, sr_completed_at := Some now, sr_error_message := None\<rparr>"

text \<open>The artifacts of a mission with the pipeline runs that produced them, newest first.\<close>

definition pipeline_artifacts :: "db \<Rightarrow> mission \<Rightarrow> (artifact \<times> stage_run) list" where
  "pipeline_artifacts d mission =
     concat (map (\<lambda>a. map (Pair a)
         (filter (\<lambda>r. sr_id r = ma_stage_run_id a \<and> sr_analysis_run_id r = None) (db_runs d)))
       (sort_key (\<lambda>a. - ma_created_at a)
         (filter (\<lambda>a. ma_mission_id a = m_id mission) (db_artifacts d))))"

definition artifact_by_stage :: "(artifact \<times> stage_run) list \<Rightarrow> stage_id \<Rightarrow> artifact option" where
  "artifact_by_stage artifacts stage =
     map_option fst (find (\<lambda>(a, r). sr_stage r = stage) artifacts)"

definition blocked_pipeline_run :: "mission \<Rightarrow> stage_run \<Rightarrow> bool" where
  "blocked_pipeline_run mission r \<longleftrightarrow>
     sr_mission_id r = m_id mission \<and> sr_status r = Blocked \<and> sr_analysis_run_id r = None"

definition ready_run :: "(stage_id \<Rightarrow> artifact option) \<Rightarrow> stage_run \<Rightarrow> bool" where
  "ready_run available run \<longleftrightarrow> list_all (\<lambda>d. available d \<noteq> None) (stage_dependencies (sr_stage run))"

definition release_run :: "(stage_id \<Rightarrow> artifact option) \<Rightarrow> stage_run \<Rightarrow> stage_run" where
  "release_run available run =
     run\<lparr>sr_upstream_artifact_ids :=
           List.map_filter (\<lambda>d. map_option ma_artifact_id (available d)) (stage_dependencies (sr_stage run)),
         sr_status := Queued, sr_current_step := Some ''QUEUED''\<rparr>"

definition release_ready_stage_runs :: "mission \<Rightarrow> db \<Rightarrow> stage_run list \<times> db" where
  "release_ready_stage_runs mission d =
     (let available = artifact_by_stage (pipeline_artifacts d mission);
          released = map (release_run available)
            (filter (ready_run available) (filter (blocked_pipeline_run mission) (db_runs d)))
      in (released, put_runs released d))"

subsection \<open>Facts about the release\<close>

lemma release_run_id [simp]: "sr_id (release_run available run) = sr_id run"
  by (simp add: release_run_def)

lemma mark_succeeded_ok [inv_intros]: "run_row_ok r \<Longrightarrow> run_row_ok (mark_stage_run_succeeded now r)"
  by (simp add: mark_stage_run_succeeded_def run_row_ok_def)

lemma release_run_ok [inv_intros]: "run_row_ok r \<Longrightarrow> run_row_ok (release_run available r)"
  by (simp add: release_run_def run_row_ok_def)

text \<open>Writing back the images of the rows that satisfy a predicate maps the table.\<close>

lemma put_runs_map:
  assumes "distinct (map sr_id (db_runs d))" and "\<And>r. sr_id (f r) = sr_id r"
  shows "db_runs (put_runs (map f (filter P (db_runs d))) d) = map (\<lambda>r. if P r then f r else r) (db_runs d)"
proof (rule nth_equalityI)
  let ?rs = "map f (filter P (db_runs d))" and ?d' = "put_runs (map f (filter P (db_runs d))) d"
  have keys: "map sr_id (db_runs ?d') = map sr_id (db_runs d)" by (rule put_runs_keys)
  show len: "length (db_runs ?d') = length (map (\<lambda>r. if P r then f r else r) (db_runs d))"
    using keys by (metis length_map)
  fix i
  assume "i < length (db_runs ?d')"
  with len have i: "i < length (db_runs d)" "i < length (db_runs ?d')" by simp_all
  let ?r = "db_runs d ! i"
  have d': "distinct (map sr_id (db_runs ?d'))" using assms(1) keys by simp
  have unique: "db_runs ?d' ! i = x" if "x \<in> set (db_runs ?d')" "sr_id x = sr_id ?r" for x
  proof -
    have "sr_id (db_runs ?d' ! i) = sr_id ?r" using keys i by (metis nth_map)
    with that d' i show ?thesis
      by (metis (no_types, lifting) distinct_map inj_onD nth_mem)
  qed
  have dist: "distinct (map sr_id ?rs)"
    using assms by (simp add: o_def distinct_map_filter)
  have "(if P ?r then f ?r else ?r) \<in> set (db_runs ?d')"
  proof (cases "P ?r")
    case True
    then have "f ?r \<in> set ?rs" using i by simp
    moreover have "\<forall>x \<in> set ?rs. sr_id x \<in> set (map sr_id (db_runs d))" using assms(2) by auto
    ultimately show ?thesis using True put_runs_present [OF dist] by simp
  next
    case False
    have "sr_id ?r \<notin> sr_id ` set ?rs"
    proof
      assume "sr_id ?r \<in> sr_id ` set ?rs"
      then obtain x where "x \<in> set (db_runs d)" "P x" "sr_id x = sr_id ?r" using assms(2) by auto
      moreover have "x = ?r" using assms(1) i calculation by (auto simp: distinct_map dest: inj_onD)
      ultimately show False using False by simp
    qed
    with False i put_runs_other [of ?r d] show ?thesis by simp
  qed
  moreover have "sr_id (if P ?r then f ?r else ?r) = sr_id ?r" using assms(2) by simp
  ultimately have "db_runs ?d' ! i = (if P ?r then f ?r else ?r)" by (rule unique)
  then show "db_runs ?d' ! i = map (\<lambda>r. if P r then f r else r) (db_runs d) ! i" using i by simp
qed

lemma pipeline_artifacts_mem:
  "(a, r) \<in> set (pipeline_artifacts d m) \<longleftrightarrow>
   a \<in> set (db_artifacts d) \<and> ma_mission_id a = m_id m \<and> r \<in> set (db_runs d)
   \<and> sr_id r = ma_stage_run_id a \<and> sr_analysis_run_id r = None"
  by (auto simp: pipeline_artifacts_def)

lemma newest_first_concat:
  fixes g :: "artifact \<Rightarrow> stage_run list"
  shows "sorted_wrt (\<lambda>a b. ma_created_at b \<le> ma_created_at a) as \<Longrightarrow>
    sorted_wrt (\<lambda>x y. ma_created_at (fst y) \<le> ma_created_at (fst x)) (concat (map (\<lambda>a. map (Pair a) (g a)) as))"
proof (induction as)
  case (Cons a as)
  have "sorted_wrt (\<lambda>x y. ma_created_at (fst y) \<le> ma_created_at (fst x)) (map (Pair a) rs)" for rs :: "stage_run list"
    by (induction rs) auto
  with Cons show ?case by (auto simp: sorted_wrt_append)
qed simp

lemma pipeline_artifacts_sorted:
  "sorted_wrt (\<lambda>x y. ma_created_at (fst y) \<le> ma_created_at (fst x)) (pipeline_artifacts d m)"
proof -
  have "sorted_wrt (\<lambda>a b. ma_created_at b \<le> ma_created_at a) (sort_key (\<lambda>a. - ma_created_at a) as)" for as
    using sorted_sort_key [of "\<lambda>a. - ma_created_at a" as] by (simp add: sorted_map)
  then show ?thesis unfolding pipeline_artifacts_def by (rule newest_first_concat)
qed

lemma find_sorted:
  "find P xs = Some x \<Longrightarrow> sorted_wrt R xs \<Longrightarrow> y \<in> set xs \<Longrightarrow> P y \<Longrightarrow> y = x \<or> R x y"
  by (induction xs) (auto split: if_splits)

lemma artifact_by_stage_newest:
  assumes "artifact_by_stage (pipeline_artifacts d m) s = Some a"
  shows "(\<exists>r. (a, r) \<in> set (pipeline_artifacts d m) \<and> sr_stage r = s)
    \<and> (\<forall>b r. (b, r) \<in> set (pipeline_artifacts d m) \<longrightarrow> sr_stage r = s \<longrightarrow> ma_created_at b \<le> ma_created_at a)"
proof -
  from assms obtain r where f: "find (\<lambda>(a, r). sr_stage r = s) (pipeline_artifacts d m) = Some (a, r)"
    by (auto simp: artifact_by_stage_def)
  then have "(a, r) \<in> set (pipeline_artifacts d m)" "sr_stage r = s" by (auto simp: find_Some_iff dest: nth_mem)
  moreover have "ma_created_at b \<le> ma_created_at a"
    if "(b, q) \<in> set (pipeline_artifacts d m)" "sr_stage q = s" for b q
    using find_sorted [OF f pipeline_artifacts_sorted that(1)] that(2) by auto
  ultimately show ?thesis by blast
qed

lemma artifact_by_stage_None:
  "artifact_by_stage (pipeline_artifacts d m) s = None \<longleftrightarrow>
   (\<forall>a r. (a, r) \<in> set (pipeline_artifacts d m) \<longrightarrow> sr_stage r \<noteq> s)"
  by (auto simp: artifact_by_stage_def find_None_iff)

lemma release_rows:
  assumes "distinct (map sr_id (db_runs d))"
  shows "db_runs (snd (release_ready_stage_runs m d)) =
    map (\<lambda>r. if blocked_pipeline_run m r \<and> ready_run (artifact_by_stage (pipeline_artifacts d m)) r
             then release_run (artifact_by_stage (pipeline_artifacts d m)) r else r) (db_runs d)"
  using put_runs_map [OF assms, of "release_run (artifact_by_stage (pipeline_artifacts d m))"
      "\<lambda>r. blocked_pipeline_run m r \<and> ready_run (artifact_by_stage (pipeline_artifacts d m)) r"]
  by (simp add: release_ready_stage_runs_def Let_def conj_commute)

lemma release_frame [frame_simps]:
  "db_missions (snd (release_ready_stage_runs m d)) = db_missions d"
  "db_artifacts (snd (release_ready_stage_runs m d)) = db_artifacts d"
  "db_analyses (snd (release_ready_stage_runs m d)) = db_analyses d"
  "db_usage (snd (release_ready_stage_runs m d)) = db_usage d"
  "db_policies (snd (release_ready_stage_runs m d)) = db_policies d"
  by (simp_all add: release_ready_stage_runs_def Let_def)

subsection \<open>Properties of the release\<close>

text \<open>The release touches exactly the blocked pipeline runs of the mission all of whose
  dependencies have an artifact: each becomes queued with one input per dependency, the newest
  artifact that a pipeline run of that stage produced; every other row stays as it was.\<close>

theorem release_is_exact:
  assumes "distinct (map sr_id (db_runs d))"
  shows "let available = artifact_by_stage (pipeline_artifacts d m) in
    db_runs (snd (release_ready_stage_runs m d)) =
      map (\<lambda>r. if blocked_pipeline_run m r \<and> ready_run available r then release_run available r else r) (db_runs d)
    \<and> (\<forall>r. ready_run available r \<longrightarrow>
         list_all2 (\<lambda>dep i. \<exists>a. i = ma_artifact_id a \<and> a \<in> set (db_artifacts d) \<and> ma_mission_id a = m_id m
           \<and> (\<exists>q \<in> set (db_runs d). sr_id q = ma_stage_run_id a \<and> sr_stage q = dep \<and> sr_analysis_run_id q = None)
           \<and> (\<forall>b \<in> set (db_artifacts d). ma_mission_id b = m_id m \<longrightarrow>
               (\<exists>q \<in> set (db_runs d). sr_id q = ma_stage_run_id b \<and> sr_stage q = dep \<and> sr_analysis_run_id q = None)
               \<longrightarrow> ma_created_at b \<le> ma_created_at a))
         (stage_dependencies (sr_stage r)) (sr_upstream_artifact_ids (release_run available r)))"
proof -
  let ?av = "artifact_by_stage (pipeline_artifacts d m)"
  let ?P = "\<lambda>dep i. \<exists>a. i = ma_artifact_id a \<and> a \<in> set (db_artifacts d) \<and> ma_mission_id a = m_id m
           \<and> (\<exists>q \<in> set (db_runs d). sr_id q = ma_stage_run_id a \<and> sr_stage q = dep \<and> sr_analysis_run_id q = None)
           \<and> (\<forall>b \<in> set (db_artifacts d). ma_mission_id b = m_id m \<longrightarrow>
               (\<exists>q \<in> set (db_runs d). sr_id q = ma_stage_run_id b \<and> sr_stage q = dep \<and> sr_analysis_run_id q = None)
               \<longrightarrow> ma_created_at b \<le> ma_created_at a)"
  have each: "?P dep (ma_artifact_id a)" if "?av dep = Some a" for dep a
    using artifact_by_stage_newest [OF that] by (auto simp: pipeline_artifacts_mem intro!: exI [of _ a])
  have "list_all2 ?P deps (List.map_filter (\<lambda>d. map_option ma_artifact_id (?av d)) deps)"
    if "list_all (\<lambda>d. ?av d \<noteq> None) deps" for deps
    using that by (induction deps) (use each in \<open>auto simp: map_filter_simps\<close>)
  then have "list_all2 ?P (stage_dependencies (sr_stage r)) (sr_upstream_artifact_ids (release_run ?av r))"
    if "ready_run ?av r" for r using that by (simp add: ready_run_def release_run_def)
  then show ?thesis unfolding Let_def using release_rows [OF assms] by blast
qed

definition example_artifact :: artifact where
  "example_artifact = \<lparr>ma_id = 1, ma_artifact_id = ''a1'', ma_mission_id = 7, ma_stage_run_id = 1,
     ma_kind = ''reconstruction_workspace'', ma_uri = ''u'', ma_checksum_sha256 = replicate 64 CHR ''a'',
     ma_size_bytes = Some 10, ma_metadata = fmempty, ma_created_at = 3\<rparr>"

theorem release_is_exact_witness:
  "map sr_status (db_runs (snd (release_ready_stage_runs example_mission
      (example_pipeline\<lparr>db_artifacts := [example_artifact]\<rparr>)))) = [Queued, Queued]"
proof -
  let ?d = "example_pipeline\<lparr>db_artifacts := [example_artifact]\<rparr>"
  have "distinct (map sr_id (db_runs ?d))" by code_simp
  from release_is_exact [OF this, of example_mission]
  have "db_runs (snd (release_ready_stage_runs example_mission ?d)) =
    map (\<lambda>r. if blocked_pipeline_run example_mission r \<and> ready_run (artifact_by_stage (pipeline_artifacts ?d example_mission)) r
             then release_run (artifact_by_stage (pipeline_artifacts ?d example_mission)) r else r) (db_runs ?d)"
    unfolding Let_def by blast
  moreover have "map sr_status (map (\<lambda>r. if blocked_pipeline_run example_mission r
      \<and> ready_run (artifact_by_stage (pipeline_artifacts ?d example_mission)) r
             then release_run (artifact_by_stage (pipeline_artifacts ?d example_mission)) r else r) (db_runs ?d)) = [Queued, Queued]"
    by code_simp
  ultimately show ?thesis by simp
qed

end
