(* ===== verification/DetectionSharding.thy ===== *)
theory DetectionSharding
  imports Prelude
begin

text \<open>
  Tile windows and shard plans for full-raster detection
  (\<open>shared/detection_tile_planning.py\<close>, \<open>shared/detection_sharding.py\<close>).

  \<open>digest\<close> is a parameter of the model: the SHA-256 of the canonical JSON text of a
  payload, of which only that it is a function is used here.
\<close>

subsection \<open>Tile starts along one axis\<close>

definition build_tile_starts :: "int \<Rightarrow> int \<Rightarrow> int \<Rightarrow> int list res" where
  "build_tile_starts full_size tile_size overlap =
     (if full_size \<le> 0 then Inl (ValueError ''full_size must be positive'')
      else if tile_size \<le> 0 then Inl (ValueError ''tile_size must be positive'')
      else if overlap < 0 \<or> overlap \<ge> tile_size
        then Inl (ValueError ''overlap must be between 0 and tile_size - 1'')
      else if full_size \<le> tile_size then Inr [0]
      else
        (let stride = tile_size - overlap;
             starts = py_range 0 (full_size - tile_size + 1) stride;
             last_start = full_size - tile_size
         in if last starts \<noteq> last_start
            then (let distance_to_edge = last_start - last starts
                  in if length starts > 1 \<and> overlap > 0 \<and> distance_to_edge < overlap
                     then Inr (butlast starts @ [last_start])
                     else Inr (starts @ [last_start]))
            else Inr starts))"

subsection \<open>Shard plans\<close>

definition MAX_DETECTION_TILES :: int where
  "MAX_DETECTION_TILES = 100000"

definition MAX_DETECTION_SHARDS :: int where
  "MAX_DETECTION_SHARDS = 256"

record detection_tile =
  tile_index :: int
  offset_x :: int
  offset_y :: int
  tile_width :: int
  tile_height :: int

record detection_shard =
  shard_index :: int
  first_tile_index :: int
  shard_tile_count :: int

definition end_tile_index :: "detection_shard \<Rightarrow> int" where
  "end_tile_index s = first_tile_index s + shard_tile_count s"

record shard_plan =
  pl_width :: int
  pl_height :: int
  pl_tile_size :: int
  pl_overlap :: int
  pl_tiles_per_shard :: int
  pl_x_starts :: "int list"
  pl_y_starts :: "int list"
  pl_shards :: "detection_shard list"
  pl_planned_inference_pixels :: int
  pl_checksum_sha256 :: string

definition plan_tile_count :: "shard_plan \<Rightarrow> int" where
  "plan_tile_count p = int (length (pl_x_starts p)) * int (length (pl_y_starts p))"

definition plan_shard_count :: "shard_plan \<Rightarrow> int" where
  "plan_shard_count p = int (length (pl_shards p))"

definition pixel_amplification_ratio :: "shard_plan \<Rightarrow> rat" where
  "pixel_amplification_ratio p =
     of_int (py_round (of_int (pl_planned_inference_pixels p)
        / of_int (max 1 (pl_width p * pl_height p)) * 10 ^ 6)) / 10 ^ 6"

definition plan_shard :: "shard_plan \<Rightarrow> int \<Rightarrow> detection_shard res" where
  "plan_shard p i =
     (if 0 \<le> i \<and> i < plan_shard_count p then py_nth (pl_shards p) i
      else Inl (IndexError (''Detection shard index is out of range: '' @ int_text i)))"

definition plan_tile :: "shard_plan \<Rightarrow> int \<Rightarrow> detection_tile res" where
  "plan_tile p i =
     (let columns = int (length (pl_x_starts p))
      in if columns = 0 then Inl ZeroDivisionError
         else rbind (py_nth (pl_x_starts p) (i mod columns)) (\<lambda>x.
              rbind (py_nth (pl_y_starts p) (i div columns)) (\<lambda>y.
                Inr \<lparr>tile_index = i, offset_x = x, offset_y = y,
                     tile_width = min (pl_tile_size p) (pl_width p - x),
                     tile_height = min (pl_tile_size p) (pl_height p - y)\<rparr>)))"

definition plan_tiles :: "shard_plan \<Rightarrow> int \<Rightarrow> detection_tile list res" where
  "plan_tiles p i =
     rbind (plan_shard p i) (\<lambda>s.
       rmap (plan_tile p) (py_range (first_tile_index s) (end_tile_index s) 1))"

definition plan_descriptor :: "shard_plan \<Rightarrow> dict" where
  "plan_descriptor p = fmap_of_list
     [(''schema_version'', PInt 1),
      (''width'', PInt (pl_width p)),
      (''height'', PInt (pl_height p)),
      (''tile_size'', PInt (pl_tile_size p)),
      (''overlap'', PInt (pl_overlap p)),
      (''tiles_per_shard'', PInt (pl_tiles_per_shard p)),
      (''tile_count'', PInt (plan_tile_count p)),
      (''shard_count'', PInt (plan_shard_count p)),
      (''planned_inference_pixels'', PInt (pl_planned_inference_pixels p)),
      (''pixel_amplification_ratio'', PFloat (pixel_amplification_ratio p)),
      (''checksum_sha256'', PStr (pl_checksum_sha256 p))]"

text \<open>\<open>math.ceil(a / b)\<close> for a positive divisor.\<close>

definition ceil_div :: "int \<Rightarrow> int \<Rightarrow> int" where
  "ceil_div a b = - ((- a) div b)"

definition plan_shards :: "int \<Rightarrow> int \<Rightarrow> detection_shard list" where
  "plan_shards tiles_per_shard tile_count =
     map (\<lambda>i. \<lparr>shard_index = i, first_tile_index = i * tiles_per_shard,
               shard_tile_count = min tiles_per_shard (tile_count - i * tiles_per_shard)\<rparr>)
       (py_range 0 (ceil_div tile_count tiles_per_shard) 1)"

definition shard_payload :: "detection_shard \<Rightarrow> pyval" where
  "shard_payload s = PDict (fmap_of_list
     [(''shard_index'', PInt (shard_index s)),
      (''first_tile_index'', PInt (first_tile_index s)),
      (''tile_count'', PInt (shard_tile_count s))])"

definition plan_payload ::
  "int \<Rightarrow> int \<Rightarrow> int \<Rightarrow> int \<Rightarrow> int \<Rightarrow> int list \<Rightarrow> int list \<Rightarrow> detection_shard list \<Rightarrow> pyval" where
  "plan_payload width height tile_size overlap tiles_per_shard x_starts y_starts shards =
     PDict (fmap_of_list
       [(''schema_version'', PInt 1), (''width'', PInt width), (''height'', PInt height),
        (''tile_size'', PInt tile_size), (''overlap'', PInt overlap),
        (''tiles_per_shard'', PInt tiles_per_shard),
        (''x_starts'', PList (map PInt x_starts)), (''y_starts'', PList (map PInt y_starts)),
        (''shards'', PList (map shard_payload shards))])"

definition axis_pixels :: "int \<Rightarrow> int \<Rightarrow> int list \<Rightarrow> int" where
  "axis_pixels tile_size full starts = sum_list (map (\<lambda>offset. min tile_size (full - offset)) starts)"

definition build_detection_shard_plan ::
  "(pyval \<Rightarrow> string) \<Rightarrow> int \<Rightarrow> int \<Rightarrow> int \<Rightarrow> int \<Rightarrow> int \<Rightarrow> int \<Rightarrow> int \<Rightarrow> shard_plan res" where
  "build_detection_shard_plan digest width height tile_size overlap
       tiles_per_shard maximum_tiles maximum_shards =
     (if width \<le> 0 \<or> height \<le> 0
        then Inl (ValueError ''Detection raster dimensions must be positive'')
      else if tiles_per_shard \<le> 0
        then Inl (ValueError ''Detection tiles per shard must be positive'')
      else if maximum_tiles \<le> 0 \<or> maximum_tiles > MAX_DETECTION_TILES
        then Inl (ValueError (''Detection maximum tiles must be between 1 and '' @ int_text MAX_DETECTION_TILES))
      else if maximum_shards \<le> 0 \<or> maximum_shards > MAX_DETECTION_SHARDS
        then Inl (ValueError (''Detection maximum shards must be between 1 and '' @ int_text MAX_DETECTION_SHARDS))
      else
        rbind (build_tile_starts width tile_size overlap) (\<lambda>x_starts.
        rbind (build_tile_starts height tile_size overlap) (\<lambda>y_starts.
          (let tile_count = int (length x_starts) * int (length y_starts);
               shard_count = ceil_div tile_count tiles_per_shard;
               shards = plan_shards tiles_per_shard tile_count
           in if tile_count > maximum_tiles
                then Inl (ValueError (''Detection plan exceeds its '' @ int_text maximum_tiles
                            @ '' tile safety limit''))
              else if shard_count > maximum_shards
                then Inl (ValueError (''Detection plan requires '' @ int_text shard_count
                            @ '' shards, above its '' @ int_text maximum_shards @ '' shard safety limit''))
              else Inr
                \<lparr>pl_width = width, pl_height = height, pl_tile_size = tile_size, pl_overlap = overlap,
                 pl_tiles_per_shard = tiles_per_shard, pl_x_starts = x_starts, pl_y_starts = y_starts,
                 pl_shards = shards,
                 pl_planned_inference_pixels =
                   axis_pixels tile_size width x_starts * axis_pixels tile_size height y_starts,
                 pl_checksum_sha256 =
                   digest (plan_payload width height tile_size overlap tiles_per_shard
                             x_starts y_starts shards)\<rparr>))))"

definition descriptor_keys :: "string list" where
  "descriptor_keys =
     [''schema_version'', ''width'', ''height'', ''tile_size'', ''overlap'', ''tiles_per_shard'',
      ''tile_count'', ''shard_count'', ''planned_inference_pixels'', ''pixel_amplification_ratio'',
      ''checksum_sha256'']"

definition descriptor_integer :: "dict \<Rightarrow> string \<Rightarrow> int res" where
  "descriptor_integer raw field =
     (case dget raw field of
        PInt i \<Rightarrow> Inr i
      | _ \<Rightarrow> Inl (ValueError (''Detection shard plan '' @ field @ '' must be an integer'')))"

definition parse_detection_shard_plan_descriptor :: "(pyval \<Rightarrow> string) \<Rightarrow> pyval \<Rightarrow> shard_plan res" where
  "parse_detection_shard_plan_descriptor digest payload =
     (case payload of
        PDict raw \<Rightarrow>
          (if fmdom raw \<noteq> fset_of_list descriptor_keys
             then Inl (ValueError ''Detection shard plan descriptor has invalid fields'')
           else if \<not> py_eq (dget raw ''schema_version'') (PInt 1)
             then Inl (ValueError ''Unsupported detection shard plan schema version'')
           else
             rbind (descriptor_integer raw ''width'') (\<lambda>width.
             rbind (descriptor_integer raw ''height'') (\<lambda>height.
             rbind (descriptor_integer raw ''tile_size'') (\<lambda>tile_size.
             rbind (descriptor_integer raw ''overlap'') (\<lambda>overlap.
             rbind (descriptor_integer raw ''tiles_per_shard'') (\<lambda>tiles_per_shard.
             rbind (build_detection_shard_plan digest width height tile_size overlap tiles_per_shard
                      MAX_DETECTION_TILES MAX_DETECTION_SHARDS) (\<lambda>plan.
               if dict_eq (plan_descriptor plan) raw then Inr plan
               else Inl (ValueError ''Detection shard plan descriptor is inconsistent''))))))))
      | _ \<Rightarrow> Inl (ValueError ''Detection shard plan descriptor has invalid fields''))"

subsection \<open>Ranges\<close>

lemma ceil_div_bounds:
  assumes "0 < b"
  shows "a \<le> ceil_div a b * b" and "ceil_div a b * b < a + b"
proof -
  have "(- a) div b * b + (- a) mod b = - a" by (rule div_mult_mod_eq)
  moreover have "ceil_div a b * b = - ((- a) div b * b)" by (simp add: ceil_div_def)
  moreover have "0 \<le> (- a) mod b" "(- a) mod b < b" using assms by simp_all
  ultimately show "a \<le> ceil_div a b * b" "ceil_div a b * b < a + b" by linarith+
qed

lemma ceil_div_le_iff:
  assumes "0 < b"
  shows "ceil_div a b \<le> k \<longleftrightarrow> a \<le> k * b"
proof
  assume "ceil_div a b \<le> k"
  then have "ceil_div a b * b \<le> k * b" using assms by (simp add: mult_right_mono)
  with ceil_div_bounds(1) [OF assms, of a] show "a \<le> k * b" by simp
next
  assume "a \<le> k * b"
  with ceil_div_bounds(2) [OF assms, of a] have "ceil_div a b * b < (k + 1) * b"
    by (simp add: distrib_right)
  with assms have "ceil_div a b < k + 1" by (simp only: mult_less_cancel_right_pos)
  then show "ceil_div a b \<le> k" by simp
qed

lemma py_range_unit: "py_range a b 1 = map (\<lambda>k. a + int k) [0..<nat (b - a)]"
  by (simp add: py_range_def)

lemma set_py_range_unit: "set (py_range a b 1) = {a..<b}"
proof -
  have "x \<in> (\<lambda>k. a + int k) ` {0..<nat (b - a)}" if "x \<in> {a..<b}" for x
    using that by (intro image_eqI [of _ _ "nat (x - a)"]) auto
  then show ?thesis by (auto simp: py_range_unit)
qed

lemma py_range_append:
  "a \<le> b \<Longrightarrow> b \<le> c \<Longrightarrow> py_range a b 1 @ py_range b c 1 = py_range a c 1"
proof -
  assume ab: "a \<le> b" and bc: "b \<le> c"
  have n: "nat (c - a) = nat (b - a) + nat (c - b)" using ab bc by simp
  have "map (\<lambda>k. b + int k) [0..<nat (c - b)] = map (\<lambda>k. a + int k) [nat (b - a)..<nat (b - a) + nat (c - b)]"
    by (rule nth_equalityI) (use ab in simp_all)
  then show ?thesis
    by (simp add: py_range_unit n upt_add_eq_append [of 0 "nat (b - a)" "nat (c - b)"])
qed

subsection \<open>Every axis is covered\<close>

text \<open>
  The windows of an axis: they begin at 0, ascend, stay inside, end at the far edge,
  and leave no gap between two neighbours.
\<close>

definition axis_plan :: "int \<Rightarrow> int \<Rightarrow> int list \<Rightarrow> bool" where
  "axis_plan full_size tile_size starts \<longleftrightarrow>
     starts \<noteq> [] \<and> hd starts = 0 \<and> sorted_wrt (<) starts
     \<and> (\<forall>s \<in> set starts. 0 \<le> s \<and> s < full_size)
     \<and> last starts + tile_size \<ge> full_size
     \<and> (\<forall>i. Suc i < length starts \<longrightarrow> starts ! Suc i \<le> starts ! i + tile_size)"

lemma py_range_facts:
  fixes n :: int
  assumes "0 < s" and "0 \<le> n"
  defines "r \<equiv> py_range 0 (n + 1) s"
  shows "length r = nat (n div s) + 1" and "\<And>i. i < length r \<Longrightarrow> r ! i = int i * s"
    and "last r = n div s * s"
proof -
  have "(n + 1 - 0 + s - 1) div s = n div s + 1" using assms(1) by simp
  moreover have "0 \<le> n div s" using assms by (simp add: pos_imp_zdiv_nonneg_iff)
  ultimately have r: "r = map (\<lambda>k. int k * s) [0..<nat (n div s) + 1]"
    by (simp add: r_def py_range_def nat_add_distrib)
  show "length r = nat (n div s) + 1" by (simp add: r)
  show "\<And>i. i < length r \<Longrightarrow> r ! i = int i * s" by (simp add: r del: upt_Suc)
  show "last r = n div s * s" using \<open>0 \<le> n div s\<close> by (simp add: r)
qed

lemma build_tile_starts_axis:
  assumes "build_tile_starts full_size tile_size overlap = Inr starts"
  shows "axis_plan full_size tile_size starts"
proof -
  from assms have pos: "0 < full_size" "0 < tile_size" "0 \<le> overlap" "overlap < tile_size"
    by (auto simp: build_tile_starts_def split: if_splits)
  show ?thesis
  proof (cases "full_size \<le> tile_size")
    case True
    with assms pos have "starts = [0]" by (simp add: build_tile_starts_def)
    with True pos show ?thesis by (simp add: axis_plan_def)
  next
    case False
    let ?stride = "tile_size - overlap" and ?n = "full_size - tile_size"
    define r where "r = py_range 0 (?n + 1) ?stride"
    have stride: "0 < ?stride" and n: "0 \<le> ?n" using pos False by simp_all
    note facts = py_range_facts [OF stride n, folded r_def]
    have ne: "r \<noteq> []" using facts(1) by auto
    have last_le: "last r \<le> ?n" and last_near: "?n < last r + ?stride"
      using facts(3) pos_mod_bound [OF stride, of ?n] pos_mod_sign [OF stride, of ?n]
        minus_mod_eq_mult_div [of ?n ?stride] by (simp_all add: algebra_simps)
    have hd0: "hd r = 0" using facts(2) [of 0] ne by (simp add: hd_conv_nth)
    have step: "r ! Suc i = r ! i + ?stride" if "Suc i < length r" for i
      using facts(2) [OF that] facts(2) [of i] that by (simp add: distrib_right)
    have below: "r ! i \<le> last r" if "i < length r" for i
    proof -
      have "i \<le> length r - 1" using that by simp
      then have "int i * ?stride \<le> int (length r - 1) * ?stride"
        using stride by (intro mult_right_mono) auto
      moreover have "last r = r ! (length r - 1)" using ne by (simp add: last_conv_nth)
      ultimately show ?thesis using facts(2) that ne by simp
    qed
    have inside: "0 \<le> r ! i" if "i < length r" for i using facts(2) that stride by simp
    have sorted: "sorted_wrt (<) r"
      unfolding sorted_wrt_iff_nth_less using facts(2) stride by simp
    have memb: "\<forall>x \<in> set r. 0 \<le> x \<and> x \<le> last r"
      using inside below by (auto simp: in_set_conv_nth)
    consider (Exact) "last r = ?n" "starts = r"
      | (Move) "last r \<noteq> ?n" "length r > 1" "0 < overlap" "?n - last r < overlap"
          "starts = butlast r @ [?n]"
      | (Add) "last r \<noteq> ?n" "starts = r @ [?n]"
      using assms pos False by (auto simp: build_tile_starts_def Let_def r_def split: if_splits)
    then show ?thesis
    proof cases
      case Exact
      then show ?thesis
        using ne hd0 sorted memb step pos False by (auto simp: axis_plan_def)
    next
      case Add
      have "sorted_wrt (<) starts" using Add sorted memb last_le by (fastforce simp: sorted_wrt_append)
      moreover have "starts ! Suc i \<le> starts ! i + tile_size" if "Suc i < length starts" for i
      proof (cases "Suc i < length r")
        case True
        then show ?thesis using step [OF True] pos by (simp add: Add nth_append)
      next
        case nl: False
        with that Add have i: "i = length r - 1" "i < length r" using ne by auto
        then have "starts ! i = last r" using ne by (simp add: Add nth_append last_conv_nth)
        moreover have "starts ! Suc i = ?n" using i ne by (simp add: Add nth_append)
        ultimately show ?thesis using last_near pos by simp
      qed
      ultimately show ?thesis
        using Add ne hd0 memb last_le n pos False by (fastforce simp: axis_plan_def)
    next
      case Move
      obtain xs where xs: "r = xs @ [last r]" using ne by (metis append_butlast_last_id)
      have bl: "butlast r = xs" by (subst xs) simp
      have len: "length r = Suc (length xs)" by (subst xs) simp
      have xs_ne: "xs \<noteq> []" using Move(2) len by auto
      have nth: "xs ! i = r ! i" if "i < length xs" for i by (subst xs) (simp add: nth_append that)
      have mem: "0 \<le> x \<and> x < last r" if "x \<in> set xs" for x
      proof -
        have "sorted_wrt (<) (xs @ [last r])" using sorted xs by metis
        with that have "x < last r" by (simp add: sorted_wrt_append)
        moreover have "x \<in> set r" by (subst xs) (simp add: that)
        ultimately show ?thesis using memb by blast
      qed
      have "hd starts = 0" using hd0 xs xs_ne by (metis Move(5) bl hd_append2)
      moreover have "sorted_wrt (<) starts"
      proof -
        have "sorted_wrt (<) xs" using sorted xs by (metis sorted_wrt_append)
        then show ?thesis using mem last_le by (fastforce simp: Move(5) bl sorted_wrt_append)
      qed
      moreover have "starts ! Suc i \<le> starts ! i + tile_size" if "Suc i < length starts" for i
      proof (cases "Suc i < length xs")
        case True
        then have "starts ! Suc i = r ! Suc i" "starts ! i = r ! i"
          by (simp_all add: Move(5) bl nth_append nth)
        then show ?thesis using step [of i] True len pos by simp
      next
        case nl: False
        with that have i: "Suc i = length xs" by (simp add: Move(5) bl)
        then have "starts ! i = r ! i" "starts ! Suc i = ?n"
          by (simp_all add: Move(5) bl nth_append nth)
        moreover have "r ! Suc i = last r" using i len ne by (simp add: last_conv_nth)
        ultimately show ?thesis using step [of i] i len Move(4) by simp
      qed
      ultimately show ?thesis
        using Move(5) bl mem last_le n pos False by (fastforce simp: axis_plan_def)
    qed
  qed
qed

lemma axis_plan_covers:
  assumes plan: "axis_plan full_size tile_size starts" and x: "0 \<le> x" "x < full_size"
  shows "\<exists>s \<in> set starts. s \<le> x \<and> x < s + min tile_size (full_size - s)"
proof -
  let ?P = "\<lambda>i. i < length starts \<and> starts ! i \<le> x"
  from plan have "starts \<noteq> []" "hd starts = 0" by (simp_all add: axis_plan_def)
  then have "?P 0" using x by (simp add: hd_conv_nth [symmetric])
  moreover have "\<forall>i. ?P i \<longrightarrow> i \<le> length starts" by simp
  ultimately obtain i where i: "?P i" "\<And>j. ?P j \<Longrightarrow> j \<le> i"
    using GreatestI_nat [of ?P 0 "length starts"] Greatest_le_nat [of ?P _ "length starts"] by blast
  have "x < starts ! i + tile_size"
  proof (cases "Suc i < length starts")
    case True
    with i(2) [of "Suc i"] have "x < starts ! Suc i" by force
    with plan True show ?thesis by (fastforce simp: axis_plan_def)
  next
    case False
    with i(1) have "i = length starts - 1" by arith
    with \<open>starts \<noteq> []\<close> have "starts ! i = last starts" by (simp add: last_conv_nth)
    with plan x show ?thesis by (simp add: axis_plan_def)
  qed
  with i(1) x have "starts ! i \<in> set starts" "starts ! i \<le> x"
    "x < starts ! i + min tile_size (full_size - starts ! i)" by auto
  then show ?thesis by blast
qed


subsection \<open>Shards partition the tiles\<close>

lemma build_plan_fields:
  assumes "build_detection_shard_plan digest width height tile_size overlap tps mt ms = Inr p"
  shows "build_tile_starts width tile_size overlap = Inr (pl_x_starts p)"
    and "build_tile_starts height tile_size overlap = Inr (pl_y_starts p)"
    and "pl_width p = width" "pl_height p = height" "pl_tile_size p = tile_size"
    and "pl_overlap p = overlap" "pl_tiles_per_shard p = tps"
    and "pl_shards p = plan_shards tps (plan_tile_count p)"
    and "0 < width" "0 < height" "0 < tps" "plan_tile_count p \<le> mt" "mt \<le> MAX_DETECTION_TILES"
    and "ceil_div (plan_tile_count p) tps \<le> ms" "ms \<le> MAX_DETECTION_SHARDS"
    and "pl_planned_inference_pixels p =
      axis_pixels tile_size width (pl_x_starts p) * axis_pixels tile_size height (pl_y_starts p)"
    and "pl_checksum_sha256 p = digest (plan_payload width height tile_size overlap tps
      (pl_x_starts p) (pl_y_starts p) (pl_shards p))"
  using assms
  by (auto simp: build_detection_shard_plan_def rbind_Inr_iff Let_def plan_tile_count_def split: if_splits)

lemma build_plan_axes:
  assumes "build_detection_shard_plan digest width height tile_size overlap tps mt ms = Inr p"
  shows "axis_plan (pl_width p) (pl_tile_size p) (pl_x_starts p)"
    and "axis_plan (pl_height p) (pl_tile_size p) (pl_y_starts p)"
  using build_plan_fields [OF assms] build_tile_starts_axis by auto

lemma build_plan_tile_count_pos:
  assumes "build_detection_shard_plan digest width height tile_size overlap tps mt ms = Inr p"
  shows "0 < plan_tile_count p"
  using build_plan_axes [OF assms] by (simp add: plan_tile_count_def axis_plan_def)

lemma plan_shards_prefix:
  assumes tps: "0 < tps" and "int n \<le> ceil_div tiles tps"
  shows "concat (map (\<lambda>s. py_range (first_tile_index s) (end_tile_index s) 1)
      (take n (plan_shards tps tiles))) = py_range 0 (min tiles (int n * tps)) 1"
  using assms(2)
proof (induction n)
  case 0
  then show ?case by (simp add: py_range_unit)
next
  case (Suc n)
  let ?r = "py_range 0 (ceil_div tiles tps) 1"
  let ?s = "\<lparr>shard_index = int n, first_tile_index = int n * tps,
             shard_tile_count = min tps (tiles - int n * tps)\<rparr>"
  from Suc.prems have len: "n < length ?r" by (simp add: py_range_unit)
  then have "?r ! n = int n" by (simp add: py_range_unit)
  then have nth: "plan_shards tps tiles ! n = ?s" "n < length (plan_shards tps tiles)"
    using len by (simp_all add: plan_shards_def)
  have below: "int n * tps < tiles"
  proof -
    have "\<not> ceil_div tiles tps \<le> int n" using Suc.prems by simp
    then show ?thesis using ceil_div_le_iff [OF tps, of tiles "int n"] by simp
  qed
  have "take (Suc n) (plan_shards tps tiles) = take n (plan_shards tps tiles) @ [?s]"
    using nth by (simp add: take_Suc_conv_app_nth)
  then have "concat (map (\<lambda>s. py_range (first_tile_index s) (end_tile_index s) 1)
      (take (Suc n) (plan_shards tps tiles)))
    = py_range 0 (int n * tps) 1 @ py_range (int n * tps) (int n * tps + min tps (tiles - int n * tps)) 1"
    using Suc below by (simp add: end_tile_index_def)
  also have "\<dots> = py_range 0 (int n * tps + min tps (tiles - int n * tps)) 1"
    using below tps by (intro py_range_append) auto
  also have "int n * tps + min tps (tiles - int n * tps) = min tiles (int (Suc n) * tps)"
    by (simp add: min_def distrib_right)
  finally show ?case .
qed

lemma plan_shards_partition:
  assumes "0 < tps" and "0 \<le> tiles"
  shows "concat (map (\<lambda>s. py_range (first_tile_index s) (end_tile_index s) 1) (plan_shards tps tiles))
    = py_range 0 tiles 1"
proof -
  have nonneg: "0 \<le> ceil_div tiles tps"
    using assms ceil_div_le_iff [OF assms(1), of tiles "- 1"] by simp
  have len: "length (plan_shards tps tiles) = nat (ceil_div tiles tps)"
    by (simp add: plan_shards_def py_range_unit)
  have "min tiles (int (nat (ceil_div tiles tps)) * tps) = tiles"
    using nonneg ceil_div_bounds(1) [OF assms(1), of tiles] by simp
  with plan_shards_prefix [of tps "nat (ceil_div tiles tps)" tiles] assms(1) nonneg len
  show ?thesis by simp
qed

lemma plan_shards_sizes:
  assumes "0 < tps" and "s \<in> set (plan_shards tps tiles)"
  shows "1 \<le> shard_tile_count s \<and> shard_tile_count s \<le> tps"
proof -
  from assms(2) obtain i where i: "0 \<le> i" "i < ceil_div tiles tps"
    and s: "shard_tile_count s = min tps (tiles - i * tps)"
    by (auto simp: plan_shards_def set_py_range_unit)
  then have "i * tps < tiles" using ceil_div_le_iff [OF assms(1), of tiles i] by simp
  with s assms(1) show ?thesis by simp
qed

lemma plan_shards_nth:
  "i < length (plan_shards tps tiles) \<Longrightarrow> shard_index (plan_shards tps tiles ! i) = int i"
  by (simp add: plan_shards_def py_range_unit)


subsection \<open>The tiles of a plan\<close>

definition tile_at :: "shard_plan \<Rightarrow> int \<Rightarrow> detection_tile" where
  "tile_at p i =
     (let columns = int (length (pl_x_starts p));
          x = pl_x_starts p ! nat (i mod columns);
          y = pl_y_starts p ! nat (i div columns)
      in \<lparr>tile_index = i, offset_x = x, offset_y = y,
          tile_width = min (pl_tile_size p) (pl_width p - x),
          tile_height = min (pl_tile_size p) (pl_height p - y)\<rparr>)"

lemma plan_tile_in_range:
  assumes "0 \<le> i" and "i < plan_tile_count p"
  shows "plan_tile p i = Inr (tile_at p i)"
proof -
  let ?c = "int (length (pl_x_starts p))"
  from assms have c: "0 < ?c" by (auto simp: plan_tile_count_def)
  have "i div ?c < int (length (pl_y_starts p))"
  proof (rule ccontr)
    assume "\<not> i div ?c < int (length (pl_y_starts p))"
    then have "?c * int (length (pl_y_starts p)) \<le> ?c * (i div ?c)" using c by simp
    also have "\<dots> \<le> i" using minus_mod_eq_mult_div [of i ?c] pos_mod_sign [OF c, of i] by linarith
    finally show False using assms(2) by (simp add: plan_tile_count_def)
  qed
  moreover have "0 \<le> i div ?c" using assms(1) c by (simp add: pos_imp_zdiv_nonneg_iff)
  ultimately show ?thesis using c by (simp add: plan_tile_def tile_at_def py_nth_Inr Let_def)
qed

lemma row_major:
  "map (\<lambda>k. f (xs ! (k mod length xs)) (ys ! (k div length xs))) [0..<length xs * length ys]
   = concat (map (\<lambda>y. map (\<lambda>x. f x y) xs) ys)"
proof (induction ys rule: rev_induct)
  case (snoc y ys)
  let ?c = "length xs" and ?n = "length ys"
  show ?case
  proof (cases "xs = []")
    case False
    have split: "[0..<?c * length (ys @ [y])] = [0..<?c * ?n] @ map (\<lambda>k. k + ?c * ?n) [0..<?c]"
      using upt_add_eq_append [of 0 "?c * ?n" ?c] by (simp add: map_add_upt add.commute)
    have "map (\<lambda>k. f (xs ! (k mod ?c)) ((ys @ [y]) ! (k div ?c))) [0..<?c * ?n]
        = map (\<lambda>k. f (xs ! (k mod ?c)) (ys ! (k div ?c))) [0..<?c * ?n]"
      using False by (auto simp: nth_append less_mult_imp_div_less mult.commute)
    moreover have "map (\<lambda>k. f (xs ! (k mod ?c)) ((ys @ [y]) ! (k div ?c))) (map (\<lambda>k. k + ?c * ?n) [0..<?c])
        = map (\<lambda>x. f x y) xs"
      by (rule nth_equalityI) (use False in \<open>simp_all add: nth_append\<close>)
    ultimately show ?thesis
      unfolding split map_append concat_append snoc.IH [symmetric] by simp
  qed simp
qed simp

lemma tile_at_offsets:
  assumes "pl_x_starts p \<noteq> []"
  shows "map (\<lambda>i. (offset_x (tile_at p i), offset_y (tile_at p i))) (py_range 0 (plan_tile_count p) 1)
    = concat (map (\<lambda>y. map (\<lambda>x. (x, y)) (pl_x_starts p)) (pl_y_starts p))"
proof -
  let ?c = "length (pl_x_starts p)"
  have n: "nat (plan_tile_count p) = ?c * length (pl_y_starts p)"
    by (simp add: plan_tile_count_def nat_mult_distrib)
  have "nat (int k mod int ?c) = k mod ?c" "nat (int k div int ?c) = k div ?c" for k
    by (simp_all add: zmod_int [symmetric] zdiv_int [symmetric])
  then show ?thesis
    using row_major [of "\<lambda>x y. (x, y)" "pl_x_starts p" "pl_y_starts p"]
    by (simp add: py_range_unit n tile_at_def Let_def o_def)
qed

text \<open>The tiles of all shards, in shard order.\<close>

definition all_tiles :: "shard_plan \<Rightarrow> detection_tile list list res" where
  "all_tiles p = rmap (plan_tiles p) (py_range 0 (plan_shard_count p) 1)"

lemma all_tiles_built:
  assumes built: "build_detection_shard_plan digest width height tile_size overlap tps mt ms = Inr p"
  shows "all_tiles p = Inr (map (\<lambda>s. map (tile_at p) (py_range (first_tile_index s) (end_tile_index s) 1)) (pl_shards p))"
proof -
  note fields = build_plan_fields [OF built]
  let ?g = "\<lambda>s. map (tile_at p) (py_range (first_tile_index s) (end_tile_index s) 1)"
  have shards: "concat (map (\<lambda>s. py_range (first_tile_index s) (end_tile_index s) 1) (pl_shards p))
      = py_range 0 (plan_tile_count p) 1"
    using plan_shards_partition [OF fields(11), of "plan_tile_count p"] build_plan_tile_count_pos [OF built]
    by (simp add: fields(8))
  have inrange: "0 \<le> i \<and> i < plan_tile_count p"
    if "s \<in> set (pl_shards p)" "i \<in> set (py_range (first_tile_index s) (end_tile_index s) 1)" for s i
  proof -
    have "i \<in> set (concat (map (\<lambda>s. py_range (first_tile_index s) (end_tile_index s) 1) (pl_shards p)))"
      using that by auto
    then show ?thesis by (simp only: shards set_py_range_unit) simp
  qed
  have "plan_tiles p i = Inr (?g (pl_shards p ! nat i))" if "i \<in> set (py_range 0 (plan_shard_count p) 1)" for i
  proof -
    from that have i: "0 \<le> i" "i < plan_shard_count p" by (simp_all add: set_py_range_unit)
    then have mem: "pl_shards p ! nat i \<in> set (pl_shards p)" by (simp add: plan_shard_count_def)
    have "plan_shard p i = Inr (pl_shards p ! nat i)"
      using i by (simp add: plan_shard_def plan_shard_count_def py_nth_Inr)
    with inrange [OF mem] show ?thesis
      by (simp add: plan_tiles_def rmap_Inr [where g = "tile_at p"] plan_tile_in_range)
  qed
  then have "all_tiles p = Inr (map (\<lambda>i. ?g (pl_shards p ! nat i)) (py_range 0 (plan_shard_count p) 1))"
    unfolding all_tiles_def by (rule rmap_Inr)
  also have "map (\<lambda>i. ?g (pl_shards p ! nat i)) (py_range 0 (plan_shard_count p) 1) = map ?g (pl_shards p)"
    by (rule nth_equalityI) (simp_all add: py_range_unit plan_shard_count_def)
  finally show ?thesis .
qed

lemma all_tiles_concat:
  assumes built: "build_detection_shard_plan digest width height tile_size overlap tps mt ms = Inr p"
    and tiles: "all_tiles p = Inr tss"
  shows "concat tss = map (tile_at p) (py_range 0 (plan_tile_count p) 1)"
proof -
  note fields = build_plan_fields [OF built]
  have "concat tss = map (tile_at p)
      (concat (map (\<lambda>s. py_range (first_tile_index s) (end_tile_index s) 1) (pl_shards p)))"
    using all_tiles_built [OF built] tiles by (simp add: map_concat o_def)
  then show ?thesis
    using plan_shards_partition [OF fields(11), of "plan_tile_count p"] build_plan_tile_count_pos [OF built]
    by (simp add: fields(8))
qed

subsection \<open>Descriptors\<close>

lemma build_plan_relax:
  assumes "build_detection_shard_plan digest width height tile_size overlap tps mt ms = Inr p"
  shows "build_detection_shard_plan digest width height tile_size overlap tps
    MAX_DETECTION_TILES MAX_DETECTION_SHARDS = Inr p"
proof -
  note fields = build_plan_fields [OF assms]
  have "0 < MAX_DETECTION_TILES" "0 < MAX_DETECTION_SHARDS"
    by (simp_all add: MAX_DETECTION_TILES_def MAX_DETECTION_SHARDS_def)
  with fields show ?thesis
    by (simp add: build_detection_shard_plan_def plan_tile_count_def Let_def)
qed

lemma descriptor_lookups:
  "dget (plan_descriptor p) ''schema_version'' = PInt 1"
  "dget (plan_descriptor p) ''width'' = PInt (pl_width p)"
  "dget (plan_descriptor p) ''height'' = PInt (pl_height p)"
  "dget (plan_descriptor p) ''tile_size'' = PInt (pl_tile_size p)"
  "dget (plan_descriptor p) ''overlap'' = PInt (pl_overlap p)"
  "dget (plan_descriptor p) ''tiles_per_shard'' = PInt (pl_tiles_per_shard p)"
  "fmdom (plan_descriptor p) = fset_of_list descriptor_keys"
  by (simp_all add: plan_descriptor_def dget_def fmlookup_of_list descriptor_keys_def)

lemma parse_descriptor_Inr:
  "parse_detection_shard_plan_descriptor digest payload = Inr p \<Longrightarrow>
   \<exists>raw. payload = PDict raw \<and> dict_eq (plan_descriptor p) raw
     \<and> build_detection_shard_plan digest (pl_width p) (pl_height p) (pl_tile_size p) (pl_overlap p)
         (pl_tiles_per_shard p) MAX_DETECTION_TILES MAX_DETECTION_SHARDS = Inr p"
proof -
  assume parse: "parse_detection_shard_plan_descriptor digest payload = Inr p"
  then obtain raw where raw: "payload = PDict raw"
    by (simp add: parse_detection_shard_plan_descriptor_def split: pyval.splits)
  with parse obtain w h t ov tps where
    built: "build_detection_shard_plan digest w h t ov tps MAX_DETECTION_TILES MAX_DETECTION_SHARDS = Inr p"
    and eq: "dict_eq (plan_descriptor p) raw"
    by (auto simp: parse_detection_shard_plan_descriptor_def rbind_Inr_iff split: if_splits)
  from build_plan_fields [OF built] built eq raw show ?thesis by simp
qed

lemma parse_built_descriptor:
  assumes "build_detection_shard_plan digest width height tile_size overlap tps mt ms = Inr p"
  shows "parse_detection_shard_plan_descriptor digest (PDict (plan_descriptor p)) = Inr p"
  using build_plan_relax [OF assms] build_plan_fields [OF assms]
  by (simp add: parse_detection_shard_plan_descriptor_def descriptor_lookups descriptor_integer_def)

subsection \<open>Properties of shard plans\<close>

text \<open>The shards of a plan enumerate the grid of windows in row-major order, every
  window exactly once, none of them empty or above the configured size.\<close>

theorem shards_enumerate_grid:
  assumes "build_detection_shard_plan digest width height tile_size overlap tps mt ms = Inr p"
  shows "\<exists>tss. all_tiles p = Inr tss
    \<and> map tile_index (concat tss) = py_range 0 (plan_tile_count p) 1
    \<and> map (\<lambda>t. (offset_x t, offset_y t)) (concat tss)
        = concat (map (\<lambda>y. map (\<lambda>x. (x, y)) (pl_x_starts p)) (pl_y_starts p))
    \<and> list_all (\<lambda>s. 1 \<le> shard_tile_count s \<and> shard_tile_count s \<le> tps) (pl_shards p)"
proof -
  note fields = build_plan_fields [OF assms]
  obtain tss where tss: "all_tiles p = Inr tss" using all_tiles_built [OF assms] by blast
  have ne: "pl_x_starts p \<noteq> []" using build_plan_axes [OF assms] by (simp add: axis_plan_def)
  have "list_all (\<lambda>s. 1 \<le> shard_tile_count s \<and> shard_tile_count s \<le> tps) (pl_shards p)"
    using plan_shards_sizes [OF fields(11)] by (simp add: list_all_iff fields(8))
  moreover have "map tile_index (concat tss) = py_range 0 (plan_tile_count p) 1"
    by (simp add: all_tiles_concat [OF assms tss] tile_at_def Let_def o_def)
  moreover have "map (\<lambda>t. (offset_x t, offset_y t)) (concat tss)
      = concat (map (\<lambda>y. map (\<lambda>x. (x, y)) (pl_x_starts p)) (pl_y_starts p))"
    using tile_at_offsets [OF ne] by (simp add: all_tiles_concat [OF assms tss] o_def)
  ultimately show ?thesis using tss by blast
qed

lemma tile_at_member:
  assumes x: "x \<in> set (pl_x_starts p)" and y: "y \<in> set (pl_y_starts p)"
  shows "\<exists>i \<in> set (py_range 0 (plan_tile_count p) 1). offset_x (tile_at p i) = x \<and> offset_y (tile_at p i) = y"
proof -
  have "pl_x_starts p \<noteq> []" using x by auto
  note tile_at_offsets [OF this]
  moreover have "(x, y) \<in> set (concat (map (\<lambda>y. map (\<lambda>x. (x, y)) (pl_x_starts p)) (pl_y_starts p)))"
    using x y by auto
  ultimately have "(x, y) \<in> set (map (\<lambda>i. (offset_x (tile_at p i), offset_y (tile_at p i)))
      (py_range 0 (plan_tile_count p) 1))" by metis
  then show ?thesis by auto
qed


text \<open>The planned inference pixels are the pixels of all windows together.\<close>

theorem planned_pixels_are_tile_pixels:
  assumes "build_detection_shard_plan digest width height tile_size overlap tps mt ms = Inr p"
  shows "\<exists>tss. all_tiles p = Inr tss
    \<and> pl_planned_inference_pixels p = sum_list (map (\<lambda>t. tile_width t * tile_height t) (concat tss))"
proof -
  note fields = build_plan_fields [OF assms]
  obtain tss where tss: "all_tiles p = Inr tss" using all_tiles_built [OF assms] by blast
  let ?area = "\<lambda>(x, y). min tile_size (width - x) * min tile_size (height - y)"
  have ne: "pl_x_starts p \<noteq> []" using build_plan_axes [OF assms] by (simp add: axis_plan_def)
  have "map (\<lambda>t. tile_width t * tile_height t) (concat tss)
      = map ?area (map (\<lambda>i. (offset_x (tile_at p i), offset_y (tile_at p i))) (py_range 0 (plan_tile_count p) 1))"
    by (simp add: all_tiles_concat [OF assms tss] tile_at_def Let_def fields)
  also have "\<dots> = map ?area (concat (map (\<lambda>y. map (\<lambda>x. (x, y)) (pl_x_starts p)) (pl_y_starts p)))"
    by (simp only: tile_at_offsets [OF ne])
  finally have "sum_list (map (\<lambda>t. tile_width t * tile_height t) (concat tss))
      = sum_list (map ?area (concat (map (\<lambda>y. map (\<lambda>x. (x, y)) (pl_x_starts p)) (pl_y_starts p))))" by simp
  also have "\<dots> = axis_pixels tile_size width (pl_x_starts p) * axis_pixels tile_size height (pl_y_starts p)"
  proof -
    have "sum_list (map ?area (concat (map (\<lambda>y. map (\<lambda>x. (x, y)) xs) ys)))
        = axis_pixels tile_size width xs * axis_pixels tile_size height ys" for xs ys
      by (induction ys) (simp_all add: axis_pixels_def o_def sum_list_mult_const distrib_left)
    then show ?thesis .
  qed
  finally show ?thesis using tss by (simp add: fields(16))
qed


text \<open>A stored descriptor brings its plan back: parsing the descriptor of any plan the
  builder accepts, under whatever limits, gives exactly that plan.\<close>

theorem descriptor_roundtrip:
  assumes "build_detection_shard_plan digest width height tile_size overlap tps mt ms = Inr p"
  shows "parse_detection_shard_plan_descriptor digest (PDict (plan_descriptor p)) = Inr p"
  using assms by (rule parse_built_descriptor)

text \<open>An untrusted descriptor is accepted only when every field agrees with the plan
  rebuilt from its dimensions, the digest included, and the plan keeps the tile and
  shard safety limits.\<close>

theorem parsed_descriptor_is_honest:
  assumes "parse_detection_shard_plan_descriptor digest payload = Inr p"
  shows "(\<exists>raw. payload = PDict raw \<and> dict_eq (plan_descriptor p) raw)
    \<and> pl_checksum_sha256 p = digest (plan_payload (pl_width p) (pl_height p) (pl_tile_size p)
         (pl_overlap p) (pl_tiles_per_shard p) (pl_x_starts p) (pl_y_starts p) (pl_shards p))
    \<and> 1 \<le> plan_tile_count p \<and> plan_tile_count p \<le> MAX_DETECTION_TILES
    \<and> 1 \<le> plan_shard_count p \<and> plan_shard_count p \<le> MAX_DETECTION_SHARDS"
proof -
  from parse_descriptor_Inr [OF assms] obtain raw where raw: "payload = PDict raw" "dict_eq (plan_descriptor p) raw"
    and built: "build_detection_shard_plan digest (pl_width p) (pl_height p) (pl_tile_size p) (pl_overlap p)
         (pl_tiles_per_shard p) MAX_DETECTION_TILES MAX_DETECTION_SHARDS = Inr p" by blast
  note fields = build_plan_fields [OF built]
  have pos: "0 < plan_tile_count p" by (rule build_plan_tile_count_pos [OF built])
  have "\<not> ceil_div (plan_tile_count p) (pl_tiles_per_shard p) \<le> 0"
    using ceil_div_le_iff [OF fields(11), of "plan_tile_count p" 0] pos by simp
  moreover have "plan_shard_count p = int (nat (ceil_div (plan_tile_count p) (pl_tiles_per_shard p)))"
    unfolding plan_shard_count_def by (subst fields(8)) (simp add: plan_shards_def py_range_unit)
  ultimately show ?thesis using raw fields(12,14,17) pos by simp
qed

subsection \<open>A small raster\<close>

text \<open>A 10 by 7 raster in windows of 4 with overlap 1, two windows to a shard.\<close>

definition example_plan :: shard_plan where
  "example_plan = \<lparr>pl_width = 10, pl_height = 7, pl_tile_size = 4, pl_overlap = 1,
     pl_tiles_per_shard = 2, pl_x_starts = [0, 3, 6], pl_y_starts = [0, 3],
     pl_shards = [\<lparr>shard_index = 0, first_tile_index = 0, shard_tile_count = 2\<rparr>,
                  \<lparr>shard_index = 1, first_tile_index = 2, shard_tile_count = 2\<rparr>,
                  \<lparr>shard_index = 2, first_tile_index = 4, shard_tile_count = 2\<rparr>],
     pl_planned_inference_pixels = 96, pl_checksum_sha256 = ''d''\<rparr>"

lemma example_plan_built:
  "build_detection_shard_plan (\<lambda>_. ''d'') 10 7 4 1 2 1000 256 = Inr example_plan"
  by code_simp

theorem shards_enumerate_grid_witness:
  "\<exists>tss. all_tiles example_plan = Inr tss
    \<and> map tile_index (concat tss) = py_range 0 (plan_tile_count example_plan) 1
    \<and> map (\<lambda>t. (offset_x t, offset_y t)) (concat tss)
        = concat (map (\<lambda>y. map (\<lambda>x. (x, y)) (pl_x_starts example_plan)) (pl_y_starts example_plan))
    \<and> list_all (\<lambda>s. 1 \<le> shard_tile_count s \<and> shard_tile_count s \<le> 2) (pl_shards example_plan)"
  by (rule shards_enumerate_grid [OF example_plan_built])


theorem planned_pixels_are_tile_pixels_witness:
  "\<exists>tss. all_tiles example_plan = Inr tss
    \<and> pl_planned_inference_pixels example_plan = sum_list (map (\<lambda>t. tile_width t * tile_height t) (concat tss))"
  by (rule planned_pixels_are_tile_pixels [OF example_plan_built])

theorem descriptor_roundtrip_witness:
  "parse_detection_shard_plan_descriptor (\<lambda>_. ''d'') (PDict (plan_descriptor example_plan)) = Inr example_plan"
  by (rule descriptor_roundtrip [OF example_plan_built])

theorem parsed_descriptor_is_honest_witness:
  "(\<exists>raw. PDict (plan_descriptor example_plan) = PDict raw \<and> dict_eq (plan_descriptor example_plan) raw)
    \<and> pl_checksum_sha256 example_plan = ''d''
    \<and> 1 \<le> plan_tile_count example_plan \<and> plan_tile_count example_plan \<le> MAX_DETECTION_TILES
    \<and> 1 \<le> plan_shard_count example_plan \<and> plan_shard_count example_plan \<le> MAX_DETECTION_SHARDS"
  by (rule parsed_descriptor_is_honest [OF parse_built_descriptor [OF example_plan_built]])

end
