(* ===== verification/AnalysisStages.thy ===== *)
theory AnalysisStages
  imports PhaseDag DetectionSharding
begin

text \<open>
  Durable analysis attempts run by detection stages (\<open>shared/analysis_stages.py\<close>): the link
  between a stage run and its analysis, the creation of an attempt, the projection of a run
  on the analysis operators see, cancellation, and the publication of map features.

  Each operation reads the clock once. Coordinates are JSON arrays; the text of a number is
  the parameter \<open>w_coordinate\<close>.
\<close>

subsection \<open>Linked analyses\<close>

definition linked_analysis :: "db \<Rightarrow> stage_run \<Rightarrow> analysis option res" where
  "linked_analysis d stage =
     (case sr_analysis_run_id stage of
        None \<Rightarrow> Inr None
      | Some i \<Rightarrow>
          rbind (one_row (filter (\<lambda>a. ar_id a = i \<and> ar_mission_id a = sr_mission_id stage) (db_analyses d))) (\<lambda>a.
            if sr_stage stage \<noteq> Detection
            then Inl (ValueError ''An analysis must use the detection stage'')
            else Inr (Some a)))"

definition current_analysis_attempt :: "analysis \<Rightarrow> stage_run \<Rightarrow> bool" where
  "current_analysis_attempt a stage \<longleftrightarrow>
     py_eq (dget (sr_parameters stage) ''analysis_generation'') (PInt (ar_retry_count a))"

subsection \<open>Creating an attempt\<close>

definition analysis_parameters :: "mission \<Rightarrow> analysis \<Rightarrow> dict" where
  "analysis_parameters mission a = fmap_of_list
     [(''dag_version'', PInt STAGE_DAG_VERSION),
      (''work_drive'', dget (dict_or (m_params mission)) ''work_drive''),
      (''analysis_generation'', PInt (ar_retry_count a)),
      (''ai'', PDict (fmap_of_list
         [(''backend'', PStr (ar_backend a)), (''model_variant'', opt_str (ar_model_variant a)),
          (''classes'', ar_classes a), (''confidence'', PFloat (ar_confidence a)),
          (''confidence_policy'', PStr ''strict''), (''sam_prompt'', opt_str (ar_prompt a)),
          (''tile_size'', PInt (ar_tile_size a))]))]"

definition detection_attempts :: "db \<Rightarrow> mission \<Rightarrow> int list" where
  "detection_attempts d mission =
     map sr_attempt (filter (\<lambda>r. sr_mission_id r = m_id mission \<and> sr_stage r = Detection) (db_runs d))"

definition next_attempt :: "int list \<Rightarrow> int" where
  "next_attempt attempts = (case attempts of [] \<Rightarrow> 0 | a # as \<Rightarrow> foldr max as a) + 1"

definition reset_analysis :: "instant \<Rightarrow> analysis \<Rightarrow> analysis" where
  "reset_analysis now a =
     a\<lparr>ar_status := AnalysisQueued, ar_phase := PhaseQueued, ar_progress := 0, ar_total_tiles := 0,
       ar_tiles_completed := 0, ar_detection_count := 0, ar_error_message := None,
       ar_result_s3_key := PNone, ar_started_at := None, ar_completed_at := None, ar_heartbeat_at := now\<rparr>"

definition create_analysis_stage ::
  "world \<Rightarrow> instant \<Rightarrow> mission \<Rightarrow> analysis \<Rightarrow> artifact \<Rightarrow> db \<Rightarrow> (stage_run \<times> db) res" where
  "create_analysis_stage w now mission a raster d =
     (if ma_mission_id raster \<noteq> m_id mission \<or> ma_kind raster \<noteq> ''raster_product_workspace''
      then Inl (ValueError ''Analysis requires a raster artifact from the same mission'')
      else
        rbind (artifact_stage_run d raster) (\<lambda>producer.
          if sr_stage producer \<noteq> Rasterization \<or> sr_status producer \<noteq> Succeeded
          then Inl (ValueError ''Analysis requires a successfully published raster stage'')
          else
            (let attempt = next_attempt (detection_attempts d mission);
                 parameters = analysis_parameters mission a;
                 upstream = [ma_artifact_id raster]
             in rbind (resource_class_for_stage Detection parameters) (\<lambda>cls.
                  (case add_stage_run w now (m_id mission) (Some (ar_id a)) (Some ''QUEUED'')
                      \<lparr>sp_stage = Detection, sp_attempt = attempt, sp_status = Queued,
                       sp_parameters = parameters, sp_upstream_artifact_ids = upstream,
                       sp_idempotency_key = stage_idempotency_key w (m_vol_id mission) Detection attempt
                         parameters upstream (m_organization_id mission),
                       sp_resource_class = cls\<rparr> d of
                     (stage, d1) \<Rightarrow> Inr (stage, put_analysis (reset_analysis now a) d1))))))"

subsection \<open>Projection of a run on its analysis\<close>

definition int_of_value :: "pyval \<Rightarrow> int res" where
  "int_of_value v =
     (case py_int v of
        Some i \<Rightarrow> Inr i
      | None \<Rightarrow> (case v of PStr _ \<Rightarrow> Inl (ValueError ''invalid literal for int()'')
                 | _ \<Rightarrow> Inl (TypeError ''int() argument must be a string or a number'')))"

definition metric_int :: "dict \<Rightarrow> string \<Rightarrow> int \<Rightarrow> int res" where
  "metric_int metrics key fallback =
     (case fmlookup metrics key of None \<Rightarrow> Inr fallback | Some v \<Rightarrow> int_of_value v)"

fun projected_status :: "run_status \<Rightarrow> analysis_status" where
  "projected_status Succeeded = AnalysisCompleted"
| "projected_status Blocked = AnalysisQueued"
| "projected_status Queued = AnalysisQueued"
| "projected_status Running = AnalysisRunning"
| "projected_status Failed = AnalysisFailed"
| "projected_status Cancelled = AnalysisCancelled"

fun projected_phase :: "run_status \<Rightarrow> analysis_phase" where
  "projected_phase Succeeded = PhaseCompleted"
| "projected_phase Failed = PhaseFinalizationFailed"
| "projected_phase Cancelled = PhaseCancelled"
| "projected_phase Running = PhaseDetecting"
| "projected_phase Blocked = PhaseQueued"
| "projected_phase Queued = PhaseQueued"

definition receipt_tiles :: "db \<Rightarrow> stage_run \<Rightarrow> shard_plan \<Rightarrow> int" where
  "receipt_tiles d stage plan =
     sum_list (map dr_tile_count (filter (\<lambda>r. dr_stage_run_id r = sr_id stage
        \<and> dr_plan_checksum_sha256 r = pl_checksum_sha256 plan) (db_receipts d)))"

definition active_status :: "run_status \<Rightarrow> bool" where
  "active_status s \<longleftrightarrow> s = Queued \<or> s = Running"

text \<open>The counters of a run that waits for shards, from its receipts.\<close>

definition shard_progress :: "world \<Rightarrow> db \<Rightarrow> stage_run \<Rightarrow> stage_run res" where
  "shard_progress w d stage =
     (let descriptor = dget (sr_provenance stage) ''detection_shard_plan''
      in if active_status (sr_status stage) \<and> descriptor \<noteq> PNone
         then rbind (parse_detection_shard_plan_descriptor (w_digest w) descriptor) (\<lambda>plan.
                (let completed = receipt_tiles d stage plan;
                     tiles = plan_tile_count plan
                 in Inr (stage\<lparr>sr_quality_metrics := dict_merge (sr_quality_metrics stage)
                           (fmap_of_list [(''tile_count'', PInt tiles),
                                          (''tiles_completed'', PInt (min completed tiles))]),
                         sr_progress := min 99 (py_round (of_int (100 * completed) / of_int tiles))\<rparr>)))
         else Inr stage)"

definition project_analysis :: "instant \<Rightarrow> stage_run \<Rightarrow> analysis \<Rightarrow> analysis res" where
  "project_analysis now stage a =
     (let metrics = sr_quality_metrics stage
      in rbind (metric_int metrics ''tile_count'' (ar_total_tiles a)) (\<lambda>total_tiles.
         rbind (metric_int metrics ''tiles_completed'' (ar_tiles_completed a)) (\<lambda>tiles_completed.
         rbind (if sr_status stage = Succeeded then metric_int metrics ''geolocated_feature_count'' 0
                else Inr (ar_detection_count a)) (\<lambda>detections.
           Inr (a\<lparr>ar_status := projected_status (sr_status stage),
                  ar_phase := projected_phase (sr_status stage),
                  ar_progress := sr_progress stage,
                  ar_error_message := (if sr_status stage = Failed then sr_error_message stage else None),
                  ar_heartbeat_at := (case sr_heartbeat_at stage of Some t \<Rightarrow> t | None \<Rightarrow> now),
                  ar_started_at := sr_started_at stage,
                  ar_completed_at := sr_completed_at stage,
                  ar_total_tiles := total_tiles,
                  ar_tiles_completed := (if sr_status stage = Succeeded then total_tiles else tiles_completed),
                  ar_detection_count := detections\<rparr>)))))"

definition sync_analysis_stage :: "world \<Rightarrow> instant \<Rightarrow> stage_run \<Rightarrow> db \<Rightarrow> (stage_run \<times> db) res" where
  "sync_analysis_stage w now stage d =
     rbind (linked_analysis d stage) (\<lambda>linked.
       (case linked of
          None \<Rightarrow> Inr (stage, d)
        | Some a \<Rightarrow>
            (if \<not> current_analysis_attempt a stage then Inr (stage, d)
             else
               rbind (shard_progress w d stage) (\<lambda>stage'.
               rbind (project_analysis now stage' a) (\<lambda>a'.
                 Inr (stage', put_analysis a' (put_run stage' d)))))))"

subsection \<open>Cancellation\<close>

definition analysis_stages :: "db \<Rightarrow> analysis \<Rightarrow> stage_run list" where
  "analysis_stages d a =
     sort_key (\<lambda>r. - sr_attempt r)
       (filter (\<lambda>r. sr_analysis_run_id r = Some (ar_id a) \<and> sr_mission_id r = ar_mission_id a) (db_runs d))"

definition cancellable :: "run_status \<Rightarrow> bool" where
  "cancellable s \<longleftrightarrow> s \<in> {Blocked, Queued, Running}"

definition cancel_run :: "instant \<Rightarrow> stage_run \<Rightarrow> stage_run" where
  "cancel_run now stage =
     stage\<lparr>sr_status := Cancelled, sr_current_step := Some ''CANCELLED'',
           sr_completed_at := Some now, sr_heartbeat_at := Some now\<rparr>"

fun cancel_stages :: "world \<Rightarrow> instant \<Rightarrow> stage_run list \<Rightarrow> db \<Rightarrow> (stage_run list \<times> db) res" where
  "cancel_stages w now [] d = Inr ([], d)"
| "cancel_stages w now (stage # stages) d =
     (if cancellable (sr_status stage)
      then rbind (sync_analysis_stage w now (cancel_run now stage) (put_run (cancel_run now stage) d)) (\<lambda>(stage', d1).
           rbind (cancel_stages w now stages d1) (\<lambda>(stages', d2). Inr (stage' # stages', d2)))
      else rbind (cancel_stages w now stages d) (\<lambda>(stages', d2). Inr (stage # stages', d2)))"

definition cancel_analysis_stages :: "world \<Rightarrow> instant \<Rightarrow> analysis \<Rightarrow> db \<Rightarrow> (bool \<times> db) res" where
  "cancel_analysis_stages w now a d =
     (let stages = analysis_stages d a
      in case stages of
           [] \<Rightarrow> Inl (ValueError ''Analysis has no bounded stage attempt'')
         | current # _ \<Rightarrow>
             (if sr_status current = Succeeded then Inr (False, d)
              else rbind (cancel_stages w now stages d) (\<lambda>(stages', d1).
                   rbind (sync_analysis_stage w now (hd stages') d1) (\<lambda>(_, d2). Inr (True, d2)))))"

subsection \<open>Publication of map features\<close>

definition point_text :: "world \<Rightarrow> pyval \<Rightarrow> string res" where
  "point_text w point =
     rbind (as_items point) (\<lambda>items.
     rbind (py_nth items 0) (\<lambda>x. rbind (py_nth items 1) (\<lambda>y.
       Inr (w_coordinate w x @ '' '' @ w_coordinate w y))))"

definition ring_text :: "world \<Rightarrow> pyval \<Rightarrow> string res" where
  "ring_text w ring =
     rbind (as_items ring) (\<lambda>points.
     rbind (rmap (point_text w) points) (\<lambda>texts.
       Inr (''('' @ join_text '', '' texts @ '')'')))"

definition polygon_rings :: "world \<Rightarrow> pyval \<Rightarrow> string res" where
  "polygon_rings w polygon =
     rbind (as_items polygon) (\<lambda>rings.
     rbind (rmap (ring_text w) rings) (\<lambda>texts. Inr (join_text '', '' texts)))"

definition feature_wkt :: "world \<Rightarrow> dict \<Rightarrow> string res" where
  "feature_wkt w geometry =
     (let geometry_type = dget geometry ''type''; coordinates = dget geometry ''coordinates''
      in if geometry_type = PStr ''Point''
           then rbind (point_text w coordinates) (\<lambda>t. Inr (''POINT('' @ t @ '')''))
         else if geometry_type = PStr ''Polygon''
           then rbind (polygon_rings w coordinates) (\<lambda>t. Inr (''POLYGON('' @ t @ '')''))
         else if geometry_type = PStr ''MultiPolygon''
           then rbind (as_items coordinates) (\<lambda>polygons.
                rbind (rmap (\<lambda>p. rbind (polygon_rings w p) (\<lambda>t. Inr (''('' @ t @ '')''))) polygons) (\<lambda>bodies.
                  Inr (''MULTIPOLYGON('' @ join_text '', '' bodies @ '')'')))
         else Inl (ValueError (''Unsupported AI geometry: '' @ py_str geometry_type)))"

definition new_feature :: "world \<Rightarrow> stage_run \<Rightarrow> analysis \<Rightarrow> int \<Rightarrow> nat \<Rightarrow> dict \<Rightarrow> map_feature res" where
  "new_feature w stage a i index feature =
     rbind (require_key feature ''properties'') (\<lambda>value.
     rbind (require_key feature ''geometry'') (\<lambda>geometry_value.
     rbind (as_dict geometry_value) (\<lambda>geometry.
     rbind (feature_wkt w geometry) (\<lambda>wkt.
     rbind (as_dict value) (\<lambda>properties.
       Inr \<lparr>mf_id = i,
            mf_feature_id = w_uuid5 w (''droneai:'' @ sr_run_id stage @ '':feature:'' @ int_text (int index)),
            mf_mission_id = ar_mission_id a, mf_analysis_run_id = Some (ar_id a),
            mf_vol_id = ar_vol_id a, mf_source = AiFeature, mf_geometry = wkt,
            mf_name = ar_name a, mf_description = ar_description a, mf_color = ar_color a,
            mf_tags = ar_tags a, mf_properties = properties,
            mf_class_name = dget properties ''class_name'',
            mf_confidence = dget properties ''confidence'', mf_tile_index = None,
            mf_created_by = ar_created_by a, mf_version = 1, mf_reviewed_at = None,
            mf_reviewed_by = None, mf_deleted_at = None, mf_deleted_by = None,
            mf_deletion_reason = None\<rparr>)))))"

fun add_features :: "world \<Rightarrow> stage_run \<Rightarrow> analysis \<Rightarrow> nat \<Rightarrow> dict list \<Rightarrow> db \<Rightarrow> db res" where
  "add_features w stage a index [] d = Inr d"
| "add_features w stage a index (f # fs) d =
     rbind (new_feature w stage a (next_id (map mf_id (db_features d))) index f) (\<lambda>row.
       add_features w stage a (index + 1) fs (d\<lparr>db_features := db_features d @ [row]\<rparr>))"

definition live_feature_of :: "analysis \<Rightarrow> map_feature \<Rightarrow> bool" where
  "live_feature_of a f \<longleftrightarrow> mf_analysis_run_id f = Some (ar_id a) \<and> mf_deleted_at f = None"

definition retire_features :: "instant \<Rightarrow> analysis \<Rightarrow> db \<Rightarrow> db" where
  "retire_features now a d = d\<lparr>db_features := update_where (live_feature_of a)
     (\<lambda>f. f\<lparr>mf_deleted_at := Some now, mf_deleted_by := Some ''system:analysis-stage'',
            mf_deletion_reason := Some ''Replaced by a successful analysis attempt''\<rparr>) (db_features d)\<rparr>"

definition publish_analysis_features ::
  "world \<Rightarrow> instant \<Rightarrow> stage_run \<Rightarrow> dict \<Rightarrow> dict list option \<Rightarrow> db \<Rightarrow> db res" where
  "publish_analysis_features w now stage metadata features d =
     rbind (linked_analysis d stage) (\<lambda>linked.
       (case linked of
          None \<Rightarrow>
            (case features of
               None \<Rightarrow> Inr d
             | Some _ \<Rightarrow> Inl (ValueError ''Pipeline detection cannot publish standalone analysis features''))
        | Some a \<Rightarrow>
            (if \<not> current_analysis_attempt a stage
             then Inl (ValueError ''Analysis generation changed before publication'')
             else
               (case features of
                  None \<Rightarrow> Inl (ValueError ''Analysis result identity or features are missing'')
                | Some fs \<Rightarrow>
                    (if dget metadata ''analysis_run_id'' \<noteq> PStr (ar_run_id a)
                     then Inl (ValueError ''Analysis result identity or features are missing'')
                     else
                       rbind (if ar_persist_results a
                              then add_features w stage a 0 fs (retire_features now a d)
                              else Inr d) (\<lambda>d1.
                       rbind (require_key metadata ''geojson_object_key'') (\<lambda>key.
                       rbind (require_key metadata ''model_manifest'') (\<lambda>manifest.
                       rbind (require_key metadata ''raster'') (\<lambda>raster.
                         Inr (put_analysis (a\<lparr>ar_result_s3_key := key, ar_model_manifest := manifest,
                                              ar_tiling_metadata := raster\<rparr>) d1))))))))))"


subsection \<open>Facts about the projection\<close>

lemma linked_analysis_Some:
  assumes "linked_analysis d stage = Inr (Some a)"
  shows "sr_analysis_run_id stage = Some (ar_id a) \<and> ar_mission_id a = sr_mission_id stage
    \<and> a \<in> set (db_analyses d) \<and> sr_stage stage = Detection"
proof -
  from assms obtain i where i: "sr_analysis_run_id stage = Some i"
    and "one_row (filter (\<lambda>a. ar_id a = i \<and> ar_mission_id a = sr_mission_id stage) (db_analyses d)) = Inr a"
    and det: "sr_stage stage = Detection"
    by (auto simp: linked_analysis_def rbind_Inr_iff split: option.splits if_splits)
  then have "a \<in> set (filter (\<lambda>a. ar_id a = i \<and> ar_mission_id a = sr_mission_id stage) (db_analyses d))"
    by (simp add: one_row_Inr)
  with i det show ?thesis by simp
qed

lemma linked_analysis_cong:
  "db_analyses d' = db_analyses d \<Longrightarrow> sr_analysis_run_id r' = sr_analysis_run_id r \<Longrightarrow>
   sr_mission_id r' = sr_mission_id r \<Longrightarrow> sr_stage r' = sr_stage r \<Longrightarrow> linked_analysis d' r' = linked_analysis d r"
  by (simp add: linked_analysis_def split: option.split)

lemma linked_analysis_pipeline [simp]: "sr_analysis_run_id stage = None \<Longrightarrow> linked_analysis d stage = Inr None"
  by (simp add: linked_analysis_def)

lemma sync_pipeline [simp]: "sr_analysis_run_id stage = None \<Longrightarrow> sync_analysis_stage w now stage d = Inr (stage, d)"
  by (simp add: sync_analysis_stage_def)

lemma shard_progress_keeps:
  assumes "shard_progress w d stage = Inr stage'"
  shows "\<exists>m p. stage' = stage\<lparr>sr_quality_metrics := m, sr_progress := p\<rparr> \<and> (p = sr_progress stage \<or> p \<le> 99)"
proof (cases "active_status (sr_status stage) \<and> dget (sr_provenance stage) ''detection_shard_plan'' \<noteq> PNone")
  case True
  with assms show ?thesis
    by (fastforce simp: shard_progress_def rbind_Inr_iff Let_def)
next
  case False
  with assms have "stage' = stage" by (auto simp: shard_progress_def Let_def)
  then show ?thesis by (intro exI [of _ "sr_quality_metrics stage"] exI [of _ "sr_progress stage"]) simp
qed

lemma sync_cases:
  assumes "sync_analysis_stage w now stage d = Inr (stage', d')"
  obtains (Unlinked) "linked_analysis d stage = Inr None" "stage' = stage" "d' = d"
    | (Outdated) a where "linked_analysis d stage = Inr (Some a)" "\<not> current_analysis_attempt a stage"
        "stage' = stage" "d' = d"
    | (Current) a a' where "linked_analysis d stage = Inr (Some a)" "current_analysis_attempt a stage"
        "shard_progress w d stage = Inr stage'" "project_analysis now stage' a = Inr a'"
        "d' = put_analysis a' (put_run stage' d)"
proof -
  from assms obtain linked where linked: "linked_analysis d stage = Inr linked"
    by (auto simp: sync_analysis_stage_def rbind_Inr_iff)
  show thesis
  proof (cases linked)
    case None
    with linked assms show thesis by (intro Unlinked) (simp_all add: sync_analysis_stage_def)
  next
    case (Some a)
    show thesis
    proof (cases "current_analysis_attempt a stage")
      case True
      with linked Some assms show thesis
        by (auto simp: sync_analysis_stage_def rbind_Inr_iff intro!: Current)
    next
      case False
      with linked Some assms show thesis by (intro Outdated) (simp_all add: sync_analysis_stage_def)
    qed
  qed
qed

text \<open>A synchronised run differs from the run only in its counters.\<close>

lemma sync_run_fields:
  assumes "sync_analysis_stage w now stage d = Inr (stage', d')"
  shows "\<exists>m p. stage' = stage\<lparr>sr_quality_metrics := m, sr_progress := p\<rparr> \<and> (p = sr_progress stage \<or> p \<le> 99)"
  using assms
proof (cases rule: sync_cases)
  case (Current a a')
  then show ?thesis using shard_progress_keeps by blast
next
  case Unlinked
  then show ?thesis by (intro exI [of _ "sr_quality_metrics stage"] exI [of _ "sr_progress stage"]) simp
next
  case (Outdated a)
  then show ?thesis by (intro exI [of _ "sr_quality_metrics stage"] exI [of _ "sr_progress stage"]) simp
qed

lemma sync_frame [frame_simps]:
  assumes "sync_analysis_stage w now stage d = Inr (stage', d')"
  shows "db_missions d' = db_missions d" "db_receipts d' = db_receipts d" "db_artifacts d' = db_artifacts d"
    "db_parents d' = db_parents d" "db_policies d' = db_policies d" "db_usage d' = db_usage d"
    "db_datasets d' = db_datasets d" "db_uploads d' = db_uploads d" "db_features d' = db_features d"
    "db_organizations d' = db_organizations d" "db_buckets d' = db_buckets d"
  using assms by (cases rule: sync_cases; simp)+

lemma sync_ids:
  assumes "sync_analysis_stage w now stage d = Inr (stage', d')"
  shows "map sr_id (db_runs d') = map sr_id (db_runs d)" and "sr_id stage' = sr_id stage"
    and "sr_run_id stage' = sr_run_id stage" and "sr_status stage' = sr_status stage"
    and "sr_dispatch_attempts stage' = sr_dispatch_attempts stage" and "sr_provenance stage' = sr_provenance stage"
    and "sr_executor stage' = sr_executor stage" and "sr_job_name stage' = sr_job_name stage"
    and "sr_error_message stage' = sr_error_message stage" and "sr_stage stage' = sr_stage stage"
    and "sr_mission_id stage' = sr_mission_id stage" and "sr_analysis_run_id stage' = sr_analysis_run_id stage"
    and "sr_heartbeat_at stage' = sr_heartbeat_at stage" and "sr_completed_at stage' = sr_completed_at stage"
    and "sr_parameters stage' = sr_parameters stage" and "sr_attempt stage' = sr_attempt stage"
proof -
  show "map sr_id (db_runs d') = map sr_id (db_runs d)"
    using assms by (cases rule: sync_cases) (simp_all add: runs.keys_put)
qed (use sync_run_fields [OF assms] in auto)

text \<open>The rows of other runs stay; the row of the run is the synchronised run.\<close>

lemma sync_rows:
  assumes "sync_analysis_stage w now stage d = Inr (stage', d')" and "stage \<in> set (db_runs d)"
  shows "stage' \<in> set (db_runs d')"
    and "\<And>r. r \<in> set (db_runs d) \<Longrightarrow> sr_id r \<noteq> sr_id stage \<Longrightarrow> r \<in> set (db_runs d')"
    and "\<And>r. r \<in> set (db_runs d') \<Longrightarrow> r = stage' \<or> r \<in> set (db_runs d)"
proof -
  have id': "sr_id stage' = sr_id stage" using sync_ids(2) [OF assms(1)] .
  show "stage' \<in> set (db_runs d')"
    using assms(1)
  proof (cases rule: sync_cases)
    case (Current a a')
    have "stage' \<in> set (db_runs (put_run stage' d))" using assms(2) id' by (intro runs.put_present) simp_all
    with Current show ?thesis by simp
  qed (use assms(2) in simp_all)
  show "r \<in> set (db_runs d')" if "r \<in> set (db_runs d)" "sr_id r \<noteq> sr_id stage" for r
    using assms(1)
  proof (cases rule: sync_cases)
    case (Current a a')
    have "r \<in> set (db_runs (put_run stage' d))" using that id' by (intro runs.put_other) simp_all
    with Current show ?thesis by simp
  qed (use that in simp_all)
  show "r = stage' \<or> r \<in> set (db_runs d)" if "r \<in> set (db_runs d')" for r
    using assms(1)
  proof (cases rule: sync_cases)
    case (Current a a')
    with that runs.put_member [of r stage' d] show ?thesis by auto
  qed (use that in simp_all)
qed

lemma sync_progress_ok:
  assumes "sync_analysis_stage w now stage d = Inr (stage', d')" and "run_row_ok stage"
    and "\<forall>r \<in> set (db_receipts d). 0 \<le> dr_tile_count r"
  shows "run_row_ok stage'"
  using assms(1)
proof (cases rule: sync_cases)
  case (Current a a')
  show ?thesis
  proof (cases "active_status (sr_status stage) \<and> dget (sr_provenance stage) ''detection_shard_plan'' \<noteq> PNone")
    case True
    with Current(3) obtain plan where
      plan: "parse_detection_shard_plan_descriptor (w_digest w) (dget (sr_provenance stage) ''detection_shard_plan'') = Inr plan"
      and s': "stage' = stage\<lparr>sr_quality_metrics := sr_quality_metrics stage',
         sr_progress := min 99 (py_round (of_int (100 * receipt_tiles d stage plan) / of_int (plan_tile_count plan)))\<rparr>"
      by (auto simp: shard_progress_def rbind_Inr_iff Let_def)
    have "0 < plan_tile_count plan"
      using parse_descriptor_Inr [OF plan] build_plan_tile_count_pos by blast
    moreover have "0 \<le> receipt_tiles d stage plan"
      unfolding receipt_tiles_def by (rule sum_list_nonneg_int) (use assms(3) in auto)
    ultimately have "0 \<le> py_round (of_int (100 * receipt_tiles d stage plan) / of_int (plan_tile_count plan))"
      by (intro py_round_ge_int) simp
    then have "0 \<le> sr_progress stage' \<and> sr_progress stage' \<le> 99" by (subst (1 2) s') simp
    moreover obtain m p where "stage' = stage\<lparr>sr_quality_metrics := m, sr_progress := p\<rparr>"
      using sync_run_fields [OF assms(1)] by blast
    ultimately show ?thesis using assms(2) by (simp add: run_row_ok_def)
  next
    case False
    with Current(3) have "stage' = stage" by (auto simp: shard_progress_def Let_def)
    with assms(2) show ?thesis by simp
  qed
qed (use assms(2) in simp_all)

lemma project_analysis_Inr:
  assumes "project_analysis now stage a = Inr a'"
  shows "ar_id a' = ar_id a" "ar_mission_id a' = ar_mission_id a" "ar_retry_count a' = ar_retry_count a"
    "ar_status a' = projected_status (sr_status stage)" "ar_phase a' = projected_phase (sr_status stage)"
    "ar_progress a' = sr_progress stage"
    "ar_error_message a' = (if sr_status stage = Failed then sr_error_message stage else None)"
    "sr_status stage = Succeeded \<longrightarrow> ar_tiles_completed a' = ar_total_tiles a'"
    "ar_run_id a' = ar_run_id a" "ar_completed_at a' = sr_completed_at stage"
  using assms by (auto simp: project_analysis_def rbind_Inr_iff Let_def)

subsection \<open>Properties of analyses\<close>

text \<open>Synchronising a run makes its analysis mirror it when the run is the current
  attempt, with the progress of an active fan-out held below completion, and changes nothing
  at all when the run is an attempt of an older generation.\<close>

theorem sync_mirrors_current_attempt:
  assumes "sync_analysis_stage w now stage d = Inr (stage', d')" and "linked_analysis d stage = Inr (Some a)"
    and "stage \<in> set (db_runs d)"
  shows "if current_analysis_attempt a stage
    then (\<exists>a' \<in> set (db_analyses d'). ar_id a' = ar_id a
        \<and> ar_status a' = projected_status (sr_status stage) \<and> ar_phase a' = projected_phase (sr_status stage)
        \<and> ar_progress a' = sr_progress stage'
        \<and> ar_error_message a' = (if sr_status stage = Failed then sr_error_message stage else None)
        \<and> (sr_status stage = Succeeded \<longrightarrow> ar_tiles_completed a' = ar_total_tiles a'))
      \<and> stage' \<in> set (db_runs d') \<and> sr_status stage' = sr_status stage
      \<and> (active_status (sr_status stage) \<and> dget (sr_provenance stage) ''detection_shard_plan'' \<noteq> PNone
           \<longrightarrow> sr_progress stage' \<le> 99)
    else stage' = stage \<and> d' = d"
  using assms(1)
proof (cases rule: sync_cases)
  case (Current b a')
  with assms(2) have b: "b = a" by simp
  have mem: "a \<in> set (db_analyses (put_run stage' d))" using linked_analysis_Some [OF assms(2)] by simp
  note facts = project_analysis_Inr [OF Current(4) [unfolded b]]
  have "a' \<in> set (db_analyses d')"
    unfolding Current(5) by (rule analyses.put_present [OF mem]) (simp add: facts(1))
  moreover have "sr_progress stage' \<le> 99"
    if "active_status (sr_status stage)" "dget (sr_provenance stage) ''detection_shard_plan'' \<noteq> PNone"
    using Current(3) that by (auto simp: shard_progress_def rbind_Inr_iff Let_def)
  ultimately show ?thesis
    using Current(2) b sync_rows(1) [OF assms(1,3)] sync_ids [OF assms(1)] facts by auto
qed (use assms(2) in simp_all)


lemma next_attempt_fresh: "next_attempt as \<notin> set as"
proof (cases as)
  case (Cons b bs)
  have le: "x \<le> foldr max xs y" if "x \<in> set xs \<or> x = y" for x :: int and xs y
    using that by (induction xs) (auto simp: le_max_iff_disj)
  have "x \<le> foldr max bs b" if "x \<in> set as" for x using le [of x bs b] that Cons by auto
  then show ?thesis using Cons by (fastforce simp: next_attempt_def)
qed simp

lemma create_analysis_stage_Inr:
  assumes "create_analysis_stage w now m a raster d = Inr (stage, d')"
  shows "db_runs d' = db_runs d @ [stage]" "sr_id stage \<notin> set (map sr_id (db_runs d))"
    "sr_mission_id stage = m_id m" "sr_stage stage = Detection" "sr_status stage = Queued"
    "sr_attempt stage = next_attempt (detection_attempts d m)" "sr_analysis_run_id stage = Some (ar_id a)"
    "sr_parameters stage = analysis_parameters m a" "sr_upstream_artifact_ids stage = [ma_artifact_id raster]"
    "ma_mission_id raster = m_id m" "ma_kind raster = ''raster_product_workspace''"
    "\<exists>p. artifact_stage_run d raster = Inr p \<and> sr_stage p = Rasterization \<and> sr_status p = Succeeded"
    "db_analyses d' = update_where (\<lambda>x. ar_id x = ar_id a) (\<lambda>_. reset_analysis now a) (db_analyses d)"
  using assms next_id_fresh [of "map sr_id (db_runs d)"]
  by (auto simp: create_analysis_stage_def rbind_Inr_iff Let_def add_stage_run_def draw_uuid_def
      new_stage_run_def put_analysis_def reset_analysis_def split: if_splits)

text \<open>Creating an attempt appends one queued detection run whose attempt number is new for
  the mission, bound to the analysis and its current generation, fed by the succeeded raster
  of the same mission, and the analysis is back at its start.\<close>

theorem create_attempt_is_fresh:
  assumes "create_analysis_stage w now m a raster d = Inr (stage, d')" and "a \<in> set (db_analyses d)"
    and "distinct (map (\<lambda>r. (sr_mission_id r, sr_stage r, sr_attempt r)) (db_runs d))"
  shows "db_runs d' = db_runs d @ [stage] \<and> sr_status stage = Queued \<and> sr_analysis_run_id stage = Some (ar_id a)
    \<and> distinct (map (\<lambda>r. (sr_mission_id r, sr_stage r, sr_attempt r)) (db_runs d'))
    \<and> reset_analysis now a \<in> set (db_analyses d') \<and> current_analysis_attempt (reset_analysis now a) stage
    \<and> sr_upstream_artifact_ids stage = [ma_artifact_id raster] \<and> ma_mission_id raster = m_id m
    \<and> (\<exists>p. artifact_stage_run d raster = Inr p \<and> sr_stage p = Rasterization \<and> sr_status p = Succeeded)"
proof -
  note facts = create_analysis_stage_Inr [OF assms(1)]
  have "(sr_mission_id stage, sr_stage stage, sr_attempt stage)
      \<notin> set (map (\<lambda>r. (sr_mission_id r, sr_stage r, sr_attempt r)) (db_runs d))"
  proof
    assume "(sr_mission_id stage, sr_stage stage, sr_attempt stage)
      \<in> set (map (\<lambda>r. (sr_mission_id r, sr_stage r, sr_attempt r)) (db_runs d))"
    then have "sr_attempt stage \<in> set (detection_attempts d m)"
      unfolding facts(3,4) by (auto simp: detection_attempts_def)
    then show False using facts(6) next_attempt_fresh by metis
  qed
  then have "distinct (map (\<lambda>r. (sr_mission_id r, sr_stage r, sr_attempt r)) (db_runs d'))"
    using assms(3) by (simp add: facts(1))
  moreover have "reset_analysis now a \<in> set (db_analyses d')"
    using assms(2) by (auto simp: facts(13) update_where_def)
  moreover have "current_analysis_attempt (reset_analysis now a) stage"
    by (simp add: current_analysis_attempt_def facts(8) analysis_parameters_def dget_def fmlookup_of_list
        reset_analysis_def)
  ultimately show ?thesis using facts by blast
qed

text \<open>Cancellation leaves no run of the listed attempts active.\<close>

lemma cancel_run_id [simp]: "sr_id (cancel_run now r) = sr_id r" "sr_status (cancel_run now r) = Cancelled"
  by (simp_all add: cancel_run_def)

lemma sync_rows_new:
  assumes "sync_analysis_stage w now stage d = Inr (stage', d')" and "r \<in> set (db_runs d')"
  shows "r = stage' \<or> r \<in> set (db_runs d)"
  using assms(1)
proof (cases rule: sync_cases)
  case (Current a a')
  with assms(2) runs.put_member [of r stage' d] show ?thesis by auto
qed (use assms(2) in simp_all)

lemma cancel_stages_rows:
  assumes "cancel_stages w now stages d = Inr (stages', d')"
    and "distinct (map sr_id (db_runs d))" and "distinct (map sr_id stages)" and "set stages \<subseteq> set (db_runs d)"
  shows "(\<forall>r \<in> set (db_runs d'). cancellable (sr_status r) \<longrightarrow> r \<in> set (db_runs d) \<and> r \<notin> set stages)
    \<and> list_all (\<lambda>r. \<not> cancellable (sr_status r)) stages' \<and> length stages' = length stages"
  using assms
proof (induction stages arbitrary: stages' d)
  case (Cons s ss)
  have s: "s \<in> set (db_runs d)" using Cons.prems(4) by simp
  show ?case
  proof (cases "cancellable (sr_status s)")
    case True
    let ?c = "cancel_run now s"
    from True Cons.prems(1) obtain s' d1 ss' where
      sync: "sync_analysis_stage w now ?c (put_run ?c d) = Inr (s', d1)"
      and rest: "cancel_stages w now ss d1 = Inr (ss', d')" and eq: "stages' = s' # ss'"
      by (auto simp: rbind_Inr_iff)
    have c: "?c \<in> set (db_runs (put_run ?c d))" using s by (intro runs.put_present) simp_all
    have status: "\<not> cancellable (sr_status s')" using sync_ids(4) [OF sync] by (simp add: cancellable_def)
    have d1: "distinct (map sr_id (db_runs d1))"
      using sync_ids(1) [OF sync] Cons.prems(2) by (simp add: runs.keys_put)
    have sub: "set ss \<subseteq> set (db_runs d1)"
    proof
      fix r assume r: "r \<in> set ss"
      then have "sr_id r \<in> sr_id ` set ss" by (rule imageI)
      then have ne: "sr_id r \<noteq> sr_id ?c" using Cons.prems(3) by auto
      then have "r \<in> set (db_runs (put_run ?c d))" using r Cons.prems(4) by (intro runs.put_other) auto
      then show "r \<in> set (db_runs d1)" using sync_rows(2) [OF sync c] ne by simp
    qed
    have prior: "r \<in> set (db_runs d) \<and> r \<noteq> s"
      if "r \<in> set (db_runs d1)" "cancellable (sr_status r)" for r
    proof -
      have "r \<noteq> s'" "r \<noteq> ?c" using that(2) status by (auto simp: cancellable_def)
      then have "r \<in> set (db_runs (put_run ?c d))" using sync_rows_new [OF sync that(1)] by simp
      with runs.put_member [OF this] \<open>r \<noteq> ?c\<close> show ?thesis by auto
    qed
    from Cons.IH [OF rest d1 _ sub] Cons.prems(3) prior status show ?thesis by (auto simp: eq)
  next
    case False
    from False Cons.prems(1) obtain ss' where rest: "cancel_stages w now ss d = Inr (ss', d')"
      and eq: "stages' = s # ss'" by (auto simp: rbind_Inr_iff)
    from Cons.IH [OF rest Cons.prems(2)] Cons.prems(3,4) False show ?thesis by (auto simp: eq)
  qed
qed (auto simp: rbind_Inr_iff)

lemma analysis_stages_set:
  "set (analysis_stages d a)
   = {r \<in> set (db_runs d). sr_analysis_run_id r = Some (ar_id a) \<and> sr_mission_id r = ar_mission_id a}"
  by (auto simp: analysis_stages_def)

lemma analysis_stages_distinct:
  assumes "distinct (map sr_id (db_runs d))"
  shows "distinct (map sr_id (analysis_stages d a))"
proof -
  have "mset (map sr_id (analysis_stages d a)) = mset (map sr_id (filter (\<lambda>r. sr_analysis_run_id r = Some (ar_id a)
      \<and> sr_mission_id r = ar_mission_id a) (db_runs d)))" by (simp add: analysis_stages_def)
  then have "distinct (map sr_id (analysis_stages d a)) = distinct (map sr_id (filter (\<lambda>r.
      sr_analysis_run_id r = Some (ar_id a) \<and> sr_mission_id r = ar_mission_id a) (db_runs d)))"
    by (rule mset_eq_imp_distinct_iff)
  then show ?thesis using assms by (simp add: distinct_map_filter)
qed

text \<open>Cancelling an analysis succeeds unless its newest attempt has already succeeded, in
  which case nothing changes; otherwise no attempt of it stays blocked, queued or running,
  and no other run is cancelled or lost from the table.\<close>

theorem cancel_leaves_no_active_attempt:
  assumes "cancel_analysis_stages w now a d = Inr (b, d')" and "distinct (map sr_id (db_runs d))"
  shows "b = (sr_status (hd (analysis_stages d a)) \<noteq> Succeeded)
    \<and> map sr_id (db_runs d') = map sr_id (db_runs d) \<and> (\<not> b \<longrightarrow> d' = d)
    \<and> (b \<longrightarrow> list_all (\<lambda>r. \<not> (sr_analysis_run_id r = Some (ar_id a) \<and> sr_mission_id r = ar_mission_id a
          \<and> cancellable (sr_status r))) (db_runs d'))"
proof -
  obtain current rest where stages: "analysis_stages d a = current # rest"
    using assms(1) by (cases "analysis_stages d a") (simp_all add: cancel_analysis_stages_def)
  show ?thesis
  proof (cases "sr_status current = Succeeded")
    case True
    with assms(1) stages show ?thesis by (simp add: cancel_analysis_stages_def)
  next
    case False
    with assms(1) stages obtain ss' d1 s2 where
      c: "cancel_stages w now (current # rest) d = Inr (ss', d1)"
      and sync: "sync_analysis_stage w now (hd ss') d1 = Inr (s2, d')" and b: "b"
      by (auto simp: cancel_analysis_stages_def rbind_Inr_iff)
    have keys: "map sr_id (db_runs d1) = map sr_id (db_runs d)" if "cancel_stages w now ss d0 = Inr (ss', d1)"
      "map sr_id (db_runs d0) = map sr_id (db_runs d)" for ss ss' d0 d1
      using that
    proof (induction ss arbitrary: ss' d0)
      case (Cons s ss)
      then show ?case
        by (auto simp: rbind_Inr_iff split: if_splits dest!: sync_ids(1)) (metis runs.keys_put)
    qed simp
    have sub: "set (current # rest) \<subseteq> set (db_runs d)" using analysis_stages_set [of d a] stages by auto
    have dis: "distinct (map sr_id (current # rest))" using analysis_stages_distinct [OF assms(2), of a] stages by simp
    note rows = cancel_stages_rows [OF c assms(2) dis sub]
    then have hd: "\<not> cancellable (sr_status (hd ss'))" by (cases ss') auto
    have "\<not> (sr_analysis_run_id r = Some (ar_id a) \<and> sr_mission_id r = ar_mission_id a \<and> cancellable (sr_status r))"
      if r: "r \<in> set (db_runs d')" for r
    proof
      assume act: "sr_analysis_run_id r = Some (ar_id a) \<and> sr_mission_id r = ar_mission_id a \<and> cancellable (sr_status r)"
      then have "r \<noteq> s2" using hd sync_ids(4) [OF sync] by auto
      then have "r \<in> set (db_runs d1)" using sync_rows_new [OF sync r] by simp
      with rows act have "r \<in> set (db_runs d)" "r \<notin> set (current # rest)" by auto
      then show False using act analysis_stages_set [of d a] stages by auto
    qed
    moreover have "map sr_id (db_runs d') = map sr_id (db_runs d)"
      using keys [OF c refl] sync_ids(1) [OF sync] by simp
    ultimately show ?thesis using b False stages by (simp add: list_all_iff)
  qed
qed


subsection \<open>Published features\<close>

lemma new_feature_Inr:
  assumes "new_feature w stage a i index f = Inr row"
  shows "live_feature_of a row" "mf_analysis_run_id row = Some (ar_id a)"
    "fmlookup f ''properties'' = Some (PDict (mf_properties row))"
    "mf_feature_id row = w_uuid5 w (''droneai:'' @ sr_run_id stage @ '':feature:'' @ int_text (int index))"
    "mf_source row = AiFeature"
proof -
  from assms obtain v where v: "fmlookup f ''properties'' = Some v" "as_dict v = Inr (mf_properties row)"
    by (auto simp: new_feature_def rbind_Inr_iff require_key_def split: option.splits)
  then show "fmlookup f ''properties'' = Some (PDict (mf_properties row))"
    by (cases v) (simp_all add: as_dict_def)
  show "live_feature_of a row" "mf_analysis_run_id row = Some (ar_id a)"
    "mf_feature_id row = w_uuid5 w (''droneai:'' @ sr_run_id stage @ '':feature:'' @ int_text (int index))"
    "mf_source row = AiFeature"
    using assms by (auto simp: new_feature_def rbind_Inr_iff live_feature_of_def)
qed

lemma add_features_Inr:
  "add_features w stage a k fs d = Inr d' \<Longrightarrow>
   \<exists>rows. d' = d\<lparr>db_features := db_features d @ rows\<rparr> \<and> list_all (live_feature_of a) rows
     \<and> map (\<lambda>f. fmlookup f ''properties'') fs = map (\<lambda>row. Some (PDict (mf_properties row))) rows
     \<and> map mf_feature_id rows = map (\<lambda>i. w_uuid5 w (''droneai:'' @ sr_run_id stage @ '':feature:'' @ int_text (int i)))
          [k..<k + length fs]"
proof (induction fs arbitrary: k d)
  case (Cons f fs)
  then obtain row where row: "new_feature w stage a (next_id (map mf_id (db_features d))) k f = Inr row"
    and rest: "add_features w stage a (k + 1) fs (d\<lparr>db_features := db_features d @ [row]\<rparr>) = Inr d'"
    by (auto simp: rbind_Inr_iff)
  from Cons.IH [OF rest] obtain rows where
    "d' = d\<lparr>db_features := db_features d @ row # rows\<rparr>" "list_all (live_feature_of a) rows"
    "map (\<lambda>f. fmlookup f ''properties'') fs = map (\<lambda>row. Some (PDict (mf_properties row))) rows"
    "map mf_feature_id rows = map (\<lambda>i. w_uuid5 w (''droneai:'' @ sr_run_id stage @ '':feature:'' @ int_text (int i)))
          [k + 1..<k + 1 + length fs]" by auto
  with new_feature_Inr [OF row] show ?case
    by (intro exI [of _ "row # rows"]) (simp add: upt_conv_Cons del: upt_Suc)
qed auto

lemma retired_not_live: "f \<in> set (db_features (retire_features now a d)) \<Longrightarrow> \<not> live_feature_of a f"
  by (auto simp: retire_features_def update_where_def live_feature_of_def)

lemma publish_features_frame [frame_simps]:
  assumes "publish_analysis_features w now stage metadata features d = Inr d'"
  shows "db_missions d' = db_missions d" "db_runs d' = db_runs d" "db_artifacts d' = db_artifacts d"
    "db_parents d' = db_parents d" "db_usage d' = db_usage d" "db_policies d' = db_policies d"
    "db_datasets d' = db_datasets d" "db_uploads d' = db_uploads d" "db_receipts d' = db_receipts d"
  using assms
  by (auto simp: publish_analysis_features_def rbind_Inr_iff retire_features_def
      split: option.splits if_splits dest!: add_features_Inr)

text \<open>Publishing the features of an attempt replaces the live features of its analysis:
  afterwards they are exactly the published ones, in order and with identities derived from
  the run, every earlier row is kept, and rows of other analyses are untouched. It is refused
  for an attempt of an older generation.\<close>

theorem publication_replaces_features:
  assumes "publish_analysis_features w now stage metadata (Some fs) d = Inr d'"
    and "linked_analysis d stage = Inr (Some a)" and "ar_persist_results a"
  shows "current_analysis_attempt a stage
    \<and> (\<exists>rows. db_features d' = db_features (retire_features now a d) @ rows
        \<and> filter (live_feature_of a) (db_features d') = rows
        \<and> map (\<lambda>f. fmlookup f ''properties'') fs = map (\<lambda>row. Some (PDict (mf_properties row))) rows
        \<and> map mf_feature_id rows = map (\<lambda>i. w_uuid5 w (''droneai:'' @ sr_run_id stage @ '':feature:'' @ int_text (int i)))
            [0..<length fs])
    \<and> (\<forall>f \<in> set (db_features d). mf_analysis_run_id f \<noteq> Some (ar_id a) \<longrightarrow> f \<in> set (db_features d'))"
proof -
  from assms obtain d1 where cur: "current_analysis_attempt a stage"
    and add: "add_features w stage a 0 fs (retire_features now a d) = Inr d1"
    and d': "db_features d' = db_features d1"
    by (auto simp: publish_analysis_features_def rbind_Inr_iff split: if_splits)
  from add_features_Inr [OF add] obtain rows where
    rows: "d1 = (retire_features now a d)\<lparr>db_features := db_features (retire_features now a d) @ rows\<rparr>"
    "list_all (live_feature_of a) rows"
    "map (\<lambda>f. fmlookup f ''properties'') fs = map (\<lambda>row. Some (PDict (mf_properties row))) rows"
    "map mf_feature_id rows = map (\<lambda>i. w_uuid5 w (''droneai:'' @ sr_run_id stage @ '':feature:'' @ int_text (int i)))
        [0..<0 + length fs]" by blast
  have "filter (live_feature_of a) (db_features (retire_features now a d)) = []"
    using retired_not_live by (simp add: filter_empty_conv)
  moreover have "filter (live_feature_of a) rows = rows" using rows(2) by (simp add: list_all_iff)
  moreover have "f \<in> set (db_features (retire_features now a d))"
    if "f \<in> set (db_features d)" "mf_analysis_run_id f \<noteq> Some (ar_id a)" for f
    using that by (auto simp: retire_features_def update_where_def live_feature_of_def)
  ultimately show ?thesis using cur rows by (auto simp: d')
qed

subsection \<open>A small analysis\<close>

definition example_analysis :: analysis where
  "example_analysis = \<lparr>ar_id = 3, ar_run_id = ''an'', ar_mission_id = 7, ar_vol_id = ''flight-7'',
     ar_name = ''cars'', ar_description = None, ar_color = ''#f43f5e'', ar_tags = PList [],
     ar_backend = ''yolo'', ar_model_variant = None, ar_prompt = None, ar_classes = PList [],
     ar_confidence = 1 / 2, ar_tile_size = 1024, ar_persist_results = True,
     ar_status = AnalysisQueued, ar_phase = PhaseQueued, ar_total_tiles = 0, ar_tiles_completed = 0,
     ar_detection_count = 0, ar_progress = 0, ar_retry_count = 2, ar_error_message = None,
     ar_finalization_owner = None, ar_finalization_lease_until = None, ar_ortho_s3_key = ''ortho'',
     ar_result_s3_key = PNone, ar_tiling_metadata = PNone, ar_model_manifest = PNone,
     ar_heartbeat_at = 0, ar_started_at = None, ar_completed_at = None, ar_created_by = None\<rparr>"

definition example_attempt :: stage_run where
  "example_attempt = example_run\<lparr>sr_id := 5, sr_run_id := ''r5'', sr_stage := Detection,
     sr_analysis_run_id := Some 3, sr_status := Running, sr_attempt := 1,
     sr_parameters := fmap_of_list [(''analysis_generation'', PInt 2)]\<rparr>"

definition example_analysis_db :: db where
  "example_analysis_db = example_pipeline\<lparr>db_runs :=
     [example_run\<lparr>sr_stage := Rasterization, sr_status := Succeeded\<rparr>, example_attempt],
     db_analyses := [example_analysis]\<rparr>"

definition example_raster :: artifact where
  "example_raster = \<lparr>ma_id = 1, ma_artifact_id = ''a1'', ma_mission_id = 7, ma_stage_run_id = 1,
     ma_kind = ''raster_product_workspace'', ma_uri = ''u'', ma_checksum_sha256 = replicate 64 CHR ''a'',
     ma_size_bytes = Some 10, ma_metadata = fmempty, ma_created_at = 3\<rparr>"

lemmas example_analysis_simps =
  example_analysis_db_def example_attempt_def example_analysis_def example_pipeline_def example_run_def
  linked_analysis_def current_analysis_attempt_def dget_def fmlookup_of_list py_eq_def

lemma example_linked: "linked_analysis example_analysis_db example_attempt = Inr (Some example_analysis)"
  by (simp add: example_analysis_simps)

lemma example_current: "current_analysis_attempt example_analysis example_attempt"
  by (simp add: example_analysis_simps)

theorem sync_mirrors_current_attempt_witness:
  "\<exists>s d'. sync_analysis_stage example_digest_world 9 example_attempt example_analysis_db = Inr (s, d')
    \<and> list_ex (\<lambda>a. ar_id a = 3 \<and> ar_status a = AnalysisRunning) (db_analyses d')"
proof -
  have "\<exists>s d'. sync_analysis_stage example_digest_world 9 example_attempt example_analysis_db = Inr (s, d')"
    by (simp add: sync_analysis_stage_def example_linked example_current shard_progress_def project_analysis_def
        metric_int_def Let_def)
       (simp add: example_analysis_simps)
  then obtain s d' where sync: "sync_analysis_stage example_digest_world 9 example_attempt example_analysis_db = Inr (s, d')" by blast
  have mem: "example_attempt \<in> set (db_runs example_analysis_db)" by (simp add: example_analysis_db_def)
  have run: "sr_status example_attempt = Running" by (simp add: example_attempt_def)
  from sync_mirrors_current_attempt [OF sync example_linked mem] example_current
  obtain a where "a \<in> set (db_analyses d')" "ar_id a = ar_id example_analysis"
    "ar_status a = projected_status (sr_status example_attempt)" by (auto simp only: if_True)
  with sync run show ?thesis by (auto simp: list_ex_iff example_analysis_def)
qed

theorem create_attempt_is_fresh_witness:
  "\<exists>s d'. create_analysis_stage example_digest_world 9 example_mission example_analysis example_raster example_analysis_db = Inr (s, d')
    \<and> distinct (map (\<lambda>r. (sr_mission_id r, sr_stage r, sr_attempt r)) (db_runs d'))"
proof -
  have "\<exists>s d'. create_analysis_stage example_digest_world 9 example_mission example_analysis example_raster example_analysis_db = Inr (s, d')"
    by (simp add: create_analysis_stage_def artifact_stage_run_def example_analysis_simps example_raster_def
        example_mission_def add_stage_run_def draw_uuid_def resource_class_for_stage_def stage_baseline_class_def
        analysis_parameters_def py_or_def fmempty_of_list [symmetric] Let_def)
  then obtain s d' where c: "create_analysis_stage example_digest_world 9 example_mission example_analysis example_raster
      example_analysis_db = Inr (s, d')" by blast
  have "example_analysis \<in> set (db_analyses example_analysis_db)"
    "distinct (map (\<lambda>r. (sr_mission_id r, sr_stage r, sr_attempt r)) (db_runs example_analysis_db))"
    by (simp_all add: example_analysis_db_def example_attempt_def example_run_def)
  from create_attempt_is_fresh [OF c this] c show ?thesis by blast
qed

theorem cancel_leaves_no_active_attempt_witness:
  "\<exists>b d'. cancel_analysis_stages example_digest_world 9 example_analysis example_analysis_db = Inr (b, d') \<and> b"
proof -
  have "\<not> isl (cancel_analysis_stages example_digest_world 9 example_analysis example_analysis_db)" by code_simp
  then obtain b d' where c: "cancel_analysis_stages example_digest_world 9 example_analysis example_analysis_db = Inr (b, d')"
    by (cases "cancel_analysis_stages example_digest_world 9 example_analysis example_analysis_db") auto
  have "distinct (map sr_id (db_runs example_analysis_db))"
    "sr_status (hd (analysis_stages example_analysis_db example_analysis)) = Running" by code_simp+
  with cancel_leaves_no_active_attempt [OF c] have "b" by simp
  with c show ?thesis by blast
qed

theorem publication_replaces_features_witness:
  "\<exists>d'. publish_analysis_features example_digest_world 9 example_attempt
        (fmap_of_list [(''analysis_run_id'', PStr ''an''), (''geojson_object_key'', PStr ''k''),
           (''model_manifest'', PNone), (''raster'', PNone)]) (Some []) example_analysis_db = Inr d'
    \<and> filter (live_feature_of example_analysis) (db_features d') = []"
proof -
  let ?meta = "fmap_of_list [(''analysis_run_id'', PStr ''an''), (''geojson_object_key'', PStr ''k''),
           (''model_manifest'', PNone), (''raster'', PNone)] :: dict"
  have persist: "ar_persist_results example_analysis" by (simp add: example_analysis_def)
  have "\<exists>d'. publish_analysis_features example_digest_world 9 example_attempt ?meta (Some []) example_analysis_db = Inr d'"
    by (simp add: publish_analysis_features_def example_linked example_current require_key_def)
       (simp add: example_analysis_simps)
  then obtain d' where pub: "publish_analysis_features example_digest_world 9 example_attempt ?meta (Some []) example_analysis_db = Inr d'"
    by blast
  from publication_replaces_features [OF pub example_linked persist] pub show ?thesis by auto
qed

end
