(* ===== verification/StageExecution.thy ===== *)
theory StageExecution
  imports OrganizationSaas StageArtifacts AnalysisStages
begin

text \<open>
  The one-shot execution boundary of stage containers (\<open>shared/stage_execution.py\<close>): the
  claim of a run and its execution context, heartbeats and progress, the publication of the
  immutable artifact, and the terminal record of a failure.

  The handler of a stage is a parameter, a function of the context and the database that
  returns its outcome and the database it leaves. The environment of the container is a
  partial map. The probe of PostgreSQL row security is not modelled. \<open>clock n\<close> is the n-th
  reading of the clock in one execution.
\<close>

subsection \<open>Contexts and results\<close>

record artifact_input =
  si_artifact_id :: string
  si_kind :: string
  si_uri :: string
  si_checksum_sha256 :: string
  si_size_bytes :: "int option"
  si_metadata :: dict

record reuse_authorization =
  ra_source_run_id :: string
  ra_source_attempt :: int
  ra_mission_id :: int
  ra_organization_id :: string
  ra_vol_id :: string
  ra_workspace_prefix :: string
  ra_upstream_artifact_ids :: "string list"

record execution_context =
  sx_run_id :: string
  sx_mission_id :: int
  sx_organization_id :: string
  sx_vol_id :: string
  sx_workspace_prefix :: string
  sx_owner_subject :: string
  sx_stage :: stage_id
  sx_attempt :: int
  sx_mission_attempt :: int
  sx_parameters :: dict
  sx_mission_parameters :: dict
  sx_inputs :: "artifact_input list"
  sx_run_provenance :: dict
  sx_analysis :: "dict option"
  sx_reuse :: "reuse_authorization option"

definition object_namespace :: "execution_context \<Rightarrow> mission_namespace res" where
  "object_namespace c = ns_from_binding (sx_organization_id c) (sx_vol_id c) (Some (sx_workspace_prefix c))"

record execution_result =
  xr_kind :: string
  xr_uri :: string
  xr_checksum_sha256 :: string
  xr_size_bytes :: int
  xr_metadata :: dict
  xr_quality_metrics :: dict
  xr_provenance :: dict
  xr_analysis_features :: "dict list option"

definition lower_hex_sha256 :: "string \<Rightarrow> bool" where
  "lower_hex_sha256 s \<longleftrightarrow> length s = 64 \<and> list_all (\<lambda>c. c \<in> set ''0123456789abcdef'') s"

definition result_post_init :: "execution_result \<Rightarrow> execution_result res" where
  "result_post_init r =
     (if xr_kind r = [] \<or> xr_uri r = [] then Inl (ValueError ''A stage result requires kind and URI'')
      else if \<not> lower_hex_sha256 (xr_checksum_sha256 r)
        then Inl (ValueError ''A stage result requires a lower-case SHA-256'')
      else if xr_size_bytes r < 0 then Inl (ValueError ''A stage result size cannot be negative'')
      else Inr r)"

text \<open>What a handler raises.\<close>

datatype stage_failure =
    StageCancelled string
  | QualityGateRejected string dict dict
  | HandlerError py_error

fun failure_text :: "stage_failure \<Rightarrow> string" where
  "failure_text (StageCancelled s) = s"
| "failure_text (QualityGateRejected s metrics evidence) = s"
| "failure_text (HandlerError e) = error_text e"

text \<open>An error of the shared code as an \<open>except\<close> clause sees it.\<close>

fun failure_of :: "py_error \<Rightarrow> stage_failure" where
  "failure_of (StageExecutionCancelled s) = StageCancelled s"
| "failure_of e = HandlerError e"

subsection \<open>Reuse of a failed workspace\<close>

definition LOCAL_WORKSPACE_REUSE_RUN_ID_PARAMETER :: string where
  "LOCAL_WORKSPACE_REUSE_RUN_ID_PARAMETER = ''local_workspace_reuse_run_id''"

definition reuse_recipe :: "dict \<Rightarrow> dict" where
  "reuse_recipe parameters = fmdrop LOCAL_WORKSPACE_REUSE_RUN_ID_PARAMETER parameters"

definition same_lineage :: "mission \<Rightarrow> stage_run \<Rightarrow> stage_run \<Rightarrow> bool" where
  "same_lineage mission run source \<longleftrightarrow>
     sr_id source \<noteq> sr_id run \<and> sr_mission_id source = m_id mission \<and> sr_stage source = sr_stage run
     \<and> sr_status source = Failed \<and> sr_executor source = Some ''kubernetes-job''
     \<and> sr_attempt source < sr_attempt run
     \<and> sr_upstream_artifact_ids source = sr_upstream_artifact_ids run
     \<and> dict_eq (reuse_recipe (sr_parameters source)) (reuse_recipe (sr_parameters run))"

definition authorize_local_workspace_reuse ::
  "db \<Rightarrow> mission \<Rightarrow> stage_run \<Rightarrow> mission_namespace \<Rightarrow> reuse_authorization option res" where
  "authorize_local_workspace_reuse d mission run namespace =
     (case dget (sr_parameters run) LOCAL_WORKSPACE_REUSE_RUN_ID_PARAMETER of
        PNone \<Rightarrow> Inr None
      | PStr source_run_id \<Rightarrow>
          (if source_run_id = []
             then Inl (ValueError ''local_workspace_reuse_run_id must be a non-empty string'')
           else if sr_stage run \<noteq> GaussianTraining
             then Inl (ValueError ''Local workspace reuse is restricted to Gaussian training'')
           else
             rbind (one_or_none (filter (\<lambda>r. sr_run_id r = source_run_id) (db_runs d))) (\<lambda>found.
               (case found of
                  Some source \<Rightarrow>
                    (if same_lineage mission run source
                     then Inr (Some
                       \<lparr>ra_source_run_id = source_run_id, ra_source_attempt = sr_attempt source,
                        ra_mission_id = m_id mission, ra_organization_id = m_organization_id mission,
                        ra_vol_id = m_vol_id mission, ra_workspace_prefix = ns_root namespace,
                        ra_upstream_artifact_ids = sr_upstream_artifact_ids source\<rparr>)
                     else Inl (ValueError ''Local workspace reuse requires an equivalent failed Kubernetes attempt from the same mission, stage, recipe, and upstream artifacts''))
                | None \<Rightarrow> Inl (ValueError ''Local workspace reuse requires an equivalent failed Kubernetes attempt from the same mission, stage, recipe, and upstream artifacts''))))
      | _ \<Rightarrow> Inl (ValueError ''local_workspace_reuse_run_id must be a non-empty string''))"

subsection \<open>Claiming a run\<close>

record expected_binding =
  xb_organization_id :: "string option"
  xb_mission_id :: "int option"
  xb_vol_id :: "string option"
  xb_workspace_prefix :: "string option"
  xb_owner_subject :: "string option"

definition expects :: "'a option \<Rightarrow> 'a \<Rightarrow> bool" where
  "expects expected actual = (case expected of None \<Rightarrow> True | Some x \<Rightarrow> actual = x)"

definition binding_mismatches :: "expected_binding \<Rightarrow> mission \<Rightarrow> string list" where
  "binding_mismatches e m =
     (if expects (xb_organization_id e) (m_organization_id m) then [] else [''organization_id''])
     @ (if expects (xb_mission_id e) (m_id m) then [] else [''mission_id''])
     @ (if expects (xb_vol_id e) (m_vol_id m) then [] else [''vol_id''])
     @ (if expects (xb_workspace_prefix e) (m_workspace_prefix m) then [] else [''workspace_prefix''])
     @ (if expects (xb_owner_subject e) (m_owner_subject m) then [] else [''owner_subject''])"

text \<open>The status checks of a claim, in the order the code makes them.\<close>

definition claim_guard :: "stage_id \<Rightarrow> mission \<Rightarrow> stage_run \<Rightarrow> analysis option res \<Rightarrow> unit res" where
  "claim_guard expected_stage mission run linked =
     (if sr_stage run \<noteq> expected_stage
        then Inl (ValueError (''Stage Job expected '' @ stage_name expected_stage @ '', durable run is ''
                    @ stage_name (sr_stage run)))
      else if sr_executor run \<noteq> Some ''kubernetes-job''
        then Inl (ValueError ''Stage run is not reserved for the Kubernetes Job executor'')
      else if sr_status run \<notin> {Queued, Running}
        then Inl (ValueError (''Stage run is not executable from status '' @ run_status_name (sr_status run)))
      else if mission_stopped mission
        then Inl (StageExecutionCancelled (''Mission '' @ m_vol_id mission @ '' is cancelled''))
      else rbind linked (\<lambda>analysis.
             (case analysis of
                None \<Rightarrow> Inr ()
              | Some a \<Rightarrow>
                  (if \<not> current_analysis_attempt a run \<or> ar_status a = AnalysisCancelled
                   then Inl (StageExecutionCancelled ''Analysis attempt is no longer active'')
                   else Inr ()))))"

definition input_artifacts :: "db \<Rightarrow> mission \<Rightarrow> string list \<Rightarrow> artifact list" where
  "input_artifacts d mission ids =
     filter (\<lambda>a. ma_mission_id a = m_id mission \<and> ma_artifact_id a \<in> set ids) (db_artifacts d)"

text \<open>The artifact a dictionary filled in row order holds under an identifier.\<close>

definition artifact_by_id :: "artifact list \<Rightarrow> string \<Rightarrow> artifact option" where
  "artifact_by_id as i = find (\<lambda>a. ma_artifact_id a = i) (rev as)"

definition input_of :: "artifact list \<Rightarrow> string \<Rightarrow> artifact_input res" where
  "input_of as i =
     (case artifact_by_id as i of
        None \<Rightarrow> Inl (KeyError i)
      | Some a \<Rightarrow> Inr \<lparr>si_artifact_id = i, si_kind = ma_kind a, si_uri = ma_uri a,
          si_checksum_sha256 = ma_checksum_sha256 a, si_size_bytes = ma_size_bytes a,
          si_metadata = ma_metadata a\<rparr>)"

definition claim_run :: "instant \<Rightarrow> stage_run \<Rightarrow> stage_run" where
  "claim_run now run =
     run\<lparr>sr_status := Running,
         sr_started_at := (case sr_started_at run of None \<Rightarrow> Some now | t \<Rightarrow> t),
         sr_heartbeat_at := Some now, sr_current_step := Some ''EXECUTING'', sr_dispatch_error := None\<rparr>"

definition context_analysis :: "analysis \<Rightarrow> dict" where
  "context_analysis a = fmap_of_list
     [(''run_id'', PStr (ar_run_id a)), (''name'', PStr (ar_name a)),
      (''description'', PStr (opt_text (ar_description a))), (''color'', PStr (ar_color a)),
      (''tags'', py_or (ar_tags a) (PList [])), (''persist_results'', PBool (ar_persist_results a))]"

definition load_stage_execution_context ::
  "world \<Rightarrow> instant \<Rightarrow> string \<Rightarrow> stage_id \<Rightarrow> expected_binding \<Rightarrow> db \<Rightarrow> (execution_context \<times> db) res" where
  "load_stage_execution_context w now run_id expected_stage expected d =
     rbind (run_by_run_id d run_id) (\<lambda>run.
     rbind (mission_by_id d (sr_mission_id run)) (\<lambda>mission.
     rbind (ns_from_binding (m_organization_id mission) (m_vol_id mission) (Some (m_workspace_prefix mission))) (\<lambda>namespace.
       if binding_mismatches expected mission \<noteq> []
       then Inl (ValueError (''Stage Job binding does not match durable mission fields: ''
                   @ join_text '', '' (binding_mismatches expected mission)))
       else
         rbind (claim_guard expected_stage mission run (linked_analysis d run)) (\<lambda>_.
         rbind (linked_analysis d run) (\<lambda>analysis.
           (let input_ids = sr_upstream_artifact_ids run;
                artifacts = input_artifacts d mission input_ids
            in if set (map ma_artifact_id artifacts) \<noteq> set input_ids
               then Inl (ValueError ''One or more durable upstream artifacts are missing'')
               else
                 rbind (authorize_local_workspace_reuse d mission run namespace) (\<lambda>reuse.
                   (let claimed = claim_run now run
                    in rbind (sync_analysis_stage w now claimed (put_run claimed d)) (\<lambda>(run', d').
                       rbind (rmap (input_of artifacts) input_ids) (\<lambda>inputs.
                         Inr (\<lparr>sx_run_id = sr_run_id run', sx_mission_id = m_id mission,
                               sx_organization_id = m_organization_id mission, sx_vol_id = m_vol_id mission,
                               sx_workspace_prefix = ns_root namespace,
                               sx_owner_subject = m_owner_subject mission, sx_stage = sr_stage run',
                               sx_attempt = sr_attempt run', sx_mission_attempt = m_retry_count mission,
                               sx_parameters = sr_parameters run',
                               sx_mission_parameters = dict_or (m_params mission), sx_inputs = inputs,
                               sx_run_provenance = sr_provenance run',
                               sx_analysis = map_option context_analysis analysis, sx_reuse = reuse\<rparr>, d')))))))))))"

subsection \<open>Heartbeats and progress\<close>

record control =
  ct_run_id :: string
  ct_cancelled :: bool
  ct_failure :: bool

definition heartbeat :: "world \<Rightarrow> instant \<Rightarrow> string \<Rightarrow> db \<Rightarrow> (bool \<times> db) res" where
  "heartbeat w now run_id d =
     rbind (run_by_run_id d run_id) (\<lambda>run.
     rbind (mission_by_id d (sr_mission_id run)) (\<lambda>mission.
       if mission_stopped mission \<or> sr_status run = Cancelled
       then (let run1 = run\<lparr>sr_status := Cancelled, sr_completed_at := Some now\<rparr>
             in rbind (sync_analysis_stage w now run1 (put_run run1 d)) (\<lambda>(_, d'). Inr (False, d')))
       else (let run1 = run\<lparr>sr_heartbeat_at := Some now\<rparr>
             in rbind (sync_analysis_stage w now run1 (put_run run1 d)) (\<lambda>(_, d'). Inr (True, d')))))"

definition report_progress :: "world \<Rightarrow> instant \<Rightarrow> string \<Rightarrow> int \<Rightarrow> int \<Rightarrow> db \<Rightarrow> db res" where
  "report_progress w now run_id completed tiles d =
     (if \<not> (0 \<le> completed \<and> completed \<le> tiles) \<or> tiles < 1
      then Inl (ValueError ''Invalid stage progress counters'')
      else
        rbind (run_by_run_id d run_id) (\<lambda>run.
          if sr_status run \<noteq> Running
          then Inl (StageExecutionCancelled ''Stage stopped before progress update'')
          else
            (let run1 = run\<lparr>sr_progress := min 99 (py_round (of_int (100 * completed) / of_int tiles)),
                   sr_quality_metrics := dict_merge (sr_quality_metrics run)
                     (fmap_of_list [(''tile_count'', PInt tiles), (''tiles_completed'', PInt completed)]),
                   sr_heartbeat_at := Some now\<rparr>
             in rbind (sync_analysis_stage w now run1 (put_run run1 d)) (\<lambda>(_, d'). Inr d'))))"

text \<open>The background thread: a heartbeat per elapsed interval until one stops it.\<close>

fun heartbeat_loop :: "world \<Rightarrow> instant list \<Rightarrow> control \<Rightarrow> db \<Rightarrow> control \<times> db" where
  "heartbeat_loop w [] ct d = (ct, d)"
| "heartbeat_loop w (now # ticks) ct d =
     (case in_session None None (heartbeat w now (ct_run_id ct)) d of
        (Inl _, d') \<Rightarrow> (ct\<lparr>ct_failure := True\<rparr>, d')
      | (Inr False, d') \<Rightarrow> (ct\<lparr>ct_cancelled := True\<rparr>, d')
      | (Inr True, d') \<Rightarrow> heartbeat_loop w ticks ct d')"

definition raise_if_cancelled :: "world \<Rightarrow> instant \<Rightarrow> control \<Rightarrow> db \<Rightarrow> unit res \<times> db" where
  "raise_if_cancelled w now ct d =
     (if ct_failure ct then (Inl (RuntimeError ''Stage heartbeat failed''), d)
      else if ct_cancelled ct
        then (Inl (StageExecutionCancelled (''Stage run '' @ ct_run_id ct @ '' was cancelled'')), d)
      else (case in_session None None (heartbeat w now (ct_run_id ct)) d of
              (Inl e, d') \<Rightarrow> (Inl e, d')
            | (Inr True, d') \<Rightarrow> (Inr (), d')
            | (Inr False, d') \<Rightarrow>
                (Inl (StageExecutionCancelled (''Stage run '' @ ct_run_id ct @ '' was cancelled'')), d')))"

subsection \<open>Publication\<close>

definition artifact_identity :: "world \<Rightarrow> execution_context \<Rightarrow> execution_result \<Rightarrow> string" where
  "artifact_identity w context result =
     w_uuid5 w (''droneai:'' @ sx_run_id context @ '':'' @ xr_kind result @ '':'' @ xr_checksum_sha256 result)"

definition new_artifact ::
  "int \<Rightarrow> string \<Rightarrow> instant \<Rightarrow> mission \<Rightarrow> stage_run \<Rightarrow> execution_result \<Rightarrow> artifact" where
  "new_artifact i artifact_id now mission run result =
     \<lparr>ma_id = i, ma_artifact_id = artifact_id, ma_mission_id = m_id mission, ma_stage_run_id = sr_id run,
      ma_kind = xr_kind result, ma_uri = xr_uri result, ma_checksum_sha256 = xr_checksum_sha256 result,
      ma_size_bytes = Some (xr_size_bytes result), ma_metadata = xr_metadata result, ma_created_at = now\<rparr>"

definition input_ids :: "execution_context \<Rightarrow> string list" where
  "input_ids context = map si_artifact_id (sx_inputs context)"

text \<open>A new artifact, with its storage reserved and its parents linked.\<close>

definition add_artifact ::
  "world \<Rightarrow> instant \<Rightarrow> execution_context \<Rightarrow> execution_result \<Rightarrow> string \<Rightarrow> mission \<Rightarrow> stage_run \<Rightarrow> db \<Rightarrow> db res" where
  "add_artifact w now context result artifact_id mission run d =
     rbind (reserve_stage_output_storage w (sx_organization_id context) (sx_run_id context) artifact_id
              (xr_size_bytes result) ''system:stage-executor'' d) (\<lambda>d1.
       (let a = new_artifact (next_id (map ma_id (db_artifacts d1))) artifact_id now mission run result;
            d2 = d1\<lparr>db_artifacts := db_artifacts d1 @ [a]\<rparr>;
            parents = input_artifacts d2 mission (input_ids context)
        in Inr (d2\<lparr>db_parents := db_parents d2 @
             map (\<lambda>p. \<lparr>mp_artifact_id = ma_id a, mp_parent_artifact_id = ma_id p, mp_relation = ''derived_from''\<rparr>)
               parents\<rparr>)))"

definition parent_ids :: "db \<Rightarrow> artifact \<Rightarrow> string set" where
  "parent_ids d a = set (map ma_artifact_id
     (concat (map (\<lambda>e. filter (\<lambda>p. ma_id p = mp_parent_artifact_id e) (db_artifacts d))
       (filter (\<lambda>e. mp_artifact_id e = ma_id a) (db_parents d)))))"

definition artifact_matches ::
  "db \<Rightarrow> execution_context \<Rightarrow> execution_result \<Rightarrow> mission \<Rightarrow> stage_run \<Rightarrow> artifact \<Rightarrow> bool" where
  "artifact_matches d context result mission run a \<longleftrightarrow>
     ma_mission_id a = m_id mission \<and> ma_stage_run_id a = sr_id run \<and> ma_kind a = xr_kind result
     \<and> ma_uri a = xr_uri result \<and> ma_checksum_sha256 a = xr_checksum_sha256 result
     \<and> ma_size_bytes a = Some (xr_size_bytes result) \<and> dict_eq (ma_metadata a) (xr_metadata result)
     \<and> parent_ids d a = set (input_ids context)"

definition ensure_artifact ::
  "world \<Rightarrow> instant \<Rightarrow> execution_context \<Rightarrow> execution_result \<Rightarrow> string \<Rightarrow> mission \<Rightarrow> stage_run \<Rightarrow> db \<Rightarrow> db res" where
  "ensure_artifact w now context result artifact_id mission run d =
     (case first_row (filter (\<lambda>a. ma_artifact_id a = artifact_id) (db_artifacts d)) of
        None \<Rightarrow> add_artifact w now context result artifact_id mission run d
      | Some existing \<Rightarrow>
          (if artifact_matches d context result mission run existing then Inr d
           else Inl (ValueError ''Deterministic artifact identity has conflicting data'')))"

definition record_result :: "execution_result \<Rightarrow> stage_run \<Rightarrow> stage_run" where
  "record_result result run =
     run\<lparr>sr_quality_metrics := xr_quality_metrics result,
         sr_provenance := dict_merge (sr_provenance run) (xr_provenance result)\<rparr>"

text \<open>The end of a publication: features, success, projection, release of the dependants.\<close>

definition finish_publication ::
  "world \<Rightarrow> instant \<Rightarrow> execution_result \<Rightarrow> mission \<Rightarrow> stage_run \<Rightarrow> db \<Rightarrow> db res" where
  "finish_publication w now result mission run d =
     (let run1 = record_result result run
      in rbind (publish_analysis_features w now run1 (xr_metadata result) (xr_analysis_features result)
                  (put_run run1 d)) (\<lambda>d1.
           (let run2 = mark_stage_run_succeeded now run1
            in rbind (sync_analysis_stage w now run2 (put_run run2 d1)) (\<lambda>(_, d2).
                 Inr (if sr_analysis_run_id run = None then snd (release_ready_stage_runs mission d2) else d2)))))"

definition publish_result ::
  "world \<Rightarrow> instant \<Rightarrow> execution_context \<Rightarrow> execution_result \<Rightarrow> db \<Rightarrow> (string \<times> db) res" where
  "publish_result w now context result d =
     (if xr_kind result \<noteq> stage_artifact_kind (sx_stage context)
      then Inl (ValueError (''Stage '' @ stage_name (sx_stage context) @ '' must publish artifact kind ''
                  @ stage_artifact_kind (sx_stage context) @ '', not '' @ xr_kind result))
      else
        (let artifact_id = artifact_identity w context result
         in rbind (mission_by_id d (sx_mission_id context)) (\<lambda>mission.
            rbind (one_row (filter (\<lambda>r. sr_run_id r = sx_run_id context \<and> sr_mission_id r = m_id mission) (db_runs d))) (\<lambda>run.
              if mission_stopped mission \<or> sr_status run = Cancelled
                then Inl (StageExecutionCancelled (''Mission '' @ sx_vol_id context @ '' was cancelled''))
              else if sr_status run \<noteq> Running
                then Inl (ValueError (''Stage result cannot publish from status '' @ run_status_name (sr_status run)))
              else
                rbind (ensure_artifact w now context result artifact_id mission run d) (\<lambda>d1.
                rbind (finish_publication w now result mission run d1) (\<lambda>d2.
                  Inr (artifact_id, d2)))))))"

subsection \<open>Failures\<close>

definition effective_terminal :: "run_status \<Rightarrow> mission \<Rightarrow> stage_run \<Rightarrow> run_status" where
  "effective_terminal status mission run =
     (if status = Failed \<and> (mission_stopped mission \<or> sr_status run = Cancelled) then Cancelled else status)"

definition terminal_run ::
  "instant \<Rightarrow> run_status \<Rightarrow> string option \<Rightarrow> dict option \<Rightarrow> dict \<Rightarrow> stage_run \<Rightarrow> stage_run" where
  "terminal_run now effective message quality_metrics rejection_evidence run =
     run\<lparr>sr_status := effective,
         sr_current_step := Some (str_upper (run_status_name effective)),
         sr_error_message := (if effective = Cancelled then None else message),
         sr_quality_metrics := (case quality_metrics of None \<Rightarrow> sr_quality_metrics run | Some q \<Rightarrow> q),
         sr_provenance := (if rejection_evidence \<noteq> fmempty
            then fmupd ''quality_gate_rejection'' (PDict rejection_evidence) (sr_provenance run)
            else sr_provenance run),
         sr_heartbeat_at := Some now, sr_completed_at := Some now\<rparr>"

definition mark_terminal ::
  "world \<Rightarrow> instant \<Rightarrow> string \<Rightarrow> run_status \<Rightarrow> string option \<Rightarrow> dict option \<Rightarrow> dict \<Rightarrow> db \<Rightarrow> (run_status \<times> db) res" where
  "mark_terminal w now run_id status message quality_metrics rejection_evidence d =
     rbind (run_by_run_id d run_id) (\<lambda>run.
     rbind (mission_by_id d (sr_mission_id run)) (\<lambda>mission.
       (let effective = effective_terminal status mission run;
            run1 = terminal_run now effective message quality_metrics rejection_evidence run
        in rbind (sync_analysis_stage w now run1 (put_run run1 d)) (\<lambda>(_, d'). Inr (effective, d')))))"

definition record_execution_failure :: "world \<Rightarrow> instant \<Rightarrow> string \<Rightarrow> stage_failure \<Rightarrow> db \<Rightarrow> unit res \<times> db" where
  "record_execution_failure w now run_id failure d =
     (let metrics = (case failure of QualityGateRejected _ q _ \<Rightarrow> Some q | _ \<Rightarrow> None);
          evidence = (case failure of QualityGateRejected _ _ ev \<Rightarrow> ev | _ \<Rightarrow> fmempty)
      in case in_session None None
                (mark_terminal w now run_id Failed (Some (take 4000 (failure_text failure))) metrics evidence) d of
           (Inl e, d') \<Rightarrow> (Inl e, d')
         | (Inr status, d') \<Rightarrow>
             (if status = Cancelled
              then (Inl (StageExecutionCancelled (''Stage run '' @ run_id @ '' was cancelled'')), d')
              else (Inr (), d')))"

subsection \<open>One execution\<close>

definition py_isdigit :: "string \<Rightarrow> bool" where
  "py_isdigit s \<longleftrightarrow> s \<noteq> [] \<and> list_all (\<lambda>c. is_digit c \<or> (of_char c :: nat) \<in> {178, 179, 185}) s"

definition getenv_strip :: "(string \<rightharpoonup> string) \<Rightarrow> string \<Rightarrow> string" where
  "getenv_strip environ name = str_strip (opt_text (environ name))"

definition nonempty :: "string \<Rightarrow> string option" where
  "nonempty s = (if s = [] then None else Some s)"

definition prepare_execution ::
  "world \<Rightarrow> instant \<Rightarrow> (string \<rightharpoonup> string) \<Rightarrow> stage_id \<Rightarrow> string option \<Rightarrow> db
     \<Rightarrow> (string \<times> execution_context) res \<times> db" where
  "prepare_execution w now environ expected_stage run_id d =
     (let durable_run_id = (case run_id of Some i \<Rightarrow> (if i = [] then getenv_strip environ ''DRONEAI_STAGE_RUN_ID'' else i)
            | None \<Rightarrow> getenv_strip environ ''DRONEAI_STAGE_RUN_ID'')
      in if durable_run_id = [] then (Inl (ValueError ''DRONEAI_STAGE_RUN_ID is required''), d)
         else
           (let raw_mission_id = getenv_strip environ ''DRONEAI_MISSION_ID''
            in case (if raw_mission_id = [] then Inr None
                     else (case parse_int raw_mission_id of
                             Some n \<Rightarrow> (if \<not> py_isdigit raw_mission_id \<or> n < 1
                                then Inl (ValueError ''DRONEAI_MISSION_ID must be a positive integer'')
                                else Inr (Some n))
                           | None \<Rightarrow> Inl (ValueError ''DRONEAI_MISSION_ID must be a positive integer''))) of
                 Inl e \<Rightarrow> (Inl e, d)
               | Inr mission_id \<Rightarrow>
                   (case in_session None (nonempty (getenv_strip environ ''DRONEAI_ORGANIZATION_ID''))
                      (load_stage_execution_context w now durable_run_id expected_stage
                        \<lparr>xb_organization_id = nonempty (getenv_strip environ ''DRONEAI_ORGANIZATION_ID''),
                         xb_mission_id = mission_id,
                         xb_vol_id = nonempty (getenv_strip environ ''DRONEAI_VOL_ID''),
                         xb_workspace_prefix = nonempty (getenv_strip environ ''DRONEAI_WORKSPACE_PREFIX''),
                         xb_owner_subject = nonempty (getenv_strip environ ''DRONEAI_OWNER_SUBJECT'')\<rparr>) d of
                      (Inl e, d') \<Rightarrow> (Inl e, d')
                    | (Inr context, d') \<Rightarrow> (Inr (durable_run_id, context), d'))))"

text \<open>
  The \<open>except\<close> clauses shared by stages and subtasks: a cancellation is recorded as such,
  any other failure under the terminal failure policy; the failure is raised again, unless
  recording it raises.
\<close>

definition handle_failure :: "world \<Rightarrow> instant \<Rightarrow> string \<Rightarrow> stage_failure \<Rightarrow> db \<Rightarrow> stage_failure \<times> db" where
  "handle_failure w now run_id failure d =
     (case failure of
        StageCancelled s \<Rightarrow>
          (case in_session None None (mark_terminal w now run_id Cancelled None None fmempty) d of
             (Inl e, d') \<Rightarrow> (failure_of e, d')
           | (Inr _, d') \<Rightarrow> (failure, d'))
      | _ \<Rightarrow>
          (case record_execution_failure w now run_id failure d of
             (Inl e, d') \<Rightarrow> (failure_of e, d')
           | (Inr _, d') \<Rightarrow> (failure, d')))"

type_synonym 'r stage_handler = "execution_context \<Rightarrow> db \<Rightarrow> (stage_failure + 'r) \<times> control \<times> db"

definition execute_one_shot_stage ::
  "world \<Rightarrow> (nat \<Rightarrow> instant) \<Rightarrow> (string \<rightharpoonup> string) \<Rightarrow> stage_id \<Rightarrow> execution_result stage_handler \<Rightarrow> string option \<Rightarrow> db
     \<Rightarrow> (stage_failure + string) \<times> db" where
  "execute_one_shot_stage w clock environ expected_stage handler run_id d =
     (case prepare_execution w (clock 0) environ expected_stage run_id d of
        (Inl e, d1) \<Rightarrow> (Inl (failure_of e), d1)
      | (Inr (durable_run_id, context), d1) \<Rightarrow>
          (case handler context d1 of
             (Inl failure, _, d2) \<Rightarrow>
               (case handle_failure w (clock 3) durable_run_id failure d2 of (f, d3) \<Rightarrow> (Inl f, d3))
           | (Inr result, ct, d2) \<Rightarrow>
               (case raise_if_cancelled w (clock 1) (ct\<lparr>ct_run_id := durable_run_id\<rparr>) d2 of
                  (Inl e, d3) \<Rightarrow>
                    (case handle_failure w (clock 3) durable_run_id (failure_of e) d3 of (f, d4) \<Rightarrow> (Inl f, d4))
                | (Inr _, d3) \<Rightarrow>
                    (case in_session None None (publish_result w (clock 2) context result) d3 of
                       (Inr artifact_id, d4) \<Rightarrow> (Inr artifact_id, d4)
                     | (Inl e, d4) \<Rightarrow>
                         (case handle_failure w (clock 3) durable_run_id (failure_of e) d4 of
                            (f, d5) \<Rightarrow> (Inl f, d5))))))"

definition execute_stage_subtask ::
  "world \<Rightarrow> (nat \<Rightarrow> instant) \<Rightarrow> (string \<rightharpoonup> string) \<Rightarrow> stage_id \<Rightarrow> unit stage_handler \<Rightarrow> string option \<Rightarrow> db
     \<Rightarrow> (stage_failure + unit) \<times> db" where
  "execute_stage_subtask w clock environ expected_stage handler run_id d =
     (case prepare_execution w (clock 0) environ expected_stage run_id d of
        (Inl e, d1) \<Rightarrow> (Inl (failure_of e), d1)
      | (Inr (durable_run_id, context), d1) \<Rightarrow>
          (case handler context d1 of
             (Inl failure, _, d2) \<Rightarrow>
               (case handle_failure w (clock 2) durable_run_id failure d2 of (f, d3) \<Rightarrow> (Inl f, d3))
           | (Inr _, ct, d2) \<Rightarrow>
               (case raise_if_cancelled w (clock 1) (ct\<lparr>ct_run_id := durable_run_id\<rparr>) d2 of
                  (Inl e, d3) \<Rightarrow>
                    (case handle_failure w (clock 2) durable_run_id (failure_of e) d3 of (f, d4) \<Rightarrow> (Inl f, d4))
                | (Inr _, d3) \<Rightarrow> (Inr (), d3))))"


subsection \<open>Facts about publication\<close>

lemma reserve_stage_output_frame [frame_simps]:
  assumes "reserve_stage_output_storage w org run art n actor d = Inr d'"
  shows "db_missions d' = db_missions d" "db_runs d' = db_runs d" "db_receipts d' = db_receipts d"
    "db_artifacts d' = db_artifacts d" "db_parents d' = db_parents d" "db_analyses d' = db_analyses d"
    "db_features d' = db_features d" "db_policies d' = db_policies d" "db_datasets d' = db_datasets d"
    "db_uploads d' = db_uploads d"
proof -
  from reserve_stage_output_Inr [OF assms] obtain x e where "append_usage_event w e d = Inr (x, d')" by blast
  from append_usage_event_frame [OF this] show "db_missions d' = db_missions d" "db_runs d' = db_runs d"
    "db_receipts d' = db_receipts d" "db_artifacts d' = db_artifacts d" "db_parents d' = db_parents d"
    "db_analyses d' = db_analyses d" "db_features d' = db_features d" "db_policies d' = db_policies d"
    "db_datasets d' = db_datasets d" "db_uploads d' = db_uploads d" by simp_all
qed

lemma ensure_artifact_cases:
  assumes "ensure_artifact w now context result aid mission run d = Inr d1"
  shows "db_runs d1 = db_runs d" "db_missions d1 = db_missions d" "db_analyses d1 = db_analyses d"
    "db_datasets d1 = db_datasets d" "db_uploads d1 = db_uploads d" "db_policies d1 = db_policies d"
    "db_features d1 = db_features d" "db_receipts d1 = db_receipts d"
    "(\<exists>a \<in> set (db_artifacts d). ma_artifact_id a = aid \<and> artifact_matches d context result mission run a \<and> d1 = d)
     \<or> ((\<forall>a \<in> set (db_artifacts d). ma_artifact_id a \<noteq> aid)
        \<and> (\<exists>i. db_artifacts d1 = db_artifacts d @ [new_artifact i aid now mission run result]
             \<and> i \<notin> set (map ma_id (db_artifacts d)))
        \<and> check_storage_reservation d (sx_organization_id context) (xr_size_bytes result)
             = Inr (storage_usage_bytes d (sx_organization_id context)))"
proof -
  show "db_runs d1 = db_runs d" "db_missions d1 = db_missions d" "db_analyses d1 = db_analyses d"
    "db_datasets d1 = db_datasets d" "db_uploads d1 = db_uploads d" "db_policies d1 = db_policies d"
    "db_features d1 = db_features d" "db_receipts d1 = db_receipts d"
    using assms
    by (auto simp: ensure_artifact_def add_artifact_def rbind_Inr_iff Let_def reserve_stage_output_frame
        split: option.splits if_splits)
  show "(\<exists>a \<in> set (db_artifacts d). ma_artifact_id a = aid \<and> artifact_matches d context result mission run a \<and> d1 = d)
     \<or> ((\<forall>a \<in> set (db_artifacts d). ma_artifact_id a \<noteq> aid)
        \<and> (\<exists>i. db_artifacts d1 = db_artifacts d @ [new_artifact i aid now mission run result]
             \<and> i \<notin> set (map ma_id (db_artifacts d)))
        \<and> check_storage_reservation d (sx_organization_id context) (xr_size_bytes result)
             = Inr (storage_usage_bytes d (sx_organization_id context)))"
  proof (cases "first_row (filter (\<lambda>a. ma_artifact_id a = aid) (db_artifacts d))")
    case None
    then have none: "\<forall>a \<in> set (db_artifacts d). ma_artifact_id a \<noteq> aid" by (auto simp: filter_empty_conv)
    from assms None obtain d2 where res: "reserve_stage_output_storage w (sx_organization_id context) (sx_run_id context) aid
        (xr_size_bytes result) ''system:stage-executor'' d = Inr d2"
      and d1: "db_artifacts d1 = db_artifacts d2 @ [new_artifact (next_id (map ma_id (db_artifacts d2))) aid now mission run result]"
      by (auto simp: ensure_artifact_def add_artifact_def rbind_Inr_iff Let_def)
    from reserve_stage_output_Inr [OF res] obtain x e where
      c: "check_storage_reservation d (sx_organization_id context) (xr_size_bytes result)
             = Inr (storage_usage_bytes d (sx_organization_id context))"
      and app: "append_usage_event w e d = Inr (x, d2)" by blast
    have "db_artifacts d2 = db_artifacts d" using append_usage_event_frame [OF app] by simp
    with none c d1 next_id_fresh [of "map ma_id (db_artifacts d)"] show ?thesis by auto
  next
    case (Some a)
    then have "a \<in> set (db_artifacts d) \<and> ma_artifact_id a = aid" by (auto dest: first_row_Some_mem)
    with Some assms show ?thesis by (auto simp: ensure_artifact_def split: if_splits)
  qed
qed

lemma finish_publication_row:
  assumes "finish_publication w now result mission run d = Inr d'"
    and "run \<in> set (db_runs d)" and "distinct (map sr_id (db_runs d))"
  shows "mark_stage_run_succeeded now (record_result result run) \<in> set (db_runs d')"
    and "map sr_id (db_runs d') = map sr_id (db_runs d)" "db_artifacts d' = db_artifacts d"
    "db_missions d' = db_missions d" "db_usage d' = db_usage d" "db_policies d' = db_policies d"
    "db_datasets d' = db_datasets d" "db_uploads d' = db_uploads d"
proof -
  let ?run1 = "record_result result run" and ?run2 = "mark_stage_run_succeeded now (record_result result run)"
  from assms(1) obtain d1 s d2 where
    pub: "publish_analysis_features w now ?run1 (xr_metadata result) (xr_analysis_features result) (put_run ?run1 d) = Inr d1"
    and sync: "sync_analysis_stage w now ?run2 (put_run ?run2 d1) = Inr (s, d2)"
    and d': "d' = (if sr_analysis_run_id run = None then snd (release_ready_stage_runs mission d2) else d2)"
    by (auto simp: finish_publication_def rbind_Inr_iff Let_def)
  have id1: "sr_id ?run1 = sr_id run" by (simp add: record_result_def)
  have id2: "sr_id ?run2 = sr_id run" by (simp add: mark_stage_run_succeeded_def record_result_def)
  have "?run1 \<in> set (db_runs (put_run ?run1 d))" using assms(2) id1 by (intro runs.put_present) simp_all
  then have run1: "?run1 \<in> set (db_runs d1)" by (simp add: publish_features_frame(2) [OF pub])
  have run2: "?run2 \<in> set (db_runs (put_run ?run2 d1))" by (rule runs.put_present [OF run1]) (simp only: id1 id2)
  have s: "s = ?run2"
    using sync
  proof (cases rule: sync_cases)
    case (Current a a')
    then show ?thesis by (auto simp: shard_progress_def mark_stage_run_succeeded_def active_status_def Let_def)
  qed simp_all
  have row: "?run2 \<in> set (db_runs d2)" using sync_rows(1) [OF sync run2] s by simp
  have keys: "map sr_id (db_runs d2) = map sr_id (db_runs d)"
    using sync_ids(1) [OF sync] publish_features_frame(2) [OF pub] by (simp add: runs.keys_put)
  then have dist: "distinct (map sr_id (db_runs d2))" using assms(3) by simp
  have "?run2 \<in> set (db_runs (snd (release_ready_stage_runs mission d2)))"
  proof -
    have "\<not> blocked_pipeline_run mission ?run2" by (simp add: blocked_pipeline_run_def mark_stage_run_succeeded_def)
    with row show ?thesis by (auto simp: release_rows [OF dist] intro!: image_eqI [of _ _ ?run2])
  qed
  with row show "?run2 \<in> set (db_runs d')" by (simp add: d')
  have "map sr_id (db_runs (snd (release_ready_stage_runs mission d2))) = map sr_id (db_runs d2)"
    by (simp add: release_ready_stage_runs_def Let_def put_runs_keys)
  with keys show "map sr_id (db_runs d') = map sr_id (db_runs d)" by (simp add: d')
  have rel: "db_datasets (put_runs rs x) = db_datasets x" "db_uploads (put_runs rs x) = db_uploads x" for rs x
    by (induction rs arbitrary: x) simp_all
  show "db_artifacts d' = db_artifacts d" "db_missions d' = db_missions d" "db_usage d' = db_usage d"
    "db_policies d' = db_policies d" "db_datasets d' = db_datasets d" "db_uploads d' = db_uploads d"
    using publish_features_frame [OF pub] sync_frame [OF sync] by (simp_all add: d' release_ready_stage_runs_def Let_def rel)
qed

lemma publish_result_Inr:
  assumes "publish_result w now context result d = Inr (aid, d')" and "distinct (map sr_id (db_runs d))"
  obtains mission run d1 where
    "aid = artifact_identity w context result" "xr_kind result = stage_artifact_kind (sx_stage context)"
    "mission \<in> set (db_missions d)" "m_id mission = sx_mission_id context" "\<not> mission_stopped mission"
    "run \<in> set (db_runs d)" "sr_run_id run = sx_run_id context" "sr_mission_id run = m_id mission"
    "sr_status run = Running"
    "ensure_artifact w now context result aid mission run d = Inr d1"
    "finish_publication w now result mission run d1 = Inr d'"
proof -
  from assms(1) obtain mission run d1 where
    a: "aid = artifact_identity w context result" and k: "xr_kind result = stage_artifact_kind (sx_stage context)"
    and m: "mission_by_id d (sx_mission_id context) = Inr mission"
    and r: "one_row (filter (\<lambda>r. sr_run_id r = sx_run_id context \<and> sr_mission_id r = m_id mission) (db_runs d)) = Inr run"
    and g: "\<not> mission_stopped mission" "sr_status run = Running"
    and e: "ensure_artifact w now context result aid mission run d = Inr d1"
    and fin: "finish_publication w now result mission run d1 = Inr d'"
    by (auto simp: publish_result_def rbind_Inr_iff Let_def split: if_splits)
  have "run \<in> set (filter (\<lambda>r. sr_run_id r = sx_run_id context \<and> sr_mission_id r = m_id mission) (db_runs d))"
    using r by (simp add: one_row_Inr)
  then have run: "run \<in> set (db_runs d)" "sr_run_id run = sx_run_id context" "sr_mission_id run = m_id mission"
    by simp_all
  from mission_by_id_Inr [OF m] have "mission \<in> set (db_missions d)" "m_id mission = sx_mission_id context" by simp_all
  from that [OF a k this g(1) run g(2) e fin] show thesis .
qed

subsection \<open>Properties of publication\<close>

text \<open>C22: a publication that returns has succeeded as a whole: the run was running under a live
  mission and is now succeeded at 100 percent with its metrics, the artifact of the
  deterministic identity exists with the published kind, checksum, address and size, bound
  to that run, and when the artifact was there before nothing is stored or charged again.\<close>

theorem publication_effect:
  assumes "publish_result w now context result d = Inr (aid, d')" and "distinct (map sr_id (db_runs d))"
  shows "aid = artifact_identity w context result \<and> xr_kind result = stage_artifact_kind (sx_stage context)
    \<and> (\<exists>run \<in> set (db_runs d). \<exists>run' \<in> set (db_runs d'). \<exists>a \<in> set (db_artifacts d').
        sr_run_id run = sx_run_id context \<and> sr_mission_id run = sx_mission_id context \<and> sr_status run = Running
        \<and> sr_id run' = sr_id run \<and> sr_status run' = Succeeded \<and> sr_progress run' = 100
        \<and> sr_quality_metrics run' = xr_quality_metrics result \<and> sr_completed_at run' = Some now
        \<and> ma_artifact_id a = aid \<and> ma_stage_run_id a = sr_id run \<and> ma_mission_id a = sx_mission_id context
        \<and> ma_kind a = xr_kind result \<and> ma_checksum_sha256 a = xr_checksum_sha256 result
        \<and> ma_uri a = xr_uri result \<and> ma_size_bytes a = Some (xr_size_bytes result)
        \<and> (if \<exists>b \<in> set (db_artifacts d). ma_artifact_id b = aid
           then db_artifacts d' = db_artifacts d \<and> db_usage d' = db_usage d
           else db_artifacts d' = db_artifacts d @ [a]))"
proof -
  obtain mission run d1 where p: "aid = artifact_identity w context result"
    "xr_kind result = stage_artifact_kind (sx_stage context)"
    "mission \<in> set (db_missions d)" "m_id mission = sx_mission_id context" "\<not> mission_stopped mission"
    "run \<in> set (db_runs d)" "sr_run_id run = sx_run_id context" "sr_mission_id run = m_id mission"
    "sr_status run = Running"
    and ens: "ensure_artifact w now context result aid mission run d = Inr d1"
    and fin: "finish_publication w now result mission run d1 = Inr d'"
    using publish_result_Inr [OF assms] by metis
  note e = ensure_artifact_cases [OF ens]
  have run1: "run \<in> set (db_runs d1)" "distinct (map sr_id (db_runs d1))" using e(1) p(6) assms(2) by simp_all
  note f = finish_publication_row [OF fin run1]
  let ?run' = "mark_stage_run_succeeded now (record_result result run)"
  have run': "sr_id ?run' = sr_id run" "sr_status ?run' = Succeeded" "sr_progress ?run' = 100"
    "sr_quality_metrics ?run' = xr_quality_metrics result" "sr_completed_at ?run' = Some now"
    by (simp_all add: mark_stage_run_succeeded_def record_result_def)
  have "\<exists>a \<in> set (db_artifacts d'). ma_artifact_id a = aid \<and> ma_stage_run_id a = sr_id run
        \<and> ma_mission_id a = sx_mission_id context \<and> ma_kind a = xr_kind result
        \<and> ma_checksum_sha256 a = xr_checksum_sha256 result \<and> ma_uri a = xr_uri result
        \<and> ma_size_bytes a = Some (xr_size_bytes result)
        \<and> (if \<exists>b \<in> set (db_artifacts d). ma_artifact_id b = aid
           then db_artifacts d' = db_artifacts d \<and> db_usage d' = db_usage d
           else db_artifacts d' = db_artifacts d @ [a])"
    using e(9)
  proof
    assume "\<exists>a \<in> set (db_artifacts d). ma_artifact_id a = aid \<and> artifact_matches d context result mission run a \<and> d1 = d"
    then obtain a where "a \<in> set (db_artifacts d)" "ma_artifact_id a = aid"
      "artifact_matches d context result mission run a" "d1 = d" by blast
    then show ?thesis using f(3,5) p(4) by (intro bexI [of _ a]) (auto simp: artifact_matches_def)
  next
    assume new: "(\<forall>a \<in> set (db_artifacts d). ma_artifact_id a \<noteq> aid)
        \<and> (\<exists>i. db_artifacts d1 = db_artifacts d @ [new_artifact i aid now mission run result]
             \<and> i \<notin> set (map ma_id (db_artifacts d)))
        \<and> check_storage_reservation d (sx_organization_id context) (xr_size_bytes result)
             = Inr (storage_usage_bytes d (sx_organization_id context))"
    then obtain i where "db_artifacts d1 = db_artifacts d @ [new_artifact i aid now mission run result]" by blast
    with new show ?thesis using f(3) p(4)
      by (intro bexI [of _ "new_artifact i aid now mission run result"]) (auto simp: new_artifact_def)
  qed
  with p(1,2,4,6,7,8,9) f(1) run' show ?thesis by metis
qed

text \<open>Publications never take an organization above its storage limit: after one that
  stored a new artifact, everything stored and reserved for the organization, the artifact
  included, fits the limit of its policy.\<close>

theorem publication_keeps_storage_quota:
  assumes "publish_result w now context result d = Inr (aid, d')" and "distinct (map sr_id (db_runs d))"
    and "distinct (map m_id (db_missions d))"
    and "\<And>m. m \<in> set (db_missions d) \<Longrightarrow> m_id m = sx_mission_id context \<Longrightarrow> m_organization_id m = sx_organization_id context"
    and "list_all (\<lambda>a. ma_artifact_id a \<noteq> aid) (db_artifacts d)"
    and "get_policy d (sx_organization_id context) = Inr (Some p)" and "po_storage_limit_bytes p = Some limit"
  shows "storage_usage_bytes d' (sx_organization_id context)
      = storage_usage_bytes d (sx_organization_id context) + xr_size_bytes result
    \<and> storage_usage_bytes d' (sx_organization_id context) \<le> limit"
proof -
  let ?org = "sx_organization_id context"
  obtain mission run d1 where p: "mission \<in> set (db_missions d)" "m_id mission = sx_mission_id context"
    "run \<in> set (db_runs d)"
    and ens: "ensure_artifact w now context result aid mission run d = Inr d1"
    and fin: "finish_publication w now result mission run d1 = Inr d'"
    using publish_result_Inr [OF assms(1,2)] by metis
  note e = ensure_artifact_cases [OF ens]
  have run1: "run \<in> set (db_runs d1)" "distinct (map sr_id (db_runs d1))" using e(1) p(3) assms(2) by simp_all
  note f = finish_publication_row [OF fin run1]
  from e(9) assms(5) obtain i where a: "db_artifacts d1 = db_artifacts d @ [new_artifact i aid now mission run result]"
    and c: "check_storage_reservation d ?org (xr_size_bytes result) = Inr (storage_usage_bytes d ?org)"
    by (auto simp: list_all_iff)
  let ?a = "new_artifact i aid now mission run result"
  have org: "m_organization_id mission = ?org" using assms(4) p(1,2) by blast
  have "storage_usage_bytes d' ?org = storage_usage_bytes (d\<lparr>db_artifacts := db_artifacts d @ [?a]\<rparr>) ?org"
    using e f a by (intro storage_usage_cong) simp_all
  also have "\<dots> = storage_usage_bytes d ?org + size_or_zero (ma_size_bytes ?a)"
    using p(1,2) org by (intro storage_usage_new_artifact [OF assms(3) p(1)]) (simp_all add: new_artifact_def)
  also have "size_or_zero (ma_size_bytes ?a) = xr_size_bytes result" by (simp add: new_artifact_def size_or_zero_def)
  finally show ?thesis using check_storage_reservation_Inr [OF c] assms(6,7) by simp
qed


subsection \<open>Claims\<close>

lemma input_of_Inr: "input_of as i = Inr x \<Longrightarrow> si_artifact_id x = i \<and> (\<exists>a \<in> set as. ma_artifact_id a = i \<and> si_uri x = ma_uri a
    \<and> si_checksum_sha256 x = ma_checksum_sha256 a)"
  by (auto simp: input_of_def artifact_by_id_def find_Some_iff in_set_conv_nth rev_nth split: option.splits)
     (metis diff_less length_greater_0_conv length_pos_if_in_set nth_mem zero_less_Suc diff_Suc_less in_set_conv_nth)

lemma authorize_reuse_Inr:
  assumes "authorize_local_workspace_reuse d mission run namespace = Inr (Some auth)"
  shows "sr_stage run = GaussianTraining \<and> (\<exists>source \<in> set (db_runs d). sr_run_id source = ra_source_run_id auth
    \<and> same_lineage mission run source)"
proof -
  from assms obtain i source where
    "one_or_none (filter (\<lambda>r. sr_run_id r = i) (db_runs d)) = Inr (Some source)" "same_lineage mission run source"
    and auth: "ra_source_run_id auth = i" "sr_stage run = GaussianTraining"
    by (auto simp: authorize_local_workspace_reuse_def rbind_Inr_iff split: pyval.splits if_splits option.splits)
  then have "source \<in> set (filter (\<lambda>r. sr_run_id r = i) (db_runs d))" by (simp add: one_or_none_Some)
  with \<open>same_lineage mission run source\<close> auth show ?thesis by auto
qed

lemma claim_guard_Inr:
  assumes "claim_guard stage m run linked = Inr u"
  shows "sr_stage run = stage" "sr_executor run = Some ''kubernetes-job''" "active_status (sr_status run)"
    "\<not> mission_stopped m" "\<exists>x. linked = Inr x \<and> (\<forall>a. x = Some a \<longrightarrow> current_analysis_attempt a run \<and> ar_status a \<noteq> AnalysisCancelled)"
  using assms by (auto simp: claim_guard_def active_status_def rbind_Inr_iff split: if_splits option.splits)

text \<open>C23: a run is claimed only by the Job it was reserved for: the claim succeeds for an
  active Kubernetes run of the expected stage whose live mission agrees with every binding
  the container carries, hands over exactly the run's inputs, each an artifact of that
  mission, and leaves the run running; a workspace is reused only from an earlier failed
  attempt of the same mission and stage.\<close>

theorem claim_is_guarded:
  assumes "load_stage_execution_context w now run_id stage expected d = Inr (context, d')"
  shows "\<exists>run \<in> set (db_runs d). \<exists>m \<in> set (db_missions d). \<exists>run' \<in> set (db_runs d').
      sr_run_id run = run_id \<and> m_id m = sr_mission_id run \<and> sr_stage run = stage
    \<and> sr_executor run = Some ''kubernetes-job'' \<and> active_status (sr_status run) \<and> \<not> mission_stopped m
    \<and> binding_mismatches expected m = [] \<and> sx_organization_id context = m_organization_id m
    \<and> sx_mission_id context = m_id m
    \<and> input_ids context = sr_upstream_artifact_ids run
    \<and> list_all (\<lambda>x. list_ex (\<lambda>a. ma_artifact_id a = si_artifact_id x \<and> ma_mission_id a = m_id m
          \<and> ma_checksum_sha256 a = si_checksum_sha256 x) (db_artifacts d)) (sx_inputs context)
    \<and> sr_id run' = sr_id run \<and> sr_status run' = Running
    \<and> (\<forall>auth. sx_reuse context = Some auth \<longrightarrow> (\<exists>source \<in> set (db_runs d).
          sr_run_id source = ra_source_run_id auth \<and> sr_mission_id source = m_id m \<and> sr_stage source = stage
          \<and> sr_status source = Failed \<and> sr_attempt source < sr_attempt run))"
proof -
  from assms obtain run m ns u linked reuse run' inputs where
    run: "run_by_run_id d run_id = Inr run" and m: "mission_by_id d (sr_mission_id run) = Inr m"
    and bind: "binding_mismatches expected m = []"
    and guard: "claim_guard stage m run (linked_analysis d run) = Inr u"
    and reuse: "authorize_local_workspace_reuse d m run ns = Inr reuse"
    and sync: "sync_analysis_stage w now (claim_run now run) (put_run (claim_run now run) d) = Inr (run', d')"
    and inputs: "rmap (input_of (input_artifacts d m (sr_upstream_artifact_ids run))) (sr_upstream_artifact_ids run) = Inr inputs"
    and ctx: "sx_organization_id context = m_organization_id m" "sx_mission_id context = m_id m"
      "sx_inputs context = inputs" "sx_reuse context = reuse"
    by (auto simp: load_stage_execution_context_def rbind_Inr_iff Let_def split: if_splits)
  note r = run_by_run_id_Inr [OF run] and ms = mission_by_id_Inr [OF m] and g = claim_guard_Inr [OF guard]
  have id: "sr_id (claim_run now run) = sr_id run" "sr_status (claim_run now run) = Running"
    by (simp_all add: claim_run_def)
  have "claim_run now run \<in> set (db_runs (put_run (claim_run now run) d))"
    using r id by (intro runs.put_present) simp_all
  then have run': "run' \<in> set (db_runs d')" by (rule sync_rows(1) [OF sync])
  from rmap_all2 [OF inputs] have all2: "list_all2 (\<lambda>i x. input_of (input_artifacts d m (sr_upstream_artifact_ids run)) i = Inr x)
      (sr_upstream_artifact_ids run) inputs" .
  have "map si_artifact_id inputs = sr_upstream_artifact_ids run"
    by (rule nth_equalityI) (use all2 in \<open>auto simp: list_all2_conv_all_nth dest: input_of_Inr\<close>)
  then have ids: "input_ids context = sr_upstream_artifact_ids run" by (simp add: input_ids_def ctx(3))
  have "\<exists>a \<in> set (db_artifacts d). ma_artifact_id a = si_artifact_id x \<and> ma_mission_id a = m_id m
      \<and> ma_checksum_sha256 a = si_checksum_sha256 x" if "x \<in> set inputs" for x
  proof -
    from that obtain j where "j < length inputs" "inputs ! j = x" by (auto simp: in_set_conv_nth)
    with all2 have "input_of (input_artifacts d m (sr_upstream_artifact_ids run)) (sr_upstream_artifact_ids run ! j) = Inr x"
      by (auto simp: list_all2_conv_all_nth)
    from input_of_Inr [OF this] show ?thesis by (auto simp: input_artifacts_def)
  qed
  then have inp: "list_all (\<lambda>x. list_ex (\<lambda>a. ma_artifact_id a = si_artifact_id x \<and> ma_mission_id a = m_id m
          \<and> ma_checksum_sha256 a = si_checksum_sha256 x) (db_artifacts d)) (sx_inputs context)"
    by (simp add: list_all_iff list_ex_iff ctx(3))
  have src: "\<exists>source \<in> set (db_runs d). sr_run_id source = ra_source_run_id auth \<and> sr_mission_id source = m_id m
      \<and> sr_stage source = stage \<and> sr_status source = Failed \<and> sr_attempt source < sr_attempt run"
    if "sx_reuse context = Some auth" for auth
    using authorize_reuse_Inr [of d m run ns auth] reuse that ctx(4) g(1) by (auto simp: same_lineage_def)
  show ?thesis
    by (rule bexI [of _ run], rule bexI [of _ m], rule bexI [of _ run'])
       (use r ms g bind ctx ids inp src id run' sync_ids(2,4) [OF sync] in \<open>simp_all\<close>)
qed

subsection \<open>Failures\<close>

text \<open>A pipeline run with its mission, both found by their keys.\<close>

definition pipeline_row :: "db \<Rightarrow> string \<Rightarrow> stage_run \<Rightarrow> mission \<Rightarrow> bool" where
  "pipeline_row d run_id r m \<longleftrightarrow>
     run_by_run_id d run_id = Inr r \<and> sr_analysis_run_id r = None
     \<and> mission_by_id d (sr_mission_id r) = Inr m \<and> distinct (map sr_id (db_runs d))"

lemma run_by_run_id_put:
  assumes "run_by_run_id d rid = Inr r" and "distinct (map sr_id (db_runs d))"
    and "sr_id r' = sr_id r" and "sr_run_id r' = rid"
  shows "run_by_run_id (put_run r' d) rid = Inr r'"
proof -
  have "filter (\<lambda>x. sr_run_id x = rid) xs = [r] \<Longrightarrow> distinct (map sr_id xs) \<Longrightarrow>
      filter (\<lambda>x. sr_run_id x = rid) (update_where (\<lambda>x. sr_id x = sr_id r) (\<lambda>_. r') xs) = [r']" for xs
  proof (induction xs)
    case (Cons y ys)
    show ?case
    proof (cases "sr_run_id y = rid")
      case True
      with Cons.prems have y: "y = r" and none: "filter (\<lambda>x. sr_run_id x = rid) ys = []" by simp_all
      then have "\<forall>x \<in> set ys. sr_id x \<noteq> sr_id r" using Cons.prems(2) by (simp add: image_iff) metis
      then have "update_where (\<lambda>x. sr_id x = sr_id r) (\<lambda>_. r') ys = ys"
        by (auto simp: update_where_def intro: map_idI)
      with y none assms(4) show ?thesis by simp
    next
      case False
      with Cons.prems have f: "filter (\<lambda>x. sr_run_id x = rid) ys = [r]" by simp
      then have "r \<in> set (filter (\<lambda>x. sr_run_id x = rid) ys)" by simp
      then have "sr_id r \<in> set (map sr_id ys)" by auto
      then have "sr_id y \<noteq> sr_id r" using Cons.prems(2) by auto
      with False Cons.IH [OF f] Cons.prems(2) show ?thesis by simp
    qed
  qed simp
  then show ?thesis
    using assms by (simp add: run_by_run_id_def one_row_Inr runs.rows_put)
qed

lemma pipeline_row_put:
  assumes "pipeline_row d rid r m" and "sr_id r' = sr_id r" "sr_run_id r' = rid"
    "sr_analysis_run_id r' = None" "sr_mission_id r' = sr_mission_id r"
  shows "pipeline_row (put_run r' d) rid r' m"
  using assms run_by_run_id_put [of d rid r r']
  by (simp add: pipeline_row_def runs.keys_put mission_by_id_def)

lemma pipeline_row_id: "pipeline_row d rid r m \<Longrightarrow> sr_run_id r = rid"
  using run_by_run_id_Inr by (auto simp: pipeline_row_def)

lemma mark_terminal_pipeline:
  assumes "pipeline_row d rid r m"
  obtains d' r' where "mark_terminal w now rid status message metrics evidence d = Inr (effective_terminal status m r, d')"
    "pipeline_row d' rid r' m" "sr_status r' = effective_terminal status m r" "sr_id r' = sr_id r"
proof -
  let ?r = "terminal_run now (effective_terminal status m r) message metrics evidence r"
  have r: "sr_id ?r = sr_id r" "sr_run_id ?r = sr_run_id r" "sr_analysis_run_id ?r = sr_analysis_run_id r"
    "sr_mission_id ?r = sr_mission_id r" "sr_status ?r = effective_terminal status m r"
    by (simp_all add: terminal_run_def)
  have none: "sr_analysis_run_id r = None" using assms by (simp add: pipeline_row_def)
  have "mark_terminal w now rid status message metrics evidence d = Inr (effective_terminal status m r, put_run ?r d)"
    using assms r none by (simp add: mark_terminal_def pipeline_row_def Let_def)
  moreover have "pipeline_row (put_run ?r d) rid ?r m"
    using pipeline_row_id [OF assms] r none by (intro pipeline_row_put [OF assms]) simp_all
  ultimately show thesis using r(1,5) by (intro that)
qed

lemma record_failure_pipeline:
  assumes "pipeline_row d rid r m"
  obtains u d' r' where "record_execution_failure w now rid f d = (u, d')" "pipeline_row d' rid r' m"
    "sr_status r' = effective_terminal Failed m r" "sr_id r' = sr_id r"
    "isl u \<longleftrightarrow> effective_terminal Failed m r = Cancelled"
proof -
  obtain d' r' where mt: "mark_terminal w now rid Failed (Some (take 4000 (failure_text f)))
        (case f of QualityGateRejected _ q _ \<Rightarrow> Some q | _ \<Rightarrow> None)
        (case f of QualityGateRejected _ _ ev \<Rightarrow> ev | _ \<Rightarrow> fmempty) d = Inr (effective_terminal Failed m r, d')"
    "pipeline_row d' rid r' m" "sr_status r' = effective_terminal Failed m r" "sr_id r' = sr_id r"
    using mark_terminal_pipeline [OF assms] by metis
  show thesis
    by (rule that [of "fst (record_execution_failure w now rid f d)" d' r'])
       (simp_all add: record_execution_failure_def Let_def mt)
qed

lemma handle_failure_pipeline:
  assumes "pipeline_row d rid r m"
  obtains f' d' r' where "handle_failure w now rid f d = (f', d')" "pipeline_row d' rid r' m"
    "sr_id r' = sr_id r" "sr_status r' = (case f of StageCancelled _ \<Rightarrow> Cancelled | _ \<Rightarrow> effective_terminal Failed m r)"
proof (cases "\<exists>s. f = StageCancelled s")
  case True
  then obtain s where f: "f = StageCancelled s" by blast
  obtain d' r' where mt: "mark_terminal w now rid Cancelled None None fmempty d = Inr (effective_terminal Cancelled m r, d')"
    "pipeline_row d' rid r' m" "sr_status r' = effective_terminal Cancelled m r" "sr_id r' = sr_id r"
    using mark_terminal_pipeline [OF assms] by metis
  have "handle_failure w now rid f d = (f, d')" by (simp add: handle_failure_def f mt(1))
  from this mt(2,4) show thesis by (rule that) (simp add: f mt(3) effective_terminal_def)
next
  case False
  obtain u d' r' where rec: "record_execution_failure w now rid f d = (u, d')" "pipeline_row d' rid r' m"
    "sr_status r' = effective_terminal Failed m r" "sr_id r' = sr_id r"
    using record_failure_pipeline [OF assms] by metis
  have "handle_failure w now rid f d = ((case u of Inl e \<Rightarrow> failure_of e | Inr _ \<Rightarrow> f), d')"
  proof -
    have "handle_failure w now rid f d = (case record_execution_failure w now rid f d of
        (Inl e, d') \<Rightarrow> (failure_of e, d') | (Inr _, d') \<Rightarrow> (f, d'))"
      using False by (cases f) (simp_all add: handle_failure_def split: prod.split sum.split)
    then show ?thesis by (cases u) (simp_all add: rec(1))
  qed
  from this rec(2,4) show thesis by (rule that) (use False rec(3) in \<open>cases f; simp\<close>)
qed

lemma heartbeat_pipeline:
  assumes "pipeline_row d rid r m"
  obtains d' r' where
    "heartbeat w now rid d = Inr (\<not> (mission_stopped m \<or> sr_status r = Cancelled), d')"
    "pipeline_row d' rid r' m" "sr_id r' = sr_id r"
    "\<not> (mission_stopped m \<or> sr_status r = Cancelled) \<longrightarrow> sr_status r' = sr_status r"
proof -
  define q where "q = (if mission_stopped m \<or> sr_status r = Cancelled
    then r\<lparr>sr_status := Cancelled, sr_completed_at := Some now\<rparr> else r\<lparr>sr_heartbeat_at := Some now\<rparr>)"
  have q: "sr_id q = sr_id r" "sr_run_id q = sr_run_id r" "sr_analysis_run_id q = sr_analysis_run_id r"
    "sr_mission_id q = sr_mission_id r" by (simp_all add: q_def)
  have none: "sr_analysis_run_id q = None" using assms q by (simp add: pipeline_row_def)
  have "heartbeat w now rid d = rbind (sync_analysis_stage w now q (put_run q d))
      (\<lambda>(_, d'). Inr (\<not> (mission_stopped m \<or> sr_status r = Cancelled), d'))"
    using assms by (simp add: heartbeat_def pipeline_row_def q_def Let_def)
  then have "heartbeat w now rid d = Inr (\<not> (mission_stopped m \<or> sr_status r = Cancelled), put_run q d)"
    using sync_pipeline [OF none] by simp
  moreover have "pipeline_row (put_run q d) rid q m"
    using pipeline_row_id [OF assms] q none by (intro pipeline_row_put [OF assms]) simp_all
  ultimately show thesis using q(1) by (rule that) (simp add: q_def)
qed

lemma raise_if_cancelled_pipeline:
  assumes "pipeline_row d rid r m" and "ct_run_id ct = rid"
  obtains u d' r' where "raise_if_cancelled w now ct d = (u, d')" "pipeline_row d' rid r' m" "sr_id r' = sr_id r"
proof (cases "ct_failure ct \<or> ct_cancelled ct")
  case True
  then have "\<exists>u. raise_if_cancelled w now ct d = (u, d)" by (auto simp: raise_if_cancelled_def)
  with assms(1) show thesis using that by blast
next
  case False
  obtain d' r' where h: "heartbeat w now rid d = Inr (\<not> (mission_stopped m \<or> sr_status r = Cancelled), d')"
    and r': "pipeline_row d' rid r' m" "sr_id r' = sr_id r"
    using heartbeat_pipeline [OF assms(1)] by metis
  have "\<exists>u. raise_if_cancelled w now ct d = (u, d')"
    using False by (simp add: raise_if_cancelled_def assms(2) h split: bool.split)
  with r' show thesis using that by blast
qed

lemma publication_row:
  assumes "publish_result w now context result d = Inr (aid, d')" and "distinct (map sr_id (db_runs d))"
  shows "\<exists>run \<in> set (db_runs d). \<exists>q \<in> set (db_runs d'). sr_run_id run = sx_run_id context \<and> sr_id q = sr_id run
    \<and> sr_status q = Succeeded \<and> sr_run_id q = sx_run_id context"
proof -
  obtain mission run d1 where p: "run \<in> set (db_runs d)" "sr_run_id run = sx_run_id context"
    and ens: "ensure_artifact w now context result aid mission run d = Inr d1"
    and fin: "finish_publication w now result mission run d1 = Inr d'"
    using publish_result_Inr [OF assms] by metis
  have run1: "run \<in> set (db_runs d1)" "distinct (map sr_id (db_runs d1))"
    using ensure_artifact_cases(1) [OF ens] p(1) assms(2) by simp_all
  from finish_publication_row(1) [OF fin run1] p show ?thesis
    by (intro bexI [of _ run] bexI [of _ "mark_stage_run_succeeded now (record_result result run)"])
       (simp_all add: mark_stage_run_succeeded_def record_result_def)
qed

lemma publication_of_row:
  assumes "publish_result w now context result d = Inr (aid, d')" and "pipeline_row d rid r m" and "sx_run_id context = rid"
  shows "\<exists>q \<in> set (db_runs d'). sr_id q = sr_id r \<and> sr_run_id q = rid \<and> sr_status q = Succeeded"
proof -
  have "distinct (map sr_id (db_runs d))" using assms(2) by (simp add: pipeline_row_def)
  from publication_row [OF assms(1) this] obtain run q where run: "run \<in> set (db_runs d)" "sr_run_id run = rid"
    "q \<in> set (db_runs d')" "sr_id q = sr_id run" "sr_status q = Succeeded" "sr_run_id q = rid"
    using assms(3) by metis
  have "filter (\<lambda>r. sr_run_id r = rid) (db_runs d) = [r]"
    using assms(2) by (simp add: pipeline_row_def run_by_run_id_def one_row_Inr)
  moreover have "run \<in> set (filter (\<lambda>r. sr_run_id r = rid) (db_runs d))" using run by simp
  ultimately have "run = r" by simp
  with run show ?thesis by auto
qed

lemma handled_failure_row:
  assumes "pipeline_row d rid r m" and "sr_id r = i" and "handle_failure w now rid f d = (f', d')"
  shows "\<exists>q \<in> set (db_runs d'). sr_id q = i \<and> sr_run_id q = rid \<and> (sr_status q = Failed \<or> sr_status q = Cancelled)"
proof -
  obtain f'' d'' r' where "handle_failure w now rid f d = (f'', d'')" and r': "pipeline_row d'' rid r' m"
    and id: "sr_id r' = sr_id r"
    and st: "sr_status r' = (case f of StageCancelled _ \<Rightarrow> Cancelled | _ \<Rightarrow> effective_terminal Failed m r)"
    using handle_failure_pipeline [OF assms(1)] by metis
  with assms(3) have "d'' = d'" by simp
  with r' have mem: "r' \<in> set (db_runs d')" "sr_run_id r' = rid"
    using run_by_run_id_Inr by (auto simp: pipeline_row_def)
  have "sr_status r' = Failed \<or> sr_status r' = Cancelled"
    using st by (cases f) (auto simp: effective_terminal_def)
  with mem id assms(2) show ?thesis by (intro bexI [of _ r']) simp_all
qed



text \<open>A run that has succeeded is not protected from a second executor of it: when one that
  claimed the run while it was running finishes after the first has published, its
  publication is refused and recording that refusal turns the succeeded run into a failed
  one, with its artifact published and its dependants released.\<close>

theorem late_executor_fails_succeeded_run:
  assumes "prepare_execution w (clock 0) environ stage run_id d = (Inr (rid, context), d1)"
    and "sx_run_id context = rid" and "sx_mission_id context = sr_mission_id r"
    and "handler context d1 = (Inr result, ct, d2)" and "\<not> ct_failure ct" and "\<not> ct_cancelled ct"
    and "pipeline_row d2 rid r m" and "sr_status r = Succeeded" and "\<not> mission_stopped m"
  shows "\<exists>f d'. execute_one_shot_stage w clock environ stage handler run_id d = (Inl f, d')
    \<and> (\<exists>q \<in> set (db_runs d'). sr_id q = sr_id r \<and> sr_run_id q = rid \<and> sr_status q = Failed)"
proof -
  let ?ct = "ct\<lparr>ct_run_id := rid\<rparr>"
  obtain d3 r3 where hb: "heartbeat w (clock 1) rid d2 = Inr (True, d3)" and row3: "pipeline_row d3 rid r3 m"
    and id3: "sr_id r3 = sr_id r" and st3: "sr_status r3 = Succeeded" and mid: "sr_mission_id r3 = sr_mission_id r"
  proof -
    obtain d' r' where "heartbeat w (clock 1) rid d2 = Inr (\<not> (mission_stopped m \<or> sr_status r = Cancelled), d')"
      "pipeline_row d' rid r' m" "sr_id r' = sr_id r"
      "\<not> (mission_stopped m \<or> sr_status r = Cancelled) \<longrightarrow> sr_status r' = sr_status r"
      using heartbeat_pipeline [OF assms(7)] by metis
    moreover have "sr_mission_id r' = sr_mission_id r"
    proof -
      have "m_id m = sr_mission_id r'" "m_id m = sr_mission_id r"
        using mission_by_id_Inr assms(7) calculation(2) by (auto simp: pipeline_row_def)
      then show ?thesis by simp
    qed
    ultimately show thesis using assms(8,9) that by simp
  qed
  have check: "raise_if_cancelled w (clock 1) ?ct d2 = (Inr (), d3)"
    using assms(5,6) by (simp add: raise_if_cancelled_def hb del: One_nat_def)
  have found: "filter (\<lambda>r. sr_run_id r = rid) (db_runs d3) = [r3]"
    using row3 by (simp add: pipeline_row_def run_by_run_id_def one_row_Inr)
  have mission: "mission_by_id d3 (sx_mission_id context) = Inr m" "m_id m = sr_mission_id r3"
    using row3 mission_by_id_Inr by (auto simp: pipeline_row_def assms(3) mid)
  have "filter (\<lambda>r. sr_run_id r = rid \<and> sr_mission_id r = m_id m) (db_runs d3)
      = filter (\<lambda>r. sr_mission_id r = m_id m) (filter (\<lambda>r. sr_run_id r = rid) (db_runs d3))"
    by (simp add: conj_commute)
  then have "filter (\<lambda>r. sr_run_id r = rid \<and> sr_mission_id r = m_id m) (db_runs d3) = [r3]"
    by (simp add: found mission(2))
  then have "\<exists>s. publish_result w (clock 2) context result d3 = Inl (ValueError s)"
    by (simp add: publish_result_def assms(2,9) mission(1) st3 Let_def)
  then obtain s where refused: "publish_result w (clock 2) context result d3 = Inl (ValueError s)" by blast
  obtain f' d' r' where h: "handle_failure w (clock 3) rid (failure_of (ValueError s)) d3 = (f', d')"
    and row': "pipeline_row d' rid r' m" and id': "sr_id r' = sr_id r3"
    and st': "sr_status r' = (case failure_of (ValueError s) of StageCancelled _ \<Rightarrow> Cancelled
        | _ \<Rightarrow> effective_terminal Failed m r3)"
    using handle_failure_pipeline [OF row3] by metis
  have "execute_one_shot_stage w clock environ stage handler run_id d = (Inl f', d')"
    using h by (simp add: execute_one_shot_stage_def assms(1,4) check refused del: One_nat_def)
  moreover have "r' \<in> set (db_runs d')" "sr_run_id r' = rid"
    using row' run_by_run_id_Inr by (auto simp: pipeline_row_def)
  moreover have "sr_status r' = Failed" using st' st3 assms(9) by (simp add: effective_terminal_def)
  ultimately show ?thesis using id' id3 by auto
qed

subsection \<open>A small execution\<close>

definition example_exec_run :: stage_run where
  "example_exec_run = example_run\<lparr>sr_status := Queued, sr_executor := Some ''kubernetes-job''\<rparr>"

definition example_exec_db :: db where
  "example_exec_db = example_pipeline\<lparr>db_runs := [example_exec_run], db_policies := [example_policy]\<rparr>"

definition example_binding :: expected_binding where
  "example_binding = \<lparr>xb_organization_id = Some ''acme'', xb_mission_id = Some 7, xb_vol_id = None,
     xb_workspace_prefix = None, xb_owner_subject = Some ''ann''\<rparr>"

definition example_result :: execution_result where
  "example_result = \<lparr>xr_kind = ''reconstruction_workspace'', xr_uri = ''s3://b/k'',
     xr_checksum_sha256 = replicate 64 CHR ''a'', xr_size_bytes = 900, xr_metadata = fmempty,
     xr_quality_metrics = fmempty, xr_provenance = fmempty, xr_analysis_features = None\<rparr>"

definition example_context :: execution_context where
  "example_context = \<lparr>sx_run_id = ''r1'', sx_mission_id = 7, sx_organization_id = ''acme'', sx_vol_id = ''flight-7'',
     sx_workspace_prefix = ''organizations/acme/missions/flight-7'', sx_owner_subject = ''ann'',
     sx_stage = Reconstruction, sx_attempt = 0, sx_mission_attempt = 0, sx_parameters = fmempty,
     sx_mission_parameters = fmempty, sx_inputs = [], sx_run_provenance = fmempty, sx_analysis = None,
     sx_reuse = None\<rparr>"

definition example_running_db :: db where
  "example_running_db = example_exec_db\<lparr>db_runs := [claim_run 5 example_exec_run]\<rparr>"

definition example_environ :: "string \<Rightarrow> string option" where
  "example_environ name = (if name = ''DRONEAI_STAGE_RUN_ID'' then Some ''r1''
     else if name = ''DRONEAI_ORGANIZATION_ID'' then Some ''acme'' else None)"

definition example_handler :: "execution_result stage_handler" where
  "example_handler context d = (Inr example_result, \<lparr>ct_run_id = [], ct_cancelled = False, ct_failure = False\<rparr>, d)"

lemma example_published:
  "\<exists>aid d'. publish_result example_digest_world 9 example_context example_result example_running_db = Inr (aid, d')"
proof -
  have "\<not> isl (publish_result example_digest_world 9 example_context example_result example_running_db)" by code_simp
  then show ?thesis
    by (cases "publish_result example_digest_world 9 example_context example_result example_running_db") auto
qed

lemma example_running_distinct: "distinct (map sr_id (db_runs example_running_db))" by code_simp

theorem publication_effect_witness:
  "\<exists>aid d'. publish_result example_digest_world 9 example_context example_result example_running_db = Inr (aid, d')
    \<and> list_ex (\<lambda>r. sr_status r = Succeeded) (db_runs d')"
proof -
  obtain aid d' where pub: "publish_result example_digest_world 9 example_context example_result example_running_db = Inr (aid, d')"
    using example_published by blast
  from publication_effect [OF pub example_running_distinct] obtain q where "q \<in> set (db_runs d')" "sr_status q = Succeeded"
    by blast
  with pub show ?thesis by (auto simp: list_ex_iff)
qed

theorem publication_keeps_storage_quota_witness:
  "\<exists>aid d'. publish_result example_digest_world 9 example_context example_result example_running_db = Inr (aid, d')
    \<and> storage_usage_bytes d' (sx_organization_id example_context) \<le> 1000"
proof -
  obtain aid d' where pub: "publish_result example_digest_world 9 example_context example_result example_running_db = Inr (aid, d')"
    using example_published by blast
  have "distinct (map m_id (db_missions example_running_db))" by code_simp
  moreover have "m_organization_id m = sx_organization_id example_context"
    if "m \<in> set (db_missions example_running_db)" for m
    using that by (simp add: example_running_db_def example_exec_db_def example_pipeline_def example_mission_def example_context_def)
  moreover have "list_all (\<lambda>a. ma_artifact_id a \<noteq> aid) (db_artifacts example_running_db)"
    by (simp add: example_running_db_def example_exec_db_def example_pipeline_def)
  moreover have "get_policy example_running_db (sx_organization_id example_context) = Inr (Some example_policy)"
    "po_storage_limit_bytes example_policy = Some 1000" by code_simp+
  ultimately show ?thesis using publication_keeps_storage_quota [OF pub example_running_distinct] pub by blast
qed

theorem claim_is_guarded_witness:
  "\<exists>context d'. load_stage_execution_context example_digest_world 5 ''r1'' Reconstruction example_binding example_exec_db
      = Inr (context, d') \<and> list_ex (\<lambda>r. sr_status r = Running) (db_runs d')"
proof -
  let ?l = "load_stage_execution_context example_digest_world 5 ''r1'' Reconstruction example_binding example_exec_db"
  have "\<not> isl ?l" by code_simp
  then obtain c d' where load: "?l = Inr (c, d')" by (cases ?l) auto
  from claim_is_guarded [OF load] obtain r where "r \<in> set (db_runs d')" "sr_status r = Running" by blast
  with load show ?thesis by (auto simp: list_ex_iff)
qed

lemma example_prepared:
  "prepare_execution example_digest_world 5 example_environ Reconstruction None example_exec_db
   = (Inr (''r1'', example_context), example_running_db)"
  by code_simp

lemma example_row: "pipeline_row example_running_db ''r1'' (claim_run 5 example_exec_run) example_mission"
  by code_simp


definition example_late_db :: db where
  "example_late_db = example_running_db\<lparr>db_runs := [mark_stage_run_succeeded 6 (claim_run 5 example_exec_run)]\<rparr>"

definition example_late_handler :: "execution_result stage_handler" where
  "example_late_handler context d =
     (Inr example_result, \<lparr>ct_run_id = [], ct_cancelled = False, ct_failure = False\<rparr>, example_late_db)"

theorem late_executor_fails_succeeded_run_witness:
  "\<exists>f d'. execute_one_shot_stage example_digest_world (\<lambda>n. 5) example_environ Reconstruction example_late_handler None
      example_exec_db = (Inl f, d') \<and> list_ex (\<lambda>r. sr_status r = Failed) (db_runs d')"
proof -
  let ?r = "mark_stage_run_succeeded 6 (claim_run 5 example_exec_run)"
  have ctx: "sx_run_id example_context = ''r1''" "sx_mission_id example_context = sr_mission_id ?r" by code_simp+
  have row: "pipeline_row example_late_db ''r1'' ?r example_mission" by code_simp
  have st: "sr_status ?r = Succeeded" "\<not> mission_stopped example_mission" by code_simp+
  from late_executor_fails_succeeded_run [where clock = "\<lambda>n. 5" and handler = example_late_handler,
      OF example_prepared ctx _ _ _ row st]
  show ?thesis unfolding example_late_handler_def by (fastforce simp: list_ex_iff)
qed

end
