(* ===== verification/OrchestratorSettings.thy ===== *)
theory OrchestratorSettings
  imports KubernetesJobs StageScheduler StageExecution
begin

text \<open>
  The configuration of the stage orchestrator (first part of
  \<open>app4-dashboard/api/stage_orchestrator.py\<close>) and the deployment mode it depends on
  (\<open>shared/deployment_mode.py\<close>). The environment of the process is a function from names to
  optional texts. Decoding a JSON text and reading a decimal fraction are parameters,
  collected in \<open>decoder\<close>; an unreadable text is a \<open>ValueError\<close>.
\<close>

type_synonym environ = "string \<Rightarrow> string option"

record decoder =
  dc_json :: "string \<Rightarrow> pyval res"
  dc_float :: "string \<Rightarrow> rat res"

subsection \<open>Deployment mode\<close>

definition getenv :: "environ \<Rightarrow> string \<Rightarrow> string \<Rightarrow> string" where
  "getenv environ name fallback = (case environ name of None \<Rightarrow> fallback | Some s \<Rightarrow> s)"

definition deployment_environment :: "environ \<Rightarrow> string" where
  "deployment_environment environ = str_lower (str_strip (getenv environ ''DRONEAI_ENV'' ''development''))"

definition is_protected_environment :: "environ \<Rightarrow> bool" where
  "is_protected_environment environ \<longleftrightarrow> deployment_environment environ \<in> {''staging'', ''production''}"

definition configured_stage_jobs_enabled :: "environ \<Rightarrow> bool res" where
  "configured_stage_jobs_enabled environ =
     (let raw = str_lower (str_strip (getenv environ ''DRONEAI_STAGE_JOBS_ENABLED'' ''false''))
      in if raw \<notin> {''true'', ''false''}
         then Inl (RuntimeError ''DRONEAI_STAGE_JOBS_ENABLED must be true or false'')
         else Inr (raw = ''true''))"

definition bounded_stage_jobs_enabled :: "environ \<Rightarrow> bool res" where
  "bounded_stage_jobs_enabled environ =
     rbind (configured_stage_jobs_enabled environ) (\<lambda>enabled.
       if is_protected_environment environ \<and> \<not> enabled
       then Inl (RuntimeError
         ''Staging and production require bounded stage Jobs; Kafka compute has been retired'')
       else Inr enabled)"

subsection \<open>Settings\<close>

record executor_config =
  ex_image :: string
  ex_command :: "string list"
  ex_gpu_architecture :: pyval
  ex_node_selector :: "(string \<times> pyval) list"
  ex_tolerations :: "toleration list"

record orchestrator_settings =
  st_enabled :: bool
  st_namespace :: string
  st_poll_seconds :: rat
  st_limits :: scheduling_limits
  st_executors :: "(stage_id \<times> executor_config) list"
  st_job_environment :: "(string \<times> string) list"
  st_job_secret_environment :: "secret_environment list"
  st_job_secret_environment_by_stage :: "(stage_id \<times> secret_environment list) list"
  st_detection_environment :: "(string \<times> string) list"
  st_detection_secret_environment :: "secret_environment list"
  st_service_account_name :: string
  st_active_deadline_seconds :: int
  st_ttl_seconds_after_finished :: int
  st_runtime_class_name :: "string option"
  st_maximum_dispatch_attempts :: int
  st_maximum_candidates_per_pass :: int
  st_detection_fanout_enabled :: bool
  st_detection_tiles_per_shard :: int
  st_detection_shard_parallelism :: int
  st_detection_maximum_tiles :: int
  st_work_drives :: "(string \<times> work_volume) list"
  st_work_drive_default :: "string option"

subsection \<open>Scalars\<close>

definition env_int :: "environ \<Rightarrow> string \<Rightarrow> int \<Rightarrow> int res" where
  "env_int environ name fallback =
     (case environ name of
        None \<Rightarrow> Inr fallback
      | Some s \<Rightarrow> int_of_value (PStr s))"

definition positive_int :: "environ \<Rightarrow> string \<Rightarrow> int \<Rightarrow> int res" where
  "positive_int environ name fallback =
     rbind (env_int environ name fallback) (\<lambda>value.
       if value < 1 then Inl (ValueError (name @ '' must be positive'')) else Inr value)"

definition strict_bool :: "environ \<Rightarrow> string \<Rightarrow> bool res" where
  "strict_bool environ name =
     (case environ name of
        None \<Rightarrow> Inr False
      | Some raw \<Rightarrow>
          let normalized = str_lower (str_strip raw)
          in if normalized \<notin> {''true'', ''false''}
             then Inl (ValueError (name @ '' must be true or false'')) else Inr (normalized = ''true''))"

definition bounded_positive_int :: "environ \<Rightarrow> string \<Rightarrow> int \<Rightarrow> int \<Rightarrow> int res" where
  "bounded_positive_int environ name fallback maximum =
     rbind (positive_int environ name fallback) (\<lambda>value.
       if value > maximum then Inl (ValueError (name @ '' must not exceed '' @ int_text maximum)) else Inr value)"

subsection \<open>Executors\<close>

text \<open>
  \<open>$\<close> matches at the end of the text and before a final line break. Both patterns end in
  hexadecimal digits behind a colon, so the longest run of such digits is the one matched.
\<close>

definition before_final_newline :: "string \<Rightarrow> string" where
  "before_final_newline s = (if s \<noteq> [] \<and> last s = CHR 0x0A then butlast s else s)"

definition trailing_hex :: "string \<Rightarrow> nat" where
  "trailing_hex s = length (takeWhile hex_char (rev s))"

definition digest_image :: "string \<Rightarrow> bool" where
  "digest_image img \<longleftrightarrow>
     (let s = before_final_newline img
      in trailing_hex s = 64 \<and> ends_with ''@sha256:'' (take (length s - 64) s))"

definition development_image :: "string \<Rightarrow> bool" where
  "development_image img \<longleftrightarrow>
     (let s = before_final_newline img; n = trailing_hex s
      in 7 \<le> n \<and> n \<le> 40 \<and> ends_with '':'' (take (length s - n) s))"

definition get_default :: "dict \<Rightarrow> string \<Rightarrow> pyval \<Rightarrow> pyval" where
  "get_default d k v = (case fmlookup d k of None \<Rightarrow> v | Some x \<Rightarrow> x)"

definition is_str :: "pyval \<Rightarrow> bool" where
  "is_str v = (case v of PStr _ \<Rightarrow> True | _ \<Rightarrow> False)"

definition is_object :: "pyval \<Rightarrow> bool" where
  "is_object v = (case v of PDict _ \<Rightarrow> True | _ \<Rightarrow> False)"

definition command_of :: "stage_id \<Rightarrow> pyval \<Rightarrow> string list res" where
  "command_of stage command =
     (case command of
        PList parts \<Rightarrow>
          if parts \<noteq> [] \<and> list_all (\<lambda>p. is_str p \<and> p \<noteq> PStr []) parts
          then Inr (map (\<lambda>p. case p of PStr s \<Rightarrow> s | _ \<Rightarrow> []) parts)
          else Inl (ValueError (''Executor command for '' @ stage_name stage @ '' must be a non-empty string list''))
      | _ \<Rightarrow> Inl (ValueError (''Executor command for '' @ stage_name stage @ '' must be a non-empty string list'')))"

definition selector_of :: "stage_id \<Rightarrow> pyval \<Rightarrow> (string \<times> pyval) list res" where
  "selector_of stage selector =
     (case selector of
        PDict d \<Rightarrow>
          if list_all (\<lambda>(k, v). is_str v) (sorted_list_of_fmap d) then Inr (sorted_list_of_fmap d)
          else Inl (ValueError (''Node selector for '' @ stage_name stage @ '' must contain string pairs''))
      | _ \<Rightarrow> Inl (ValueError (''Node selector for '' @ stage_name stage @ '' must contain string pairs'')))"

definition parse_toleration :: "pyval \<Rightarrow> toleration res" where
  "parse_toleration v =
     rbind (as_dict v) (\<lambda>d.
       toleration_post_init
         \<lparr>tl_key = get_default d ''key'' (PStr []), tl_operator = get_default d ''operator'' (PStr ''Equal''),
          tl_value = dget d ''value'', tl_effect = dget d ''effect'', tl_seconds = dget d ''toleration_seconds''\<rparr>)"

definition tolerations_of :: "stage_id \<Rightarrow> pyval \<Rightarrow> toleration list res" where
  "tolerations_of stage tolerations =
     (case tolerations of
        PList items \<Rightarrow>
          if list_all is_object items then rmap parse_toleration items
          else Inl (ValueError (''Tolerations for '' @ stage_name stage @ '' must be a list of objects''))
      | _ \<Rightarrow> Inl (ValueError (''Tolerations for '' @ stage_name stage @ '' must be a list of objects'')))"

definition image_of :: "bool \<Rightarrow> stage_id \<Rightarrow> pyval \<Rightarrow> string res" where
  "image_of require_digest stage img =
     (case img of
        PStr s \<Rightarrow>
          if \<not> digest_image s \<and> (require_digest \<or> \<not> development_image s)
          then Inl (ValueError (''Executor image for '' @ stage_name stage @ '' must ''
                 @ (if require_digest then ''use an OCI digest''
                    else ''use an OCI digest or development Git-SHA tag'')))
          else Inr s
      | _ \<Rightarrow> Inl (ValueError (''Executor image for '' @ stage_name stage @ '' must be a string'')))"

definition executor_of :: "bool \<Rightarrow> dict \<Rightarrow> stage_id \<Rightarrow> (stage_id \<times> executor_config) res" where
  "executor_of require_digest payload stage =
     (case dget payload (stage_name stage) of
        PDict item \<Rightarrow>
          rbind (image_of require_digest stage (dget item ''image'')) (\<lambda>img.
          rbind (command_of stage (dget item ''command'')) (\<lambda>command.
            if gpu_count (resource_classes (default_stage_resource_class stage)) > 0 \<and> stage \<noteq> Rasterization
               \<and> \<not> is_str (dget item ''gpu_architecture'')
            then Inl (ValueError (''GPU architecture must be declared for '' @ stage_name stage))
            else
              rbind (selector_of stage (py_or (dget item ''node_selector'') (PDict fmempty))) (\<lambda>selector.
              rbind (tolerations_of stage (py_or (dget item ''tolerations'') (PList []))) (\<lambda>tolerations.
                Inr (stage, \<lparr>ex_image = img, ex_command = command,
                     ex_gpu_architecture = dget item ''gpu_architecture'', ex_node_selector = selector,
                     ex_tolerations = tolerations\<rparr>)))))
      | _ \<Rightarrow> Inl (ValueError (''Missing one-shot executor configuration for '' @ stage_name stage)))"

definition text_or :: "string \<Rightarrow> string \<Rightarrow> string" where
  "text_or raw fallback = (if raw = [] then fallback else raw)"

definition executor_catalog :: "decoder \<Rightarrow> string \<Rightarrow> bool \<Rightarrow> (stage_id \<times> executor_config) list res" where
  "executor_catalog dc raw require_digest =
     rbind (dc_json dc (text_or raw ''{}'')) (\<lambda>payload.
       case payload of
         PDict d \<Rightarrow> rmap (executor_of require_digest d) STAGE_ORDER
       | _ \<Rightarrow> Inl (ValueError ''DRONEAI_STAGE_EXECUTORS_JSON must be an object''))"

subsection \<open>Work drives\<close>

definition drive_name_pattern :: "string \<Rightarrow> bool" where
  "drive_name_pattern s \<longleftrightarrow>
     s \<noteq> [] \<and> (is_lower (hd s) \<or> is_upper (hd s) \<or> is_digit (hd s)) \<and> length s \<le> 64
     \<and> list_all (\<lambda>c. is_lower c \<or> is_upper c \<or> is_digit c \<or> c = CHR ''_'' \<or> c = CHR ''-'') s"

definition drive_source :: "string \<Rightarrow> dict \<Rightarrow> string \<Rightarrow> (string \<times> pyval) list res" where
  "drive_source empty_dir_size_limit item name =
     (let host_path = dget item ''hostPath''; claim_name = dget item ''existingClaim'';
          empty_dir = (dget item ''type'' = PStr ''emptyDir'')
      in if of_bool (truthy host_path) + of_bool (truthy claim_name) + of_bool empty_dir \<noteq> (1::nat)
         then Inl (ValueError (''Stage Job work drive '' @ name @ '' requires one supported source''))
         else if truthy host_path
         then Inr [(''hostPath'', json_object [(''path'', host_path), (''type'', PStr ''Directory'')])]
         else if truthy claim_name
         then Inr [(''persistentVolumeClaim'', json_object [(''claimName'', claim_name)])]
         else Inr [(''emptyDir'', json_object [(''sizeLimit'', PStr empty_dir_size_limit)])])"

fun add_drives :: "string \<Rightarrow> pyval list \<Rightarrow> (string \<times> work_volume) list \<Rightarrow> (string \<times> work_volume) list res" where
  "add_drives limit [] result = Inr result"
| "add_drives limit (entry # entries) result =
     (case entry of
        PDict item \<Rightarrow>
          (case dget item ''name'' of
             PStr name \<Rightarrow>
               if \<not> drive_name_pattern name then Inl (ValueError ''Stage Job work drive name is invalid'')
               else if name \<in> set (map fst result)
               then Inl (ValueError (''Duplicate Stage Job work drive: '' @ name))
               else
                 rbind (drive_source limit item name) (\<lambda>source.
                 rbind (work_volume_post_init \<lparr>wv_source = source\<rparr>) (\<lambda>volume.
                   add_drives limit entries (result @ [(name, volume)])))
           | _ \<Rightarrow> Inl (ValueError ''Stage Job work drive name is invalid''))
      | _ \<Rightarrow> Inl (ValueError ''Stage Job work drive entries must be objects''))"

definition work_drive_catalog :: "decoder \<Rightarrow> string \<Rightarrow> string \<Rightarrow> (string \<times> work_volume) list res" where
  "work_drive_catalog dc raw empty_dir_size_limit =
     rbind (dc_json dc (text_or raw ''[]'')) (\<lambda>payload.
       case payload of
         PList items \<Rightarrow> add_drives empty_dir_size_limit items []
       | _ \<Rightarrow> Inl (ValueError ''DRONEAI_STAGE_WORK_DRIVES_JSON must be a list''))"

subsection \<open>Credentials\<close>

definition storage_secret_environment :: "environ \<Rightarrow> string \<Rightarrow> secret_environment list" where
  "storage_secret_environment environ secret_name =
     map (\<lambda>(environment_name, key_variable, default_key).
            \<lparr>se_name = environment_name, se_secret_name = secret_name,
             se_secret_key = getenv environ key_variable default_key\<rparr>)
       [(''DATABASE_URL'', ''DRONEAI_STAGE_DATABASE_URL_SECRET_KEY'', ''stage-database-url''),
        (''S3_ACCESS_KEY'', ''DRONEAI_STAGE_S3_ACCESS_KEY_SECRET_KEY'', ''s3-access-key''),
        (''S3_SECRET_KEY'', ''DRONEAI_STAGE_S3_SECRET_KEY_SECRET_KEY'', ''s3-secret-key'')]"

definition credential_name :: "dict \<Rightarrow> stage_id \<Rightarrow> (stage_id \<times> string) res" where
  "credential_name payload stage =
     (case dget payload (stage_name stage) of
        PStr value \<Rightarrow>
          if str_strip value = []
          then Inl (ValueError (''Credential Secret for '' @ stage_name stage @ '' must be a non-empty name''))
          else Inr (stage, str_strip value)
      | _ \<Rightarrow> Inl (ValueError (''Credential Secret for '' @ stage_name stage @ '' must be a non-empty name'')))"

definition scoped_secrets ::
  "environ \<Rightarrow> bool \<Rightarrow> dict \<Rightarrow> (stage_id \<times> secret_environment list) list res" where
  "scoped_secrets environ enabled payload =
     (let names = map stage_name STAGE_ORDER;
          unknown = filter (\<lambda>k. k \<notin> set names) (map fst (sorted_list_of_fmap payload));
          missing = filter (\<lambda>k. fmlookup payload k = None) names
      in if unknown \<noteq> []
         then Inl (ValueError (''Unknown stage credential Secret entries: '' @ join_text '', '' unknown))
         else if payload = fmempty
         then (if enabled \<and> is_protected_environment environ
               then Inl (ValueError (deployment_environment environ
                      @ '' stage Jobs require one distinct credential Secret for every stage''))
               else Inr [])
         else if missing \<noteq> []
         then Inl (ValueError (''Missing stage credential Secret entries: '' @ join_text '', '' missing))
         else rbind (rmap (credential_name payload) STAGE_ORDER) (\<lambda>secrets.
           if \<not> distinct (map snd secrets)
           then Inl (ValueError ''Every stage must use a distinct credential Secret'')
           else Inr (map (\<lambda>(stage, name). (stage, storage_secret_environment environ name)) secrets)))"

definition scoped_stage_secret_environment ::
  "decoder \<Rightarrow> environ \<Rightarrow> string \<Rightarrow> bool \<Rightarrow> (stage_id \<times> secret_environment list) list res" where
  "scoped_stage_secret_environment dc environ raw enabled =
     rbind (dc_json dc (text_or raw ''{}'')) (\<lambda>value.
       case value of
         PDict payload \<Rightarrow> scoped_secrets environ enabled payload
       | _ \<Rightarrow> Inl (ValueError ''DRONEAI_STAGE_CREDENTIAL_SECRETS_JSON must be an object''))"

subsection \<open>Everything together\<close>

definition resource_limits :: "decoder \<Rightarrow> environ \<Rightarrow> (string \<times> int) list res" where
  "resource_limits dc environ =
     rbind (dc_json dc (getenv environ ''DRONEAI_STAGE_RESOURCE_CONCURRENCY_JSON'' ''{}'')) (\<lambda>value.
       case value of
         PDict d \<Rightarrow> rmap (\<lambda>(k, v). rbind (int_of_value v) (\<lambda>i. Inr (k, i))) (sorted_list_of_fmap d)
       | _ \<Rightarrow> Inl (ValueError ''DRONEAI_STAGE_RESOURCE_CONCURRENCY_JSON must be an object''))"

text \<open>The limits reject a value below one, also under a key that names no resource class.\<close>

definition limits_from_environment :: "environ \<Rightarrow> (string \<times> int) list \<Rightarrow> scheduling_limits res" where
  "limits_from_environment environ items =
     rbind (positive_int environ ''DRONEAI_STAGE_GLOBAL_CONCURRENCY'' 2) (\<lambda>g.
     rbind (positive_int environ ''DRONEAI_STAGE_OWNER_CONCURRENCY'' 1) (\<lambda>o'.
     rbind (positive_int environ ''DRONEAI_STAGE_MISSION_CONCURRENCY'' 1) (\<lambda>m.
       let limits = \<lparr>global_active = g, per_owner_active = o', per_mission_active = m,
                     resource_active = (\<lambda>c. map_of items (class_name c)), owner_active = fmempty\<rparr>
       in if list_ex (\<lambda>(k, v). v < 1) items
          then Inl (ValueError ''Scheduling concurrency limits must be positive'')
          else rbind (limits_post_init limits) (\<lambda>_. Inr limits))))"

definition plain_environment :: "environ \<Rightarrow> bool \<Rightarrow> (string \<times> string) list" where
  "plain_environment environ enabled =
     List.map_filter (\<lambda>name. map_option (Pair name) (environ name))
       [''S3_ENDPOINT'', ''S3_BUCKET'', ''S3_REGION'', ''S3_PUBLIC_ENDPOINT'',
        ''DRONEAI_ARTIFACT_SELECTIVE_RESTORE_ENABLED'']
     @ (if enabled \<and> is_protected_environment environ
        then [(''DRONEAI_STAGE_RLS_REQUIRED'', ''true'')] else [])"

definition detection_environment_of ::
  "environ \<Rightarrow> ((string \<times> string) list \<times> secret_environment list) res" where
  "detection_environment_of environ =
     (let base = [(''HF_HOME'', ''/cache/huggingface''), (''HF_HUB_CACHE'', ''/cache/huggingface/hub''),
                  (''TRANSFORMERS_CACHE'', ''/cache/huggingface/transformers''),
                  (''SAM3_MODEL_ID'', getenv environ ''DRONEAI_STAGE_SAM3_MODEL_ID'' ''facebook/sam3''),
                  (''SAM3_MODEL_REVISION'', getenv environ ''DRONEAI_STAGE_SAM3_MODEL_REVISION''
                     ''3c879f39826c281e95690f02c7821c4de09afae7'')];
          sha = getenv_strip environ ''DRONEAI_STAGE_SAM3_ARTIFACT_SHA256'';
          pinned = base @ (if sha \<noteq> [] then [(''SAM3_MODEL_SHA256'', sha)] else []);
          secrets = [\<lparr>se_name = ''HF_TOKEN'',
                      se_secret_name = getenv environ ''DRONEAI_STAGE_HF_TOKEN_SECRET_NAME'' ''hf-token'',
                      se_secret_key = getenv environ ''DRONEAI_STAGE_HF_TOKEN_SECRET_KEY'' ''HF_TOKEN''\<rparr>];
          directory = getenv_strip environ ''DRONEAI_STAGE_SAM3_MODEL_DIRECTORY''
      in if directory = [] then Inr (pinned, secrets)
         else if \<not> starts_with ''/'' directory \<or> \<not> (length sha = 64 \<and> list_all hex_char sha)
         then Inl (ValueError
           ''Local SAM3 requires an absolute model directory and independent artifact SHA-256'')
         else Inr (pinned @ [(''SAM3_MODEL_DIRECTORY'', directory), (''HF_HUB_OFFLINE'', ''1''),
                             (''TRANSFORMERS_OFFLINE'', ''1'')], []))"

definition settings_from_environment :: "decoder \<Rightarrow> environ \<Rightarrow> orchestrator_settings res" where
  "settings_from_environment dc environ =
     rbind (bounded_stage_jobs_enabled environ) (\<lambda>enabled.
     rbind (strict_bool environ ''DRONEAI_DETECTION_FANOUT_ENABLED'') (\<lambda>fanout.
     rbind (strict_bool environ ''DRONEAI_ARTIFACT_SELECTIVE_RESTORE_ENABLED'') (\<lambda>restore.
     if fanout \<and> \<not> restore then Inl (ValueError ''Detection fan-out requires selective restore'')
     else
     rbind (resource_limits dc environ) (\<lambda>items.
     rbind (scoped_stage_secret_environment dc environ
              (getenv environ ''DRONEAI_STAGE_CREDENTIAL_SECRETS_JSON'' ''{}'') enabled) (\<lambda>scoped.
     rbind (detection_environment_of environ) (\<lambda>(detection_env, detection_secrets).
     rbind (work_drive_catalog dc (getenv environ ''DRONEAI_STAGE_WORK_DRIVES_JSON'' ''[]'')
              (getenv environ ''DRONEAI_STAGE_WORK_EMPTY_DIR_SIZE_LIMIT'' ''100Gi'')) (\<lambda>drives.
     let drive_default = nonempty (getenv_strip environ ''DRONEAI_STAGE_WORK_DRIVE_DEFAULT'')
     in if drives \<noteq> [] \<and> (case drive_default of None \<Rightarrow> True | Some n \<Rightarrow> n \<notin> set (map fst drives))
        then Inl (ValueError ''DRONEAI_STAGE_WORK_DRIVE_DEFAULT must name a configured work drive'')
        else
     rbind (dc_float dc (getenv environ ''DRONEAI_STAGE_SCHEDULER_POLL_SECONDS'' ''5'')) (\<lambda>poll.
     rbind (limits_from_environment environ items) (\<lambda>limits.
     rbind (if enabled
            then executor_catalog dc (getenv environ ''DRONEAI_STAGE_EXECUTORS_JSON'' ''{}'')
                   (is_protected_environment environ)
            else Inr []) (\<lambda>executors.
     rbind (positive_int environ ''DRONEAI_STAGE_JOB_ACTIVE_DEADLINE_SECONDS'' 86400) (\<lambda>deadline.
     rbind (env_int environ ''DRONEAI_STAGE_JOB_TTL_SECONDS_AFTER_FINISHED'' 3600) (\<lambda>ttl.
     rbind (positive_int environ ''DRONEAI_STAGE_MAX_DISPATCH_ATTEMPTS'' 3) (\<lambda>attempts.
     rbind (positive_int environ ''DRONEAI_STAGE_SCHEDULER_MAX_CANDIDATES'' 5000) (\<lambda>candidates.
     rbind (positive_int environ ''DRONEAI_DETECTION_TILES_PER_SHARD'' 1024) (\<lambda>tiles.
     rbind (positive_int environ ''DRONEAI_DETECTION_SHARD_PARALLELISM'' 2) (\<lambda>parallelism.
     rbind (bounded_positive_int environ ''DRONEAI_DETECTION_MAXIMUM_TILES'' MAX_DETECTION_TILES
              MAX_DETECTION_TILES) (\<lambda>maximum_tiles.
       Inr \<lparr>st_enabled = enabled, st_namespace = getenv environ ''POD_NAMESPACE'' ''drone-ai'',
            st_poll_seconds = poll, st_limits = limits, st_executors = executors,
            st_job_environment = plain_environment environ enabled,
            st_job_secret_environment = storage_secret_environment environ
              (getenv environ ''DRONEAI_STAGE_STORAGE_SECRET_NAME'' ''drone-ai-storage''),
            st_job_secret_environment_by_stage = scoped,
            st_detection_environment = detection_env, st_detection_secret_environment = detection_secrets,
            st_service_account_name = getenv environ ''DRONEAI_STAGE_JOB_SERVICE_ACCOUNT'' ''stage-job-sa'',
            st_active_deadline_seconds = deadline, st_ttl_seconds_after_finished = ttl,
            st_runtime_class_name = nonempty (getenv_strip environ ''DRONEAI_STAGE_JOB_RUNTIME_CLASS''),
            st_maximum_dispatch_attempts = attempts, st_maximum_candidates_per_pass = candidates,
            st_detection_fanout_enabled = fanout, st_detection_tiles_per_shard = tiles,
            st_detection_shard_parallelism = parallelism, st_detection_maximum_tiles = maximum_tiles,
            st_work_drives = drives, st_work_drive_default = drive_default\<rparr>)))))))))))))))))"

subsection \<open>What accepted settings guarantee\<close>

lemma rmap_Inr_fst:
  "rmap f xs = Inr ys \<Longrightarrow> (\<And>x y. f x = Inr y \<Longrightarrow> fst y = x) \<Longrightarrow> map fst ys = xs"
  by (induction xs arbitrary: ys) (auto simp: rbind_Inr_iff)

lemma rmap_Inr_all:
  "rmap f xs = Inr ys \<Longrightarrow> (\<And>x y. f x = Inr y \<Longrightarrow> P y) \<Longrightarrow> y \<in> set ys \<Longrightarrow> P y"
  by (induction xs arbitrary: ys) (auto simp: rbind_Inr_iff)

lemma guarded_Inr: "(if c then Inl e else x) = Inr y \<longleftrightarrow> \<not> c \<and> x = Inr y"
  by simp

lemma settings_cases:
  assumes "settings_from_environment dc environ = Inr s"
  obtains enabled scoped executors items
  where "bounded_stage_jobs_enabled environ = Inr enabled" "st_enabled s = enabled"
    "scoped_stage_secret_environment dc environ
       (getenv environ ''DRONEAI_STAGE_CREDENTIAL_SECRETS_JSON'' ''{}'') enabled = Inr scoped"
    "st_job_secret_environment_by_stage s = scoped"
    "(if enabled then executor_catalog dc (getenv environ ''DRONEAI_STAGE_EXECUTORS_JSON'' ''{}'')
        (is_protected_environment environ) else Inr []) = Inr executors"
    "st_executors s = executors" "st_job_environment s = plain_environment environ enabled"
    "limits_from_environment environ items = Inr (st_limits s)" "1 \<le> st_maximum_dispatch_attempts s"
    "st_detection_maximum_tiles s \<le> MAX_DETECTION_TILES"
    "st_work_drives s \<noteq> [] \<longrightarrow> (\<exists>n. st_work_drive_default s = Some n \<and> n \<in> set (map fst (st_work_drives s)))"
proof -
  from assms show thesis
    unfolding settings_from_environment_def rbind_Inr_iff guarded_Inr Let_def split_paired_Ex prod.case sum.inject
  proof (elim exE conjE)
    fix enabled fanout restore items scoped detection_env detection_secrets poll limits executors
      deadline ttl attempts candidates tiles parallelism maximum_tiles
      and drives :: "(string \<times> work_volume) list"
    assume a: "bounded_stage_jobs_enabled environ = Inr enabled"
      "scoped_stage_secret_environment dc environ
         (getenv environ ''DRONEAI_STAGE_CREDENTIAL_SECRETS_JSON'' ''{}'') enabled = Inr scoped"
      "(if enabled then executor_catalog dc (getenv environ ''DRONEAI_STAGE_EXECUTORS_JSON'' ''{}'')
          (is_protected_environment environ) else Inr []) = Inr executors"
      "limits_from_environment environ items = Inr limits"
      "positive_int environ ''DRONEAI_STAGE_MAX_DISPATCH_ATTEMPTS'' 3 = Inr attempts"
      "bounded_positive_int environ ''DRONEAI_DETECTION_MAXIMUM_TILES'' MAX_DETECTION_TILES MAX_DETECTION_TILES
         = Inr maximum_tiles"
      "\<not> (drives \<noteq> [] \<and> (case nonempty (getenv_strip environ ''DRONEAI_STAGE_WORK_DRIVE_DEFAULT'') of
           None \<Rightarrow> True | Some n \<Rightarrow> n \<notin> set (map fst drives)))"
    have attempts: "1 \<le> attempts"
      using a(5) by (auto simp: positive_int_def rbind_Inr_iff split: if_splits)
    have tiles: "maximum_tiles \<le> MAX_DETECTION_TILES"
      using a(6) by (auto simp: bounded_positive_int_def rbind_Inr_iff split: if_splits)
    have drive: "drives \<noteq> [] \<longrightarrow> (\<exists>n. nonempty (getenv_strip environ ''DRONEAI_STAGE_WORK_DRIVE_DEFAULT'') = Some n
        \<and> n \<in> set (map fst drives))"
      using a(7) by (auto split: option.splits)
    assume s: "\<lparr>st_enabled = enabled, st_namespace = getenv environ ''POD_NAMESPACE'' ''drone-ai'',
            st_poll_seconds = poll, st_limits = limits, st_executors = executors,
            st_job_environment = plain_environment environ enabled,
            st_job_secret_environment = storage_secret_environment environ
              (getenv environ ''DRONEAI_STAGE_STORAGE_SECRET_NAME'' ''drone-ai-storage''),
            st_job_secret_environment_by_stage = scoped,
            st_detection_environment = detection_env, st_detection_secret_environment = detection_secrets,
            st_service_account_name = getenv environ ''DRONEAI_STAGE_JOB_SERVICE_ACCOUNT'' ''stage-job-sa'',
            st_active_deadline_seconds = deadline, st_ttl_seconds_after_finished = ttl,
            st_runtime_class_name = nonempty (getenv_strip environ ''DRONEAI_STAGE_JOB_RUNTIME_CLASS''),
            st_maximum_dispatch_attempts = attempts, st_maximum_candidates_per_pass = candidates,
            st_detection_fanout_enabled = fanout, st_detection_tiles_per_shard = tiles,
            st_detection_shard_parallelism = parallelism, st_detection_maximum_tiles = maximum_tiles,
            st_work_drives = drives,
            st_work_drive_default = nonempty (getenv_strip environ ''DRONEAI_STAGE_WORK_DRIVE_DEFAULT'')\<rparr> = s"
    have fields: "st_enabled s = enabled" "st_job_secret_environment_by_stage s = scoped" "st_executors s = executors"
      "st_job_environment s = plain_environment environ enabled"
      "limits_from_environment environ items = Inr (st_limits s)" "1 \<le> st_maximum_dispatch_attempts s"
      "st_detection_maximum_tiles s \<le> MAX_DETECTION_TILES"
      "st_work_drives s \<noteq> [] \<longrightarrow> (\<exists>n. st_work_drive_default s = Some n \<and> n \<in> set (map fst (st_work_drives s)))"
      using a(4) attempts tiles drive by (simp_all add: s [symmetric])
    show thesis by (rule that [OF a(1) fields(1) a(2) fields(2) a(3) fields(3-8)])
  qed
qed

lemma executor_of_Inr:
  "executor_of require_digest payload stage = Inr (st, e) \<Longrightarrow> st = stage \<and> (require_digest \<longrightarrow> digest_image (ex_image e))"
  by (auto simp: executor_of_def image_of_def rbind_Inr_iff split: pyval.split_asm if_split_asm)

lemma executor_catalog_Inr:
  assumes "executor_catalog dc raw require_digest = Inr es"
  shows "map fst es = STAGE_ORDER \<and> (require_digest \<longrightarrow> (\<forall>e \<in> set es. digest_image (ex_image (snd e))))"
proof -
  obtain d where r: "rmap (executor_of require_digest d) STAGE_ORDER = Inr es"
  proof -
    obtain v where v: "(case v of PDict d \<Rightarrow> rmap (executor_of require_digest d) STAGE_ORDER
        | _ \<Rightarrow> Inl (ValueError ''DRONEAI_STAGE_EXECUTORS_JSON must be an object'')) = Inr es"
      using assms unfolding executor_catalog_def rbind_Inr_iff by blast
    then show thesis using that by (cases v) simp_all
  qed
  show ?thesis
  proof (intro conjI impI ballI)
    show "map fst es = STAGE_ORDER" by (rule rmap_Inr_fst [OF r]) (use executor_of_Inr in fastforce)
    show "digest_image (ex_image (snd e))" if req: "require_digest" and e: "e \<in> set es" for e
      by (rule rmap_Inr_all [OF r _ e]) (use req executor_of_Inr in fastforce)
  qed
qed

lemma scoped_secrets_Inr:
  assumes "scoped_stage_secret_environment dc environ raw enabled = Inr scoped"
    and "enabled" and "is_protected_environment environ"
  shows "map fst scoped = STAGE_ORDER \<and> distinct (map (\<lambda>e. map se_secret_name (snd e)) scoped)"
proof -
  obtain payload secrets where r: "rmap (credential_name payload) STAGE_ORDER = Inr secrets"
    and d: "distinct (map snd secrets)"
    and s: "scoped = map (\<lambda>(stage, name). (stage, storage_secret_environment environ name)) secrets"
  proof -
    obtain v where v: "(case v of PDict payload \<Rightarrow> scoped_secrets environ enabled payload
        | _ \<Rightarrow> Inl (ValueError ''DRONEAI_STAGE_CREDENTIAL_SECRETS_JSON must be an object'')) = Inr scoped"
      using assms(1) unfolding scoped_stage_secret_environment_def rbind_Inr_iff by blast
    then obtain d where d: "scoped_secrets environ enabled d = Inr scoped" by (cases v) simp_all
    then have "d \<noteq> fmempty" using assms(2,3) by (auto simp: scoped_secrets_def Let_def split: if_split_asm)
    with d that show thesis
      unfolding scoped_secrets_def Let_def guarded_Inr if_not_P [OF \<open>d \<noteq> fmempty\<close>] rbind_Inr_iff by blast
  qed
  have names: "map fst secrets = STAGE_ORDER"
    by (rule rmap_Inr_fst [OF r]) (auto simp: credential_name_def split: pyval.split_asm if_split_asm)
  have secret: "map se_secret_name (storage_secret_environment environ name) = [name, name, name]" for name
    by (simp add: storage_secret_environment_def)
  have "distinct (map (\<lambda>n. [n, n, n]) (map snd secrets))"
    using d by (subst distinct_map) (simp add: inj_on_def)
  then show ?thesis using names by (simp add: s secret comp_def case_prod_unfold)
qed

text \<open>In staging and production the settings are refused unless bounded Jobs are enabled, every stage has an executor image pinned by digest, every stage has its own credential Secret, and the Jobs must run under row-level security.\<close>

theorem protected_settings_are_hardened:
  assumes "settings_from_environment dc environ = Inr s" and "is_protected_environment environ"
  shows "st_enabled s \<and> map fst (st_executors s) = STAGE_ORDER
    \<and> list_all (\<lambda>e. digest_image (ex_image (snd e))) (st_executors s)
    \<and> map fst (st_job_secret_environment_by_stage s) = STAGE_ORDER
    \<and> distinct (map (\<lambda>e. map se_secret_name (snd e)) (st_job_secret_environment_by_stage s))
    \<and> (''DRONEAI_STAGE_RLS_REQUIRED'', ''true'') \<in> set (st_job_environment s)"
  using assms(1)
proof (cases rule: settings_cases)
  case (1 enabled scoped executors items)
  have on: enabled
    using 1(1) assms(2) by (auto simp: bounded_stage_jobs_enabled_def rbind_Inr_iff split: if_splits)
  note catalog = executor_catalog_Inr [OF 1(5) [unfolded if_P [OF on]]]
  note secrets = scoped_secrets_Inr [OF 1(3) on assms(2)]
  show ?thesis using catalog secrets on assms(2) 1(2,4,6,7) by (simp add: list_all_iff plain_environment_def)
qed

subsection \<open>An example\<close>

definition example_executor :: pyval where
  "example_executor =
     json_object
       [(''image'', PStr (''registry/stage@sha256:'' @ replicate 64 CHR ''a'')), (''command'', PList [PStr ''run'']),
        (''gpu_architecture'', PStr ''ada'')]"

definition example_decoder :: decoder where
  "example_decoder =
     \<lparr>dc_json = (\<lambda>t. Inr (
        if t = ''executors'' then json_object (map (\<lambda>s. (stage_name s, example_executor)) STAGE_ORDER)
        else if t = ''secrets'' then json_object (map (\<lambda>s. (stage_name s, PStr (stage_name s))) STAGE_ORDER)
        else if t = ''[]'' then PList [] else PDict fmempty)),
      dc_float = (\<lambda>t. Inr 5)\<rparr>"

definition example_deployment :: environ where
  "example_deployment name =
     (if name = ''DRONEAI_ENV'' then Some ''production''
      else if name = ''DRONEAI_STAGE_JOBS_ENABLED'' then Some ''true''
      else if name = ''DRONEAI_STAGE_EXECUTORS_JSON'' then Some ''executors''
      else if name = ''DRONEAI_STAGE_CREDENTIAL_SECRETS_JSON'' then Some ''secrets'' else None)"

lemma example_settings_accepted: "\<not> isl (settings_from_environment example_decoder example_deployment)"
  by code_simp

theorem protected_settings_are_hardened_witness:
  "\<exists>s. settings_from_environment example_decoder example_deployment = Inr s \<and> st_enabled s
    \<and> map fst (st_executors s) = STAGE_ORDER"
proof -
  obtain s where s: "settings_from_environment example_decoder example_deployment = Inr s"
    using example_settings_accepted by (cases "settings_from_environment example_decoder example_deployment") auto
  have "is_protected_environment example_deployment" by code_simp
  from protected_settings_are_hardened [OF s this] s show ?thesis by blast
qed

end
