(* ===== verification/ShardReceipts.thy ===== *)
theory ShardReceipts
  imports PhaseDag DetectionSharding
begin

text \<open>
  Durable receipts of detection shards (\<open>shared/detection_shard_receipts.py\<close>), with the
  content-addressed keys they carry (\<open>shared/artifact_manifest.py\<close>): recording one receipt
  under the lock of its run, and the complete ordered set a finalizer asks for.
\<close>

subsection \<open>Keys and checksums\<close>

definition is_lower_sha256 :: "string \<Rightarrow> bool" where
  "is_lower_sha256 value \<longleftrightarrow> length value = 64 \<and> list_all hex_char value"

definition lower_sha256 :: "string \<Rightarrow> string \<Rightarrow> string res" where
  "lower_sha256 value field =
     (if \<not> is_lower_sha256 value then Inl (ValueError (field @ '' must be a lower-case SHA-256''))
      else Inr value)"

definition validate_cas_organization :: "string \<Rightarrow> string res" where
  "validate_cas_organization organization_id =
     rbind (validate_organization_id organization_id) (\<lambda>organization.
       if organization = LEGACY_ORGANIZATION_ID
       then Inl (ValueError ''Artifact storage requires a non-legacy organization'')
       else Inr organization)"

definition content_addressed_blob_key :: "string \<Rightarrow> string \<Rightarrow> string res" where
  "content_addressed_blob_key checksum_sha256 organization_id =
     (if \<not> is_lower_sha256 checksum_sha256
      then Inl (ValueError ''checksum_sha256 must be a lower-case SHA-256'')
      else rbind (validate_cas_organization organization_id) (\<lambda>organization.
             Inr (''organizations/'' @ organization @ ''/blobs/sha256/'' @ take 2 checksum_sha256 @ ''/''
                  @ checksum_sha256)))"

text \<open>A relative path that \<open>PurePosixPath\<close> neither rejects nor rewrites.\<close>

definition canonical_key :: "string \<Rightarrow> bool" where
  "canonical_key value \<longleftrightarrow>
     value \<noteq> [] \<and> CHR 0x5C \<notin> set value \<and> hd value \<noteq> CHR ''/''
     \<and> (value = ''.'' \<or> list_all (\<lambda>seg. seg \<notin> {[], ''.'', ''..''}) (path_segments value))"

definition shard_result_key :: "string \<Rightarrow> string \<Rightarrow> string \<Rightarrow> string res" where
  "shard_result_key value checksum_sha256 organization_id =
     (if \<not> canonical_key value
      then Inl (ValueError ''Detection shard result key must be a canonical S3 key'')
      else rbind (content_addressed_blob_key checksum_sha256 organization_id) (\<lambda>expected_key.
             if value \<noteq> expected_key
             then Inl (ValueError ''Detection shard result key must match its content checksum'')
             else Inr value))"

subsection \<open>The durable plan and organization of a run\<close>

definition durable_plan :: "stage_run \<Rightarrow> dict res" where
  "durable_plan run =
     (case dget (sr_provenance run) ''detection_shard_plan'' of
        PDict value \<Rightarrow> Inr value
      | _ \<Rightarrow> Inl (ValueError ''Detection stage run has no durable shard plan''))"

definition detection_run_organization_id :: "db \<Rightarrow> string \<Rightarrow> string res" where
  "detection_run_organization_id d run_id =
     rbind (one_or_none (concat (map (\<lambda>r. map m_organization_id
              (filter (\<lambda>m. m_id m = sr_mission_id r) (db_missions d)))
              (filter (\<lambda>r. sr_run_id r = run_id) (db_runs d))))) (\<lambda>value.
       (case value of
          None \<Rightarrow> Inl (ValueError ''Detection stage run has no durable mission organization'')
        | Some organization \<Rightarrow> validate_organization_id organization))"

definition same_receipt :: "shard_receipt \<Rightarrow> int \<Rightarrow> int \<Rightarrow> string \<Rightarrow> string \<Rightarrow> int \<Rightarrow> bool" where
  "same_receipt r shard_count tile_count result_key checksum result_size \<longleftrightarrow>
     dr_shard_count r = shard_count \<and> dr_tile_count r = tile_count \<and> dr_result_key r = result_key
     \<and> dr_result_checksum_sha256 r = checksum \<and> dr_result_size_bytes r = result_size"

text \<open>The checks both operations make on the run.\<close>

definition receipt_run_guard :: "string \<Rightarrow> string \<Rightarrow> string \<Rightarrow> shard_plan \<Rightarrow> stage_run \<Rightarrow> unit res" where
  "receipt_run_guard wrong_stage wrong_status wrong_plan plan run =
     (if sr_stage run \<noteq> Detection \<or> sr_executor run \<noteq> Some ''kubernetes-job''
        then Inl (ValueError wrong_stage)
      else if sr_status run \<noteq> Running
        then Inl (ValueError (wrong_status @ run_status_name (sr_status run)))
      else rbind (durable_plan run) (\<lambda>durable.
             if \<not> dict_eq durable (plan_descriptor plan) then Inl (ValueError wrong_plan) else Inr ()))"

subsection \<open>Recording a receipt\<close>

definition plan_receipts :: "db \<Rightarrow> stage_run \<Rightarrow> shard_plan \<Rightarrow> shard_receipt list" where
  "plan_receipts d run plan =
     filter (\<lambda>r. dr_stage_run_id r = sr_id run \<and> dr_plan_checksum_sha256 r = pl_checksum_sha256 plan) (db_receipts d)"

text \<open>Everything checked before the table of receipts is looked at.\<close>

definition receipt_request ::
  "string \<Rightarrow> shard_plan \<Rightarrow> int \<Rightarrow> string \<Rightarrow> string \<Rightarrow> int \<Rightarrow> string option \<Rightarrow> db
     \<Rightarrow> (stage_run \<times> detection_shard \<times> string \<times> string) res" where
  "receipt_request run_id plan index result_key result_checksum result_size organization_id d =
     (if plan_shard_count plan < 2
      then Inl (ValueError ''Detection shard receipts require a multi-shard plan'')
      else
        rbind (plan_shard plan index) (\<lambda>shard.
        rbind (lower_sha256 result_checksum ''Shard result checksum'') (\<lambda>checksum.
          if result_size \<le> 0 then Inl (ValueError ''Shard result size must be positive'')
          else
            rbind (run_by_run_id d run_id) (\<lambda>run.
            rbind (receipt_run_guard ''Shard receipts require a Kubernetes detection stage run''
                     ''Shard receipt cannot publish from status ''
                     ''Shard receipt plan does not match the durable stage plan'' plan run) (\<lambda>_.
            rbind (detection_run_organization_id d run_id) (\<lambda>durable_organization.
            rbind (case organization_id of
                     None \<Rightarrow> Inr ()
                   | Some organization \<Rightarrow>
                       rbind (validate_organization_id organization) (\<lambda>valid.
                         if valid \<noteq> durable_organization
                         then Inl (ValueError ''Detection shard organization does not match mission'')
                         else Inr ())) (\<lambda>_.
            rbind (shard_result_key result_key checksum durable_organization) (\<lambda>canonical.
              Inr (run, shard, checksum, canonical)))))))))"

definition new_receipt ::
  "int \<Rightarrow> stage_run \<Rightarrow> shard_plan \<Rightarrow> int \<Rightarrow> detection_shard \<Rightarrow> string \<Rightarrow> string \<Rightarrow> int \<Rightarrow> shard_receipt" where
  "new_receipt i run plan index shard checksum canonical result_size =
     \<lparr>dr_id = i, dr_stage_run_id = sr_id run,
      dr_plan_checksum_sha256 = pl_checksum_sha256 plan, dr_shard_index = index,
      dr_shard_count = plan_shard_count plan, dr_tile_count = shard_tile_count shard,
      dr_result_key = canonical, dr_result_checksum_sha256 = checksum,
      dr_result_size_bytes = result_size\<rparr>"

definition store_receipt ::
  "stage_run \<Rightarrow> shard_plan \<Rightarrow> int \<Rightarrow> detection_shard \<Rightarrow> string \<Rightarrow> string \<Rightarrow> int \<Rightarrow> db
     \<Rightarrow> ((shard_receipt \<times> bool) \<times> db) res" where
  "store_receipt run plan index shard checksum canonical result_size d =
     rbind (one_or_none (filter (\<lambda>r. dr_shard_index r = index) (plan_receipts d run plan))) (\<lambda>existing.
       (case existing of
          Some receipt \<Rightarrow>
            (if \<not> same_receipt receipt (plan_shard_count plan) (shard_tile_count shard) canonical checksum result_size
             then Inl (ValueError (''Detection shard '' @ int_text index @ '' already has a different receipt''))
             else Inr ((receipt, True), d))
        | None \<Rightarrow>
            (let receipt = new_receipt (next_id (map dr_id (db_receipts d))) run plan index shard
                   checksum canonical result_size
             in Inr ((receipt, False), d\<lparr>db_receipts := db_receipts d @ [receipt]\<rparr>))))"

definition record_detection_shard_receipt ::
  "string \<Rightarrow> shard_plan \<Rightarrow> int \<Rightarrow> string \<Rightarrow> string \<Rightarrow> int \<Rightarrow> string option \<Rightarrow> db \<Rightarrow> ((shard_receipt \<times> bool) \<times> db) res" where
  "record_detection_shard_receipt run_id plan index result_key result_checksum result_size organization_id d =
     rbind (receipt_request run_id plan index result_key result_checksum result_size organization_id d)
       (\<lambda>(run, shard, checksum, canonical).
         store_receipt run plan index shard checksum canonical result_size d)"

subsection \<open>The complete set\<close>

definition check_receipt :: "shard_plan \<Rightarrow> string \<Rightarrow> shard_receipt \<times> detection_shard \<Rightarrow> unit res" where
  "check_receipt plan organization p =
     (case p of (receipt, shard) \<Rightarrow>
        (if dr_shard_count receipt \<noteq> plan_shard_count plan \<or> dr_tile_count receipt \<noteq> shard_tile_count shard
         then Inl (ValueError ''Durable detection shard receipt contradicts its plan'')
         else
           rbind (lower_sha256 (dr_result_checksum_sha256 receipt) ''Durable shard result checksum'') (\<lambda>checksum.
           rbind (shard_result_key (dr_result_key receipt) checksum organization) (\<lambda>_.
             if dr_result_size_bytes receipt \<le> 0
             then Inl (ValueError ''Durable shard result size must be positive'')
             else Inr ()))))"

definition sorted_difference :: "int list \<Rightarrow> int list \<Rightarrow> int list" where
  "sorted_difference xs ys = sort (remdups (filter (\<lambda>x. x \<notin> set ys) xs))"

definition complete_detection_shard_receipts ::
  "string \<Rightarrow> shard_plan \<Rightarrow> db \<Rightarrow> shard_receipt list res" where
  "complete_detection_shard_receipts run_id plan d =
     rbind (run_by_run_id d run_id) (\<lambda>run.
     rbind (receipt_run_guard ''Shard finalization requires a Kubernetes detection run''
              ''Shard finalization cannot run from status ''
              ''Finalizer plan does not match the durable stage plan'' plan run) (\<lambda>_.
     rbind (detection_run_organization_id d run_id) (\<lambda>durable_organization.
       (let receipts = sort_key dr_shard_index (plan_receipts d run plan);
            indices = map dr_shard_index receipts;
            expected = py_range 0 (plan_shard_count plan) 1
        in if indices \<noteq> expected
           then Inl (ValueError (''Incomplete durable detection shard receipts: missing=''
                  @ int_list_text (sorted_difference expected indices) @ '', unexpected=''
                  @ int_list_text (sorted_difference indices expected)))
           else rbind (rmap (check_receipt plan durable_organization) (zip receipts (pl_shards plan))) (\<lambda>_.
                  Inr receipts)))))"


subsection \<open>Facts about receipts\<close>

lemma rbind_unit: "rbind r (\<lambda>_. f) = Inr y \<longleftrightarrow> (\<exists>x. r = Inr x) \<and> f = Inr y"
  by (cases r) auto

lemma receipt_request_Inr:
  assumes "receipt_request run_id plan i key checksum n org d = Inr (run, shard, c, k)"
  shows "run_by_run_id d run_id = Inr run" "plan_shard plan i = Inr shard" "2 \<le> plan_shard_count plan"
    "c = checksum" "k = key" "is_lower_sha256 checksum" "0 < n" "sr_status run = Running" "sr_stage run = Detection"
    "\<exists>organization. detection_run_organization_id d run_id = Inr organization
      \<and> content_addressed_blob_key checksum organization = Inr key"
  using assms
  by (auto simp: receipt_request_def lower_sha256_def shard_result_key_def receipt_run_guard_def rbind_Inr_iff
      split: if_splits)

lemma receipt_request_cong:
  assumes "db_runs d' = db_runs d" and "db_missions d' = db_missions d"
  shows "receipt_request run_id plan i key checksum n org d' = receipt_request run_id plan i key checksum n org d"
  unfolding receipt_request_def run_by_run_id_def detection_run_organization_id_def assms by (rule refl)

lemma plan_receipts_identity:
  "filter (\<lambda>r. dr_shard_index r = i) (plan_receipts d run plan)
   = filter (\<lambda>r. receipt_identity r = (sr_id run, pl_checksum_sha256 plan, i)) (db_receipts d)"
  unfolding plan_receipts_def filter_filter by (rule filter_cong) (auto simp: receipt_identity_def)

lemma store_receipt_Inr:
  assumes "store_receipt run plan i shard c k n d = Inr ((r, reused), d')"
  shows "same_receipt r (plan_shard_count plan) (shard_tile_count shard) k c n"
    "receipt_identity r = (sr_id run, pl_checksum_sha256 plan, i)"
    "filter (\<lambda>r. dr_shard_index r = i) (plan_receipts d' run plan) = [r]"
    "if reused then d' = d else d' = d\<lparr>db_receipts := db_receipts d @ [r]\<rparr>
       \<and> receipt_identity r \<notin> set (map receipt_identity (db_receipts d))"
proof -
  from assms obtain ex where
    ex: "one_or_none (filter (\<lambda>r. dr_shard_index r = i) (plan_receipts d run plan)) = Inr ex"
    by (auto simp: store_receipt_def rbind_Inr_iff)
  have "same_receipt r (plan_shard_count plan) (shard_tile_count shard) k c n
    \<and> receipt_identity r = (sr_id run, pl_checksum_sha256 plan, i)
    \<and> filter (\<lambda>r. dr_shard_index r = i) (plan_receipts d' run plan) = [r]
    \<and> (if reused then d' = d else d' = d\<lparr>db_receipts := db_receipts d @ [r]\<rparr>
       \<and> receipt_identity r \<notin> set (map receipt_identity (db_receipts d)))"
  proof (cases ex)
    case None
    with ex have none: "filter (\<lambda>r. dr_shard_index r = i) (plan_receipts d run plan) = []"
      by (simp add: one_or_none_None)
    from None ex assms have r: "r = new_receipt (next_id (map dr_id (db_receipts d))) run plan i shard c k n"
      "\<not> reused" "d' = d\<lparr>db_receipts := db_receipts d @ [r]\<rparr>" by (auto simp: store_receipt_def Let_def)
    have id: "receipt_identity r = (sr_id run, pl_checksum_sha256 plan, i)"
      by (simp add: r(1) new_receipt_def receipt_identity_def)
    have "receipt_identity r \<notin> set (map receipt_identity (db_receipts d))"
      using none unfolding plan_receipts_identity id by (auto simp: filter_empty_conv)
    moreover have "filter (\<lambda>r. dr_shard_index r = i) (plan_receipts d' run plan) = [r]"
      using none id unfolding plan_receipts_identity r(3) by simp
    moreover have "same_receipt r (plan_shard_count plan) (shard_tile_count shard) k c n"
      by (simp add: r(1) new_receipt_def same_receipt_def)
    ultimately show ?thesis using r(2,3) id by simp
  next
    case (Some x)
    with ex have f: "filter (\<lambda>r. dr_shard_index r = i) (plan_receipts d run plan) = [x]" by (simp add: one_or_none_Some)
    then have "x \<in> set (filter (\<lambda>r. dr_shard_index r = i) (plan_receipts d run plan))" by simp
    then have "receipt_identity x = (sr_id run, pl_checksum_sha256 plan, i)"
      by (simp add: plan_receipts_def receipt_identity_def)
    moreover from Some ex assms have "r = x" "reused" "d' = d"
      "same_receipt r (plan_shard_count plan) (shard_tile_count shard) k c n"
      by (auto simp: store_receipt_def split: if_splits)
    ultimately show ?thesis using f by simp
  qed
  then show "same_receipt r (plan_shard_count plan) (shard_tile_count shard) k c n"
    "receipt_identity r = (sr_id run, pl_checksum_sha256 plan, i)"
    "filter (\<lambda>r. dr_shard_index r = i) (plan_receipts d' run plan) = [r]"
    "if reused then d' = d else d' = d\<lparr>db_receipts := db_receipts d @ [r]\<rparr>
       \<and> receipt_identity r \<notin> set (map receipt_identity (db_receipts d))" by blast+
qed

lemma store_receipt_found:
  assumes "filter (\<lambda>r. dr_shard_index r = i) (plan_receipts d run plan) = [r]"
  shows "store_receipt run plan i shard c k n d =
    (if same_receipt r (plan_shard_count plan) (shard_tile_count shard) k c n then Inr ((r, True), d)
     else Inl (ValueError (''Detection shard '' @ int_text i @ '' already has a different receipt'')))"
  by (simp add: store_receipt_def assms)

lemma sum_lengths_int: "int (length (concat xss)) = sum_list (map (\<lambda>xs. int (length xs)) xss)"
  by (induction xss) simp_all

lemma built_tile_counts:
  assumes "build_detection_shard_plan digest width height tile_size overlap tps mt ms = Inr plan"
  shows "sum_list (map shard_tile_count (pl_shards plan)) = plan_tile_count plan"
proof -
  note fields = build_plan_fields [OF assms]
  have pos: "0 < plan_tile_count plan" by (rule build_plan_tile_count_pos [OF assms])
  have "int (length (concat (map (\<lambda>s. py_range (first_tile_index s) (end_tile_index s) 1) (pl_shards plan))))
      = int (length (py_range 0 (plan_tile_count plan) 1))"
    using plan_shards_partition [OF fields(11), of "plan_tile_count plan"] pos by (simp add: fields(8))
  also have "\<dots> = plan_tile_count plan" using pos by (simp add: py_range_unit)
  also have "int (length (concat (map (\<lambda>s. py_range (first_tile_index s) (end_tile_index s) 1) (pl_shards plan))))
      = sum_list (map shard_tile_count (pl_shards plan))"
  proof -
    have "int (length (py_range (first_tile_index s) (end_tile_index s) 1)) = shard_tile_count s"
      if "s \<in> set (pl_shards plan)" for s
      using plan_shards_sizes [OF fields(11), of s "plan_tile_count plan"] that fields(8)
      by (simp add: py_range_unit end_tile_index_def)
    then show ?thesis by (simp add: sum_lengths_int o_def cong: map_cong)
  qed
  finally show ?thesis by simp
qed


subsection \<open>Properties of receipts\<close>

text \<open>A shard receipt is immutable and recorded at most once: a recording appends one row
  or finds it, keeps the constraints of the table, a retry with the same result finds the
  same row and changes nothing, and a different result for the shard is refused.\<close>

theorem shard_receipt_recorded_once:
  assumes "record_detection_shard_receipt run_id plan i key checksum n org d = Inr ((r, reused), d')"
    and "receipt_table_ok (db_receipts d)"
    and "build_detection_shard_plan digest width height tile_size overlap tps mt ms = Inr plan"
    and "length (digest (plan_payload width height tile_size overlap tps (pl_x_starts plan) (pl_y_starts plan)
           (pl_shards plan))) = 64"
  shows "db_receipts d' = db_receipts d @ (if reused then [] else [r]) \<and> receipt_table_ok (db_receipts d')
    \<and> record_detection_shard_receipt run_id plan i key checksum n org d' = Inr ((r, True), d')
    \<and> (key' \<noteq> key \<or> checksum' \<noteq> checksum \<or> n' \<noteq> n
        \<longrightarrow> isl (record_detection_shard_receipt run_id plan i key' checksum' n' org' d'))"
proof -
  from assms(1) obtain run shard c k where req: "receipt_request run_id plan i key checksum n org d = Inr (run, shard, c, k)"
    and store: "store_receipt run plan i shard c k n d = Inr ((r, reused), d')"
    by (auto simp: record_detection_shard_receipt_def rbind_Inr_iff)
  note q = receipt_request_Inr [OF req] and s = store_receipt_Inr [OF store]
  note fields = build_plan_fields [OF assms(3)]
  have frame: "db_runs d' = db_runs d" "db_missions d' = db_missions d" using s(4) by (auto split: if_splits)
  have again: "record_detection_shard_receipt run_id plan i key checksum n org d' = Inr ((r, True), d')"
    using s(1) by (simp add: record_detection_shard_receipt_def receipt_request_cong [OF frame] req
        store_receipt_found [OF s(3)])
  have "isl (record_detection_shard_receipt run_id plan i key' checksum' n' org' d')"
    if "key' \<noteq> key \<or> checksum' \<noteq> checksum \<or> n' \<noteq> n"
  proof (cases "receipt_request run_id plan i key' checksum' n' org' d'")
    case (Inr t)
    then obtain run' shard' c' k' where req': "receipt_request run_id plan i key' checksum' n' org' d' = Inr (run', shard', c', k')"
      by (cases t) auto
    note q' = receipt_request_Inr [OF this]
    have "run' = run" "shard' = shard" using q(1,2) q'(1,2) by (simp_all add: run_by_run_id_def frame)
    then have "store_receipt run' plan i shard' c' k' n' d'
        = Inl (ValueError (''Detection shard '' @ int_text i @ '' already has a different receipt''))"
      using s(1) q(4,5) q'(4,5) that by (auto simp: store_receipt_found [OF s(3)] same_receipt_def)
    then show ?thesis by (simp add: record_detection_shard_receipt_def req')
  qed (simp add: record_detection_shard_receipt_def)
  moreover have "receipt_table_ok (db_receipts d')"
  proof (cases reused)
    case False
    have range: "0 \<le> i" "i < plan_shard_count plan" using q(2) by (auto simp: plan_shard_def split: if_splits)
    have mem: "shard \<in> set (pl_shards plan)"
      using q(2) range by (simp add: plan_shard_def plan_shard_count_def py_nth_Inr) (metis nth_mem nat_less_iff)
    then have "1 \<le> shard_tile_count shard"
      using plan_shards_sizes [OF fields(11), of shard "plan_tile_count plan"] fields(8) by simp
    moreover have "plan_shard_count plan \<le> 256"
    proof -
      have "plan_shard_count plan = int (nat (ceil_div (plan_tile_count plan) tps))"
        unfolding plan_shard_count_def by (subst fields(8)) (simp add: plan_shards_def py_range_unit)
      then show ?thesis using fields(14,15) by (simp add: MAX_DETECTION_SHARDS_def)
    qed
    ultimately have "receipt_row_ok r"
      using s(1,2) q range assms(4) fields(17)
      by (simp add: receipt_row_ok_def same_receipt_def receipt_identity_def is_lower_sha256_def)
    with False s(4) assms(2) show ?thesis by (simp add: receipt_table_ok_def)
  qed (use s(4) assms(2) in simp)
  ultimately show ?thesis using again s(4) by simp
qed

text \<open>A complete set of receipts has exactly one receipt per shard in shard order, the
  receipts account for every tile of the plan, and each names a result in the store of the
  mission's organization by its checksum.\<close>

theorem complete_receipts_cover_plan:
  assumes "complete_detection_shard_receipts run_id plan d = Inr rs"
    and "build_detection_shard_plan digest width height tile_size overlap tps mt ms = Inr plan"
  shows "map dr_shard_index rs = py_range 0 (plan_shard_count plan) 1
    \<and> map dr_tile_count rs = map shard_tile_count (pl_shards plan)
    \<and> sum_list (map dr_tile_count rs) = plan_tile_count plan
    \<and> set rs \<subseteq> set (db_receipts d)
    \<and> (\<exists>organization. detection_run_organization_id d run_id = Inr organization
        \<and> list_all (\<lambda>r. content_addressed_blob_key (dr_result_checksum_sha256 r) organization
             = Inr (dr_result_key r)) rs)"
proof -
  from assms(1) obtain run organization us where org: "detection_run_organization_id d run_id = Inr organization"
    and rs: "rs = sort_key dr_shard_index (plan_receipts d run plan)"
    and idx: "map dr_shard_index rs = py_range 0 (plan_shard_count plan) 1"
    and checks: "rmap (check_receipt plan organization) (zip rs (pl_shards plan)) = Inr us"
    by (auto simp: complete_detection_shard_receipts_def rbind_Inr_iff Let_def split: if_splits)
  have "length rs = length (py_range 0 (plan_shard_count plan) 1)" using idx by (metis length_map)
  then have len: "length rs = length (pl_shards plan)" by (simp add: py_range_unit plan_shard_count_def)
  have each: "check_receipt plan organization (rs ! j, pl_shards plan ! j) = Inr (us ! j)" if "j < length rs" for j
    using rmap_all2 [OF checks] that len by (auto simp: list_all2_conv_all_nth)
  have "dr_tile_count (rs ! j) = shard_tile_count (pl_shards plan ! j)" if "j < length rs" for j
    using each [OF that] by (auto simp: check_receipt_def split: if_splits)
  then have tiles: "map dr_tile_count rs = map shard_tile_count (pl_shards plan)"
    using len by (intro nth_equalityI) simp_all
  have "content_addressed_blob_key (dr_result_checksum_sha256 r) organization = Inr (dr_result_key r)" if r: "r \<in> set rs" for r
  proof -
    from r obtain j where "j < length rs" "rs ! j = r" by (auto simp: in_set_conv_nth)
    with each [of j] show ?thesis
      by (auto simp: check_receipt_def lower_sha256_def shard_result_key_def rbind_Inr_iff split: if_splits)
  qed
  moreover have "set rs \<subseteq> set (db_receipts d)" by (auto simp: rs plan_receipts_def)
  ultimately show ?thesis using idx tiles org built_tile_counts [OF assms(2)] by (auto simp: list_all_iff)
qed


subsection \<open>A fan-out of three shards\<close>

definition example_shard_plan :: shard_plan where
  "example_shard_plan = example_plan\<lparr>pl_checksum_sha256 := replicate 64 CHR ''d''\<rparr>"

definition example_shard_run :: stage_run where
  "example_shard_run = example_run\<lparr>sr_stage := Detection, sr_status := Running,
     sr_executor := Some ''kubernetes-job'',
     sr_provenance := fmap_of_list [(''detection_shard_plan'', PDict (plan_descriptor example_shard_plan))]\<rparr>"

definition example_result_key :: string where
  "example_result_key = ''organizations/acme/blobs/sha256/aa/'' @ replicate 64 CHR ''a''"

definition example_receipt :: "int \<Rightarrow> shard_receipt" where
  "example_receipt i = \<lparr>dr_id = i + 1, dr_stage_run_id = 1, dr_plan_checksum_sha256 = replicate 64 CHR ''d'',
     dr_shard_index = i, dr_shard_count = 3, dr_tile_count = 2, dr_result_key = example_result_key,
     dr_result_checksum_sha256 = replicate 64 CHR ''a'', dr_result_size_bytes = 5\<rparr>"

definition example_shard_db :: "shard_receipt list \<Rightarrow> db" where
  "example_shard_db receipts = example_pipeline\<lparr>db_runs := [example_shard_run], db_receipts := receipts\<rparr>"

lemma example_shard_plan_built:
  "build_detection_shard_plan (\<lambda>_. replicate 64 CHR ''d'') 10 7 4 1 2 1000 256 = Inr example_shard_plan"
  by code_simp

theorem shard_receipt_recorded_once_witness:
  "\<exists>r reused d'. record_detection_shard_receipt ''r1'' example_shard_plan 1 example_result_key
       (replicate 64 CHR ''a'') 5 (Some ''acme'') (example_shard_db [example_receipt 0]) = Inr ((r, reused), d')
     \<and> receipt_table_ok (db_receipts d')
     \<and> isl (record_detection_shard_receipt ''r1'' example_shard_plan 1 example_result_key
             (replicate 64 CHR ''a'') 6 (Some ''acme'') d')"
proof -
  let ?rec = "record_detection_shard_receipt ''r1'' example_shard_plan 1 example_result_key
       (replicate 64 CHR ''a'') 5 (Some ''acme'') (example_shard_db [example_receipt 0])"
  have "\<not> isl ?rec" by code_simp
  then obtain r reused d' where rec: "?rec = Inr ((r, reused), d')" by (cases ?rec) auto
  have ok: "receipt_table_ok (db_receipts (example_shard_db [example_receipt 0]))" by code_simp
  have "length (replicate 64 CHR ''d'') = 64" by simp
  from shard_receipt_recorded_once [OF rec ok example_shard_plan_built this,
      where key' = example_result_key and checksum' = "replicate 64 CHR ''a''" and n' = 6] rec
  show ?thesis by fastforce
qed

theorem complete_receipts_cover_plan_witness:
  "\<exists>rs. complete_detection_shard_receipts ''r1'' example_shard_plan
       (example_shard_db [example_receipt 2, example_receipt 0, example_receipt 1]) = Inr rs
     \<and> sum_list (map dr_tile_count rs) = 6"
proof -
  let ?c = "complete_detection_shard_receipts ''r1'' example_shard_plan
       (example_shard_db [example_receipt 2, example_receipt 0, example_receipt 1])"
  have "\<not> isl ?c" by code_simp
  then obtain rs where c: "?c = Inr rs" by (cases ?c) auto
  have "plan_tile_count example_shard_plan = 6" by code_simp
  with complete_receipts_cover_plan [OF c example_shard_plan_built] c show ?thesis by auto
qed

end
