(* ===== verification/JobReservation.thy ===== *)
theory JobReservation
  imports OrchestratorSettings ShardReceipts
begin

text \<open>
  Reserving and dispatching stage Jobs (second part of
  \<open>app4-dashboard/api/stage_orchestrator.py\<close>): the detection fan-out, the Job of a reserved
  run, the repair of resource classes, the reservation transaction and the dispatch that
  follows it.

  The cluster is a parameter behind \<open>job_client\<close>. The advisory lock of PostgreSQL and the
  rows that other transactions hold are arguments of the reservation (\<open>acquired\<close>,
  \<open>free\<close>). A transaction reads the clock once.
\<close>

subsection \<open>Keys of the provenance\<close>

abbreviation DETECTION_PHASE_KEY :: string where "DETECTION_PHASE_KEY \<equiv> ''detection_execution_phase''"
abbreviation DETECTION_SHARDS_PHASE :: string where "DETECTION_SHARDS_PHASE \<equiv> ''shards''"
abbreviation DETECTION_FINALIZER_PHASE :: string where "DETECTION_FINALIZER_PHASE \<equiv> ''finalizer''"
abbreviation REQUESTED_PARALLELISM_KEY :: string where "REQUESTED_PARALLELISM_KEY \<equiv> ''requested_shard_parallelism''"
abbreviation EFFECTIVE_PARALLELISM_KEY :: string where "EFFECTIVE_PARALLELISM_KEY \<equiv> ''effective_shard_parallelism''"
abbreviation INFERENCE_RESOURCE_CLASS_KEY :: string where
  "INFERENCE_RESOURCE_CLASS_KEY \<equiv> ''detection_inference_resource_class''"
abbreviation GPU_ARCHITECTURE_LABEL :: string where "GPU_ARCHITECTURE_LABEL \<equiv> ''droneai.io/gpu-architecture''"

definition EXECUTOR_NAME :: string where
  "EXECUTOR_NAME = ''kubernetes-job''"

definition queued_or_running :: "run_status \<Rightarrow> bool" where
  "queued_or_running s \<longleftrightarrow> s \<in> {Queued, Running}"

subsection \<open>The phase of a detection run\<close>

definition detection_phase :: "stage_run \<Rightarrow> string option" where
  "detection_phase r = (case dget (sr_provenance r) DETECTION_PHASE_KEY of PStr s \<Rightarrow> Some s | _ \<Rightarrow> None)"

definition detection_job_name :: "world \<Rightarrow> stage_run \<Rightarrow> string" where
  "detection_job_name w r =
     stage_job_name w
       (if detection_phase r = Some DETECTION_FINALIZER_PHASE then sr_run_id r @ ''-finalizer'' else sr_run_id r)"

definition integer_value :: "pyval \<Rightarrow> string \<Rightarrow> int res" where
  "integer_value v field =
     (case (case v of PBool _ \<Rightarrow> None | _ \<Rightarrow> py_int v) of
        None \<Rightarrow> Inl (ValueError (field @ '' must be an integer''))
      | Some i \<Rightarrow> Inr i)"

definition durable_shard_plan :: "world \<Rightarrow> stage_run \<Rightarrow> shard_plan res" where
  "durable_shard_plan w r =
     parse_detection_shard_plan_descriptor (w_digest w) (dget (sr_provenance r) ''detection_shard_plan'')"

text \<open>The exact raster product a fan-out starts from, with the stage run that published it.\<close>

definition fanout_raster :: "db \<Rightarrow> stage_run \<Rightarrow> (artifact \<times> stage_run) res" where
  "fanout_raster d r =
     (case sr_upstream_artifact_ids r of
        [upstream] \<Rightarrow>
          if upstream = []
          then Inl (ValueError ''Detection fan-out requires exactly one immutable upstream artifact'')
          else rbind (one_or_none (filter (\<lambda>a. ma_artifact_id a = upstream \<and> ma_mission_id a = sr_mission_id r)
                                     (db_artifacts d))) (\<lambda>found.
            case found of
              None \<Rightarrow> Inl (ValueError ''Detection fan-out requires its exact raster product artifact'')
            | Some a \<Rightarrow>
                if ma_kind a \<noteq> ''raster_product_workspace''
                then Inl (ValueError ''Detection fan-out requires its exact raster product artifact'')
                else rbind (artifact_stage_run d a) (\<lambda>publisher.
                  if sr_stage publisher \<noteq> Rasterization \<or> sr_status publisher \<noteq> Succeeded
                  then Inl (ValueError ''Detection fan-out requires its exact raster product artifact'')
                  else Inr (a, publisher)))
      | _ \<Rightarrow> Inl (ValueError ''Detection fan-out requires exactly one immutable upstream artifact''))"

definition fanout_plan :: "world \<Rightarrow> orchestrator_settings \<Rightarrow> dict \<Rightarrow> stage_run \<Rightarrow> shard_plan res" where
  "fanout_plan w st metrics r =
     rbind (integer_value (dget metrics ''width'') ''Raster width'') (\<lambda>width.
     rbind (integer_value (dget metrics ''height'') ''Raster height'') (\<lambda>height.
       case py_or (dget (sr_parameters r) ''ai'') (PDict fmempty) of
         PDict ai \<Rightarrow>
           rbind (integer_value (py_or (dget ai ''tile_size'') (PInt 1024)) ''Detection tile size'') (\<lambda>tile_size.
           rbind (integer_value (if dget ai ''tile_overlap'' \<noteq> PNone then dget ai ''tile_overlap''
                                 else PInt (tile_size div 4)) ''Detection tile overlap'') (\<lambda>overlap.
             build_detection_shard_plan (w_digest w) width height tile_size overlap
               (st_detection_tiles_per_shard st) (st_detection_maximum_tiles st) MAX_DETECTION_SHARDS))
       | _ \<Rightarrow> Inl (ValueError ''Detection stage AI parameters must be an object'')))"

definition monolithic_run :: "shard_plan \<Rightarrow> stage_run \<Rightarrow> stage_run" where
  "monolithic_run plan r =
     r\<lparr>sr_provenance := fmupd ''detection_planned_tile_count'' (PInt (plan_tile_count plan))
         (fmupd ''detection_execution_mode'' (PStr ''monolithic'') (sr_provenance r))\<rparr>"

definition fanout_run :: "shard_plan \<Rightarrow> stage_run \<Rightarrow> stage_run" where
  "fanout_run plan r =
     r\<lparr>sr_provenance := fmupd DETECTION_PHASE_KEY (PStr DETECTION_SHARDS_PHASE)
         (fmupd ''detection_shard_plan'' (PDict (plan_descriptor plan))
           (fmupd ''detection_execution_mode'' (PStr ''fanout-fanin'') (sr_provenance r)))\<rparr>"

definition prepare_detection_fanout ::
  "world \<Rightarrow> db \<Rightarrow> stage_run \<Rightarrow> orchestrator_settings \<Rightarrow> (shard_plan option \<times> stage_run) res" where
  "prepare_detection_fanout w d r st =
     (if sr_stage r \<noteq> Detection \<or> \<not> st_detection_fanout_enabled st then Inr (None, r)
      else if detection_phase r = Some DETECTION_FINALIZER_PHASE then Inr (None, r)
      else if detection_phase r = Some DETECTION_SHARDS_PHASE
      then rbind (durable_shard_plan w r) (\<lambda>plan. Inr (Some plan, r))
      else
        rbind (fanout_raster d r) (\<lambda>(raster, publisher).
        rbind (fanout_plan w st (sr_quality_metrics publisher) r) (\<lambda>plan.
          if plan_shard_count plan < 2 then Inr (None, monolithic_run plan r)
          else Inr (Some plan, fanout_run plan r))))"

subsection \<open>Resource units\<close>

definition detection_shard_count :: "world \<Rightarrow> stage_run \<Rightarrow> int res" where
  "detection_shard_count w r = rbind (durable_shard_plan w r) (\<lambda>plan. Inr (plan_shard_count plan))"

definition sharded :: "stage_run \<Rightarrow> bool" where
  "sharded r \<longleftrightarrow> sr_stage r = Detection \<and> detection_phase r = Some DETECTION_SHARDS_PHASE"

definition requested_resource_units :: "world \<Rightarrow> orchestrator_settings \<Rightarrow> stage_run \<Rightarrow> int res" where
  "requested_resource_units w st r =
     (if \<not> sharded r then Inr 1
      else rbind (detection_shard_count w r) (\<lambda>n. Inr (min (st_detection_shard_parallelism st) n)))"

definition active_resource_units :: "world \<Rightarrow> stage_run \<Rightarrow> int res" where
  "active_resource_units w r =
     (if \<not> sharded r then Inr 1
      else rbind (detection_shard_count w r) (\<lambda>shard_count.
        case integer_value (dget (sr_provenance r) EFFECTIVE_PARALLELISM_KEY) ''Effective detection shard parallelism'' of
          Inl _ \<Rightarrow> Inr shard_count
        | Inr effective \<Rightarrow>
            if \<not> (1 \<le> effective \<and> effective \<le> shard_count) then Inr shard_count else Inr effective))"

subsection \<open>The Job of a run\<close>

record reserved_job =
  rj_request :: stage_job_request
  rj_config :: stage_job_config
  rj_job_name :: string

definition executor_for :: "orchestrator_settings \<Rightarrow> stage_id \<Rightarrow> executor_config res" where
  "executor_for st stage =
     (case map_of (st_executors st) stage of None \<Rightarrow> Inl (KeyError (stage_name stage)) | Some e \<Rightarrow> Inr e)"

definition or_value_error :: "'a res \<Rightarrow> 'a \<Rightarrow> 'a res" where
  "or_value_error r fallback = (case r of Inl e \<Rightarrow> if is_value_error e then Inr fallback else Inl e | Inr x \<Rightarrow> Inr x)"

text \<open>The index of a sharded Job, its name suffix and its environment.\<close>

definition phase_parts ::
  "world \<Rightarrow> orchestrator_settings \<Rightarrow> stage_run
   \<Rightarrow> (indexed_config option \<times> string option \<times> (string \<times> string) list) res" where
  "phase_parts w st r =
     (if sharded r then
        rbind (durable_shard_plan w r) (\<lambda>plan.
        rbind (or_value_error (integer_value (dget (sr_provenance r) REQUESTED_PARALLELISM_KEY)
                 ''Requested detection shard parallelism'')
                 (min (st_detection_shard_parallelism st) (plan_shard_count plan))) (\<lambda>requested.
        rbind (or_value_error (integer_value (dget (sr_provenance r) EFFECTIVE_PARALLELISM_KEY)
                 ''Effective detection shard parallelism'') requested) (\<lambda>effective.
          if \<not> (1 \<le> effective \<and> effective \<le> min requested (plan_shard_count plan))
          then Inl (ValueError ''Effective detection shard parallelism exceeds its reservation'')
          else rbind (indexed_post_init \<lparr>ix_completions = plan_shard_count plan, ix_parallelism = effective\<rparr>) (\<lambda>indexed.
            Inr (Some indexed, None, [(''DRONEAI_DETECTION_EXECUTION_MODE'', ''shard'')])))))
      else if sr_stage r = Detection \<and> detection_phase r = Some DETECTION_FINALIZER_PHASE
      then Inr (None, Some ''finalizer'', [(''DRONEAI_DETECTION_EXECUTION_MODE'', ''finalizer'')])
      else Inr (None, None, []))"

definition run_work_volume :: "orchestrator_settings \<Rightarrow> stage_run \<Rightarrow> mission \<Rightarrow> work_volume option res" where
  "run_work_volume st r m =
     (let drive = py_or (dget (sr_parameters r) ''work_drive'')
                    (py_or (dget (dict_or (m_params m)) ''work_drive'') (opt_str (st_work_drive_default st)))
      in if st_work_drives st = [] then Inr None
         else (case (case drive of PStr name \<Rightarrow> map_of (st_work_drives st) name | _ \<Rightarrow> None) of
                 None \<Rightarrow> Inl (ValueError ''Stage Job work_drive is not configured'')
               | Some v \<Rightarrow> Inr (Some v)))"

definition executor_selector :: "executor_config \<Rightarrow> stage_run \<Rightarrow> (string \<times> pyval) list res" where
  "executor_selector e r =
     (if detection_phase r = Some DETECTION_FINALIZER_PHASE then Inr []
      else
        let selector = fmap_of_list (ex_node_selector e); configured = dget selector GPU_ARCHITECTURE_LABEL;
            architecture = ex_gpu_architecture e
        in if \<not> truthy architecture then Inr (sorted_list_of_fmap selector)
           else (case architecture of
                   PList _ \<Rightarrow> Inl (TypeError ''unhashable type'')
                 | PDict _ \<Rightarrow> Inl (TypeError ''unhashable type'')
                 | _ \<Rightarrow>
                     if configured \<noteq> PNone \<and> \<not> py_eq configured architecture
                     then Inl (ValueError ''Executor GPU architecture conflicts with its node selector'')
                     else Inr (sorted_list_of_fmap (fmupd GPU_ARCHITECTURE_LABEL architecture selector))))"

definition request_for :: "stage_run \<Rightarrow> mission \<Rightarrow> stage_job_request" where
  "request_for r m =
     \<lparr>jr_run_id = sr_run_id r, jr_mission_id = m_id m, jr_organization_id = m_organization_id m,
      jr_vol_id = m_vol_id m, jr_workspace_prefix = m_workspace_prefix m,
      jr_owner_subject = m_owner_subject m, jr_stage = sr_stage r,
      jr_resource_class = (if detection_phase r = Some DETECTION_FINALIZER_PHASE then CpuStandard
                           else sr_resource_class r)\<rparr>"

definition config_for ::
  "orchestrator_settings \<Rightarrow> executor_config \<Rightarrow> stage_run \<Rightarrow> (string \<times> pyval) list
   \<Rightarrow> indexed_config option \<times> string option \<times> (string \<times> string) list \<Rightarrow> work_volume option \<Rightarrow> stage_job_config" where
  "config_for st e r selector parts volume =
     (let inference = (sr_stage r = Detection \<and> detection_phase r \<noteq> Some DETECTION_FINALIZER_PHASE);
          (indexed, suffix, phase_environment) = parts;
          scoped = (case map_of (st_job_secret_environment_by_stage st) (sr_stage r) of
                      None \<Rightarrow> st_job_secret_environment st | Some s \<Rightarrow> s)
      in \<lparr>jc_namespace = st_namespace st, jc_image = ex_image e, jc_command = ex_command e,
          jc_service_account_name = st_service_account_name st,
          jc_active_deadline_seconds = st_active_deadline_seconds st,
          jc_ttl_seconds_after_finished = st_ttl_seconds_after_finished st,
          jc_runtime_class_name = st_runtime_class_name st, jc_node_selector = selector,
          jc_tolerations = (if detection_phase r = Some DETECTION_FINALIZER_PHASE then [] else ex_tolerations e),
          jc_environment = st_job_environment st @ (if inference then st_detection_environment st else [])
            @ phase_environment,
          jc_secret_environment = scoped @ (if inference then st_detection_secret_environment st else []),
          jc_indexed = indexed, jc_name_suffix = suffix, jc_work_volume = volume\<rparr>)"

definition reserved_job_for ::
  "world \<Rightarrow> stage_run \<Rightarrow> mission \<Rightarrow> orchestrator_settings \<Rightarrow> reserved_job res" where
  "reserved_job_for w r m st =
     rbind (executor_for st (sr_stage r)) (\<lambda>e.
     rbind (phase_parts w st r) (\<lambda>parts.
     rbind (run_work_volume st r m) (\<lambda>volume.
       if m_organization_id m = [] \<or> m_workspace_prefix m = []
       then Inl (ValueError
         ''Bounded stage execution requires a durable organization and mission workspace prefix'')
       else
         rbind (request_post_init (request_for r m)) (\<lambda>request.
         rbind (executor_selector e r) (\<lambda>selector.
         rbind (config_post_init (config_for st e r selector parts volume)) (\<lambda>config.
           Inr \<lparr>rj_request = request, rj_config = config, rj_job_name = detection_job_name w r\<rparr>))))))"

subsection \<open>Repair of resource classes\<close>

definition repair_resource_class :: "stage_run \<Rightarrow> stage_run res" where
  "repair_resource_class r =
     (if sr_stage r = Detection \<and> detection_phase r = Some DETECTION_FINALIZER_PHASE
      then Inr (if sr_resource_class r \<noteq> CpuStandard
                then r\<lparr>sr_resource_class := CpuStandard,
                       sr_provenance := fmupd INFERENCE_RESOURCE_CLASS_KEY
                         (PStr (class_name (sr_resource_class r))) (sr_provenance r)\<rparr>
                else r)
      else rbind (resource_class_for_stage (sr_stage r) (sr_parameters r)) (\<lambda>required.
        Inr (if resource_class_meets_envelope (sr_resource_class r) required then r
             else r\<lparr>sr_resource_class := required,
                    sr_provenance := fmupd ''resource_class_repaired_from''
                      (PStr (class_name (sr_resource_class r))) (sr_provenance r)\<rparr>)))"

subsection \<open>The reservation transaction\<close>

text \<open>A join with the missions: the runs that satisfy a condition, each with its mission.\<close>

definition runs_with_missions :: "(stage_run \<Rightarrow> mission \<Rightarrow> bool) \<Rightarrow> db \<Rightarrow> (stage_run \<times> mission) list" where
  "runs_with_missions P d =
     concat (map (\<lambda>r. map (Pair r) (filter (\<lambda>m. m_id m = sr_mission_id r \<and> P r m) (db_missions d))) (db_runs d))"

definition active_rows :: "db \<Rightarrow> (stage_run \<times> mission) list" where
  "active_rows d =
     runs_with_missions (\<lambda>r m. sr_executor r = Some EXECUTOR_NAME \<and> queued_or_running (sr_status r)) d"

definition organization_may_run :: "db \<Rightarrow> mission \<Rightarrow> bool" where
  "organization_may_run d m \<longleftrightarrow>
     list_ex (\<lambda>g. og_id g = m_organization_id m \<and> og_status g = OrganizationActive) (db_organizations d)
     \<or> m_organization_id m = LEGACY_ORGANIZATION_ID"

definition candidate_row :: "orchestrator_settings \<Rightarrow> (string \<Rightarrow> bool) \<Rightarrow> db \<Rightarrow> stage_run \<Rightarrow> mission \<Rightarrow> bool" where
  "candidate_row st free d r m \<longleftrightarrow>
     sr_status r = Queued \<and> sr_executor r = None \<and> sr_dispatch_attempts r < st_maximum_dispatch_attempts st
     \<and> \<not> mission_stopped m \<and> organization_may_run d m \<and> free (sr_run_id r)"

text \<open>A text of the provenance as the database orders it, absent values first.\<close>

definition nulls_first :: "pyval \<Rightarrow> nat \<times> string" where
  "nulls_first v = (case v of PStr s \<Rightarrow> (1, s) | _ \<Rightarrow> (0, []))"

definition candidate_order :: "stage_run \<times> mission \<Rightarrow> (nat \<times> string) \<times> instant \<times> string" where
  "candidate_order = (\<lambda>(r, m).
     (nulls_first (dget (sr_provenance r) ''scheduler_checked_at''), sr_created_at r, sr_run_id r))"

definition candidate_query ::
  "orchestrator_settings \<Rightarrow> (string \<Rightarrow> bool) \<Rightarrow> db \<Rightarrow> (stage_run \<times> mission) list" where
  "candidate_query st free d = sort_key candidate_order (runs_with_missions (candidate_row st free d) d)"

definition SCHEDULER_CANDIDATE_PAGE_SIZE :: nat where
  "SCHEDULER_CANDIDATE_PAGE_SIZE = 500"

text \<open>The query is read in pages until the pass is full or a page comes back short.\<close>

function collect_pages :: "nat \<Rightarrow> 'a list \<Rightarrow> 'a list \<Rightarrow> nat \<Rightarrow> 'a list" where
  "collect_pages maximum query rows offset =
     (if length rows < maximum then
        (let page_limit = min SCHEDULER_CANDIDATE_PAGE_SIZE (maximum - length rows);
             page = take page_limit (drop offset query)
         in if length page < page_limit then rows @ page
            else collect_pages maximum query (rows @ page) (offset + length page))
      else rows)"
  by pat_completeness auto
termination
  by (relation "measure (\<lambda>(maximum, query, rows, offset). maximum - length rows)")
     (auto simp: SCHEDULER_CANDIDATE_PAGE_SIZE_def)

declare collect_pages.simps [simp del]

definition checked_run :: "instant \<Rightarrow> stage_run \<Rightarrow> stage_run" where
  "checked_run now r = r\<lparr>sr_provenance := fmupd ''scheduler_checked_at'' (PStr (isoformat now)) (sr_provenance r)\<rparr>"

definition refused_run :: "string \<Rightarrow> instant \<Rightarrow> stage_run \<Rightarrow> stage_run" where
  "refused_run message now r =
     r\<lparr>sr_status := Failed, sr_error_message := Some message, sr_completed_at := Some now\<rparr>"

fun prepare_candidates ::
  "world \<Rightarrow> orchestrator_settings \<Rightarrow> instant \<Rightarrow> (stage_run \<times> mission) list \<Rightarrow> db
   \<Rightarrow> ((stage_run \<times> mission) list \<times> db) res" where
  "prepare_candidates w st now [] d = Inr ([], d)"
| "prepare_candidates w st now ((r, m) # rows) d =
     rbind (repair_resource_class (checked_run now r)) (\<lambda>r1.
     let d1 = put_run r1 d
     in case prepare_detection_fanout w d1 r1 st of
          Inl e \<Rightarrow>
            if is_value_error e then
              (let r2 = refused_run (''Invalid detection fan-out plan: '' @ error_text e) now r1
               in rbind (sync_analysis_stage w now r2 (put_run r2 d1)) (\<lambda>(_, d2). prepare_candidates w st now rows d2))
            else Inl e
        | Inr (_, r2) \<Rightarrow>
            rbind (prepare_candidates w st now rows (put_run r2 d1)) (\<lambda>(prepared, d2). Inr ((r2, m) # prepared, d2)))"

definition scheduler_tenant :: "mission \<Rightarrow> string" where
  "scheduler_tenant m =
     (if m_organization_id m = LEGACY_ORGANIZATION_ID then m_owner_subject m else m_organization_id m)"

definition commercial_organizations :: "(stage_run \<times> mission) list \<Rightarrow> string list" where
  "commercial_organizations rows =
     remdups (filter (\<lambda>g. g \<noteq> LEGACY_ORGANIZATION_ID) (map (m_organization_id \<circ> snd) rows))"

fun add_owner_limits :: "int \<Rightarrow> (string \<times> int) list \<Rightarrow> (string, int) fmap \<Rightarrow> (string, int) fmap" where
  "add_owner_limits per_owner [] limits = limits"
| "add_owner_limits per_owner ((g, limit) # rest) limits =
     add_owner_limits per_owner rest
       (fmupd g (min (case fmlookup limits g of None \<Rightarrow> per_owner | Some v \<Rightarrow> v) limit) limits)"

definition effective_limits ::
  "orchestrator_settings \<Rightarrow> db \<Rightarrow> (stage_run \<times> mission) list \<Rightarrow> scheduling_limits res" where
  "effective_limits st d rows =
     (let base = st_limits st;
          commercial = stage_run_limits d (commercial_organizations rows) (per_owner_active base);
          limits = base\<lparr>owner_active := add_owner_limits (per_owner_active base) commercial (owner_active base)\<rparr>
      in rbind (limits_post_init limits) (\<lambda>_. Inr limits))"

definition allocation_for :: "world \<Rightarrow> stage_run \<times> mission \<Rightarrow> stage_allocation res" where
  "allocation_for w = (\<lambda>(r, m).
     rbind (active_resource_units w r) (\<lambda>units.
       let a = \<lparr>al_run_id = sr_run_id r, al_mission_id = m_id m, al_owner_subject = scheduler_tenant m,
                al_stage = sr_stage r, al_resource_class = sr_resource_class r, al_resource_units = units\<rparr>
       in rbind (allocation_post_init a) (\<lambda>_. Inr a)))"

definition candidate_for :: "world \<Rightarrow> orchestrator_settings \<Rightarrow> stage_run \<times> mission \<Rightarrow> stage_candidate res" where
  "candidate_for w st = (\<lambda>(r, m).
     rbind (requested_resource_units w st r) (\<lambda>units.
       let c = \<lparr>al_run_id = sr_run_id r, al_mission_id = m_id m, al_owner_subject = scheduler_tenant m,
                al_stage = sr_stage r, al_resource_class = sr_resource_class r, al_resource_units = units,
                ca_created_at = sr_created_at r\<rparr>
       in rbind (allocation_post_init c) (\<lambda>_. Inr c)))"

text \<open>The last selected item of a run, as the dictionary by run id keeps it.\<close>

definition selected_units :: "stage_candidate list \<Rightarrow> string \<Rightarrow> int option" where
  "selected_units items run_id =
     map_option al_resource_units (find (\<lambda>c. al_run_id c = run_id) (rev items))"

definition with_parallelism ::
  "world \<Rightarrow> orchestrator_settings \<Rightarrow> int \<Rightarrow> stage_run \<Rightarrow> stage_run res" where
  "with_parallelism w st units r =
     (if \<not> sharded r then Inr r
      else rbind (requested_resource_units w st r) (\<lambda>requested.
        Inr (r\<lparr>sr_provenance := fmupd EFFECTIVE_PARALLELISM_KEY (PInt units)
                (fmupd REQUESTED_PARALLELISM_KEY (PInt requested) (sr_provenance r))\<rparr>)))"

definition scheduled_run :: "world \<Rightarrow> instant \<Rightarrow> pyval \<Rightarrow> int \<Rightarrow> stage_run \<Rightarrow> stage_run" where
  "scheduled_run w now architecture units r =
     r\<lparr>sr_executor := Some EXECUTOR_NAME, sr_job_name := Some (detection_job_name w r),
       sr_scheduled_at := Some now, sr_dispatch_attempts := sr_dispatch_attempts r + 1,
       sr_dispatch_error := None,
       sr_provenance :=
         fmupd ''gpu_architecture'' (if sr_resource_class r = CpuStandard then PNone else architecture)
         (fmupd ''resource_units'' (PInt units)
         (fmupd ''resource_class'' (PStr (class_name (sr_resource_class r)))
         (fmupd ''executor'' (PStr EXECUTOR_NAME) (sr_provenance r))))\<rparr>"

definition scheduled_key :: "stage_run \<Rightarrow> string" where
  "scheduled_key r = ''stage-scheduled:'' @ sr_run_id r @ '':'' @ int_text (sr_dispatch_attempts r)"

definition scheduled_entry :: "stage_run \<Rightarrow> mission \<Rightarrow> int \<Rightarrow> usage_entry" where
  "scheduled_entry r m units =
     \<lparr>un_organization_id = m_organization_id m, un_action = StageScheduled, un_resource_type = ''stage_run'',
      un_resource_id = sr_run_id r, un_actor_subject = ''system:stage-scheduler'', un_quantity = Some units,
      un_unit = Some ''resource_units'', un_idempotency_key = Some (scheduled_key r),
      un_details = fmap_of_list
        [(''stage'', PStr (stage_name (sr_stage r))),
         (''resource_class'', PStr (class_name (sr_resource_class r))), (''mission_id'', PStr (m_vol_id m))]\<rparr>"

text \<open>One candidate after the selection: the Job it is reserved for, if any, and its row.\<close>

definition reserve_candidate ::
  "world \<Rightarrow> orchestrator_settings \<Rightarrow> instant \<Rightarrow> stage_candidate list \<Rightarrow> stage_run \<times> mission \<Rightarrow> db
   \<Rightarrow> (reserved_job option \<times> stage_run \<times> db) res" where
  "reserve_candidate w st now selected row d =
     (let (r0, m) = row; r = checked_run now r0
      in case selected_units selected (sr_run_id r) of
           None \<Rightarrow> Inr (None, r, put_run r d)
         | Some units \<Rightarrow>
             rbind (executor_for st (sr_stage r)) (\<lambda>e.
             rbind (with_parallelism w st units r) (\<lambda>r1.
               case reserved_job_for w r1 m st of
                 Inl err \<Rightarrow>
                   if is_value_error err then
                     (let r2 = refused_run (''Invalid Stage Job workspace configuration: '' @ error_text err) now r1
                      in Inr (None, r2, put_run r2 d))
                   else Inl err
               | Inr job \<Rightarrow>
                   let r2 = scheduled_run w now (ex_gpu_architecture e) units r1
                   in rbind (append_usage_event w (scheduled_entry r2 m units) (put_run r2 d)) (\<lambda>(_, d2).
                        Inr (Some job, r2, d2)))))"

fun reserve_candidates ::
  "world \<Rightarrow> orchestrator_settings \<Rightarrow> instant \<Rightarrow> stage_candidate list \<Rightarrow> (stage_run \<times> mission) list \<Rightarrow> db
   \<Rightarrow> (reserved_job list \<times> stage_run list \<times> db) res" where
  "reserve_candidates w st now selected [] d = Inr ([], [], d)"
| "reserve_candidates w st now selected (row # rows) d =
     rbind (reserve_candidate w st now selected row d) (\<lambda>(job, r, d1).
     rbind (reserve_candidates w st now selected rows d1) (\<lambda>(jobs, rs, d2).
       Inr ((case job of None \<Rightarrow> jobs | Some j \<Rightarrow> j # jobs), r # rs, d2)))"

fun sync_runs :: "world \<Rightarrow> instant \<Rightarrow> stage_run list \<Rightarrow> db \<Rightarrow> db res" where
  "sync_runs w now [] d = Inr d"
| "sync_runs w now (r # rs) d =
     rbind (sync_analysis_stage w now r d) (\<lambda>(_, d1). sync_runs w now rs d1)"

definition reserve_ready_jobs ::
  "world \<Rightarrow> bool \<Rightarrow> (string \<Rightarrow> bool) \<Rightarrow> orchestrator_settings \<Rightarrow> instant \<Rightarrow> db \<Rightarrow> (reserved_job list \<times> db) res" where
  "reserve_ready_jobs w acquired free st now d =
     (if \<not> acquired then Inr ([], d)
      else
        let active = active_rows d;
            found = collect_pages (nat (st_maximum_candidates_per_pass st)) (candidate_query st free d) [] 0
        in rbind (prepare_candidates w st now found d) (\<lambda>(prepared, d1).
           rbind (effective_limits st d1 (active @ prepared)) (\<lambda>limits.
           rbind (rmap (allocation_for w) active) (\<lambda>allocations.
           rbind (rmap (candidate_for w st) prepared) (\<lambda>candidates.
           rbind (reserve_candidates w st now (select_stage_candidates candidates allocations limits) prepared d1)
             (\<lambda>(jobs, rs, d2).
           rbind (sync_runs w now rs d2) (\<lambda>d3. Inr (jobs, d3))))))))"

subsection \<open>Dispatch\<close>

definition dispatch_failed :: "string \<Rightarrow> int \<Rightarrow> instant \<Rightarrow> stage_run \<Rightarrow> stage_run" where
  "dispatch_failed message maximum_attempts now r =
     (let r1 = r\<lparr>sr_dispatch_error := Some (take 4000 message)\<rparr>
      in if sr_dispatch_attempts r \<ge> maximum_attempts
         then r1\<lparr>sr_status := Failed,
                 sr_error_message := Some ''Stage Job dispatch failed after bounded retries'',
                 sr_completed_at := Some now\<rparr>
         else r1\<lparr>sr_executor := None, sr_scheduled_at := None\<rparr>)"

definition record_dispatch_error ::
  "world \<Rightarrow> instant \<Rightarrow> string \<Rightarrow> py_error \<Rightarrow> int \<Rightarrow> db \<Rightarrow> unit res \<times> db" where
  "record_dispatch_error w now run_id err maximum_attempts =
     in_session None None (\<lambda>d.
       rbind (run_by_run_id d run_id) (\<lambda>r.
       let r1 = dispatch_failed (error_text err) maximum_attempts now r
       in rbind (sync_analysis_stage w now r1 (put_run r1 d)) (\<lambda>(_, d1). Inr ((), d1))))"

definition create_job :: "world \<Rightarrow> 'k job_client \<Rightarrow> reserved_job \<Rightarrow> 'k \<Rightarrow> unit res \<times> 'k" where
  "create_job w c reserved k =
     (case build_stage_job w (rj_request reserved) (rj_config reserved) of
        Inl e \<Rightarrow> (Inl e, k)
      | Inr job \<Rightarrow>
          if value_get (dget job ''metadata'') ''name'' \<noteq> Inr (PStr (rj_job_name reserved))
          then (Inl (RuntimeError ''Reserved stage Job identity does not match its manifest''), k)
          else case client_create c job k of
            (Inr _, k1) \<Rightarrow> (Inr (), k1)
          | (Inl e, k1) \<Rightarrow>
              if (case e of KubernetesApiError code _ \<Rightarrow> code \<noteq> 409 | _ \<Rightarrow> True) then (Inl e, k1)
              else case client_get c (rj_job_name reserved) k1 of
                (Inl e', k2) \<Rightarrow> (Inl e', k2)
              | (Inr existing, k2) \<Rightarrow>
                  (case stage_job_matches_expected w existing job of
                     Inl e' \<Rightarrow> (Inl e', k2)
                   | Inr True \<Rightarrow> (Inr (), k2)
                   | Inr False \<Rightarrow>
                       (Inl (RuntimeError
                          ''Existing Kubernetes Job conflicts with the reserved Stage Job manifest''), k2)))"

text \<open>\<open>clock\<close> gives the instant at which each dispatch error is recorded.\<close>

fun dispatch_reserved_jobs ::
  "world \<Rightarrow> (nat \<Rightarrow> instant) \<Rightarrow> 'k job_client \<Rightarrow> reserved_job list \<Rightarrow> int \<Rightarrow> db \<times> 'k \<Rightarrow> unit res \<times> db \<times> 'k" where
  "dispatch_reserved_jobs w clock c [] maximum_attempts (d, k) = (Inr (), d, k)"
| "dispatch_reserved_jobs w clock c (item # items) maximum_attempts (d, k) =
     (case create_job w c item k of
        (Inr _, k1) \<Rightarrow> dispatch_reserved_jobs w (\<lambda>n. clock (n + 1)) c items maximum_attempts (d, k1)
      | (Inl e, k1) \<Rightarrow>
          (case record_dispatch_error w (clock 0) (jr_run_id (rj_request item)) e maximum_attempts d of
             (Inl e', d1) \<Rightarrow> (Inl e', d1, k1)
           | (Inr _, d1) \<Rightarrow>
               dispatch_reserved_jobs w (\<lambda>n. clock (n + 1)) c items maximum_attempts (d1, k1)))"

end
