(* ===== verification/JobReconciliation.thy ===== *)
theory JobReconciliation
  imports JobReservation
begin

text \<open>
  Reconciling stage Jobs with the cluster and the control loop (last part of
  \<open>app4-dashboard/api/stage_orchestrator.py\<close>): the effect of a Job's status on its run, the
  cleanup observation, the three phases of a reconciliation pass (lease the rows, observe
  the cluster outside any transaction, settle each observation under its fencing token)
  and one tick of the loop with its queue measurements.

  Between the phases other transactions may run; a settlement therefore takes the
  database as it finds it. \<open>clock n\<close> is the instant of the n-th reading in a pass.
\<close>

subsection \<open>Keys\<close>

abbreviation JOB_CLEANUP_CONFIRMED_AT_KEY :: string where "JOB_CLEANUP_CONFIRMED_AT_KEY \<equiv> ''cleanup_confirmed_at''"

definition RECONCILIATION_LEASE_SECONDS :: int where
  "RECONCILIATION_LEASE_SECONDS = 300"

definition RECONCILIATION_BATCH :: nat where
  "RECONCILIATION_BATCH = 20"

subsection \<open>Conditions of a Job\<close>

text \<open>Iterating over the conditions: the keys of an object and the characters of a text are never objects.\<close>

definition condition_items :: "pyval \<Rightarrow> pyval list res" where
  "condition_items v =
     (case v of PDict d \<Rightarrow> Inr (map (\<lambda>(k, _). PStr k) (sorted_list_of_fmap d)) | _ \<Rightarrow> as_items v)"

definition job_has_condition :: "dict \<Rightarrow> string \<Rightarrow> bool res" where
  "job_has_condition status kind =
     rbind (condition_items (py_or (dget status ''conditions'') (PList []))) (\<lambda>conditions.
       Inr (list_ex (\<lambda>condition.
         case condition of
           PDict d \<Rightarrow> py_eq (dget d ''type'') (PStr kind) \<and> str_lower (py_str (dget d ''status'')) = ''true''
         | _ \<Rightarrow> False) conditions))"

definition condition_details :: "dict \<Rightarrow> string list" where
  "condition_details d =
     List.map_filter (\<lambda>v. case v of PStr s \<Rightarrow> if str_strip s = [] then None else Some (str_strip s) | _ \<Rightarrow> None)
       [dget d ''reason'', dget d ''message'']"

definition JOB_FAILED_PREFIX :: string where
  "JOB_FAILED_PREFIX = ''Kubernetes stage Job failed''"

fun failure_message_from :: "pyval list \<Rightarrow> string res" where
  "failure_message_from [] = Inr JOB_FAILED_PREFIX"
| "failure_message_from (condition # rest) =
     (case condition of
        PDict d \<Rightarrow>
          (case dget d ''type'' of
             PList _ \<Rightarrow> Inl (TypeError ''unhashable type'')
           | PDict _ \<Rightarrow> Inl (TypeError ''unhashable type'')
           | kind \<Rightarrow>
               if kind \<noteq> PStr ''Failed'' \<and> kind \<noteq> PStr ''FailureTarget'' then failure_message_from rest
               else if str_lower (py_str (get_default d ''status'' (PStr ''True''))) \<noteq> ''true''
               then failure_message_from rest
               else if condition_details d = [] then failure_message_from rest
               else Inr (take 4000 (JOB_FAILED_PREFIX @ '': '' @ join_text '': '' (condition_details d))))
      | _ \<Rightarrow> failure_message_from rest)"

definition job_failure_message :: "dict \<Rightarrow> string res" where
  "job_failure_message status =
     (case py_or (dget status ''conditions'') (PList []) of
        PList conditions \<Rightarrow> failure_message_from (rev conditions)
      | _ \<Rightarrow> Inr JOB_FAILED_PREFIX)"

subsection \<open>The effect of a status\<close>

text \<open>The hand-over of a sharded run whose receipts are complete to its finalizer Job.\<close>

definition finalizer_run :: "stage_run \<Rightarrow> stage_run" where
  "finalizer_run r =
     r\<lparr>sr_provenance :=
         fmupd INFERENCE_RESOURCE_CLASS_KEY (PStr (class_name (sr_resource_class r)))
         (fmupd ''detection_shard_dispatch_attempts'' (PInt (sr_dispatch_attempts r))
         (fmupd ''detection_shard_job_name'' (opt_str (sr_job_name r))
         (fmupd DETECTION_PHASE_KEY (PStr DETECTION_FINALIZER_PHASE) (sr_provenance r)))),
       sr_resource_class := CpuStandard, sr_executor := None, sr_job_name := None, sr_scheduled_at := None,
       sr_dispatch_attempts := 0, sr_dispatch_error := None, sr_status := Queued,
       sr_current_step := Some ''DETECTION_FINALIZING''\<rparr>"

definition completed_shards :: "world \<Rightarrow> stage_run \<Rightarrow> db \<Rightarrow> unit res" where
  "completed_shards w r d =
     rbind (durable_shard_plan w r) (\<lambda>plan.
     rbind (complete_detection_shard_receipts (sr_run_id r) plan d) (\<lambda>_. Inr ()))"

definition complete_job :: "world \<Rightarrow> instant \<Rightarrow> stage_run \<Rightarrow> db \<Rightarrow> stage_run res" where
  "complete_job w now r d =
     (if sharded r then
        (case completed_shards w r d of
           Inl e \<Rightarrow>
             if is_value_error e
             then Inr (refused_run (''Detection shards exited without a complete durable receipt set: ''
                         @ error_text e) now r)
             else Inl e
         | Inr _ \<Rightarrow> Inr (finalizer_run r))
      else Inr (refused_run ''Stage Job exited without publishing its immutable artifact'' now r))"

definition started_run :: "instant \<Rightarrow> stage_run \<Rightarrow> stage_run" where
  "started_run now r =
     r\<lparr>sr_status := Running, sr_started_at := (case sr_started_at r of None \<Rightarrow> Some now | s \<Rightarrow> s)\<rparr>"

definition apply_job_status :: "world \<Rightarrow> instant \<Rightarrow> stage_run \<Rightarrow> pyval \<Rightarrow> db \<Rightarrow> (stage_run \<times> db) res" where
  "apply_job_status w now r0 job d0 =
     rbind (value_get job ''status'') (\<lambda>value.
     let r = r0\<lparr>sr_heartbeat_at := Some now\<rparr>; d = put_run r d0
     in rbind (as_dict (py_or value (PDict fmempty))) (\<lambda>status.
        rbind (job_has_condition status ''Failed'') (\<lambda>failed.
        rbind (if failed then
                 rbind (job_failure_message status) (\<lambda>message. Inr (refused_run message now r))
               else
                 rbind (job_has_condition status ''Complete'') (\<lambda>complete.
                   if complete then complete_job w now r d
                   else rbind (int_of_value (py_or (dget status ''active'') (PInt 0))) (\<lambda>active.
                          Inr (if active > 0 then started_run now r else r)))) (\<lambda>r'.
          Inr (r', put_run r' d)))))"

subsection \<open>Cleanup\<close>

definition cleanup_job_names :: "stage_run \<Rightarrow> string list" where
  "cleanup_job_names r =
     sort (remdups (map py_str (filter truthy
       [opt_str (sr_job_name r), dget (sr_provenance r) ''detection_shard_job_name''])))"

fun observe_cleanup :: "'k job_client \<Rightarrow> bool \<Rightarrow> string list \<Rightarrow> 'k \<Rightarrow> bool res \<times> 'k" where
  "observe_cleanup c confirmed [] k = (Inr confirmed, k)"
| "observe_cleanup c confirmed (name # names) k =
     (case client_get c name k of
        (Inl e, k1) \<Rightarrow>
          if (case e of KubernetesApiError code _ \<Rightarrow> code \<noteq> 404 | _ \<Rightarrow> True) then (Inl e, k1)
          else (case client_pods_for_job c name k1 of
                  (Inl e', k2) \<Rightarrow> (Inl e', k2)
                | (Inr pods, k2) \<Rightarrow> observe_cleanup c (confirmed \<and> \<not> truthy pods) names k2)
      | (Inr job, k1) \<Rightarrow>
          (case rbind (value_get job ''metadata'') (\<lambda>metadata. value_get (py_or metadata (PDict fmempty)) ''uid'') of
             Inl e \<Rightarrow> (Inl e, k1)
           | Inr uid \<Rightarrow>
               if \<not> truthy uid then (Inl (ValueError ''Kubernetes Job observation has no UID''), k1)
               else (case client_delete c name (py_str uid) k1 of
                       (Inl e, k2) \<Rightarrow>
                         if (case e of KubernetesApiError code _ \<Rightarrow> code \<noteq> 404 | _ \<Rightarrow> True) then (Inl e, k2)
                         else observe_cleanup c False names k2
                     | (Inr _, k2) \<Rightarrow> observe_cleanup c False names k2)))"

subsection \<open>Leasing the rows\<close>

record snapshot =
  sn_run_id :: string
  sn_run_status :: run_status
  sn_mission_status :: mission_status
  sn_name :: string
  sn_attempts :: int
  sn_cleanup :: bool
  sn_names :: "string list"
  sn_reserved :: "reserved_job option"

definition lease_expired :: "instant \<Rightarrow> stage_run \<Rightarrow> bool" where
  "lease_expired now r \<longleftrightarrow>
     (case dget (sr_provenance r) ''reconcile_lease_until'' of PStr s \<Rightarrow> s < isoformat now | _ \<Rightarrow> True)"

definition reconcilable :: "instant \<Rightarrow> (string \<Rightarrow> bool) \<Rightarrow> stage_run \<Rightarrow> mission \<Rightarrow> bool" where
  "reconcilable now free r m \<longleftrightarrow>
     sr_executor r = Some EXECUTOR_NAME \<and> sr_job_name r \<noteq> None
     \<and> dget (sr_provenance r) JOB_CLEANUP_CONFIRMED_AT_KEY = PNone \<and> lease_expired now r
     \<and> free (sr_run_id r)"

definition heartbeat_order :: "stage_run \<times> mission \<Rightarrow> (nat \<times> instant) \<times> string" where
  "heartbeat_order = (\<lambda>(r, m).
     ((case sr_heartbeat_at r of None \<Rightarrow> (0, 0) | Some t \<Rightarrow> (1, t)), sr_run_id r))"

definition reconciliation_rows :: "instant \<Rightarrow> (string \<Rightarrow> bool) \<Rightarrow> db \<Rightarrow> (stage_run \<times> mission) list" where
  "reconciliation_rows now free d =
     take RECONCILIATION_BATCH (sort_key heartbeat_order (runs_with_missions (reconcilable now free) d))"

definition needs_cleanup :: "stage_run \<Rightarrow> mission \<Rightarrow> bool" where
  "needs_cleanup r m \<longleftrightarrow> \<not> queued_or_running (sr_status r) \<or> mission_stopped m"

definition leased_run :: "instant \<Rightarrow> string \<Rightarrow> bool \<Rightarrow> stage_run \<Rightarrow> stage_run" where
  "leased_run now token cleanup r =
     (let leased = fmupd ''reconcile_lease_until''
            (PStr (isoformat (now + seconds RECONCILIATION_LEASE_SECONDS)))
            (fmupd ''reconcile_token'' (PStr token) (sr_provenance r))
      in r\<lparr>sr_provenance :=
            (if cleanup \<and> fmlookup leased ''cleanup_requested_at'' = None
             then fmupd ''cleanup_requested_at'' (PStr (isoformat now)) leased else leased)\<rparr>)"

definition lease_row ::
  "world \<Rightarrow> orchestrator_settings \<Rightarrow> instant \<Rightarrow> string \<Rightarrow> stage_run \<times> mission \<Rightarrow> db \<Rightarrow> (snapshot \<times> db) res" where
  "lease_row w st now token row d =
     (let (r, m) = row; cleanup = needs_cleanup r m; r1 = leased_run now token cleanup r
      in rbind (if cleanup then Inr (r1, None)
                else rbind (repair_resource_class r1) (\<lambda>r2.
                     rbind (reserved_job_for w r2 m st) (\<lambda>job. Inr (r2, Some job)))) (\<lambda>(r2, reserved).
         Inr (\<lparr>sn_run_id = sr_run_id r2, sn_run_status = sr_status r2, sn_mission_status = m_status m,
               sn_name = py_str (opt_str (sr_job_name r2)), sn_attempts = sr_dispatch_attempts r2,
               sn_cleanup = cleanup, sn_names = cleanup_job_names r2, sn_reserved = reserved\<rparr>,
              put_run r2 d)))"

fun lease_rows ::
  "world \<Rightarrow> orchestrator_settings \<Rightarrow> instant \<Rightarrow> string \<Rightarrow> (stage_run \<times> mission) list \<Rightarrow> db \<Rightarrow> (snapshot list \<times> db) res" where
  "lease_rows w st now token [] d = Inr ([], d)"
| "lease_rows w st now token (row # rows) d =
     rbind (lease_row w st now token row d) (\<lambda>(s, d1).
     rbind (lease_rows w st now token rows d1) (\<lambda>(ss, d2). Inr (s # ss, d2)))"

definition begin_reconciliation ::
  "world \<Rightarrow> orchestrator_settings \<Rightarrow> instant \<Rightarrow> (string \<Rightarrow> bool) \<Rightarrow> string \<Rightarrow> db \<Rightarrow> snapshot list res \<times> db" where
  "begin_reconciliation w st now free token =
     in_session None None (\<lambda>d. lease_rows w st now token (reconciliation_rows now free d) d)"

subsection \<open>Observing the cluster\<close>

record observation =
  ob_job :: "pyval option"
  ob_missing :: bool
  ob_confirmed :: bool
  ob_error :: "string option"

definition no_observation :: observation where
  "no_observation = \<lparr>ob_job = None, ob_missing = False, ob_confirmed = False, ob_error = None\<rparr>"

definition with_error :: "py_error \<Rightarrow> observation \<Rightarrow> observation" where
  "with_error e o' = o'\<lparr>ob_error := Some (take 4000 (error_text e))\<rparr>"

definition observe_missing ::
  "world \<Rightarrow> orchestrator_settings \<Rightarrow> 'k job_client \<Rightarrow> snapshot \<Rightarrow> 'k \<Rightarrow> observation \<times> 'k" where
  "observe_missing w st c s k =
     (let missing = no_observation\<lparr>ob_missing := True\<rparr>
      in case client_pods_for_job c (sn_name s) k of
           (Inl e, k1) \<Rightarrow> (with_error e missing, k1)
         | (Inr pods, k1) \<Rightarrow>
             if truthy pods
             then (with_error (RuntimeError ''Missing Job still has Pods; recreation deferred'') missing, k1)
             else if sn_attempts s \<ge> st_maximum_dispatch_attempts st
             then (with_error (ValueError ''Stage Job disappeared after bounded retries'') missing, k1)
             else (case sn_reserved s of
                     None \<Rightarrow> (missing, k1)
                   | Some job \<Rightarrow>
                       (case create_job w c job k1 of
                          (Inl e, k2) \<Rightarrow> (with_error e missing, k2)
                        | (Inr _, k2) \<Rightarrow> (missing, k2))))"

definition observe_snapshot ::
  "world \<Rightarrow> orchestrator_settings \<Rightarrow> 'k job_client \<Rightarrow> snapshot \<Rightarrow> 'k \<Rightarrow> observation \<times> 'k" where
  "observe_snapshot w st c s k =
     (if sn_cleanup s then
        (case observe_cleanup c True (sn_names s) k of
           (Inl e, k1) \<Rightarrow> (with_error e no_observation, k1)
         | (Inr confirmed, k1) \<Rightarrow> (no_observation\<lparr>ob_confirmed := confirmed\<rparr>, k1))
      else
        (case client_get c (sn_name s) k of
           (Inr job, k1) \<Rightarrow> (no_observation\<lparr>ob_job := Some job\<rparr>, k1)
         | (Inl e, k1) \<Rightarrow>
             if (case e of KubernetesApiError code _ \<Rightarrow> code \<noteq> 404 | _ \<Rightarrow> True)
             then (with_error e no_observation, k1)
             else observe_missing w st c s k1))"

subsection \<open>Settling an observation\<close>

definition released_lease :: "stage_run \<Rightarrow> stage_run" where
  "released_lease r =
     r\<lparr>sr_provenance := fmdrop ''reconcile_lease_until'' (fmdrop ''reconcile_token'' (sr_provenance r))\<rparr>"

definition settle_missing :: "orchestrator_settings \<Rightarrow> observation \<Rightarrow> instant \<Rightarrow> stage_run \<Rightarrow> stage_run" where
  "settle_missing st ob now r =
     (let r1 = r\<lparr>sr_dispatch_attempts := sr_dispatch_attempts r + 1, sr_dispatch_error := ob_error ob\<rparr>
      in if sr_dispatch_attempts r1 > st_maximum_dispatch_attempts st
            \<or> (ob_error ob \<noteq> None \<and> ob_error ob \<noteq> Some [] \<and> sr_dispatch_attempts r1 \<ge> st_maximum_dispatch_attempts st)
         then refused_run ''Stage Job disappeared after bounded retries'' now r1
         else r1)"

definition settle_cleanup :: "observation \<Rightarrow> instant \<Rightarrow> mission \<Rightarrow> stage_run \<Rightarrow> stage_run" where
  "settle_cleanup ob now m r =
     (let r1 = (if ob_confirmed ob
                then r\<lparr>sr_provenance := fmupd JOB_CLEANUP_CONFIRMED_AT_KEY (PStr (isoformat now)) (sr_provenance r)\<rparr>
                else r)
      in if queued_or_running (sr_status r1) \<or> m_status m = MissionCancelled
         then r1\<lparr>sr_status := Cancelled,
                 sr_completed_at := (case sr_completed_at r1 of None \<Rightarrow> Some now | t \<Rightarrow> t)\<rparr>
         else r1)"

definition settled_run ::
  "world \<Rightarrow> orchestrator_settings \<Rightarrow> snapshot \<Rightarrow> observation \<Rightarrow> instant \<Rightarrow> mission \<Rightarrow> stage_run \<Rightarrow> db \<Rightarrow> (stage_run \<times> db) res" where
  "settled_run w st s ob now m r d =
     (if ob_missing ob then let r1 = settle_missing st ob now r in Inr (r1, put_run r1 d)
      else if ob_error ob \<noteq> None then let r1 = r\<lparr>sr_dispatch_error := ob_error ob\<rparr> in Inr (r1, put_run r1 d)
      else if sn_cleanup s then let r1 = settle_cleanup ob now m r in Inr (r1, put_run r1 d)
      else (case ob_job ob of
              Some job \<Rightarrow> apply_job_status w now r job d
            | None \<Rightarrow> Inr (r, put_run r d)))"

definition settle_row ::
  "world \<Rightarrow> orchestrator_settings \<Rightarrow> string \<Rightarrow> snapshot \<Rightarrow> observation \<Rightarrow> instant \<Rightarrow> stage_run \<times> mission \<Rightarrow> db \<Rightarrow> (unit \<times> db) res" where
  "settle_row w st token s ob now row d =
     (let (r, m) = row
      in if dget (sr_provenance r) ''reconcile_token'' \<noteq> PStr token then Inr ((), d)
         else
           let r1 = released_lease r
           in if (sr_status r1, m_status m, sr_job_name r1) \<noteq> (sn_run_status s, sn_mission_status s, Some (sn_name s))
              then Inr ((), put_run r1 d)
              else
                let r2 = r1\<lparr>sr_heartbeat_at := Some now\<rparr>
                in rbind (settled_run w st s ob now m r2 (put_run r2 d)) (\<lambda>(r3, d3).
                   rbind (sync_analysis_stage w now r3 d3) (\<lambda>(_, d4). Inr ((), d4))))"

definition settle_observation ::
  "world \<Rightarrow> orchestrator_settings \<Rightarrow> string \<Rightarrow> snapshot \<Rightarrow> observation \<Rightarrow> instant \<Rightarrow> db \<Rightarrow> unit res \<times> db" where
  "settle_observation w st token s ob now =
     in_session None None (\<lambda>d.
       rbind (one_or_none (runs_with_missions (\<lambda>r m. sr_run_id r = sn_run_id s) d)) (\<lambda>row.
         case row of
           None \<Rightarrow> Inr ((), d)
         | Some row \<Rightarrow> settle_row w st token s ob now row d))"

fun reconcile_snapshots ::
  "world \<Rightarrow> orchestrator_settings \<Rightarrow> 'k job_client \<Rightarrow> (nat \<Rightarrow> instant) \<Rightarrow> string \<Rightarrow> snapshot list \<Rightarrow> db \<times> 'k
   \<Rightarrow> unit res \<times> db \<times> 'k" where
  "reconcile_snapshots w st c clock token [] (d, k) = (Inr (), d, k)"
| "reconcile_snapshots w st c clock token (s # ss) (d, k) =
     (case observe_snapshot w st c s k of
        (ob, k1) \<Rightarrow>
          (case settle_observation w st token s ob (clock 0) d of
             (Inl e, d1) \<Rightarrow> (Inl e, d1, k1)
           | (Inr _, d1) \<Rightarrow> reconcile_snapshots w st c (\<lambda>n. clock (n + 1)) token ss (d1, k1)))"

text \<open>The token of a pass is the hexadecimal text of a fresh random UUID.\<close>

definition draw_token :: "world \<Rightarrow> db \<Rightarrow> string \<times> db" where
  "draw_token w d = (case draw_uuid w d of (u, d1) \<Rightarrow> (filter (\<lambda>ch. ch \<noteq> CHR ''-'') u, d1))"

definition reconcile_stage_jobs ::
  "world \<Rightarrow> orchestrator_settings \<Rightarrow> 'k job_client \<Rightarrow> (nat \<Rightarrow> instant) \<Rightarrow> (string \<Rightarrow> bool) \<Rightarrow> db \<times> 'k
   \<Rightarrow> unit res \<times> db \<times> 'k" where
  "reconcile_stage_jobs w st c clock free state =
     (let (d0, k) = state; (token, d) = draw_token w d0
      in case begin_reconciliation w st (clock 0) free token d of
           (Inl e, d1) \<Rightarrow> (Inl e, d1, k)
         | (Inr snapshots, d1) \<Rightarrow> reconcile_snapshots w st c (\<lambda>n. clock (n + 1)) token snapshots (d1, k))"

subsection \<open>One tick of the control loop\<close>

text \<open>Runs and resource units per status and class, and the age of the oldest queued run.\<close>

definition queue_units :: "world \<Rightarrow> orchestrator_settings \<Rightarrow> stage_run \<Rightarrow> int res" where
  "queue_units w st r =
     (if sr_status r = Running then active_resource_units w r else requested_resource_units w st r)"

fun queue_counts ::
  "world \<Rightarrow> orchestrator_settings \<Rightarrow> stage_run list \<Rightarrow> (string \<times> string, int \<times> int) fmap
   \<Rightarrow> (string \<times> string, int \<times> int) fmap res" where
  "queue_counts w st [] counts = Inr counts"
| "queue_counts w st (r # rs) counts =
     rbind (queue_units w st r) (\<lambda>units.
       let key = (run_status_name (sr_status r), class_name (sr_resource_class r));
           (runs, total_units) = (case fmlookup counts key of None \<Rightarrow> (0, 0) | Some v \<Rightarrow> v)
       in queue_counts w st rs (fmupd key (runs + 1, total_units + units) counts))"

definition oldest_queued_age :: "instant \<Rightarrow> stage_run list \<Rightarrow> instant" where
  "oldest_queued_age now rs =
     fold (\<lambda>r age. if sr_status r = Queued then max age (now - sr_created_at r) else age) rs 0"

record queue_observation =
  qo_counts :: "(string \<times> string, int \<times> int) fmap"
  qo_oldest_queued_age :: instant

definition observe_queue :: "world \<Rightarrow> orchestrator_settings \<Rightarrow> instant \<Rightarrow> db \<Rightarrow> queue_observation res" where
  "observe_queue w st now d =
     (let rs = filter (\<lambda>r. queued_or_running (sr_status r)) (db_runs d)
      in rbind (queue_counts w st rs fmempty) (\<lambda>counts.
           Inr \<lparr>qo_counts = counts, qo_oldest_queued_age = oldest_queued_age now rs\<rparr>))"

definition reservation_session ::
  "world \<Rightarrow> bool \<Rightarrow> (string \<Rightarrow> bool) \<Rightarrow> orchestrator_settings \<Rightarrow> instant \<Rightarrow> db
   \<Rightarrow> (reserved_job list \<times> queue_observation) res \<times> db" where
  "reservation_session w acquired free st now =
     in_session None None (\<lambda>d.
       rbind (reserve_ready_jobs w acquired free st now d) (\<lambda>(jobs, d1).
       rbind (observe_queue w st now d1) (\<lambda>queue. Inr ((jobs, queue), d1))))"

definition orchestrator_tick ::
  "world \<Rightarrow> bool \<Rightarrow> (string \<Rightarrow> bool) \<Rightarrow> orchestrator_settings \<Rightarrow> 'k job_client \<Rightarrow> (nat \<Rightarrow> instant) \<Rightarrow> instant \<Rightarrow> (nat \<Rightarrow> instant)
   \<Rightarrow> db \<times> 'k \<Rightarrow> queue_observation res \<times> db \<times> 'k" where
  "orchestrator_tick w acquired free st c reconcile_clock now dispatch_clock state =
     (case reconcile_stage_jobs w st c reconcile_clock free state of
        (Inl e, d1, k1) \<Rightarrow> (Inl e, d1, k1)
      | (Inr _, d1, k1) \<Rightarrow>
          (case reservation_session w acquired free st now d1 of
             (Inl e, d2) \<Rightarrow> (Inl e, d2, k1)
           | (Inr (jobs, queue), d2) \<Rightarrow>
               (case dispatch_reserved_jobs w dispatch_clock c jobs (st_maximum_dispatch_attempts st) (d2, k1) of
                  (Inl e, d3, k3) \<Rightarrow> (Inl e, d3, k3)
                | (Inr _, d3, k3) \<Rightarrow> (Inr queue, d3, k3))))"

end
