(* ===== verification/SchedulerCorrect.thy ===== *)
theory SchedulerCorrect
  imports StageScheduler
begin

text \<open>
  Correctness of the scheduling policy. \<open>dag\<close> is the interface the scheduler relies on
  from the stage contract: dependencies point to earlier stages. The counters are
  shown to agree with the allocations they summarise (\<open>sched_inv\<close>), from which the
  envelopes, the conservation of runs and the absence of needless waiting follow.
\<close>

subsection \<open>A dependency graph ordered by rank\<close>

locale dag =
  fixes deps :: "'s \<Rightarrow> 's list" and rank :: "'s \<Rightarrow> nat"
  assumes deps_earlier: "d \<in> set (deps s) \<Longrightarrow> rank d < rank s"
begin

definition dep_rel :: "('s \<times> 's) set" where
  "dep_rel = {(d, s). d \<in> set (deps s)}"

lemma dep_rel_rank: "(d, s) \<in> dep_rel\<^sup>+ \<Longrightarrow> rank d < rank s"
  by (induction rule: trancl_induct) (auto simp: dep_rel_def dest: deps_earlier)

lemma dep_rel_irrefl: "(s, s) \<notin> dep_rel\<^sup>+"
  using dep_rel_rank by fastforce

lemma dep_rel_asym: "(a, b) \<in> dep_rel\<^sup>+ \<Longrightarrow> (b, a) \<notin> dep_rel\<^sup>+"
  by (meson dep_rel_irrefl trancl_trans)

definition closed_under_deps :: "'s set \<Rightarrow> bool" where
  "closed_under_deps A \<longleftrightarrow> (\<forall>s \<in> A. set (deps s) \<subseteq> A)"

lemma closed_contains_ancestors:
  assumes "closed_under_deps A" and "set (deps s) \<subseteq> A" and "(d, s) \<in> dep_rel\<^sup>+"
  shows "d \<in> A"
  using assms(3)
proof (induction rule: converse_trancl_induct)
  case (base y)
  then show ?case using assms(2) by (auto simp: dep_rel_def)
next
  case (step y z)
  then show ?case using assms(1) by (auto simp: dep_rel_def closed_under_deps_def)
qed

end

interpretation stages: dag stage_dependencies stage_rank
  by unfold_locales (rule dependency_earlier)

text \<open>The loop over pending stages computes the ancestors of the DAG.\<close>

lemma ancestors_loop_sound:
  "(\<And>d. d \<in> set result \<union> set pending \<Longrightarrow> (d, s) \<in> stages.dep_rel\<^sup>+) \<Longrightarrow>
   d \<in> set (ancestors_loop result pending) \<Longrightarrow> (d, s) \<in> stages.dep_rel\<^sup>+"
proof (induction result pending rule: ancestors_loop.induct)
  case (1 result)
  then show ?case by simp
next
  case (2 result e pending)
  have step: "(f, s) \<in> stages.dep_rel\<^sup>+" if "f \<in> set (stage_dependencies e)" for f
  proof -
    from that have "(f, e) \<in> stages.dep_rel" by (simp add: stages.dep_rel_def)
    moreover have "(e, s) \<in> stages.dep_rel\<^sup>+" using 2 by simp
    ultimately show ?thesis by (rule trancl_into_trancl2)
  qed
  show ?case
  proof (cases "e \<in> set result")
    case True
    with "2.IH"(1) "2.prems" show ?thesis by simp
  next
    case False
    show ?thesis
      by (rule "2.IH"(2) [OF False]) (use "2.prems" False step in auto)
  qed
qed

lemma ancestors_loop_complete:
  "(\<And>e. e \<in> set result \<Longrightarrow> set (stage_dependencies e) \<subseteq> set result \<union> set pending) \<Longrightarrow>
   set result \<union> set pending \<subseteq> set (ancestors_loop result pending) \<and>
   stages.closed_under_deps (set (ancestors_loop result pending))"
proof (induction result pending rule: ancestors_loop.induct)
  case (1 result)
  then show ?case by (auto simp: stages.closed_under_deps_def)
next
  case (2 result e pending)
  show ?case
  proof (cases "e \<in> set result")
    case True
    have "set result \<union> set pending \<subseteq> set (ancestors_loop result pending) \<and>
      stages.closed_under_deps (set (ancestors_loop result pending))"
      by (rule "2.IH"(1) [OF True]) (use "2.prems" True in auto)
    with True show ?thesis by auto
  next
    case False
    have "set (e # result) \<union> set (rev (stage_dependencies e) @ pending)
        \<subseteq> set (ancestors_loop (e # result) (rev (stage_dependencies e) @ pending)) \<and>
      stages.closed_under_deps (set (ancestors_loop (e # result) (rev (stage_dependencies e) @ pending)))"
      by (rule "2.IH"(2) [OF False]) (use "2.prems" False in auto)
    with False show ?thesis by auto
  qed
qed

lemma ancestors_eq: "d \<in> set (ancestors s) \<longleftrightarrow> (d, s) \<in> stages.dep_rel\<^sup>+"
proof
  assume "d \<in> set (ancestors s)"
  then show "(d, s) \<in> stages.dep_rel\<^sup>+"
    unfolding ancestors_def
    by (rule ancestors_loop_sound [rotated]) (auto simp: stages.dep_rel_def)
next
  assume "(d, s) \<in> stages.dep_rel\<^sup>+"
  moreover have "set (stage_dependencies s) \<subseteq> set (ancestors s) \<and> stages.closed_under_deps (set (ancestors s))"
    using ancestors_loop_complete [of "[]" "rev (stage_dependencies s)"]
    by (simp add: ancestors_def)
  ultimately show "d \<in> set (ancestors s)"
    using stages.closed_contains_ancestors by blast
qed

lemma independent_sym: "stages_are_independent a b \<longleftrightarrow> stages_are_independent b a"
  by (auto simp: stages_are_independent_def)

lemma independent_irrefl: "\<not> stages_are_independent a a"
  by (simp add: stages_are_independent_def)

lemma independent_table:
  "stages_are_independent a b \<longleftrightarrow>
   (a = GaussianViewer \<and> b \<in> {Rasterization, Detection})
   \<or> (b = GaussianViewer \<and> a \<in> {Rasterization, Detection})"
  by (cases a; cases b) (simp_all add: stages_are_independent_def ancestors_def)

subsection \<open>Counters agree with the allocations\<close>

lemma units_total_simps [simp]:
  "units_total [] = 0" "units_total (a # as) = al_resource_units a + units_total as"
  "units_total (as @ bs) = units_total as + units_total bs"
  by (simp_all add: units_total_def)

lemma owner_total_append [simp]: "owner_total o' (as @ bs) = owner_total o' as + owner_total o' bs"
  by (simp add: owner_total_def)

lemma owner_total_single [simp]: "owner_total o' [a] = (if al_owner_subject a = o' then 1 else 0)"
  by (simp add: owner_total_def)

lemma class_units_append [simp]: "class_units c (as @ bs) = class_units c as + class_units c bs"
  by (simp add: class_units_def)

lemma class_units_single [simp]:
  "class_units c [a] = (if al_resource_class a = c then al_resource_units a else 0)"
  by (simp add: class_units_def)

lemma of_mission_append [simp]: "of_mission m (as @ bs) = of_mission m as @ of_mission m bs"
  by (simp add: of_mission_def)

lemma of_mission_single [simp]: "of_mission m [a] = (if al_mission_id a = m then [a] else [])"
  by (simp add: of_mission_def)

lemma truncate_simps [simp]:
  "al_run_id (stage_allocation.truncate c) = al_run_id c"
  "al_mission_id (stage_allocation.truncate c) = al_mission_id c"
  "al_owner_subject (stage_allocation.truncate c) = al_owner_subject c"
  "al_stage (stage_allocation.truncate c) = al_stage c"
  "al_resource_class (stage_allocation.truncate c) = al_resource_class c"
  "al_resource_units (stage_allocation.truncate c) = al_resource_units c"
  by (simp_all add: stage_allocation.truncate_def)

definition allocations :: "stage_allocation list \<Rightarrow> sched_state \<Rightarrow> stage_allocation list" where
  "allocations active s = active @ map stage_allocation.truncate (ss_selected s)"

definition sched_inv :: "stage_allocation list \<Rightarrow> sched_state \<Rightarrow> bool" where
  "sched_inv active s \<longleftrightarrow>
     (let as = allocations active s
      in ss_owner_counts s = (\<lambda>owner. owner_total owner as)
         \<and> ss_mission_allocations s = (\<lambda>m. of_mission m as)
         \<and> ss_resource_counts s = (\<lambda>c. class_units c as)
         \<and> ss_allocated_units s = units_total as)
     \<and> (\<forall>owner. \<forall>c \<in> set (ss_owner_queues s owner). al_owner_subject c = owner)"

text \<open>The reference: could this run start next to these allocations?\<close>

definition room_for :: "scheduling_limits \<Rightarrow> stage_allocation list \<Rightarrow> resource_class \<Rightarrow> int" where
  "room_for l as cls =
     (case resource_active l cls of
        None \<Rightarrow> global_active l - units_total as
      | Some r \<Rightarrow> min (global_active l - units_total as) (r - class_units cls as))"

definition can_start :: "scheduling_limits \<Rightarrow> stage_allocation list \<Rightarrow> 'a stage_allocation_scheme \<Rightarrow> bool" where
  "can_start l as c \<longleftrightarrow>
     owner_total (al_owner_subject c) as < owner_limit l (al_owner_subject c)
     \<and> int (length (of_mission (al_mission_id c) as)) < per_mission_active l
     \<and> (\<forall>a \<in> set (of_mission (al_mission_id c) as). stages_are_independent (al_stage c) (al_stage a))
     \<and> room_for l as (al_resource_class c) > 0"

lemma admit_eq:
  assumes "sched_inv active s" and "al_owner_subject c = owner"
  shows "admit l s owner c =
    (if can_start l (allocations active s) c
     then Some (c\<lparr>al_resource_units :=
                   min (al_resource_units c) (room_for l (allocations active s) (al_resource_class c))\<rparr>)
     else None)"
proof -
  have "available_units l s cls = room_for l (allocations active s) cls" for cls
    using assms(1) by (simp add: sched_inv_def available_units_def room_for_def Let_def split: option.split)
  with assms show ?thesis
    by (simp add: admit_def can_start_def sched_inv_def Let_def list_all_iff)
qed

lemma commit_fields [simp]:
  "ss_owner_queues (commit_candidate c s) = ss_owner_queues s"
  "ss_owner_order (commit_candidate c s) = ss_owner_order s"
  "ss_selected (commit_candidate c s) = ss_selected s @ [c]"
  by (simp_all add: commit_candidate_def)

lemma allocations_commit:
  "allocations active (commit_candidate c s) = allocations active s @ [stage_allocation.truncate c]"
  by (simp add: allocations_def commit_candidate_def)

lemma sched_inv_commit:
  "sched_inv active s \<Longrightarrow> sched_inv active (commit_candidate c s)"
  unfolding sched_inv_def Let_def allocations_commit
  by (auto simp: commit_candidate_def fun_eq_iff)

lemma requeue_fields [simp]:
  "ss_selected (requeue_owner owner q rest s) = ss_selected s"
  "ss_owner_counts (requeue_owner owner q rest s) = ss_owner_counts s"
  "ss_mission_allocations (requeue_owner owner q rest s) = ss_mission_allocations s"
  "ss_resource_counts (requeue_owner owner q rest s) = ss_resource_counts s"
  "ss_allocated_units (requeue_owner owner q rest s) = ss_allocated_units s"
  "ss_owner_queues (requeue_owner owner q rest s) = (ss_owner_queues s)(owner := q)"
  "allocations active (requeue_owner owner q rest s) = allocations active s"
  by (simp_all add: requeue_owner_def allocations_def)

lemma sched_inv_requeue:
  "sched_inv active s \<Longrightarrow> set q \<subseteq> set (ss_owner_queues s owner) \<Longrightarrow>
   sched_inv active (requeue_owner owner q rest s)"
  by (auto simp: sched_inv_def Let_def)

text \<open>
  What one turn does: nothing but rotating the order when every waiting run of the
  owner is refused, or starting exactly one admissible run of the owner.
\<close>

lemma owner_turn_cases:
  assumes "sched_inv active s" and "owner_turn l s = (p, s')"
  obtains (Empty) "ss_owner_order s = []" "\<not> p" "s' = s"
    | (Drop) owner rest where "ss_owner_order s = owner # rest" "ss_owner_queues s owner = []"
        "\<not> p" "s' = s\<lparr>ss_owner_order := rest\<rparr>"
    | (Refuse) owner rest where "ss_owner_order s = owner # rest"
        "\<forall>c \<in> set (ss_owner_queues s owner). \<not> can_start l (allocations active s) c"
        "\<not> p" "s' = requeue_owner owner (ss_owner_queues s owner) rest s" "ss_owner_queues s owner \<noteq> []"
    | (Start) owner rest c c' q where "ss_owner_order s = owner # rest"
        "c \<in> set (ss_owner_queues s owner)" "can_start l (allocations active s) c"
        "c' = c\<lparr>al_resource_units :=
           min (al_resource_units c) (room_for l (allocations active s) (al_resource_class c))\<rparr>"
        "mset (c # q) = mset (ss_owner_queues s owner)"
        "p" "s' = requeue_owner owner q rest (commit_candidate c' s)"
proof (cases "ss_owner_order s")
  case Nil
  show ?thesis by (rule Empty) (use assms(2) Nil in \<open>simp_all add: owner_turn_def\<close>)
next
  case (Cons owner rest)
  let ?Q = "ss_owner_queues s owner"
  have own: "al_owner_subject c = owner" if "c \<in> set ?Q" for c
    using assms(1) that by (auto simp: sched_inv_def)
  note adm = admit_eq [OF assms(1) own]
  show ?thesis
  proof (cases "?Q = []")
    case True
    show ?thesis by (rule Drop [OF Cons True]) (use assms(2) Cons True in \<open>simp_all add: owner_turn_def\<close>)
  next
    case ne: False
    obtain r q where sc: "scan_queue l s owner (length ?Q) ?Q = (r, q)" by fastforce
    show ?thesis
    proof (cases r)
      case None
      with scan_queue_None [of l s owner "length ?Q" ?Q q] sc
      have q: "q = ?Q" and ref: "\<forall>c \<in> set ?Q. \<not> can_start l (allocations active s) c"
        by (auto simp: adm split: if_splits)
      show ?thesis
        by (rule Refuse [OF Cons ref _ _ ne])
           (use assms(2) Cons ne sc None q in \<open>simp_all add: owner_turn_def\<close>)
    next
      case (Some c')
      with scan_queue_Some [of l s owner "length ?Q" ?Q c' q] sc
      obtain c where c: "c \<in> set ?Q" "admit l s owner c = Some c'" "q \<noteq> []" "hd q = c" "mset q = mset ?Q"
        by auto
      then have ms: "mset (c # tl q) = mset ?Q" by (metis list.collapse)
      from assms(2) Cons ne sc Some
      have "p" and s': "s' = requeue_owner owner (tl q) rest (commit_candidate c' s)"
        by (simp_all add: owner_turn_def)
      have ok: "can_start l (allocations active s) c"
        and c': "c' = c\<lparr>al_resource_units :=
           min (al_resource_units c) (room_for l (allocations active s) (al_resource_class c))\<rparr>"
        using c(2) by (auto simp: adm [OF c(1)] split: if_splits)
      show ?thesis by (rule Start [OF Cons c(1) ok c' ms \<open>p\<close> s'])
    qed
  qed
qed


subsection \<open>Every start is legal next to the starts before it\<close>

definition legal_starts :: "scheduling_limits \<Rightarrow> stage_allocation list \<Rightarrow> stage_candidate list \<Rightarrow> bool" where
  "legal_starts l active sel \<longleftrightarrow>
     (\<forall>k < length sel.
        can_start l (active @ map stage_allocation.truncate (take k sel)) (sel ! k)
        \<and> al_resource_units (sel ! k)
            \<le> room_for l (active @ map stage_allocation.truncate (take k sel)) (al_resource_class (sel ! k)))"

lemma legal_starts_Nil [simp]: "legal_starts l active []"
  by (simp add: legal_starts_def)

lemma legal_starts_snoc [simp]:
  "legal_starts l active (sel @ [c]) \<longleftrightarrow>
     legal_starts l active sel
     \<and> can_start l (active @ map stage_allocation.truncate sel) c
     \<and> al_resource_units c \<le> room_for l (active @ map stage_allocation.truncate sel) (al_resource_class c)"
  by (auto simp: legal_starts_def nth_append less_Suc_eq)

lemma can_start_units [simp]: "can_start l as (c\<lparr>al_resource_units := u\<rparr>) = can_start l as c"
  by (simp add: can_start_def)

lemma room_for_le_global: "room_for l as cls \<le> global_active l - units_total as"
  by (auto simp: room_for_def split: option.split)

lemma room_for_le_class: "resource_active l cls = Some r \<Longrightarrow> room_for l as cls \<le> r - class_units cls as"
  by (simp add: room_for_def)

lemma legal_global:
  "legal_starts l active sel \<Longrightarrow> sel \<noteq> [] \<Longrightarrow>
   units_total (active @ map stage_allocation.truncate sel) \<le> global_active l"
proof (induction sel rule: rev_induct)
  case (snoc c sel)
  then show ?case
    using room_for_le_global [of l "active @ map stage_allocation.truncate sel" "al_resource_class c"]
    by simp
qed simp

lemma legal_owner:
  "legal_starts l active sel \<Longrightarrow>
   owner_total owner (active @ map stage_allocation.truncate sel)
     \<le> max (owner_limit l owner) (owner_total owner active)"
  by (induction sel rule: rev_induct) (auto simp: can_start_def)

lemma legal_mission:
  "legal_starts l active sel \<Longrightarrow>
   int (length (of_mission m (active @ map stage_allocation.truncate sel)))
     \<le> max (per_mission_active l) (int (length (of_mission m active)))"
  by (induction sel rule: rev_induct) (auto simp: can_start_def)

lemma legal_class:
  "legal_starts l active sel \<Longrightarrow> resource_active l cls = Some r \<Longrightarrow>
   class_units cls (active @ map stage_allocation.truncate sel) \<le> max r (class_units cls active)"
proof (induction sel rule: rev_induct)
  case (snoc c sel)
  then show ?case
    using room_for_le_class [of l cls r "active @ map stage_allocation.truncate sel"]
    by (auto simp: max_def split: if_splits)
qed simp

lemma legal_independent:
  "legal_starts l active sel \<Longrightarrow> i < j \<Longrightarrow> j < length sel \<Longrightarrow> al_mission_id (sel ! i) = al_mission_id (sel ! j) \<Longrightarrow>
   stages_are_independent (al_stage (sel ! j)) (al_stage (sel ! i))"
proof -
  assume legal: "legal_starts l active sel" and ij: "i < j" "j < length sel"
    and m: "al_mission_id (sel ! i) = al_mission_id (sel ! j)"
  let ?as = "active @ map stage_allocation.truncate (take j sel)"
  have mem: "sel ! i \<in> set (take j sel)"
    using ij by (auto simp: in_set_conv_nth intro!: exI [of _ i])
  have "stage_allocation.truncate (sel ! i) \<in> set (of_mission (al_mission_id (sel ! j)) ?as)"
    using mem m by (auto simp: of_mission_def)
  moreover have "can_start l ?as (sel ! j)" using legal ij by (simp add: legal_starts_def)
  ultimately show ?thesis unfolding can_start_def by (metis truncate_simps(4))
qed

lemma legal_independent_active:
  "legal_starts l active sel \<Longrightarrow> c \<in> set sel \<Longrightarrow> a \<in> set active \<Longrightarrow> al_mission_id a = al_mission_id c \<Longrightarrow>
   stages_are_independent (al_stage c) (al_stage a)"
  by (auto simp: legal_starts_def in_set_conv_nth can_start_def of_mission_def)

subsection \<open>No run is lost, invented or started twice\<close>

definition run_ids :: "'a stage_allocation_scheme list \<Rightarrow> string multiset" where
  "run_ids as = mset (map al_run_id as)"

lemma run_ids_simps [simp]:
  "run_ids [] = {#}" "run_ids (a # as) = add_mset (al_run_id a) (run_ids as)"
  "run_ids (as @ bs) = run_ids as + run_ids bs"
  by (simp_all add: run_ids_def)

lemma run_ids_mset: "mset as = mset bs \<Longrightarrow> run_ids as = run_ids bs"
  by (simp add: run_ids_def)

definition conserve_inv :: "string set \<Rightarrow> stage_candidate list \<Rightarrow> sched_state \<Rightarrow> bool" where
  "conserve_inv owners candidates s \<longleftrightarrow>
     set (ss_owner_order s) \<subseteq> owners
     \<and> (\<forall>owner. ss_owner_queues s owner \<noteq> [] \<longrightarrow> owner \<in> set (ss_owner_order s))
     \<and> run_ids (ss_selected s) + (\<Sum>owner \<in> owners. run_ids (ss_owner_queues s owner)) = run_ids candidates
     \<and> (\<forall>owner. set (ss_owner_queues s owner) \<subseteq> set candidates)
     \<and> (\<forall>c' \<in> set (ss_selected s). \<exists>c \<in> set candidates.
          c' = c\<lparr>al_resource_units := al_resource_units c'\<rparr> \<and> al_resource_units c' \<le> al_resource_units c)
     \<and> (\<forall>c \<in> set candidates. c \<in> set (ss_owner_queues s (al_owner_subject c))
          \<or> (\<exists>u. c\<lparr>al_resource_units := u\<rparr> \<in> set (ss_selected s)))"

lemma sum_fun_upd_mset:
  fixes f :: "'a \<Rightarrow> 'b list" and g :: "'b list \<Rightarrow> 'c multiset"
  assumes "finite A" and "x \<in> A" and "g (f x) = g v + d"
  shows "(\<Sum>y \<in> A. g ((f(x := v)) y)) + d = (\<Sum>y \<in> A. g (f y))"
proof -
  have "(\<Sum>y \<in> A - {x}. g ((f(x := v)) y)) = (\<Sum>y \<in> A - {x}. g (f y))"
    by (rule sum.cong) auto
  with assms show ?thesis
    by (simp add: sum.remove [OF assms(1,2)] ac_simps)
qed

text \<open>One turn keeps the whole picture.\<close>

definition run_inv ::
  "string set \<Rightarrow> scheduling_limits \<Rightarrow> stage_candidate list \<Rightarrow> stage_allocation list \<Rightarrow> sched_state \<Rightarrow> bool" where
  "run_inv owners l candidates active s \<longleftrightarrow>
     sched_inv active s \<and> legal_starts l active (ss_selected s) \<and> conserve_inv owners candidates s"

lemma conserve_commit:
  assumes inv: "conserve_inv owners candidates s" and fin: "finite owners"
    and order: "ss_owner_order s = owner # rest"
    and c: "c \<in> set (ss_owner_queues s owner)" "al_owner_subject c = owner"
    and c': "c' = c\<lparr>al_resource_units := min (al_resource_units c) room\<rparr>"
    and ms: "mset (c # q) = mset (ss_owner_queues s owner)"
  shows "conserve_inv owners candidates (requeue_owner owner q rest (commit_candidate c' s))"
proof -
  let ?s' = "requeue_owner owner q rest (commit_candidate c' s)"
  have fields: "ss_selected ?s' = ss_selected s @ [c']"
    "ss_owner_queues ?s' = (ss_owner_queues s)(owner := q)"
    "ss_owner_order ?s' = (if q = [] then rest else rest @ [owner])"
    by (simp_all add: requeue_owner_def)
  from order inv have own: "owner \<in> owners" by (auto simp: conserve_inv_def)
  from ms have sets: "insert c (set q) = set (ss_owner_queues s owner)"
    by (metis list.simps(15) set_mset_mset)
  have "run_ids (ss_owner_queues s owner) = run_ids q + {#al_run_id c#}"
    using run_ids_mset [OF ms] by simp
  from sum_fun_upd_mset [of owners owner run_ids "ss_owner_queues s" q, OF fin own this]
  have ids: "(\<Sum>y \<in> owners. run_ids (((ss_owner_queues s)(owner := q)) y)) + {#al_run_id c#}
      = (\<Sum>y \<in> owners. run_ids (ss_owner_queues s y))" .
  have cand: "c \<in> set candidates" using c(1) inv by (auto simp: conserve_inv_def)
  have rest: "set rest \<subseteq> owners" using inv order by (auto simp: conserve_inv_def)
  have nonempty: "o' \<in> set (ss_owner_order ?s')" if "ss_owner_queues ?s' o' \<noteq> []" for o'
    using that inv order by (cases "o' = owner") (auto simp: fields conserve_inv_def)
  have eq: "run_ids (ss_selected ?s') + (\<Sum>o' \<in> owners. run_ids (ss_owner_queues ?s' o')) = run_ids candidates"
  proof -
    have "run_ids (ss_selected ?s') + (\<Sum>o' \<in> owners. run_ids (ss_owner_queues ?s' o'))
        = run_ids (ss_selected s) + (\<Sum>o' \<in> owners. run_ids (ss_owner_queues s o'))"
      unfolding fields(1,2) ids [symmetric] by (simp add: c')
    also have "\<dots> = run_ids candidates" using inv unfolding conserve_inv_def by blast
    finally show ?thesis .
  qed
  have origin: "\<exists>d \<in> set candidates. e = d\<lparr>al_resource_units := al_resource_units e\<rparr>
      \<and> al_resource_units e \<le> al_resource_units d" if "e \<in> set (ss_selected ?s')" for e
    using that inv cand by (auto simp: fields c' conserve_inv_def)
  have kept: "d \<in> set (ss_owner_queues ?s' (al_owner_subject d)) \<or> (\<exists>u. d\<lparr>al_resource_units := u\<rparr> \<in> set (ss_selected ?s'))"
    if "d \<in> set candidates" for d
  proof (cases "d = c")
    case True
    then show ?thesis by (auto simp: fields c')
  next
    case False
    then show ?thesis using that inv sets by (auto simp: fields conserve_inv_def)
  qed
  have sub: "set (ss_owner_queues ?s' o') \<subseteq> set candidates" for o'
  proof (cases "o' = owner")
    case True
    have "set (ss_owner_queues s owner) \<subseteq> set candidates" using inv by (simp add: conserve_inv_def)
    with sets have "set q \<subseteq> set candidates" by blast
    with True show ?thesis by (simp add: fields)
  next
    case False
    then show ?thesis using inv by (simp add: fields conserve_inv_def)
  qed
  show ?thesis
    unfolding conserve_inv_def
    using nonempty eq origin kept sub rest own by (simp add: fields(3))
qed

lemma run_inv_turn:
  assumes inv: "run_inv owners l candidates active s" and fin: "finite owners"
    and turn: "owner_turn l s = (p, s')"
  shows "run_inv owners l candidates active s'"
proof -
  from inv have si: "sched_inv active s" and legal: "legal_starts l active (ss_selected s)"
    and cons: "conserve_inv owners candidates s" by (simp_all add: run_inv_def)
  from si turn show ?thesis
  proof (cases rule: owner_turn_cases)
    case Empty
    with inv show ?thesis by simp
  next
    case (Drop owner rest)
    with inv show ?thesis
      by (auto simp: run_inv_def sched_inv_def conserve_inv_def allocations_def Let_def)
  next
    case (Refuse owner rest)
    with si legal cons show ?thesis
      by (auto simp: run_inv_def conserve_inv_def requeue_owner_def intro: sched_inv_requeue)
         (auto simp: sched_inv_def allocations_def Let_def)
  next
    case (Start owner rest c c' q)
    from si Start(2) have own: "al_owner_subject c = owner" by (auto simp: sched_inv_def)
    from Start(5) have "set q \<subseteq> set (ss_owner_queues s owner)"
      by (metis list.simps(15) set_mset_mset subset_insertI)
    then have si': "sched_inv active s'"
      unfolding Start(7)
      by (intro sched_inv_requeue sched_inv_commit [OF si]) (simp add: commit_candidate_def)
    have cons': "conserve_inv owners candidates s'"
      unfolding Start(7) by (rule conserve_commit [OF cons fin Start(1,2) own Start(4,5)])
    have "legal_starts l active (ss_selected s')"
      using legal Start(3,4) by (simp add: Start(7) commit_candidate_def allocations_def)
    with si' cons' show ?thesis by (simp add: run_inv_def)
  qed
qed

lemma round_preserves:
  assumes "\<And>s p s'. I s \<Longrightarrow> owner_turn l s = (p, s') \<Longrightarrow> I s'"
  shows "I s \<Longrightarrow> sched_round l n p s = (p', s') \<Longrightarrow> I s'"
proof (induction n arbitrary: p s)
  case (Suc n)
  obtain r t where t: "owner_turn l s = (r, t)" by fastforce
  with Suc.prems(2) have "sched_round l n (p \<or> r) t = (p', s')" by simp
  with Suc.IH assms [OF Suc.prems(1) t] show ?case by blast
qed simp

lemma loop_preserves:
  "(\<And>s p s'. I s \<Longrightarrow> owner_turn l s = (p, s') \<Longrightarrow> I s') \<Longrightarrow> I s \<Longrightarrow> I (sched_loop l s)"
proof (induction l s rule: sched_loop.induct)
  case (1 l s)
  show ?case
  proof (cases "ss_owner_order s \<noteq> [] \<and> ss_allocated_units s < global_active l")
    case True
    obtain p s' where r: "sched_round l (length (ss_owner_order s)) False s = (p, s')" by fastforce
    have s': "I s'" by (rule round_preserves [where I = I and l = l, OF _ "1.prems"(2) r]) (rule "1.prems"(1))
    show ?thesis
    proof (cases p)
      case p: True
      have "I (sched_loop l s')" by (rule "1.IH" [OF True r [symmetric] refl p "1.prems"(1) s'])
      with True r p show ?thesis by (simp add: sched_loop.simps [of l s])
    next
      case False
      with True r s' show ?thesis by (simp add: sched_loop.simps [of l s])
    qed
  next
    case False
    with "1.prems"(2) show ?thesis by (auto simp: sched_loop.simps [of l s])
  qed
qed


subsection \<open>No needless waiting\<close>

lemma round_keeps_progress: "sched_round l n True s = (p, s') \<Longrightarrow> p"
  by (induction n arbitrary: s) (auto simp: split_beta)

lemma sched_inv_turn: "sched_inv active s \<Longrightarrow> owner_turn l s = (p, s') \<Longrightarrow> sched_inv active s'"
proof -
  assume si: "sched_inv active s" and turn: "owner_turn l s = (p, s')"
  from si turn show "sched_inv active s'"
  proof (cases rule: owner_turn_cases)
    case (Drop owner rest)
    with si show ?thesis by (simp add: sched_inv_def allocations_def Let_def)
  next
    case (Refuse owner rest)
    with si show ?thesis by (simp add: sched_inv_requeue)
  next
    case (Start owner rest c c' q)
    from Start(5) have "set q \<subseteq> set (ss_owner_queues s owner)"
      by (metis list.simps(15) set_mset_mset subset_insertI)
    with Start(7) show ?thesis by (simp add: sched_inv_requeue sched_inv_commit [OF si])
  qed (use si in simp)
qed

text \<open>A round without a start has refused every waiting run, in the state it ends in.\<close>

definition refuses :: "scheduling_limits \<Rightarrow> stage_allocation list \<Rightarrow> sched_state \<Rightarrow> string \<Rightarrow> bool" where
  "refuses l active s owner \<longleftrightarrow>
     (\<forall>c \<in> set (ss_owner_queues s owner). \<not> can_start l (allocations active s) c)"

lemma idle_round:
  "sched_inv active s \<Longrightarrow> n \<le> length (ss_owner_order s) \<Longrightarrow> sched_round l n False s = (False, s') \<Longrightarrow>
   ss_owner_queues s' = ss_owner_queues s \<and> allocations active s' = allocations active s
   \<and> (\<forall>owner \<in> set (take n (ss_owner_order s)). refuses l active s owner)"
proof (induction n arbitrary: s)
  case (Suc n)
  obtain r t where t: "owner_turn l s = (r, t)" by fastforce
  with Suc.prems(3) have round: "sched_round l n r t = (False, s')" by simp
  have nr: "\<not> r" using round_keeps_progress [of l n t False s'] round by (cases r) auto
  have step: "ss_owner_queues t = ss_owner_queues s" "allocations active t = allocations active s"
    "\<exists>owner rest. ss_owner_order s = owner # rest \<and> refuses l active s owner
       \<and> (\<exists>more. ss_owner_order t = rest @ more)"
    using Suc.prems(1) t
  proof (atomize (full), cases rule: owner_turn_cases)
    case Empty
    with Suc.prems(2) show "ss_owner_queues t = ss_owner_queues s \<and> allocations active t = allocations active s \<and>
      (\<exists>owner rest. ss_owner_order s = owner # rest \<and> refuses l active s owner \<and> (\<exists>more. ss_owner_order t = rest @ more))"
      by simp
  next
    case (Drop owner rest)
    then show "ss_owner_queues t = ss_owner_queues s \<and> allocations active t = allocations active s \<and>
      (\<exists>owner rest. ss_owner_order s = owner # rest \<and> refuses l active s owner \<and> (\<exists>more. ss_owner_order t = rest @ more))"
      by (simp add: refuses_def allocations_def)
  next
    case (Refuse owner rest)
    then show "ss_owner_queues t = ss_owner_queues s \<and> allocations active t = allocations active s \<and>
      (\<exists>owner rest. ss_owner_order s = owner # rest \<and> refuses l active s owner \<and> (\<exists>more. ss_owner_order t = rest @ more))"
      by (simp add: refuses_def requeue_owner_def allocations_def fun_upd_idem)
  next
    case (Start owner rest c c' q)
    with nr show "ss_owner_queues t = ss_owner_queues s \<and> allocations active t = allocations active s \<and>
      (\<exists>owner rest. ss_owner_order s = owner # rest \<and> refuses l active s owner \<and> (\<exists>more. ss_owner_order t = rest @ more))"
      by simp
  qed
  then obtain owner rest more where o: "ss_owner_order s = owner # rest"
    "refuses l active s owner" "ss_owner_order t = rest @ more" by blast
  have "refuses l active t = refuses l active s" by (simp add: refuses_def step(1,2) fun_eq_iff)
  with Suc.IH [OF sched_inv_turn [OF Suc.prems(1) t], of] round nr o step(1,2) Suc.prems(2)
  show ?case by auto
qed simp

lemma full_refuses: "units_total (allocations active s) \<ge> global_active l \<Longrightarrow> refuses l active s owner"
proof -
  assume full: "units_total (allocations active s) \<ge> global_active l"
  have "room_for l (allocations active s) cls \<le> 0" for cls
    using room_for_le_global [of l "allocations active s" cls] full by simp
  then show ?thesis by (auto simp: refuses_def can_start_def not_less)
qed

lemma sched_loop_stops_refusing:
  "finite owners \<Longrightarrow> run_inv owners l candidates active s \<Longrightarrow> refuses l active (sched_loop l s) owner"
proof (induction l s rule: sched_loop.induct)
  case (1 l s)
  from "1.prems"(2) have si: "sched_inv active s" by (simp add: run_inv_def)
  show ?case
  proof (cases "ss_owner_order s \<noteq> [] \<and> ss_allocated_units s < global_active l")
    case True
    obtain p s' where r: "sched_round l (length (ss_owner_order s)) False s = (p, s')" by fastforce
    have inv': "run_inv owners l candidates active s'"
      by (rule round_preserves [where I = "run_inv owners l candidates active" and l = l, OF _ "1.prems"(2) r])
         (rule run_inv_turn [OF _ "1.prems"(1)])
    show ?thesis
    proof (cases p)
      case p: True
      have "refuses l active (sched_loop l s') owner"
        by (rule "1.IH" [OF True r [symmetric] refl p "1.prems"(1) inv'])
      with True r p show ?thesis by (simp add: sched_loop.simps [of l s])
    next
      case np: False
      from idle_round [OF si order_refl] r np
      have idle: "ss_owner_queues s' = ss_owner_queues s" "allocations active s' = allocations active s"
        "\<forall>o' \<in> set (ss_owner_order s). refuses l active s o'" by auto
      have "refuses l active s' owner"
      proof (cases "ss_owner_queues s owner = []")
        case False
        with "1.prems"(2) have "owner \<in> set (ss_owner_order s)" by (simp add: run_inv_def conserve_inv_def)
        with idle show ?thesis by (simp add: refuses_def)
      qed (simp add: refuses_def idle)
      with True r np show ?thesis by (simp add: sched_loop.simps [of l s])
    qed
  next
    case False
    then have stop: "sched_loop l s = s" by (auto simp: sched_loop.simps [of l s])
    show ?thesis
    proof (cases "ss_owner_order s = []")
      case True
      with "1.prems"(2) have "ss_owner_queues s owner = []" by (auto simp: run_inv_def conserve_inv_def)
      then show ?thesis by (simp add: stop refuses_def)
    next
      case ne: False
      from si have "ss_allocated_units s = units_total (allocations active s)" by (simp add: sched_inv_def Let_def)
      with False ne stop show ?thesis by (simp add: full_refuses)
    qed
  qed
qed

subsection \<open>The initial state and the whole selection\<close>

lemma mset_sort_candidates [simp]: "mset (sort_candidates cs) = mset cs"
  by (simp add: sort_candidates_def)

lemma set_sort_candidates [simp]: "set (sort_candidates cs) = set cs"
  by (simp add: sort_candidates_def)

lemma sum_filter_run_ids:
  "finite owners \<Longrightarrow> al_owner_subject ` set cs \<subseteq> owners \<Longrightarrow>
   (\<Sum>owner \<in> owners. run_ids (filter (\<lambda>c. al_owner_subject c = owner) cs)) = run_ids cs"
proof (induction cs)
  case (Cons c cs)
  let ?o = "al_owner_subject c"
  have "(\<Sum>owner \<in> owners. run_ids (filter (\<lambda>c. al_owner_subject c = owner) (c # cs)))
      = (\<Sum>owner \<in> owners. (if owner = ?o then {#al_run_id c#} else {#})
           + run_ids (filter (\<lambda>c. al_owner_subject c = owner) cs))"
    by (rule sum.cong) auto
  also have "\<dots> = {#al_run_id c#} + run_ids cs"
    using Cons by (simp add: sum.distrib)
  finally show ?case by simp
qed simp

lemma run_inv_init:
  "run_inv (al_owner_subject ` set candidates) l candidates active (init_sched candidates active)"
proof -
  have "run_ids (sort_candidates candidates) = run_ids candidates" by (rule run_ids_mset) simp
  then have "(\<Sum>owner \<in> al_owner_subject ` set candidates.
      run_ids (filter (\<lambda>c. al_owner_subject c = owner) (sort_candidates candidates))) = run_ids candidates"
    by (simp add: sum_filter_run_ids)
  then show ?thesis
    by (auto simp: run_inv_def sched_inv_def conserve_inv_def init_sched_def allocations_def filter_empty_conv)
qed

lemma run_inv_result:
  "run_inv (al_owner_subject ` set candidates) l candidates active
     (sched_loop l (init_sched candidates active))"
  by (rule loop_preserves [where I = "run_inv (al_owner_subject ` set candidates) l candidates active"])
     (auto intro: run_inv_init run_inv_turn)

lemma selection_legal: "legal_starts l active (select_stage_candidates candidates active l)"
  using run_inv_result [of candidates l active] by (simp add: select_stage_candidates_def run_inv_def)

lemma selection_run_ids:
  "run_ids (select_stage_candidates candidates active l) \<subseteq># run_ids candidates"
  using run_inv_result [of candidates l active]
  by (auto simp: select_stage_candidates_def run_inv_def conserve_inv_def)
     (metis mset_subset_eq_add_left)

lemma selection_origin:
  "c' \<in> set (select_stage_candidates candidates active l) \<Longrightarrow>
   \<exists>c \<in> set candidates. c' = c\<lparr>al_resource_units := al_resource_units c'\<rparr>
     \<and> al_resource_units c' \<le> al_resource_units c"
  using run_inv_result [of candidates l active]
  by (auto simp: select_stage_candidates_def run_inv_def conserve_inv_def split: if_splits)


lemma selection_units_positive:
  assumes "c' \<in> set (select_stage_candidates candidates active l)"
    and "\<forall>c \<in> set candidates. allocation_post_init c = Inr ()"
  shows "1 \<le> al_resource_units c'"
proof -
  let ?P = "\<lambda>s. sched_inv active s \<and> (\<forall>o'. \<forall>c \<in> set (ss_owner_queues s o'). 1 \<le> al_resource_units c)
      \<and> (\<forall>c \<in> set (ss_selected s). 1 \<le> al_resource_units c)"
  have turn: "?P s'" if "?P s" and t: "owner_turn l s = (p, s')" for s p s'
  proof -
    from that have si: "sched_inv active s" by simp
    show ?thesis
      using si t
    proof (cases rule: owner_turn_cases)
      case (Start owner rest c c' q)
      from Start(5) have sub: "set q \<subseteq> set (ss_owner_queues s owner)"
        by (metis list.simps(15) set_mset_mset subset_insertI)
      from Start(3) have "1 \<le> room_for l (allocations active s) (al_resource_class c)"
        by (simp add: can_start_def)
      moreover have "1 \<le> al_resource_units c" using that Start(2) by blast
      ultimately have "1 \<le> al_resource_units c'" by (simp add: Start(4))
      with that sub sched_inv_turn [OF si t] show ?thesis by (auto simp: Start(7))
    qed (use that sched_inv_turn [OF si t] in \<open>auto\<close>)
  qed
  have init: "?P (init_sched candidates active)"
    using assms(2) run_inv_init [of candidates l active]
    by (fastforce simp: run_inv_def init_sched_def allocation_post_init_def split: if_splits)
  have "?P (sched_loop l (init_sched candidates active))"
    by (rule loop_preserves [where I = ?P and l = l, OF turn init])
  with assms(1) show ?thesis by (auto simp: select_stage_candidates_def split: if_splits)
qed

text \<open>The first start is kept by the rest of the loop.\<close>

lemma selection_prefix: "\<exists>more. ss_selected (sched_loop l s) = ss_selected s @ more" if "sched_inv active s"
proof -
  let ?P = "\<lambda>t. sched_inv active t \<and> (\<exists>more. ss_selected t = ss_selected s @ more)"
  have turn: "?P t'" if "?P t" and t: "owner_turn l t = (p, t')" for t p t'
  proof -
    from that have si: "sched_inv active t" by simp
    show ?thesis
      using si t by (cases rule: owner_turn_cases) (use that sched_inv_turn [OF si t] in auto)
  qed
  have "?P (sched_loop l s)"
    by (rule loop_preserves [where I = ?P and l = l, OF turn]) (use that in auto)
  then show ?thesis by blast
qed

lemma oldest_first_turn:
  assumes "sort_candidates candidates = c # cs" and "can_start l active c"
  shows "\<exists>t. owner_turn l (init_sched candidates active) = (True, t) \<and>
    ss_selected t = [c\<lparr>al_resource_units := min (al_resource_units c) (room_for l active (al_resource_class c))\<rparr>]"
proof -
  let ?s = "init_sched candidates active"
  let ?o = "al_owner_subject c"
  have si: "sched_inv active ?s" using run_inv_init [of candidates l active] by (simp add: run_inv_def)
  have alloc: "allocations active ?s = active" by (simp add: allocations_def init_sched_def)
  obtain rest where order: "ss_owner_order ?s = ?o # rest"
  proof -
    have "first_keys (x # xs) = x # filter (\<lambda>y. y \<noteq> x) (first_keys xs)" for x :: string and xs
    proof -
      have "remdups (ys @ [x]) = filter (\<lambda>y. y \<noteq> x) (remdups ys) @ [x]" for ys :: "string list"
        by (induction ys) auto
      then show ?thesis by (simp add: first_keys_def rev_filter)
    qed
    with that show ?thesis by (simp add: init_sched_def assms(1))
  qed
  obtain q where queue: "ss_owner_queues ?s ?o = c # q"
    by (simp add: init_sched_def assms(1))
  have "admit l ?s ?o c =
      Some (c\<lparr>al_resource_units := min (al_resource_units c) (room_for l active (al_resource_class c))\<rparr>)"
    using admit_eq [OF si, of c ?o l] assms(2) by (simp add: alloc)
  moreover have "ss_selected ?s = []" by (simp add: init_sched_def)
  ultimately show ?thesis by (simp add: owner_turn_def order queue)
qed

lemma round_selected_prefix:
  "sched_inv active s \<Longrightarrow> sched_round l n p s = (p', s') \<Longrightarrow>
   sched_inv active s' \<and> (\<exists>more. ss_selected s' = ss_selected s @ more)"
proof (induction n arbitrary: p s)
  case (Suc n)
  obtain r t where t: "owner_turn l s = (r, t)" by fastforce
  have "\<exists>more. ss_selected t = ss_selected s @ more"
    using Suc.prems(1) t by (cases rule: owner_turn_cases) auto
  with Suc.IH [OF sched_inv_turn [OF Suc.prems(1) t]] Suc.prems(2) t show ?case by fastforce
qed simp

subsection \<open>A small fleet\<close>

text \<open>Two owners, one active viewer build, three waiting runs.\<close>

definition example_limits :: scheduling_limits where
  "example_limits = \<lparr>global_active = 5, per_owner_active = 1, per_mission_active = 2,
     resource_active = [GpuStandard \<mapsto> 2], owner_active = fmap_of_list [(''acme'', 4)]\<rparr>"

definition example_active :: "stage_allocation list" where
  "example_active = [\<lparr>al_run_id = ''r0'', al_mission_id = 1, al_owner_subject = ''acme'',
     al_stage = GaussianViewer, al_resource_class = CpuHighMemory, al_resource_units = 1\<rparr>]"

definition example_candidate ::
  "string \<Rightarrow> int \<Rightarrow> string \<Rightarrow> stage_id \<Rightarrow> resource_class \<Rightarrow> int \<Rightarrow> int \<Rightarrow> stage_candidate" where
  "example_candidate r m owner st cls u t =
     \<lparr>al_run_id = r, al_mission_id = m, al_owner_subject = owner, al_stage = st,
      al_resource_class = cls, al_resource_units = u, ca_created_at = t\<rparr>"

definition example_candidates :: "stage_candidate list" where
  "example_candidates =
     [example_candidate ''r3'' 3 ''solo'' Reconstruction GpuGeometry 1 30,
      example_candidate ''r1'' 1 ''acme'' Detection GpuStandard 3 10,
      example_candidate ''r2'' 1 ''acme'' Rasterization GpuStandard 1 20,
      example_candidate ''r4'' 7 ''acme'' GaussianViewer CpuHighMemory 1 40]"

lemma example_selection:
  "select_stage_candidates example_candidates example_active example_limits =
     [example_candidate ''r1'' 1 ''acme'' Detection GpuStandard 2 10,
      example_candidate ''r3'' 3 ''solo'' Reconstruction GpuGeometry 1 30,
      example_candidate ''r4'' 7 ''acme'' GaussianViewer CpuHighMemory 1 40]"
  by code_simp

text \<open>Two stages of one mission that may run side by side.\<close>

definition example_pair :: "stage_candidate list" where
  "example_pair =
     [example_candidate ''v'' 4 ''acme'' GaussianViewer CpuHighMemory 1 1,
      example_candidate ''w'' 4 ''acme'' Rasterization GpuStandard 1 2]"

lemma example_pair_selection: "select_stage_candidates example_pair example_active example_limits = example_pair"
  by code_simp

subsection \<open>Properties of the scheduler\<close>

text \<open>C1: the selection together with the active allocations keeps every envelope: the
  global unit budget, the runs per owner and per mission (or whatever was already
  active beyond them), and the units per resource class.\<close>

theorem selection_keeps_envelopes:
  "let sel = select_stage_candidates candidates active l;
       as = active @ map stage_allocation.truncate sel
   in (sel = [] \<or> units_total as \<le> global_active l)
      \<and> owner_total owner as \<le> max (owner_limit l owner) (owner_total owner active)
      \<and> int (length (of_mission m as)) \<le> max (per_mission_active l) (int (length (of_mission m active)))
      \<and> (case resource_active l cls of None \<Rightarrow> True
         | Some r \<Rightarrow> class_units cls as \<le> max r (class_units cls active))"
proof -
  let ?sel = "select_stage_candidates candidates active l"
  let ?as = "active @ map stage_allocation.truncate ?sel"
  have legal: "legal_starts l active ?sel" by (rule selection_legal)
  have "?sel = [] \<or> units_total ?as \<le> global_active l"
    using legal_global [OF legal] by blast
  moreover have "owner_total owner ?as \<le> max (owner_limit l owner) (owner_total owner active)"
    by (rule legal_owner [OF legal])
  moreover have "int (length (of_mission m ?as)) \<le> max (per_mission_active l) (int (length (of_mission m active)))"
    by (rule legal_mission [OF legal])
  moreover have "case resource_active l cls of None \<Rightarrow> True
      | Some r \<Rightarrow> class_units cls ?as \<le> max r (class_units cls active)"
    using legal_class [OF legal] by (auto split: option.split simp del: class_units_append)
  ultimately show ?thesis by (simp only: Let_def simp_thms)
qed

text \<open>A mission never runs two dependent stages at once because of the scheduler: any
  two runs it starts for one mission, and any started run and any active run of the
  same mission, are independent in the stage DAG.\<close>

theorem selection_independent:
  assumes "i < length (select_stage_candidates candidates active l)" and "i \<noteq> j"
    and "j < length (select_stage_candidates candidates active l)"
    and "al_mission_id (select_stage_candidates candidates active l ! i)
       = al_mission_id (select_stage_candidates candidates active l ! j)"
  shows "stages_are_independent (al_stage (select_stage_candidates candidates active l ! i))
      (al_stage (select_stage_candidates candidates active l ! j))
    \<and> list_all (\<lambda>a. al_mission_id a \<noteq> al_mission_id (select_stage_candidates candidates active l ! i)
        \<or> stages_are_independent (al_stage (select_stage_candidates candidates active l ! i)) (al_stage a)) active"
proof -
  let ?sel = "select_stage_candidates candidates active l"
  have legal: "legal_starts l active ?sel" by (rule selection_legal)
  have "stages_are_independent (al_stage (?sel ! i)) (al_stage (?sel ! j))"
    using legal_independent [OF legal, of i j] legal_independent [OF legal, of j i] assms independent_sym
    by (cases "i < j") auto
  then show ?thesis
    using legal_independent_active [OF legal, of "?sel ! i"] assms(1) by (auto simp: list_all_iff)
qed

theorem selection_independent_witness:
  "stages_are_independent (al_stage (example_pair ! 0)) (al_stage (example_pair ! 1))
   \<and> list_all (\<lambda>a. al_mission_id a \<noteq> al_mission_id (example_pair ! 0)
        \<or> stages_are_independent (al_stage (example_pair ! 0)) (al_stage a)) example_active"
  by (rule selection_independent [of 0 example_pair example_active example_limits 1,
        unfolded example_pair_selection])
     (simp_all add: example_pair_def example_candidate_def)

text \<open>The scheduler invents nothing and starts nothing twice: every selected run is one
  of the candidates with at least one and at most the requested units, and distinct
  candidates give distinct selected runs.\<close>

theorem selection_from_candidates:
  assumes "distinct (map al_run_id candidates)"
    and "list_all (\<lambda>c. allocation_post_init c = Inr ()) candidates"
  shows "distinct (map al_run_id (select_stage_candidates candidates active l))
    \<and> list_all (\<lambda>c'. 1 \<le> al_resource_units c' \<and>
           (\<exists>c \<in> set candidates. c' = c\<lparr>al_resource_units := al_resource_units c'\<rparr>
              \<and> al_resource_units c' \<le> al_resource_units c))
        (select_stage_candidates candidates active l)"
proof -
  have "mset (map al_run_id (select_stage_candidates candidates active l)) \<subseteq># mset (map al_run_id candidates)"
    using selection_run_ids by (simp add: run_ids_def)
  with assms(1) have "distinct (map al_run_id (select_stage_candidates candidates active l))"
    by (rule distinct_submset [rotated])
  then show ?thesis
    using selection_units_positive selection_origin assms(2) by (simp add: list_all_iff)
qed

theorem selection_from_candidates_witness:
  "distinct (map al_run_id (select_stage_candidates example_candidates example_active example_limits))
   \<and> list_all (\<lambda>c'. 1 \<le> al_resource_units c' \<and>
        (\<exists>c \<in> set example_candidates. c' = c\<lparr>al_resource_units := al_resource_units c'\<rparr>
           \<and> al_resource_units c' \<le> al_resource_units c))
      (select_stage_candidates example_candidates example_active example_limits)"
  by (rule selection_from_candidates)
     (simp_all add: example_candidates_def example_candidate_def allocation_post_init_def)

text \<open>No needless waiting. A candidate that is not selected could not start next to the
  active runs and everything selected: some envelope or a dependent stage of its mission
  refuses it.\<close>

theorem selection_work_conserving:
  assumes "c \<in> set candidates"
    and "\<forall>u. c\<lparr>al_resource_units := u\<rparr> \<notin> set (select_stage_candidates candidates active l)"
  shows "\<not> can_start l
      (active @ map stage_allocation.truncate (select_stage_candidates candidates active l)) c"
proof (cases "units_total active \<ge> global_active l")
  case True
  then show ?thesis
    using room_for_le_global [of l active "al_resource_class c"]
    by (auto simp: select_stage_candidates_def can_start_def)
next
  case False
  let ?s = "sched_loop l (init_sched candidates active)"
  have inv: "run_inv (al_owner_subject ` set candidates) l candidates active ?s" by (rule run_inv_result)
  from False assms inv have "c \<in> set (ss_owner_queues ?s (al_owner_subject c))"
    by (auto simp: select_stage_candidates_def run_inv_def conserve_inv_def)
  moreover have "refuses l active ?s (al_owner_subject c)"
    by (rule sched_loop_stops_refusing [OF _ run_inv_init]) simp
  ultimately have "\<not> can_start l (allocations active ?s) c" by (simp add: refuses_def)
  with False show ?thesis by (simp add: select_stage_candidates_def allocations_def)
qed

theorem selection_work_conserving_witness:
  "\<not> can_start example_limits
     (example_active @ map stage_allocation.truncate
        (select_stage_candidates example_candidates example_active example_limits))
     (example_candidate ''r2'' 1 ''acme'' Rasterization GpuStandard 1 20)"
  by (rule selection_work_conserving)
     (simp_all add: example_selection, simp_all add: example_candidates_def example_candidate_def)

text \<open>The oldest waiting run is never passed over when it could start: it is the first
  selected run, with as many of its units as the envelopes leave.\<close>

theorem selection_oldest_first:
  assumes "sort_candidates candidates = c # cs" and "can_start l active c"
  shows "\<exists>more. select_stage_candidates candidates active l =
    c\<lparr>al_resource_units := min (al_resource_units c) (room_for l active (al_resource_class c))\<rparr> # more"
proof -
  let ?s = "init_sched candidates active"
  have si: "sched_inv active ?s" using run_inv_init [of candidates l active] by (simp add: run_inv_def)
  have room: "units_total active < global_active l"
    using assms(2) room_for_le_global [of l active "al_resource_class c"] by (simp add: can_start_def)
  have go: "ss_owner_order ?s \<noteq> []" "ss_allocated_units ?s < global_active l"
    using room assms(1) set_first_keys [of "map al_owner_subject (sort_candidates candidates)"]
    by (auto simp: init_sched_def simp del: set_first_keys)
  then obtain n where n: "length (ss_owner_order ?s) = Suc n" by (cases "ss_owner_order ?s") auto
  obtain t where t: "owner_turn l ?s = (True, t)"
    "ss_selected t = [c\<lparr>al_resource_units := min (al_resource_units c) (room_for l active (al_resource_class c))\<rparr>]"
    using oldest_first_turn [OF assms] by blast
  obtain p s' where r: "sched_round l (length (ss_owner_order ?s)) False ?s = (p, s')" by fastforce
  from r n t(1) have round: "sched_round l n True t = (p, s')" by simp
  then have p: "p" by (rule round_keeps_progress)
  from round_selected_prefix [OF sched_inv_turn [OF si t(1)] round]
  obtain more where s': "sched_inv active s'" "ss_selected s' = ss_selected t @ more" by blast
  from selection_prefix [OF s'(1), of l] obtain more' where "ss_selected (sched_loop l s') = ss_selected s' @ more'"
    by blast
  moreover have "sched_loop l ?s = sched_loop l s'"
    using go r p by (simp add: sched_loop.simps [of l ?s])
  ultimately show ?thesis using room s' t(2) by (simp add: select_stage_candidates_def)
qed

theorem selection_oldest_first_witness:
  "\<exists>more. select_stage_candidates example_candidates example_active example_limits =
     example_candidate ''r1'' 1 ''acme'' Detection GpuStandard 2 10 # more"
proof -
  let ?c = "example_candidate ''r1'' 1 ''acme'' Detection GpuStandard 3 10"
  have sorted: "sort_candidates example_candidates = ?c # tl (sort_candidates example_candidates)"
    by code_simp
  have start: "can_start example_limits example_active ?c" by code_simp
  have room: "room_for example_limits example_active GpuStandard = 2" by code_simp
  show ?thesis
    using selection_oldest_first [OF sorted start] by (simp add: room example_candidate_def)
qed

text \<open>The worklist search for the ancestors of a stage computes the transitive closure
  of the dependency table.\<close>

theorem ancestors_are_transitive_dependencies:
  "set (ancestors s) = {d. (d, s) \<in> {(d, s). d \<in> set (stage_dependencies s)}\<^sup>+}"
  using ancestors_eq [of _ s] by (auto simp: stages.dep_rel_def)

end
