(* ===== verification/ReservationCorrect.thy ===== *)
theory ReservationCorrect
  imports JobReconciliation SchedulerCorrect
begin

text \<open>
  Correctness of the reservation and dispatch of stage Jobs: pages and query agree, the
  repair of a resource class reaches the class the stage needs, a fan-out stores the plan
  it will be checked against, reservations stay inside the scheduler's envelopes, and no
  active run is ever dispatched more often than the configuration allows.
\<close>

subsection \<open>Pages\<close>

lemma collect_pages_take:
  "rows = take offset query \<Longrightarrow> length rows = offset \<Longrightarrow> offset \<le> maximum \<Longrightarrow>
   collect_pages maximum query rows offset = take maximum query"
proof (induction maximum query rows offset rule: collect_pages.induct)
  case (1 maximum query rows offset)
  note rows = "1.prems"(1) and len = "1.prems"(2) and le = "1.prems"(3)
  show ?case
  proof (cases "length rows < maximum")
    case False
    with len le have "offset = maximum" by simp
    moreover have "collect_pages maximum query rows offset = rows" using False by (simp add: collect_pages.simps)
    ultimately show ?thesis using rows by simp
  next
    case True
    define limit where "limit = min SCHEDULER_CANDIDATE_PAGE_SIZE (maximum - length rows)"
    define page where "page = take limit (drop offset query)"
    have rows': "rows @ page = take (offset + limit) query"
      using take_add [of offset limit query] rows by (simp only: page_def)
    have le': "offset + limit \<le> maximum" using True len by (simp add: limit_def)
    have step: "collect_pages maximum query rows offset = (if length page < limit then rows @ page
        else collect_pages maximum query (rows @ page) (offset + length page))"
      using True by (subst collect_pages.simps) (simp only: Let_def if_True limit_def page_def)
    show ?thesis
    proof (cases "length page < limit")
      case True
      then have "length query < offset + limit" by (auto simp: page_def)
      then have "take (offset + limit) query = take maximum query" using le' by simp
      with True show ?thesis by (simp only: step rows' if_True)
    next
      case False
      then have plen: "length page = limit" using length_take [of limit "drop offset query"] by (simp add: page_def)
      have "collect_pages maximum query (rows @ page) (offset + length page) = take maximum query"
        by (rule "1.IH" [OF True limit_def page_def False], simp add: rows' plen, simp add: len, simp add: plen le')
      with False show ?thesis by (simp only: step if_False)
    qed
  qed
qed

text \<open>Reading the candidate query page by page gives exactly its first rows, in order, up to the limit of the pass.\<close>

theorem pages_read_the_query:
  "collect_pages maximum query [] 0 = take maximum query"
  by (rule collect_pages_take) simp_all

subsection \<open>Shapes of the updates\<close>

lemma repair_shape:
  "repair_resource_class r = Inr r' \<Longrightarrow>
   r' = r\<lparr>sr_resource_class := sr_resource_class r', sr_provenance := sr_provenance r'\<rparr>"
  by (auto simp: repair_resource_class_def rbind_Inr_iff split: if_split_asm)

lemma fanout_shape:
  "prepare_detection_fanout w d r st = Inr (plan, r') \<Longrightarrow> r' = r\<lparr>sr_provenance := sr_provenance r'\<rparr>"
  by (auto simp: prepare_detection_fanout_def rbind_Inr_iff monolithic_run_def fanout_run_def split: if_split_asm)

text \<open>The repair leaves a run with a class that meets what its stage and parameters need, and repairing twice changes nothing more.\<close>

theorem repair_gives_adequate_class:
  assumes "repair_resource_class r = Inr r'" and "resource_class_for_stage (sr_stage r) (sr_parameters r) = Inr required"
    and "detection_phase r \<noteq> Some DETECTION_FINALIZER_PHASE"
  shows "resource_class_meets_envelope (sr_resource_class r') required
    \<and> resource_class_meets_envelope (sr_resource_class r') (default_stage_resource_class (sr_stage r))
    \<and> repair_resource_class r' = Inr r'"
proof -
  have r': "sr_resource_class r' = env.upgrade (sr_resource_class r) required"
    and same: "sr_stage r' = sr_stage r" "sr_parameters r' = sr_parameters r"
    and phase: "detection_phase r' = detection_phase r"
    using assms by (auto simp: repair_resource_class_def env.upgrade_def detection_phase_def rbind_Inr_iff)
  have meets: "resource_class_meets_envelope (sr_resource_class r') required"
    unfolding r' by (rule env.upgrade_meets)
  moreover have "resource_class_meets_envelope (sr_resource_class r') (default_stage_resource_class (sr_stage r))"
    unfolding r' by (rule env.upgrade_weaker [OF resource_class_for_stage_meets_default [OF assms(2)]])
  moreover have "repair_resource_class r' = Inr r'"
    using meets assms(2,3) by (simp add: repair_resource_class_def same phase)
  ultimately show ?thesis by blast
qed

subsection \<open>Row invariants of the control loop\<close>

text \<open>
  A condition on rows that the projection onto the analyses cannot break: the projection
  writes back only the progress and the metrics of a run.
\<close>

locale run_condition =
  fixes Q :: "stage_run \<Rightarrow> bool"
  assumes projected: "Q (r\<lparr>sr_quality_metrics := metrics, sr_progress := progress\<rparr>) = Q r"
begin

definition everywhere :: "db \<Rightarrow> bool" where
  "everywhere d \<longleftrightarrow> (\<forall>r \<in> set (db_runs d). Q r)"

lemma everywhere_put: "everywhere d \<Longrightarrow> Q r \<Longrightarrow> everywhere (put_run r d)"
  unfolding everywhere_def using runs.put_member by blast

lemma everywhere_runs: "db_runs d' = db_runs d \<Longrightarrow> everywhere d' = everywhere d"
  by (simp add: everywhere_def)

lemma sync_condition: "sync_analysis_stage w now s d = Inr (s', d') \<Longrightarrow> Q s' = Q s"
  using sync_run_fields projected by metis

lemma everywhere_sync:
  assumes "sync_analysis_stage w now s d = Inr (s', d')" and "everywhere d" and "Q s"
  shows "everywhere d'"
  using sync_rows_new [OF assms(1)] sync_condition [OF assms(1)] assms(2,3) unfolding everywhere_def by blast

lemma everywhere_sync_runs:
  "sync_runs w now rs d = Inr d' \<Longrightarrow> everywhere d \<Longrightarrow> (\<And>r. r \<in> set rs \<Longrightarrow> Q r) \<Longrightarrow> everywhere d'"
proof (induction rs arbitrary: d)
  case (Cons r rs)
  then obtain r1 d1 where "sync_analysis_stage w now r d = Inr (r1, d1)" "sync_runs w now rs d1 = Inr d'"
    by (auto simp: rbind_Inr_iff)
  with Cons show ?case using everywhere_sync by (metis list.set_intros)
qed simp

end

text \<open>An unfinished run that the executor holds has been dispatched at most as often as allowed.\<close>

definition attempts_bounded :: "int \<Rightarrow> stage_run \<Rightarrow> bool" where
  "attempts_bounded n r \<longleftrightarrow>
     (sr_status r \<in> {Blocked, Queued, Running} \<and> sr_executor r = Some EXECUTOR_NAME \<longrightarrow> sr_dispatch_attempts r \<le> n)"

interpretation bounded: run_condition "attempts_bounded n" for n
  by unfold_locales (simp add: attempts_bounded_def)

text \<open>A run that waits to be scheduled and may still be dispatched.\<close>

definition schedulable :: "orchestrator_settings \<Rightarrow> stage_run \<Rightarrow> bool" where
  "schedulable st r \<longleftrightarrow>
     sr_status r = Queued \<and> sr_executor r = None \<and> sr_dispatch_attempts r < st_maximum_dispatch_attempts st"

lemma schedulable_bounded: "schedulable st r \<Longrightarrow> attempts_bounded n r"
  by (simp add: schedulable_def attempts_bounded_def)

lemma checked_schedulable [simp]: "schedulable st (checked_run now r) = schedulable st r"
  by (simp add: schedulable_def checked_run_def)

lemma shape_fields:
  assumes "r' = r\<lparr>sr_resource_class := c, sr_provenance := p\<rparr>"
  shows "schedulable st r' = schedulable st r \<and> sr_run_id r' = sr_run_id r \<and> sr_id r' = sr_id r
    \<and> attempts_bounded n r' = attempts_bounded n r"
  by (simp add: assms schedulable_def attempts_bounded_def)

lemma repair_fields:
  "repair_resource_class r = Inr r' \<Longrightarrow> schedulable st r' = schedulable st r \<and> sr_run_id r' = sr_run_id r
     \<and> sr_id r' = sr_id r \<and> attempts_bounded n r' = attempts_bounded n r"
  by (rule shape_fields [OF repair_shape])

lemma fanout_fields:
  "prepare_detection_fanout w d r sg = Inr (plan, r') \<Longrightarrow> schedulable st r' = schedulable st r
     \<and> sr_run_id r' = sr_run_id r \<and> sr_id r' = sr_id r \<and> attempts_bounded n r' = attempts_bounded n r"
proof -
  assume "prepare_detection_fanout w d r sg = Inr (plan, r')"
  then have "r' = r\<lparr>sr_resource_class := sr_resource_class r, sr_provenance := sr_provenance r'\<rparr>"
    using fanout_shape by fastforce
  then show ?thesis by (rule shape_fields)
qed

lemma refused_bounded [simp]: "attempts_bounded n (refused_run message now r)"
  by (simp add: attempts_bounded_def refused_run_def queued_or_running_def)

abbreviation row_ids :: "(stage_run \<times> mission) list \<Rightarrow> string list" where
  "row_ids rows \<equiv> map (\<lambda>row. sr_run_id (fst row)) rows"

abbreviation row_keys :: "(stage_run \<times> mission) list \<Rightarrow> (string \<times> mission) set" where
  "row_keys rows \<equiv> (\<lambda>row. (sr_run_id (fst row), snd row)) ` set rows"

lemma row_ids_keys: "set (row_ids rows) = fst ` row_keys rows"
  by force

text \<open>One prepared candidate: dropped as failed, or kept with its identity.\<close>

lemma prepare_candidates_Cons:
  assumes "prepare_candidates w st now ((r, m) # rows) d = Inr (prepared, d')"
  obtains (Refused) r1 message r3 d2 where "repair_resource_class (checked_run now r) = Inr r1"
      "sync_analysis_stage w now (refused_run message now r1) (put_run (refused_run message now r1) (put_run r1 d)) = Inr (r3, d2)"
      "prepare_candidates w st now rows d2 = Inr (prepared, d')"
    | (Kept) r1 plan r2 rest where "repair_resource_class (checked_run now r) = Inr r1"
      "prepare_detection_fanout w (put_run r1 d) r1 st = Inr (plan, r2)"
      "prepare_candidates w st now rows (put_run r2 (put_run r1 d)) = Inr (rest, d')"
      "prepared = (r2, m) # rest"
proof -
  from assms obtain r1 where r1: "repair_resource_class (checked_run now r) = Inr r1"
    by (auto simp: rbind_Inr_iff)
  show thesis
  proof (cases "prepare_detection_fanout w (put_run r1 d) r1 st")
    case (Inl e)
    let ?r2 = "refused_run (''Invalid detection fan-out plan: '' @ error_text e) now r1"
    from assms r1 Inl have "rbind (sync_analysis_stage w now ?r2 (put_run ?r2 (put_run r1 d)))
        (\<lambda>(_, d2). prepare_candidates w st now rows d2) = Inr (prepared, d')"
      by (simp add: Let_def split: if_split_asm)
    then obtain r3 d2 where "sync_analysis_stage w now ?r2 (put_run ?r2 (put_run r1 d)) = Inr (r3, d2)"
        "prepare_candidates w st now rows d2 = Inr (prepared, d')"
      by (auto simp: rbind_Inr_iff)
    then show thesis by (rule Refused [OF r1])
  next
    case (Inr a)
    with assms r1 show thesis
      by (cases a) (auto simp: rbind_Inr_iff Let_def intro!: Kept [OF r1])
  qed
qed

lemma prepare_candidates_keys:
  "prepare_candidates w st now rows d = Inr (prepared, d') \<Longrightarrow>
   row_keys prepared \<subseteq> row_keys rows \<and> (distinct (row_ids rows) \<longrightarrow> distinct (row_ids prepared))"
proof (induction rows arbitrary: d prepared)
  case (Cons row rows)
  obtain r m where row: "row = (r, m)" by fastforce
  from Cons.prems [unfolded row] show ?case
  proof (cases rule: prepare_candidates_Cons)
    case (Refused r1 message r3 d2)
    from Cons.IH [OF Refused(3)] show ?thesis by (auto simp: row)
  next
    case (Kept r1 plan r2 others)
    have r2: "sr_run_id r2 = sr_run_id r"
      using fanout_fields [OF Kept(2)] repair_fields [OF Kept(1)] by (simp add: checked_run_def)
    from Cons.IH [OF Kept(3)] have keys: "row_keys others \<subseteq> row_keys rows" by blast
    then have "set (row_ids others) \<subseteq> set (row_ids rows)" unfolding row_ids_keys by (rule image_mono)
    with Cons.IH [OF Kept(3)] r2 keys show ?thesis by (auto simp: row Kept(4))
  qed
qed simp

lemmas prepare_distinct = prepare_candidates_keys [THEN conjunct2]

lemma prepare_candidates_correct:
  assumes "prepare_candidates w st now rows d = Inr (prepared, d')"
    and "bounded.everywhere n d" and "\<forall>row \<in> set rows. schedulable st (fst row)"
  shows "bounded.everywhere n d' \<and> (\<forall>row \<in> set prepared. schedulable st (fst row))"
  using assms
proof (induction rows arbitrary: d prepared)
  case (Cons row rows)
  obtain r m where row: "row = (r, m)" by fastforce
  have r: "schedulable st r" and rest: "\<forall>row \<in> set rows. schedulable st (fst row)"
    using Cons.prems(3) row by auto
  from Cons.prems(1) [unfolded row] show ?case
  proof (cases rule: prepare_candidates_Cons)
    case (Refused r1 message r3 d2)
    have "attempts_bounded n r1"
      using repair_fields [OF Refused(1)] schedulable_bounded r by (metis checked_schedulable)
    then have "bounded.everywhere n d2"
      using bounded.everywhere_sync [OF Refused(2)] Cons.prems(2) by (simp add: bounded.everywhere_put)
    from Cons.IH [OF Refused(3) this rest] show ?thesis by (auto simp: row)
  next
    case (Kept r1 plan r2 others)
    have r1: "schedulable st r1" "sr_run_id r1 = sr_run_id r"
      using repair_fields [OF Kept(1)] r by (auto simp: checked_run_def schedulable_def)
    have r2: "schedulable st r2" "sr_run_id r2 = sr_run_id r"
      using fanout_fields [OF Kept(2)] r1 by auto
    have "bounded.everywhere n (put_run r2 (put_run r1 d))"
      using Cons.prems(2) r1 r2 by (simp add: bounded.everywhere_put schedulable_bounded)
    from Cons.IH [OF Kept(3) this rest] r2 show ?thesis by (auto simp: Kept(4))
  qed
qed simp

subsection \<open>One candidate after the selection\<close>

lemma checked_run_fields [simp]:
  "sr_run_id (checked_run now r) = sr_run_id r" "sr_id (checked_run now r) = sr_id r"
  "sr_stage (checked_run now r) = sr_stage r" "detection_phase (checked_run now r) = detection_phase r"
  "durable_shard_plan w (checked_run now r) = durable_shard_plan w r"
  by (simp_all add: checked_run_def detection_phase_def durable_shard_plan_def)

lemma with_parallelism_shape:
  "with_parallelism w st units r = Inr r' \<Longrightarrow>
   r' = r\<lparr>sr_resource_class := sr_resource_class r, sr_provenance := sr_provenance r'\<rparr>"
  by (auto simp: with_parallelism_def rbind_Inr_iff split: if_split_asm)

lemma reserve_candidate_cases:
  assumes "reserve_candidate w st now selected (r0, m) d = Inr (job, r', d')"
  obtains (Skipped) "selected_units selected (sr_run_id r0) = None" "job = None" "r' = checked_run now r0"
      "d' = put_run r' d"
    | (Refused) units r1 message where "selected_units selected (sr_run_id r0) = Some units"
      "with_parallelism w st units (checked_run now r0) = Inr r1" "job = None"
      "r' = refused_run message now r1" "d' = put_run r' d"
    | (Reserved) units e r1 j where "selected_units selected (sr_run_id r0) = Some units"
      "executor_for st (sr_stage r0) = Inr e" "with_parallelism w st units (checked_run now r0) = Inr r1"
      "reserved_job_for w r1 m st = Inr j" "job = Some j"
      "r' = scheduled_run w now (ex_gpu_architecture e) units r1"
      "\<exists>x. append_usage_event w (scheduled_entry r' m units) (put_run r' d) = Inr (x, d')"
proof (cases "selected_units selected (sr_run_id r0)")
  case None
  with assms show thesis by (intro Skipped) (auto simp: reserve_candidate_def Let_def)
next
  case (Some units)
  with assms obtain e r1 where e: "executor_for st (sr_stage r0) = Inr e"
      and r1: "with_parallelism w st units (checked_run now r0) = Inr r1"
    by (auto simp: reserve_candidate_def Let_def rbind_Inr_iff)
  show thesis
  proof (cases "reserved_job_for w r1 m st")
    case (Inl err)
    with assms Some e r1 show thesis
      by (intro Refused [OF Some r1]) (auto simp: reserve_candidate_def Let_def split: if_split_asm)
  next
    case (Inr j)
    with assms Some e r1 show thesis
      by (intro Reserved [OF Some e r1 Inr])
         (auto simp: reserve_candidate_def Let_def rbind_Inr_iff)
  qed
qed

lemma reserve_candidate_bounded:
  assumes "reserve_candidate w st now selected (r0, m) d = Inr (job, r', d')"
    and "schedulable st r0" and "bounded.everywhere (st_maximum_dispatch_attempts st) d"
  shows "attempts_bounded (st_maximum_dispatch_attempts st) r'
    \<and> bounded.everywhere (st_maximum_dispatch_attempts st) d'"
  using assms(1)
proof (cases rule: reserve_candidate_cases)
  case Skipped
  then have "schedulable st r'" using assms(2) by simp
  with Skipped assms(3) show ?thesis by (simp add: schedulable_bounded bounded.everywhere_put)
next
  case (Refused units r1 message)
  with assms(3) show ?thesis by (simp add: bounded.everywhere_put)
next
  case (Reserved units e r1 j)
  have "schedulable st r1" using shape_fields [OF with_parallelism_shape [OF Reserved(3)]] assms(2) by simp
  then have "attempts_bounded (st_maximum_dispatch_attempts st) r'"
    by (simp add: Reserved(6) schedulable_def attempts_bounded_def scheduled_run_def)
  moreover have "db_runs d' = db_runs (put_run r' d)" using Reserved(7) append_usage_event_frame(3) by blast
  ultimately show ?thesis
    using assms(3) bounded.everywhere_put bounded.everywhere_runs by metis
qed

lemma reserve_candidates_bounded:
  "reserve_candidates w st now selected rows d = Inr (jobs, rs, d') \<Longrightarrow>
   \<forall>row \<in> set rows. schedulable st (fst row) \<Longrightarrow>
   bounded.everywhere (st_maximum_dispatch_attempts st) d \<Longrightarrow>
   bounded.everywhere (st_maximum_dispatch_attempts st) d'
   \<and> (\<forall>r \<in> set rs. attempts_bounded (st_maximum_dispatch_attempts st) r)"
proof (induction rows arbitrary: d jobs rs)
  case (Cons row rows)
  obtain r0 m where row: "row = (r0, m)" by fastforce
  from Cons.prems(1) row obtain job r1 d1 others rs' where
      one: "reserve_candidate w st now selected (r0, m) d = Inr (job, r1, d1)"
      and rest: "reserve_candidates w st now selected rows d1 = Inr (others, rs', d')" and rs: "rs = r1 # rs'"
    by (auto simp: rbind_Inr_iff)
  have "schedulable st r0" using Cons.prems(2) row by simp
  from reserve_candidate_bounded [OF one this Cons.prems(3)]
  have "attempts_bounded (st_maximum_dispatch_attempts st) r1"
      "bounded.everywhere (st_maximum_dispatch_attempts st) d1" by auto
  with Cons.IH [OF rest] Cons.prems(2) show ?case by (simp add: rs)
qed simp

subsection \<open>The whole reservation\<close>

lemma runs_with_missions_iff:
  "(r, m) \<in> set (runs_with_missions P d) \<longleftrightarrow>
     r \<in> set (db_runs d) \<and> m \<in> set (db_missions d) \<and> m_id m = sr_mission_id r \<and> P r m"
  by (auto simp: runs_with_missions_def)

lemma found_rows:
  assumes "row \<in> set (collect_pages n (candidate_query st free d) [] 0)"
  shows "row \<in> set (runs_with_missions (candidate_row st free d) d)"
proof -
  have "collect_pages n (candidate_query st free d) [] 0 = take n (candidate_query st free d)"
    by (rule collect_pages_take) simp_all
  with assms show ?thesis by (metis candidate_query_def in_set_takeD set_sort)
qed

lemma found_schedulable:
  assumes "row \<in> set (collect_pages n (candidate_query st free d) [] 0)"
  shows "schedulable st (fst row)"
proof -
  obtain r m where row: "row = (r, m)" by fastforce
  with found_rows [OF assms] have "candidate_row st free d r m" by (simp add: runs_with_missions_iff)
  then show ?thesis by (simp add: row candidate_row_def schedulable_def)
qed

lemma reserve_ready_jobs_bounded:
  assumes "reserve_ready_jobs w acquired free st now d = Inr (jobs, d')"
    and "bounded.everywhere (st_maximum_dispatch_attempts st) d"
  shows "bounded.everywhere (st_maximum_dispatch_attempts st) d'"
proof (cases acquired)
  case False
  with assms show ?thesis by (simp add: reserve_ready_jobs_def)
next
  case True
  let ?found = "collect_pages (nat (st_maximum_candidates_per_pass st)) (candidate_query st free d) [] 0"
  from assms(1) True obtain prepared d1 selected rs d2 where
      prep: "prepare_candidates w st now ?found d = Inr (prepared, d1)"
      and res: "reserve_candidates w st now selected prepared d1 = Inr (jobs, rs, d2)"
      and sync: "sync_runs w now rs d2 = Inr d'"
    by (auto simp: reserve_ready_jobs_def Let_def rbind_Inr_iff)
  have "\<forall>row \<in> set ?found. schedulable st (fst row)" using found_schedulable by blast
  from prepare_candidates_correct [OF prep assms(2) this]
  have p: "bounded.everywhere (st_maximum_dispatch_attempts st) d1" "\<forall>row \<in> set prepared. schedulable st (fst row)"
    by auto
  from reserve_candidates_bounded [OF res p(2) p(1)] bounded.everywhere_sync_runs [OF sync]
  show ?thesis by blast
qed

lemma record_dispatch_error_bounded:
  assumes "record_dispatch_error w now run_id err n d = (res, d')" and "bounded.everywhere n d"
  shows "bounded.everywhere n d'"
proof (cases res)
  case (Inl e)
  with assms show ?thesis by (auto simp: record_dispatch_error_def split: sum.splits prod.splits)
next
  case (Inr u)
  with assms(1) obtain r r1 d1 where r: "run_by_run_id d run_id = Inr r"
      and sync: "sync_analysis_stage w now (dispatch_failed (error_text err) n now r)
        (put_run (dispatch_failed (error_text err) n now r) d) = Inr (r1, d')"
    by (auto simp: record_dispatch_error_def rbind_Inr_iff Let_def split: sum.splits prod.splits)
  have "attempts_bounded n r" using run_by_run_id_Inr [OF r] assms(2) by (auto simp: bounded.everywhere_def)
  then have "attempts_bounded n (dispatch_failed (error_text err) n now r)"
    by (auto simp: dispatch_failed_def Let_def attempts_bounded_def queued_or_running_def)
  with bounded.everywhere_sync [OF sync] assms(2) show ?thesis by (simp add: bounded.everywhere_put)
qed

subsection \<open>Reserved Jobs stay inside the envelope\<close>

text \<open>The Pods that a Job may run at once.\<close>

definition job_units :: "reserved_job \<Rightarrow> int" where
  "job_units j = (case jc_indexed (rj_config j) of None \<Rightarrow> 1 | Some ix \<Rightarrow> ix_parallelism ix)"

lemma reserved_job_Inr:
  assumes "reserved_job_for w r m st = Inr j"
  obtains e parts volume selector where "executor_for st (sr_stage r) = Inr e" "phase_parts w st r = Inr parts"
    "rj_request j = request_for r m" "rj_config j = config_for st e r selector parts volume"
    "rj_job_name j = detection_job_name w r"
  using assms
  by (auto simp: reserved_job_for_def rbind_Inr_iff config_post_init_def request_post_init_def split: if_split_asm)

lemma sharded_fields:
  assumes "with_parallelism w st units (checked_run now r) = Inr r'"
  shows "sharded r' = sharded r" "sr_run_id r' = sr_run_id r" "sr_stage r' = sr_stage r"
    "sharded r \<Longrightarrow> dget (sr_provenance r') EFFECTIVE_PARALLELISM_KEY = PInt units"
  using assms
  by (auto simp: with_parallelism_def rbind_Inr_iff sharded_def detection_phase_def checked_run_def split: if_split_asm)

lemma phase_parts_units:
  assumes "phase_parts w st r = Inr parts"
  shows "(\<not> sharded r \<longrightarrow> fst parts = None)
    \<and> (sharded r \<longrightarrow> dget (sr_provenance r) EFFECTIVE_PARALLELISM_KEY = PInt units \<longrightarrow>
        (\<exists>ix. fst parts = Some ix \<and> ix_parallelism ix = units))"
  using assms
  by (auto simp: phase_parts_def rbind_Inr_iff integer_value_def or_value_error_def indexed_post_init_def
      split: if_split_asm)

lemma reserved_units:
  assumes "with_parallelism w st units (checked_run now r) = Inr r'" and "reserved_job_for w r' m st = Inr j"
    and "1 \<le> units"
  shows "job_units j \<le> units"
proof -
  from assms(2) obtain e parts volume selector where parts: "phase_parts w st r' = Inr parts"
      and config: "rj_config j = config_for st e r' selector parts volume"
    by (rule reserved_job_Inr)
  have "jc_indexed (rj_config j) = fst parts" by (simp add: config config_for_def Let_def split_beta)
  then show ?thesis
    using phase_parts_units [OF parts, of units] sharded_fields [OF assms(1)] assms(3)
    by (cases "sharded r") (auto simp: job_units_def)
qed

abbreviation units_of :: "stage_candidate list \<Rightarrow> string \<Rightarrow> int" where
  "units_of items run_id \<equiv> (case selected_units items run_id of None \<Rightarrow> 0 | Some u \<Rightarrow> u)"

lemma selected_units_member:
  "selected_units items run_id = Some u \<Longrightarrow> \<exists>c \<in> set items. al_run_id c = run_id \<and> al_resource_units c = u"
  by (auto simp: selected_units_def find_Some_iff) (metis length_rev nth_mem set_rev)

lemma reserve_candidate_units:
  assumes "reserve_candidate w st now selected (r0, m) d = Inr (job, r', d')"
    and "\<forall>c \<in> set selected. 1 \<le> al_resource_units c"
  shows "(case job of None \<Rightarrow> 0 | Some j \<Rightarrow> job_units j) \<le> units_of selected (sr_run_id r0)"
  using assms(1)
proof (cases rule: reserve_candidate_cases)
  case (Refused units r1 message)
  with selected_units_member [OF Refused(1)] assms(2) show ?thesis by fastforce
next
  case (Reserved units e r1 j)
  have "1 \<le> units" using selected_units_member [OF Reserved(1)] assms(2) by blast
  with reserved_units [OF Reserved(3,4)] Reserved(1,5) show ?thesis by simp
qed simp

lemma reserve_candidates_units:
  "reserve_candidates w st now selected rows d = Inr (jobs, rs, d') \<Longrightarrow>
   \<forall>c \<in> set selected. 1 \<le> al_resource_units c \<Longrightarrow>
   sum_list (map job_units jobs) \<le> sum_list (map (units_of selected) (row_ids rows))"
proof (induction rows arbitrary: d jobs rs)
  case (Cons row rows)
  obtain r0 m where row: "row = (r0, m)" by fastforce
  from Cons.prems(1) row obtain job r1 d1 others rs' where
      one: "reserve_candidate w st now selected (r0, m) d = Inr (job, r1, d1)"
      and rest: "reserve_candidates w st now selected rows d1 = Inr (others, rs', d')"
      and jobs: "jobs = (case job of None \<Rightarrow> others | Some j \<Rightarrow> j # others)"
    by (auto simp: rbind_Inr_iff)
  from Cons.IH [OF rest Cons.prems(2)] reserve_candidate_units [OF one Cons.prems(2)]
  show ?case by (cases job) (simp_all add: jobs row)
qed simp

lemma units_of_append:
  "units_of (items @ [c]) run_id = (if al_run_id c = run_id then al_resource_units c else units_of items run_id)"
  by (simp add: selected_units_def)

lemma sum_units_of:
  assumes "distinct ids" and "\<forall>c \<in> set items. 0 \<le> al_resource_units c"
  shows "sum_list (map (units_of items) ids) \<le> units_total items"
  using assms(2)
proof (induction items rule: rev_induct)
  case Nil
  then show ?case by (simp add: selected_units_def)
next
  case (snoc c items)
  have nonneg: "0 \<le> units_of items run_id" for run_id
    using selected_units_member [of items run_id] snoc.prems by (fastforce split: option.split)
  have "(\<Sum>i \<in> set ids. units_of (items @ [c]) i)
      \<le> (\<Sum>i \<in> set ids. units_of items i) + (\<Sum>i \<in> set ids. if al_run_id c = i then al_resource_units c else 0)"
    unfolding units_of_append sum.distrib [symmetric] using nonneg by (intro sum_mono) simp
  also have "(\<Sum>i \<in> set ids. if al_run_id c = i then al_resource_units c else 0) \<le> al_resource_units c"
    using snoc.prems by simp
  finally show ?case
    using snoc.IH snoc.prems assms(1) by (simp add: sum_list_distinct_conv_sum_set)
qed

lemma rmap_member: "rmap f xs = Inr ys \<Longrightarrow> y \<in> set ys \<Longrightarrow> \<exists>x \<in> set xs. f x = Inr y"
  by (induction xs arbitrary: ys) (auto simp: rbind_Inr_iff)

lemma candidate_for_Inr:
  "candidate_for w st row = Inr c \<Longrightarrow> al_run_id c = sr_run_id (fst row) \<and> allocation_post_init c = Inr ()"
  by (cases row) (auto simp: candidate_for_def rbind_Inr_iff Let_def)

lemma nothing_selected:
  "reserve_candidates w st now [] rows d = Inr (jobs, rs, d') \<Longrightarrow> jobs = []"
proof (induction rows arbitrary: d jobs rs)
  case (Cons row rows)
  then show ?case
    by (cases row) (fastforce simp: rbind_Inr_iff reserve_candidate_def selected_units_def Let_def)
qed simp

lemma distinct_row_ids:
  assumes "distinct (map sr_run_id (db_runs d))" and "distinct (map m_id (db_missions d))"
  shows "distinct (row_ids (runs_with_missions P d))"
proof -
  have one: "length (filter (\<lambda>m. m_id m = i \<and> Q m) ms) \<le> 1" if "distinct (map m_id ms)" for i Q ms
    using that
  proof (induction ms)
    case (Cons m ms)
    then have "m_id m = i \<Longrightarrow> filter (\<lambda>m. m_id m = i \<and> Q m) ms = []"
      by (auto simp: filter_empty_conv image_iff)
    with Cons show ?case by auto
  qed simp
  have "distinct (row_ids (concat (map (\<lambda>r. map (Pair r) (filter (\<lambda>m. m_id m = sr_mission_id r \<and> P r m) (db_missions d))) rs)))
      \<and> set (row_ids (concat (map (\<lambda>r. map (Pair r) (filter (\<lambda>m. m_id m = sr_mission_id r \<and> P r m) (db_missions d))) rs)))
        \<subseteq> sr_run_id ` set rs"
    if "distinct (map sr_run_id rs)" for rs
    using that
  proof (induction rs)
    case (Cons r rs)
    let ?ms = "filter (\<lambda>m. m_id m = sr_mission_id r \<and> P r m) (db_missions d)"
    have "?ms = [] \<or> (\<exists>m. ?ms = [m])" using one [OF assms(2), of "sr_mission_id r" "P r"]
      by (cases ?ms) (auto simp: Suc_le_eq)
    with Cons show ?case by auto
  qed simp
  from this [OF assms(1)] show ?thesis by (simp add: runs_with_missions_def)
qed

text \<open>The parts of a successful pass that held the lock.\<close>

lemma reserve_ready_jobs_Inr:
  assumes "reserve_ready_jobs w True free st now d = Inr (jobs, d')"
  obtains prepared d1 limits allocations candidates rs d2 where
    "prepare_candidates w st now
       (collect_pages (nat (st_maximum_candidates_per_pass st)) (candidate_query st free d) [] 0) d = Inr (prepared, d1)"
    "effective_limits st d1 (active_rows d @ prepared) = Inr limits"
    "rmap (allocation_for w) (active_rows d) = Inr allocations" "rmap (candidate_for w st) prepared = Inr candidates"
    "reserve_candidates w st now (select_stage_candidates candidates allocations limits) prepared d1 = Inr (jobs, rs, d2)"
    "sync_runs w now rs d2 = Inr d'"
  using assms by (auto simp: reserve_ready_jobs_def Let_def rbind_Inr_iff)

lemma effective_limits_global: "effective_limits st d rows = Inr l \<Longrightarrow> global_active l = global_active (st_limits st)"
  by (auto simp: effective_limits_def Let_def rbind_Inr_iff)

lemma found_distinct:
  assumes "distinct (map sr_run_id (db_runs d))" and "distinct (map m_id (db_missions d))"
  shows "distinct (row_ids (collect_pages n (candidate_query st free d) [] 0))"
proof -
  have "mset (candidate_query st free d) = mset (runs_with_missions (candidate_row st free d) d)"
    by (simp add: candidate_query_def)
  then have "mset (row_ids (candidate_query st free d)) = mset (row_ids (runs_with_missions (candidate_row st free d) d))"
    by (metis mset_map)
  then have "distinct (row_ids (candidate_query st free d))"
    using distinct_row_ids [OF assms] by (metis mset_eq_imp_distinct_iff)
  then show ?thesis by (simp add: collect_pages_take take_map [symmetric])
qed

text \<open>C2: When a pass reserves any Job, the Pods that all its Jobs may run at once and the resource units of the runs that were active before fit together within the global limit of the configuration.\<close>

theorem reservation_fits_capacity:
  assumes "reserve_ready_jobs w acquired free st now d = Inr (jobs, d')"
    and "distinct (map sr_run_id (db_runs d))" and "distinct (map m_id (db_missions d))"
  shows "jobs = [] \<or> (\<exists>allocations. rmap (allocation_for w) (active_rows d) = Inr allocations
    \<and> sum_list (map job_units jobs) + units_total allocations \<le> global_active (st_limits st))"
proof (cases "acquired \<and> jobs \<noteq> []")
  case False
  with assms(1) show ?thesis by (auto simp: reserve_ready_jobs_def)
next
  case True
  with assms(1) obtain prepared d1 limits allocations candidates rs d2 where
      prep: "prepare_candidates w st now
        (collect_pages (nat (st_maximum_candidates_per_pass st)) (candidate_query st free d) [] 0) d = Inr (prepared, d1)"
      and limits: "effective_limits st d1 (active_rows d @ prepared) = Inr limits"
      and active: "rmap (allocation_for w) (active_rows d) = Inr allocations"
      and cands: "rmap (candidate_for w st) prepared = Inr candidates"
      and res: "reserve_candidates w st now (select_stage_candidates candidates allocations limits) prepared d1
        = Inr (jobs, rs, d2)"
    by (auto elim: reserve_ready_jobs_Inr)
  let ?sel = "select_stage_candidates candidates allocations limits"
  have prepared_distinct: "distinct (row_ids prepared)"
    using prepare_distinct [OF prep] found_distinct [OF assms(2,3)] by blast
  have "\<forall>c \<in> set candidates. allocation_post_init c = Inr ()"
    using rmap_member [OF cands] candidate_for_Inr by blast
  then have pos: "\<forall>c \<in> set ?sel. 1 \<le> al_resource_units c" using selection_units_positive by blast
  have "sum_list (map job_units jobs) \<le> sum_list (map (units_of ?sel) (row_ids prepared))"
    by (rule reserve_candidates_units [OF res pos])
  also have "\<dots> \<le> units_total ?sel" using pos by (intro sum_units_of [OF prepared_distinct]) force
  finally have le: "sum_list (map job_units jobs) \<le> units_total ?sel" .
  have "?sel \<noteq> []" using nothing_selected res True by metis
  from legal_global [OF selection_legal this]
  have "units_total allocations + units_total ?sel \<le> global_active limits"
    by (simp add: units_total_def o_def)
  with le active show ?thesis by (auto simp: effective_limits_global [OF limits])
qed

subsection \<open>Who gets a Job\<close>

lemma jobs_have_rows:
  "reserve_candidates w st now selected rows d = Inr (jobs, rs, d') \<Longrightarrow> j \<in> set jobs \<Longrightarrow>
   \<exists>r' m. (sr_run_id r', m) \<in> row_keys rows \<and> rj_request j = request_for r' m"
proof (induction rows arbitrary: d jobs rs)
  case (Cons row rows)
  obtain r0 m where row: "row = (r0, m)" by fastforce
  from Cons.prems(1) row obtain job r1 d1 others rs' where
      one: "reserve_candidate w st now selected (r0, m) d = Inr (job, r1, d1)"
      and rest: "reserve_candidates w st now selected rows d1 = Inr (others, rs', d')"
      and jobs: "jobs = (case job of None \<Rightarrow> others | Some j \<Rightarrow> j # others)"
    by (auto simp: rbind_Inr_iff)
  show ?case
  proof (cases "j \<in> set others")
    case True
    from Cons.IH [OF rest this] show ?thesis by auto
  next
    case False
    with Cons.prems(2) have "job = Some j" by (auto simp: jobs split: option.splits)
    with one obtain units r2 where shape: "with_parallelism w st units (checked_run now r0) = Inr r2"
        and job: "reserved_job_for w r2 m st = Inr j"
      by (auto elim: reserve_candidate_cases)
    have "rj_request j = request_for r2 m" using job by (auto elim: reserved_job_Inr)
    then show ?thesis using sharded_fields(2) [OF shape] by (intro exI [of _ r2] exI [of _ m]) (simp add: row)
  qed
qed simp

text \<open>C29: Every reserved Job is for a run that was queued, held by no executor and below its dispatch bound, in a mission that was not stopped and an organization that may run; the Job carries the tenant binding of exactly that mission.\<close>

theorem reserved_jobs_are_eligible:
  assumes "reserve_ready_jobs w acquired free st now d = Inr (jobs, d')" and "j \<in> set jobs"
  shows "\<exists>r m. r \<in> set (db_runs d) \<and> m \<in> set (db_missions d) \<and> m_id m = sr_mission_id r
    \<and> sr_status r = Queued \<and> sr_executor r = None \<and> sr_dispatch_attempts r < st_maximum_dispatch_attempts st
    \<and> \<not> mission_stopped m \<and> organization_may_run d m
    \<and> jr_run_id (rj_request j) = sr_run_id r \<and> jr_mission_id (rj_request j) = m_id m
    \<and> jr_organization_id (rj_request j) = m_organization_id m
    \<and> jr_workspace_prefix (rj_request j) = m_workspace_prefix m"
proof -
  have acquired using assms by (auto simp: reserve_ready_jobs_def split: if_split_asm)
  with assms(1) obtain prepared d1 selected rs d2 where
      prep: "prepare_candidates w st now
        (collect_pages (nat (st_maximum_candidates_per_pass st)) (candidate_query st free d) [] 0) d = Inr (prepared, d1)"
      and res: "reserve_candidates w st now selected prepared d1 = Inr (jobs, rs, d2)"
    by (auto elim: reserve_ready_jobs_Inr)
  from jobs_have_rows [OF res assms(2)] obtain r' m where key: "(sr_run_id r', m) \<in> row_keys prepared"
      and request: "rj_request j = request_for r' m"
    by blast
  let ?found = "collect_pages (nat (st_maximum_candidates_per_pass st)) (candidate_query st free d) [] 0"
  have "(sr_run_id r', m) \<in> row_keys ?found" using subsetD [OF prepare_candidates_keys [OF prep, THEN conjunct1] key] .
  then obtain r where row: "(r, m) \<in> set ?found" and same: "sr_run_id r = sr_run_id r'" by auto
  from found_rows [OF row] same show ?thesis
    by (intro exI [of _ r] exI [of _ m]) (simp add: runs_with_missions_iff candidate_row_def request request_for_def)
qed

text \<open>The fan-out decision is durable: when a detection run is split, the plan that the scheduler works with is the plan that every later reading of the run's provenance parses back, and the run is in the phase of its shards.\<close>

theorem fanout_plan_is_durable:
  assumes "prepare_detection_fanout w d r st = Inr (Some plan, r')"
  shows "durable_shard_plan w r' = Inr plan \<and> sharded r' \<and> detection_shard_count w r' = Inr (plan_shard_count plan)"
proof -
  have stage: "sr_stage r = Detection" using assms by (auto simp: prepare_detection_fanout_def split: if_split_asm)
  have "durable_shard_plan w r' = Inr plan \<and> sharded r'"
  proof (cases "detection_phase r = Some DETECTION_SHARDS_PHASE")
    case True
    with assms stage show ?thesis
      by (auto simp: prepare_detection_fanout_def rbind_Inr_iff sharded_def split: if_split_asm)
  next
    case False
    with assms obtain metrics where plan: "fanout_plan w st metrics r = Inr plan" and r': "r' = fanout_run plan r"
      by (auto simp: prepare_detection_fanout_def rbind_Inr_iff split: if_split_asm)
    from plan obtain width height size overlap where
        "build_detection_shard_plan (w_digest w) width height size overlap (st_detection_tiles_per_shard st)
           (st_detection_maximum_tiles st) MAX_DETECTION_SHARDS = Inr plan"
      by (cases "py_or (dget (sr_parameters r) ''ai'') (PDict fmempty)") (auto simp: fanout_plan_def rbind_Inr_iff)
    from parse_built_descriptor [OF this] show ?thesis
      by (simp add: r' fanout_run_def durable_shard_plan_def sharded_def detection_phase_def stage)
  qed
  then show ?thesis by (simp add: detection_shard_count_def)
qed

end
