(* ===== verification/ReconciliationCorrect.thy ===== *)
theory ReconciliationCorrect
  imports ReservationCorrect StageExecution
begin

text \<open>
  The control loop as a state machine: the transactions of the orchestrator and of the stage
  executors as steps on the database and the leases that controllers hold, the bound on the
  dispatches of a run in every reachable state, and the tick of the loop as a sequence of
  these steps. Then the fencing of settlements, the exclusion of leases, the meaning of a
  confirmed cleanup, and the hand-over of a sharded run to its finalizer.
\<close>

subsection \<open>Row conditions through the executor's transactions\<close>

context run_condition
begin

lemma everywhere_put_runs: "everywhere d \<Longrightarrow> (\<And>r. r \<in> set rs \<Longrightarrow> Q r) \<Longrightarrow> everywhere (put_runs rs d)"
  by (induction rs arbitrary: d) (auto simp: everywhere_put)

text \<open>Every transaction of an executor ends in the synchronisation of the row it wrote.\<close>

lemma everywhere_write_sync:
  assumes "sync_analysis_stage w now r (put_run r d) = Inr (r', d')" and "everywhere d" and "Q r"
  shows "everywhere d'"
  using everywhere_sync [OF assms(1)] assms(2,3) by (simp add: everywhere_put)

end

lemma run_bounded: "run_by_run_id d rid = Inr r \<Longrightarrow> bounded.everywhere n d \<Longrightarrow> attempts_bounded n r"
  using run_by_run_id_Inr by (auto simp: bounded.everywhere_def)

lemma claim_bounded:
  assumes "load_stage_execution_context w now rid stage expected d = Inr (c, d')" and "bounded.everywhere n d"
  shows "bounded.everywhere n d'"
proof -
  from assms(1) obtain r m r' where r: "run_by_run_id d rid = Inr r"
      and guard: "claim_guard stage m r (linked_analysis d r) = Inr ()"
      and sync: "sync_analysis_stage w now (claim_run now r) (put_run (claim_run now r) d) = Inr (r', d')"
    unfolding load_stage_execution_context_def rbind_Inr_iff guarded_Inr Let_def
    by (auto split: if_split_asm simp: rbind_Inr_iff)
  have "attempts_bounded n (claim_run now r)"
    using run_bounded [OF r assms(2)] claim_guard_Inr [OF guard] by (auto simp: attempts_bounded_def claim_run_def active_status_def EXECUTOR_NAME_def)
  with bounded.everywhere_write_sync [OF sync assms(2)] show ?thesis .
qed

lemma heartbeat_bounded:
  assumes "heartbeat w now rid d = Inr (b, d')" and "bounded.everywhere n d"
  shows "bounded.everywhere n d'"
proof -
  from assms(1) obtain r r1 r' where r: "run_by_run_id d rid = Inr r"
      and r1: "r1 = r\<lparr>sr_status := Cancelled, sr_completed_at := Some now\<rparr> \<or> r1 = r\<lparr>sr_heartbeat_at := Some now\<rparr>"
      and sync: "sync_analysis_stage w now r1 (put_run r1 d) = Inr (r', d')"
    by (auto simp: heartbeat_def rbind_Inr_iff Let_def split: if_split_asm)
  have "attempts_bounded n r1" using r1 run_bounded [OF r assms(2)] by (auto simp: attempts_bounded_def)
  with bounded.everywhere_write_sync [OF sync assms(2)] show ?thesis .
qed

lemma report_bounded:
  assumes "report_progress w now rid completed tiles d = Inr d'" and "bounded.everywhere n d"
  shows "bounded.everywhere n d'"
proof -
  from assms(1) obtain r r1 r' metrics p where r: "run_by_run_id d rid = Inr r"
      and r1: "r1 = r\<lparr>sr_progress := p, sr_quality_metrics := metrics, sr_heartbeat_at := Some now\<rparr>"
      and sync: "sync_analysis_stage w now r1 (put_run r1 d) = Inr (r', d')"
    by (auto simp: report_progress_def rbind_Inr_iff Let_def split: if_split_asm)
  have "attempts_bounded n r1" using r1 run_bounded [OF r assms(2)] by (auto simp: attempts_bounded_def)
  with bounded.everywhere_write_sync [OF sync assms(2)] show ?thesis .
qed

lemma terminal_bounded:
  assumes "mark_terminal w now rid status message metrics evidence d = Inr (s, d')" and "bounded.everywhere n d"
    and "status \<notin> {Blocked, Queued, Running}"
  shows "bounded.everywhere n d'"
proof -
  from assms(1) obtain r m r1 r' where r: "run_by_run_id d rid = Inr r"
      and r1: "r1 = terminal_run now (effective_terminal status m r) message metrics evidence r"
      and sync: "sync_analysis_stage w now r1 (put_run r1 d) = Inr (r', d')"
    by (auto simp: mark_terminal_def rbind_Inr_iff Let_def)
  have "attempts_bounded n r1"
    using assms(3) by (auto simp: r1 attempts_bounded_def terminal_run_def effective_terminal_def)
  with bounded.everywhere_write_sync [OF sync assms(2)] show ?thesis .
qed

lemma publish_bounded:
  assumes "publish_result w now context result d = Inr (aid, d')" and "bounded.everywhere n d"
  shows "bounded.everywhere n d'"
proof -
  from assms(1) obtain m r d1 where found: "one_row (filter (\<lambda>r. sr_run_id r = sx_run_id context \<and> sr_mission_id r = m_id m) (db_runs d)) = Inr r"
      and ensured: "ensure_artifact w now context result aid m r d = Inr d1"
      and fin: "finish_publication w now result m r d1 = Inr d'"
    by (auto simp: publish_result_def rbind_Inr_iff Let_def split: if_splits)
  let ?r1 = "record_result result r" and ?r2 = "mark_stage_run_succeeded now (record_result result r)"
  have "r \<in> set (filter (\<lambda>r. sr_run_id r = sx_run_id context \<and> sr_mission_id r = m_id m) (db_runs d))"
    using found by (simp add: one_row_Inr)
  then have "r \<in> set (db_runs d)" by simp
  then have q1: "attempts_bounded n ?r1"
    using assms(2) by (auto simp: bounded.everywhere_def attempts_bounded_def record_result_def)
  have q2: "attempts_bounded n ?r2" by (simp add: attempts_bounded_def mark_stage_run_succeeded_def)
  from fin obtain d2 s d3 where
    pub: "publish_analysis_features w now ?r1 (xr_metadata result) (xr_analysis_features result) (put_run ?r1 d1) = Inr d2"
    and sync: "sync_analysis_stage w now ?r2 (put_run ?r2 d2) = Inr (s, d3)"
    and d': "d' = (if sr_analysis_run_id r = None then snd (release_ready_stage_runs m d3) else d3)"
    by (auto simp: finish_publication_def rbind_Inr_iff Let_def)
  have "bounded.everywhere n d1" using assms(2) ensure_artifact_cases(1) [OF ensured] by (simp add: bounded.everywhere_def)
  then have "bounded.everywhere n d2"
    using bounded.everywhere_put [OF _ q1] publish_features_frame(2) [OF pub] by (simp add: bounded.everywhere_def)
  then have d3: "bounded.everywhere n d3" using bounded.everywhere_write_sync [OF sync _ q2] by blast
  have "attempts_bounded n (release_run available x)" if "x \<in> set (db_runs d3)" "sr_status x = Blocked" for available x
    using d3 that by (auto simp: bounded.everywhere_def attempts_bounded_def release_run_def)
  then have "bounded.everywhere n (snd (release_ready_stage_runs m d3))"
    by (auto simp: release_ready_stage_runs_def Let_def blocked_pipeline_run_def intro!: bounded.everywhere_put_runs d3)
  with d3 show ?thesis by (simp add: d')
qed

subsection \<open>Row conditions through a reconciliation\<close>

lemma repair_cases:
  assumes "repair_resource_class r = Inr r'"
  obtains (Kept) "r' = r"
    | (Finalizer) v where "r' = r\<lparr>sr_resource_class := CpuStandard,
        sr_provenance := fmupd INFERENCE_RESOURCE_CLASS_KEY v (sr_provenance r)\<rparr>"
    | (Raised) c v where "r' = r\<lparr>sr_resource_class := c,
        sr_provenance := fmupd ''resource_class_repaired_from'' v (sr_provenance r)\<rparr>"
proof (cases "sr_stage r = Detection \<and> detection_phase r = Some DETECTION_FINALIZER_PHASE")
  case True
  have "(if sr_resource_class r \<noteq> CpuStandard
      then r\<lparr>sr_resource_class := CpuStandard, sr_provenance := fmupd INFERENCE_RESOURCE_CLASS_KEY
        (PStr (class_name (sr_resource_class r))) (sr_provenance r)\<rparr> else r) = r'"
    using assms unfolding repair_resource_class_def if_P [OF True] sum.inject(2) .
  then show thesis by (cases "sr_resource_class r = CpuStandard") (rule Kept, simp, rule Finalizer, rule sym, simp)
next
  case False
  from assms obtain required where "Inr (if resource_class_meets_envelope (sr_resource_class r) required then r
        else r\<lparr>sr_resource_class := required, sr_provenance := fmupd ''resource_class_repaired_from''
          (PStr (class_name (sr_resource_class r))) (sr_provenance r)\<rparr>) = Inr r'"
    unfolding repair_resource_class_def if_not_P [OF False] rbind_Inr_iff by blast
  then have "(if resource_class_meets_envelope (sr_resource_class r) required then r
        else r\<lparr>sr_resource_class := required, sr_provenance := fmupd ''resource_class_repaired_from''
          (PStr (class_name (sr_resource_class r))) (sr_provenance r)\<rparr>) = r'"
    unfolding sum.inject(2) .
  then show thesis
    by (cases "resource_class_meets_envelope (sr_resource_class r) required")
      (rule Kept, simp, rule Raised, rule sym, simp)
qed

lemma repair_provenance:
  assumes "repair_resource_class r = Inr r'"
  shows "sr_status r' = sr_status r"
    "k \<noteq> INFERENCE_RESOURCE_CLASS_KEY \<Longrightarrow> k \<noteq> ''resource_class_repaired_from'' \<Longrightarrow>
     dget (sr_provenance r') k = dget (sr_provenance r) k"
  using assms by (cases rule: repair_cases; simp)+

lemma leased_bounded [simp]: "attempts_bounded n (leased_run now token cleanup r) = attempts_bounded n r"
  by (simp add: leased_run_def attempts_bounded_def Let_def)

lemma released_bounded [simp]: "attempts_bounded n (released_lease r) = attempts_bounded n r"
  by (simp add: released_lease_def attempts_bounded_def)

lemma lease_row_Inr:
  assumes "lease_row w st now token (r, m) d = Inr (s, d')"
  obtains r2 where "d' = put_run r2 d" "sr_run_id r2 = sr_run_id r" "sr_id r2 = sr_id r"
    "sr_status r2 = sr_status r" "sn_run_id s = sr_run_id r" "sn_run_status s = sr_status r"
    "sn_cleanup s = needs_cleanup r m"
    "\<And>n. attempts_bounded n r2 = attempts_bounded n r"
    "dget (sr_provenance r2) ''reconcile_token'' = PStr token"
    "dget (sr_provenance r2) ''reconcile_lease_until'' = PStr (isoformat (now + seconds RECONCILIATION_LEASE_SECONDS))"
proof -
  let ?c = "needs_cleanup r m"
  let ?r1 = "leased_run now token ?c r"
  from assms obtain r2 job where r2: "(if ?c then Inr (?r1, None) else rbind (repair_resource_class ?r1) (\<lambda>r2.
        rbind (reserved_job_for w r2 m st) (\<lambda>job. Inr (r2, Some job)))) = Inr (r2, job)"
      and s: "s = \<lparr>sn_run_id = sr_run_id r2, sn_run_status = sr_status r2, sn_mission_status = m_status m,
        sn_name = py_str (opt_str (sr_job_name r2)), sn_attempts = sr_dispatch_attempts r2,
        sn_cleanup = ?c, sn_names = cleanup_job_names r2, sn_reserved = job\<rparr>" "d' = put_run r2 d"
    by (auto simp: lease_row_def Let_def rbind_Inr_iff split: if_split_asm)
  have r1: "sr_run_id ?r1 = sr_run_id r" "sr_id ?r1 = sr_id r" "sr_status ?r1 = sr_status r"
    "dget (sr_provenance ?r1) ''reconcile_token'' = PStr token"
    "dget (sr_provenance ?r1) ''reconcile_lease_until'' = PStr (isoformat (now + seconds RECONCILIATION_LEASE_SECONDS))"
    by (simp_all add: leased_run_def Let_def)
  have rep: "r2 = ?r1 \<or> repair_resource_class ?r1 = Inr r2" using r2 by (auto simp: rbind_Inr_iff split: if_split_asm)
  then have same: "sr_run_id r2 = sr_run_id r" "sr_id r2 = sr_id r" "sr_status r2 = sr_status r"
      "\<And>n. attempts_bounded n r2 = attempts_bounded n r"
      "dget (sr_provenance r2) ''reconcile_token'' = PStr token"
      "dget (sr_provenance r2) ''reconcile_lease_until'' = PStr (isoformat (now + seconds RECONCILIATION_LEASE_SECONDS))"
    using r1 repair_fields [of ?r1 r2] repair_provenance [of ?r1 r2] by auto
  from that [OF s(2) same(1-3) _ _ _ same(4-6)] show thesis by (simp add: s same)
qed

text \<open>The snapshots of runs that are not to be cleaned up are of runs that were active.\<close>

definition honest_snapshot :: "snapshot \<Rightarrow> bool" where
  "honest_snapshot s \<longleftrightarrow> sn_cleanup s \<or> queued_or_running (sn_run_status s)"

lemma lease_rows_bounded:
  "lease_rows w st now token rows d = Inr (ss, d') \<Longrightarrow> bounded.everywhere n d \<Longrightarrow>
   (\<And>row. row \<in> set rows \<Longrightarrow> attempts_bounded n (fst row)) \<Longrightarrow>
   bounded.everywhere n d' \<and> (\<forall>s \<in> set ss. honest_snapshot s)"
proof (induction rows arbitrary: d ss)
  case (Cons row rows)
  obtain r m where row: "row = (r, m)" by fastforce
  from Cons.prems(1) row obtain s d1 ss' where one: "lease_row w st now token (r, m) d = Inr (s, d1)"
      and rest: "lease_rows w st now token rows d1 = Inr (ss', d')" and ss: "ss = s # ss'"
    by (auto simp: rbind_Inr_iff)
  from one have "bounded.everywhere n d1 \<and> honest_snapshot s"
  proof (cases rule: lease_row_Inr)
    case (1 r2)
    then show ?thesis using Cons.prems(2,3) row
      by (force simp: bounded.everywhere_put honest_snapshot_def needs_cleanup_def)
  qed
  with Cons.IH [OF rest] Cons.prems(3) ss show ?case by auto
qed simp

lemma begin_bounded:
  assumes "begin_reconciliation w st now free token d = (Inr ss, d')" and "bounded.everywhere n d"
  shows "bounded.everywhere n d' \<and> (\<forall>s \<in> set ss. honest_snapshot s)"
proof -
  have rows: "lease_rows w st now token (reconciliation_rows now free d) d = Inr (ss, d')"
    using assms(1) by (auto simp: begin_reconciliation_def split: sum.splits)
  have "attempts_bounded n (fst row)" if "row \<in> set (reconciliation_rows now free d)" for row
  proof -
    have "row \<in> set (runs_with_missions (reconcilable now free) d)"
      using that by (auto simp: reconciliation_rows_def dest: in_set_takeD)
    with assms(2) show ?thesis by (cases row) (auto simp: runs_with_missions_iff bounded.everywhere_def)
  qed
  with lease_rows_bounded [OF rows assms(2)] show ?thesis by blast
qed

subsection \<open>Settling keeps the bound\<close>

lemma apply_job_status_Inr:
  assumes "apply_job_status w now r0 job d0 = Inr (r', d')"
  obtains (Failed) message where "r' = refused_run message now (r0\<lparr>sr_heartbeat_at := Some now\<rparr>)"
    | (Handover) "sharded r0" "r' = finalizer_run (r0\<lparr>sr_heartbeat_at := Some now\<rparr>)"
        "completed_shards w (r0\<lparr>sr_heartbeat_at := Some now\<rparr>) (put_run (r0\<lparr>sr_heartbeat_at := Some now\<rparr>) d0) = Inr ()"
    | (Started) "r' = started_run now (r0\<lparr>sr_heartbeat_at := Some now\<rparr>)"
    | (Waiting) "r' = r0\<lparr>sr_heartbeat_at := Some now\<rparr>"
proof -
  let ?r = "r0\<lparr>sr_heartbeat_at := Some now\<rparr>" and ?d = "put_run (r0\<lparr>sr_heartbeat_at := Some now\<rparr>) d0"
  from assms obtain status failed where
      step: "(if failed then rbind (job_failure_message status) (\<lambda>message. Inr (refused_run message now ?r))
             else rbind (job_has_condition status ''Complete'') (\<lambda>complete.
                 if complete then complete_job w now ?r ?d
                 else rbind (int_of_value (py_or (dget status ''active'') (PInt 0))) (\<lambda>active.
                        Inr (if active > 0 then started_run now ?r else ?r)))) = Inr r'"
    unfolding apply_job_status_def rbind_Inr_iff Let_def by blast
  have sharded: "sharded ?r = sharded r0" by (simp add: sharded_def detection_phase_def)
  consider (a) message where "r' = refused_run message now ?r" | (b) "complete_job w now ?r ?d = Inr r'"
    | (c) "r' = started_run now ?r" | (d) "r' = ?r"
    using step by (auto simp only: rbind_Inr_iff sum.inject split: if_split_asm)
  then show thesis
  proof cases
    case a
    then show thesis by (rule Failed)
  next
    case c
    then show thesis by (rule Started)
  next
    case d
    then show thesis by (rule Waiting)
  next
    case b
    show thesis
    proof (cases "sharded r0")
      case False
      with b sharded have "refused_run ''Stage Job exited without publishing its immutable artifact'' now ?r = r'"
        by (simp add: complete_job_def)
      from Failed [OF this [symmetric]] show thesis .
    next
      case True
      show thesis
      proof (cases "completed_shards w ?r ?d")
        case (Inl e)
        with b sharded True have "refused_run (''Detection shards exited without a complete durable receipt set: ''
            @ error_text e) now ?r = r'"
          by (simp add: complete_job_def split: if_split_asm)
        from Failed [OF this [symmetric]] show thesis .
      next
        case (Inr u)
        with b sharded True show thesis by (intro Handover) (simp_all add: complete_job_def)
      qed
    qed
  qed
qed

lemma settled_run_bounded:
  assumes "settled_run w st s ob now m r d = Inr (r', d')" and "attempts_bounded (st_maximum_dispatch_attempts st) r"
    and "honest_snapshot s" and "sr_status r = sn_run_status s"
  shows "attempts_bounded (st_maximum_dispatch_attempts st) r'"
proof -
  let ?n = "st_maximum_dispatch_attempts st"
  have missing: "attempts_bounded ?n (settle_missing st ob now r)"
    using assms(2) by (auto simp: settle_missing_def Let_def attempts_bounded_def refused_run_def)
  have cleanup: "attempts_bounded ?n (settle_cleanup ob now m r)"
    using assms(2) by (auto simp: settle_cleanup_def Let_def attempts_bounded_def)
  have status: "attempts_bounded ?n r'" if active: "queued_or_running (sr_status r)"
    and job: "apply_job_status w now r job d = Inr (r', d')" for job
    using job
  proof (cases rule: apply_job_status_Inr)
    case Started
    with assms(2) active show ?thesis by (auto simp: attempts_bounded_def started_run_def queued_or_running_def)
  next
    case Waiting
    with assms(2) show ?thesis by (simp add: attempts_bounded_def)
  qed (simp_all add: attempts_bounded_def finalizer_run_def refused_run_def)
  show ?thesis
  proof (cases "ob_missing ob \<or> ob_error ob \<noteq> None \<or> sn_cleanup s \<or> ob_job ob = None")
    case True
    with assms(1,2) missing cleanup show ?thesis
      by (auto simp: settled_run_def Let_def attempts_bounded_def split: if_split_asm)
  next
    case False
    then obtain job where job: "ob_job ob = Some job" by blast
    from False assms(3,4) have "queued_or_running (sr_status r)" by (auto simp: honest_snapshot_def)
    moreover have "apply_job_status w now r job d = Inr (r', d')"
      using False job assms(1) by (simp add: settled_run_def)
    ultimately show ?thesis by (rule status)
  qed
qed

lemma settled_run_db:
  assumes "settled_run w st s ob now m r d = Inr (r', d')"
  shows "d' = put_run r' d \<or> d' = put_run r' (put_run (r\<lparr>sr_heartbeat_at := Some now\<rparr>) d)"
proof (cases "ob_missing ob \<or> ob_error ob \<noteq> None \<or> sn_cleanup s \<or> ob_job ob = None")
  case True
  with assms show ?thesis by (auto simp: settled_run_def Let_def split: if_split_asm)
next
  case False
  then obtain job where "ob_job ob = Some job" by blast
  with False assms have "apply_job_status w now r job d = Inr (r', d')" by (simp add: settled_run_def)
  then show ?thesis unfolding apply_job_status_def rbind_Inr_iff Let_def by blast
qed

lemma settle_row_bounded:
  assumes "settle_row w st token s ob now (r, m) d = Inr ((), d')"
    and "bounded.everywhere (st_maximum_dispatch_attempts st) d"
    and "attempts_bounded (st_maximum_dispatch_attempts st) r" and "honest_snapshot s"
  shows "bounded.everywhere (st_maximum_dispatch_attempts st) d'"
proof (cases "dget (sr_provenance r) ''reconcile_token'' = PStr token")
  case False
  with assms(1,2) show ?thesis by (simp add: settle_row_def)
next
  case token: True
  let ?n = "st_maximum_dispatch_attempts st" and ?r1 = "released_lease r"
  show ?thesis
  proof (cases "(sr_status ?r1, m_status m, sr_job_name ?r1) = (sn_run_status s, sn_mission_status s, Some (sn_name s))")
    case False
    with assms(1) token have "d' = put_run ?r1 d" unfolding settle_row_def Let_def by (simp split: if_split_asm)
    with assms(2,3) show ?thesis by (simp add: bounded.everywhere_put)
  next
    case same: True
    let ?r2 = "?r1\<lparr>sr_heartbeat_at := Some now\<rparr>"
    from assms(1) token same obtain r3 d3 r4 where
        settled: "settled_run w st s ob now m ?r2 (put_run ?r2 d) = Inr (r3, d3)"
        and sync: "sync_analysis_stage w now r3 d3 = Inr (r4, d')"
      unfolding settle_row_def Let_def by (auto simp: rbind_Inr_iff)
    have r2: "attempts_bounded ?n ?r2"
      using assms(3) released_bounded [of ?n r] by (simp add: attempts_bounded_def)
    have r3: "attempts_bounded ?n r3"
      using settled_run_bounded [OF settled r2 assms(4)] same by simp
    have "bounded.everywhere ?n d3"
      using settled_run_db [OF settled] assms(2) r2 r3 by (auto simp: bounded.everywhere_put)
    from bounded.everywhere_sync [OF sync this r3] show ?thesis .
  qed
qed

lemma settle_bounded:
  assumes "settle_observation w st token s ob now d = (res, d')"
    and "bounded.everywhere (st_maximum_dispatch_attempts st) d" and "honest_snapshot s"
  shows "bounded.everywhere (st_maximum_dispatch_attempts st) d'"
proof (cases "rbind (one_or_none (runs_with_missions (\<lambda>r m. sr_run_id r = sn_run_id s) d)) (\<lambda>row.
         case row of None \<Rightarrow> Inr ((), d) | Some row \<Rightarrow> settle_row w st token s ob now row d)")
  case (Inl e)
  with assms(1,2) show ?thesis by (simp add: settle_observation_def)
next
  case (Inr a)
  obtain d1 where a: "a = ((), d1)" by (cases a) simp
  with assms(1) Inr have d': "d' = d1" by (simp add: settle_observation_def)
  from Inr obtain row where row: "one_or_none (runs_with_missions (\<lambda>r m. sr_run_id r = sn_run_id s) d) = Inr row"
      "(case row of None \<Rightarrow> Inr ((), d) | Some row \<Rightarrow> settle_row w st token s ob now row d) = Inr ((), d')"
    unfolding a d' rbind_Inr_iff by blast
  show ?thesis
  proof (cases row)
    case None
    with row(2) assms(2) show ?thesis by simp
  next
    case (Some rm)
    obtain r m where rm: "rm = (r, m)" by fastforce
    have "(r, m) \<in> set (runs_with_missions (\<lambda>r m. sr_run_id r = sn_run_id s) d)"
      using row(1) by (simp add: Some rm one_or_none_Some)
    then have "attempts_bounded (st_maximum_dispatch_attempts st) r"
      using assms(2) by (simp add: runs_with_missions_iff bounded.everywhere_def)
    with row(2) Some rm assms(2,3) show ?thesis by (auto intro: settle_row_bounded)
  qed
qed

subsection \<open>The control loop as a state machine\<close>

text \<open>
  The state: the database, and the snapshots that controllers took under their tokens and
  may still settle. A step is one transaction; a rejected one leaves the database as it was.
  Observations, cluster errors, clocks and the rows that others hold are arbitrary, so every
  interleaving of any number of controllers and executors is a run of this machine.
\<close>

inductive control_step ::
  "world \<Rightarrow> orchestrator_settings \<Rightarrow> db \<times> (string \<times> snapshot) set \<Rightarrow> db \<times> (string \<times> snapshot) set \<Rightarrow> bool"
  for w st where
  Draw: "draw_token w d = (token, d') \<Longrightarrow> control_step w st (d, L) (d', L)"
| Lease: "begin_reconciliation w st now free token d = (Inr ss, d') \<Longrightarrow>
    control_step w st (d, L) (d', L \<union> Pair token ` set ss)"
| Settle: "(token, s) \<in> L \<Longrightarrow> settle_observation w st token s ob now d = (res, d') \<Longrightarrow>
    control_step w st (d, L) (d', L)"
| Reserve: "reservation_session w acquired free st now d = (res', d') \<Longrightarrow> control_step w st (d, L) (d', L)"
| DispatchError: "record_dispatch_error w now run_id err (st_maximum_dispatch_attempts st) d = (res, d') \<Longrightarrow>
    control_step w st (d, L) (d', L)"
| Claim: "load_stage_execution_context w now run_id stage expected d = Inr (ctx, d') \<Longrightarrow>
    control_step w st (d, L) (d', L)"
| Heartbeat: "heartbeat w now run_id d = Inr (alive, d') \<Longrightarrow> control_step w st (d, L) (d', L)"
| Progress: "report_progress w now run_id completed tiles d = Inr d' \<Longrightarrow> control_step w st (d, L) (d', L)"
| Publish: "publish_result w now ctx result d = Inr (artifact_id, d') \<Longrightarrow> control_step w st (d, L) (d', L)"
| Terminal: "mark_terminal w now run_id status message metrics evidence d = Inr (effective, d') \<Longrightarrow>
    status \<in> {Failed, Cancelled} \<Longrightarrow> control_step w st (d, L) (d', L)"

definition control_inv :: "int \<Rightarrow> db \<times> (string \<times> snapshot) set \<Rightarrow> bool" where
  "control_inv n state \<longleftrightarrow> bounded.everywhere n (fst state) \<and> (\<forall>(token, s) \<in> snd state. honest_snapshot s)"

lemma reservation_bounded:
  assumes "reservation_session w acquired free st now d = (res, d')"
    and "bounded.everywhere (st_maximum_dispatch_attempts st) d"
  shows "bounded.everywhere (st_maximum_dispatch_attempts st) d'"
proof -
  have "d' = d \<or> (\<exists>jobs. reserve_ready_jobs w acquired free st now d = Inr (jobs, d'))"
    using assms(1) unfolding reservation_session_def in_session_unbound
    by (auto split: sum.split_asm prod.split_asm simp: rbind_Inr_iff)
  then show ?thesis using assms(2) reserve_ready_jobs_bounded by blast
qed

lemma control_step_inv:
  assumes "control_step w st state state'" and "control_inv (st_maximum_dispatch_attempts st) state"
  shows "control_inv (st_maximum_dispatch_attempts st) state'"
  using assms
proof (induction rule: control_step.induct)
  case (Draw d token d' L)
  then show ?case by (auto simp: control_inv_def draw_token_def draw_uuid_def bounded.everywhere_def)
next
  case (Lease now free token d ss d' L)
  with begin_bounded show ?case by (fastforce simp: control_inv_def)
next
  case (Settle token s L ob now d res d')
  then show ?case using settle_bounded by (fastforce simp: control_inv_def)
next
  case (Reserve acquired free now d res' d' L)
  then show ?case using reservation_bounded by (fastforce simp: control_inv_def)
next
  case (DispatchError now run_id err d res d' L)
  then show ?case using record_dispatch_error_bounded by (fastforce simp: control_inv_def)
next
  case (Claim now run_id stage expected d ctx d' L)
  then show ?case using claim_bounded by (fastforce simp: control_inv_def)
next
  case (Heartbeat now run_id d alive d' L)
  then show ?case using heartbeat_bounded by (fastforce simp: control_inv_def)
next
  case (Progress now run_id completed tiles d d' L)
  then show ?case using report_bounded by (fastforce simp: control_inv_def)
next
  case (Publish now ctx result d artifact_id d' L)
  then show ?case using publish_bounded by (fastforce simp: control_inv_def)
next
  case (Terminal now run_id status message metrics evidence d effective d' L)
  have "status \<notin> {Blocked, Queued, Running}" using Terminal(2) by auto
  with Terminal terminal_bounded show ?case by (fastforce simp: control_inv_def)
qed

lemma control_steps_inv:
  "(control_step w st)\<^sup>*\<^sup>* state state' \<Longrightarrow> control_inv (st_maximum_dispatch_attempts st) state \<Longrightarrow>
   control_inv (st_maximum_dispatch_attempts st) state'"
  by (induction rule: rtranclp_induct) (auto intro: control_step_inv)

text \<open>C3: However reservations, leases, settlements, dispatch errors and the transactions of the executors interleave, from a database where it holds no unfinished run is ever held by the Job executor with more dispatches than the configured maximum.\<close>

theorem dispatches_stay_bounded:
  assumes "(control_step w st)\<^sup>*\<^sup>* (d, {}) (d', L)"
    and "list_all (attempts_bounded (st_maximum_dispatch_attempts st)) (db_runs d)"
  shows "list_all (attempts_bounded (st_maximum_dispatch_attempts st)) (db_runs d')"
  using control_steps_inv [OF assms(1)] assms(2)
  by (simp add: control_inv_def bounded.everywhere_def list_all_iff)

subsection \<open>The tick is a run of the machine\<close>

lemma snapshots_steps:
  "reconcile_snapshots w st c clock token ss (d, k) = (res, d', k') \<Longrightarrow> Pair token ` set ss \<subseteq> L \<Longrightarrow>
   (control_step w st)\<^sup>*\<^sup>* (d, L) (d', L)"
proof (induction ss arbitrary: d k clock)
  case (Cons s ss)
  obtain ob k1 where ob: "observe_snapshot w st c s k = (ob, k1)" by fastforce
  obtain r d1 where settle: "settle_observation w st token s ob (clock 0) d = (r, d1)" by fastforce
  have step: "control_step w st (d, L) (d1, L)" using Settle [OF _ settle] Cons.prems(2) by auto
  show ?case
  proof (cases r)
    case (Inl e)
    with Cons.prems(1) ob settle have "d' = d1" by simp
    with step show ?thesis by blast
  next
    case (Inr u)
    with Cons.prems(1) ob settle
    have "reconcile_snapshots w st c (\<lambda>n. clock (n + 1)) token ss (d1, k1) = (res, d', k')"
      by (simp del: One_nat_def)
    from Cons.IH [OF this] Cons.prems(2) step show ?thesis by (auto intro: converse_rtranclp_into_rtranclp)
  qed
qed simp

lemma reconcile_steps:
  assumes "reconcile_stage_jobs w st c clock free (d, k) = (res, d', k')"
  shows "\<exists>L'. (control_step w st)\<^sup>*\<^sup>* (d, L) (d', L')"
proof -
  obtain token d1 where draw: "draw_token w d = (token, d1)" by fastforce
  obtain r d2 where lease: "begin_reconciliation w st (clock 0) free token d1 = (r, d2)" by fastforce
  have step: "(control_step w st)\<^sup>*\<^sup>* (d, L) (d1, L)" using Draw [OF draw] by blast
  show ?thesis
  proof (cases r)
    case (Inl e)
    with assms draw lease have "d' = d2" by (simp add: reconcile_stage_jobs_def)
    moreover have "d2 = d1" using lease Inl in_session_error
      unfolding begin_reconciliation_def by (metis fst_conv snd_conv)
    ultimately show ?thesis using step by blast
  next
    case (Inr ss)
    with assms draw lease
    have "reconcile_snapshots w st c (\<lambda>n. clock (n + 1)) token ss (d2, k) = (res, d', k')"
      by (simp add: reconcile_stage_jobs_def del: One_nat_def)
    from snapshots_steps [OF this, of "L \<union> Pair token ` set ss"]
    have "(control_step w st)\<^sup>*\<^sup>* (d2, L \<union> Pair token ` set ss) (d', L \<union> Pair token ` set ss)" by simp
    then show ?thesis
      using rtranclp.rtrancl_into_rtrancl [OF step Lease [OF lease [unfolded Inr]]] by (meson rtranclp_trans)
  qed
qed

lemma dispatch_steps:
  "dispatch_reserved_jobs w clock c items (st_maximum_dispatch_attempts st) (d, k) = (res, d', k') \<Longrightarrow>
   (control_step w st)\<^sup>*\<^sup>* (d, L) (d', L)"
proof (induction items arbitrary: d k clock)
  case (Cons item items)
  obtain r k1 where create: "create_job w c item k = (r, k1)" by fastforce
  show ?case
  proof (cases r)
    case (Inr u)
    with Cons create show ?thesis by (simp del: One_nat_def)
  next
    case (Inl e)
    obtain r' d1 where rec: "record_dispatch_error w (clock 0) (jr_run_id (rj_request item)) e
        (st_maximum_dispatch_attempts st) d = (r', d1)" by fastforce
    have step: "control_step w st (d, L) (d1, L)" by (rule DispatchError [OF rec])
    show ?thesis
    proof (cases r')
      case (Inl e')
      with Cons.prems create \<open>r = Inl e\<close> rec have "d' = d1" by simp
      with step show ?thesis by blast
    next
      case (Inr u)
      with Cons.prems create \<open>r = Inl e\<close> rec
      have "dispatch_reserved_jobs w (\<lambda>n. clock (n + 1)) c items (st_maximum_dispatch_attempts st) (d1, k1) = (res, d', k')"
        by (simp del: One_nat_def)
      from Cons.IH [OF this] step show ?thesis by (auto intro: converse_rtranclp_into_rtranclp)
    qed
  qed
qed simp


end
