(* ===== verification/ReconciliationSafety.thy ===== *)
theory ReconciliationSafety
  imports ReconciliationCorrect
begin

text \<open>
  What the reconciliation relies on and guarantees: a settlement under a lost token changes
  nothing, two controllers never hold a lease on the same run, a confirmed cleanup means that
  neither Job nor Pods are left, a sharded run is handed to its finalizer only with a complete
  set of receipts. Two theorems record faults of the code: a run whose Job cannot be rebuilt
  stops the loop for everybody, and the dispatch of a finalizer is not metered.
\<close>

subsection \<open>Fencing\<close>

lemma run_rows_at_most_one:
  assumes "distinct (map sr_run_id (db_runs d))" and "distinct (map m_id (db_missions d))"
  shows "length (runs_with_missions (\<lambda>r m. sr_run_id r = rid) d) \<le> 1"
proof -
  let ?rows = "runs_with_missions (\<lambda>r m. sr_run_id r = rid) d"
  have "set (row_ids ?rows) \<subseteq> {rid}" by (auto simp: runs_with_missions_iff)
  then have "card (set (row_ids ?rows)) \<le> 1" using card_mono [of "{rid}"] by simp
  then show ?thesis using distinct_card [OF distinct_row_ids [OF assms]] by (metis length_map)
qed

text \<open>C5: A controller whose token is no longer on the run (its lease ran out and another controller leased the run, or the lease was released) settles nothing: the database stays exactly as it is, whatever was observed.\<close>

theorem stale_settlement_is_void:
  assumes "distinct (map sr_run_id (db_runs d))" and "distinct (map m_id (db_missions d))"
    and "\<forall>r \<in> set (db_runs d). sr_run_id r = sn_run_id s \<longrightarrow> dget (sr_provenance r) ''reconcile_token'' \<noteq> PStr token"
  shows "settle_observation w st token s ob now d = (Inr (), d)"
proof -
  let ?rows = "runs_with_missions (\<lambda>r m. sr_run_id r = sn_run_id s) d"
  obtain found where found: "one_or_none ?rows = Inr found"
    using one_or_none_at_most_one [OF run_rows_at_most_one [OF assms(1,2)]] by blast
  show ?thesis
  proof (cases found)
    case None
    with found show ?thesis by (simp add: settle_observation_def)
  next
    case (Some row)
    obtain r m where row: "row = (r, m)" by fastforce
    have "(r, m) \<in> set ?rows" using found by (simp add: Some row one_or_none_Some)
    then have "dget (sr_provenance r) ''reconcile_token'' \<noteq> PStr token"
      using assms(3) by (simp add: runs_with_missions_iff)
    with found show ?thesis by (simp add: settle_observation_def Some row settle_row_def)
  qed
qed

subsection \<open>Exclusive leases\<close>

text \<open>The run carries a lease until this instant.\<close>

definition leased_until :: "instant \<Rightarrow> stage_run \<Rightarrow> bool" where
  "leased_until t r \<longleftrightarrow> dget (sr_provenance r) ''reconcile_lease_until'' = PStr (isoformat t)"

text \<open>The two keys of the runs, and that they determine each other.\<close>

definition run_keys :: "db \<Rightarrow> (int \<times> string) set" where
  "run_keys d = (\<lambda>r. (sr_id r, sr_run_id r)) ` set (db_runs d)"

definition keys_agree :: "(int \<times> string) set \<Rightarrow> bool" where
  "keys_agree K \<longleftrightarrow> (\<forall>a \<in> K. \<forall>b \<in> K. fst a = fst b \<longleftrightarrow> snd a = snd b)"

lemma distinct_keys_agree:
  assumes "distinct (map sr_id (db_runs d))" and "distinct (map sr_run_id (db_runs d))"
  shows "keys_agree (run_keys d)"
  using assms by (auto simp: keys_agree_def run_keys_def distinct_map dest: inj_onD)

lemma run_keys_put:
  assumes "keys_agree (run_keys d)" and "(sr_id q, sr_run_id q) \<in> run_keys d"
  shows "run_keys (put_run q d) = run_keys d"
proof (intro equalityI subsetI)
  fix k assume "k \<in> run_keys (put_run q d)"
  then obtain r where "r \<in> set (db_runs (put_run q d))" and k: "k = (sr_id r, sr_run_id r)" by (auto simp: run_keys_def)
  with runs.put_member [of r q d] assms(2) show "k \<in> run_keys d" by (auto simp: run_keys_def)
next
  fix k assume "k \<in> run_keys d"
  then obtain r where r: "r \<in> set (db_runs d)" and k: "k = (sr_id r, sr_run_id r)" by (auto simp: run_keys_def)
  show "k \<in> run_keys (put_run q d)"
  proof (cases "sr_id r = sr_id q")
    case True
    have "(sr_id r, sr_run_id r) \<in> run_keys d" using r by (auto simp: run_keys_def)
    with True assms have "k = (sr_id q, sr_run_id q)" unfolding keys_agree_def k by fastforce
    then show ?thesis using runs.put_present [OF r True] by (auto simp: run_keys_def)
  next
    case False
    then show ?thesis using runs.put_other [OF r] k by (auto simp: run_keys_def)
  qed
qed

definition all_leased :: "instant \<Rightarrow> string set \<Rightarrow> db \<Rightarrow> bool" where
  "all_leased t ids d \<longleftrightarrow> (\<forall>r \<in> set (db_runs d). sr_run_id r \<in> ids \<longrightarrow> leased_until t r)"

lemma all_leased_put:
  assumes "all_leased t ids d" and "leased_until t q" and "keys_agree (run_keys d)"
    and "(sr_id q, sr_run_id q) \<in> run_keys d"
  shows "all_leased t (insert (sr_run_id q) ids) (put_run q d)"
  unfolding all_leased_def
proof (intro ballI impI)
  fix r assume r: "r \<in> set (db_runs (put_run q d))" and id: "sr_run_id r \<in> insert (sr_run_id q) ids"
  from runs.put_member [OF r] show "leased_until t r"
  proof
    assume "r = q"
    with assms(2) show ?thesis by simp
  next
    assume other: "r \<in> set (db_runs d) \<and> sr_id r \<noteq> sr_id q"
    then have "(sr_id r, sr_run_id r) \<in> run_keys d" by (auto simp: run_keys_def)
    with other assms(3,4) have "sr_run_id r \<noteq> sr_run_id q" unfolding keys_agree_def by fastforce
    with id other assms(1) show ?thesis by (simp add: all_leased_def)
  qed
qed

lemma lease_rows_leased:
  "lease_rows w st now token rows d = Inr (ss, d') \<Longrightarrow> keys_agree (run_keys d) \<Longrightarrow>
   \<forall>row \<in> set rows. (sr_id (fst row), sr_run_id (fst row)) \<in> run_keys d \<Longrightarrow>
   all_leased (now + seconds RECONCILIATION_LEASE_SECONDS) ids d \<Longrightarrow>
   all_leased (now + seconds RECONCILIATION_LEASE_SECONDS) (ids \<union> sn_run_id ` set ss) d'"
proof (induction rows arbitrary: d ss ids)
  case (Cons row rows)
  obtain r m where row: "row = (r, m)" by fastforce
  from Cons.prems(1) row obtain s d1 ss' where one: "lease_row w st now token (r, m) d = Inr (s, d1)"
      and rest: "lease_rows w st now token rows d1 = Inr (ss', d')" and ss: "ss = s # ss'"
    by (auto simp: rbind_Inr_iff)
  from one show ?case
  proof (cases rule: lease_row_Inr)
    case (1 q)
    have key: "(sr_id q, sr_run_id q) \<in> run_keys d" using Cons.prems(3) 1(2,3) by (simp add: row)
    have q: "leased_until (now + seconds RECONCILIATION_LEASE_SECONDS) q" using 1(10) by (simp add: leased_until_def)
    have keys: "run_keys d1 = run_keys d" using run_keys_put [OF Cons.prems(2) key] 1(1) by simp
    have "all_leased (now + seconds RECONCILIATION_LEASE_SECONDS) (insert (sn_run_id s) ids) d1"
      using all_leased_put [OF Cons.prems(4) q Cons.prems(2) key] 1(1,2,5) by simp
    from Cons.IH [OF rest _ _ this] Cons.prems(2,3) show ?thesis by (simp add: keys ss insert_commute)
  qed
qed simp

lemma lease_rows_from_rows:
  "lease_rows w st now token rows d = Inr (ss, d') \<Longrightarrow> sn_run_id ` set ss = set (row_ids rows)"
proof (induction rows arbitrary: d ss)
  case (Cons row rows)
  obtain r m where row: "row = (r, m)" by fastforce
  from Cons.prems(1) row obtain s d1 ss' where one: "lease_row w st now token (r, m) d = Inr (s, d1)"
      and rest: "lease_rows w st now token rows d1 = Inr (ss', d')" and ss: "ss = s # ss'"
    by (auto simp: rbind_Inr_iff)
  have "sn_run_id s = sr_run_id r" using one by (auto elim: lease_row_Inr)
  with Cons.IH [OF rest] show ?case by (simp add: ss row)
qed simp

lemma begin_Inr:
  assumes "begin_reconciliation w st now free token d = (Inr ss, d')"
  shows "lease_rows w st now token (reconciliation_rows now free d) d = Inr (ss, d')"
  using assms by (auto simp: begin_reconciliation_def split: sum.splits)

lemma reconciliation_row:
  "(r, m) \<in> set (reconciliation_rows now free d) \<Longrightarrow>
   r \<in> set (db_runs d) \<and> m \<in> set (db_missions d) \<and> m_id m = sr_mission_id r \<and> reconcilable now free r m"
proof -
  assume "(r, m) \<in> set (reconciliation_rows now free d)"
  then have "(r, m) \<in> set (runs_with_missions (reconcilable now free) d)"
    by (auto simp: reconciliation_rows_def dest: in_set_takeD)
  then show ?thesis by (simp add: runs_with_missions_iff)
qed


subsection \<open>Dispatch\<close>

text \<open>C25: Creating a Job succeeds only when the cluster accepted the manifest of the reservation, or when a Job of that name exists already and contains the whole manifest: a foreign or altered Job is never adopted.\<close>

theorem created_jobs_carry_the_manifest:
  assumes "create_job w c reserved k = (Inr (), k')"
  shows "\<exists>job. build_stage_job w (rj_request reserved) (rj_config reserved) = Inr job
    \<and> value_get (dget job ''metadata'') ''name'' = Inr (PStr (rj_job_name reserved))
    \<and> ((\<exists>answer. client_create c job k = (Inr answer, k'))
       \<or> (\<exists>message k1 existing. client_create c job k = (Inl (KubernetesApiError 409 message), k1)
            \<and> client_get c (rj_job_name reserved) k1 = (Inr existing, k') \<and> contains_expected existing (PDict job)))"
proof -
  obtain job where built: "build_stage_job w (rj_request reserved) (rj_config reserved) = Inr job"
      and name: "value_get (dget job ''metadata'') ''name'' = Inr (PStr (rj_job_name reserved))"
    using assms by (auto simp: create_job_def split: sum.split_asm if_split_asm)
  obtain answer k1 where created: "client_create c job k = (answer, k1)" by fastforce
  show ?thesis
  proof (cases answer)
    case (Inr v)
    with assms built name created show ?thesis by (auto simp: create_job_def)
  next
    case (Inl e)
    with assms built name created obtain message where e: "e = KubernetesApiError 409 message"
      by (cases e) (auto simp: create_job_def split: if_split_asm)
    obtain found k2 where got: "client_get c (rj_job_name reserved) k1 = (found, k2)" by fastforce
    with assms built name created Inl e obtain existing where found: "found = Inr existing"
        and same: "stage_job_matches_expected w existing job = Inr True" and k': "k' = k2"
      by (auto simp: create_job_def split: sum.split_asm bool.split_asm)
    obtain d where d: "existing = PDict d"
      using same by (cases existing) (simp_all add: stage_job_matches_expected_def)
    have "contains_expected existing (PDict job)" using same matches_iff_contains [OF built, of d] by (simp add: d)
    with built name created Inl e got found k' show ?thesis by blast
  qed
qed

subsection \<open>A confirmed cleanup\<close>

text \<open>
  What the code relies on of the cluster's API: reading a Job that does not exist answers 404,
  the selector answers with the Pods of a Job, and reading changes nothing.
\<close>

definition honest_cluster :: "'k job_client \<Rightarrow> ('k \<Rightarrow> string set) \<Rightarrow> ('k \<Rightarrow> string set) \<Rightarrow> bool" where
  "honest_cluster c jobs with_pods \<longleftrightarrow>
     (\<forall>k name. (if name \<in> jobs k then (\<exists>job. client_get c name k = (Inr job, k))
               else (\<exists>message. client_get c name k = (Inl (KubernetesApiError 404 message), k)))
        \<and> (\<exists>pods. client_pods_for_job c name k = (Inr pods, k) \<and> (truthy pods \<longleftrightarrow> name \<in> with_pods k)))"

lemma cleanup_unconfirmed: "observe_cleanup c False names k \<noteq> (Inr True, k')"
proof (induction names arbitrary: k)
  case (Cons name names)
  then show ?case
    by (auto split: sum.splits prod.splits)
qed simp

text \<open>C30: A cleanup is confirmed exactly when, for every Job the run ever had, neither the Job nor any of its Pods exists; the confirming observation itself changes nothing in the cluster.\<close>

theorem confirmed_cleanup_means_gone:
  assumes "honest_cluster c jobs with_pods"
  shows "observe_cleanup c True names k = (Inr True, k')
    \<longleftrightarrow> k' = k \<and> (\<forall>name \<in> set names. name \<notin> jobs k \<and> name \<notin> with_pods k)"
proof (induction names arbitrary: k)
  case (Cons name names)
  obtain pods where pods: "client_pods_for_job c name k = (Inr pods, k)" "truthy pods \<longleftrightarrow> name \<in> with_pods k"
    using assms unfolding honest_cluster_def by blast
  show ?case
  proof (cases "name \<in> jobs k")
    case True
    then obtain job where "client_get c name k = (Inr job, k)" using assms unfolding honest_cluster_def by metis
    then have "observe_cleanup c True (name # names) k \<noteq> (Inr True, k')"
      using cleanup_unconfirmed [of c names] by (auto split: sum.splits prod.splits)
    with True show ?thesis by auto
  next
    case False
    then obtain message where "client_get c name k = (Inl (KubernetesApiError 404 message), k)"
      using assms unfolding honest_cluster_def by metis
    then have "observe_cleanup c True (name # names) k = observe_cleanup c (\<not> truthy pods) names k"
      using pods(1) by simp
    with Cons.IH [of k] False pods(2) cleanup_unconfirmed [of c names k k'] show ?thesis
      by (cases "truthy pods") auto
  qed
qed auto

subsection \<open>The hand-over to the finalizer\<close>

text \<open>C27: The status of its Job moves a sharded run to its finalizer only when the complete set of receipts of its durable plan is on record; otherwise the run stays in the phase of its shards, and it fails rather than continue when the Job completed without them.\<close>

theorem finalizer_needs_receipts:
  assumes "apply_job_status w now r job d = Inr (r', d')" and "sharded r"
  shows "(sharded r' \<and> (sr_status r' = sr_status r \<or> sr_status r' = Running \<or> sr_status r' = Failed))
    \<or> (detection_phase r' = Some DETECTION_FINALIZER_PHASE \<and> sr_status r' = Queued \<and> sr_executor r' = None
       \<and> sr_resource_class r' = CpuStandard
       \<and> (\<exists>plan receipts. durable_shard_plan w r = Inr plan
            \<and> complete_detection_shard_receipts (sr_run_id r) plan (put_run (r\<lparr>sr_heartbeat_at := Some now\<rparr>) d) = Inr receipts))"
  using assms(1)
proof (cases rule: apply_job_status_Inr)
  case (Failed message)
  with assms(2) show ?thesis by (simp add: sharded_def detection_phase_def refused_run_def)
next
  case Handover
  from Handover(3) obtain plan receipts where "durable_shard_plan w r = Inr plan"
      "complete_detection_shard_receipts (sr_run_id r) plan (put_run (r\<lparr>sr_heartbeat_at := Some now\<rparr>) d) = Inr receipts"
    by (auto simp: completed_shards_def rbind_Inr_iff durable_shard_plan_def)
  then show ?thesis by (simp add: Handover(2) finalizer_run_def detection_phase_def)
next
  case Started
  with assms(2) show ?thesis by (simp add: sharded_def detection_phase_def started_run_def)
next
  case Waiting
  with assms(2) show ?thesis by (simp add: sharded_def detection_phase_def)
qed

subsection \<open>Two faults\<close>

lemma lease_rows_error:
  assumes "(r, m) \<in> set rows" and "\<And>d. \<exists>e. lease_row w st now token (r, m) d = Inl e"
  shows "\<exists>e. lease_rows w st now token rows d = Inl e"
  using assms(1)
proof (induction rows arbitrary: d)
  case (Cons row rows)
  obtain e where e: "lease_row w st now token (r, m) d = Inl e" using assms(2) by blast
  show ?case
  proof (cases "lease_row w st now token row d")
    case (Inl e')
    then show ?thesis by simp
  next
    case (Inr a)
    with e Cons.prems have "(r, m) \<in> set rows" by auto
    then obtain e' where "lease_rows w st now token rows (snd a) = Inl e'" using Cons.IH by blast
    with Inr show ?thesis by (cases a) simp
  qed
qed simp

lemma draw_token_frame:
  "draw_token w d = (token, d1) \<Longrightarrow> db_runs d1 = db_runs d \<and> db_missions d1 = db_missions d
     \<and> db_usage d1 = db_usage d \<and> db_organizations d1 = db_organizations d"
  by (auto simp: draw_token_def draw_uuid_def)

text \<open>When the Job of one due run cannot be rebuilt under the present settings (its stage's work drive was removed, say), the whole tick fails before any run is reconciled, reserved or dispatched; no row changes, so the next tick meets the same run again.\<close>

theorem invalid_run_stops_the_loop:
  assumes "(r, m) \<in> set (reconciliation_rows (reconcile_clock 0) free d)" and "\<not> needs_cleanup r m"
    and "\<And>token. \<exists>r2 e. repair_resource_class (leased_run (reconcile_clock 0) token False r) = Inr r2
      \<and> reserved_job_for w r2 m st = Inl (ValueError e)"
  shows "\<exists>e d'. orchestrator_tick w acquired free st c reconcile_clock now dispatch_clock (d, k) = (Inl e, d', k)
    \<and> db_runs d' = db_runs d \<and> db_usage d' = db_usage d"
proof -
  obtain token d1 where draw: "draw_token w d = (token, d1)" by fastforce
  note frame = draw_token_frame [OF draw]
  have rows: "reconciliation_rows (reconcile_clock 0) free d1 = reconciliation_rows (reconcile_clock 0) free d"
    using frame by (simp add: reconciliation_rows_def runs_with_missions_def)
  have "\<exists>e. lease_row w st (reconcile_clock 0) token (r, m) d2 = Inl e" for d2
    using assms(3) [of token] assms(2) by (auto simp: lease_row_def Let_def)
  from lease_rows_error [OF assms(1) this] obtain e where
      "lease_rows w st (reconcile_clock 0) token (reconciliation_rows (reconcile_clock 0) free d) d1 = Inl e"
    by blast
  then have "begin_reconciliation w st (reconcile_clock 0) free token d1 = (Inl e, d1)"
    by (simp add: begin_reconciliation_def rows)
  then have "reconcile_stage_jobs w st c reconcile_clock free (d, k) = (Inl e, d1, k)"
    by (simp add: reconcile_stage_jobs_def draw)
  with frame show ?thesis by (simp add: orchestrator_tick_def)
qed

text \<open>The dispatch of a finalizer is not metered: the hand-over resets the dispatch counter that is part of the key of the usage event, so after a first dispatch of the shards the event of the finalizer's first dispatch is taken for a repetition and the ledger stays as it was.\<close>

theorem finalizer_dispatch_not_metered:
  assumes "distinct (usage_keys d)" and "x \<in> set (db_usage d)"
    and "ue_idempotency_key x = Some (scheduled_key (r\<lparr>sr_dispatch_attempts := 1\<rparr>))"
  shows "append_usage_event w (scheduled_entry (scheduled_run w now architecture units (finalizer_run r)) m units) d
    = Inr (x, d)"
proof -
  let ?key = "scheduled_key (r\<lparr>sr_dispatch_attempts := 1\<rparr>)"
  let ?xs = "filter (\<lambda>x. ue_idempotency_key x = Some ?key) (db_usage d)"
  have "x \<in> set ?xs" using assms(2,3) by simp
  moreover have "length ?xs \<le> 1" using distinct_keys_at_most_one [OF assms(1)] .
  ultimately have "?xs = [x]" by (cases ?xs) (auto simp: Suc_le_eq)
  moreover have "un_idempotency_key (scheduled_entry (scheduled_run w now architecture units (finalizer_run r)) m units)
      = Some ?key"
    by (simp add: scheduled_entry_def scheduled_key_def scheduled_run_def finalizer_run_def)
  ultimately show ?thesis by (simp add: append_usage_event_def one_or_none_Some)
qed

end
