(* ===== verification/ControlLoopExamples.thy ===== *)
theory ControlLoopExamples
  imports ReconciliationSafety
begin

text \<open>
  The theorems on the control loop at concrete inputs: one organization with a mission whose
  reconstruction waits, the settings of a deployment, a cluster that stores the
  Jobs it accepts.
\<close>

definition example_stage_executor :: executor_config where
  "example_stage_executor =
     \<lparr>ex_image = ''registry/stage'', ex_command = [''run''], ex_gpu_architecture = PStr ''ada'',
      ex_node_selector = [(''zone'', PStr ''a'')], ex_tolerations = []\<rparr>"

definition example_settings :: orchestrator_settings where
  "example_settings =
     \<lparr>st_enabled = True, st_namespace = ''drone-ai'', st_poll_seconds = 5,
      st_limits = \<lparr>global_active = 4, per_owner_active = 2, per_mission_active = 2,
        resource_active = [GpuGeometry \<mapsto> 1], owner_active = fmempty\<rparr>,
      st_executors = map (\<lambda>stage. (stage, example_stage_executor)) STAGE_ORDER,
      st_job_environment = [(''S3_BUCKET'', ''b'')],
      st_job_secret_environment = [\<lparr>se_name = ''DATABASE_URL'', se_secret_name = ''s'', se_secret_key = ''k''\<rparr>],
      st_job_secret_environment_by_stage = [], st_detection_environment = [], st_detection_secret_environment = [],
      st_service_account_name = ''stage-job-sa'', st_active_deadline_seconds = 86400,
      st_ttl_seconds_after_finished = 3600, st_runtime_class_name = None, st_maximum_dispatch_attempts = 3,
      st_maximum_candidates_per_pass = 5000, st_detection_fanout_enabled = False,
      st_detection_tiles_per_shard = 1024, st_detection_shard_parallelism = 2, st_detection_maximum_tiles = MAX_DETECTION_TILES,
      st_work_drives = [], st_work_drive_default = None\<rparr>"

definition example_control_world :: world where
  "example_control_world =
     \<lparr>w_digest = (\<lambda>v. replicate 64 CHR ''d''), w_sha256 = \<lambda>s. replicate 64 CHR ''a'', w_uuid4 = nat_text,
      w_uuid5 = \<lambda>s. s, w_coordinate = py_str\<rparr>"

definition example_organization :: organization where
  "example_organization = \<lparr>og_id = ''acme'', og_display_name = ''Acme'', og_status = OrganizationActive, og_created_by = ''root'', og_updated_by = ''root''\<rparr>"

definition example_waiting :: db where
  "example_waiting = example_pipeline\<lparr>db_organizations := [example_organization], db_policies := [example_policy]\<rparr>"

subsection \<open>A cluster\<close>

text \<open>The state is the list of the addresses of its Jobs; Pods vanish with their Job.\<close>

definition example_client :: "string list job_client" where
  "example_client =
     \<lparr>kc_namespace = ''drone-ai'', kc_host = ''api'', kc_port = ''443'',
      kc_call = (\<lambda>method url payload k.
        if method = ''POST'' then
          (Inr PNone, (case payload of
             Some (PDict job) \<Rightarrow>
               (case value_get (dget job ''metadata'') ''name'' of
                  Inr (PStr name) \<Rightarrow> [url @ ''/'' @ name] | _ \<Rightarrow> []) @ k | _ \<Rightarrow> k))
        else if method = ''DELETE'' then (Inr PNone, removeAll url k)
        else if starts_with ''https://api:443/api/v1/'' url then (Inr (PDict fmempty), k)
        else if url \<in> set k then (Inr (json_object [(''metadata'', json_object [(''uid'', PStr ''u'')])]), k)
        else (Inl (KubernetesApiError 404 ''not found''), k))\<rparr>"

definition example_jobs :: "string list \<Rightarrow> string set" where
  "example_jobs k = {name. jobs_url example_client @ ''/'' @ name \<in> set k}"

lemma example_honest: "honest_cluster example_client example_jobs (\<lambda>_. {})"
proof -
  have "client_get example_client name k =
      (if name \<in> example_jobs k then (Inr (json_object [(''metadata'', json_object [(''uid'', PStr ''u'')])]), k)
       else (Inl (KubernetesApiError 404 ''not found''), k))" for name k
    by (simp add: client_get_def example_jobs_def example_client_def jobs_url_def starts_with_def)
  moreover have "client_pods_for_job example_client name k = (Inr (PList []), k)" for name k
    by (simp add: client_pods_for_job_def example_client_def pods_url_def starts_with_def value_get_def as_dict_def
        py_or_def)
  ultimately show ?thesis by (simp add: honest_cluster_def)
qed

subsection \<open>Reservation\<close>

theorem repair_gives_adequate_class_witness:
  "\<exists>r'. repair_resource_class (example_run\<lparr>sr_resource_class := CpuStandard\<rparr>) = Inr r'
    \<and> resource_class_meets_envelope (sr_resource_class r') GpuGeometry \<and> repair_resource_class r' = Inr r'"
proof -
  let ?r = "example_run\<lparr>sr_resource_class := CpuStandard\<rparr>"
  have "\<not> isl (repair_resource_class ?r)" by code_simp
  then obtain r' where r': "repair_resource_class ?r = Inr r'" by (cases "repair_resource_class ?r") auto
  moreover have "resource_class_for_stage (sr_stage ?r) (sr_parameters ?r) = Inr GpuGeometry" by code_simp
  moreover have "detection_phase ?r \<noteq> Some DETECTION_FINALIZER_PHASE" by code_simp
  ultimately show ?thesis using repair_gives_adequate_class [of ?r r' GpuGeometry] by blast
qed

abbreviation example_reservation :: "(reserved_job list \<times> db) res" where
  "example_reservation \<equiv>
     reserve_ready_jobs example_control_world True (\<lambda>_. True) example_settings 5 example_waiting"

text \<open>One evaluation serves every example of a reservation.\<close>

lemma example_pass:
  "case example_reservation of
     Inr ([j], d') \<Rightarrow> map sr_executor (db_runs d') = [Some EXECUTOR_NAME, None]
       \<and> \<not> isl (observe_queue example_control_world example_settings 5 d')
       \<and> \<not> isl (fst (create_job example_control_world example_client j []))
   | _ \<Rightarrow> False"
  by code_simp

lemma example_reserved:
  obtains j d' queue k' where "example_reservation = Inr ([j], d')"
    "map sr_executor (db_runs d') = [Some EXECUTOR_NAME, None]"
    "observe_queue example_control_world example_settings 5 d' = Inr queue"
    "create_job example_control_world example_client j [] = (Inr (), k')"
proof -
  from example_pass obtain j d' where r: "example_reservation = Inr ([j], d')"
      and e: "map sr_executor (db_runs d') = [Some EXECUTOR_NAME, None]"
      and q: "\<not> isl (observe_queue example_control_world example_settings 5 d')"
      and c: "\<not> isl (fst (create_job example_control_world example_client j []))"
    by (auto split: sum.split_asm prod.split_asm list.split_asm)
  obtain queue where "observe_queue example_control_world example_settings 5 d' = Inr queue"
    using q by (cases "observe_queue example_control_world example_settings 5 d'") auto
  moreover obtain k' where "create_job example_control_world example_client j [] = (Inr (), k')"
    using c by (cases "create_job example_control_world example_client j []";
      cases "fst (create_job example_control_world example_client j [])") auto
  ultimately show thesis by (rule that [OF r e])
qed

lemma example_waiting_keys:
  "distinct (map sr_run_id (db_runs example_waiting))" "distinct (map m_id (db_missions example_waiting))"
  "distinct (map sr_id (db_runs example_waiting))"
  by code_simp+

theorem reservation_fits_capacity_witness:
  "\<exists>j d'. \<exists>allocations :: stage_allocation list. example_reservation = Inr ([j], d')
    \<and> sum_list (map job_units [j]) + units_total allocations \<le> global_active (st_limits example_settings)"
proof -
  obtain j d' where r: "example_reservation = Inr ([j], d')" by (rule example_reserved)
  from reservation_fits_capacity [OF r example_waiting_keys(1,2)] obtain allocations :: "stage_allocation list" where
      "sum_list (map job_units [j]) + units_total allocations \<le> global_active (st_limits example_settings)"
    by auto
  with r show ?thesis by blast
qed

theorem reserved_jobs_are_eligible_witness:
  "\<exists>j d' m. example_reservation = Inr ([j], d') \<and> m \<in> set (db_missions example_waiting)
    \<and> jr_organization_id (rj_request j) = m_organization_id m"
proof -
  obtain j d' where r: "example_reservation = Inr ([j], d')" by (rule example_reserved)
  from reserved_jobs_are_eligible [OF r, of j] r show ?thesis by auto
qed

definition example_raster_db :: db where
  "example_raster_db = example_waiting\<lparr>
     db_runs := [example_run\<lparr>sr_stage := Rasterization, sr_status := Succeeded,
       sr_quality_metrics := fmap_of_list [(''width'', PInt 10), (''height'', PInt 7)]\<rparr>],
     db_artifacts := [example_artifact\<lparr>ma_kind := ''raster_product_workspace''\<rparr>]\<rparr>"

definition example_detection :: stage_run where
  "example_detection = example_run\<lparr>sr_id := 2, sr_run_id := ''r2'', sr_stage := Detection,
     sr_upstream_artifact_ids := [''a1''],
     sr_parameters := fmap_of_list [(''ai'', json_object [(''tile_size'', PInt 4), (''tile_overlap'', PInt 1)])]\<rparr>"

definition example_fanout_settings :: orchestrator_settings where
  "example_fanout_settings =
     example_settings\<lparr>st_detection_fanout_enabled := True, st_detection_tiles_per_shard := 2\<rparr>"

theorem fanout_plan_is_durable_witness:
  "\<exists>plan r'. prepare_detection_fanout example_control_world example_raster_db example_detection example_fanout_settings
      = Inr (Some plan, r') \<and> durable_shard_plan example_control_world r' = Inr plan \<and> 2 \<le> plan_shard_count plan"
proof -
  let ?f = "prepare_detection_fanout example_control_world example_raster_db example_detection example_fanout_settings"
  have "(case ?f of Inr (Some plan, r') \<Rightarrow> 2 \<le> plan_shard_count plan | _ \<Rightarrow> False)" by code_simp
  then obtain plan r' where r: "?f = Inr (Some plan, r')" and n: "2 \<le> plan_shard_count plan"
    by (auto split: sum.splits prod.splits option.splits)
  from fanout_plan_is_durable [OF r] r n show ?thesis by blast
qed

subsection \<open>Jobs and cleanup\<close>

theorem confirmed_cleanup_means_gone_witness:
  "observe_cleanup example_client True [''job''] [] = (Inr True, [])
    \<and> observe_cleanup example_client True [''job''] [jobs_url example_client @ ''/job''] \<noteq> (Inr True, [])"
  using confirmed_cleanup_means_gone [OF example_honest, of "[''job'']" "[]" "[]"]
    confirmed_cleanup_means_gone [OF example_honest, of "[''job'']" "[jobs_url example_client @ ''/job'']" "[]"]
  by (simp add: example_jobs_def)

theorem created_jobs_carry_the_manifest_witness:
  "\<exists>j d' k' job. example_reservation = Inr ([j], d') \<and> create_job example_control_world example_client j [] = (Inr (), k')
    \<and> build_stage_job example_control_world (rj_request j) (rj_config j) = Inr job
    \<and> value_get (dget job ''metadata'') ''name'' = Inr (PStr (rj_job_name j))"
proof -
  obtain j d' k' where r: "example_reservation = Inr ([j], d')"
      and c: "create_job example_control_world example_client j [] = (Inr (), k')"
    by (rule example_reserved)
  from created_jobs_carry_the_manifest [OF c] r c show ?thesis by blast
qed

subsection \<open>The state machine\<close>

theorem dispatches_stay_bounded_witness:
  "\<exists>d'. (control_step example_control_world example_settings)\<^sup>*\<^sup>* (example_waiting, {}) (d', {})
    \<and> map sr_executor (db_runs d') = [Some EXECUTOR_NAME, None]
    \<and> list_all (attempts_bounded (st_maximum_dispatch_attempts example_settings)) (db_runs d')"
proof -
  obtain j d' queue where r: "example_reservation = Inr ([j], d')"
      and e: "map sr_executor (db_runs d') = [Some EXECUTOR_NAME, None]"
      and q: "observe_queue example_control_world example_settings 5 d' = Inr queue"
    by (rule example_reserved)
  have session: "reservation_session example_control_world True (\<lambda>_. True) example_settings 5 example_waiting
      = (Inr ([j], queue), d')"
    by (simp add: reservation_session_def r q)
  have steps: "(control_step example_control_world example_settings)\<^sup>*\<^sup>* (example_waiting, {}) (d', {})"
    by (rule r_into_rtranclp) (rule Reserve [OF session])
  have "list_all (attempts_bounded (st_maximum_dispatch_attempts example_settings)) (db_runs example_waiting)"
    by code_simp
  note bounded = dispatches_stay_bounded [OF steps this]
  show ?thesis by (rule exI [of _ d'], intro conjI steps e bounded)
qed


subsection \<open>Leases and settlements\<close>

definition example_held :: stage_run where
  "example_held = example_run\<lparr>sr_status := Running, sr_executor := Some EXECUTOR_NAME, sr_job_name := Some ''job'',
     sr_dispatch_attempts := 1\<rparr>"

definition example_held_db :: db where
  "example_held_db = example_waiting\<lparr>db_runs := [example_held]\<rparr>"

abbreviation example_begin :: "instant \<Rightarrow> string \<Rightarrow> db \<Rightarrow> snapshot list res \<times> db" where
  "example_begin \<equiv> (\<lambda>now. begin_reconciliation example_control_world example_settings now (\<lambda>_. True))"

definition example_snapshot :: snapshot where
  "example_snapshot = \<lparr>sn_run_id = ''r1'', sn_run_status = Running, sn_mission_status = MissionProcessing,
     sn_name = ''job'', sn_attempts = 1, sn_cleanup = False, sn_names = [], sn_reserved = None\<rparr>"

theorem stale_settlement_is_void_witness:
  "settle_observation example_control_world example_settings ''a'' example_snapshot no_observation 9
     (example_held_db\<lparr>db_runs := [leased_run 7 ''b'' False example_held]\<rparr>)
   = (Inr (), example_held_db\<lparr>db_runs := [leased_run 7 ''b'' False example_held]\<rparr>)"
  by (rule stale_settlement_is_void)
    (simp_all add: example_held_db_def example_waiting_def example_pipeline_def leased_run_def Let_def)


definition example_sharded :: stage_run where
  "example_sharded = example_shard_run\<lparr>sr_provenance :=
     fmupd DETECTION_PHASE_KEY (PStr DETECTION_SHARDS_PHASE) (sr_provenance example_shard_run)\<rparr>"

definition example_receipts_db :: db where
  "example_receipts_db =
     example_shard_db (map (\<lambda>i. (example_receipt i)\<lparr>dr_tile_count := shard_tile_count (pl_shards example_shard_plan ! nat i)\<rparr>)
       [0, 1, 2])\<lparr>db_runs := [example_sharded]\<rparr>"

definition example_complete_job :: pyval where
  "example_complete_job = json_object [(''status'', json_object [(''conditions'',
     PList [json_object [(''type'', PStr ''Complete''), (''status'', PStr ''True'')]])])]"

theorem finalizer_needs_receipts_witness:
  "\<exists>r' d' receipts. apply_job_status example_control_world 9 example_sharded example_complete_job example_receipts_db
      = Inr (r', d') \<and> detection_phase r' = Some DETECTION_FINALIZER_PHASE
    \<and> complete_detection_shard_receipts ''r1'' example_shard_plan
        (put_run (example_sharded\<lparr>sr_heartbeat_at := Some 9\<rparr>) example_receipts_db) = Inr receipts"
proof -
  let ?a = "apply_job_status example_control_world 9 example_sharded example_complete_job example_receipts_db"
  have "(case ?a of Inr (r', d') \<Rightarrow> detection_phase r' = Some DETECTION_FINALIZER_PHASE | _ \<Rightarrow> False)" by code_simp
  then obtain r' d' where a: "?a = Inr (r', d')" and phase: "detection_phase r' = Some DETECTION_FINALIZER_PHASE"
    by (auto split: sum.splits prod.splits)
  have sharded: "sharded example_sharded" by code_simp
  have plan: "durable_shard_plan example_control_world example_sharded = Inr example_shard_plan" by code_simp
  have "\<not> sharded r'" using phase by (simp add: sharded_def)
  with finalizer_needs_receipts [OF a sharded] plan obtain receipts where
      "complete_detection_shard_receipts (sr_run_id example_sharded) example_shard_plan
        (put_run (example_sharded\<lparr>sr_heartbeat_at := Some 9\<rparr>) example_receipts_db) = Inr receipts"
    by auto
  moreover have "sr_run_id example_sharded = ''r1''" by code_simp
  ultimately show ?thesis using a phase by auto
qed

text \<open>The run asks for a drive that the settings no longer have.\<close>

definition example_moved_settings :: orchestrator_settings where
  "example_moved_settings = example_settings\<lparr>st_work_drives :=
     [(''ssd2'', \<lparr>wv_source = [(''emptyDir'', PDict fmempty)]\<rparr>)]\<rparr>"

definition example_moved_run :: stage_run where
  "example_moved_run = example_held\<lparr>sr_parameters := fmap_of_list [(''work_drive'', PStr ''ssd1'')]\<rparr>"

definition example_moved_db :: db where
  "example_moved_db = example_waiting\<lparr>db_runs := [example_moved_run]\<rparr>"

theorem invalid_run_stops_the_loop_witness:
  "\<exists>e d'. orchestrator_tick example_control_world True (\<lambda>_. True) example_moved_settings example_client int 9 int
      (example_moved_db, []) = (Inl e, d', []) \<and> db_runs d' = db_runs example_moved_db
    \<and> db_usage d' = db_usage example_moved_db"
proof (rule invalid_run_stops_the_loop)
  have "map (\<lambda>row. sr_run_id (fst row)) (reconciliation_rows (int 0) (\<lambda>_. True) example_moved_db) = [''r1'']" by code_simp
  then obtain r m where one: "reconciliation_rows (int 0) (\<lambda>_. True) example_moved_db = [(r, m)]"
    by (cases "reconciliation_rows (int 0) (\<lambda>_. True) example_moved_db") auto
  have "r \<in> set (db_runs example_moved_db)" "m \<in> set (db_missions example_moved_db)"
    using reconciliation_row [of r m "int 0" "\<lambda>_. True" example_moved_db] unfolding one by simp_all
  then have "(r, m) = (example_moved_run, example_mission)"
    by (simp add: example_moved_db_def example_waiting_def example_pipeline_def)
  then show "(example_moved_run, example_mission) \<in> set (reconciliation_rows (int 0) (\<lambda>_. True) example_moved_db)"
    unfolding one by simp
next
  show "\<not> needs_cleanup example_moved_run example_mission" by code_simp
next
  fix token
  have "(case repair_resource_class (leased_run (int 0) token False example_moved_run) of
      Inr r2 \<Rightarrow> (case reserved_job_for example_control_world r2 example_mission example_moved_settings of
        Inl (ValueError e) \<Rightarrow> True | _ \<Rightarrow> False) | _ \<Rightarrow> False)"
    by code_simp
  then show "\<exists>r2 e. repair_resource_class (leased_run (int 0) token False example_moved_run) = Inr r2
      \<and> reserved_job_for example_control_world r2 example_mission example_moved_settings = Inl (ValueError e)"
    by (auto split: sum.splits py_error.splits)
qed

definition example_scheduled :: stage_run where
  "example_scheduled = scheduled_run example_control_world 5 PNone 2 example_sharded"

definition example_metered :: db where
  "example_metered = snd (projr (append_usage_event example_control_world
     (scheduled_entry example_scheduled example_mission 2) example_receipts_db))"

theorem finalizer_dispatch_not_metered_witness:
  "\<exists>x. db_usage example_metered = [x]
    \<and> append_usage_event example_control_world
        (scheduled_entry (scheduled_run example_control_world 9 PNone 1 (finalizer_run example_scheduled)) example_mission 1)
        example_metered = Inr (x, example_metered)"
proof -
  have "map ue_idempotency_key (db_usage example_metered)
      = [Some (scheduled_key (example_scheduled\<lparr>sr_dispatch_attempts := 1\<rparr>))]" by code_simp
  then obtain x where x: "db_usage example_metered = [x]"
      "ue_idempotency_key x = Some (scheduled_key (example_scheduled\<lparr>sr_dispatch_attempts := 1\<rparr>))"
    by (cases "db_usage example_metered") auto
  have "distinct (usage_keys example_metered)" by code_simp
  from finalizer_dispatch_not_metered [OF this _ x(2)] x(1) show ?thesis by simp
qed

end
