(* ===== verification/ArtifactManifests.thy ===== *)
theory ArtifactManifests
  imports ShardReceipts
begin

text \<open>
  Workspace artifact manifests (\<open>shared/artifact_manifest.py\<close>) and the plan of a collection
  of content-addressed blobs (\<open>shared/cas_gc.py\<close>): parsing and canonical serialisation of
  version 3, the rejection of parent cycles, and mark and sweep over the manifests.

  The JSON reader and writer are parameters. Recursion and loops run over the finite map of
  the supplied manifests, an association list.
\<close>

subsection \<open>Manifests\<close>

record manifest_blob =
  mb_key :: string
  mb_size_bytes :: int
  mb_checksum_sha256 :: string

record manifest_file =
  mf_path :: string
  mf_role :: string
  mf_blob :: manifest_blob

record manifest_parent =
  mp_artifact_id :: string
  mp_manifest_key :: string
  mp_checksum_sha256 :: string

record artifact_manifest =
  am_schema_version :: int
  am_files :: "manifest_file list"
  am_parents :: "manifest_parent list"
  am_organization_id :: string

subsection \<open>Parsing\<close>

definition value_object :: "pyval \<Rightarrow> string \<Rightarrow> dict res" where
  "value_object v path = (case v of PDict d \<Rightarrow> Inr d | _ \<Rightarrow> Inl (ValueError (path @ '' must be an object'')))"

definition names_text :: "string list \<Rightarrow> string" where
  "names_text names = ''['' @ join_text '', '' (map (\<lambda>n. [CHR 0x27] @ n @ [CHR 0x27]) names) @ '']''"

definition exact_keys :: "dict \<Rightarrow> string list \<Rightarrow> string \<Rightarrow> unit res" where
  "exact_keys d expected path =
     (if fmdom d = fset_of_list expected then Inr ()
      else
        (let missing = filter (\<lambda>k. k |\<notin>| fmdom d) (sort expected);
             unknown = filter (\<lambda>k. k \<notin> set expected) (sorted_list_of_fset (fmdom d));
             details = (if missing = [] then [] else [''missing='' @ names_text missing])
               @ (if unknown = [] then [] else [''unknown='' @ names_text unknown])
         in Inl (ValueError (path @ '' fields are invalid ('' @ join_text '', '' details @ '')''))))"

definition safe_relative_path :: "pyval \<Rightarrow> string \<Rightarrow> string res" where
  "safe_relative_path v path =
     (case v of
        PStr s \<Rightarrow>
          (if s = [] \<or> CHR 0x5C \<in> set s
           then Inl (ValueError (path @ '' must be a non-empty POSIX relative path''))
           else if \<not> canonical_key s then Inl (ValueError (path @ '' is unsafe: '' @ s))
           else Inr s)
      | _ \<Rightarrow> Inl (ValueError (path @ '' must be a non-empty POSIX relative path'')))"

definition safe_object_key :: "pyval \<Rightarrow> string \<Rightarrow> string res" where
  "safe_object_key v path =
     rbind (safe_relative_path v path) (\<lambda>key.
       if contains_sub ''://'' key then Inl (ValueError (path @ '' must be an object key, not a URI''))
       else Inr key)"

definition sha256_value :: "pyval \<Rightarrow> string \<Rightarrow> string res" where
  "sha256_value v path =
     (case v of
        PStr s \<Rightarrow> (if is_lower_sha256 s then Inr s else Inl (ValueError (path @ '' must be a lower-case SHA-256'')))
      | _ \<Rightarrow> Inl (ValueError (path @ '' must be a lower-case SHA-256'')))"

definition size_value :: "pyval \<Rightarrow> string \<Rightarrow> int res" where
  "size_value v path =
     (case v of
        PInt i \<Rightarrow> (if i < 0 then Inl (ValueError (path @ '' must be a non-negative integer'')) else Inr i)
      | _ \<Rightarrow> Inl (ValueError (path @ '' must be a non-negative integer'')))"

definition versioned_blob :: "pyval \<Rightarrow> string \<Rightarrow> string \<Rightarrow> manifest_blob res" where
  "versioned_blob v path organization_id =
     rbind (value_object v path) (\<lambda>blob.
     rbind (exact_keys blob [''key'', ''size'', ''sha256''] path) (\<lambda>_.
     rbind (sha256_value (dget blob ''sha256'') (path @ ''.sha256'')) (\<lambda>checksum.
     rbind (safe_object_key (dget blob ''key'') (path @ ''.key'')) (\<lambda>key.
     rbind (content_addressed_blob_key checksum organization_id) (\<lambda>expected_key.
       if key \<noteq> expected_key
       then Inl (ValueError (path @ ''.key is not content-addressed by its SHA-256''))
       else
         rbind (size_value (dget blob ''size'') (path @ ''.size'')) (\<lambda>size.
           Inr \<lparr>mb_key = key, mb_size_bytes = size, mb_checksum_sha256 = checksum\<rparr>))))))"

text \<open>\<open>[a-z][a-z0-9._-]{0,63}\<close> over the whole text.\<close>

definition role_pattern :: "string \<Rightarrow> bool" where
  "role_pattern s \<longleftrightarrow>
     s \<noteq> [] \<and> is_lower (hd s) \<and> length s \<le> 64
     \<and> list_all (\<lambda>c. is_lower c \<or> is_digit c \<or> c \<in> set ''._-'') (tl s)"

definition role_value :: "pyval \<Rightarrow> string \<Rightarrow> string res" where
  "role_value v path =
     (case v of
        PStr s \<Rightarrow> (if role_pattern s then Inr s else Inl (ValueError (path @ ''.role is invalid'')))
      | _ \<Rightarrow> Inl (ValueError (path @ ''.role is invalid'')))"

definition parse_file :: "string \<Rightarrow> string set \<Rightarrow> int \<Rightarrow> pyval \<Rightarrow> manifest_file res" where
  "parse_file organization_id seen index v =
     (let path = ''manifest.files['' @ int_text index @ '']''
      in rbind (value_object v path) (\<lambda>item.
         rbind (exact_keys item [''path'', ''role'', ''blob''] path) (\<lambda>_.
         rbind (safe_relative_path (dget item ''path'') (path @ ''.path'')) (\<lambda>file_path.
           if file_path \<in> seen then Inl (ValueError (''Duplicate workspace manifest path: '' @ file_path))
           else
             rbind (role_value (dget item ''role'') path) (\<lambda>role.
             rbind (versioned_blob (dget item ''blob'') (path @ ''.blob'') organization_id) (\<lambda>blob.
               Inr \<lparr>mf_path = file_path, mf_role = role, mf_blob = blob\<rparr>))))))"

fun parse_files :: "string \<Rightarrow> string set \<Rightarrow> int \<Rightarrow> pyval list \<Rightarrow> manifest_file list res" where
  "parse_files organization_id seen index [] = Inr []"
| "parse_files organization_id seen index (v # vs) =
     rbind (parse_file organization_id seen index v) (\<lambda>f.
     rbind (parse_files organization_id (insert (mf_path f) seen) (index + 1) vs) (\<lambda>fs. Inr (f # fs)))"

definition artifact_id_value :: "pyval \<Rightarrow> string \<Rightarrow> string res" where
  "artifact_id_value v path =
     (case v of
        PStr s \<Rightarrow> (if s = [] \<or> 128 < length s then Inl (ValueError (path @ ''.artifact_id is invalid'')) else Inr s)
      | _ \<Rightarrow> Inl (ValueError (path @ ''.artifact_id is invalid'')))"

definition parse_parent :: "string set \<Rightarrow> int \<Rightarrow> pyval \<Rightarrow> manifest_parent res" where
  "parse_parent seen index v =
     (let path = ''manifest.parents['' @ int_text index @ '']''
      in rbind (value_object v path) (\<lambda>parent.
         rbind (exact_keys parent [''artifact_id'', ''manifest_key'', ''checksum_sha256''] path) (\<lambda>_.
         rbind (artifact_id_value (dget parent ''artifact_id'') path) (\<lambda>artifact_id.
           if artifact_id \<in> seen then Inl (ValueError (''Duplicate parent artifact: '' @ artifact_id))
           else
             rbind (safe_object_key (dget parent ''manifest_key'') (path @ ''.manifest_key'')) (\<lambda>manifest_key.
               if \<not> ends_with ''/manifest.json'' manifest_key
               then Inl (ValueError (path @ ''.manifest_key must end with /manifest.json''))
               else
                 rbind (sha256_value (dget parent ''checksum_sha256'') (path @ ''.checksum_sha256'')) (\<lambda>checksum.
                   Inr \<lparr>mp_artifact_id = artifact_id, mp_manifest_key = manifest_key,
                        mp_checksum_sha256 = checksum\<rparr>))))))"

fun parse_parents :: "string set \<Rightarrow> int \<Rightarrow> pyval list \<Rightarrow> manifest_parent list res" where
  "parse_parents seen index [] = Inr []"
| "parse_parents seen index (v # vs) =
     rbind (parse_parent seen index v) (\<lambda>p.
     rbind (parse_parents (insert (mp_artifact_id p) seen) (index + 1) vs) (\<lambda>ps. Inr (p # ps)))"

definition ARTIFACT_MANIFEST_VERSION :: int where
  "ARTIFACT_MANIFEST_VERSION = 3"

definition list_value :: "pyval \<Rightarrow> string \<Rightarrow> pyval list res" where
  "list_value v path = (case v of PList xs \<Rightarrow> Inr xs | _ \<Rightarrow> Inl (ValueError (path @ '' must be an array'')))"

definition versioned_manifest :: "dict \<Rightarrow> string \<Rightarrow> artifact_manifest res" where
  "versioned_manifest payload organization_id =
     rbind (exact_keys payload [''schema_version'', ''files'', ''parents'', ''organization_id''] ''manifest'') (\<lambda>_.
     rbind (list_value (dget payload ''files'') ''manifest.files'') (\<lambda>raw_files.
     rbind (list_value (dget payload ''parents'') ''manifest.parents'') (\<lambda>raw_parents.
     rbind (parse_files organization_id {} 0 raw_files) (\<lambda>files.
     rbind (parse_parents {} 0 raw_parents) (\<lambda>parents.
       Inr \<lparr>am_schema_version = ARTIFACT_MANIFEST_VERSION, am_files = files, am_parents = parents,
            am_organization_id = organization_id\<rparr>)))))"

definition manifest_of_value :: "pyval \<Rightarrow> artifact_manifest res" where
  "manifest_of_value payload =
     rbind (value_object payload ''manifest'') (\<lambda>root.
       if dget root ''schema_version'' \<noteq> PInt ARTIFACT_MANIFEST_VERSION
       then Inl (ValueError (''Unsupported workspace manifest schema: '' @ py_str (dget root ''schema_version'')))
       else
         (case dget root ''organization_id'' of
            PStr organization \<Rightarrow>
              rbind (validate_cas_organization organization) (\<lambda>valid. versioned_manifest root valid)
          | _ \<Rightarrow> Inl (ValueError ''manifest.organization_id is invalid'')))"

definition parse_artifact_manifest :: "(string \<Rightarrow> pyval res) \<Rightarrow> string \<Rightarrow> artifact_manifest res" where
  "parse_artifact_manifest loads content =
     (case loads content of
        Inl e \<Rightarrow> Inl (ValueError ''Workspace manifest is not valid UTF-8 JSON'')
      | Inr payload \<Rightarrow> manifest_of_value payload)"

subsection \<open>Canonical text\<close>

definition blob_value :: "manifest_blob \<Rightarrow> pyval" where
  "blob_value b = PDict (fmap_of_list [(''key'', PStr (mb_key b)), (''size'', PInt (mb_size_bytes b)),
     (''sha256'', PStr (mb_checksum_sha256 b))])"

definition file_value :: "manifest_file \<Rightarrow> pyval" where
  "file_value f = PDict (fmap_of_list [(''path'', PStr (mf_path f)), (''role'', PStr (mf_role f)),
     (''blob'', blob_value (mf_blob f))])"

definition parent_value :: "manifest_parent \<Rightarrow> pyval" where
  "parent_value p = PDict (fmap_of_list [(''artifact_id'', PStr (mp_artifact_id p)),
     (''manifest_key'', PStr (mp_manifest_key p)), (''checksum_sha256'', PStr (mp_checksum_sha256 p))])"

definition manifest_payload :: "artifact_manifest \<Rightarrow> dict" where
  "manifest_payload m =
     fmap_of_list [(''schema_version'', PInt (am_schema_version m)),
       (''files'', PList (map file_value (am_files m))), (''parents'', PList (map parent_value (am_parents m))),
       (''organization_id'', PStr (am_organization_id m))]"

definition canonical_versioned_bytes ::
  "(string \<Rightarrow> pyval res) \<Rightarrow> (dict \<Rightarrow> string) \<Rightarrow> artifact_manifest \<Rightarrow> string res" where
  "canonical_versioned_bytes loads dumps m =
     (let canonical = dumps (manifest_payload m)
      in rbind (parse_artifact_manifest loads canonical) (\<lambda>parsed.
           if parsed \<noteq> m
           then Inl (ValueError (''Artifact Manifest v'' @ int_text (am_schema_version m) @ '' is not canonicalizable''))
           else Inr canonical))"

definition ordered_manifest :: "artifact_manifest \<Rightarrow> string \<Rightarrow> artifact_manifest" where
  "ordered_manifest m organization =
     \<lparr>am_schema_version = ARTIFACT_MANIFEST_VERSION, am_files = sort_key mf_path (am_files m),
      am_parents = sort_key mp_artifact_id (am_parents m), am_organization_id = organization\<rparr>"

definition canonical_v3_bytes ::
  "(string \<Rightarrow> pyval res) \<Rightarrow> (dict \<Rightarrow> string) \<Rightarrow> artifact_manifest \<Rightarrow> string res" where
  "canonical_v3_bytes loads dumps m =
     (if am_schema_version m \<noteq> ARTIFACT_MANIFEST_VERSION
      then Inl (ValueError ''Only Artifact Manifest v3 can be serialized by this writer'')
      else rbind (validate_cas_organization (am_organization_id m)) (\<lambda>organization.
             canonical_versioned_bytes loads dumps (ordered_manifest m organization)))"

subsection \<open>Well-formed manifests\<close>

definition blob_ok :: "string \<Rightarrow> manifest_blob \<Rightarrow> bool" where
  "blob_ok organization_id b \<longleftrightarrow>
     content_addressed_blob_key (mb_checksum_sha256 b) organization_id = Inr (mb_key b)
     \<and> canonical_key (mb_key b) \<and> \<not> contains_sub ''://'' (mb_key b) \<and> 0 \<le> mb_size_bytes b"

definition file_ok :: "string \<Rightarrow> manifest_file \<Rightarrow> bool" where
  "file_ok organization_id f \<longleftrightarrow>
     canonical_key (mf_path f) \<and> role_pattern (mf_role f) \<and> blob_ok organization_id (mf_blob f)"

definition parent_ok :: "manifest_parent \<Rightarrow> bool" where
  "parent_ok p \<longleftrightarrow>
     mp_artifact_id p \<noteq> [] \<and> length (mp_artifact_id p) \<le> 128
     \<and> canonical_key (mp_manifest_key p) \<and> \<not> contains_sub ''://'' (mp_manifest_key p)
     \<and> ends_with ''/manifest.json'' (mp_manifest_key p) \<and> is_lower_sha256 (mp_checksum_sha256 p)"

definition manifest_ok :: "artifact_manifest \<Rightarrow> bool" where
  "manifest_ok m \<longleftrightarrow>
     am_schema_version m = ARTIFACT_MANIFEST_VERSION
     \<and> validate_cas_organization (am_organization_id m) = Inr (am_organization_id m)
     \<and> (\<forall>f \<in> set (am_files m). file_ok (am_organization_id m) f) \<and> distinct (map mf_path (am_files m))
     \<and> (\<forall>p \<in> set (am_parents m). parent_ok p) \<and> distinct (map mp_artifact_id (am_parents m))"

lemma canonical_key_facts: "canonical_key s \<Longrightarrow> s \<noteq> [] \<and> CHR 0x5C \<notin> set s"
  by (simp add: canonical_key_def)

lemma exact_keys_Inr [res_elims]: "exact_keys d names path = Inr u \<longleftrightarrow> fmdom d = fset_of_list names"
  by (simp add: exact_keys_def Let_def)

lemma safe_relative_path_Inr [res_elims]: "safe_relative_path v path = Inr s \<longleftrightarrow> v = PStr s \<and> canonical_key s"
  by (cases v) (auto simp: safe_relative_path_def dest: canonical_key_facts)

lemma safe_object_key_Inr [res_elims]:
  "safe_object_key v path = Inr s \<longleftrightarrow> v = PStr s \<and> canonical_key s \<and> \<not> contains_sub ''://'' s"
  by (auto simp: safe_object_key_def rbind_Inr_iff safe_relative_path_Inr)

lemma value_readers_Inr [res_elims]:
  "value_object v path = Inr d \<longleftrightarrow> v = PDict d"
  "sha256_value v path = Inr s \<longleftrightarrow> v = PStr s \<and> is_lower_sha256 s"
  "size_value v path = Inr i \<longleftrightarrow> v = PInt i \<and> 0 \<le> i"
  "role_value v path = Inr s \<longleftrightarrow> v = PStr s \<and> role_pattern s"
  "artifact_id_value v path = Inr s \<longleftrightarrow> v = PStr s \<and> s \<noteq> [] \<and> length s \<le> 128"
  "list_value v path = Inr xs \<longleftrightarrow> v = PList xs"
  by (cases v; auto simp: value_object_def sha256_value_def size_value_def role_value_def artifact_id_value_def
      list_value_def)+

lemmas manifest_reads = rbind_Inr_iff exact_keys_Inr safe_relative_path_Inr safe_object_key_Inr value_readers_Inr

text \<open>A dictionary is determined by its keys and the values under them.\<close>

lemma dict_of_keys:
  assumes "fmdom d = fset_of_list names"
  shows "d = fmap_of_list (map (\<lambda>k. (k, dget d k)) names)"
proof (rule fmap_ext)
  fix k
  have map: "map_of (map (\<lambda>k. (k, dget d k)) names) k = (if k \<in> set names then Some (dget d k) else None)"
    by (induction names) auto
  show "fmlookup d k = fmlookup (fmap_of_list (map (\<lambda>k. (k, dget d k)) names)) k"
  proof (cases "fmlookup d k")
    case None
    then have "k |\<notin>| fmdom d" by (rule fmdom_notI)
    then have "k \<notin> set names" using assms by (simp add: fset_of_list_elem)
    then show ?thesis using None map by (simp add: fmlookup_of_list)
  next
    case (Some v)
    then have "k |\<in>| fmdom d" by (rule fmdomI)
    then have "k \<in> set names" using assms by (simp add: fset_of_list_elem)
    then show ?thesis using Some map by (simp add: fmlookup_of_list dget_def)
  qed
qed

lemma versioned_blob_Inr:
  "versioned_blob v path organization_id = Inr b \<longleftrightarrow> v = blob_value b \<and> blob_ok organization_id b"
proof
  assume "versioned_blob v path organization_id = Inr b"
  then obtain d where d: "v = PDict d" "fmdom d = fset_of_list [''key'', ''size'', ''sha256'']"
      "dget d ''sha256'' = PStr (mb_checksum_sha256 b)" "dget d ''key'' = PStr (mb_key b)"
      "dget d ''size'' = PInt (mb_size_bytes b)" and ok: "blob_ok organization_id b"
    unfolding versioned_blob_def manifest_reads if_distrib [of "\<lambda>r. r = Inr b"] blob_ok_def
    by (clarsimp simp: manifest_reads split: if_splits)
  from dict_of_keys [OF d(2)] d ok show "v = blob_value b \<and> blob_ok organization_id b"
    by (simp add: blob_value_def)
next
  assume a: "v = blob_value b \<and> blob_ok organization_id b"
  then have "is_lower_sha256 (mb_checksum_sha256 b)"
    by (auto simp: blob_ok_def content_addressed_blob_key_def split: if_splits)
  with a show "versioned_blob v path organization_id = Inr b"
    by (simp add: versioned_blob_def blob_value_def manifest_reads blob_ok_def dget_def fmlookup_of_list)
qed

lemma parse_file_Inr:
  "parse_file organization_id seen i v = Inr f \<longleftrightarrow>
   v = file_value f \<and> file_ok organization_id f \<and> mf_path f \<notin> seen"
proof
  assume "parse_file organization_id seen i v = Inr f"
  then obtain d where d: "v = PDict d" "fmdom d = fset_of_list [''path'', ''role'', ''blob'']"
      "dget d ''path'' = PStr (mf_path f)" "dget d ''role'' = PStr (mf_role f)"
      "dget d ''blob'' = blob_value (mf_blob f)"
    and ok: "file_ok organization_id f" "mf_path f \<notin> seen"
    unfolding parse_file_def manifest_reads Let_def file_ok_def
    by (clarsimp simp: manifest_reads versioned_blob_Inr split: if_splits)
  from dict_of_keys [OF d(2)] d ok show "v = file_value f \<and> file_ok organization_id f \<and> mf_path f \<notin> seen"
    by (simp add: file_value_def)
next
  assume "v = file_value f \<and> file_ok organization_id f \<and> mf_path f \<notin> seen"
  then show "parse_file organization_id seen i v = Inr f"
    by (auto simp: parse_file_def file_value_def manifest_reads versioned_blob_Inr file_ok_def dget_def
        fmlookup_of_list Let_def intro!: exI [of _ "mf_blob f"])
qed

lemma parse_parent_Inr:
  "parse_parent seen i v = Inr p \<longleftrightarrow> v = parent_value p \<and> parent_ok p \<and> mp_artifact_id p \<notin> seen"
proof
  assume "parse_parent seen i v = Inr p"
  then obtain d where d: "v = PDict d" "fmdom d = fset_of_list [''artifact_id'', ''manifest_key'', ''checksum_sha256'']"
      "dget d ''artifact_id'' = PStr (mp_artifact_id p)" "dget d ''manifest_key'' = PStr (mp_manifest_key p)"
      "dget d ''checksum_sha256'' = PStr (mp_checksum_sha256 p)"
    and ok: "parent_ok p" "mp_artifact_id p \<notin> seen"
    unfolding parse_parent_def manifest_reads Let_def parent_ok_def
    by (clarsimp simp: manifest_reads split: if_splits)
  from dict_of_keys [OF d(2)] d ok show "v = parent_value p \<and> parent_ok p \<and> mp_artifact_id p \<notin> seen"
    by (simp add: parent_value_def)
next
  assume "v = parent_value p \<and> parent_ok p \<and> mp_artifact_id p \<notin> seen"
  then show "parse_parent seen i v = Inr p"
    by (simp add: parse_parent_def parent_value_def manifest_reads parent_ok_def dget_def fmlookup_of_list Let_def)
qed

lemma parse_files_Inr:
  "parse_files organization_id seen i vs = Inr fs \<longleftrightarrow>
   vs = map file_value fs \<and> (\<forall>f \<in> set fs. file_ok organization_id f)
   \<and> distinct (map mf_path fs) \<and> set (map mf_path fs) \<inter> seen = {}"
proof (induction vs arbitrary: seen i fs)
  case Nil
  then show ?case by auto
next
  case (Cons v vs)
  show ?case
  proof (cases fs)
    case Nil
    then show ?thesis by (simp add: rbind_Inr_iff)
  next
    case (Cons f fs')
    then show ?thesis using Cons.IH by (auto simp: rbind_Inr_iff parse_file_Inr)
  qed
qed

lemma parse_parents_Inr:
  "parse_parents seen i vs = Inr ps \<longleftrightarrow>
   vs = map parent_value ps \<and> (\<forall>p \<in> set ps. parent_ok p)
   \<and> distinct (map mp_artifact_id ps) \<and> set (map mp_artifact_id ps) \<inter> seen = {}"
proof (induction vs arbitrary: seen i ps)
  case Nil
  then show ?case by auto
next
  case (Cons v vs)
  show ?case
  proof (cases ps)
    case Nil
    then show ?thesis by (simp add: rbind_Inr_iff)
  next
    case (Cons p ps')
    then show ?thesis using Cons.IH by (auto simp: rbind_Inr_iff parse_parent_Inr)
  qed
qed

text \<open>
  The manifests that parse are the well-formed ones, from the value they are written as, up
  to white space around the organization.
\<close>

lemma versioned_manifest_Inr:
  "versioned_manifest d organization = Inr m \<longleftrightarrow>
   fmdom d = fset_of_list [''schema_version'', ''files'', ''parents'', ''organization_id'']
   \<and> dget d ''files'' = PList (map file_value (am_files m)) \<and> dget d ''parents'' = PList (map parent_value (am_parents m))
   \<and> am_schema_version m = ARTIFACT_MANIFEST_VERSION \<and> am_organization_id m = organization
   \<and> (\<forall>f \<in> set (am_files m). file_ok organization f) \<and> distinct (map mf_path (am_files m))
   \<and> (\<forall>p \<in> set (am_parents m). parent_ok p) \<and> distinct (map mp_artifact_id (am_parents m))"
  (is "?lhs \<longleftrightarrow> ?rhs")
proof
  assume ?lhs
  then show ?rhs
    unfolding versioned_manifest_def manifest_reads parse_files_Inr parse_parents_Inr by clarsimp
next
  assume ?rhs
  then show ?lhs
    unfolding versioned_manifest_def manifest_reads parse_files_Inr parse_parents_Inr
    by (intro exI [of _ "()"] exI [of _ "map file_value (am_files m)"] exI [of _ "map parent_value (am_parents m)"]
        exI [of _ "am_files m"] exI [of _ "am_parents m"] conjI) simp_all
qed

lemma sort_key_unique:
  assumes "distinct (map f xs)" "mset xs = mset ys"
  shows "sort_key f xs = sort_key f ys"
proof (rule properties_for_sort_key)
  fix k assume k: "k \<in> set (sort_key f ys)"
  have keys: "mset (map f xs) = mset (map f ys)" using assms(2) by simp
  have "distinct (map f ys)" using assms(1) mset_eq_imp_distinct_iff [OF keys] by simp
  then have d: "distinct (map f (sort_key f ys))"
    using mset_eq_imp_distinct_iff [of "map f ys" "map f (sort_key f ys)"] by simp
  have "k \<in> set xs" using k assms(2) by (metis mset_eq_setD set_sort)
  then show "filter (\<lambda>x. f k = f x) (sort_key f ys) = filter (\<lambda>x. f k = f x) xs"
    using distinct_filter_one [OF d k] distinct_filter_one [OF assms(1)] by (simp add: eq_commute)
qed (use assms in simp_all)

lemma validate_cas_organization_idem:
  "validate_cas_organization s = Inr v \<Longrightarrow> validate_cas_organization v = Inr v"
  by (auto simp: validate_cas_organization_def rbind_Inr_iff dest: validate_organization_id_idem split: if_splits)

lemma manifest_of_value_ok: "manifest_of_value v = Inr m \<Longrightarrow> manifest_ok m"
  by (auto simp: manifest_of_value_def manifest_reads versioned_manifest_Inr manifest_ok_def
      dest: validate_cas_organization_idem split: if_splits pyval.splits)

lemma manifest_payload_parses:
  assumes "manifest_ok m"
  shows "manifest_of_value (PDict (manifest_payload m)) = Inr m"
proof -
  have "versioned_manifest (manifest_payload m) (am_organization_id m) = Inr m"
    using assms by (simp add: versioned_manifest_Inr manifest_ok_def manifest_payload_def dget_def fmlookup_of_list)
  then show ?thesis
    using assms by (simp add: manifest_of_value_def manifest_ok_def value_object_def manifest_payload_def dget_def
        fmlookup_of_list)
qed

lemma ordered_manifest_ok: "manifest_ok m \<Longrightarrow> manifest_ok (ordered_manifest m (am_organization_id m))"
  by (simp add: manifest_ok_def ordered_manifest_def distinct_map)

lemma canonical_bytes:
  assumes "manifest_ok m"
    and "loads (dumps (manifest_payload (ordered_manifest m (am_organization_id m))))
      = Inr (PDict (manifest_payload (ordered_manifest m (am_organization_id m))))"
  shows "canonical_v3_bytes loads dumps m = Inr (dumps (manifest_payload (ordered_manifest m (am_organization_id m))))"
proof -
  let ?o = "ordered_manifest m (am_organization_id m)"
  have "parse_artifact_manifest loads (dumps (manifest_payload ?o)) = Inr ?o"
    using manifest_payload_parses [OF ordered_manifest_ok [OF assms(1)]] by (simp add: parse_artifact_manifest_def assms(2))
  then show ?thesis
    using assms(1) by (simp add: canonical_v3_bytes_def canonical_versioned_bytes_def manifest_ok_def)
qed

text \<open>Every well-formed manifest has a canonical text: writing it never fails, the text
  parses back to the manifest with its files and parents sorted, and two manifests that
  list the same files and parents in another order have the same text.\<close>

lemma manifest_roundtrip:
  assumes "manifest_ok m" and "manifest_ok m'"
    and "loads (dumps (manifest_payload (ordered_manifest m (am_organization_id m))))
      = Inr (PDict (manifest_payload (ordered_manifest m (am_organization_id m))))"
    and "am_organization_id m = am_organization_id m'"
    and "mset (am_files m) = mset (am_files m')" and "mset (am_parents m) = mset (am_parents m')"
  shows "\<exists>content. canonical_v3_bytes loads dumps m = Inr content \<and> canonical_v3_bytes loads dumps m' = Inr content
    \<and> parse_artifact_manifest loads content = Inr (ordered_manifest m (am_organization_id m))"
proof -
  have "ordered_manifest m (am_organization_id m) = ordered_manifest m' (am_organization_id m')"
    using assms(1,4-6) sort_key_unique [of mf_path "am_files m" "am_files m'"]
      sort_key_unique [of mp_artifact_id "am_parents m" "am_parents m'"]
    by (simp add: ordered_manifest_def manifest_ok_def)
  then show ?thesis
    using canonical_bytes [of m loads dumps, OF assms(1,3)] canonical_bytes [of m' loads dumps, OF assms(2)] assms(3)
      manifest_payload_parses [OF ordered_manifest_ok [OF assms(1)]]
    by (simp add: parse_artifact_manifest_def)
qed

definition example_file :: "string \<Rightarrow> manifest_file" where
  "example_file path =
     \<lparr>mf_path = path, mf_role = ''image'',
      mf_blob = \<lparr>mb_key = ''organizations/acme/blobs/sha256/aa/'' @ replicate 64 CHR ''a'', mb_size_bytes = 5,
                 mb_checksum_sha256 = replicate 64 CHR ''a''\<rparr>\<rparr>"

definition example_manifest :: "string list \<Rightarrow> artifact_manifest" where
  "example_manifest paths =
     \<lparr>am_schema_version = 3, am_files = map example_file paths, am_parents = [], am_organization_id = ''acme''\<rparr>"

lemma example_manifest_ok: "manifest_ok (example_manifest [''b'', ''a''])" "manifest_ok (example_manifest [''a'', ''b''])"
  by code_simp+

lemma manifest_roundtrip_witness:
  "\<exists>content. canonical_v3_bytes (\<lambda>_. Inr (PDict (manifest_payload (ordered_manifest (example_manifest [''b'', ''a'']) ''acme''))))
        (\<lambda>_. ''text'') (example_manifest [''b'', ''a'']) = Inr content
    \<and> canonical_v3_bytes (\<lambda>_. Inr (PDict (manifest_payload (ordered_manifest (example_manifest [''b'', ''a'']) ''acme''))))
        (\<lambda>_. ''text'') (example_manifest [''a'', ''b'']) = Inr content"
proof -
  let ?m = "example_manifest [''b'', ''a'']" and ?m' = "example_manifest [''a'', ''b'']"
  have org: "am_organization_id ?m = ''acme''" "am_organization_id ?m' = ''acme''" by (simp_all add: example_manifest_def)
  have "mset (am_files ?m) = mset (am_files ?m')" "mset (am_parents ?m) = mset (am_parents ?m')"
    by (simp_all add: example_manifest_def)
  with manifest_roundtrip [OF example_manifest_ok,
      of "\<lambda>_. Inr (PDict (manifest_payload (ordered_manifest ?m ''acme'')))" "\<lambda>_. ''text''"]
  show ?thesis by (auto simp: org)
qed

end
