(* ===== verification/ManifestGraph.thy ===== *)
theory ManifestGraph
  imports ArtifactManifests
begin

text \<open>
  The graph of artifact manifests: \<open>validate_parent_graph\<close> of \<open>shared/artifact_manifest.py\<close>
  rejects parent cycles by depth-first search, and \<open>plan_cas_collection\<close> of
  \<open>shared/cas_gc.py\<close> marks the blobs that the manifests reachable from the roots refer to and
  plans the deletion of the old ones that are left.

  The supplied mapping is an association list. The depth-first search carries fuel for its
  recursion depth, which is one more than the number of manifests: the nodes on the path are
  distinct keys of the mapping (\<open>visit_cycle\<close>).
\<close>

type_synonym manifest_map = "(string \<times> artifact_manifest) list"

subsection \<open>Parent cycles\<close>

definition known_parents :: "manifest_map \<Rightarrow> artifact_manifest \<Rightarrow> string list" where
  "known_parents ms m = filter (\<lambda>p. map_of ms p \<noteq> None) (map mp_artifact_id (am_parents m))"

text \<open>
  \<open>visit\<close>: the nodes on the current path, the finished nodes before and after. The other
  function runs it over the parents of a node.
\<close>

fun visit :: "nat \<Rightarrow> manifest_map \<Rightarrow> string list \<Rightarrow> string \<Rightarrow> string list \<Rightarrow> string list res"
  and visit_all :: "nat \<Rightarrow> manifest_map \<Rightarrow> string list \<Rightarrow> string list \<Rightarrow> string list \<Rightarrow> string list res" where
  "visit 0 ms visiting a visited = Inl (RuntimeError ''maximum recursion depth exceeded'')"
| "visit (Suc n) ms visiting a visited =
     (if a \<in> set visiting then Inl (ValueError (''Artifact manifest parent cycle includes '' @ a))
      else if a \<in> set visited then Inr visited
      else (case map_of ms a of
              None \<Rightarrow> Inl (KeyError a)
            | Some m \<Rightarrow>
                rbind (visit_all n ms (a # visiting) (known_parents ms m) visited) (\<lambda>v. Inr (a # v))))"
| "visit_all n ms visiting [] visited = Inr visited"
| "visit_all n ms visiting (p # ps) visited =
     rbind (visit n ms visiting p visited) (\<lambda>v. visit_all n ms visiting ps v)"

definition validate_parent_graph :: "manifest_map \<Rightarrow> unit res" where
  "validate_parent_graph ms =
     rbind (visit_all (Suc (length ms)) ms [] (sort (remdups (map fst ms))) []) (\<lambda>_. Inr ())"

text \<open>The parent edges between supplied manifests.\<close>

definition parent_edges :: "manifest_map \<Rightarrow> (string \<times> string) set" where
  "parent_edges ms = {(a, b). \<exists>m. map_of ms a = Some m \<and> b \<in> set (known_parents ms m)}"

lemma known_parents_dom: "b \<in> set (known_parents ms m) \<Longrightarrow> map_of ms b \<noteq> None"
  by (simp add: known_parents_def)

lemma parent_edges_dom: "(a, b) \<in> parent_edges ms \<Longrightarrow> map_of ms a \<noteq> None \<and> map_of ms b \<noteq> None"
  using known_parents_dom by (auto simp: parent_edges_def)

text \<open>Finished nodes: closed under the edges, without a cycle among them.\<close>

definition finished_nodes :: "manifest_map \<Rightarrow> string set \<Rightarrow> bool" where
  "finished_nodes ms v \<longleftrightarrow>
     (\<forall>a \<in> v. \<forall>b. (a, b) \<in> parent_edges ms \<longrightarrow> b \<in> v) \<and> acyclic (parent_edges ms \<inter> v \<times> v)"

lemma finished_nodes_insert:
  assumes fin: "finished_nodes ms v" and a: "a \<notin> v" and succs: "\<And>b. (a, b) \<in> parent_edges ms \<Longrightarrow> b \<in> v"
  shows "finished_nodes ms (insert a v)"
proof -
  let ?E = "parent_edges ms \<inter> v \<times> v" and ?E' = "parent_edges ms \<inter> insert a v \<times> insert a v"
  have into_a: "(x, a) \<notin> ?E'" for x using fin a succs by (auto simp: finished_nodes_def)
  have "acyclic ?E'"
  proof (rule acyclicI, rule allI, rule notI)
    fix x assume cycle: "(x, x) \<in> ?E'\<^sup>+"
    have "x \<noteq> a"
    proof
      assume "x = a"
      then have "(x, a) \<in> ?E'\<^sup>+" using cycle by simp
      then show False by (cases rule: trancl.cases) (use into_a in auto)
    qed
    have "(y, z) \<in> ?E'\<^sup>+ \<Longrightarrow> y \<in> v \<Longrightarrow> (y, z) \<in> ?E\<^sup>+ \<and> z \<in> v" for y z
    proof (induction rule: trancl_induct)
      case (base z)
      then have "z \<in> v" using fin by (auto simp: finished_nodes_def)
      with base show ?case by auto
    next
      case (step w z)
      then have "z \<in> v" "(w, z) \<in> ?E" using fin by (auto simp: finished_nodes_def)
      with step show ?case by (auto intro: trancl_into_trancl)
    qed
    moreover have "x \<in> v" using cycle \<open>x \<noteq> a\<close> by (cases rule: trancl.cases) auto
    ultimately have "(x, x) \<in> ?E\<^sup>+" using cycle by blast
    then show False using fin by (auto simp: finished_nodes_def acyclic_def)
  qed
  then show ?thesis using fin succs by (auto simp: finished_nodes_def)
qed

lemma visit_finished:
  "visit n ms visiting a visited = Inr v \<Longrightarrow> finished_nodes ms (set visited) \<Longrightarrow>
     finished_nodes ms (set v) \<and> set visited \<subseteq> set v \<and> a \<in> set v
     \<and> set v \<inter> set visiting \<subseteq> set visited"
  "visit_all n ms visiting ps visited = Inr v \<Longrightarrow> finished_nodes ms (set visited) \<Longrightarrow>
     finished_nodes ms (set v) \<and> set visited \<subseteq> set v \<and> set ps \<subseteq> set v
     \<and> set v \<inter> set visiting \<subseteq> set visited"
proof (induction n ms visiting a visited and n ms visiting ps visited arbitrary: v and v rule: visit_visit_all.induct)
  case (1 ms visiting a visited)
  then show ?case by simp
next
  case (2 n ms visiting a visited)
  show ?case
  proof (cases "a \<in> set visiting \<or> a \<in> set visited")
    case True
    then show ?thesis using 2(2,3) by (auto split: if_splits)
  next
    case False
    then obtain m v1 where m: "map_of ms a = Some m"
      and rest: "visit_all n ms (a # visiting) (known_parents ms m) visited = Inr v1" and v: "v = a # v1"
      using 2(2) by (auto simp: rbind_Inr_iff split: option.splits)
    have IH: "finished_nodes ms (set v1) \<and> set visited \<subseteq> set v1 \<and> set (known_parents ms m) \<subseteq> set v1
        \<and> set v1 \<inter> set (a # visiting) \<subseteq> set visited"
      using 2(1) [OF _ _ m rest 2(3)] False by blast
    moreover have "finished_nodes ms (insert a (set v1))"
      by (rule finished_nodes_insert) (use IH False m in \<open>auto simp: parent_edges_def\<close>)
    ultimately show ?thesis using False by (auto simp: v)
  qed
next
  case (3 n ms visiting visited)
  then show ?case by simp
next
  case (4 n ms visiting p ps visited)
  then obtain v1 where one: "visit n ms visiting p visited = Inr v1"
    and rest: "visit_all n ms visiting ps v1 = Inr v" by (auto simp: rbind_Inr_iff)
  from 4(1) [OF one 4(4)] 4(2) [OF rest] show ?case by auto
qed

text \<open>A search that fails on nodes of the mapping has found a node on a cycle.\<close>

definition cycle_error :: "manifest_map \<Rightarrow> py_error \<Rightarrow> bool" where
  "cycle_error ms e \<longleftrightarrow>
     (\<exists>x. (x, x) \<in> (parent_edges ms)\<^sup>+ \<and> e = ValueError (''Artifact manifest parent cycle includes '' @ x))"

lemma path_bound:
  assumes "distinct xs" "\<forall>x \<in> set xs. map_of ms x \<noteq> None"
  shows "length xs \<le> length ms"
proof -
  have "set xs \<subseteq> set (map fst ms)" using assms(2) by (auto simp: map_of_eq_None_iff image_iff)
  then have "length xs \<le> card (set (map fst ms))" using assms(1) by (metis List.finite_set card_mono distinct_card)
  also have "\<dots> \<le> length ms" using card_length [of "map fst ms"] by simp
  finally show ?thesis .
qed

lemma visit_cycle:
  "visit n ms visiting a visited = Inl e \<Longrightarrow> distinct visiting \<Longrightarrow> \<forall>x \<in> set visiting. map_of ms x \<noteq> None \<Longrightarrow>
     map_of ms a \<noteq> None \<Longrightarrow> \<forall>x \<in> set visiting. (x, a) \<in> (parent_edges ms)\<^sup>+ \<Longrightarrow>
     length ms < n + length visiting \<Longrightarrow> cycle_error ms e"
  "visit_all n ms visiting ps visited = Inl e \<Longrightarrow> distinct visiting \<Longrightarrow> \<forall>x \<in> set visiting. map_of ms x \<noteq> None \<Longrightarrow>
     \<forall>p \<in> set ps. map_of ms p \<noteq> None \<and> (\<forall>x \<in> set visiting. (x, p) \<in> (parent_edges ms)\<^sup>+) \<Longrightarrow>
     length ms < n + length visiting \<Longrightarrow> cycle_error ms e"
proof (induction n ms visiting a visited and n ms visiting ps visited rule: visit_visit_all.induct)
  case (1 ms visiting a visited)
  then show ?case using path_bound [of visiting ms] by simp
next
  case (2 n ms visiting a visited)
  show ?case
  proof (cases "a \<in> set visiting \<or> a \<in> set visited")
    case True
    then show ?thesis using 2(2-6) by (auto simp: cycle_error_def split: if_splits)
  next
    case False
    obtain m where m: "map_of ms a = Some m" using 2(5) by auto
    have fail: "visit_all n ms (a # visiting) (known_parents ms m) visited = Inl e"
      using 2(2) False m by (auto simp: rbind_Inl_iff)
    have "(x, p) \<in> (parent_edges ms)\<^sup>+" if "p \<in> set (known_parents ms m)" "x \<in> set (a # visiting)" for x p
    proof -
      have "(a, p) \<in> parent_edges ms" using m that(1) by (auto simp: parent_edges_def)
      then show ?thesis using that(2) 2(6) by (auto intro: trancl_into_trancl)
    qed
    then show ?thesis
      using 2(1) [OF _ _ m fail] False 2(3,4,5,7) known_parents_dom by auto
  qed
next
  case (3 n ms visiting visited)
  then show ?case by simp
next
  case (4 n ms visiting p ps visited)
  show ?case
  proof (cases "visit n ms visiting p visited")
    case (Inl err)
    then show ?thesis using 4 by auto
  next
    case (Inr v)
    then show ?thesis using 4(2) [OF _ 4(4,5) _ 4(7)] 4(3,6) by auto
  qed
qed

text \<open>The parent check accepts a set of manifests exactly when their parent references have
  no cycle, and when it rejects one it names a node on a cycle; the recursion depth never
  exceeds the number of manifests.\<close>

lemma parent_graph_check:
  "(validate_parent_graph ms = Inr () \<longleftrightarrow> acyclic (parent_edges ms))
   \<and> (\<forall>e. validate_parent_graph ms = Inl e \<longrightarrow> cycle_error ms e)"
proof -
  let ?keys = "sort (remdups (map fst ms))" and ?n = "Suc (length ms)"
  have keys: "set ?keys = set (map fst ms)" by (simp add: set_sort)
  have "acyclic (parent_edges ms)" if ok: "visit_all ?n ms [] ?keys [] = Inr v" for v
  proof -
    have "finished_nodes ms (set [])" by (simp add: finished_nodes_def acyclic_def)
    from visit_finished(2) [OF ok this] have v: "finished_nodes ms (set v)" "set (map fst ms) \<subseteq> set v"
      using keys by auto
    have "parent_edges ms \<subseteq> set v \<times> set v"
      using parent_edges_dom v(2) by (fastforce simp: map_of_eq_None_iff)
    then have "parent_edges ms \<inter> set v \<times> set v = parent_edges ms" by blast
    then show ?thesis using v(1) by (simp add: finished_nodes_def)
  qed
  moreover have "cycle_error ms e" if "visit_all ?n ms [] ?keys [] = Inl e" for e
    by (rule visit_cycle(2) [OF that]) (auto simp: map_of_eq_None_iff)
  moreover have "\<not> acyclic (parent_edges ms)" if "cycle_error ms e" for e
    using that by (auto simp: cycle_error_def acyclic_def)
  ultimately show ?thesis
    by (cases "visit_all ?n ms [] ?keys []") (auto simp: validate_parent_graph_def)
qed

subsection \<open>Collecting blobs\<close>

record cas_object =
  co_key :: string
  co_size :: int
  co_modified_at :: instant

definition manifest_blob_keys :: "artifact_manifest \<Rightarrow> string list" where
  "manifest_blob_keys m = map (\<lambda>f. mb_key (mf_blob f)) (am_files m)"

text \<open>
  The marking loop. The stack holds its top first: \<open>pending.pop()\<close> takes the last element
  and \<open>extend\<close> puts the parents behind it.
\<close>

function mark_manifests :: "manifest_map \<Rightarrow> string list \<Rightarrow> string list \<Rightarrow> string list \<Rightarrow> string list res" where
  "mark_manifests ms [] visited marks = Inr marks"
| "mark_manifests ms (key # pending) visited marks =
     (if key \<in> set visited then mark_manifests ms pending visited marks
      else (case map_of ms key of
              None \<Rightarrow> Inl (ValueError (''Missing live/held parent manifest: '' @ key))
            | Some m \<Rightarrow>
                mark_manifests ms (rev (map mp_manifest_key (am_parents m)) @ pending) (key # visited)
                  (marks @ manifest_blob_keys m)))"
  by pat_completeness auto
termination
proof (relation "measures [\<lambda>(ms, pending, visited, marks). card (set (map fst ms) - set visited),
    \<lambda>(ms, pending, visited, marks). length pending]", goal_cases)
  case 1
  show ?case by simp
next
  case (2 ms key pending visited marks)
  then show ?case by simp
next
  case (3 ms key pending visited marks m)
  then have "key \<in> set (map fst ms) - set visited" by (auto dest: map_of_SomeD intro: rev_image_eqI)
  moreover have "set (map fst ms) - set (key # visited) = (set (map fst ms) - set visited) - {key}" by auto
  ultimately have "card (set (map fst ms) - set (key # visited)) < card (set (map fst ms) - set visited)"
    by (metis card_Diff1_less finite_Diff List.finite_set)
  then show ?case by simp
qed

definition grace_minimum :: instant where
  "grace_minimum = seconds (7 * 86400)"

definition plan_cas_collection ::
  "manifest_map \<Rightarrow> string list \<Rightarrow> cas_object list \<Rightarrow> instant \<Rightarrow> instant \<Rightarrow> string list \<Rightarrow> cas_object list res" where
  "plan_cas_collection ms roots blobs now grace protected_keys =
     (if grace < grace_minimum then Inl (ValueError ''CAS collection requires at least seven days of grace'')
      else
        rbind (mark_manifests ms (rev roots) [] protected_keys) (\<lambda>marks.
          Inr (sort_key co_key
            (filter (\<lambda>b. co_key b \<notin> set marks \<and> co_modified_at b < now - grace) blobs))))"

text \<open>
  The reference: manifest keys reachable from the roots by parent references, whether or not
  they are supplied, and the blobs that are alive.
\<close>

inductive_set live_manifests :: "manifest_map \<Rightarrow> string list \<Rightarrow> string set" for ms roots where
  root: "k \<in> set roots \<Longrightarrow> k \<in> live_manifests ms roots"
| parent: "k \<in> live_manifests ms roots \<Longrightarrow> map_of ms k = Some m \<Longrightarrow> p \<in> set (am_parents m) \<Longrightarrow>
    mp_manifest_key p \<in> live_manifests ms roots"

definition live_blobs :: "manifest_map \<Rightarrow> string list \<Rightarrow> string list \<Rightarrow> string set" where
  "live_blobs ms roots protected_keys =
     set protected_keys
     \<union> {b. \<exists>k m. k \<in> live_manifests ms roots \<and> map_of ms k = Some m \<and> b \<in> set (manifest_blob_keys m)}"

text \<open>The loop: what is visited is marked, and what it leads to is visited or pending.\<close>

definition marking_ok :: "manifest_map \<Rightarrow> string list \<Rightarrow> string list \<Rightarrow> string list \<Rightarrow> string list \<Rightarrow> string list \<Rightarrow> bool" where
  "marking_ok ms roots protected_keys pending visited marks \<longleftrightarrow>
     set roots \<subseteq> set pending \<union> set visited
     \<and> set pending \<union> set visited \<subseteq> live_manifests ms roots
     \<and> (\<forall>k \<in> set visited. map_of ms k \<noteq> None)
     \<and> (\<forall>k m p. k \<in> set visited \<and> map_of ms k = Some m \<and> p \<in> set (am_parents m) \<longrightarrow>
          mp_manifest_key p \<in> set pending \<union> set visited)
     \<and> set marks = set protected_keys \<union> {b. \<exists>k m. k \<in> set visited \<and> map_of ms k = Some m \<and> b \<in> set (manifest_blob_keys m)}"

lemma marking_skip:
  "marking_ok ms roots ks (key # pending) visited marks \<Longrightarrow> key \<in> set visited \<Longrightarrow>
   marking_ok ms roots ks pending visited marks"
  unfolding marking_ok_def by (auto simp: insert_absorb)

lemma marking_visit:
  assumes "marking_ok ms roots ks (key # pending) visited marks" "map_of ms key = Some m"
  shows "marking_ok ms roots ks (rev (map mp_manifest_key (am_parents m)) @ pending) (key # visited)
    (marks @ manifest_blob_keys m)"
proof -
  have "key \<in> live_manifests ms roots" using assms(1) by (auto simp: marking_ok_def)
  then have sub: "set (map mp_manifest_key (am_parents m)) \<subseteq> live_manifests ms roots"
    using assms(2) by (auto intro: live_manifests.parent)
  have closed: "mp_manifest_key p \<in> set (rev (map mp_manifest_key (am_parents m)) @ pending) \<union> set (key # visited)"
    if k: "k \<in> set (key # visited)" "map_of ms k = Some m'" "p \<in> set (am_parents m')" for k m' p
  proof (cases "k = key")
    case True
    then show ?thesis using k assms(2) by auto
  next
    case False
    then have "mp_manifest_key p \<in> set (key # pending) \<union> set visited"
      using assms(1) k unfolding marking_ok_def by simp
    then show ?thesis by auto
  qed
  show ?thesis
    unfolding marking_ok_def
  proof (intro conjI allI impI, goal_cases)
    case (4 k m' p)
    then show ?case using closed by blast
  qed (use assms sub in \<open>auto simp: marking_ok_def\<close>)
qed

lemma mark_manifests_ok:
  assumes "marking_ok ms roots ks pending visited marks"
  shows "(\<forall>out. mark_manifests ms pending visited marks = Inr out \<longrightarrow>
        (\<exists>seen. marking_ok ms roots ks [] seen out))
    \<and> (\<forall>e. mark_manifests ms pending visited marks = Inl e \<longrightarrow>
        (\<exists>k \<in> live_manifests ms roots. map_of ms k = None
          \<and> e = ValueError (''Missing live/held parent manifest: '' @ k)))"
  using assms
proof (induction ms pending visited marks rule: mark_manifests.induct)
  case (1 ms visited marks)
  then show ?case by auto
next
  case (2 ms key pending visited marks)
  show ?case
  proof (cases "key \<in> set visited")
    case True
    then show ?thesis using 2(1) marking_skip [OF 2(3)] by simp
  next
    case False
    show ?thesis
    proof (cases "map_of ms key")
      case None
      moreover have "key \<in> live_manifests ms roots" using 2(3) by (auto simp: marking_ok_def)
      ultimately show ?thesis using False by auto
    next
      case (Some m)
      then show ?thesis using 2(2) [OF False Some marking_visit [OF 2(3) Some]] False by simp
    qed
  qed
qed

lemma marking_done:
  assumes "marking_ok ms roots ks [] seen marks"
  shows "set marks = live_blobs ms roots ks" and "k \<in> live_manifests ms roots \<Longrightarrow> map_of ms k \<noteq> None"
proof -
  have closed: "k \<in> set seen" if "k \<in> live_manifests ms roots" for k
    using that
  proof induction
    case (root k)
    then show ?case using assms by (auto simp: marking_ok_def)
  next
    case (parent k m p)
    then show ?case using assms by (auto simp: marking_ok_def)
  qed
  then show "k \<in> live_manifests ms roots \<Longrightarrow> map_of ms k \<noteq> None"
    using assms by (auto simp: marking_ok_def)
  have "live_manifests ms roots = set seen" using closed assms by (auto simp: marking_ok_def)
  then show "set marks = live_blobs ms roots ks" using assms by (simp add: marking_ok_def live_blobs_def)
qed

text \<open>C39: A collection deletes exactly the garbage: the planned objects are the ones that no
  manifest reachable from the roots refers to, that are not protected and that are older
  than the grace period of at least seven days; when a reachable manifest is missing,
  nothing is planned.\<close>

lemma collection_deletes_garbage_only:
  "(\<forall>planned. plan_cas_collection ms roots blobs now grace protected_keys = Inr planned \<longrightarrow>
      grace_minimum \<le> grace \<and> (\<forall>k \<in> live_manifests ms roots. map_of ms k \<noteq> None)
      \<and> mset planned = mset (filter (\<lambda>b. co_key b \<notin> live_blobs ms roots protected_keys
          \<and> co_modified_at b < now - grace) blobs))
   \<and> ((\<exists>k \<in> live_manifests ms roots. map_of ms k = None) \<longrightarrow>
      (\<exists>e. plan_cas_collection ms roots blobs now grace protected_keys = Inl e))"
proof -
  have start: "marking_ok ms roots protected_keys (rev roots) [] protected_keys"
    by (auto simp: marking_ok_def intro: live_manifests.root)
  note run = mark_manifests_ok [OF start]
  show ?thesis
  proof (cases "mark_manifests ms (rev roots) [] protected_keys")
    case (Inl e)
    then show ?thesis by (simp add: plan_cas_collection_def)
  next
    case (Inr marks)
    then obtain seen where "marking_ok ms roots protected_keys [] seen marks" using run by blast
    note facts = marking_done [OF this]
    show ?thesis
      using Inr facts by (auto simp: plan_cas_collection_def)
  qed
qed

text \<open>The old blob of a manifest no root leads to is planned, the others are kept.\<close>

lemma collection_deletes_garbage_only_witness:
  "let ms = [(''r'', \<lparr>am_schema_version = 3, am_files = [example_file ''a''], am_parents = [], am_organization_id = ''acme''\<rparr>)];
       old = \<lparr>co_key = ''old'', co_size = 5, co_modified_at = 0\<rparr>;
       blobs = [\<lparr>co_key = mb_key (mf_blob (example_file ''a'')), co_size = 5, co_modified_at = 0\<rparr>, old]
   in plan_cas_collection ms [''r''] blobs (2 * grace_minimum) grace_minimum [] = Inr [old]
      \<and> co_key old \<notin> live_blobs ms [''r''] []"
proof -
  let ?ms = "[(''r'', \<lparr>am_schema_version = 3, am_files = [example_file ''a''], am_parents = [], am_organization_id = ''acme''\<rparr>)]"
  let ?old = "\<lparr>co_key = ''old'', co_size = 5, co_modified_at = 0\<rparr>"
  let ?blobs = "[\<lparr>co_key = mb_key (mf_blob (example_file ''a'')), co_size = 5, co_modified_at = 0\<rparr>, ?old]"
  have plan: "plan_cas_collection ?ms [''r''] ?blobs (2 * grace_minimum) grace_minimum [] = Inr [?old]"
    by (simp add: plan_cas_collection_def manifest_blob_keys_def example_file_def grace_minimum_def seconds_def)
  from collection_deletes_garbage_only [of ?ms "[''r'']" ?blobs "2 * grace_minimum" grace_minimum "[]", THEN conjunct1, rule_format, OF this]
  have "mset [?old] = mset (filter (\<lambda>b. co_key b \<notin> live_blobs ?ms [''r''] []
      \<and> co_modified_at b < 2 * grace_minimum - grace_minimum) ?blobs)"
    by (elim conjE)
  then have "set [?old] = set (filter (\<lambda>b. co_key b \<notin> live_blobs ?ms [''r''] []
      \<and> co_modified_at b < 2 * grace_minimum - grace_minimum) ?blobs)" by (rule mset_eq_setD)
  from equalityD1 [OF this] have "?old \<in> set (filter (\<lambda>b. co_key b \<notin> live_blobs ?ms [''r''] []
      \<and> co_modified_at b < 2 * grace_minimum - grace_minimum) ?blobs)"
    by (rule subsetD) (rule list.set_intros)
  then have "co_key ?old \<notin> live_blobs ?ms [''r''] []" unfolding set_filter by (elim CollectE conjE)
  with plan show ?thesis by (simp only: Let_def simp_thms)
qed

text \<open>A manifest that is its own parent.\<close>

lemma parent_graph_check_witness:
  "\<exists>e. cycle_error [(''a'', \<lparr>am_schema_version = 3, am_files = [],
      am_parents = [\<lparr>mp_artifact_id = ''a'', mp_manifest_key = ''k'', mp_checksum_sha256 = []\<rparr>],
      am_organization_id = ''acme''\<rparr>)] e"
proof -
  let ?ms = "[(''a'', \<lparr>am_schema_version = 3, am_files = [],
      am_parents = [\<lparr>mp_artifact_id = ''a'', mp_manifest_key = ''k'', mp_checksum_sha256 = []\<rparr>],
      am_organization_id = ''acme''\<rparr>)]"
  have "validate_parent_graph ?ms = Inl (ValueError ''Artifact manifest parent cycle includes a'')"
    by (simp add: validate_parent_graph_def known_parents_def)
  then show ?thesis using parent_graph_check [of ?ms] by blast
qed

end
