(* ===== verification/EventContracts.thy ===== *)
theory EventContracts
  imports DatabaseModel
begin

text \<open>
  The versioned event contracts (\<open>shared/event_contracts.py\<close>, \<open>shared/event_schemas.py\<close>,
  \<open>shared/kafka_partitioning.py\<close> and the control events of
  \<open>app4-dashboard/api/messaging.py\<close>): the declared fields of each event, the checks of
  \<open>validate_event\<close>, construction, decoding and deterministic identities.

  The fields and their constraints are data of the sources. The library that applies
  them is the parameter \<open>ev_validate\<close>; what is relied on of it is \<open>event_reader_ok\<close>.
\<close>

subsection \<open>Declared fields\<close>

datatype event_kind = StatusEvent | ControlEvent | DeadLetterEvent

text \<open>A declared field constraint; \<open>Bounded lo hi\<close> is a strict integer.\<close>

datatype field_rule =
    Sized nat "nat option"
  | Patterned "string \<Rightarrow> bool" nat nat
  | OneOf "string list"
  | VersionOne
  | Bounded int "int option"
  | Timestamp
  | JsonObject
  | UuidText nat
  | AnyText

record event_field =
  ef_name :: string
  ef_required :: bool
  ef_nullable :: bool
  ef_rule :: field_rule

definition required_field :: "string \<Rightarrow> field_rule \<Rightarrow> event_field" where
  "required_field name rule = \<lparr>ef_name = name, ef_required = True, ef_nullable = False, ef_rule = rule\<rparr>"

definition optional_field :: "string \<Rightarrow> field_rule \<Rightarrow> event_field" where
  "optional_field name rule = \<lparr>ef_name = name, ef_required = False, ef_nullable = True, ef_rule = rule\<rparr>"

definition alnum_char :: "char \<Rightarrow> bool" where
  "alnum_char c \<longleftrightarrow> is_digit c \<or> is_lower c \<or> is_upper c"

text \<open>\<open>[A-Za-z0-9][A-Za-z0-9_-]{lo,63}\<close> over the whole text.\<close>

definition segment_shape :: "nat \<Rightarrow> string \<Rightarrow> bool" where
  "segment_shape lo s \<longleftrightarrow>
     s \<noteq> [] \<and> alnum_char (hd s) \<and> lo + 1 \<le> length s \<and> length s \<le> 64
     \<and> list_all (\<lambda>c. alnum_char c \<or> c = CHR ''_'' \<or> c = CHR ''-'') (tl s)"

definition MISSION_ID_PATTERN :: "string \<Rightarrow> bool" where
  "MISSION_ID_PATTERN = segment_shape 2"

definition SAFE_SEGMENT_PATTERN :: "string \<Rightarrow> bool" where
  "SAFE_SEGMENT_PATTERN = segment_shape 0"

definition mission_id_rule :: field_rule where
  "mission_id_rule = Patterned MISSION_ID_PATTERN 3 64"

definition run_id_rule :: field_rule where
  "run_id_rule = Patterned SAFE_SEGMENT_PATTERN 1 64"

definition PIPELINE_STATUSES :: "string list" where
  "PIPELINE_STATUSES = [''processing'', ''success'', ''error'', ''cancelled'']"

definition EVENT_TYPES :: "string list" where
  "EVENT_TYPES = [''status'', ''control'', ''dead_letter'']"

text \<open>\<open>EventEnvelope\<close>; each event narrows \<open>event_type\<close> to its own name.\<close>

definition envelope_fields :: "event_field list" where
  "envelope_fields =
     [required_field ''schema_version'' VersionOne,
      required_field ''event_type'' AnyText,
      required_field ''event_id'' (Sized 1 (Some 512)),
      required_field ''correlation_id'' (Sized 1 (Some 512)),
      optional_field ''causation_id'' (Sized 0 (Some 512)),
      required_field ''attempt'' (Bounded 0 None),
      required_field ''emitted_at'' Timestamp,
      optional_field ''organization_id'' (Patterned organization_id_pattern 1 64)]"

definition status_fields :: "event_field list" where
  "status_fields =
     [required_field ''event_type'' (OneOf [''status'']),
      required_field ''vol_id'' mission_id_rule,
      required_field ''status'' (OneOf PIPELINE_STATUSES),
      optional_field ''service'' (Sized 0 (Some 64)),
      optional_field ''step'' (Sized 0 (Some 128)),
      optional_field ''progress'' (Bounded 0 (Some 100)),
      optional_field ''log'' (Sized 0 (Some 16384)),
      optional_field ''details'' JsonObject,
      optional_field ''stage_run_id'' (UuidText 36)]"

definition control_fields :: "event_field list" where
  "control_fields =
     [required_field ''event_type'' (OneOf [''control'']),
      required_field ''vol_id'' mission_id_rule,
      required_field ''command'' (OneOf [''cancel'']),
      optional_field ''analysis_run_id'' run_id_rule]"

definition dead_letter_fields :: "event_field list" where
  "dead_letter_fields =
     [required_field ''event_type'' (OneOf [''dead_letter'']),
      required_field ''source_topic'' (Sized 1 (Some 256)),
      required_field ''source_partition'' (Bounded 0 None),
      required_field ''source_offset'' (Bounded 0 None),
      required_field ''consumer_group'' (Sized 1 (Some 256)),
      required_field ''expected_event_type'' (Sized 1 (Some 64)),
      required_field ''attempts'' (Bounded 1 None),
      required_field ''error'' (Sized 1 (Some 16384)),
      required_field ''original_value'' (Sized 0 (Some 2000000))]"

fun event_fields :: "event_kind \<Rightarrow> event_field list" where
  "event_fields StatusEvent = envelope_fields @ status_fields"
| "event_fields ControlEvent = envelope_fields @ control_fields"
| "event_fields DeadLetterEvent = envelope_fields @ dead_letter_fields"

definition EVENT_MODELS :: "string \<Rightarrow> event_kind option" where
  "EVENT_MODELS event_type =
     map_of [(''status'', StatusEvent), (''control'', ControlEvent), (''dead_letter'', DeadLetterEvent)] event_type"

text \<open>
  \<open>UUID(text)\<close>: the prefixes and separators it removes, then 32 characters that
  \<open>int(text, 16)\<close> accepts (white space, a sign, a \<open>0x\<close> prefix and single underscores
  included).
\<close>

definition remove_char :: "char \<Rightarrow> string \<Rightarrow> string" where
  "remove_char c s = filter (\<lambda>d. d \<noteq> c) s"

function remove_sub :: "string \<Rightarrow> string \<Rightarrow> string" where
  "remove_sub p s =
     (if p = [] then s else case s of [] \<Rightarrow> []
      | c # cs \<Rightarrow> if starts_with p s then remove_sub p (drop (length p) s) else c # remove_sub p cs)"
  by auto
termination by (relation "measure (\<lambda>(p, s). length s)") auto

declare remove_sub.simps [simp del]

definition hex_digit :: "char \<Rightarrow> bool" where
  "hex_digit c \<longleftrightarrow> c \<in> set ''0123456789abcdefABCDEF''"

fun hex_digits :: "bool \<Rightarrow> string \<Rightarrow> bool" where
  "hex_digits ok [] = ok"
| "hex_digits ok (c # cs) =
     (if hex_digit c then hex_digits True cs else c = CHR ''_'' \<and> ok \<and> hex_digits False cs)"

definition hex_number :: "string \<Rightarrow> bool" where
  "hex_number s =
     (let t = str_strip s;
          u = (if t \<noteq> [] \<and> (hd t = CHR ''+'' \<or> hd t = CHR ''-'') then tl t else t)
      in if starts_with ''0x'' u \<or> starts_with ''0X'' u then drop 2 u \<noteq> [] \<and> hex_digits True (drop 2 u)
         else hex_digits False u)"

definition uuid_text :: "string \<Rightarrow> bool" where
  "uuid_text s \<longleftrightarrow>
     (let hex = remove_sub ''uuid:'' (remove_sub ''urn:'' s);
          brace = (\<lambda>c. c = CHR ''{'' \<or> c = CHR ''}'');
          body = remove_char CHR ''-'' (str_rstrip brace (dropWhile brace hex))
      in length body = 32 \<and> hex_number body)"

definition at_most :: "nat option \<Rightarrow> nat \<Rightarrow> bool" where
  "at_most bound n \<longleftrightarrow> (case bound of None \<Rightarrow> True | Some m \<Rightarrow> n \<le> m)"

text \<open>A value that a field accepts; \<open>stamp\<close> tells the texts of dates and times.\<close>

fun rule_holds :: "(string \<Rightarrow> bool) \<Rightarrow> field_rule \<Rightarrow> pyval \<Rightarrow> bool" where
  "rule_holds stamp (Sized lo hi) v = (case v of PStr s \<Rightarrow> lo \<le> length s \<and> at_most hi (length s) | _ \<Rightarrow> False)"
| "rule_holds stamp (Patterned P lo hi) v =
     (case v of PStr s \<Rightarrow> P s \<and> lo \<le> length s \<and> length s \<le> hi | _ \<Rightarrow> False)"
| "rule_holds stamp (OneOf names) v = (case v of PStr s \<Rightarrow> s \<in> set names | _ \<Rightarrow> False)"
| "rule_holds stamp VersionOne v = (v = PInt 1)"
| "rule_holds stamp (Bounded lo hi) v =
     (case v of PInt i \<Rightarrow> lo \<le> i \<and> (case hi of None \<Rightarrow> True | Some h \<Rightarrow> i \<le> h) | _ \<Rightarrow> False)"
| "rule_holds stamp Timestamp v = (case v of PStr s \<Rightarrow> stamp s | _ \<Rightarrow> False)"
| "rule_holds stamp JsonObject v = (case v of PDict _ \<Rightarrow> True | _ \<Rightarrow> False)"
| "rule_holds stamp (UuidText hi) v = (case v of PStr s \<Rightarrow> length s \<le> hi \<and> uuid_text s | _ \<Rightarrow> False)"
| "rule_holds stamp AnyText v = (case v of PStr _ \<Rightarrow> True | _ \<Rightarrow> False)"

definition field_holds :: "(string \<Rightarrow> bool) \<Rightarrow> dict \<Rightarrow> event_field \<Rightarrow> bool" where
  "field_holds stamp d f =
     (case fmlookup d (ef_name f) of
        None \<Rightarrow> \<not> ef_required f
      | Some v \<Rightarrow> (v = PNone \<and> ef_nullable f) \<or> rule_holds stamp (ef_rule f) v)"

definition event_conforms :: "(string \<Rightarrow> bool) \<Rightarrow> event_kind \<Rightarrow> dict \<Rightarrow> bool" where
  "event_conforms stamp kind d = list_all (field_holds stamp d) (event_fields kind)"

subsection \<open>Operations\<close>

text \<open>
  What the contracts take from outside: the model validation with its JSON rendering, the
  JSON reader and writer, the two UTF-8 decodings, the texts that are dates and times, and
  the SHA-256 of a canonical JSON array.
\<close>

record event_library =
  ev_validate :: "event_kind \<Rightarrow> dict \<Rightarrow> dict res"
  ev_json_loads :: "string \<Rightarrow> pyval res"
  ev_json_text :: "dict \<Rightarrow> string"
  ev_utf8 :: "string \<Rightarrow> string option"
  ev_utf8_replace :: "string \<Rightarrow> string"
  ev_timestamp :: "string \<Rightarrow> bool"
  ev_array_digest :: "pyval list \<Rightarrow> string"

datatype wire_value = Bytes string | Text string

definition py_repr :: "pyval \<Rightarrow> string" where
  "py_repr v = (case v of PStr s \<Rightarrow> [CHR 0x27] @ s @ [CHR 0x27] | _ \<Rightarrow> py_str v)"

definition hashable :: "pyval \<Rightarrow> bool" where
  "hashable v = (case v of PList _ \<Rightarrow> False | PDict _ \<Rightarrow> False | _ \<Rightarrow> True)"

definition validate_event_dict :: "event_library \<Rightarrow> dict \<Rightarrow> string option \<Rightarrow> dict res" where
  "validate_event_dict lib event expected =
     (case dget event ''event_type'' of
        PStr event_type \<Rightarrow>
          (case EVENT_MODELS event_type of
             None \<Rightarrow> Inl (ValueError (''unknown or missing event_type: '' @ event_type))
           | Some kind \<Rightarrow>
               (if expected \<noteq> None \<and> expected \<noteq> Some [] \<and> expected \<noteq> Some event_type
                  then Inl (ValueError (''expected event_type='' @ the expected @ '', got '' @ event_type))
                else if dget event ''schema_version'' \<noteq> PInt 1
                  then Inl (ValueError (''unsupported schema_version='' @ py_str (dget event ''schema_version'')
                              @ ''; expected 1''))
                else if kind = StatusEvent \<and> \<not> hashable (dget event ''status'')
                  then Inl (TypeError ''unhashable type'')
                else if kind = StatusEvent \<and> dget event ''status'' \<notin> PStr ` set PIPELINE_STATUSES
                  then Inl (ValueError (''status event has unsupported status='' @ py_repr (dget event ''status'')
                              @ ''; expected one of: cancelled, error, processing, success''))
                else (case dget event ''attempt'' of
                        PInt i \<Rightarrow>
                          (if i < 0 then Inl (ValueError ''attempt must be a non-negative integer'')
                           else (case ev_validate lib kind event of
                                   Inl e \<Rightarrow> Inl (ValueError (''invalid '' @ event_type @ '' event: '' @ error_text e))
                                 | Inr validated \<Rightarrow> Inr validated))
                      | _ \<Rightarrow> Inl (ValueError ''attempt must be a non-negative integer''))))
      | v \<Rightarrow> Inl (ValueError (''unknown or missing event_type: '' @ py_str v)))"

definition validate_event :: "event_library \<Rightarrow> pyval \<Rightarrow> string option \<Rightarrow> dict res" where
  "validate_event lib event expected =
     (case event of
        PDict d \<Rightarrow> validate_event_dict lib d expected
      | _ \<Rightarrow> Inl (ValueError ''event must be a JSON object''))"

text \<open>
  \<open>decode_event\<close>. Bytes are decoded before the guarded part, so invalid UTF-8 is raised as
  it is.
\<close>

definition decode_event :: "event_library \<Rightarrow> wire_value \<Rightarrow> string \<Rightarrow> dict res" where
  "decode_event lib value expected =
     rbind (case value of
              Text s \<Rightarrow> Inr s
            | Bytes b \<Rightarrow> (case ev_utf8 lib b of
                           None \<Rightarrow> Inl (ValueError ''codec can't decode bytes'') | Some s \<Rightarrow> Inr s)) (\<lambda>text.
     (case ev_json_loads lib text of
        Inl e \<Rightarrow> Inl (ValueError (''invalid JSON event: '' @ error_text e))
      | Inr payload \<Rightarrow> validate_event lib payload (Some expected)))"

definition deterministic_event_id :: "event_library \<Rightarrow> string \<Rightarrow> pyval list \<Rightarrow> string res" where
  "deterministic_event_id lib event_type identity =
     (if event_type \<notin> set EVENT_TYPES then Inl (ValueError (''unknown event_type: '' @ event_type))
      else Inr (event_type @ '':'' @ take 32 (ev_array_digest lib (PStr event_type # identity))))"

definition deterministic_tenant_event_id ::
  "event_library \<Rightarrow> string \<Rightarrow> string \<Rightarrow> pyval list \<Rightarrow> string res" where
  "deterministic_tenant_event_id lib event_type organization_id identity =
     rbind (validate_organization_id organization_id) (\<lambda>organization.
       deterministic_event_id lib event_type (PStr organization # identity))"

definition tenant_correlation_id :: "string \<Rightarrow> string \<Rightarrow> string res" where
  "tenant_correlation_id organization_id subject_id =
     rbind (validate_organization_id organization_id) (\<lambda>organization. Inr (organization @ '':'' @ subject_id))"

definition tenant_mission_key :: "string \<Rightarrow> string \<Rightarrow> string res" where
  "tenant_mission_key organization_id vol_id =
     (if vol_id = [] then Inl (ValueError ''vol_id is required for a tenant mission key'')
      else rbind (validate_organization_id organization_id) (\<lambda>organization. Inr (organization @ '':'' @ vol_id)))"

text \<open>
  \<open>make_event\<close>: the identifiers not given are drawn from the random UUIDs, of which \<open>n\<close>
  were drawn before.
\<close>

record event_arguments =
  ea_event_id :: "string option"
  ea_correlation_id :: "string option"
  ea_causation_id :: "string option"
  ea_attempt :: pyval

definition given :: "string option \<Rightarrow> string option" where
  "given s = (if s = Some [] then None else s)"

definition default_correlation :: "(nat \<Rightarrow> string) \<Rightarrow> dict \<Rightarrow> nat \<Rightarrow> string \<times> nat" where
  "default_correlation uuid4 payload n =
     (let organization = dget payload ''organization_id''; vol_id = dget payload ''vol_id''
      in if truthy organization \<and> truthy vol_id then (py_str organization @ '':'' @ py_str vol_id, n)
         else if truthy vol_id then (py_str vol_id, n)
         else (uuid4 n, n + 1))"

definition optional_text :: "string option \<Rightarrow> pyval" where
  "optional_text s = (case s of None \<Rightarrow> PNone | Some t \<Rightarrow> PStr t)"

definition make_event ::
  "event_library \<Rightarrow> (nat \<Rightarrow> string) \<Rightarrow> instant \<Rightarrow> string \<Rightarrow> dict \<Rightarrow> event_arguments \<Rightarrow> nat \<Rightarrow> dict res \<times> nat" where
  "make_event lib uuid4 now event_type payload args n =
     (case default_correlation uuid4 payload n of (correlation, n1) \<Rightarrow>
      let (event_id, n2) = (case given (ea_event_id args) of
            Some i \<Rightarrow> (i, n1) | None \<Rightarrow> (event_type @ '':'' @ uuid4 n1, n1 + 1));
          correlation_id = (case given (ea_correlation_id args) of
            Some c \<Rightarrow> c
          | None \<Rightarrow> (case given (ea_event_id args) of Some i \<Rightarrow> i | None \<Rightarrow> correlation));
          event = fmupd ''schema_version'' (PInt 1) (fmupd ''event_type'' (PStr event_type)
            (fmupd ''event_id'' (PStr event_id) (fmupd ''correlation_id'' (PStr correlation_id)
            (fmupd ''causation_id'' (optional_text (ea_causation_id args)) (fmupd ''attempt'' (ea_attempt args)
            (fmupd ''emitted_at'' (PStr (isoformat now)) payload))))))
      in (validate_event lib (PDict event) (Some event_type), n2))"

definition build_cancel_event ::
  "event_library \<Rightarrow> (nat \<Rightarrow> string) \<Rightarrow> instant \<Rightarrow> string \<Rightarrow> string \<Rightarrow> int \<Rightarrow> nat \<Rightarrow> dict res \<times> nat" where
  "build_cancel_event lib uuid4 now vol_id organization_id attempt n =
     (case rbind (validate_organization_id organization_id) (\<lambda>organization.
           rbind (deterministic_tenant_event_id lib ''control'' organization
                    [PStr vol_id, PStr ''cancel'', PInt attempt]) (\<lambda>event_id.
           rbind (tenant_correlation_id organization vol_id) (\<lambda>correlation.
             Inr (organization, event_id, correlation)))) of
        Inl e \<Rightarrow> (Inl e, n)
      | Inr (organization, event_id, correlation) \<Rightarrow>
          make_event lib uuid4 now ''control''
            (fmap_of_list [(''vol_id'', PStr vol_id), (''organization_id'', PStr organization),
               (''command'', PStr ''cancel'')])
            \<lparr>ea_event_id = Some event_id, ea_correlation_id = Some correlation, ea_causation_id = None,
             ea_attempt = PInt attempt\<rparr> n)"

subsection \<open>What is relied on of the library\<close>

text \<open>
  A model that validates has its declared fields as declared; dumping only the fields that
  were set leaves every value as given, except that a date is rendered anew; \<open>ev_timestamp\<close>
  holds of the texts dates are rendered to, and such a text is accepted and rendered as it is.
\<close>

definition event_library_ok :: "event_library \<Rightarrow> bool" where
  "event_library_ok lib \<longleftrightarrow>
     (\<forall>kind d e. ev_validate lib kind d = Inr e \<longrightarrow>
        event_conforms (ev_timestamp lib) kind e
        \<and> (\<forall>k. k \<noteq> ''emitted_at'' \<longrightarrow> fmlookup e k = fmlookup d k))
     \<and> (\<forall>kind d. event_conforms (ev_timestamp lib) kind d \<longrightarrow> ev_validate lib kind d = Inr d)"

lemma validates:
  assumes "event_library_ok lib" "ev_validate lib kind d = Inr e"
  shows "event_conforms (ev_timestamp lib) kind e" and "k \<noteq> ''emitted_at'' \<Longrightarrow> fmlookup e k = fmlookup d k"
  using assms by (auto simp: event_library_ok_def)

lemma validates_conforming:
  "event_library_ok lib \<Longrightarrow> event_conforms (ev_timestamp lib) kind d \<Longrightarrow> ev_validate lib kind d = Inr d"
  by (simp add: event_library_ok_def)

subsection \<open>Accepted events\<close>

text \<open>What the checks before the model establish.\<close>

definition type_expected :: "string option \<Rightarrow> string \<Rightarrow> bool" where
  "type_expected expected event_type \<longleftrightarrow> expected = None \<or> expected = Some [] \<or> expected = Some event_type"

definition envelope_checked :: "string option \<Rightarrow> event_kind \<Rightarrow> dict \<Rightarrow> bool" where
  "envelope_checked expected kind d \<longleftrightarrow>
     (\<exists>t. dget d ''event_type'' = PStr t \<and> EVENT_MODELS t = Some kind \<and> type_expected expected t)
     \<and> dget d ''schema_version'' = PInt 1
     \<and> (kind = StatusEvent \<longrightarrow> dget d ''status'' \<in> PStr ` set PIPELINE_STATUSES)
     \<and> (\<exists>i \<ge> 0. dget d ''attempt'' = PInt i)"

lemma hashable_status: "v \<in> PStr ` set PIPELINE_STATUSES \<Longrightarrow> hashable v"
  by (auto simp: hashable_def)

lemma validate_event_dict_Inr [res_elims]:
  "validate_event_dict lib d expected = Inr e \<longleftrightarrow>
   (\<exists>kind. envelope_checked expected kind d \<and> ev_validate lib kind d = Inr e)"
proof (cases "\<exists>t kind. dget d ''event_type'' = PStr t \<and> EVENT_MODELS t = Some kind")
  case True
  then obtain t kind where t: "dget d ''event_type'' = PStr t" "EVENT_MODELS t = Some kind" by blast
  show ?thesis
    by (cases "dget d ''attempt''")
      (auto simp: validate_event_dict_def envelope_checked_def type_expected_def t hashable_status split: sum.splits)
next
  case False
  then show ?thesis
    by (auto simp: validate_event_dict_def envelope_checked_def split: pyval.splits option.splits)
qed

lemma validate_event_Inr [res_elims]:
  "validate_event lib v expected = Inr e \<longleftrightarrow> (\<exists>d. v = PDict d \<and> validate_event_dict lib d expected = Inr e)"
  by (cases v) (simp_all add: validate_event_def)

lemma envelope_checked_agree:
  assumes "envelope_checked expected kind d" and "\<And>k. k \<noteq> ''emitted_at'' \<Longrightarrow> fmlookup e k = fmlookup d k"
  shows "envelope_checked expected kind e"
  using assms by (simp add: envelope_checked_def dget_def)

lemma validated_event:
  assumes lib: "event_library_ok lib" and valid: "validate_event lib v expected = Inr e"
  shows "\<exists>kind. envelope_checked expected kind e \<and> event_conforms (ev_timestamp lib) kind e
      \<and> ev_validate lib kind e = Inr e"
    and "validate_event lib (PDict e) expected = Inr e"
proof -
  obtain d kind where d: "envelope_checked expected kind d" "ev_validate lib kind d = Inr e"
    using valid by (auto simp: validate_event_Inr validate_event_dict_Inr)
  have e: "envelope_checked expected kind e" "event_conforms (ev_timestamp lib) kind e"
    using d validates [OF lib d(2)] envelope_checked_agree [OF d(1)] by blast+
  then have "ev_validate lib kind e = Inr e" by (simp add: validates_conforming [OF lib])
  with e show "\<exists>kind. envelope_checked expected kind e \<and> event_conforms (ev_timestamp lib) kind e
      \<and> ev_validate lib kind e = Inr e"
    and "validate_event lib (PDict e) expected = Inr e"
    by (auto simp: validate_event_Inr validate_event_dict_Inr)
qed

text \<open>Validation without an expected type accepts what a validation with one returned.\<close>

lemma validated_event_any:
  assumes "event_library_ok lib" "validate_event lib v expected = Inr e"
  shows "validate_event lib (PDict e) None = Inr e"
  using validated_event(1) [OF assms]
  by (force simp: validate_event_Inr validate_event_dict_Inr envelope_checked_def type_expected_def)

lemma conforming_field:
  "event_conforms stamp kind d \<Longrightarrow> f \<in> set (event_fields kind) \<Longrightarrow> field_holds stamp d f"
  by (simp add: event_conforms_def list_all_iff)

text \<open>Every event has an identity of one to 512 characters.\<close>

lemma conforming_event_id:
  assumes "event_conforms stamp kind d"
  obtains i where "fmlookup d ''event_id'' = Some (PStr i)" "1 \<le> length i" "length i \<le> 512"
proof -
  have "required_field ''event_id'' (Sized 1 (Some 512)) \<in> set (event_fields kind)"
    by (cases kind) (simp_all add: envelope_fields_def)
  from conforming_field [OF assms this] show thesis
    by (auto simp: field_holds_def required_field_def at_most_def intro: that split: option.splits pyval.splits)
qed

subsection \<open>An example library\<close>

text \<open>Field checks as declared, and a reader that knows the text of one event.\<close>

definition example_library :: "dict \<Rightarrow> event_library" where
  "example_library event =
     \<lparr>ev_validate = (\<lambda>kind d. if event_conforms (\<lambda>_. True) kind d then Inr d
        else Inl (ValueError ''field'')),
      ev_json_loads = (\<lambda>s. if s = ''text'' then Inr (PDict event) else Inl (ValueError ''json'')),
      ev_json_text = (\<lambda>_. ''text''), ev_utf8 = Some, ev_utf8_replace = (\<lambda>s. s), ev_timestamp = (\<lambda>_. True),
      ev_array_digest = (\<lambda>xs. concat (map py_str xs))\<rparr>"

lemma example_library_ok: "event_library_ok (example_library event)"
  by (simp add: event_library_ok_def example_library_def)

definition example_cancel :: dict where
  "example_cancel =
     fmupd ''schema_version'' (PInt 1) (fmupd ''event_type'' (PStr ''control'')
     (fmupd ''event_id'' (PStr ''control:controlacmem-1cancel2'') (fmupd ''correlation_id'' (PStr ''acme:m-1'')
     (fmupd ''causation_id'' PNone (fmupd ''attempt'' (PInt 2) (fmupd ''emitted_at'' (PStr (isoformat 0))
       (fmap_of_list [(''vol_id'', PStr ''m-1''), (''organization_id'', PStr ''acme''),
          (''command'', PStr ''cancel'')])))))))"

lemma segment_example: "MISSION_ID_PATTERN ''m-1''"
  by (simp add: MISSION_ID_PATTERN_def segment_shape_def alnum_char_def is_lower_def is_digit_def)

lemma organization_example: "organization_id_pattern ''acme''"
  by (simp add: organization_id_pattern_def id_char_def is_lower_def)

lemma example_cancel_conforms: "event_conforms (\<lambda>_. True) ControlEvent example_cancel"
  by (simp add: event_conforms_def envelope_fields_def control_fields_def field_holds_def required_field_def
      optional_field_def example_cancel_def mission_id_rule_def run_id_rule_def at_most_def segment_example
      organization_example)

lemma example_cancel_valid:
  "validate_event (example_library event) (PDict example_cancel) (Some ''control'') = Inr example_cancel"
proof -
  have "envelope_checked (Some ''control'') ControlEvent example_cancel"
    by (simp add: envelope_checked_def type_expected_def EVENT_MODELS_def example_cancel_def)
  with example_cancel_conforms show ?thesis
    by (auto simp: validate_event_Inr validate_event_dict_Inr example_library_def)
qed

subsection \<open>Properties\<close>



text \<open>An event that was built is decoded as it was built.\<close>

lemma make_event_validated:
  assumes "make_event lib uuid4 now t payload args n = (Inr e, m)"
  shows "\<exists>d. validate_event lib d (Some t) = Inr e"
  using assms by (auto simp: make_event_def Let_def split: prod.splits)

text \<open>An event that a producer built is what its consumers decode from the text it is
  published as, and what the outbox stores when it validates it again.\<close>

lemma built_events_are_decoded:
  assumes "event_library_ok lib" and "make_event lib uuid4 now t payload args n = (Inr e, m)"
    and "ev_json_loads lib (ev_json_text lib e) = Inr (PDict e)"
  shows "decode_event lib (Text (ev_json_text lib e)) t = Inr e \<and> validate_event lib (PDict e) None = Inr e"
proof -
  obtain d where d: "validate_event lib d (Some t) = Inr e" using make_event_validated [OF assms(2)] by blast
  show ?thesis
    using validated_event(2) [OF assms(1) d] validated_event_any [OF assms(1) d]
    by (simp add: decode_event_def assms(3))
qed

lemma example_cancel_built:
  "build_cancel_event (example_library example_cancel) (\<lambda>_. ''u'') 0 ''m-1'' ''acme'' 2 0 = (Inr example_cancel, 0)"
proof -
  have "validate_organization_id ''acme'' = Inr ''acme''"
    by (simp add: validate_organization_id_Inr organization_example str_strip_def str_rstrip_def str_lstrip_def
        is_space_def)
  moreover have "int_text 2 = ''2''" by code_simp
  ultimately show ?thesis
    using example_cancel_valid [of example_cancel]
    by (simp add: build_cancel_event_def deterministic_tenant_event_id_def deterministic_event_id_def
        EVENT_TYPES_def tenant_correlation_id_def make_event_def default_correlation_def given_def optional_text_def
        example_library_def example_cancel_def Let_def)
qed

lemma example_cancel_decoded:
  "decode_event (example_library example_cancel) (Text ''text'') ''control'' = Inr example_cancel"
  using example_cancel_valid [of example_cancel] by (simp add: decode_event_def example_library_def)

text \<open>The cancellation of attempt 2, read back from its text.\<close>

lemma built_events_are_decoded_witness:
  "decode_event (example_library example_cancel) (Text ''text'') ''control'' = Inr example_cancel"
proof -
  let ?lib = "example_library example_cancel"
  obtain t payload args where t: "t = ''control''"
    "make_event ?lib (\<lambda>_. ''u'') 0 t payload args 0 = (Inr example_cancel, 0)"
    using example_cancel_built by (auto simp: build_cancel_event_def split: sum.splits)
  have "ev_json_loads ?lib (ev_json_text ?lib example_cancel) = Inr (PDict example_cancel)"
    by (simp add: example_library_def)
  from built_events_are_decoded [OF example_library_ok t(2) this] show ?thesis
    by (simp add: t example_library_def)
qed

text \<open>
  A status that is an array or an object is not rejected as an invalid event: the test of
  membership in the set of statuses raises first.
\<close>

lemma unhashable_status_escapes:
  assumes "dget d ''event_type'' = PStr ''status''" "dget d ''schema_version'' = PInt 1"
    and "dget d ''status'' = PList xs"
  shows "validate_event lib (PDict d) None = Inl (TypeError ''unhashable type'')"
  using assms by (simp add: validate_event_def validate_event_dict_def EVENT_MODELS_def hashable_def)

subsection \<open>Identities across tenants\<close>

lemma deterministic_tenant_event_id_Inr:
  "deterministic_tenant_event_id lib t org identity = Inr i \<longleftrightarrow>
   (\<exists>organization. validate_organization_id org = Inr organization \<and> t \<in> set EVENT_TYPES
      \<and> i = t @ '':'' @ take 32 (ev_array_digest lib (PStr t # PStr organization # identity)))"
  by (auto simp: deterministic_tenant_event_id_def deterministic_event_id_def rbind_Inr_iff split: if_splits)

lemma before_colon:
  "CHR '':'' \<notin> set a \<Longrightarrow> CHR '':'' \<notin> set b \<Longrightarrow> a @ '':'' @ s = b @ '':'' @ t \<Longrightarrow> a = b \<and> s = t"
proof (induction a arbitrary: b)
  case Nil
  then show ?case by (cases b) auto
next
  case (Cons c a)
  then show ?case by (cases b) auto
qed

lemma event_types_no_colon: "t \<in> set EVENT_TYPES \<Longrightarrow> CHR '':'' \<notin> set t"
  by (auto simp: EVENT_TYPES_def)

text \<open>Deterministic event identities do not collide: as long as the truncated digests of
  distinct arrays differ, equal identities come from the same type, the same organization
  and the same subject.\<close>

lemma event_identities_are_tenant_bound:
  assumes "inj_on (\<lambda>xs. take 32 (ev_array_digest lib xs)) A"
    and "\<And>o'. validate_organization_id org = Inr o' \<Longrightarrow> PStr t # PStr o' # identity \<in> A"
    and "\<And>o'. validate_organization_id org' = Inr o' \<Longrightarrow> PStr t' # PStr o' # identity' \<in> A"
    and "deterministic_tenant_event_id lib t org identity = Inr i"
    and "deterministic_tenant_event_id lib t' org' identity' = Inr i"
  shows "t = t' \<and> str_strip org = str_strip org' \<and> identity = identity'"
proof -
  obtain o1 where o1: "validate_organization_id org = Inr o1" "t \<in> set EVENT_TYPES"
    "i = t @ '':'' @ take 32 (ev_array_digest lib (PStr t # PStr o1 # identity))"
    using assms(4) by (auto simp: deterministic_tenant_event_id_Inr)
  obtain o2 where o2: "validate_organization_id org' = Inr o2" "t' \<in> set EVENT_TYPES"
    "i = t' @ '':'' @ take 32 (ev_array_digest lib (PStr t' # PStr o2 # identity'))"
    using assms(5) by (auto simp: deterministic_tenant_event_id_Inr)
  have "t = t' \<and> take 32 (ev_array_digest lib (PStr t # PStr o1 # identity))
      = take 32 (ev_array_digest lib (PStr t' # PStr o2 # identity'))"
    using o1(3) o2(3) by (intro before_colon event_types_no_colon o1(2) o2(2)) simp
  from inj_onD [OF assms(1) this [THEN conjunct2] assms(2) [OF o1(1)] assms(3) [OF o2(1)]]
  have "PStr t # PStr o1 # identity = PStr t' # PStr o2 # identity'" .
  then show ?thesis using o1(1) o2(1) by (simp add: validate_organization_id_Inr)
qed

text \<open>The identities of one cancellation under two organizations differ.\<close>

lemma event_identities_are_tenant_bound_witness:
  "deterministic_tenant_event_id (example_library fmempty) ''control'' ''acme'' [PStr ''m-1'']
     \<noteq> deterministic_tenant_event_id (example_library fmempty) ''control'' ''acmf'' [PStr ''m-1'']"
proof
  let ?lib = "example_library fmempty"
  let ?A = "{[PStr ''control'', PStr ''acme'', PStr ''m-1''], [PStr ''control'', PStr ''acmf'', PStr ''m-1'']}"
  assume same: "deterministic_tenant_event_id ?lib ''control'' ''acme'' [PStr ''m-1'']
     = deterministic_tenant_event_id ?lib ''control'' ''acmf'' [PStr ''m-1'']"
  have orgs: "validate_organization_id ''acme'' = Inr ''acme''" "validate_organization_id ''acmf'' = Inr ''acmf''"
    by (simp_all add: validate_organization_id_Inr organization_id_pattern_def id_char_def is_lower_def
        str_strip_def str_rstrip_def str_lstrip_def is_space_def)
  have "inj_on (\<lambda>xs. take 32 (ev_array_digest ?lib xs)) ?A" by (simp add: example_library_def)
  moreover have "deterministic_tenant_event_id ?lib ''control'' ''acme'' [PStr ''m-1'']
      = Inr (''control:'' @ ''controlacmem-1'')"
    by (simp add: deterministic_tenant_event_id_def deterministic_event_id_def orgs EVENT_TYPES_def example_library_def)
  ultimately have "str_strip ''acme'' = str_strip ''acmf''"
    using event_identities_are_tenant_bound [of ?lib ?A "''acme''" "''control''" "[PStr ''m-1'']" "''acmf''"
        "''control''" "[PStr ''m-1'']"] same by (simp add: orgs)
  then show False using orgs by (simp add: validate_organization_id_Inr)
qed

end
