(* ===== verification/KafkaReliability.thy ===== *)
theory KafkaReliability
  imports EventContracts OrchestratorSettings
begin

text \<open>
  Reliable consumption and publication (\<open>shared/kafka_reliability.py\<close>): the retry policy, the
  watchdog of a consumer's assignment, the wait for one delivery, the dead letter of a
  message and the handling of one message, whose offset is committed last.

  The broker client, the handler and the clock are the parameters of the record
  \<open>consumption\<close>, over a state of their own; every call made through it is kept in the list
  of actions that the handling returns.
\<close>

subsection \<open>The retry policy\<close>

record retry_policy =
  rp_max_attempts :: int
  rp_base_delay_seconds :: rat
  rp_max_delay_seconds :: rat

definition default_retry_policy :: retry_policy where
  "default_retry_policy = \<lparr>rp_max_attempts = 3, rp_base_delay_seconds = 1, rp_max_delay_seconds = 30\<rparr>"

definition env_float :: "decoder \<Rightarrow> environ \<Rightarrow> string \<Rightarrow> string \<Rightarrow> rat res" where
  "env_float dc environ name fallback = dc_float dc (getenv environ name fallback)"

definition policy_from_environment :: "decoder \<Rightarrow> environ \<Rightarrow> retry_policy res" where
  "policy_from_environment dc environ =
     (case parse_int (getenv environ ''KAFKA_RETRY_MAX_ATTEMPTS'' ''3'') of
        None \<Rightarrow> Inl (ValueError ''invalid literal for int() with base 10'')
      | Some attempts \<Rightarrow>
          rbind (env_float dc environ ''KAFKA_RETRY_BASE_DELAY_SECONDS'' ''1'') (\<lambda>base.
          rbind (env_float dc environ ''KAFKA_RETRY_MAX_DELAY_SECONDS'' ''30'') (\<lambda>most.
            Inr \<lparr>rp_max_attempts = max 1 attempts, rp_base_delay_seconds = max 0 base,
                 rp_max_delay_seconds = max 0 most\<rparr>)))"

definition delay_before :: "retry_policy \<Rightarrow> int \<Rightarrow> rat" where
  "delay_before p attempt =
     min (rp_max_delay_seconds p) (rp_base_delay_seconds p * 2 ^ nat (max 0 (attempt - 1)))"

definition policy_ok :: "retry_policy \<Rightarrow> bool" where
  "policy_ok p \<longleftrightarrow> 1 \<le> rp_max_attempts p \<and> 0 \<le> rp_base_delay_seconds p \<and> 0 \<le> rp_max_delay_seconds p"

lemma policy_from_environment_ok: "policy_from_environment dc env = Inr p \<Longrightarrow> policy_ok p"
  by (auto simp: policy_from_environment_def policy_ok_def rbind_Inr_iff split: option.splits)

lemma delay_bounds: "policy_ok p \<Longrightarrow> 0 \<le> delay_before p n \<and> delay_before p n \<le> rp_max_delay_seconds p"
  by (simp add: policy_ok_def delay_before_def)

lemma delay_mono: "policy_ok p \<Longrightarrow> m \<le> n \<Longrightarrow> delay_before p m \<le> delay_before p n"
  unfolding delay_before_def policy_ok_def
  by (intro min.mono order_refl mult_left_mono power_increasing) auto

subsection \<open>The assignment watchdog\<close>

record watchdog =
  wd_timeout_seconds :: rat
  wd_had_assignment :: bool
  wd_unassigned_since :: "rat option"

definition watchdog_from_environment :: "decoder \<Rightarrow> environ \<Rightarrow> watchdog res" where
  "watchdog_from_environment dc environ =
     rbind (env_float dc environ ''KAFKA_CONSUMER_UNASSIGNED_TIMEOUT_SECONDS'' ''60'') (\<lambda>t.
       Inr \<lparr>wd_timeout_seconds = max 10 t, wd_had_assignment = False, wd_unassigned_since = None\<rparr>)"

definition should_recreate :: "bool \<Rightarrow> rat \<Rightarrow> watchdog \<Rightarrow> bool \<times> watchdog" where
  "should_recreate assigned now w =
     (if assigned then (False, w\<lparr>wd_had_assignment := True, wd_unassigned_since := None\<rparr>)
      else if \<not> wd_had_assignment w then (False, w)
      else (case wd_unassigned_since w of
              None \<Rightarrow> (False, w\<lparr>wd_unassigned_since := Some now\<rparr>)
            | Some since \<Rightarrow> (wd_timeout_seconds w \<le> now - since, w)))"

definition watchdog_reset :: "watchdog \<Rightarrow> watchdog" where
  "watchdog_reset w = w\<lparr>wd_had_assignment := False, wd_unassigned_since := None\<rparr>"

text \<open>The consumer in use and whether it is a new one.\<close>

definition recreate_unassigned_consumer ::
  "('c \<Rightarrow> bool) \<Rightarrow> 'c \<Rightarrow> rat \<Rightarrow> 'c \<Rightarrow> watchdog \<Rightarrow> ('c \<times> bool) \<times> watchdog" where
  "recreate_unassigned_consumer assigned fresh now consumer w =
     (case should_recreate (assigned consumer) now w of
        (False, w') \<Rightarrow> ((consumer, False), w')
      | (True, w') \<Rightarrow> ((fresh, True), watchdog_reset w'))"

text \<open>The observations of one consumer since it was created, in order.\<close>

fun watch :: "(bool \<times> rat) list \<Rightarrow> watchdog \<Rightarrow> watchdog" where
  "watch [] w = w"
| "watch ((assigned, now) # obs) w = watch obs (snd (should_recreate assigned now w))"

text \<open>
  The reference: some assignment was seen, and the time since the first look that found
  the consumer unassigned after the last assignment has reached the timeout.
\<close>

definition lost_since :: "(bool \<times> rat) list \<Rightarrow> rat option" where
  "lost_since obs =
     (if \<exists>ob \<in> set obs. fst ob
      then (case dropWhile (\<lambda>ob. \<not> fst ob) (rev obs) of
              [] \<Rightarrow> None
            | _ \<Rightarrow> (case rev (takeWhile (\<lambda>ob. \<not> fst ob) (rev obs)) of [] \<Rightarrow> None | ob # _ \<Rightarrow> Some (snd ob)))
      else None)"

lemma watch_append: "watch (xs @ ys) w = watch ys (watch xs w)"
  by (induction xs arbitrary: w) auto

lemma watch_state:
  assumes "wd_had_assignment w = False" "wd_unassigned_since w = None"
  shows "wd_timeout_seconds (watch obs w) = wd_timeout_seconds w
    \<and> wd_had_assignment (watch obs w) = (\<exists>ob \<in> set obs. fst ob)
    \<and> wd_unassigned_since (watch obs w) = lost_since obs"
proof (induction obs rule: rev_induct)
  case Nil
  then show ?case using assms by (simp add: lost_since_def)
next
  case (snoc ob obs)
  obtain a t where ob: "ob = (a, t)" by (cases ob)
  show ?case
  proof (cases a)
    case True
    then show ?thesis using snoc by (simp add: ob watch_append should_recreate_def lost_since_def)
  next
    case False
    have "lost_since (obs @ [ob])
        = (if \<exists>ob \<in> set obs. fst ob then (case lost_since obs of None \<Rightarrow> Some t | Some s \<Rightarrow> Some s) else None)"
      using False
      by (auto simp: lost_since_def ob dropWhile_eq_Nil_conv split: list.splits)
    moreover have "lost_since obs = Some x \<Longrightarrow> \<exists>ob \<in> set obs. fst ob" for x
      by (simp add: lost_since_def split: if_splits)
    ultimately show ?thesis using snoc False
      by (auto simp: ob watch_append should_recreate_def split: option.splits)
  qed
qed

text \<open>The watchdog recreates a consumer exactly when it had an assignment, was then seen
  without one, and is still without one when the timeout since that first look is over;
  a consumer that never had an assignment is left alone.\<close>

lemma watchdog_detects_lost_consumers:
  assumes "watchdog_from_environment dc environ = Inr w"
  shows "fst (should_recreate assigned now (watch obs w))
    \<longleftrightarrow> \<not> assigned \<and> (\<exists>since. lost_since obs = Some since \<and> wd_timeout_seconds w \<le> now - since)"
proof -
  have "wd_had_assignment w = False" "wd_unassigned_since w = None"
    using assms by (auto simp: watchdog_from_environment_def rbind_Inr_iff)
  note state = watch_state [OF this, of obs]
  have "lost_since obs = Some x \<Longrightarrow> \<exists>ob \<in> set obs. fst ob" for x
    by (simp add: lost_since_def split: if_splits)
  with state show ?thesis by (auto simp: should_recreate_def split: option.splits)
qed

text \<open>A consumer assigned at 0, lost at 5 and looked at again at 20, with a timeout of 10 seconds.\<close>

lemma watchdog_detects_lost_consumers_witness:
  "fst (should_recreate False 20 (watch [(True, 0), (False, 5)]
      \<lparr>wd_timeout_seconds = 10, wd_had_assignment = False, wd_unassigned_since = None\<rparr>))"
proof -
  have "watchdog_from_environment \<lparr>dc_json = (\<lambda>_. Inr PNone), dc_float = (\<lambda>_. Inr 1)\<rparr> (\<lambda>_. None)
      = Inr \<lparr>wd_timeout_seconds = 10, wd_had_assignment = False, wd_unassigned_since = None\<rparr>"
    by (simp add: watchdog_from_environment_def env_float_def)
  from watchdog_detects_lost_consumers [OF this, of False 20 "[(True, 0), (False, 5)]"]
  show ?thesis by (simp add: lost_since_def)
qed

subsection \<open>Waiting for one delivery\<close>

text \<open>
  The outcome of one poll and the instant at which it returns. The loop ends with the
  delivery report or at the deadline; None is a loop that has not ended after the polls
  considered.
\<close>

datatype delivery = NotYet | Delivered "string option"

fun await_delivery ::
  "string \<Rightarrow> instant \<Rightarrow> instant \<Rightarrow> instant \<Rightarrow> (delivery \<times> instant) list \<Rightarrow> unit res option" where
  "await_delivery topic timeout deadline now polls =
     (if deadline - now \<le> 0
      then Some (Inl (RuntimeError (''Kafka delivery confirmation timed out for '' @ topic)))
      else (case polls of
              [] \<Rightarrow> None
            | (Delivered None, _) # _ \<Rightarrow> Some (Inr ())
            | (Delivered (Some e), _) # _ \<Rightarrow> Some (Inl (RuntimeError (''Kafka delivery failed for '' @ topic @ '': '' @ e)))
            | (NotYet, later) # rest \<Rightarrow> await_delivery topic timeout deadline later rest))"

declare await_delivery.simps [simp del]

definition publish_json ::
  "string \<Rightarrow> instant \<Rightarrow> instant \<Rightarrow> (delivery \<times> instant) list \<Rightarrow> unit res option" where
  "publish_json topic delivery_timeout now polls =
     (let timeout = max 0 delivery_timeout in await_delivery topic timeout (now + timeout) now polls)"

text \<open>Polls that find nothing return after at least \<open>d\<close> microseconds.\<close>

fun polls_advance :: "instant \<Rightarrow> instant \<Rightarrow> (delivery \<times> instant) list \<Rightarrow> bool" where
  "polls_advance d now [] = True"
| "polls_advance d now ((report, later) # rest) \<longleftrightarrow> now + d \<le> later \<and> polls_advance d later rest"

lemma await_delivery_ends:
  assumes "polls_advance d now polls" and "deadline - now \<le> int (length polls) * d"
  shows "await_delivery topic timeout deadline now polls \<noteq> None"
  using assms
proof (induction polls arbitrary: now)
  case Nil
  then show ?case by (simp add: await_delivery.simps)
next
  case (Cons p polls)
  obtain report later where p: "p = (report, later)" by (cases p)
  have "deadline - later \<le> int (length polls) * d" using Cons.prems by (simp add: p algebra_simps)
  with Cons.IH [of later] Cons.prems show ?case
    by (cases report)
      (auto simp: p await_delivery.simps [of topic timeout deadline now] split: option.splits)
qed

lemma await_delivery_Inr:
  "await_delivery topic timeout deadline now polls = Some (Inr ()) \<Longrightarrow> \<exists>t. (Delivered None, t) \<in> set polls"
proof (induction polls arbitrary: now)
  case Nil
  then show ?case by (simp add: await_delivery.simps split: if_splits)
next
  case (Cons p polls)
  then show ?case
    by (auto simp: await_delivery.simps [of topic timeout deadline now]
        split: if_splits prod.splits delivery.splits option.splits)
qed

text \<open>Publishing always ends: when unsuccessful polls take at least some time each, it returns
  within the polls the timeout allows, and it succeeds only on a delivery report without
  error.\<close>

lemma publish_json_returns:
  assumes "0 < d" and "polls_advance d now polls" and "max 0 timeout \<le> int (length polls) * d"
  shows "\<exists>r. publish_json topic timeout now polls = Some r
    \<and> (r = Inr () \<longrightarrow> (\<exists>t. (Delivered None, t) \<in> set polls))"
proof -
  have "now + max 0 timeout - now \<le> int (length polls) * d" using assms(3) by simp
  from await_delivery_ends [OF assms(2) this, of topic "max 0 timeout"] show ?thesis
    unfolding publish_json_def Let_def by (auto dest: await_delivery_Inr)
qed

text \<open>A report that comes with the second poll.\<close>

lemma publish_json_returns_witness:
  "publish_json ''t'' 200000 0 [(NotYet, 100000), (Delivered None, 150000)] = Some (Inr ())
    \<and> (\<exists>r. publish_json ''t'' 200000 0 [(NotYet, 100000), (NotYet, 200000)] = Some r)"
  using publish_json_returns [of 100000 0 "[(NotYet, 100000), (NotYet, 200000)]" 200000 "''t''"]
  by (auto simp: publish_json_def await_delivery.simps)

subsection \<open>Messages and dead letters\<close>

text \<open>The accessors a message object offers, and its value.\<close>

record message =
  msg_methods :: dict
  msg_value :: wire_value

definition call_method :: "message \<Rightarrow> string \<Rightarrow> pyval \<Rightarrow> pyval" where
  "call_method m name fallback = (case fmlookup (msg_methods m) name of None \<Rightarrow> fallback | Some v \<Rightarrow> v)"

definition message_location :: "message \<Rightarrow> dict" where
  "message_location m =
     fmap_of_list [(''topic'', call_method m ''topic'' (PStr ''unknown'')),
       (''partition'', call_method m ''partition'' PNone), (''offset'', call_method m ''offset'' PNone)]"

fun error_class :: "py_error \<Rightarrow> string" where
  "error_class (ValueError _) = ''ValueError''"
| "error_class (TypeError _) = ''TypeError''"
| "error_class (IndexError _) = ''IndexError''"
| "error_class (KeyError _) = ''KeyError''"
| "error_class (AttributeError _) = ''AttributeError''"
| "error_class (RuntimeError _) = ''RuntimeError''"
| "error_class NoResultFound = ''NoResultFound''"
| "error_class MultipleResultsFound = ''MultipleResultsFound''"
| "error_class ZeroDivisionError = ''ZeroDivisionError''"
| "error_class (StageExecutionCancelled _) = ''StageExecutionCancelled''"
| "error_class (StorageQuotaExceeded _ _ _) = ''StorageQuotaExceeded''"
| "error_class (KubernetesApiError _ _) = ''KubernetesApiError''"

definition described :: "py_error \<Rightarrow> string" where
  "described e = error_class e @ '': '' @ error_text e"

text \<open>
  The tenant of a poison message: only an object whose organization satisfies the
  contract binds its dead letter; invalid JSON and invalid organizations do not.
\<close>

definition poison_organization :: "event_library \<Rightarrow> string \<Rightarrow> string option res" where
  "poison_organization lib original =
     (case ev_json_loads lib original of
        Inl e \<Rightarrow> if is_value_error e then Inr None else Inl e
      | Inr (PDict d) \<Rightarrow>
          (case dget d ''organization_id'' of
             PStr s \<Rightarrow> (case validate_organization_id s of Inl _ \<Rightarrow> Inr None | Inr organization \<Rightarrow> Inr (Some organization))
           | _ \<Rightarrow> Inr None)
      | Inr _ \<Rightarrow> Inr None)"

definition original_text :: "event_library \<Rightarrow> wire_value \<Rightarrow> string" where
  "original_text lib value = (case value of Text s \<Rightarrow> s | Bytes b \<Rightarrow> ev_utf8_replace lib b)"

definition location_text :: "message \<Rightarrow> string" where
  "location_text m = py_str (call_method m ''topic'' (PStr ''unknown'')) @ '':''
     @ py_str (call_method m ''partition'' PNone) @ '':'' @ py_str (call_method m ''offset'' PNone)"

definition dead_letter_payload ::
  "event_library \<Rightarrow> message \<Rightarrow> string \<Rightarrow> string \<Rightarrow> wire_value \<Rightarrow> py_error \<Rightarrow> int \<Rightarrow> dict res" where
  "dead_letter_payload lib m consumer_group expected_type value e attempts =
     rbind (poison_organization lib (original_text lib value)) (\<lambda>organization.
     (let payload = fmap_of_list
            [(''source_topic'', dget (message_location m) ''topic''),
             (''source_partition'', dget (message_location m) ''partition''),
             (''source_offset'', dget (message_location m) ''offset''),
             (''consumer_group'', PStr consumer_group), (''expected_event_type'', PStr expected_type),
             (''attempts'', PInt attempts), (''error'', PStr (described e)),
             (''original_value'', PStr (original_text lib value))]
      in Inr (case organization of None \<Rightarrow> payload | Some o' \<Rightarrow> fmupd ''organization_id'' (PStr o') payload)))"

definition dead_letter_event ::
  "event_library \<Rightarrow> (nat \<Rightarrow> string) \<Rightarrow> instant \<Rightarrow> message \<Rightarrow> string \<Rightarrow> string \<Rightarrow> wire_value \<Rightarrow> py_error \<Rightarrow> int \<Rightarrow> nat
     \<Rightarrow> dict res \<times> nat" where
  "dead_letter_event lib uuid4 now m consumer_group expected_type value e attempts n =
     (case dead_letter_payload lib m consumer_group expected_type value e attempts of
        Inl err \<Rightarrow> (Inl err, n)
      | Inr payload \<Rightarrow>
          make_event lib uuid4 now ''dead_letter'' payload
            \<lparr>ea_event_id = None, ea_correlation_id = Some (location_text m), ea_causation_id = None,
             ea_attempt = PInt 0\<rparr> n)"

subsection \<open>Handling one message\<close>

text \<open>
  The collaborators of \<open>process_message\<close> over a state: the domain handler, the commit of the
  message's offset, the confirmed publication of a dead letter, and the clock and random
  UUIDs an event is built with.
\<close>

record 's consumption =
  co_handler :: "dict \<Rightarrow> 's \<Rightarrow> unit res \<times> 's"
  co_commit :: "'s \<Rightarrow> unit res \<times> 's"
  co_publish :: "dict \<Rightarrow> pyval \<Rightarrow> 's \<Rightarrow> unit res \<times> 's"
  co_now :: "'s \<Rightarrow> instant"
  co_uuids :: "'s \<Rightarrow> nat \<Rightarrow> string"

datatype action =
    Handled dict bool
  | Committed bool
  | Slept rat
  | Published dict bool

definition succeeded :: "unit res \<Rightarrow> bool" where
  "succeeded r \<longleftrightarrow> (case r of Inl _ \<Rightarrow> False | Inr _ \<Rightarrow> True)"

text \<open>The guarded part of one attempt: decode, handle, commit.\<close>

definition attempt_message ::
  "'s consumption \<Rightarrow> event_library \<Rightarrow> message \<Rightarrow> string \<Rightarrow> int \<Rightarrow> 's \<Rightarrow> (unit res \<times> action list) \<times> 's" where
  "attempt_message c lib m expected_type attempt s =
     (case decode_event lib (msg_value m) expected_type of
        Inl e \<Rightarrow> ((Inl e, []), s)
      | Inr decoded \<Rightarrow>
          (let event = fmupd ''delivery_attempt'' (PInt (attempt - 1)) decoded
           in case co_handler c event s of
                (Inl e, s1) \<Rightarrow> ((Inl e, [Handled event False]), s1)
              | (Inr _, s1) \<Rightarrow>
                  (case co_commit c s1 of
                     (r, s2) \<Rightarrow> ((r, [Handled event True, Committed (succeeded r)]), s2))))"

text \<open>The attempts \<open>max_attempts - left + 1, ..., max_attempts\<close>, until one succeeds.\<close>

fun attempts ::
  "'s consumption \<Rightarrow> event_library \<Rightarrow> retry_policy \<Rightarrow> message \<Rightarrow> string \<Rightarrow> nat \<Rightarrow> py_error option \<Rightarrow> 's
     \<Rightarrow> ((py_error option \<times> bool) \<times> action list) \<times> 's" where
  "attempts c lib p m expected_type 0 last_error s = (((last_error, False), []), s)"
| "attempts c lib p m expected_type (Suc left) last_error s =
     (let attempt = rp_max_attempts p - int left
      in case attempt_message c lib m expected_type attempt s of
           ((Inr _, acts), s1) \<Rightarrow> (((last_error, True), acts), s1)
         | ((Inl e, acts), s1) \<Rightarrow>
             (let pause = (if attempt < rp_max_attempts p then [Slept (delay_before p attempt)] else [])
              in case attempts c lib p m expected_type left (Some e) s1 of
                   ((r, more_acts), s2) \<Rightarrow> ((r, acts @ pause @ more_acts), s2)))"

definition process_message ::
  "'s consumption \<Rightarrow> event_library \<Rightarrow> retry_policy \<Rightarrow> message \<Rightarrow> string \<Rightarrow> string \<Rightarrow> 's
     \<Rightarrow> (bool res \<times> action list) \<times> 's" where
  "process_message c lib p m consumer_group expected_type s =
     (case attempts c lib p m expected_type (nat (rp_max_attempts p)) None s of
        (((_, True), acts), s1) \<Rightarrow> ((Inr True, acts), s1)
      | (((None, False), acts), s1) \<Rightarrow> ((Inl (RuntimeError ''AssertionError''), acts), s1)
      | (((Some e, False), acts), s1) \<Rightarrow>
          (case fst (dead_letter_event lib (co_uuids c s1) (co_now c s1) m consumer_group expected_type
                  (msg_value m) e (rp_max_attempts p) 0) of
             Inl err \<Rightarrow> ((Inl err, acts), s1)
           | Inr letter \<Rightarrow>
               (case co_publish c letter (dget letter ''correlation_id'') s1 of
                  (Inl err, s2) \<Rightarrow> ((Inl err, acts @ [Published letter False]), s2)
                | (Inr _, s2) \<Rightarrow>
                    (case co_commit c s2 of
                       (Inl err, s3) \<Rightarrow> ((Inl err, acts @ [Published letter True, Committed False]), s3)
                     | (Inr _, s3) \<Rightarrow> ((Inr False, acts @ [Published letter True, Committed True]), s3)))))"

subsection \<open>When the offset moves\<close>

definition effective :: "action \<Rightarrow> bool" where
  "effective a \<longleftrightarrow> (case a of Handled _ ok \<Rightarrow> ok | Published _ ok \<Rightarrow> ok | _ \<Rightarrow> False)"

text \<open>Every commit directly follows a successful handler or a confirmed publication.\<close>

definition commits_follow_effects :: "action list \<Rightarrow> bool" where
  "commits_follow_effects acts \<longleftrightarrow>
     (\<forall>before ok rest. acts = before @ Committed ok # rest \<longrightarrow> before \<noteq> [] \<and> effective (last before))"

definition is_handled :: "action \<Rightarrow> bool" where
  "is_handled a \<longleftrightarrow> (case a of Handled _ _ \<Rightarrow> True | _ \<Rightarrow> False)"

lemma commits_follow_effects_append:
  assumes "commits_follow_effects xs" "commits_follow_effects ys"
  shows "commits_follow_effects (xs @ ys)"
  unfolding commits_follow_effects_def
proof (intro allI impI)
  fix before ok rest
  assume "xs @ ys = before @ Committed ok # rest"
  then obtain us where "(xs = before @ us \<and> us @ ys = Committed ok # rest)
      \<or> (xs @ us = before \<and> ys = us @ Committed ok # rest)"
    by (auto simp: append_eq_append_conv2)
  then consider us where "xs = before @ Committed ok # us"
    | us where "before = xs @ us" "ys = us @ Committed ok # rest"
    by (cases us) auto
  then show "before \<noteq> [] \<and> effective (last before)"
  proof cases
    case 1
    then show ?thesis using assms(1) by (auto simp: commits_follow_effects_def)
  next
    case 2
    then have "us \<noteq> [] \<and> effective (last us)" using assms(2) by (auto simp: commits_follow_effects_def)
    with 2 show ?thesis by simp
  qed
qed

lemma commits_follow_effects_few:
  "commits_follow_effects []"
  "(\<And>ok. a \<noteq> Committed ok) \<Longrightarrow> commits_follow_effects [a]"
  "effective a \<Longrightarrow> (\<And>ok. a \<noteq> Committed ok) \<Longrightarrow> commits_follow_effects [a, b]"
  by (auto simp: commits_follow_effects_def Cons_eq_append_conv)

lemma attempt_message_cases:
  assumes "attempt_message c lib m t k s = ((r, acts), s')"
  obtains e where "r = Inl e" "acts = []"
    | e ev where "r = Inl e" "acts = [Handled ev False]"
    | ev where "acts = [Handled ev True, Committed (succeeded r)]"
  using assms unfolding attempt_message_def Let_def by (auto split: sum.split_asm prod.split_asm)

lemma attempt_message_actions:
  assumes "attempt_message c lib m t k s = ((r, acts), s')"
  shows "commits_follow_effects acts" and "length (filter is_handled acts) \<le> 1"
    and "Committed True \<in> set acts \<longleftrightarrow> succeeded r"
proof -
  have few: "commits_follow_effects [Handled ev False]" "commits_follow_effects [Handled ev True, a]" for ev a
    by (auto intro: commits_follow_effects_few simp: effective_def)
  from assms show "commits_follow_effects acts" "length (filter is_handled acts) \<le> 1"
    "Committed True \<in> set acts \<longleftrightarrow> succeeded r"
    by (cases rule: attempt_message_cases;
        simp add: few commits_follow_effects_few(1) is_handled_def succeeded_def)+
qed

lemma attempts_actions:
  assumes "attempts c lib p m t left e s = (((e', ok), acts), s')"
  shows "commits_follow_effects acts \<and> length (filter is_handled acts) \<le> left
    \<and> (Committed True \<in> set acts \<longleftrightarrow> ok)"
  using assms
proof (induction left arbitrary: e s acts)
  case 0
  then show ?case by (simp add: commits_follow_effects_few)
next
  case (Suc left)
  define k where "k = rp_max_attempts p - int left"
  obtain r acts1 s1 where one: "attempt_message c lib m t k s = ((r, acts1), s1)"
    by (cases "attempt_message c lib m t k s") (metis surj_pair)
  note first = attempt_message_actions [OF one]
  show ?case
  proof (cases r)
    case (Inr u)
    then have "acts = acts1" "ok" using Suc.prems one by (auto simp: k_def [symmetric])
    with first Inr show ?thesis by (simp add: succeeded_def)
  next
    case (Inl err)
    define pause where "pause = (if k < rp_max_attempts p then [Slept (delay_before p k)] else [])"
    obtain acts2 where rest: "attempts c lib p m t left (Some err) s1 = (((e', ok), acts2), s')"
      and acts: "acts = acts1 @ pause @ acts2"
      using Suc.prems one Inl by (auto simp: k_def [symmetric] pause_def split: prod.splits)
    have "commits_follow_effects pause" "filter is_handled pause = []" "Committed True \<notin> set pause"
      by (simp_all add: pause_def is_handled_def commits_follow_effects_few)
    with Suc.IH [OF rest] first Inl show ?thesis
      by (auto simp: acts succeeded_def intro!: commits_follow_effects_append)
  qed
qed

text \<open>C35: A consumed offset is committed only right after the handler succeeded on the decoded
  event or after the dead letter was confirmed; an offset is committed exactly when
  process_message returns, so a failed publication leaves it for redelivery, and the
  handler ran at most max_attempts times.\<close>

lemma offsets_follow_effects:
  assumes "process_message c lib p m consumers t s = ((r, acts), s')"
  shows "commits_follow_effects acts \<and> (Committed True \<in> set acts \<longleftrightarrow> (\<exists>b. r = Inr b))
    \<and> length (filter is_handled acts) \<le> nat (rp_max_attempts p)"
proof -
  obtain e ok acts1 s1 where one: "attempts c lib p m t (nat (rp_max_attempts p)) None s = (((e, ok), acts1), s1)"
    by (metis surj_pair)
  note first = attempts_actions [OF one]
  have letters: "commits_follow_effects [Published l False]" "commits_follow_effects [Published l True, a]" for l a
    by (auto intro: commits_follow_effects_few simp: effective_def)
  show ?thesis
    using assms first one letters
    by (auto simp: process_message_def is_handled_def intro!: commits_follow_effects_append
        split: bool.splits option.splits sum.splits prod.splits)
qed

definition example_consumption :: "bool \<Rightarrow> unit consumption" where
  "example_consumption ok =
     \<lparr>co_handler = (\<lambda>_ s. (if ok then Inr () else Inl (RuntimeError ''no''), s)), co_commit = (\<lambda>s. (Inr (), s)),
      co_publish = (\<lambda>_ _ s. (Inr (), s)), co_now = (\<lambda>_. 0), co_uuids = (\<lambda>_ _. ''u'')\<rparr>"

text \<open>A cancellation handled at the first attempt.\<close>

lemma offsets_follow_effects_witness:
  "\<exists>acts. process_message (example_consumption True) (example_library example_cancel) default_retry_policy
      \<lparr>msg_methods = fmempty, msg_value = Text ''text''\<rparr> ''workers'' ''control'' () = ((Inr True, acts), ())
    \<and> commits_follow_effects acts \<and> Committed True \<in> set acts"
proof -
  let ?event = "fmupd ''delivery_attempt'' (PInt 0) example_cancel"
  let ?acts = "[Handled ?event True, Committed True]"
  have three: "nat (rp_max_attempts default_retry_policy) = Suc 2" by (simp add: default_retry_policy_def)
  have run: "process_message (example_consumption True) (example_library example_cancel) default_retry_policy
      \<lparr>msg_methods = fmempty, msg_value = Text ''text''\<rparr> ''workers'' ''control'' () = ((Inr True, ?acts), ())"
    unfolding process_message_def three attempts.simps
    by (simp add: attempt_message_def example_cancel_decoded example_consumption_def default_retry_policy_def
        succeeded_def del: attempts.simps)
  from offsets_follow_effects [OF run] run show ?thesis by auto
qed

subsection \<open>Letters that cannot be written\<close>

lemma make_event_keeps:
  assumes lib: "event_library_ok lib" and made: "make_event lib uuid4 now t payload args n = (Inr e, m)"
    and k: "k \<notin> {''schema_version'', ''event_type'', ''event_id'', ''correlation_id'', ''causation_id'', ''attempt'', ''emitted_at''}"
  shows "fmlookup e k = fmlookup payload k"
proof -
  obtain kind d where "ev_validate lib kind d = Inr e" "fmlookup d k = fmlookup payload k"
    using made k
    by (auto simp: make_event_def Let_def validate_event_Inr validate_event_dict_Inr split: prod.splits)
  then show ?thesis using validates(2) [OF lib, of kind d e k] k by simp
qed

lemma make_event_conforms:
  assumes lib: "event_library_ok lib" and made: "make_event lib uuid4 now ''dead_letter'' payload args n = (Inr e, m)"
  shows "event_conforms (ev_timestamp lib) DeadLetterEvent e"
proof -
  obtain d where "validate_event lib d (Some ''dead_letter'') = Inr e" using make_event_validated [OF made] by blast
  from validated_event(1) [OF lib this] show ?thesis
    by (auto simp: envelope_checked_def type_expected_def EVENT_MODELS_def)
qed

text \<open>The error field of a dead letter holds at most 16384 characters.\<close>

lemma long_errors_have_no_letter:
  assumes lib: "event_library_ok lib" and long: "16384 < length (described e)"
  shows "\<exists>err. fst (dead_letter_event lib uuid4 now m consumers t value e k n) = Inl err"
proof (rule ccontr)
  assume "\<not> ?thesis"
  then obtain letter where letter: "fst (dead_letter_event lib uuid4 now m consumers t value e k n) = Inr letter"
    by (cases "fst (dead_letter_event lib uuid4 now m consumers t value e k n)") auto
  then obtain payload args n' where payload: "dead_letter_payload lib m consumers t value e k = Inr payload"
      "make_event lib uuid4 now ''dead_letter'' payload args n = (Inr letter, n')"
    by (auto simp: dead_letter_event_def split: sum.splits) (metis prod.collapse)
  have "fmlookup payload ''error'' = Some (PStr (described e))"
    using payload(1) by (auto simp: dead_letter_payload_def Let_def rbind_Inr_iff split: option.splits)
  then have "fmlookup letter ''error'' = Some (PStr (described e))"
    using make_event_keeps [OF lib payload(2), of "''error''"] by simp
  moreover have "required_field ''error'' (Sized 1 (Some 16384)) \<in> set (event_fields DeadLetterEvent)"
    by (simp add: dead_letter_fields_def)
  ultimately show False
    using conforming_field [OF make_event_conforms [OF lib payload(2)]] long
    by (fastforce simp: field_holds_def required_field_def at_most_def)
qed

lemma attempts_undecodable:
  assumes "decode_event lib (msg_value m) t = Inl e"
  shows "\<exists>acts. attempts c lib p m t (Suc left) e' s = (((Some e, False), acts), s) \<and> Committed True \<notin> set acts"
proof (induction left arbitrary: e')
  case 0
  show ?case by (simp add: attempt_message_def assms)
next
  case (Suc left)
  obtain acts where "attempts c lib p m t (Suc left) (Some e) s = (((Some e, False), acts), s)"
      "Committed True \<notin> set acts" using Suc.IH by blast
  then show ?case
    unfolding attempts.simps(2) [of c lib p m t "Suc left"]
    by (simp add: attempt_message_def assms Let_def del: attempts.simps)
qed

text \<open>
  A message whose event type is longer than that field is never committed, whatever the
  handler: no dead letter can describe the failure, so the message stays at the head of its
  partition.
\<close>

lemma overlong_type_blocks_the_partition:
  assumes lib: "event_library_ok lib" and policy: "policy_ok p"
    and body: "msg_value m = Text s" "ev_json_loads lib s = Inr (PDict d)"
    and kind: "dget d ''event_type'' = PStr t'" "EVENT_MODELS t' = None" "16384 \<le> length t'"
  shows "\<exists>err acts. process_message c lib p m consumers t st = ((Inl err, acts), st) \<and> Committed True \<notin> set acts"
proof -
  define e where "e = ValueError (''unknown or missing event_type: '' @ t')"
  have decode: "decode_event lib (msg_value m) t = Inl e"
    by (simp add: e_def decode_event_def body kind validate_event_def validate_event_dict_def)
  obtain left where "nat (rp_max_attempts p) = Suc left"
    using policy by (cases "nat (rp_max_attempts p)") (auto simp: policy_ok_def)
  with attempts_undecodable [where c = c and p = p and s = st and left = left and e' = None, OF decode] obtain acts where
    run: "attempts c lib p m t (nat (rp_max_attempts p)) None st = (((Some e, False), acts), st)"
    and clean: "Committed True \<notin> set acts" by auto
  have "16384 < length (described e)" using kind(3) by (simp add: described_def e_def)
  from long_errors_have_no_letter [OF lib this] obtain err where
    "fst (dead_letter_event lib (co_uuids c st) (co_now c st) m consumers t (msg_value m) e (rp_max_attempts p) 0) = Inl err"
    by blast
  with clean show ?thesis by (simp add: process_message_def run)
qed

end
