(* ===== verification/OutboxDelivery.thy ===== *)
theory OutboxDelivery
  imports KafkaReliability
begin

text \<open>
  The transactional outbox (\<open>shared/inbox_outbox.py\<close>, \<open>OutboxEvent\<close> of
  \<open>shared/database_delivery_models.py\<close>): events are enqueued in the transaction of their
  domain change, claimed in a short transaction under a lease, published outside of it, and
  settled in a second transaction that is fenced by the lease.

  \<open>dispatch_outbox_batch\<close> is modelled as the code runs it; the interleavings of several
  dispatchers, crashes included, are the step relation \<open>dispatch_step\<close> over the same claim,
  publication and settlement.
\<close>

subsection \<open>Rows\<close>

datatype outbox_status = OutboxPending | OutboxPublishing | OutboxPublished | OutboxFailed | OutboxDead

record outbox_event =
  ox_id :: int
  ox_organization_id :: string
  ox_event_id :: string
  ox_event_type :: string
  ox_topic :: string
  ox_message_key :: "string option"
  ox_payload :: dict
  ox_status :: outbox_status
  ox_attempts :: int
  ox_available_at :: instant
  ox_locked_at :: "instant option"
  ox_locked_by :: "string option"
  ox_last_error :: "string option"
  ox_created_at :: instant
  ox_published_at :: "instant option"
  ox_dead_at :: "instant option"

subsection \<open>Enqueueing\<close>

definition outbox_organization :: "string option \<Rightarrow> dict \<Rightarrow> string" where
  "outbox_organization contextual normalized =
     py_str (py_or (optional_text contextual)
       (py_or (dget normalized ''organization_id'') (PStr LEGACY_ORGANIZATION_ID)))"

definition new_outbox_event ::
  "int \<Rightarrow> string option \<Rightarrow> string \<Rightarrow> dict \<Rightarrow> string option \<Rightarrow> instant \<Rightarrow> outbox_event" where
  "new_outbox_event i contextual topic normalized key now =
     \<lparr>ox_id = i, ox_organization_id = outbox_organization contextual normalized,
      ox_event_id = py_str (dget normalized ''event_id''),
      ox_event_type = py_str (dget normalized ''event_type''), ox_topic = topic, ox_message_key = key,
      ox_payload = normalized, ox_status = OutboxPending, ox_attempts = 0, ox_available_at = now,
      ox_locked_at = None, ox_locked_by = None, ox_last_error = None, ox_created_at = now,
      ox_published_at = None, ox_dead_at = None\<rparr>"

definition enqueue_outbox ::
  "event_library \<Rightarrow> string option \<Rightarrow> string \<Rightarrow> pyval \<Rightarrow> string option \<Rightarrow> instant \<Rightarrow> outbox_event list
     \<Rightarrow> (outbox_event \<times> outbox_event list) res" where
  "enqueue_outbox lib contextual topic event key now rows =
     rbind (validate_event lib event None) (\<lambda>normalized.
       (case find (\<lambda>r. ox_event_id r = py_str (dget normalized ''event_id'')) rows of
          Some existing \<Rightarrow> Inr (existing, rows)
        | None \<Rightarrow>
            (let row = new_outbox_event (next_id (map ox_id rows)) contextual topic normalized key now
             in Inr (row, rows @ [row]))))"

subsection \<open>Delivery of one row\<close>

text \<open>
  The outcome of a publication is the error it raised, if any. Delays are seconds;
  \<open>timedelta(seconds=d)\<close> rounds to whole microseconds.
\<close>

definition delay_micros :: "rat \<Rightarrow> instant" where
  "delay_micros d = py_round (1000000 * d)"

definition unlocked :: "outbox_event \<Rightarrow> outbox_event" where
  "unlocked r = r\<lparr>ox_locked_at := None, ox_locked_by := None\<rparr>"

definition deliver_outbox_event ::
  "retry_policy \<Rightarrow> instant \<Rightarrow> (string \<Rightarrow> dict \<Rightarrow> string option \<Rightarrow> py_error option) \<Rightarrow> outbox_event
     \<Rightarrow> bool \<times> outbox_event" where
  "deliver_outbox_event policy now publisher r0 =
     (let r = r0\<lparr>ox_attempts := ox_attempts r0 + 1\<rparr>
      in case publisher (ox_topic r) (ox_payload r) (ox_message_key r) of
           Some e \<Rightarrow>
             (let failed = r\<lparr>ox_last_error := Some (described e)\<rparr>
              in (False, unlocked
                    (if rp_max_attempts policy \<le> ox_attempts r
                     then failed\<lparr>ox_status := OutboxDead, ox_dead_at := Some now\<rparr>
                     else failed\<lparr>ox_status := OutboxFailed,
                            ox_available_at := now + delay_micros (delay_before policy (ox_attempts r))\<rparr>)))
         | None \<Rightarrow>
             (True, unlocked (r\<lparr>ox_status := OutboxPublished, ox_published_at := Some now, ox_last_error := None\<rparr>)))"

subsection \<open>One batch\<close>

definition lease_cutoff :: "instant \<Rightarrow> int \<Rightarrow> instant" where
  "lease_cutoff now lease_seconds = now - seconds (max 30 lease_seconds)"

definition dispatchable :: "instant \<Rightarrow> instant \<Rightarrow> outbox_event \<Rightarrow> bool" where
  "dispatchable now cutoff r \<longleftrightarrow>
     (ox_status r \<in> {OutboxPending, OutboxFailed} \<and> ox_available_at r \<le> now)
     \<or> (ox_status r = OutboxPublishing \<and> (\<exists>t. ox_locked_at r = Some t \<and> t \<le> cutoff))"

text \<open>Rows another transaction has locked are skipped.\<close>

definition select_batch ::
  "(int \<Rightarrow> bool) \<Rightarrow> nat \<Rightarrow> instant \<Rightarrow> instant \<Rightarrow> outbox_event list \<Rightarrow> outbox_event list" where
  "select_batch locked batch_size now cutoff rows =
     take batch_size (sort_key (\<lambda>r. (ox_created_at r, ox_id r))
       (filter (\<lambda>r. dispatchable now cutoff r \<and> \<not> locked (ox_id r)) rows))"

record claim =
  cl_id :: int
  cl_topic :: string
  cl_payload :: dict
  cl_message_key :: "string option"

definition claim_of :: "outbox_event \<Rightarrow> claim" where
  "claim_of r = \<lparr>cl_id = ox_id r, cl_topic = ox_topic r, cl_payload = ox_payload r,
                cl_message_key = ox_message_key r\<rparr>"

definition claim_batch ::
  "string \<Rightarrow> (int \<Rightarrow> bool) \<Rightarrow> nat \<Rightarrow> instant \<Rightarrow> instant \<Rightarrow> outbox_event list \<Rightarrow> claim list \<times> outbox_event list" where
  "claim_batch worker locked batch_size now cutoff rows =
     (let selected = select_batch locked batch_size now cutoff rows
      in (map claim_of selected,
          update_where (\<lambda>r. ox_id r \<in> set (map ox_id selected))
            (\<lambda>r. r\<lparr>ox_status := OutboxPublishing, ox_locked_at := Some now, ox_locked_by := Some worker\<rparr>) rows))"

text \<open>The numbers the claim reports: rows per status, and the age of the oldest row to publish.\<close>

definition status_count :: "outbox_status \<Rightarrow> outbox_event list \<Rightarrow> int" where
  "status_count st rows = int (length (filter (\<lambda>r. ox_status r = st) rows))"

definition oldest_unpublished_age :: "instant \<Rightarrow> outbox_event list \<Rightarrow> rat" where
  "oldest_unpublished_age now rows =
     (case map ox_created_at (filter (\<lambda>r. ox_status r \<in> {OutboxPending, OutboxFailed, OutboxPublishing}) rows) of
        [] \<Rightarrow> 0
      | t # ts \<Rightarrow> max 0 (of_int (now - foldr min ts t) / 1000000))"

text \<open>The branch of the settlement that a row still held by the worker takes.\<close>

datatype settlement = Skipped | SettledPublished | SettledFailed | SettledDead

definition settled_row :: "retry_policy \<Rightarrow> instant \<Rightarrow> py_error option \<Rightarrow> outbox_event \<Rightarrow> settlement \<times> outbox_event" where
  "settled_row policy now outcome r =
     (let attempts = ox_attempts r + 1
      in case outcome of
           None \<Rightarrow>
             (SettledPublished, unlocked (r\<lparr>ox_attempts := attempts, ox_status := OutboxPublished,
                ox_published_at := Some now, ox_last_error := None\<rparr>))
         | Some e \<Rightarrow>
             (if rp_max_attempts policy \<le> attempts
              then (SettledDead, unlocked (r\<lparr>ox_attempts := attempts, ox_last_error := Some (described e),
                      ox_status := OutboxDead, ox_dead_at := Some now\<rparr>))
              else (SettledFailed, unlocked (r\<lparr>ox_attempts := attempts, ox_last_error := Some (described e),
                      ox_status := OutboxFailed,
                      ox_available_at := now + delay_micros (delay_before policy attempts)\<rparr>))))"

definition settle_claim ::
  "string \<Rightarrow> retry_policy \<Rightarrow> instant \<Rightarrow> int \<Rightarrow> py_error option \<Rightarrow> outbox_event list
     \<Rightarrow> (settlement \<times> outbox_event list) res" where
  "settle_claim worker policy now i outcome rows =
     rbind (one_row (filter (\<lambda>r. ox_id r = i) rows)) (\<lambda>r.
       if ox_status r \<noteq> OutboxPublishing \<or> ox_locked_by r \<noteq> Some worker then Inr (Skipped, rows)
       else (case settled_row policy now outcome r of
               (how, r') \<Rightarrow> Inr (how, update_where (\<lambda>x. ox_id x = i) (\<lambda>_. r') rows)))"

record batch_result =
  br_selected :: int
  br_published :: int
  br_failed :: int
  br_dead :: int

fun count_settlement :: "settlement \<Rightarrow> batch_result \<Rightarrow> batch_result" where
  "count_settlement Skipped b = b"
| "count_settlement SettledPublished b = b\<lparr>br_published := br_published b + 1\<rparr>"
| "count_settlement SettledFailed b = b\<lparr>br_failed := br_failed b + 1\<rparr>"
| "count_settlement SettledDead b = b\<lparr>br_dead := br_dead b + 1\<rparr>"

text \<open>
  The claimed items in order: publish outside of a transaction, then settle. The publisher
  works on a state of its own.
\<close>

fun publish_claims ::
  "(string \<Rightarrow> dict \<Rightarrow> string option \<Rightarrow> 's \<Rightarrow> py_error option \<times> 's) \<Rightarrow> string \<Rightarrow> retry_policy \<Rightarrow> instant
     \<Rightarrow> claim list \<Rightarrow> batch_result \<Rightarrow> outbox_event list \<Rightarrow> 's \<Rightarrow> batch_result res \<times> outbox_event list \<times> 's" where
  "publish_claims publisher worker policy now [] b rows s = (Inr b, rows, s)"
| "publish_claims publisher worker policy now (c # cs) b rows s =
     (case publisher (cl_topic c) (cl_payload c) (cl_message_key c) s of
        (outcome, s') \<Rightarrow>
          (case settle_claim worker policy now (cl_id c) outcome rows of
             Inl e \<Rightarrow> (Inl e, rows, s')
           | Inr (how, rows') \<Rightarrow>
               publish_claims publisher worker policy now cs (count_settlement how b) rows' s'))"

definition dispatch_outbox_batch ::
  "(string \<Rightarrow> dict \<Rightarrow> string option \<Rightarrow> 's \<Rightarrow> py_error option \<times> 's) \<Rightarrow> string \<Rightarrow> (int \<Rightarrow> bool) \<Rightarrow> nat
     \<Rightarrow> retry_policy \<Rightarrow> instant \<Rightarrow> int \<Rightarrow> outbox_event list \<Rightarrow> 's \<Rightarrow> batch_result res \<times> outbox_event list \<times> 's" where
  "dispatch_outbox_batch publisher worker locked batch_size policy now lease_seconds rows s =
     (case claim_batch worker locked batch_size now (lease_cutoff now lease_seconds) rows of
        (claims, rows') \<Rightarrow>
          publish_claims publisher worker policy now claims
            \<lparr>br_selected = int (length claims), br_published = 0, br_failed = 0, br_dead = 0\<rparr> rows' s)"

subsection \<open>Interleaved dispatchers\<close>

text \<open>
  A claimed item in flight, with the outcome of its publication once there is one; the log
  holds the payloads whose publication was acknowledged.
\<close>

record flight =
  fl_worker :: string
  fl_claim :: claim
  fl_now :: instant
  fl_outcome :: "py_error option option"

record delivery_state =
  ds_rows :: "outbox_event list"
  ds_flights :: "flight list"
  ds_acknowledged :: "dict list"

definition take_off :: "string \<Rightarrow> instant \<Rightarrow> claim \<Rightarrow> flight" where
  "take_off worker now c = \<lparr>fl_worker = worker, fl_claim = c, fl_now = now, fl_outcome = None\<rparr>"

inductive dispatch_step :: "event_library \<Rightarrow> retry_policy \<Rightarrow> delivery_state \<Rightarrow> delivery_state \<Rightarrow> bool"
  for lib policy where
  Enqueued: "enqueue_outbox lib contextual topic event key now (ds_rows s) = Inr (row, rows) \<Longrightarrow>
   dispatch_step lib policy s (s\<lparr>ds_rows := rows\<rparr>)"
| Claimed: "claim_batch worker locked batch_size now cutoff (ds_rows s) = (claims, rows) \<Longrightarrow>
   dispatch_step lib policy s
     (s\<lparr>ds_rows := rows, ds_flights := ds_flights s @ map (take_off worker now) claims\<rparr>)"
| Published: "\<lbrakk>ds_flights s = before @ f # behind; fl_outcome f = None\<rbrakk> \<Longrightarrow>
   dispatch_step lib policy s
     (s\<lparr>ds_flights := before @ f\<lparr>fl_outcome := Some outcome\<rparr> # behind,
        ds_acknowledged := ds_acknowledged s @ (if outcome = None then [cl_payload (fl_claim f)] else [])\<rparr>)"
| Settled: "\<lbrakk>ds_flights s = before @ f # behind; fl_outcome f = Some outcome;
     settle_claim (fl_worker f) policy (fl_now f) (cl_id (fl_claim f)) outcome (ds_rows s) = Inr (how, rows)\<rbrakk> \<Longrightarrow>
   dispatch_step lib policy s (s\<lparr>ds_rows := rows, ds_flights := before @ behind\<rparr>)"
| Crashed: "dispatch_step lib policy s (s\<lparr>ds_flights := filter alive (ds_flights s)\<rparr>)"

definition finished :: "outbox_event \<Rightarrow> bool" where
  "finished r \<longleftrightarrow> ox_status r \<in> {OutboxPublished, OutboxDead}"

definition outbox_row_ok :: "retry_policy \<Rightarrow> dict list \<Rightarrow> outbox_event \<Rightarrow> bool" where
  "outbox_row_ok policy acknowledged r \<longleftrightarrow>
     0 \<le> ox_attempts r \<and> ox_attempts r \<le> rp_max_attempts policy
     \<and> (\<not> finished r \<longrightarrow> ox_attempts r < rp_max_attempts policy)
     \<and> (ox_status r = OutboxDead \<longrightarrow> ox_attempts r = rp_max_attempts policy)
     \<and> (ox_status r = OutboxPublishing \<longleftrightarrow> ox_locked_at r \<noteq> None)
     \<and> (ox_status r = OutboxPublishing \<longleftrightarrow> ox_locked_by r \<noteq> None)
     \<and> (ox_status r = OutboxPublished \<longrightarrow> ox_payload r \<in> set acknowledged)"

definition flight_ok :: "outbox_event list \<Rightarrow> dict list \<Rightarrow> flight \<Rightarrow> bool" where
  "flight_ok rows acknowledged f \<longleftrightarrow>
     (\<exists>r \<in> set rows. ox_id r = cl_id (fl_claim f) \<and> ox_payload r = cl_payload (fl_claim f))
     \<and> (fl_outcome f = Some None \<longrightarrow> cl_payload (fl_claim f) \<in> set acknowledged)"

definition delivery_ok :: "retry_policy \<Rightarrow> delivery_state \<Rightarrow> bool" where
  "delivery_ok policy s \<longleftrightarrow>
     distinct (map ox_id (ds_rows s)) \<and> distinct (map ox_event_id (ds_rows s))
     \<and> (\<forall>r \<in> set (ds_rows s). outbox_row_ok policy (ds_acknowledged s) r)
     \<and> (\<forall>f \<in> set (ds_flights s). flight_ok (ds_rows s) (ds_acknowledged s) f)"

text \<open>What no step changes of a row, and rows that are finished.\<close>

definition same_event :: "outbox_event \<Rightarrow> outbox_event \<Rightarrow> bool" where
  "same_event r r' \<longleftrightarrow>
     ox_id r' = ox_id r \<and> ox_event_id r' = ox_event_id r \<and> ox_payload r' = ox_payload r
     \<and> ox_topic r' = ox_topic r \<and> ox_message_key r' = ox_message_key r
     \<and> ox_organization_id r' = ox_organization_id r \<and> ox_attempts r \<le> ox_attempts r'
     \<and> (finished r \<longrightarrow> r' = r)"

definition rows_kept :: "outbox_event list \<Rightarrow> outbox_event list \<Rightarrow> bool" where
  "rows_kept rows rows' \<longleftrightarrow> (\<forall>r \<in> set rows. \<exists>r' \<in> set rows'. same_event r r')"

lemma same_event_refl [simp]: "same_event r r"
  by (simp add: same_event_def)

lemma same_event_trans: "same_event a b \<Longrightarrow> same_event b c \<Longrightarrow> same_event a c"
  by (auto simp: same_event_def finished_def)

lemma rows_kept_refl [simp]: "rows_kept rows rows"
  unfolding rows_kept_def using same_event_refl by blast

lemma rows_kept_trans: "rows_kept a b \<Longrightarrow> rows_kept b c \<Longrightarrow> rows_kept a c"
  unfolding rows_kept_def by (meson same_event_trans)

lemma rows_kept_append: "rows_kept rows (rows @ more_rows)"
  unfolding rows_kept_def by (metis Un_iff set_append same_event_refl)

lemma rows_kept_update:
  "(\<And>r. r \<in> set rows \<Longrightarrow> P r \<Longrightarrow> same_event r (f r)) \<Longrightarrow> rows_kept rows (update_where P f rows)"
  unfolding rows_kept_def update_where_def
  by (intro ballI, rule_tac x = "if P r then f r else r" in bexI) simp_all

lemma flight_ok_kept:
  assumes "flight_ok rows acked f" "rows_kept rows rows'" "set acked \<subseteq> set acked'"
  shows "flight_ok rows' acked' f"
proof -
  obtain r where r: "r \<in> set rows" "ox_id r = cl_id (fl_claim f)" "ox_payload r = cl_payload (fl_claim f)"
    using assms(1) by (auto simp: flight_ok_def)
  obtain r' where "r' \<in> set rows'" "same_event r r'" using assms(2) r(1) by (auto simp: rows_kept_def)
  then have "\<exists>r \<in> set rows'. ox_id r = cl_id (fl_claim f) \<and> ox_payload r = cl_payload (fl_claim f)"
    using r by (intro bexI [of _ r']) (simp_all add: same_event_def)
  then show ?thesis using assms by (auto simp: flight_ok_def)
qed

subsection \<open>Each operation keeps the invariant\<close>

lemma enqueue_cases:
  assumes "enqueue_outbox lib contextual topic event key now rows = Inr (row, rows')"
  obtains "rows' = rows" "row \<in> set rows"
    | normalized where "validate_event lib event None = Inr normalized"
      "rows' = rows @ [row]" "row = new_outbox_event (next_id (map ox_id rows)) contextual topic normalized key now"
      "ox_event_id row \<notin> set (map ox_event_id rows)"
proof -
  obtain normalized where n: "validate_event lib event None = Inr normalized"
    using assms by (auto simp: enqueue_outbox_def rbind_Inr_iff)
  show thesis
  proof (cases "find (\<lambda>r. ox_event_id r = py_str (dget normalized ''event_id'')) rows")
    case None
    then have "py_str (dget normalized ''event_id'') \<notin> set (map ox_event_id rows)"
      by (auto simp: find_None_iff)
    with None n assms show thesis
      by (intro that(2)) (auto simp: enqueue_outbox_def Let_def new_outbox_event_def)
  next
    case (Some x)
    then have "x \<in> set rows" by (auto simp: find_Some_iff)
    with Some n assms show thesis by (intro that(1)) (auto simp: enqueue_outbox_def)
  qed
qed

lemma new_outbox_event_ok: "1 \<le> rp_max_attempts policy \<Longrightarrow> outbox_row_ok policy acked (new_outbox_event i c t n k now)"
  by (simp add: outbox_row_ok_def new_outbox_event_def finished_def)

lemma select_batch_mem:
  "r \<in> set (select_batch locked n now cutoff rows) \<Longrightarrow> r \<in> set rows \<and> dispatchable now cutoff r"
  by (auto simp: select_batch_def dest!: in_set_takeD)

lemma dispatchable_unfinished: "dispatchable now cutoff r \<Longrightarrow> \<not> finished r"
  by (auto simp: dispatchable_def finished_def)

lemma distinct_key_eq:
  "distinct (map f xs) \<Longrightarrow> x \<in> set xs \<Longrightarrow> y \<in> set xs \<Longrightarrow> f x = f y \<Longrightarrow> x = y"
  by (simp add: distinct_map inj_on_def)

lemma claim_batch_rows:
  assumes claimed: "claim_batch worker locked n now cutoff rows = (claims, rows')"
    and ids: "distinct (map ox_id rows)"
  shows "map ox_id rows' = map ox_id rows" "map ox_event_id rows' = map ox_event_id rows"
    "rows_kept rows rows'"
    "(\<And>r. r \<in> set rows \<Longrightarrow> outbox_row_ok policy acked r) \<Longrightarrow> r \<in> set rows' \<Longrightarrow> outbox_row_ok policy acked r"
    "c \<in> set claims \<Longrightarrow> \<exists>r \<in> set rows'. ox_id r = cl_id c \<and> ox_payload r = cl_payload c"
proof -
  let ?sel = "select_batch locked n now cutoff rows"
  let ?f = "\<lambda>r. r\<lparr>ox_status := OutboxPublishing, ox_locked_at := Some now, ox_locked_by := Some worker\<rparr>"
  have rows': "rows' = update_where (\<lambda>r. ox_id r \<in> set (map ox_id ?sel)) ?f rows"
    and claims: "claims = map claim_of ?sel"
    using claimed by (simp_all add: claim_batch_def Let_def)
  have unfinished: "\<not> finished r" if r: "r \<in> set rows" "ox_id r \<in> set (map ox_id ?sel)" for r
  proof -
    obtain x where x: "x \<in> set ?sel" "ox_id r = ox_id x" using r(2) by auto
    then have "x = r" using select_batch_mem [OF x(1)] r(1) distinct_key_eq [OF ids] by metis
    then show ?thesis using select_batch_mem [OF x(1)] dispatchable_unfinished by blast
  qed
  show "map ox_id rows' = map ox_id rows" "map ox_event_id rows' = map ox_event_id rows"
    unfolding rows' by (simp_all add: map_update_where)
  show kept: "rows_kept rows rows'"
    unfolding rows' by (rule rows_kept_update) (use unfinished in \<open>auto simp: same_event_def\<close>)
  show "outbox_row_ok policy acked r" if ok: "\<And>r. r \<in> set rows \<Longrightarrow> outbox_row_ok policy acked r" and r: "r \<in> set rows'"
    using ok r unfinished unfolding rows'
    by (auto simp: update_where_def outbox_row_ok_def finished_def)
  show "\<exists>r \<in> set rows'. ox_id r = cl_id c \<and> ox_payload r = cl_payload c" if c: "c \<in> set claims"
  proof -
    obtain x where x: "x \<in> set ?sel" "c = claim_of x" using c claims by auto
    obtain r' where "r' \<in> set rows'" "same_event x r'"
      using kept select_batch_mem [OF x(1)] by (auto simp: rows_kept_def)
    then show ?thesis using x(2) by (intro bexI [of _ r']) (simp_all add: same_event_def claim_of_def)
  qed
qed

lemma settled_row_facts:
  assumes "settled_row policy now outcome r = (how, r')" "ox_status r = OutboxPublishing"
    and "outbox_row_ok policy acked r" "outcome = None \<Longrightarrow> ox_payload r \<in> set acked"
  shows "same_event r r' \<and> outbox_row_ok policy acked r' \<and> ox_locked_by r' = None
    \<and> (how = SettledPublished \<longleftrightarrow> ox_status r' = OutboxPublished)
    \<and> ox_status r' \<noteq> OutboxPublishing"
  using assms
  by (auto simp: settled_row_def unlocked_def same_event_def outbox_row_ok_def finished_def Let_def
      split: option.splits if_splits)

lemma settle_claim_cases:
  assumes "settle_claim worker policy now i outcome rows = Inr (how, rows')"
  obtains "how = Skipped" "rows' = rows"
    | r r' where "filter (\<lambda>r. ox_id r = i) rows = [r]" "ox_status r = OutboxPublishing"
      "ox_locked_by r = Some worker" "settled_row policy now outcome r = (how, r')"
      "rows' = update_where (\<lambda>x. ox_id x = i) (\<lambda>_. r') rows"
  using assms by (auto simp: settle_claim_def rbind_Inr_iff one_row_Inr split: if_splits prod.splits)

lemma single_row:
  assumes "filter P xs = [x]"
  shows "x \<in> set xs" "P x" "y \<in> set xs \<Longrightarrow> P y \<Longrightarrow> y = x"
proof -
  have "set (filter P xs) = {x}" using assms by simp
  then show "x \<in> set xs" "P x" "y \<in> set xs \<Longrightarrow> P y \<Longrightarrow> y = x" by auto
qed

lemma settle_claim_rows:
  assumes settled: "settle_claim worker policy now i outcome rows = Inr (how, rows')"
    and ok: "\<And>r. r \<in> set rows \<Longrightarrow> outbox_row_ok policy acked r"
    and acked: "\<And>r. r \<in> set rows \<Longrightarrow> ox_id r = i \<Longrightarrow> outcome = None \<Longrightarrow> ox_payload r \<in> set acked"
  shows "map ox_id rows' = map ox_id rows \<and> map ox_event_id rows' = map ox_event_id rows
    \<and> rows_kept rows rows' \<and> (\<forall>r \<in> set rows'. outbox_row_ok policy acked r)"
  using settled
proof (cases rule: settle_claim_cases)
  case 1
  then show ?thesis using ok by simp
next
  case (2 r r')
  note one = single_row [OF 2(1)]
  have facts: "same_event r r'" "outbox_row_ok policy acked r'"
    using settled_row_facts [OF 2(4,2) ok [OF one(1)] acked [OF one(1,2)]] by simp_all
  have same: "same_event x r'" if "x \<in> set rows" "ox_id x = i" for x
    using one(3) [OF that] facts(1) by simp
  have "map g rows' = map g rows" if "\<And>x. same_event x r' \<Longrightarrow> g r' = g x" for g :: "outbox_event \<Rightarrow> 'b"
    unfolding 2(5) update_where_def using same that by (auto simp: map_eq_conv)
  from this [of ox_id] this [of ox_event_id]
  have "map ox_id rows' = map ox_id rows" "map ox_event_id rows' = map ox_event_id rows"
    by (simp_all add: same_event_def)
  moreover have "rows_kept rows rows'" unfolding 2(5) by (rule rows_kept_update) (use same in auto)
  moreover have "\<forall>r \<in> set rows'. outbox_row_ok policy acked r"
    unfolding 2(5) update_where_def using ok facts(2) by auto
  ultimately show ?thesis by simp
qed

lemma outbox_row_ok_mono:
  "outbox_row_ok policy acked r \<Longrightarrow> set acked \<subseteq> set acked' \<Longrightarrow> outbox_row_ok policy acked' r"
  by (auto simp: outbox_row_ok_def)

text \<open>Steps keep the invariant, and every row with its event.\<close>

lemma dispatch_step_ok:
  assumes step: "dispatch_step lib policy s s'" and ok: "delivery_ok policy s" and policy: "1 \<le> rp_max_attempts policy"
  shows "delivery_ok policy s' \<and> rows_kept (ds_rows s) (ds_rows s')
    \<and> set (ds_acknowledged s) \<subseteq> set (ds_acknowledged s')"
proof -
  have ids: "distinct (map ox_id (ds_rows s))" "distinct (map ox_event_id (ds_rows s))"
    and rows: "\<And>r. r \<in> set (ds_rows s) \<Longrightarrow> outbox_row_ok policy (ds_acknowledged s) r"
    and flights: "\<And>f. f \<in> set (ds_flights s) \<Longrightarrow> flight_ok (ds_rows s) (ds_acknowledged s) f"
    using ok by (simp_all add: delivery_ok_def)
  from step show ?thesis
  proof cases
    case (Enqueued contextual topic event key now row rows')
    from Enqueued(2) show ?thesis
    proof (cases rule: enqueue_cases)
      case 1
      then show ?thesis using ok Enqueued(1) by (simp add: delivery_ok_def)
    next
      case (2 normalized)
      have "ox_id row \<notin> set (map ox_id (ds_rows s))"
        using next_id_fresh [of "map ox_id (ds_rows s)"] by (simp add: 2(3) new_outbox_event_def)
      moreover have kept: "rows_kept (ds_rows s) (ds_rows s @ [row])" by (rule rows_kept_append)
      moreover have "flight_ok (ds_rows s @ [row]) (ds_acknowledged s) f" if "f \<in> set (ds_flights s)" for f
        using flight_ok_kept [OF flights [OF that] kept subset_refl] .
      moreover have "outbox_row_ok policy (ds_acknowledged s) row"
        unfolding 2(3) by (rule new_outbox_event_ok [OF policy])
      ultimately show ?thesis using ids rows 2(4) unfolding Enqueued(1) 2(2) by (auto simp: delivery_ok_def)
    qed
  next
    case (Claimed worker locked n now cutoff claims rows')
    note facts = claim_batch_rows [OF Claimed(2) ids(1)]
    have "flight_ok rows' (ds_acknowledged s) f" if "f \<in> set (ds_flights s @ map (take_off worker now) claims)" for f
      using that flight_ok_kept [OF flights facts(3) subset_refl] facts(5)
      by (auto simp: flight_ok_def take_off_def)
    then show ?thesis
      using ids facts(1-3) facts(4) [OF rows] unfolding Claimed(1) by (auto simp: delivery_ok_def)
  next
    case (Published before f behind outcome)
    let ?acked = "ds_acknowledged s @ (if outcome = None then [cl_payload (fl_claim f)] else [])"
    have sub: "set (ds_acknowledged s) \<subseteq> set ?acked" by auto
    have "flight_ok (ds_rows s) ?acked g" if "g \<in> set (before @ f # behind)" for g
      using flight_ok_kept [OF flights rows_kept_refl sub] that by (simp add: Published(2))
    moreover from this [of f] have "flight_ok (ds_rows s) ?acked (f\<lparr>fl_outcome := Some outcome\<rparr>)"
      by (auto simp: flight_ok_def)
    ultimately show ?thesis
      using ids rows outbox_row_ok_mono [OF _ sub] unfolding Published(1) by (auto simp: delivery_ok_def)
  next
    case (Settled before f behind outcome how rows')
    have f: "flight_ok (ds_rows s) (ds_acknowledged s) f" using flights by (simp add: Settled(2))
    obtain x where x: "x \<in> set (ds_rows s)" "ox_id x = cl_id (fl_claim f)" "ox_payload x = cl_payload (fl_claim f)"
      using f by (auto simp: flight_ok_def)
    have "ox_payload r \<in> set (ds_acknowledged s)"
      if r: "r \<in> set (ds_rows s)" "ox_id r = cl_id (fl_claim f)" "outcome = None" for r
    proof -
      have "r = x" using distinct_key_eq [OF ids(1) r(1) x(1)] r(2) x(2) by simp
      then show ?thesis using f x(3) Settled(3) r(3) by (simp add: flight_ok_def)
    qed
    note facts = settle_claim_rows [OF Settled(4) rows this]
    have kept: "rows_kept (ds_rows s) rows'" using facts by blast
    have "flight_ok rows' (ds_acknowledged s) g" if g: "g \<in> set (before @ behind)" for g
    proof -
      have "g \<in> set (ds_flights s)" using g by (auto simp: Settled(2))
      from flight_ok_kept [OF flights [OF this] kept subset_refl] show ?thesis .
    qed
    moreover have "distinct (map ox_id rows')" "distinct (map ox_event_id rows')"
      using ids facts by (auto simp only:)
    moreover have "\<forall>r \<in> set rows'. outbox_row_ok policy (ds_acknowledged s) r" using facts by blast
    ultimately show ?thesis using kept unfolding Settled(1) delivery_ok_def by simp
  next
    case (Crashed alive)
    then show ?thesis using ids rows flights by (auto simp: delivery_ok_def)
  qed
qed

lemma dispatch_run_ok:
  assumes run: "(dispatch_step lib policy)\<^sup>*\<^sup>* s s'" and ok: "delivery_ok policy s"
    and policy: "1 \<le> rp_max_attempts policy"
  shows "delivery_ok policy s' \<and> rows_kept (ds_rows s) (ds_rows s')
    \<and> set (ds_acknowledged s) \<subseteq> set (ds_acknowledged s')"
  using run
proof induction
  case base
  then show ?case using ok by simp
next
  case (step y z)
  then have "delivery_ok policy y" by simp
  note facts = dispatch_step_ok [OF step(2) this policy]
  have "rows_kept (ds_rows s) (ds_rows z)"
    using rows_kept_trans [of "ds_rows s" "ds_rows y" "ds_rows z"] step.IH facts by simp
  with facts step.IH show ?case by auto
qed

definition empty_outbox :: delivery_state where
  "empty_outbox = \<lparr>ds_rows = [], ds_flights = [], ds_acknowledged = []\<rparr>"

lemma empty_outbox_ok: "delivery_ok policy empty_outbox"
  by (simp add: delivery_ok_def empty_outbox_def)

text \<open>
  \<open>dispatch_outbox_batch\<close> run on its own is a sequence of these steps: the claim, then a
  publication and a settlement per item.
\<close>

lemma publish_claims_steps:
  assumes "publish_claims publisher worker policy now cs b (ds_rows s) st = (r, rows', st')"
    and "ds_flights s = map (take_off worker now) cs"
  shows "\<exists>s'. (dispatch_step lib policy)\<^sup>*\<^sup>* s s' \<and> ds_rows s' = rows'"
  using assms
proof (induction cs arbitrary: b s st)
  case Nil
  then show ?case by auto
next
  case (Cons c cs)
  obtain outcome st1 where out: "publisher (cl_topic c) (cl_payload c) (cl_message_key c) st = (outcome, st1)"
    by fastforce
  let ?f = "take_off worker now c"
  let ?s1 = "s\<lparr>ds_flights := [] @ ?f\<lparr>fl_outcome := Some outcome\<rparr> # map (take_off worker now) cs,
    ds_acknowledged := ds_acknowledged s @ (if outcome = None then [cl_payload (fl_claim ?f)] else [])\<rparr>"
  have flights: "ds_flights s = [] @ ?f # map (take_off worker now) cs" using Cons.prems(2) by simp
  have "fl_outcome ?f = None" by (simp add: take_off_def)
  from dispatch_step.Published [OF flights this]
  have one: "dispatch_step lib policy s ?s1" .
  show ?case
  proof (cases "settle_claim worker policy now (cl_id c) outcome (ds_rows s)")
    case (Inl e)
    then have "rows' = ds_rows ?s1" using Cons.prems(1) out by simp
    with one show ?thesis by (intro exI [of _ ?s1] conjI r_into_rtranclp) simp_all
  next
    case (Inr p)
    obtain how rows1 where p: "p = (how, rows1)" by (cases p)
    let ?s2 = "?s1\<lparr>ds_rows := rows1, ds_flights := [] @ map (take_off worker now) cs\<rparr>"
    have two: "dispatch_step lib policy ?s1 ?s2"
      by (rule dispatch_step.Settled [of _ "[]" "?f\<lparr>fl_outcome := Some outcome\<rparr>"])
        (use Inr p in \<open>simp_all add: take_off_def\<close>)
    have "publish_claims publisher worker policy now cs (count_settlement how b) (ds_rows ?s2) st1 = (r, rows', st')"
      using Cons.prems(1) out Inr p by simp
    from Cons.IH [OF this] obtain s' where run: "(dispatch_step lib policy)\<^sup>*\<^sup>* ?s2 s'" "ds_rows s' = rows'" by auto
    show ?thesis
      by (intro exI conjI, rule converse_rtranclp_into_rtranclp [OF one converse_rtranclp_into_rtranclp [OF two run(1)]],
          rule run(2))
  qed
qed

text \<open>A batch of the dispatcher is a run of the claim, publication and settlement steps,
  whatever the publisher answers: what holds after every interleaving of steps holds after
  batches.\<close>

lemma batch_refines_steps:
  assumes "dispatch_outbox_batch publisher worker locked n policy now lease rows st = (r, rows', st')"
  shows "\<exists>s'. (dispatch_step lib policy)\<^sup>*\<^sup>* \<lparr>ds_rows = rows, ds_flights = [], ds_acknowledged = acked\<rparr> s'
    \<and> ds_rows s' = rows'"
proof -
  let ?s = "\<lparr>ds_rows = rows, ds_flights = [], ds_acknowledged = acked\<rparr>"
  obtain claims rows1 where claimed: "claim_batch worker locked n now (lease_cutoff now lease) (ds_rows ?s) = (claims, rows1)"
    by fastforce
  let ?s1 = "?s\<lparr>ds_rows := rows1, ds_flights := ds_flights ?s @ map (take_off worker now) claims\<rparr>"
  have one: "dispatch_step lib policy ?s ?s1" by (rule dispatch_step.Claimed [OF claimed])
  have "\<exists>b. publish_claims publisher worker policy now claims b (ds_rows ?s1) st = (r, rows', st')"
    using assms claimed by (auto simp: dispatch_outbox_batch_def)
  then obtain b where "publish_claims publisher worker policy now claims b (ds_rows ?s1) st = (r, rows', st')" by blast
  from publish_claims_steps [OF this] obtain s' where run: "(dispatch_step lib policy)\<^sup>*\<^sup>* ?s1 s'" "ds_rows s' = rows'"
    by auto
  show ?thesis by (intro exI conjI, rule converse_rtranclp_into_rtranclp [OF one run(1)], rule run(2))
qed

subsection \<open>An example run\<close>

definition example_row :: outbox_event where
  "example_row = new_outbox_event 1 None ''pipeline-control'' example_cancel None 0"

definition example_published :: outbox_event where
  "example_published = example_row\<lparr>ox_attempts := 1, ox_status := OutboxPublished, ox_published_at := Some 0\<rparr>"

lemma example_enqueued:
  "enqueue_outbox (example_library example_cancel) None ''pipeline-control'' (PDict example_cancel) None 0 []
     = Inr (example_row, [example_row])"
proof -
  have "validate_event (example_library example_cancel) (PDict example_cancel) None = Inr example_cancel"
    using validated_event_any [OF example_library_ok example_cancel_valid] .
  then show ?thesis by (simp add: enqueue_outbox_def example_row_def next_id_def Let_def)
qed

lemma example_enqueue_step:
  "dispatch_step (example_library example_cancel) default_retry_policy empty_outbox
     \<lparr>ds_rows = [example_row], ds_flights = [], ds_acknowledged = []\<rparr>"
  using dispatch_step.Enqueued [where s = empty_outbox and policy = default_retry_policy,
      unfolded empty_outbox_def delivery_state.simps, OF example_enqueued]
  by (simp add: empty_outbox_def)

lemma example_enqueue_run:
  "(dispatch_step (example_library example_cancel) default_retry_policy)\<^sup>*\<^sup>* empty_outbox
     \<lparr>ds_rows = [example_row], ds_flights = [], ds_acknowledged = []\<rparr>"
  using example_enqueue_step by (rule r_into_rtranclp)

text \<open>Enqueued, claimed, published and settled.\<close>

lemma example_dispatch:
  "(dispatch_step (example_library example_cancel) default_retry_policy)\<^sup>*\<^sup>* empty_outbox
     \<lparr>ds_rows = [example_published], ds_flights = [], ds_acknowledged = [example_cancel]\<rparr>"
proof -
  let ?step = "dispatch_step (example_library example_cancel) default_retry_policy"
  let ?held = "example_row\<lparr>ox_status := OutboxPublishing, ox_locked_at := Some 0, ox_locked_by := Some ''w''\<rparr>"
  let ?f = "take_off ''w'' 0 (claim_of example_row)"
  let ?s1 = "\<lparr>ds_rows = [example_row], ds_flights = [], ds_acknowledged = []\<rparr>"
  let ?s2 = "\<lparr>ds_rows = [?held], ds_flights = [?f], ds_acknowledged = []\<rparr>"
  let ?s3 = "\<lparr>ds_rows = [?held], ds_flights = [?f\<lparr>fl_outcome := Some None\<rparr>], ds_acknowledged = [example_cancel]\<rparr>"
  let ?s4 = "\<lparr>ds_rows = [example_published], ds_flights = [], ds_acknowledged = [example_cancel]\<rparr>"
  have row: "ox_id example_row = 1" "ox_status example_row = OutboxPending" "ox_available_at example_row = 0"
    "ox_attempts example_row = 0" "ox_payload example_row = example_cancel" "ox_last_error example_row = None"
    "ox_locked_at example_row = None" "ox_locked_by example_row = None"
    by (simp_all add: example_row_def new_outbox_event_def)
  have "?step empty_outbox ?s1" by (rule example_enqueue_step)
  moreover have "?step ?s1 ?s2"
  proof -
    have "claim_batch ''w'' (\<lambda>_. False) 1 0 (lease_cutoff 0 300) (ds_rows ?s1) = ([claim_of example_row], [?held])"
      by (simp add: claim_batch_def select_batch_def dispatchable_def row)
    from dispatch_step.Claimed [OF this] show ?thesis by simp
  qed
  moreover have "?step ?s2 ?s3"
    using dispatch_step.Published [of ?s2 "[]" ?f "[]" _ _ None] by (simp add: take_off_def claim_of_def row)
  moreover have "?step ?s3 ?s4"
  proof -
    have "settle_claim ''w'' default_retry_policy 0 1 None [?held] = Inr (SettledPublished, [example_published])"
      by (simp add: settle_claim_def settled_row_def unlocked_def example_published_def row)
    with dispatch_step.Settled [of ?s3 "[]" "?f\<lparr>fl_outcome := Some None\<rparr>" "[]" None]
    show ?thesis by (simp add: take_off_def claim_of_def row)
  qed
  ultimately show ?thesis by (meson converse_rtranclp_into_rtranclp rtranclp.rtrancl_refl)
qed

subsection \<open>Properties\<close>

text \<open>C6: In every interleaving of producers, dispatchers, lost publishers and late
  settlements, a row is marked published only after a publication of its payload was
  acknowledged, no event is attempted more often than the policy allows, and only an event that
  used up its attempts is dead.\<close>

lemma published_means_acknowledged:
  assumes "1 \<le> rp_max_attempts policy" and "(dispatch_step lib policy)\<^sup>*\<^sup>* empty_outbox s" and "r \<in> set (ds_rows s)"
  shows "ox_attempts r \<le> rp_max_attempts policy
    \<and> (ox_status r = OutboxPublished \<longrightarrow> ox_payload r \<in> set (ds_acknowledged s))
    \<and> (ox_status r = OutboxDead \<longrightarrow> ox_attempts r = rp_max_attempts policy)"
  using dispatch_run_ok [OF assms(2) empty_outbox_ok assms(1)] assms(3)
  by (auto simp: delivery_ok_def outbox_row_ok_def)

lemma published_means_acknowledged_witness:
  "ox_status example_published = OutboxPublished \<and> ox_payload example_published \<in> set [example_cancel]"
  using published_means_acknowledged [OF _ example_dispatch, of example_published]
  by (simp add: default_retry_policy_def) (simp add: example_published_def)

text \<open>Once an event is enqueued it stays in the outbox with its identity, payload and
  destination, its attempts never decrease, and a published or dead event is never touched
  again, however the dispatchers interleave.\<close>

lemma outbox_keeps_events:
  assumes "1 \<le> rp_max_attempts policy" and "(dispatch_step lib policy)\<^sup>*\<^sup>* empty_outbox s"
    and "(dispatch_step lib policy)\<^sup>*\<^sup>* s s'" and "r \<in> set (ds_rows s)"
  shows "\<exists>r' \<in> set (ds_rows s'). same_event r r'"
proof -
  have "delivery_ok policy s" using dispatch_run_ok [OF assms(2) empty_outbox_ok assms(1)] by simp
  from dispatch_run_ok [OF assms(3) this assms(1)] assms(4) show ?thesis by (auto simp: rows_kept_def)
qed

lemma outbox_keeps_events_witness:
  "\<exists>r' \<in> set [example_published]. same_event example_published r'"
  using outbox_keeps_events [OF _ example_dispatch rtranclp.rtrancl_refl, of example_published]
  by (simp add: default_retry_policy_def)

text \<open>C36: No event gets stuck: in every reachable state each row that is neither published nor
  dead becomes due for the dispatchers at some time and stays due until one claims it, also
  when the dispatcher that held it is gone.\<close>

lemma no_event_gets_stuck:
  assumes "1 \<le> rp_max_attempts policy" and "(dispatch_step lib policy)\<^sup>*\<^sup>* empty_outbox s" and "r \<in> set (ds_rows s)"
    and "\<not> finished r"
  shows "\<exists>t. \<forall>now \<ge> t. dispatchable now (lease_cutoff now lease) r"
proof -
  have ok: "outbox_row_ok policy (ds_acknowledged s) r"
    using dispatch_run_ok [OF assms(2) empty_outbox_ok assms(1)] assms(3) by (simp add: delivery_ok_def)
  show ?thesis
  proof (cases "ox_status r = OutboxPublishing")
    case True
    then obtain t where "ox_locked_at r = Some t" using ok by (auto simp: outbox_row_ok_def)
    with True show ?thesis
      by (intro exI [of _ "t + seconds (max 30 lease)"]) (auto simp: dispatchable_def lease_cutoff_def)
  next
    case False
    then have "ox_status r \<in> {OutboxPending, OutboxFailed}"
      using assms(4) by (cases "ox_status r") (auto simp: finished_def)
    then show ?thesis by (intro exI [of _ "ox_available_at r"]) (auto simp: dispatchable_def)
  qed
qed

lemma no_event_gets_stuck_witness:
  "\<exists>t. \<forall>now \<ge> t. dispatchable now (lease_cutoff now 300) example_row"
  using no_event_gets_stuck [OF _ example_enqueue_run, of example_row]
  by (simp add: default_retry_policy_def) (simp add: example_row_def new_outbox_event_def finished_def)

text \<open>
  The helper that delivers one row in the caller's transaction settles it as a dispatcher
  does.
\<close>

lemma deliver_is_settlement:
  "deliver_outbox_event policy now publisher r
     = (let outcome = publisher (ox_topic r) (ox_payload r) (ox_message_key r)
        in (outcome = None, snd (settled_row policy now outcome r)))"
  by (simp add: deliver_outbox_event_def settled_row_def Let_def split: option.splits)

end
