(* ===== verification/InboxConsumption.thy ===== *)
theory InboxConsumption
  imports KafkaReliability
begin

text \<open>
  The transactional inbox (\<open>_process_inbox\<close>, \<open>process_inbox_transaction\<close>,
  \<open>make_inbox_handler\<close> of \<open>shared/inbox_outbox.py\<close>; \<open>shared/inbox_records.py\<close>): the receipt of
  an event and the domain change it causes are one transaction, so an event that the broker
  delivers again, or to two replicas at once, takes effect once per consumer group.

  A transaction sees the rows \<open>visible\<close> to it when it looks for the receipt and flushes to
  the rows then stored; a receipt that a replica committed in between is the integrity error
  of the unique key. The handler changes the domain part of the database only, and its own
  errors, integrity errors included, roll the transaction back.
\<close>

subsection \<open>Receipts\<close>

datatype inbox_status = InboxProcessing | InboxCompleted | InboxFailed

record inbox_event =
  ib_id :: int
  ib_consumer_group :: string
  ib_event_id :: string
  ib_event_type :: string
  ib_source_topic :: pyval
  ib_source_partition :: pyval
  ib_source_offset :: pyval
  ib_payload :: dict
  ib_status :: inbox_status
  ib_attempts :: int
  ib_last_error :: "string option"
  ib_received_at :: instant
  ib_processed_at :: "instant option"

record 'd inbox_db =
  in_rows :: "inbox_event list"
  in_domain :: 'd

datatype db_failure = IntegrityError | Failure py_error

datatype inbox_result = Processed | Duplicate

definition build_inbox_record :: "int \<Rightarrow> string \<Rightarrow> dict \<Rightarrow> dict \<Rightarrow> instant \<Rightarrow> inbox_event" where
  "build_inbox_record i consumers event source now =
     \<lparr>ib_id = i, ib_consumer_group = consumers, ib_event_id = py_str (dget event ''event_id''),
      ib_event_type = py_str (dget event ''event_type''), ib_source_topic = dget source ''topic'',
      ib_source_partition = dget source ''partition'', ib_source_offset = dget source ''offset'',
      ib_payload = event, ib_status = InboxProcessing, ib_attempts = 1, ib_last_error = None,
      ib_received_at = now, ib_processed_at = None\<rparr>"

definition receipt_key :: "inbox_event \<Rightarrow> string \<times> string" where
  "receipt_key r = (ib_consumer_group r, ib_event_id r)"

subsection \<open>One transaction\<close>

definition process_inbox ::
  "event_library \<Rightarrow> string \<Rightarrow> dict \<Rightarrow> dict \<Rightarrow> (dict \<Rightarrow> 'd \<Rightarrow> db_failure + 'd) \<Rightarrow> instant
     \<Rightarrow> (inbox_event \<Rightarrow> bool) \<Rightarrow> 'd inbox_db \<Rightarrow> db_failure + inbox_result \<times> 'd inbox_db" where
  "process_inbox lib consumers event source handler now visible d =
     (case validate_event lib (PDict event) None of
        Inl e \<Rightarrow> Inl (Failure e)
      | Inr normalized \<Rightarrow>
          (let key = (consumers, py_str (dget normalized ''event_id''));
               finish = (\<lambda>rows. case handler normalized (in_domain d) of
                 Inl f \<Rightarrow> Inl f
               | Inr domain \<Rightarrow>
                   Inr (Processed, \<lparr>in_rows = update_where (\<lambda>r. receipt_key r = key)
                          (\<lambda>r. r\<lparr>ib_status := InboxCompleted, ib_processed_at := Some now\<rparr>) rows,
                        in_domain = domain\<rparr>))
           in case find (\<lambda>r. receipt_key r = key) (filter visible (in_rows d)) of
                None \<Rightarrow>
                  (if key \<in> set (map receipt_key (in_rows d)) then Inl IntegrityError
                   else finish (in_rows d @
                          [build_inbox_record (next_id (map ib_id (in_rows d))) consumers normalized source now]))
              | Some existing \<Rightarrow>
                  (if ib_status existing = InboxCompleted then Inr (Duplicate, d)
                   else finish (update_where (\<lambda>r. receipt_key r = key)
                          (\<lambda>r. r\<lparr>ib_attempts := ib_attempts r + 1, ib_last_error := None\<rparr>) (in_rows d)))))"

definition completed_receipt :: "string \<Rightarrow> dict \<Rightarrow> inbox_event list \<Rightarrow> bool" where
  "completed_receipt consumers event rows \<longleftrightarrow>
     (case find (\<lambda>r. ib_consumer_group r = consumers \<and> PStr (ib_event_id r) = dget event ''event_id'') rows of
        None \<Rightarrow> False | Some r \<Rightarrow> ib_status r = InboxCompleted)"

definition process_inbox_transaction ::
  "event_library \<Rightarrow> string \<Rightarrow> dict \<Rightarrow> dict \<Rightarrow> (dict \<Rightarrow> 'd \<Rightarrow> db_failure + 'd) \<Rightarrow> instant
     \<Rightarrow> (inbox_event \<Rightarrow> bool) \<Rightarrow> 'd inbox_db \<Rightarrow> (db_failure + inbox_result) \<times> 'd inbox_db" where
  "process_inbox_transaction lib consumers event source handler now visible d =
     (case process_inbox lib consumers event source handler now visible d of
        Inr (r, d') \<Rightarrow> (Inr r, d')
      | Inl (Failure e) \<Rightarrow> (Inl (Failure e), d)
      | Inl IntegrityError \<Rightarrow>
          (if completed_receipt consumers event (in_rows d) then (Inr Duplicate, d) else (Inl IntegrityError, d)))"

definition make_inbox_handler ::
  "event_library \<Rightarrow> string \<Rightarrow> message \<Rightarrow> (dict \<Rightarrow> 'd \<Rightarrow> db_failure + 'd) \<Rightarrow> instant \<Rightarrow> (inbox_event \<Rightarrow> bool)
     \<Rightarrow> dict \<Rightarrow> 'd inbox_db \<Rightarrow> (db_failure + inbox_result) \<times> 'd inbox_db" where
  "make_inbox_handler lib consumers m handler now visible event d =
     process_inbox_transaction lib consumers event (message_location m) handler now visible d"

subsection \<open>Deliveries\<close>

record delivery =
  dv_event :: dict
  dv_message :: message
  dv_now :: instant
  dv_visible :: "inbox_event \<Rightarrow> bool"

fun run_inbox ::
  "event_library \<Rightarrow> string \<Rightarrow> (dict \<Rightarrow> 'd \<Rightarrow> db_failure + 'd) \<Rightarrow> delivery list \<Rightarrow> 'd inbox_db
     \<Rightarrow> (delivery \<times> (db_failure + inbox_result)) list \<times> 'd inbox_db" where
  "run_inbox lib consumers handler [] d = ([], d)"
| "run_inbox lib consumers handler (v # vs) d =
     (case make_inbox_handler lib consumers (dv_message v) handler (dv_now v) (dv_visible v) (dv_event v) d of
        (r, d') \<Rightarrow> (case run_inbox lib consumers handler vs d' of (rs, d'') \<Rightarrow> ((v, r) # rs, d'')))"

text \<open>The events that took effect, in order, and what they do one after the other.\<close>

fun processed_events :: "event_library \<Rightarrow> (delivery \<times> (db_failure + inbox_result)) list \<Rightarrow> dict list" where
  "processed_events lib [] = []"
| "processed_events lib ((v, r) # rs) =
     (case (r, validate_event lib (PDict (dv_event v)) None) of
        (Inr Processed, Inr e) \<Rightarrow> e # processed_events lib rs
      | _ \<Rightarrow> processed_events lib rs)"

fun apply_all :: "(dict \<Rightarrow> 'd \<Rightarrow> db_failure + 'd) \<Rightarrow> dict list \<Rightarrow> 'd \<Rightarrow> db_failure + 'd" where
  "apply_all handler [] d = Inr d"
| "apply_all handler (e # es) d = (case handler e d of Inl f \<Rightarrow> Inl f | Inr d' \<Rightarrow> apply_all handler es d')"

definition event_key :: "dict \<Rightarrow> string" where
  "event_key e = py_str (dget e ''event_id'')"

definition completed_ids :: "string \<Rightarrow> inbox_event list \<Rightarrow> string set" where
  "completed_ids consumers rows =
     {ib_event_id r | r. r \<in> set rows \<and> ib_consumer_group r = consumers \<and> ib_status r = InboxCompleted}"

subsection \<open>One delivery\<close>

lemma find_key:
  assumes "distinct (map receipt_key rows)" "r \<in> set rows" "receipt_key r = k"
  shows "find (\<lambda>r. receipt_key r = k) rows = Some r"
  using assms by (induction rows) auto

lemma completed_ids_update:
  assumes "\<And>r. receipt_key (f r) = receipt_key r" "\<And>r. ib_status r = InboxCompleted \<Longrightarrow> ib_status (f r) = InboxCompleted"
  shows "completed_ids consumers rows \<subseteq> completed_ids consumers (update_where P f rows)"
proof
  fix i assume "i \<in> completed_ids consumers rows"
  then obtain r where r: "r \<in> set rows" "receipt_key r = (consumers, i)" "ib_status r = InboxCompleted"
    by (auto simp: completed_ids_def receipt_key_def)
  let ?r = "if P r then f r else r"
  have "receipt_key ?r = (consumers, i)" "ib_status ?r = InboxCompleted" using r assms by simp_all
  moreover have "?r \<in> set (update_where P f rows)" unfolding update_where_def set_map using r(1) by (rule imageI)
  ultimately show "i \<in> completed_ids consumers (update_where P f rows)"
    unfolding completed_ids_def receipt_key_def by blast
qed

lemma process_inbox_effect:
  assumes run: "process_inbox lib consumers event source handler now visible d = Inr (r, d')"
    and keys: "distinct (map receipt_key (in_rows d))"
  shows "distinct (map receipt_key (in_rows d'))
    \<and> completed_ids consumers (in_rows d) \<subseteq> completed_ids consumers (in_rows d')
    \<and> (r = Duplicate \<longrightarrow> d' = d)
    \<and> (r = Processed \<longrightarrow> (\<exists>e. validate_event lib (PDict event) None = Inr e
        \<and> event_key e \<notin> completed_ids consumers (in_rows d)
        \<and> event_key e \<in> completed_ids consumers (in_rows d')
        \<and> handler e (in_domain d) = Inr (in_domain d')))"
proof -
  obtain e where e: "validate_event lib (PDict event) None = Inr e"
    using run by (auto simp: process_inbox_def split: sum.splits)
  let ?key = "(consumers, event_key e)"
  let ?done = "\<lambda>r. r\<lparr>ib_status := InboxCompleted, ib_processed_at := Some now\<rparr>"
  let ?finish = "update_where (\<lambda>r. receipt_key r = ?key) ?done"
  have finish: "distinct (map receipt_key (?finish rows))
      \<and> completed_ids consumers rows \<subseteq> completed_ids consumers (?finish rows)
      \<and> event_key e \<in> completed_ids consumers (?finish rows)"
    if rows: "distinct (map receipt_key rows)" "?key \<in> set (map receipt_key rows)" for rows
  proof -
    have "map receipt_key (?finish rows) = map receipt_key rows"
      by (rule map_update_where) (simp add: receipt_key_def)
    moreover have "completed_ids consumers rows \<subseteq> completed_ids consumers (?finish rows)"
      by (rule completed_ids_update) (simp_all add: receipt_key_def)
    moreover obtain x where x: "x \<in> set rows" "receipt_key x = ?key" using rows(2) by auto
    then have "?done x \<in> set (?finish rows)" by (auto simp: update_where_def)
    then have "event_key e \<in> completed_ids consumers (?finish rows)"
      using x(2) by (force simp: completed_ids_def receipt_key_def)
    ultimately show ?thesis using rows(1) by simp
  qed
  show ?thesis
  proof (cases "find (\<lambda>r. receipt_key r = ?key) (filter visible (in_rows d))")
    case None
    let ?new = "build_inbox_record (next_id (map ib_id (in_rows d))) consumers e source now"
    have new: "receipt_key ?new = ?key" by (simp add: receipt_key_def build_inbox_record_def event_key_def)
    have fresh: "?key \<notin> set (map receipt_key (in_rows d))"
      and d': "r = Processed" "in_rows d' = ?finish (in_rows d @ [?new])"
        "handler e (in_domain d) = Inr (in_domain d')"
      using run None e by (auto simp: process_inbox_def Let_def event_key_def split: if_splits sum.splits)
    have "event_key e \<notin> completed_ids consumers (in_rows d)"
      using fresh by (auto simp: completed_ids_def receipt_key_def image_iff)
    moreover have "completed_ids consumers (in_rows d) \<subseteq> completed_ids consumers (in_rows d @ [?new])"
      by (auto simp: completed_ids_def)
    ultimately show ?thesis
      using finish [of "in_rows d @ [?new]"] keys fresh new d' e by auto
  next
    case (Some x)
    then have x: "x \<in> set (in_rows d)" "receipt_key x = ?key" by (auto simp: find_Some_iff)
        (metis filter_is_subset nth_mem subsetD)
    show ?thesis
    proof (cases "ib_status x = InboxCompleted")
      case True
      then show ?thesis using run Some e keys by (auto simp: process_inbox_def Let_def event_key_def)
    next
      case False
      let ?again = "update_where (\<lambda>r. receipt_key r = ?key)
        (\<lambda>r. r\<lparr>ib_attempts := ib_attempts r + 1, ib_last_error := None\<rparr>) (in_rows d)"
      have d': "r = Processed" "in_rows d' = ?finish ?again" "handler e (in_domain d) = Inr (in_domain d')"
        using run Some e False by (auto simp: process_inbox_def Let_def event_key_def split: sum.splits)
      have same: "map receipt_key ?again = map receipt_key (in_rows d)"
        by (rule map_update_where) (simp add: receipt_key_def)
      have "event_key e \<notin> completed_ids consumers (in_rows d)"
      proof
        assume "event_key e \<in> completed_ids consumers (in_rows d)"
        then obtain y where y: "y \<in> set (in_rows d)" "receipt_key y = ?key" "ib_status y = InboxCompleted"
          by (auto simp: completed_ids_def receipt_key_def)
        have "y = x" using find_key [OF keys y(1,2)] find_key [OF keys x] by simp
        with y(3) False show False by simp
      qed
      moreover have "completed_ids consumers (in_rows d) \<subseteq> completed_ids consumers ?again"
        by (rule completed_ids_update) (simp_all add: receipt_key_def)
      moreover have "?key \<in> set (map receipt_key ?again)" unfolding same using x by force
      ultimately show ?thesis
        using finish [of ?again] keys e d' unfolding same by auto
    qed
  qed
qed

lemma delivery_effect:
  assumes run: "make_inbox_handler lib consumers m handler now visible event d = (r, d')"
    and keys: "distinct (map receipt_key (in_rows d))"
  shows "distinct (map receipt_key (in_rows d'))
    \<and> completed_ids consumers (in_rows d) \<subseteq> completed_ids consumers (in_rows d')
    \<and> (r \<noteq> Inr Processed \<longrightarrow> d' = d)
    \<and> (r = Inr Processed \<longrightarrow> (\<exists>e. validate_event lib (PDict event) None = Inr e
        \<and> event_key e \<notin> completed_ids consumers (in_rows d)
        \<and> event_key e \<in> completed_ids consumers (in_rows d')
        \<and> handler e (in_domain d) = Inr (in_domain d')))"
proof (cases "process_inbox lib consumers event (message_location m) handler now visible d")
  case (Inl f)
  then show ?thesis
    using run keys by (cases f) (auto simp: make_inbox_handler_def process_inbox_transaction_def split: if_splits)
next
  case (Inr p)
  obtain how d1 where p: "p = (how, d1)" by (cases p)
  have "r = Inr how" "d' = d1" using run Inr p by (auto simp: make_inbox_handler_def process_inbox_transaction_def)
  with process_inbox_effect [OF Inr [unfolded p] keys] show ?thesis by (cases how) auto
qed

lemma run_inbox_effect:
  assumes "run_inbox lib consumers handler vs d = (rs, d')" and "distinct (map receipt_key (in_rows d))"
  shows "distinct (map event_key (processed_events lib rs))
    \<and> set (map event_key (processed_events lib rs)) \<inter> completed_ids consumers (in_rows d) = {}
    \<and> apply_all handler (processed_events lib rs) (in_domain d) = Inr (in_domain d')"
  using assms
proof (induction vs arbitrary: d rs)
  case Nil
  then show ?case by simp
next
  case (Cons v vs)
  obtain r d1 where one: "make_inbox_handler lib consumers (dv_message v) handler (dv_now v) (dv_visible v) (dv_event v) d = (r, d1)"
    by fastforce
  obtain rs1 where rest: "run_inbox lib consumers handler vs d1 = (rs1, d')" and rs: "rs = (v, r) # rs1"
    using Cons.prems(1) one by (auto split: prod.splits)
  note first = delivery_effect [OF one Cons.prems(2)]
  have IH: "distinct (map event_key (processed_events lib rs1))
      \<and> set (map event_key (processed_events lib rs1)) \<inter> completed_ids consumers (in_rows d1) = {}
      \<and> apply_all handler (processed_events lib rs1) (in_domain d1) = Inr (in_domain d')"
    using Cons.IH [OF rest] first by blast
  show ?case
  proof (cases "r = Inr Processed")
    case True
    then obtain e where e: "validate_event lib (PDict (dv_event v)) None = Inr e"
        "event_key e \<notin> completed_ids consumers (in_rows d)" "event_key e \<in> completed_ids consumers (in_rows d1)"
        "handler e (in_domain d) = Inr (in_domain d1)"
      using first by blast
    have "processed_events lib rs = e # processed_events lib rs1" by (simp add: rs True e(1))
    with e IH first show ?thesis by auto
  next
    case False
    then have "processed_events lib rs = processed_events lib rs1"
      by (auto simp: rs split: sum.splits inbox_result.splits)
    with False IH first show ?thesis by auto
  qed
qed

text \<open>C7: However often the broker delivers events, to whichever replica and with whatever
  failures, each event takes effect once per consumer group: the events whose processing
  reports success have different identities, none of them had a completed receipt before,
  and the domain ends as if exactly these had been handled one after the other.\<close>

lemma effects_happen_once:
  assumes "run_inbox lib consumers handler deliveries d = (results, d')" and "distinct (map receipt_key (in_rows d))"
  shows "distinct (map event_key (processed_events lib results))
    \<and> set (map event_key (processed_events lib results)) \<inter> completed_ids consumers (in_rows d) = {}
    \<and> apply_all handler (processed_events lib results) (in_domain d) = Inr (in_domain d')"
  by (rule run_inbox_effect [OF assms])

text \<open>A cancellation delivered twice to a handler that counts.\<close>

lemma effects_happen_once_witness:
  "\<exists>d'. snd (run_inbox (example_library example_cancel) ''workers'' (\<lambda>_ n. Inr (n + 1))
        (replicate 2 \<lparr>dv_event = example_cancel, dv_message = \<lparr>msg_methods = fmempty, msg_value = Text ''text''\<rparr>,
           dv_now = 0, dv_visible = (\<lambda>_. True)\<rparr>) \<lparr>in_rows = [], in_domain = (0 :: int)\<rparr>) = d'
    \<and> in_domain d' = 1 \<and> length (in_rows d') = 1"
proof -
  let ?lib = "example_library example_cancel"
  let ?v = "\<lparr>dv_event = example_cancel, dv_message = \<lparr>msg_methods = fmempty, msg_value = Text ''text''\<rparr>,
           dv_now = 0, dv_visible = (\<lambda>_. True)\<rparr>"
  let ?d = "\<lparr>in_rows = [], in_domain = (0 :: int)\<rparr>"
  let ?row = "(build_inbox_record 1 ''workers'' example_cancel (message_location (dv_message ?v)) 0)
    \<lparr>ib_status := InboxCompleted, ib_processed_at := Some 0\<rparr>"
  have valid: "validate_event ?lib (PDict example_cancel) None = Inr example_cancel"
    using validated_event_any [OF example_library_ok example_cancel_valid] .
  have one: "process_inbox ?lib ''workers'' example_cancel (message_location (dv_message ?v)) (\<lambda>_ n. Inr (n + 1)) 0
      (\<lambda>_. True) ?d = Inr (Processed, \<lparr>in_rows = [?row], in_domain = (1 :: int)\<rparr>)"
    by (simp add: process_inbox_def valid Let_def next_id_def receipt_key_def build_inbox_record_def)
  have two: "process_inbox ?lib ''workers'' example_cancel (message_location (dv_message ?v)) (\<lambda>_ n. Inr (n + 1)) 0
      (\<lambda>_. True) \<lparr>in_rows = [?row], in_domain = (1 :: int)\<rparr> = Inr (Duplicate, \<lparr>in_rows = [?row], in_domain = (1 :: int)\<rparr>)"
    by (simp add: process_inbox_def valid Let_def receipt_key_def build_inbox_record_def)
  have run: "run_inbox ?lib ''workers'' (\<lambda>_ n. Inr (n + 1)) (replicate 2 ?v) ?d
      = ([(?v, Inr Processed), (?v, Inr Duplicate)], \<lparr>in_rows = [?row], in_domain = (1 :: int)\<rparr>)"
    using one two by (simp add: numeral_2_eq_2 make_inbox_handler_def process_inbox_transaction_def)
  have "processed_events ?lib [(?v, Inr Processed), (?v, Inr Duplicate)] = [example_cancel]"
    by (simp add: valid)
  with effects_happen_once [OF run] have "Inr (in_domain \<lparr>in_rows = [?row], in_domain = (1 :: int)\<rparr>) = (Inr 1 :: db_failure + int)"
    by simp
  with run show ?thesis by simp
qed

end
