(* ===== verification/MissionCancellation.thy ===== *)
theory MissionCancellation
  imports DatabaseModel
begin

text \<open>
  Cancellation scoped to one attempt (\<open>shared/cancellation.py\<close>): the local registry of a
  worker, the durable mark on the mission or analysis row, and the registry that shares
  cancellations through the database and polls it at most every \<open>poll_seconds\<close>.

  A key is the organization, the flight, the run and the attempt. The monotonic clock is
  counted in microseconds.
\<close>

subsection \<open>The local registry\<close>

record attempt_key =
  ak_organization :: "string option"
  ak_vol_id :: string
  ak_run_id :: "string option"
  ak_attempt :: int

type_synonym attempt_registry = "attempt_key list"

definition registry_cancel :: "attempt_key \<Rightarrow> attempt_registry \<Rightarrow> attempt_registry" where
  "registry_cancel k cancelled = List.insert k cancelled"

definition registry_clear :: "attempt_key \<Rightarrow> attempt_registry \<Rightarrow> attempt_registry" where
  "registry_clear k cancelled = filter (\<lambda>x. x \<noteq> k) cancelled"

definition registry_is_cancelled :: "attempt_key \<Rightarrow> attempt_registry \<Rightarrow> bool" where
  "registry_is_cancelled k cancelled \<longleftrightarrow> k \<in> set cancelled"

subsection \<open>The durable mark\<close>

datatype cancellation_target = MissionTarget mission | AnalysisTarget analysis

definition target_organization :: "string option \<Rightarrow> string" where
  "target_organization organization_id =
     (case organization_id of None \<Rightarrow> LEGACY_ORGANIZATION_ID
      | Some s \<Rightarrow> if s = [] then LEGACY_ORGANIZATION_ID else s)"

definition cancellation_record :: "attempt_key \<Rightarrow> db \<Rightarrow> cancellation_target option" where
  "cancellation_record k d =
     (let organization = target_organization (ak_organization k)
      in case ak_run_id k of
           None \<Rightarrow>
             map_option MissionTarget (first_row (filter (\<lambda>m. m_vol_id m = ak_vol_id k
               \<and> m_organization_id m = organization) (db_missions d)))
         | Some run_id \<Rightarrow>
             map_option AnalysisTarget (first_row (filter (\<lambda>a. ar_vol_id a = ak_vol_id k \<and> ar_run_id a = run_id
               \<and> list_ex (\<lambda>m. m_id m = ar_mission_id a \<and> m_organization_id m = organization) (db_missions d))
               (db_analyses d))))"

fun target_retry_count :: "cancellation_target \<Rightarrow> int" where
  "target_retry_count (MissionTarget m) = m_retry_count m"
| "target_retry_count (AnalysisTarget a) = ar_retry_count a"

fun target_cancelled :: "cancellation_target \<Rightarrow> bool" where
  "target_cancelled (MissionTarget m) = (m_status m = MissionCancelled)"
| "target_cancelled (AnalysisTarget a) = (ar_status a = AnalysisCancelled)"

fun mark_target :: "instant \<Rightarrow> cancellation_target \<Rightarrow> db \<Rightarrow> db" where
  "mark_target now (MissionTarget m) d =
     d\<lparr>db_missions := update_where (\<lambda>x. m_id x = m_id m)
         (\<lambda>x. x\<lparr>m_status := MissionCancelled, m_error_message := None,
                m_current_step := Some ''CANCELLATION_REQUESTED'', m_updated_at := now\<rparr>) (db_missions d)\<rparr>"
| "mark_target now (AnalysisTarget a) d =
     d\<lparr>db_analyses := update_where (\<lambda>x. ar_id x = ar_id a)
         (\<lambda>x. x\<lparr>ar_status := AnalysisCancelled, ar_error_message := None, ar_phase := PhaseCancelled,
                ar_heartbeat_at := now\<rparr>) (db_analyses d)\<rparr>"

definition mark_cancellation_requested :: "attempt_key \<Rightarrow> instant \<Rightarrow> db \<Rightarrow> bool \<times> db" where
  "mark_cancellation_requested k now d =
     (case cancellation_record k d of
        None \<Rightarrow> (False, d)
      | Some t \<Rightarrow> if target_retry_count t \<noteq> ak_attempt k then (False, d) else (True, mark_target now t d))"

subsection \<open>The shared registry\<close>

record durable_registry =
  rg_local :: attempt_registry
  rg_poll :: instant
  rg_last_checks :: "attempt_key \<rightharpoonup> instant"

definition new_durable_registry :: "instant \<Rightarrow> durable_registry" where
  "new_durable_registry poll = \<lparr>rg_local = [], rg_poll = max 0 poll, rg_last_checks = Map.empty\<rparr>"

definition forget_check :: "attempt_key \<Rightarrow> durable_registry \<Rightarrow> durable_registry" where
  "forget_check k g = g\<lparr>rg_last_checks := (rg_last_checks g)(k := None)\<rparr>"

datatype lookup_error = LookupError string

definition durable_cancel ::
  "attempt_key \<Rightarrow> instant \<Rightarrow> durable_registry \<Rightarrow> db \<Rightarrow> (lookup_error + unit) \<times> durable_registry \<times> db" where
  "durable_cancel k now g d =
     (case mark_cancellation_requested k now d of
        (False, d') \<Rightarrow>
          (Inl (LookupError (''cancellation target is missing or no longer on attempt '' @ int_text (ak_attempt k)
             @ '': '' @ ak_vol_id k @ ''/'' @ (case ak_run_id k of None \<Rightarrow> ''mission'' | Some [] \<Rightarrow> ''mission''
                 | Some r \<Rightarrow> r))), g, d')
      | (True, d') \<Rightarrow> (Inr (), forget_check k (g\<lparr>rg_local := registry_cancel k (rg_local g)\<rparr>), d'))"

definition durable_clear :: "attempt_key \<Rightarrow> durable_registry \<Rightarrow> durable_registry" where
  "durable_clear k g = forget_check k (g\<lparr>rg_local := registry_clear k (rg_local g)\<rparr>)"

definition durable_mark :: "attempt_key \<Rightarrow> db \<Rightarrow> bool" where
  "durable_mark k d \<longleftrightarrow>
     (case cancellation_record k d of
        None \<Rightarrow> False
      | Some t \<Rightarrow> target_cancelled t \<and> target_retry_count t = ak_attempt k)"

definition durable_is_cancelled :: "attempt_key \<Rightarrow> instant \<Rightarrow> db \<Rightarrow> durable_registry \<Rightarrow> bool \<times> durable_registry" where
  "durable_is_cancelled k now d g =
     (if registry_is_cancelled k (rg_local g) then (True, g)
      else if \<exists>last. rg_last_checks g k = Some last \<and> now - last < rg_poll g then (False, g)
      else
        (let g' = g\<lparr>rg_last_checks := (rg_last_checks g)(k \<mapsto> now)\<rparr>
         in if durable_mark k d then (True, g'\<lparr>rg_local := registry_cancel k (rg_local g')\<rparr>)
            else (False, g')))"

subsection \<open>Marking a target\<close>

text \<open>What the mark makes of a target, and of the targets of all keys.\<close>

fun marked :: "instant \<Rightarrow> cancellation_target \<Rightarrow> cancellation_target \<Rightarrow> cancellation_target" where
  "marked now (MissionTarget m) (MissionTarget x) =
     MissionTarget (if m_id x = m_id m then x\<lparr>m_status := MissionCancelled, m_error_message := None,
       m_current_step := Some ''CANCELLATION_REQUESTED'', m_updated_at := now\<rparr> else x)"
| "marked now (AnalysisTarget a) (AnalysisTarget x) =
     AnalysisTarget (if ar_id x = ar_id a then x\<lparr>ar_status := AnalysisCancelled, ar_error_message := None,
       ar_phase := PhaseCancelled, ar_heartbeat_at := now\<rparr> else x)"
| "marked now t x = x"

lemma first_row_update:
  assumes "\<And>x. Q (f x) = Q x"
  shows "first_row (filter Q (update_where P f xs))
    = map_option (\<lambda>x. if P x then f x else x) (first_row (filter Q xs))"
  using assms by (induction xs) (auto simp: first_row_def)

lemma cancellation_record_mark:
  "cancellation_record k (mark_target now t d) = map_option (marked now t) (cancellation_record k d)"
proof (cases t)
  case (MissionTarget m)
  let ?f = "\<lambda>x. x\<lparr>m_status := MissionCancelled, m_error_message := None,
    m_current_step := Some ''CANCELLATION_REQUESTED'', m_updated_at := now\<rparr>"
  have same: "list_ex (\<lambda>x. m_id x = i \<and> m_organization_id x = organization) (update_where (\<lambda>x. m_id x = m_id m) ?f xs)
      = list_ex (\<lambda>x. m_id x = i \<and> m_organization_id x = organization) xs" for i organization xs
    by (induction xs) auto
  show ?thesis
    by (auto simp: MissionTarget cancellation_record_def Let_def first_row_update same option.map_comp comp_def
        split: option.splits intro!: map_option_cong)
next
  case (AnalysisTarget a)
  then show ?thesis
    by (auto simp: cancellation_record_def Let_def first_row_update option.map_comp comp_def
        split: option.splits intro!: map_option_cong)
qed

lemma marked_retry_count [simp]: "target_retry_count (marked now t x) = target_retry_count x"
  by (cases "(now, t, x)" rule: marked.cases) simp_all

lemma marked_cancelled: "target_cancelled x \<Longrightarrow> target_cancelled (marked now t x)"
  by (cases "(now, t, x)" rule: marked.cases) simp_all

lemma marked_self: "target_cancelled (marked now t t)"
  by (cases t) simp_all

text \<open>
  The fate of an attempt: its generation was cancelled, or a later one has replaced it.
\<close>

definition attempt_over :: "attempt_key \<Rightarrow> db \<Rightarrow> bool" where
  "attempt_over k d \<longleftrightarrow>
     (\<exists>t. cancellation_record k d = Some t
        \<and> (ak_attempt k < target_retry_count t \<or> (ak_attempt k = target_retry_count t \<and> target_cancelled t)))"

lemma durable_mark_over: "durable_mark k d \<Longrightarrow> attempt_over k d"
  by (auto simp: durable_mark_def attempt_over_def split: option.splits)

lemma mark_keeps_over: "attempt_over k d \<Longrightarrow> attempt_over k (mark_target now t d)"
  by (auto simp: attempt_over_def cancellation_record_mark marked_cancelled)

lemma mark_requested:
  assumes "mark_cancellation_requested k now d = (ok, d')"
  shows "attempt_over k' d \<Longrightarrow> attempt_over k' d'" and "ok \<Longrightarrow> durable_mark k d'"
  using assms
  by (auto simp: mark_cancellation_requested_def durable_mark_def cancellation_record_mark marked_self
      mark_keeps_over split: option.splits if_splits)

subsection \<open>A worker and its environment\<close>

text \<open>
  One worker's registry over the shared database. Other processes change the database in
  any way that never revives an attempt. \<open>ws_since\<close> is the time since which the durable mark
  of a key has been there without interruption.
\<close>

record worker_state =
  ws_db :: db
  ws_registry :: durable_registry
  ws_now :: instant
  ws_since :: "attempt_key \<rightharpoonup> instant"

definition observe_marks :: "instant \<Rightarrow> db \<Rightarrow> (attempt_key \<rightharpoonup> instant) \<Rightarrow> (attempt_key \<rightharpoonup> instant)" where
  "observe_marks now d since =
     (\<lambda>k. if durable_mark k d then (case since k of None \<Rightarrow> Some now | Some t \<Rightarrow> Some t) else None)"

definition worker_after :: "worker_state \<Rightarrow> instant \<Rightarrow> db \<Rightarrow> durable_registry \<Rightarrow> worker_state" where
  "worker_after s now d g =
     \<lparr>ws_db = d, ws_registry = g, ws_now = now, ws_since = observe_marks now d (ws_since s)\<rparr>"

definition start_worker :: "instant \<Rightarrow> instant \<Rightarrow> db \<Rightarrow> worker_state" where
  "start_worker now poll d =
     \<lparr>ws_db = d, ws_registry = new_durable_registry poll, ws_now = now, ws_since = observe_marks now d Map.empty\<rparr>"

inductive worker_step :: "worker_state \<Rightarrow> worker_state \<Rightarrow> bool" where
  Environment: "\<lbrakk>ws_now s \<le> now; \<forall>k. attempt_over k (ws_db s) \<longrightarrow> attempt_over k d\<rbrakk> \<Longrightarrow>
    worker_step s (worker_after s now d (ws_registry s))"
| Cancels: "\<lbrakk>ws_now s \<le> now; durable_cancel k wall (ws_registry s) (ws_db s) = (r, g, d)\<rbrakk> \<Longrightarrow>
    worker_step s (worker_after s now d g)"
| Clears: "ws_now s \<le> now \<Longrightarrow> worker_step s (worker_after s now (ws_db s) (durable_clear k (ws_registry s)))"
| Checks: "\<lbrakk>ws_now s \<le> now; durable_is_cancelled k now (ws_db s) (ws_registry s) = (answer, g)\<rbrakk> \<Longrightarrow>
    worker_step s (worker_after s now (ws_db s) g)"

definition worker_ok :: "worker_state \<Rightarrow> bool" where
  "worker_ok s \<longleftrightarrow>
     (\<forall>k \<in> set (rg_local (ws_registry s)). attempt_over k (ws_db s))
     \<and> (\<forall>k. ws_since s k \<noteq> None \<longleftrightarrow> durable_mark k (ws_db s))
     \<and> (\<forall>k t t0. rg_last_checks (ws_registry s) k = Some t \<and> k \<notin> set (rg_local (ws_registry s))
          \<and> ws_since s k = Some t0 \<longrightarrow> t \<le> t0)
     \<and> (\<forall>k t. rg_last_checks (ws_registry s) k = Some t \<longrightarrow> t \<le> ws_now s)"

lemma observe_marks_mark [simp]: "(\<exists>t. observe_marks now d since k = Some t) \<longleftrightarrow> durable_mark k d"
  by (simp add: observe_marks_def split: option.splits)

lemma observe_marks_Some:
  "observe_marks now d since k = Some t \<Longrightarrow> durable_mark k d \<and> (since k = Some t \<or> (since k = None \<and> t = now))"
  by (auto simp: observe_marks_def split: if_splits option.splits)

lemma start_worker_ok: "worker_ok (start_worker now poll d)"
  by (simp add: worker_ok_def start_worker_def new_durable_registry_def)

text \<open>
  What a step must show: the local entries are over, and each kept or new look at an unmarked
  key is not later than the present.
\<close>

lemma worker_after_ok:
  assumes ok: "worker_ok s" and now: "ws_now s \<le> now"
    and over: "\<And>k. k \<in> set (rg_local g) \<Longrightarrow> attempt_over k d"
    and checks: "\<And>k t. rg_last_checks g k = Some t \<Longrightarrow>
        (rg_last_checks (ws_registry s) k = Some t \<and> (k \<in> set (rg_local (ws_registry s)) \<longrightarrow> k \<in> set (rg_local g)))
        \<or> (t = now \<and> (k \<in> set (rg_local g) \<or> \<not> durable_mark k d))"
  shows "worker_ok (worker_after s now d g)"
  unfolding worker_ok_def
proof (intro conjI allI ballI impI)
  fix k t t0
  assume "rg_last_checks (ws_registry (worker_after s now d g)) k = Some t
    \<and> k \<notin> set (rg_local (ws_registry (worker_after s now d g))) \<and> ws_since (worker_after s now d g) k = Some t0"
  then have a: "rg_last_checks g k = Some t" "k \<notin> set (rg_local g)" "observe_marks now d (ws_since s) k = Some t0"
    by (simp_all add: worker_after_def)
  from observe_marks_Some [OF a(3)] have mark: "durable_mark k d" "ws_since s k = Some t0 \<or> t0 = now" by auto
  from checks [OF a(1)] mark(1) a(2) have last: "rg_last_checks (ws_registry s) k = Some t"
      "k \<notin> set (rg_local (ws_registry s))" by auto
  from mark(2) last ok now show "t \<le> t0" unfolding worker_ok_def by fastforce
next
  fix k t
  assume "rg_last_checks (ws_registry (worker_after s now d g)) k = Some t"
  then have "rg_last_checks g k = Some t" by (simp add: worker_after_def)
  from checks [OF this] ok now have "t \<le> now" unfolding worker_ok_def by fastforce
  then show "t \<le> ws_now (worker_after s now d g)" by (simp add: worker_after_def)
qed (simp_all add: worker_after_def over)

lemma worker_step_ok:
  assumes step: "worker_step s s'" and ok: "worker_ok s"
  shows "worker_ok s'"
  using step
proof cases
  case (Environment now d)
  show ?thesis unfolding Environment(1)
    by (rule worker_after_ok [OF ok Environment(2)]) (use ok Environment(3) in \<open>auto simp: worker_ok_def\<close>)
next
  case (Cancels now k wall r g d)
  obtain success d1 where mark: "mark_cancellation_requested k wall (ws_db s) = (success, d1)" by fastforce
  have d: "d1 = d" using Cancels(3) mark by (auto simp: durable_cancel_def split: bool.splits)
  have over: "attempt_over k' d" if "attempt_over k' (ws_db s)" for k'
    using mark_requested(1) [OF mark that] by (simp add: d)
  show ?thesis unfolding Cancels(1)
  proof (rule worker_after_ok [OF ok Cancels(2)])
    fix k' assume "k' \<in> set (rg_local g)"
    then show "attempt_over k' d"
      using Cancels(3) mark d over ok durable_mark_over [OF mark_requested(2) [OF mark]]
      by (auto simp: durable_cancel_def worker_ok_def registry_cancel_def forget_check_def split: bool.splits)
  qed (use Cancels(3) mark in \<open>auto simp: durable_cancel_def registry_cancel_def forget_check_def
         split: bool.splits if_splits\<close>)
next
  case (Clears now k)
  show ?thesis unfolding Clears(1)
    by (rule worker_after_ok [OF ok Clears(2)])
      (use ok in \<open>auto simp: worker_ok_def durable_clear_def forget_check_def registry_clear_def split: if_splits\<close>)
next
  case (Checks now k answer g)
  show ?thesis unfolding Checks(1)
    by (rule worker_after_ok [OF ok Checks(2)])
      (use ok Checks(3) durable_mark_over in \<open>auto simp: worker_ok_def durable_is_cancelled_def registry_cancel_def
         Let_def split: if_splits\<close>)
qed

lemma worker_run_ok: "worker_step\<^sup>*\<^sup>* (start_worker start poll d) s \<Longrightarrow> worker_ok s \<and> rg_poll (ws_registry s) = max 0 poll"
proof (induction rule: rtranclp_induct)
  case base
  show ?case using start_worker_ok by (simp add: start_worker_def new_durable_registry_def)
next
  case (step y z)
  have "rg_poll (ws_registry z) = rg_poll (ws_registry y)"
    using step(2)
    by cases (auto simp: worker_after_def durable_cancel_def durable_clear_def durable_is_cancelled_def forget_check_def
        Let_def split: prod.splits bool.splits if_splits)
  with step worker_step_ok show ?case by simp
qed


text \<open>A durable cancellation reaches every worker in time: once the mark of an attempt has
  been in the database for the polling interval, each check of that attempt reports it.\<close>

lemma cancellations_reach_workers:
  assumes "worker_step\<^sup>*\<^sup>* (start_worker start poll d) s" and "ws_since s k = Some t"
    and "t + max 0 poll \<le> now"
  shows "fst (durable_is_cancelled k now (ws_db s) (ws_registry s))"
proof -
  have ok: "worker_ok s" and poll: "rg_poll (ws_registry s) = max 0 poll" using worker_run_ok [OF assms(1)] by simp_all
  have "durable_mark k (ws_db s)" using ok assms(2) by (auto simp: worker_ok_def)
  moreover have "\<not> now - last < rg_poll (ws_registry s)"
    if "rg_last_checks (ws_registry s) k = Some last" "k \<notin> set (rg_local (ws_registry s))" for last
  proof -
    have "last \<le> t" using ok that assms(2) by (auto simp: worker_ok_def)
    then show ?thesis using assms(3) by (simp add: poll)
  qed
  ultimately show ?thesis
    by (auto simp: durable_is_cancelled_def registry_is_cancelled_def Let_def)
qed

subsection \<open>An example\<close>

definition example_cancelled_mission :: mission where
  "example_cancelled_mission =
     \<lparr>m_id = 1, m_vol_id = ''m-1'', m_owner_subject = ''u'', m_organization_id = ''acme'',
      m_status = MissionCancelled, m_pipeline = ''p'', m_dataset_id = None, m_input_dataset = None,
      m_workspace_prefix = ''w'', m_params = None, m_current_step = None, m_progress = 0, m_retry_count = 0,
      m_service_states = None, m_resume_info = None, m_error_message = None, m_total_tiles = None,
      m_tiles_received = 0, m_ortho_s3_key = None, m_tiling_metadata = None,
      m_aggregation_status = AggregationPending, m_aggregation_completed_at = None, m_created_at = 0,
      m_updated_at = 0\<rparr>"

definition example_cancel_db :: db where
  "example_cancel_db = \<lparr>db_organizations = [], db_missions = [example_cancelled_mission], db_runs = [], db_receipts = [], db_artifacts = [],
     db_parents = [], db_analyses = [], db_features = [], db_policies = [], db_usage = [], db_buckets = [],
     db_datasets = [], db_uploads = [], db_uuids = 0\<rparr>"

definition example_key :: attempt_key where
  "example_key = \<lparr>ak_organization = Some ''acme'', ak_vol_id = ''m-1'', ak_run_id = None, ak_attempt = 0\<rparr>"

lemma example_mark: "durable_mark example_key example_cancel_db"
  by (simp add: durable_mark_def cancellation_record_def example_key_def example_cancel_db_def target_organization_def
      example_cancelled_mission_def first_row_def)


lemma cancellations_reach_workers_witness:
  "fst (durable_is_cancelled example_key 5 example_cancel_db (new_durable_registry 5))"
  using cancellations_reach_workers [of 0 5 example_cancel_db "start_worker 0 5 example_cancel_db" example_key 0 5]
    example_mark
  by (simp add: start_worker_def observe_marks_def)

end
