(* ===== verification/Identity.thy ===== *)
theory Identity
  imports OrchestratorSettings EventContracts
begin

text \<open>
  Durable identities (\<open>shared/identity.py\<close>, \<open>shared/identity_capabilities.py\<close>,
  \<open>shared/platform_identity.py\<close>): the rows of
  \<open>shared/database_identity_models.py\<close>, peppered credential digests, issue, authentication and
  revocation of credentials, validation of signed sessions, one-time capabilities, and the separate
  realm of platform support, whose members all have the role of support.

  The rows live in the record \<open>identity_db\<close>; \<open>id_uuids\<close> and \<open>id_secrets\<close> count the random
  UUIDs and secrets drawn so far, whose values, like the keyed digest, are parameters. The
  creation and update times of rows and the generated keys of audit rows are left out.
\<close>

subsection \<open>Rows\<close>

datatype member_role = Viewer | Operator | Admin

datatype member_status = MemberActive | MemberSuspended

datatype credential_status = CredentialActive | CredentialRevoked

datatype capability_purpose = Invitation | Recovery

datatype capability_status = CapabilityPending | CapabilityRedeemed | CapabilityRevoked

fun role_name :: "member_role \<Rightarrow> string" where
  "role_name Viewer = ''viewer''" | "role_name Operator = ''operator''" | "role_name Admin = ''admin''"

fun member_status_name :: "member_status \<Rightarrow> string" where
  "member_status_name MemberActive = ''active''" | "member_status_name MemberSuspended = ''suspended''"

fun credential_status_name :: "credential_status \<Rightarrow> string" where
  "credential_status_name CredentialActive = ''active''" | "credential_status_name CredentialRevoked = ''revoked''"

record member =
  mm_id :: string
  mm_organization_id :: string
  mm_subject :: string
  mm_role :: member_role
  mm_status :: member_status
  mm_auth_version :: int
  mm_created_by :: string
  mm_updated_by :: string

record api_credential =
  ac_id :: string
  ac_organization_id :: string
  ac_member_id :: string
  ac_name :: string
  ac_secret_hash :: string
  ac_status :: credential_status
  ac_expires_at :: "instant option"
  ac_last_used_at :: "instant option"
  ac_revoked_at :: "instant option"
  ac_revoked_by :: "string option"
  ac_revocation_reason :: "string option"
  ac_rotated_from_id :: "string option"
  ac_created_by :: string

record capability =
  cp_id :: string
  cp_organization_id :: string
  cp_member_id :: "string option"
  cp_purpose :: capability_purpose
  cp_subject :: string
  cp_role :: member_role
  cp_secret_hash :: string
  cp_status :: capability_status
  cp_expires_at :: instant
  cp_redeemed_at :: "instant option"
  cp_revoked_at :: "instant option"
  cp_revoked_by :: "string option"
  cp_created_by :: string

record identity_audit_event =
  ia_organization_id :: string
  ia_actor_subject :: string
  ia_action :: string
  ia_target_type :: string
  ia_target_id :: string
  ia_before_state :: "dict option"
  ia_after_state :: "dict option"

record platform_member =
  pm_id :: string
  pm_subject :: string
  pm_status :: member_status
  pm_auth_version :: int
  pm_created_by :: string
  pm_updated_by :: string

record platform_credential =
  pc_id :: string
  pc_member_id :: string
  pc_name :: string
  pc_secret_hash :: string
  pc_status :: credential_status
  pc_expires_at :: "instant option"
  pc_last_used_at :: "instant option"
  pc_revoked_at :: "instant option"
  pc_revoked_by :: "string option"
  pc_revocation_reason :: "string option"
  pc_rotated_from_id :: "string option"
  pc_created_by :: string

record platform_audit_event =
  pa_actor_subject :: string
  pa_action :: string
  pa_target_type :: string
  pa_target_id :: string
  pa_before_state :: "dict option"
  pa_after_state :: "dict option"

record identity_db =
  id_organizations :: "organization list"
  id_members :: "member list"
  id_credentials :: "api_credential list"
  id_capabilities :: "capability list"
  id_audit :: "identity_audit_event list"
  id_platform_members :: "platform_member list"
  id_platform_credentials :: "platform_credential list"
  id_platform_audit :: "platform_audit_event list"
  id_uuids :: nat
  id_secrets :: nat

record identity_library =
  il_uuid4 :: "nat \<Rightarrow> string"
  il_secret :: "nat \<Rightarrow> string"
  il_hmac :: "string \<Rightarrow> string \<Rightarrow> string"

text \<open>\<open>session.get\<close> by primary key.\<close>

definition get_member :: "identity_db \<Rightarrow> string \<Rightarrow> member option" where
  "get_member d i = find (\<lambda>m. mm_id m = i) (id_members d)"

definition get_credential :: "identity_db \<Rightarrow> string \<Rightarrow> api_credential option" where
  "get_credential d i = find (\<lambda>c. ac_id c = i) (id_credentials d)"

definition get_organization :: "identity_db \<Rightarrow> string \<Rightarrow> organization option" where
  "get_organization d i = find (\<lambda>o'. og_id o' = i) (id_organizations d)"

subsection \<open>Tokens\<close>

text \<open>\<open>text.partition(sep)\<close> for a separator of one character.\<close>

definition partition_at :: "char \<Rightarrow> string \<Rightarrow> string \<times> bool \<times> string" where
  "partition_at c s = (takeWhile (\<lambda>x. x \<noteq> c) s, c \<in> set s, drop 1 (dropWhile (\<lambda>x. x \<noteq> c) s))"

text \<open>
  \<open>str(UUID(text))\<close>: the value's 32 lower-case hexadecimal digits in five groups. The digits
  are what is left of an accepted text without prefix, sign and underscores.
\<close>

definition uuid_digits :: "string \<Rightarrow> string" where
  "uuid_digits s =
     (let hex = remove_sub ''uuid:'' (remove_sub ''urn:'' s);
          brace = (\<lambda>c. c = CHR ''{'' \<or> c = CHR ''}'');
          body = str_strip (remove_char CHR ''-'' (str_rstrip brace (dropWhile brace hex)));
          unsigned = (if body \<noteq> [] \<and> hd body = CHR ''+'' then tl body else body);
          bare = (if starts_with ''0x'' unsigned \<or> starts_with ''0X'' unsigned then drop 2 unsigned else unsigned);
          digits = map char_lower (filter hex_digit bare)
      in replicate (32 - length digits) CHR ''0'' @ digits)"

definition grouped_uuid :: "string \<Rightarrow> string" where
  "grouped_uuid d = take 8 d @ ''-'' @ take 4 (drop 8 d) @ ''-'' @ take 4 (drop 12 d) @ ''-'' @ take 4 (drop 16 d)
     @ ''-'' @ drop 20 d"

definition uuid_string :: "string \<Rightarrow> string option" where
  "uuid_string s = (if uuid_text s then Some (grouped_uuid (uuid_digits s)) else None)"

definition id_from_token :: "string \<Rightarrow> string \<Rightarrow> string option" where
  "id_from_token token_prefix token =
     (case partition_at CHR ''.'' token of (prefix, separator, remainder) \<Rightarrow>
      case partition_at CHR ''.'' remainder of (public_id, second_separator, secret) \<Rightarrow>
        if prefix \<noteq> token_prefix \<or> \<not> separator \<or> \<not> second_separator then None
        else if length secret < 32 then None
        else uuid_string public_id)"

definition CREDENTIAL_TOKEN_PREFIX :: string where
  "CREDENTIAL_TOKEN_PREFIX = ''dai''"

definition CAPABILITY_TOKEN_PREFIX :: string where
  "CAPABILITY_TOKEN_PREFIX = ''dic''"

definition credential_id_from_token :: "string \<Rightarrow> string option" where
  "credential_id_from_token = id_from_token CREDENTIAL_TOKEN_PREFIX"

definition capability_id_from_token :: "string \<Rightarrow> string option" where
  "capability_id_from_token = id_from_token CAPABILITY_TOKEN_PREFIX"

definition token_text :: "string \<Rightarrow> string \<Rightarrow> string \<Rightarrow> string" where
  "token_text prefix public_id secret = prefix @ ''.'' @ public_id @ ''.'' @ secret"

subsection \<open>Configuration\<close>

definition database_authentication_enabled :: "environ \<Rightarrow> bool \<Rightarrow> bool" where
  "database_authentication_enabled env production =
     (case env ''DRONEAI_DATABASE_AUTH_ENABLED'' of
        None \<Rightarrow> production
      | Some raw \<Rightarrow> str_lower (str_strip raw) \<in> {''1'', ''true'', ''yes''})"

definition credential_pepper :: "environ \<Rightarrow> string res" where
  "credential_pepper env =
     (let value = getenv env ''DRONEAI_CREDENTIAL_PEPPER'' []
      in if length value < 32
         then Inl (RuntimeError ''DRONEAI_CREDENTIAL_PEPPER must contain at least 32 characters'')
         else Inr value)"

definition credential_hash :: "identity_library \<Rightarrow> environ \<Rightarrow> string \<Rightarrow> string res" where
  "credential_hash lib env token = rbind (credential_pepper env) (\<lambda>pepper. Inr (il_hmac lib pepper token))"

definition credential_is_expired :: "instant option \<Rightarrow> instant \<Rightarrow> bool" where
  "credential_is_expired value now = (case value of None \<Rightarrow> False | Some t \<Rightarrow> t \<le> now)"

definition should_update_credential_last_used :: "environ \<Rightarrow> instant option \<Rightarrow> instant \<Rightarrow> bool res" where
  "should_update_credential_last_used env value now =
     (case parse_int (getenv env ''DRONEAI_CREDENTIAL_LAST_USED_WRITE_INTERVAL_SECONDS'' ''300'') of
        None \<Rightarrow> Inl (RuntimeError
          ''DRONEAI_CREDENTIAL_LAST_USED_WRITE_INTERVAL_SECONDS must be an integer'')
      | Some interval \<Rightarrow>
          if interval < 0
          then Inl (RuntimeError ''DRONEAI_CREDENTIAL_LAST_USED_WRITE_INTERVAL_SECONDS cannot be negative'')
          else Inr (case value of None \<Rightarrow> True | Some t \<Rightarrow> t \<le> now - seconds interval))"

subsection \<open>Credentials\<close>

definition draw_id :: "identity_library \<Rightarrow> identity_db \<Rightarrow> string \<times> identity_db" where
  "draw_id lib d = (il_uuid4 lib (id_uuids d), d\<lparr>id_uuids := id_uuids d + 1\<rparr>)"

definition draw_secret :: "identity_library \<Rightarrow> identity_db \<Rightarrow> string \<times> identity_db" where
  "draw_secret lib d = (il_secret lib (id_secrets d), d\<lparr>id_secrets := id_secrets d + 1\<rparr>)"

definition issue_credential ::
  "identity_library \<Rightarrow> environ \<Rightarrow> member \<Rightarrow> string \<Rightarrow> string \<Rightarrow> instant option \<Rightarrow> string option \<Rightarrow> identity_db
     \<Rightarrow> ((api_credential \<times> string) \<times> identity_db) res" where
  "issue_credential lib env m name actor expires_at rotated_from d =
     (case draw_id lib d of (credential_id, d1) \<Rightarrow>
      case draw_secret lib d1 of (secret, d2) \<Rightarrow>
      let token = token_text CREDENTIAL_TOKEN_PREFIX credential_id secret
      in rbind (credential_hash lib env token) (\<lambda>hash.
         (let row = \<lparr>ac_id = credential_id, ac_organization_id = mm_organization_id m, ac_member_id = mm_id m,
                ac_name = name, ac_secret_hash = hash, ac_status = CredentialActive, ac_expires_at = expires_at,
                ac_last_used_at = None, ac_revoked_at = None, ac_revoked_by = None, ac_revocation_reason = None,
                ac_rotated_from_id = rotated_from, ac_created_by = actor\<rparr>
          in Inr ((row, token), d2\<lparr>id_credentials := id_credentials d2 @ [row]\<rparr>))))"

definition update_organization :: "string \<Rightarrow> string \<Rightarrow> organization \<Rightarrow> organization" where
  "update_organization display_name actor o' = o'\<lparr>og_display_name := display_name, og_updated_by := actor\<rparr>"

definition apply_member_update :: "member_role \<Rightarrow> member_status \<Rightarrow> string \<Rightarrow> member \<Rightarrow> member" where
  "apply_member_update role st actor m =
     m\<lparr>mm_role := role, mm_status := st, mm_auth_version := mm_auth_version m + 1, mm_updated_by := actor\<rparr>"

definition mark_credential_revoked :: "instant \<Rightarrow> string \<Rightarrow> string option \<Rightarrow> api_credential \<Rightarrow> api_credential" where
  "mark_credential_revoked now actor reason c =
     c\<lparr>ac_status := CredentialRevoked, ac_revoked_at := Some now, ac_revoked_by := Some actor,
       ac_revocation_reason := reason\<rparr>"

record authenticated_identity =
  ai_subject :: string
  ai_role :: member_role
  ai_organization_id :: string
  ai_member_id :: string
  ai_credential_id :: string
  ai_auth_version :: int

definition identity_of :: "member \<Rightarrow> api_credential \<Rightarrow> authenticated_identity" where
  "identity_of m c = \<lparr>ai_subject = mm_subject m, ai_role = mm_role m, ai_organization_id = mm_organization_id m,
     ai_member_id = mm_id m, ai_credential_id = ac_id c, ai_auth_version = mm_auth_version m\<rparr>"

definition put_credential :: "api_credential \<Rightarrow> identity_db \<Rightarrow> identity_db" where
  "put_credential c d = d\<lparr>id_credentials := update_where (\<lambda>x. ac_id x = ac_id c) (\<lambda>_. c) (id_credentials d)\<rparr>"

definition put_member :: "member \<Rightarrow> identity_db \<Rightarrow> identity_db" where
  "put_member m d = d\<lparr>id_members := update_where (\<lambda>x. mm_id x = mm_id m) (\<lambda>_. m) (id_members d)\<rparr>"

definition put_capability :: "capability \<Rightarrow> identity_db \<Rightarrow> identity_db" where
  "put_capability c d = d\<lparr>id_capabilities := update_where (\<lambda>x. cp_id x = cp_id c) (\<lambda>_. c) (id_capabilities d)\<rparr>"

definition active_organization :: "identity_db \<Rightarrow> string \<Rightarrow> bool" where
  "active_organization d i = (case get_organization d i of None \<Rightarrow> False | Some o' \<Rightarrow> og_status o' = OrganizationActive)"

definition authenticate_credential ::
  "identity_library \<Rightarrow> environ \<Rightarrow> instant \<Rightarrow> bool \<Rightarrow> string \<Rightarrow> identity_db
     \<Rightarrow> (authenticated_identity option \<times> identity_db) res" where
  "authenticate_credential lib env now update_last_used token d =
     (case credential_id_from_token token of
        None \<Rightarrow> Inr (None, d)
      | Some credential_id \<Rightarrow>
          (case get_credential d credential_id of
             None \<Rightarrow> Inr (None, d)
           | Some c \<Rightarrow>
               if ac_status c \<noteq> CredentialActive then Inr (None, d)
               else
                 rbind (credential_hash lib env token) (\<lambda>hash.
                   if ac_secret_hash c \<noteq> hash \<or> credential_is_expired (ac_expires_at c) now then Inr (None, d)
                   else (case get_member d (ac_member_id c) of
                           None \<Rightarrow> Inr (None, d)
                         | Some m \<Rightarrow>
                             if mm_organization_id m \<noteq> ac_organization_id c \<or> mm_status m \<noteq> MemberActive
                                \<or> \<not> active_organization d (ac_organization_id c)
                             then Inr (None, d)
                             else
                               rbind (if update_last_used
                                      then should_update_credential_last_used env (ac_last_used_at c) now
                                      else Inr False) (\<lambda>touch.
                                 Inr (Some (identity_of m c),
                                   if touch then put_credential (c\<lparr>ac_last_used_at := Some now\<rparr>) d else d))))))"

definition validate_session_identity ::
  "instant \<Rightarrow> string \<Rightarrow> string \<Rightarrow> int \<Rightarrow> identity_db \<Rightarrow> authenticated_identity option" where
  "validate_session_identity now member_id credential_id auth_version d =
     (case (get_credential d credential_id, get_member d member_id) of
        (Some c, Some m) \<Rightarrow>
          (if ac_member_id c \<noteq> member_id \<or> ac_status c \<noteq> CredentialActive
              \<or> credential_is_expired (ac_expires_at c) now \<or> mm_status m \<noteq> MemberActive
              \<or> mm_auth_version m \<noteq> auth_version \<or> mm_organization_id m \<noteq> ac_organization_id c
           then None
           else if \<not> active_organization d (mm_organization_id m) then None
           else Some (identity_of m c))
      | _ \<Rightarrow> None)"

definition append_audit_event ::
  "string \<Rightarrow> string \<Rightarrow> string \<Rightarrow> string \<Rightarrow> string \<Rightarrow> dict option \<Rightarrow> dict option \<Rightarrow> identity_db \<Rightarrow> identity_db" where
  "append_audit_event organization_id actor action target_type target_id before_state after_state d =
     d\<lparr>id_audit := id_audit d @ [\<lparr>ia_organization_id = organization_id, ia_actor_subject = actor,
         ia_action = action, ia_target_type = target_type, ia_target_id = target_id,
         ia_before_state = before_state, ia_after_state = after_state\<rparr>]\<rparr>"

subsection \<open>Capabilities\<close>

definition CAPABILITY_MAX_LIFETIME :: instant where
  "CAPABILITY_MAX_LIFETIME = seconds (30 * 86400)"

definition issue_capability ::
  "identity_library \<Rightarrow> environ \<Rightarrow> instant \<Rightarrow> string \<Rightarrow> capability_purpose \<Rightarrow> string \<Rightarrow> member_role \<Rightarrow> string \<Rightarrow> instant
     \<Rightarrow> string option \<Rightarrow> identity_db \<Rightarrow> ((capability \<times> string) \<times> identity_db) res" where
  "issue_capability lib env now organization_id purpose subject role actor expires_at member_id d =
     (if expires_at \<le> now \<or> now + CAPABILITY_MAX_LIFETIME < expires_at
      then Inl (ValueError ''Capability expiry must be within the next 30 days'')
      else if (purpose = Invitation) \<noteq> (member_id = None)
      then Inl (ValueError ''Capability member does not match its purpose'')
      else
        (case draw_id lib d of (capability_id, d1) \<Rightarrow>
         case draw_secret lib d1 of (secret, d2) \<Rightarrow>
         let token = token_text CAPABILITY_TOKEN_PREFIX capability_id secret
         in rbind (credential_hash lib env token) (\<lambda>hash.
            (let row = \<lparr>cp_id = capability_id, cp_organization_id = organization_id, cp_member_id = member_id,
                   cp_purpose = purpose, cp_subject = subject, cp_role = role, cp_secret_hash = hash,
                   cp_status = CapabilityPending, cp_expires_at = expires_at, cp_redeemed_at = None,
                   cp_revoked_at = None, cp_revoked_by = None, cp_created_by = actor\<rparr>
             in Inr ((row, token), d2\<lparr>id_capabilities := id_capabilities d2 @ [row]\<rparr>)))))"

definition authenticate_capability ::
  "identity_library \<Rightarrow> environ \<Rightarrow> instant \<Rightarrow> string \<Rightarrow> identity_db \<Rightarrow> capability option res" where
  "authenticate_capability lib env now token d =
     (case capability_id_from_token token of
        None \<Rightarrow> Inr None
      | Some capability_id \<Rightarrow>
          rbind (one_or_none (filter (\<lambda>c. cp_id c = capability_id) (id_capabilities d))) (\<lambda>found.
            (case found of
               None \<Rightarrow> Inr None
             | Some c \<Rightarrow>
                 if cp_status c \<noteq> CapabilityPending \<or> credential_is_expired (Some (cp_expires_at c)) now
                 then Inr None
                 else rbind (credential_hash lib env token) (\<lambda>hash.
                        Inr (if cp_secret_hash c \<noteq> hash then None else Some c)))))"

definition redeem_capability :: "instant \<Rightarrow> capability \<Rightarrow> capability" where
  "redeem_capability now c = c\<lparr>cp_status := CapabilityRedeemed, cp_redeemed_at := Some now\<rparr>"

definition revoke_capability :: "instant \<Rightarrow> string \<Rightarrow> capability \<Rightarrow> capability" where
  "revoke_capability now actor c =
     c\<lparr>cp_status := CapabilityRevoked, cp_revoked_at := Some now, cp_revoked_by := Some actor\<rparr>"

definition capability_member :: "capability \<Rightarrow> identity_db \<Rightarrow> member option res" where
  "capability_member c d =
     (case cp_member_id c of
        Some i \<Rightarrow> Inr (get_member d i)
      | None \<Rightarrow> one_or_none (filter (\<lambda>m. mm_organization_id m = cp_organization_id c \<and> mm_subject m = cp_subject c)
                (id_members d)))"

subsection \<open>The platform realm\<close>

definition PLATFORM_CREDENTIAL_TOKEN_PREFIX :: string where
  "PLATFORM_CREDENTIAL_TOKEN_PREFIX = ''dps''"

definition PLATFORM_PRINCIPAL_ORGANIZATION :: string where
  "PLATFORM_PRINCIPAL_ORGANIZATION = ''platform-control''"

definition platform_credential_id_from_token :: "string \<Rightarrow> string option" where
  "platform_credential_id_from_token = id_from_token PLATFORM_CREDENTIAL_TOKEN_PREFIX"

definition get_platform_member :: "identity_db \<Rightarrow> string \<Rightarrow> platform_member option" where
  "get_platform_member d i = find (\<lambda>m. pm_id m = i) (id_platform_members d)"

definition get_platform_credential :: "identity_db \<Rightarrow> string \<Rightarrow> platform_credential option" where
  "get_platform_credential d i = find (\<lambda>c. pc_id c = i) (id_platform_credentials d)"

definition issue_platform_credential ::
  "identity_library \<Rightarrow> environ \<Rightarrow> platform_member \<Rightarrow> string \<Rightarrow> string \<Rightarrow> instant option \<Rightarrow> string option \<Rightarrow> identity_db
     \<Rightarrow> ((platform_credential \<times> string) \<times> identity_db) res" where
  "issue_platform_credential lib env m name actor expires_at rotated_from d =
     (let stripped = str_strip name; by = str_strip actor
      in if stripped = [] \<or> 160 < length stripped
         then Inl (ValueError ''Platform credential name must contain 1 to 160 characters'')
         else if by = [] \<or> 256 < length by
         then Inl (ValueError ''Platform actor subject must contain 1 to 256 characters'')
         else
           (case draw_id lib d of (credential_id, d1) \<Rightarrow>
            case draw_secret lib d1 of (secret, d2) \<Rightarrow>
            let token = token_text PLATFORM_CREDENTIAL_TOKEN_PREFIX credential_id secret
            in rbind (credential_hash lib env token) (\<lambda>hash.
               (let row = \<lparr>pc_id = credential_id, pc_member_id = pm_id m, pc_name = stripped, pc_secret_hash = hash,
                      pc_status = CredentialActive, pc_expires_at = expires_at, pc_last_used_at = None,
                      pc_revoked_at = None, pc_revoked_by = None, pc_revocation_reason = None,
                      pc_rotated_from_id = rotated_from, pc_created_by = by\<rparr>
                in Inr ((row, token), d2\<lparr>id_platform_credentials := id_platform_credentials d2 @ [row]\<rparr>)))))"

record authenticated_platform_identity =
  api_subject :: string
  api_member_id :: string
  api_credential_id :: string
  api_auth_version :: int

definition platform_identity_of :: "platform_credential \<Rightarrow> platform_member \<Rightarrow> authenticated_platform_identity" where
  "platform_identity_of c m =
     \<lparr>api_subject = pm_subject m, api_member_id = pm_id m, api_credential_id = pc_id c,
      api_auth_version = pm_auth_version m\<rparr>"

definition put_platform_credential :: "platform_credential \<Rightarrow> identity_db \<Rightarrow> identity_db" where
  "put_platform_credential c d =
     d\<lparr>id_platform_credentials := update_where (\<lambda>x. pc_id x = pc_id c) (\<lambda>_. c) (id_platform_credentials d)\<rparr>"

definition authenticate_platform_credential ::
  "identity_library \<Rightarrow> environ \<Rightarrow> instant \<Rightarrow> bool \<Rightarrow> string \<Rightarrow> identity_db
     \<Rightarrow> (authenticated_platform_identity option \<times> identity_db) res" where
  "authenticate_platform_credential lib env now update_last_used token d =
     (case platform_credential_id_from_token token of
        None \<Rightarrow> Inr (None, d)
      | Some credential_id \<Rightarrow>
          (case get_platform_credential d credential_id of
             None \<Rightarrow> Inr (None, d)
           | Some c \<Rightarrow>
               if pc_status c \<noteq> CredentialActive then Inr (None, d)
               else
                 rbind (credential_hash lib env token) (\<lambda>hash.
                   if pc_secret_hash c \<noteq> hash \<or> credential_is_expired (pc_expires_at c) now then Inr (None, d)
                   else (case get_platform_member d (pc_member_id c) of
                           None \<Rightarrow> Inr (None, d)
                         | Some m \<Rightarrow>
                             if pm_status m \<noteq> MemberActive then Inr (None, d)
                             else
                               rbind (if update_last_used
                                      then should_update_credential_last_used env (pc_last_used_at c) now
                                      else Inr False) (\<lambda>touch.
                                 Inr (Some (platform_identity_of c m),
                                   if touch then put_platform_credential (c\<lparr>pc_last_used_at := Some now\<rparr>) d else d))))))"

definition validate_platform_session_identity ::
  "instant \<Rightarrow> string \<Rightarrow> string \<Rightarrow> int \<Rightarrow> identity_db \<Rightarrow> authenticated_platform_identity option" where
  "validate_platform_session_identity now member_id credential_id auth_version d =
     (case (get_platform_credential d credential_id, get_platform_member d member_id) of
        (Some c, Some m) \<Rightarrow>
          (if pc_member_id c \<noteq> member_id \<or> pc_status c \<noteq> CredentialActive
              \<or> credential_is_expired (pc_expires_at c) now \<or> pm_status m \<noteq> MemberActive
              \<or> pm_auth_version m \<noteq> auth_version
           then None else Some (platform_identity_of c m))
      | _ \<Rightarrow> None)"

definition revoke_platform_credential ::
  "instant \<Rightarrow> string \<Rightarrow> string option \<Rightarrow> platform_credential \<Rightarrow> platform_credential" where
  "revoke_platform_credential now actor reason c =
     c\<lparr>pc_status := CredentialRevoked, pc_revoked_at := Some now, pc_revoked_by := Some actor,
       pc_revocation_reason := reason\<rparr>"

definition append_platform_audit_event ::
  "string \<Rightarrow> string \<Rightarrow> string \<Rightarrow> string \<Rightarrow> dict option \<Rightarrow> dict option \<Rightarrow> identity_db \<Rightarrow> identity_db" where
  "append_platform_audit_event actor action target_type target_id before_state after_state d =
     d\<lparr>id_platform_audit := id_platform_audit d @ [\<lparr>pa_actor_subject = actor, pa_action = action,
         pa_target_type = target_type, pa_target_id = target_id, pa_before_state = before_state,
         pa_after_state = after_state\<rparr>]\<rparr>"

subsection \<open>Facts about tokens and authentication\<close>

lemma partition_at_append: "c \<notin> set a \<Longrightarrow> partition_at c (a @ c # s) = (a, True, s)"
  by (simp add: partition_at_def takeWhile_append dropWhile_append2)

text \<open>The identifier of a token that was put together from one.\<close>

lemma id_from_token_text:
  assumes "CHR ''.'' \<notin> set prefix" "CHR ''.'' \<notin> set i" "32 \<le> length secret"
  shows "id_from_token prefix (token_text prefix i secret) = uuid_string i"
proof -
  have "token_text prefix i secret = prefix @ CHR ''.'' # (i @ CHR ''.'' # secret)" by (simp add: token_text_def)
  then show ?thesis using assms by (simp add: id_from_token_def partition_at_append)
qed

lemma id_from_token_prefix:
  "id_from_token p t = Some i \<Longrightarrow> takeWhile (\<lambda>x. x \<noteq> CHR ''.'') t = p"
  by (auto simp: id_from_token_def partition_at_def split: if_splits)

text \<open>A token belongs to one realm: the prefixes differ.\<close>

lemma id_from_token_other: "id_from_token p t = Some i \<Longrightarrow> q \<noteq> p \<Longrightarrow> id_from_token q t = None"
  using id_from_token_prefix [of p t i] id_from_token_prefix [of q t] by (cases "id_from_token q t") simp_all

lemma token_realms_disjoint:
  "credential_id_from_token t = Some i \<Longrightarrow> capability_id_from_token t = None \<and> platform_credential_id_from_token t = None"
  unfolding credential_id_from_token_def capability_id_from_token_def platform_credential_id_from_token_def
  by (intro conjI; erule id_from_token_other)
    (simp_all add: CREDENTIAL_TOKEN_PREFIX_def CAPABILITY_TOKEN_PREFIX_def PLATFORM_CREDENTIAL_TOKEN_PREFIX_def)

lemma get_credential_mem: "get_credential d i = Some c \<Longrightarrow> c \<in> set (id_credentials d) \<and> ac_id c = i"
  by (auto simp: get_credential_def find_Some_iff)

lemma get_member_mem: "get_member d i = Some m \<Longrightarrow> m \<in> set (id_members d) \<and> mm_id m = i"
  by (auto simp: get_member_def find_Some_iff)

text \<open>What a successful authentication rests on.\<close>

definition live_credential :: "instant \<Rightarrow> api_credential \<Rightarrow> member \<Rightarrow> identity_db \<Rightarrow> bool" where
  "live_credential now c m d \<longleftrightarrow>
     c \<in> set (id_credentials d) \<and> m \<in> set (id_members d) \<and> ac_status c = CredentialActive
     \<and> \<not> credential_is_expired (ac_expires_at c) now \<and> ac_member_id c = mm_id m
     \<and> mm_organization_id m = ac_organization_id c \<and> mm_status m = MemberActive
     \<and> active_organization d (mm_organization_id m)"

lemma authenticate_credential_Some:
  assumes "authenticate_credential lib env now touch token d = Inr (Some i, d')"
  obtains c m pepper where "live_credential now c m d" "i = identity_of m c"
    "credential_id_from_token token = Some (ac_id c)" "credential_pepper env = Inr pepper"
    "ac_secret_hash c = il_hmac lib pepper token"
    "d' = d \<or> d' = put_credential (c\<lparr>ac_last_used_at := Some now\<rparr>) d"
proof -
  obtain cid c where cid: "credential_id_from_token token = Some cid" "get_credential d cid = Some c"
    using assms by (auto simp: authenticate_credential_def split: option.splits)
  obtain hash m where h: "credential_hash lib env token = Inr hash" "ac_secret_hash c = hash"
      "\<not> credential_is_expired (ac_expires_at c) now" "ac_status c = CredentialActive"
      "get_member d (ac_member_id c) = Some m" "mm_organization_id m = ac_organization_id c" "mm_status m = MemberActive"
      "active_organization d (ac_organization_id c)" "i = identity_of m c"
      "d' = d \<or> d' = put_credential (c\<lparr>ac_last_used_at := Some now\<rparr>) d"
    using assms cid
    by (auto simp: authenticate_credential_def rbind_Inr_iff split: if_splits option.splits)
  obtain pepper where "credential_pepper env = Inr pepper" "hash = il_hmac lib pepper token"
    using h(1) by (auto simp: credential_hash_def rbind_Inr_iff)
  with that [of c m pepper] cid h get_credential_mem [OF cid(2)] get_member_mem [OF h(5)] show thesis
    by (auto simp: live_credential_def)
qed

end
