(* ===== verification/RateLimiting.thy ===== *)
theory RateLimiting
  imports Clock
begin

text \<open>
  Token buckets for expensive reads (\<open>shared/rate_limiting.py\<close>): the in-process limiter,
  whose ordered dictionary is a list with the least recently used key first, and the limiter
  whose buckets are rows shared by every replica (\<open>APIRateLimitBucket\<close> of
  \<open>shared/database_delivery_models.py\<close>), with its maintenance pass.

  Both clocks are instants in microseconds and token counts are rationals. A transaction
  of the shared limiter reads the rows \<open>seen\<close> when its queries run and writes to the rows
  \<open>stored\<close> when it flushes; an insert whose primary key is already stored is the
  \<open>IntegrityError\<close> of the database, the value None.
\<close>

subsection \<open>Configuration\<close>

definition validate_configuration :: "int \<Rightarrow> int \<Rightarrow> int \<Rightarrow> unit res" where
  "validate_configuration requests_per_minute burst max_keys =
     (if requests_per_minute \<le> 0 \<or> burst \<le> 0 \<or> max_keys \<le> 0
      then Inl (ValueError ''rate limit, burst, and max_keys must be positive'') else Inr ())"

record quota =
  q_requests_per_minute :: int
  q_burst :: int
  q_max_keys :: int

definition rate_per_second :: "quota \<Rightarrow> rat" where
  "rate_per_second q = of_int (q_requests_per_minute q) / 60"

definition elapsed_seconds :: "instant \<Rightarrow> instant \<Rightarrow> rat" where
  "elapsed_seconds now last_seen = max 0 (of_int (now - last_seen) / 1000000)"

definition refill :: "quota \<Rightarrow> rat \<Rightarrow> instant \<Rightarrow> instant \<Rightarrow> rat" where
  "refill q tokens last_seen now =
     min (of_int (q_burst q)) (tokens + elapsed_seconds now last_seen * rate_per_second q)"

subsection \<open>The in-process limiter\<close>

type_synonym bucket_entries = "(string \<times> rat \<times> instant) list"

record token_limiter =
  tl_quota :: quota
  tl_buckets :: bucket_entries

definition new_token_limiter :: "int \<Rightarrow> int \<Rightarrow> int \<Rightarrow> token_limiter res" where
  "new_token_limiter requests_per_minute burst max_keys =
     rbind (validate_configuration requests_per_minute burst max_keys) (\<lambda>_.
       Inr \<lparr>tl_quota = \<lparr>q_requests_per_minute = requests_per_minute, q_burst = burst, q_max_keys = max_keys\<rparr>,
            tl_buckets = []\<rparr>)"

text \<open>
  \<open>consume\<close>: the seconds to wait, or None when the request is granted. The bucket of the
  key moves to the most recent end; a new key first evicts the oldest one when the
  dictionary is full.
\<close>

definition tl_consume :: "string \<Rightarrow> instant \<Rightarrow> token_limiter \<Rightarrow> rat option \<times> token_limiter" where
  "tl_consume key now s =
     (let q = tl_quota s;
          popped = filter (\<lambda>e. fst e \<noteq> key) (tl_buckets s);
          kept = (case map_of (tl_buckets s) key of
                    Some _ \<Rightarrow> popped
                  | None \<Rightarrow> if q_max_keys q \<le> int (length popped) then drop 1 popped else popped);
          previous = (case map_of (tl_buckets s) key of
                        None \<Rightarrow> (of_int (q_burst q), now) | Some entry \<Rightarrow> entry);
          tokens = refill q (fst previous) (snd previous) now
      in if 1 \<le> tokens then (None, s\<lparr>tl_buckets := kept @ [(key, tokens - 1, now)]\<rparr>)
         else (Some ((1 - tokens) / rate_per_second q), s\<lparr>tl_buckets := kept @ [(key, tokens, now)]\<rparr>))"

subsection \<open>The limiter shared by the replicas\<close>

record rate_bucket =
  rb_scope :: string
  rb_key_hash :: string
  rb_tokens :: rat
  rb_updated_at :: instant

definition bucket_key :: "rate_bucket \<Rightarrow> string \<times> string" where
  "bucket_key r = (rb_scope r, rb_key_hash r)"

record database_limiter =
  dl_scope :: string
  dl_quota :: quota

definition legacy_scope :: string where
  "legacy_scope = ''legacy''"

definition new_database_limiter :: "string \<Rightarrow> int \<Rightarrow> int \<Rightarrow> int \<Rightarrow> database_limiter res" where
  "new_database_limiter scope requests_per_minute burst max_keys =
     rbind (validate_configuration requests_per_minute burst max_keys) (\<lambda>_.
       if scope = [] \<or> 64 < length scope \<or> scope = legacy_scope
       then Inl (ValueError ''a non-legacy rate-limit scope of at most 64 characters is required'')
       else Inr \<lparr>dl_scope = scope,
                 dl_quota = \<lparr>q_requests_per_minute = requests_per_minute, q_burst = burst, q_max_keys = max_keys\<rparr>\<rparr>)"

definition find_bucket :: "string \<Rightarrow> string \<Rightarrow> rate_bucket list \<Rightarrow> rate_bucket option" where
  "find_bucket scope key_hash rows = find (\<lambda>r. bucket_key r = (scope, key_hash)) rows"

text \<open>
  The bucket a request of the limiter works on: its own, else the one kept under the
  scope of the first schema, which the request adopts.
\<close>

definition held_bucket :: "database_limiter \<Rightarrow> string \<Rightarrow> rate_bucket list \<Rightarrow> rate_bucket option" where
  "held_bucket l key_hash rows =
     (case find_bucket (dl_scope l) key_hash rows of
        Some r \<Rightarrow> Some r
      | None \<Rightarrow> find_bucket legacy_scope key_hash rows)"

definition consume_once ::
  "database_limiter \<Rightarrow> string \<Rightarrow> instant \<Rightarrow> rate_bucket list \<Rightarrow> rate_bucket list
     \<Rightarrow> (rat option \<times> rate_bucket list) option" where
  "consume_once l key_hash now seen stored =
     (case held_bucket l key_hash seen of
        None \<Rightarrow>
          (if (dl_scope l, key_hash) \<in> set (map bucket_key stored) then None
           else Some (None, stored @
             [\<lparr>rb_scope = dl_scope l, rb_key_hash = key_hash, rb_tokens = of_int (q_burst (dl_quota l) - 1),
               rb_updated_at = now\<rparr>]))
      | Some row \<Rightarrow>
          if bucket_key row \<noteq> (dl_scope l, key_hash) \<and> (dl_scope l, key_hash) \<in> set (map bucket_key stored)
          then None
          else
          (let tokens = refill (dl_quota l) (rb_tokens row) (rb_updated_at row) now;
               write = (\<lambda>left. update_where (\<lambda>r. bucket_key r = bucket_key row)
                 (\<lambda>r. r\<lparr>rb_scope := dl_scope l, rb_tokens := left, rb_updated_at := now\<rparr>) stored)
           in if 1 \<le> tokens then Some (None, write (tokens - 1))
              else Some (Some ((1 - tokens) / rate_per_second (dl_quota l)), write tokens)))"

text \<open>
  \<open>consume\<close>: a request that lost the race to insert its bucket runs again, on the
  rows then stored; a second conflict escapes.
\<close>

definition db_consume ::
  "(string \<Rightarrow> string) \<Rightarrow> database_limiter \<Rightarrow> string \<Rightarrow> instant \<Rightarrow> rate_bucket list \<Rightarrow> rate_bucket list
     \<Rightarrow> (rat option \<times> rate_bucket list) option" where
  "db_consume sha256 l key now seen stored =
     (let key_hash = sha256 key
      in case consume_once l key_hash now seen stored of
           None \<Rightarrow> consume_once l key_hash now stored stored
         | Some r \<Rightarrow> Some r)"

text \<open>
  \<open>collect_expired\<close>. \<open>timedelta(seconds=s)\<close> is a whole number of microseconds; rows whose
  key hash is \<open>locked\<close> by a concurrent request are skipped.
\<close>

definition retention_window :: "quota \<Rightarrow> instant" where
  "retention_window q = py_round (1000000 * max 300 (of_int (q_burst q) / rate_per_second q))"

definition expired_buckets ::
  "database_limiter \<Rightarrow> int \<Rightarrow> (string \<Rightarrow> bool) \<Rightarrow> instant \<Rightarrow> rate_bucket list \<Rightarrow> rate_bucket list" where
  "expired_buckets l batch_size locked now rows =
     (let scoped = filter (\<lambda>r. rb_scope r = dl_scope l) rows;
          overflow = max 0 (int (length scoped) - q_max_keys (dl_quota l))
      in take (nat (min batch_size overflow))
           (sort_key rb_updated_at
             (filter (\<lambda>r. rb_updated_at r \<le> now - retention_window (dl_quota l) \<and> \<not> locked (rb_key_hash r))
               scoped)))"

definition collect_expired ::
  "database_limiter \<Rightarrow> int \<Rightarrow> (string \<Rightarrow> bool) \<Rightarrow> instant \<Rightarrow> rate_bucket list
     \<Rightarrow> (int \<times> rate_bucket list) res" where
  "collect_expired l batch_size locked now rows =
     (if batch_size < 1 \<or> 4096 < batch_size
      then Inl (ValueError ''batch_size must be between 1 and 4096'')
      else
        (let records = expired_buckets l batch_size locked now rows
         in Inr (int (length records),
                 filter (\<lambda>r. bucket_key r \<notin> set (map bucket_key records)) rows)))"

subsection \<open>Arithmetic of a bucket\<close>

definition quota_ok :: "quota \<Rightarrow> bool" where
  "quota_ok q \<longleftrightarrow> 0 < q_requests_per_minute q \<and> 0 < q_burst q \<and> 0 < q_max_keys q"

lemma rate_positive: "quota_ok q \<Longrightarrow> 0 < rate_per_second q"
  by (simp add: quota_ok_def rate_per_second_def)

lemma new_token_limiter_ok: "new_token_limiter rpm b k = Inr s \<Longrightarrow> quota_ok (tl_quota s) \<and> tl_buckets s = []"
  by (auto simp: new_token_limiter_def validate_configuration_def quota_ok_def split: if_splits)

lemma new_database_limiter_ok:
  "new_database_limiter sc rpm b k = Inr l \<Longrightarrow> quota_ok (dl_quota l) \<and> dl_scope l \<noteq> legacy_scope"
  by (auto simp: new_database_limiter_def validate_configuration_def quota_ok_def split: if_splits)

lemma refill_le_burst: "refill q t a n \<le> of_int (q_burst q)"
  by (simp add: refill_def)

lemma refill_nonneg: "quota_ok q \<Longrightarrow> 0 \<le> t \<Longrightarrow> 0 \<le> refill q t a n"
  using rate_positive [of q] by (simp add: refill_def elapsed_seconds_def quota_ok_def)

lemma refill_now: "t \<le> of_int (q_burst q) \<Longrightarrow> refill q t n n = t"
  by (simp add: refill_def elapsed_seconds_def)

text \<open>Waiting adds at most the rate: the balance is Lipschitz in time.\<close>

lemma elapsed_mono:
  assumes "n \<le> n'"
  shows "elapsed_seconds n' a \<le> elapsed_seconds n a + of_int (n' - n) / 1000000"
proof -
  have "(of_int (n' - a) :: rat) = of_int (n - a) + of_int (n' - n)" by simp
  then have "(of_int (n' - a) / 1000000 :: rat) = of_int (n - a) / 1000000 + of_int (n' - n) / 1000000"
    by (simp only: add_divide_distrib)
  moreover have "(0 :: rat) \<le> of_int (n' - n) / 1000000" using assms by simp
  ultimately show ?thesis unfolding elapsed_seconds_def by linarith
qed

lemma refill_lipschitz:
  assumes "quota_ok q" "n \<le> n'"
  shows "refill q t a n' \<le> refill q t a n + of_int (n' - n) / 1000000 * rate_per_second q"
proof -
  let ?r = "rate_per_second q" and ?d = "of_int (n' - n) / 1000000 :: rat"
  have r: "0 < ?r" using rate_positive [OF assms(1)] .
  have "elapsed_seconds n' a * ?r \<le> (elapsed_seconds n a + ?d) * ?r"
    using elapsed_mono [OF assms(2), of a] r by (simp add: mult_right_mono)
  then have "elapsed_seconds n' a * ?r \<le> elapsed_seconds n a * ?r + ?d * ?r"
    by (simp add: distrib_right)
  moreover have "0 \<le> ?d * ?r" using r assms(2) by simp
  ultimately show ?thesis unfolding refill_def by linarith
qed

subsection \<open>Buckets of a table\<close>

text \<open>The primary key of the table, and balances that never go below zero.\<close>

definition bucket_rows_ok :: "rate_bucket list \<Rightarrow> bool" where
  "bucket_rows_ok rows \<longleftrightarrow> distinct (map bucket_key rows) \<and> (\<forall>r \<in> set rows. 0 \<le> rb_tokens r)"

lemma find_bucket_Some:
  assumes "distinct (map bucket_key rows)"
  shows "find_bucket sc h rows = Some r \<longleftrightarrow> r \<in> set rows \<and> bucket_key r = (sc, h)"
  using assms
proof (induction rows)
  case Nil
  show ?case by (simp add: find_bucket_def)
next
  case (Cons x xs)
  then show ?case by (cases "bucket_key x = (sc, h)") (force simp: find_bucket_def)+
qed

lemma find_bucket_None: "find_bucket sc h rows = None \<longleftrightarrow> (sc, h) \<notin> set (map bucket_key rows)"
  by (force simp: find_bucket_def find_None_iff)

lemma find_bucket_mem: "find_bucket sc h rows = Some r \<Longrightarrow> r \<in> set rows \<and> bucket_key r = (sc, h)"
  by (auto simp: find_bucket_def find_Some_iff)

text \<open>The balance a request of the key would find at an instant.\<close>

definition available :: "database_limiter \<Rightarrow> string \<Rightarrow> instant \<Rightarrow> rate_bucket list \<Rightarrow> rat" where
  "available l h now rows =
     (case held_bucket l h rows of
        None \<Rightarrow> of_int (q_burst (dl_quota l))
      | Some r \<Rightarrow> refill (dl_quota l) (rb_tokens r) (rb_updated_at r) now)"

lemma available_le_burst: "available l h now rows \<le> of_int (q_burst (dl_quota l))"
  by (simp add: available_def refill_le_burst split: option.splits)

lemma available_nonneg:
  "quota_ok (dl_quota l) \<Longrightarrow> bucket_rows_ok rows \<Longrightarrow> 0 \<le> available l h now rows"
  by (auto simp: available_def held_bucket_def bucket_rows_ok_def quota_ok_def intro!: refill_nonneg
           dest!: find_bucket_mem split: option.splits)

lemma available_lipschitz:
  assumes "quota_ok (dl_quota l)" "n \<le> n'"
  shows "available l h n' rows
     \<le> available l h n rows + of_int (n' - n) / 1000000 * rate_per_second (dl_quota l)"
proof (cases "held_bucket l h rows")
  case None
  then show ?thesis using assms rate_positive [OF assms(1)] by (simp add: available_def)
next
  case (Some r)
  then show ?thesis using refill_lipschitz [OF assms] by (simp add: available_def)
qed

lemma distinct_map_inj: "inj_on g (set xs) \<Longrightarrow> distinct xs \<Longrightarrow> distinct (map g xs)"
  by (simp add: distinct_map)

subsection \<open>One request on the current rows\<close>

lemma held_bucket_key: "held_bucket l h rows = Some r \<Longrightarrow> r \<in> set rows \<and> rb_key_hash r = h"
  by (auto simp: held_bucket_def bucket_key_def dest!: find_bucket_mem split: option.splits)

lemma held_bucket_no_conflict:
  "held_bucket l h rows = Some r \<Longrightarrow> bucket_key r \<noteq> (dl_scope l, h) \<Longrightarrow>
   (dl_scope l, h) \<notin> set (map bucket_key rows)"
  by (auto simp: held_bucket_def find_bucket_None dest!: find_bucket_mem split: option.splits)

lemma find_bucket_update_other:
  assumes "\<And>r. rb_key_hash (f r) = rb_key_hash r" "h' \<noteq> h"
  shows "find_bucket sc h' (update_where (\<lambda>r. bucket_key r = (sc', h)) f rows) = find_bucket sc h' rows"
  using assms by (induction rows) (auto simp: find_bucket_def bucket_key_def)

lemma find_bucket_append:
  "find_bucket sc h (rows @ [r])
     = (case find_bucket sc h rows of Some x \<Rightarrow> Some x | None \<Rightarrow> if bucket_key r = (sc, h) then Some r else None)"
  by (induction rows) (auto simp: find_bucket_def split: option.splits)

text \<open>The row of one key rewritten, and moved to the scope of the limiter.\<close>

definition rewrite_bucket ::
  "database_limiter \<Rightarrow> rate_bucket \<Rightarrow> rat \<Rightarrow> instant \<Rightarrow> rate_bucket list \<Rightarrow> rate_bucket list" where
  "rewrite_bucket l row left now rows =
     update_where (\<lambda>r. bucket_key r = bucket_key row)
       (\<lambda>r. r\<lparr>rb_scope := dl_scope l, rb_tokens := left, rb_updated_at := now\<rparr>) rows"

lemma rewrite_bucket_keys:
  "map bucket_key (rewrite_bucket l row left now rows)
     = map (\<lambda>k. if k = bucket_key row then (dl_scope l, rb_key_hash row) else k) (map bucket_key rows)"
  by (auto simp: rewrite_bucket_def update_where_def bucket_key_def)

lemma rewrite_bucket_ok:
  assumes ok: "bucket_rows_ok rows" and held: "held_bucket l h rows = Some row" and left: "0 \<le> left"
  shows "bucket_rows_ok (rewrite_bucket l row left now rows)"
proof -
  have h: "rb_key_hash row = h" using held_bucket_key [OF held] by simp
  have "inj_on (\<lambda>k. if k = bucket_key row then (dl_scope l, h) else k) (set (map bucket_key rows))"
    using held_bucket_no_conflict [OF held] by (force simp: inj_on_def)
  then have "distinct (map bucket_key (rewrite_bucket l row left now rows))"
    unfolding rewrite_bucket_keys h using ok unfolding bucket_rows_ok_def
    by (blast intro: distinct_map_inj)
  moreover have "\<forall>r \<in> set (rewrite_bucket l row left now rows). 0 \<le> rb_tokens r"
    using ok left by (auto simp: bucket_rows_ok_def rewrite_bucket_def update_where_def)
  ultimately show ?thesis by (simp add: bucket_rows_ok_def)
qed

lemma rewrite_bucket_held:
  assumes ok: "bucket_rows_ok rows" and held: "held_bucket l h rows = Some row" and left: "0 \<le> left"
  shows "held_bucket l h (rewrite_bucket l row left now rows)
     = Some (row\<lparr>rb_scope := dl_scope l, rb_tokens := left, rb_updated_at := now\<rparr>)"
proof -
  let ?new = "row\<lparr>rb_scope := dl_scope l, rb_tokens := left, rb_updated_at := now\<rparr>"
  have mem: "row \<in> set rows" "rb_key_hash row = h" using held_bucket_key [OF held] by simp_all
  then have "?new \<in> set (rewrite_bucket l row left now rows)"
    unfolding rewrite_bucket_def update_where_def by (auto intro!: image_eqI [of _ _ row])
  moreover have "bucket_key ?new = (dl_scope l, h)" using mem by (simp add: bucket_key_def)
  moreover have "distinct (map bucket_key (rewrite_bucket l row left now rows))"
    using rewrite_bucket_ok [OF ok held left] by (simp add: bucket_rows_ok_def)
  ultimately have "find_bucket (dl_scope l) h (rewrite_bucket l row left now rows) = Some ?new"
    by (simp add: find_bucket_Some)
  then show ?thesis by (simp add: held_bucket_def)
qed

lemma held_bucket_rewrite_other:
  assumes "held_bucket l h rows = Some row" "h' \<noteq> h"
  shows "held_bucket l h' (rewrite_bucket l row left now rows) = held_bucket l h' rows"
proof -
  have key: "bucket_key row = (rb_scope row, h)" using held_bucket_key [OF assms(1)] by (simp add: bucket_key_def)
  have "find_bucket sc h' (rewrite_bucket l row left now rows) = find_bucket sc h' rows" for sc
    unfolding rewrite_bucket_def key by (rule find_bucket_update_other) (simp_all add: assms(2))
  then show ?thesis unfolding held_bucket_def by (simp only:)
qed

text \<open>What a request does, in the three ways it can end.\<close>

lemma consume_current:
  "consume_once l h now rows rows
     = Some (case held_bucket l h rows of
         None \<Rightarrow> (None, rows @
           [\<lparr>rb_scope = dl_scope l, rb_key_hash = h, rb_tokens = of_int (q_burst (dl_quota l) - 1),
             rb_updated_at = now\<rparr>])
       | Some row \<Rightarrow>
           (if 1 \<le> available l h now rows
            then (None, rewrite_bucket l row (available l h now rows - 1) now rows)
            else (Some ((1 - available l h now rows) / rate_per_second (dl_quota l)),
                  rewrite_bucket l row (available l h now rows) now rows)))"
proof (cases "held_bucket l h rows")
  case None
  then have "(dl_scope l, h) \<notin> set (map bucket_key rows)"
    by (simp add: held_bucket_def find_bucket_None split: option.splits)
  with None show ?thesis by (simp add: consume_once_def)
next
  case (Some r)
  with held_bucket_no_conflict [OF Some] show ?thesis
    by (auto simp: consume_once_def available_def rewrite_bucket_def Let_def)
qed

lemma consume_current_effect:
  assumes q: "quota_ok (dl_quota l)" and ok: "bucket_rows_ok rows"
    and step: "consume_once l h now rows rows = Some (answer, rows')"
  shows "bucket_rows_ok rows'"
    and "available l h now rows' = available l h now rows - (if answer = None then 1 else 0)"
    and "h' \<noteq> h \<Longrightarrow> available l h' n rows' = available l h' n rows"
proof -
  let ?a = "available l h now rows"
  have b: "1 \<le> (of_int (q_burst (dl_quota l)) :: rat)"
    using q by (simp add: quota_ok_def)
  have "bucket_rows_ok rows'
      \<and> available l h now rows' = ?a - (if answer = None then 1 else 0)
      \<and> (h' \<noteq> h \<longrightarrow> available l h' n rows' = available l h' n rows)"
  proof (cases "held_bucket l h rows")
    case None
    then have fresh: "(dl_scope l, h) \<notin> set (map bucket_key rows)"
      and none: "find_bucket (dl_scope l) h rows = None"
      by (simp_all add: held_bucket_def find_bucket_None split: option.splits)
    have rows': "answer = None" "rows' = rows @
        [\<lparr>rb_scope = dl_scope l, rb_key_hash = h, rb_tokens = of_int (q_burst (dl_quota l) - 1),
          rb_updated_at = now\<rparr>]"
      using step None by (simp_all add: consume_current)
    have "bucket_rows_ok rows'"
      using ok fresh b unfolding rows' bucket_rows_ok_def by (auto simp: bucket_key_def)
    moreover have "available l h now rows' = ?a - 1"
      using None none by (simp add: available_def rows' held_bucket_def find_bucket_append bucket_key_def refill_now)
    moreover have "available l h' n rows' = available l h' n rows" if "h' \<noteq> h"
      using that by (simp add: available_def rows' held_bucket_def find_bucket_append bucket_key_def split: option.splits)
    ultimately show ?thesis using rows' by simp
  next
    case (Some row)
    define left where "left = ?a - (if answer = None then 1 else 0)"
    have left: "rows' = rewrite_bucket l row left now rows" "0 \<le> left"
      using step Some available_nonneg [OF q ok] by (auto simp: consume_current left_def split: if_splits)
    have "left \<le> of_int (q_burst (dl_quota l))"
      using available_le_burst [of l h now rows] by (simp add: left_def)
    then have "available l h now rows' = left"
      using rewrite_bucket_held [OF ok Some left(2)] by (simp add: available_def left(1) refill_now)
    then show ?thesis
      using rewrite_bucket_ok [OF ok Some left(2)] held_bucket_rewrite_other [OF Some]
      by (simp add: left(1) left_def available_def)
  qed
  then show "bucket_rows_ok rows'"
    and "available l h now rows' = ?a - (if answer = None then 1 else 0)"
    and "h' \<noteq> h \<Longrightarrow> available l h' n rows' = available l h' n rows" by blast+
qed

text \<open>
  A request that misses rows inserted by concurrent requests still ends as one that saw
  them all: at most one retry is needed, and none escapes.
\<close>

lemma filter_find_other:
  "(\<And>r. r \<in> set rows \<Longrightarrow> rb_scope r \<noteq> dl_scope l \<Longrightarrow> visible r) \<Longrightarrow> sc \<noteq> dl_scope l \<Longrightarrow>
   find_bucket sc h (filter visible rows) = find_bucket sc h rows"
  by (induction rows) (auto simp: find_bucket_def bucket_key_def)

lemma consume_stale:
  assumes ok: "bucket_rows_ok rows" and scope: "dl_scope l \<noteq> legacy_scope"
    and seen: "\<And>r. r \<in> set rows \<Longrightarrow> rb_scope r \<noteq> dl_scope l \<Longrightarrow> visible r"
  shows "consume_once l h now (filter visible rows) rows
     = (if (dl_scope l, h) \<in> set (map bucket_key rows)
          \<and> (dl_scope l, h) \<notin> set (map bucket_key (filter visible rows))
        then None else consume_once l h now rows rows)"
proof -
  have d: "distinct (map bucket_key rows)" using ok by (simp add: bucket_rows_ok_def)
  then have d': "distinct (map bucket_key (filter visible rows))" by (simp add: distinct_map_filter)
  have legacy: "find_bucket legacy_scope h (filter visible rows) = find_bucket legacy_scope h rows"
    using scope by (intro filter_find_other [of _ l]) (auto simp: seen)
  show ?thesis
  proof (cases "find_bucket (dl_scope l) h (filter visible rows)")
    case None
    then have absent: "(dl_scope l, h) \<notin> set (map bucket_key (filter visible rows))"
      by (simp only: find_bucket_None not_False_eq_True)
    show ?thesis
    proof (cases "(dl_scope l, h) \<in> set (map bucket_key rows)")
      case True
      have "bucket_key r \<noteq> (dl_scope l, h)" if "find_bucket legacy_scope h rows = Some r" for r
        using find_bucket_mem [OF that] scope by simp
      with True None absent legacy show ?thesis
        by (auto simp: consume_once_def held_bucket_def split: option.splits)
    next
      case False
      then have "find_bucket (dl_scope l) h rows = None" by (simp only: find_bucket_None not_False_eq_True)
      then have "held_bucket l h (filter visible rows) = held_bucket l h rows"
        using None legacy by (simp add: held_bucket_def)
      with False show ?thesis by (simp add: consume_once_def)
    qed
  next
    case (Some r)
    then have "r \<in> set rows" "bucket_key r = (dl_scope l, h)" "r \<in> set (filter visible rows)"
      using find_bucket_mem by fastforce+
    then have "find_bucket (dl_scope l) h rows = Some r"
      and seen': "(dl_scope l, h) \<in> set (map bucket_key (filter visible rows))"
      using find_bucket_Some [OF d] by force+
    then have "held_bucket l h (filter visible rows) = held_bucket l h rows"
      using Some by (simp add: held_bucket_def)
    with seen' show ?thesis by (simp add: consume_once_def)
  qed
qed

lemma db_consume_current:
  assumes "bucket_rows_ok rows" "dl_scope l \<noteq> legacy_scope"
    "\<And>r. r \<in> set rows \<Longrightarrow> rb_scope r \<noteq> dl_scope l \<Longrightarrow> visible r"
  shows "db_consume sha256 l key now (filter visible rows) rows = consume_once l (sha256 key) now rows rows"
  using consume_stale [OF assms, where h = "sha256 key" and now = now]
  by (simp add: db_consume_def Let_def consume_current split: option.splits)

subsection \<open>Maintenance\<close>

lemma expired_buckets_mem:
  "r \<in> set (expired_buckets l b locked now rows) \<Longrightarrow>
   r \<in> set rows \<and> rb_scope r = dl_scope l \<and> rb_updated_at r \<le> now - retention_window (dl_quota l)"
  unfolding expired_buckets_def Let_def by (drule in_set_takeD) simp

lemma find_bucket_filter:
  "find_bucket sc h (filter (\<lambda>r. bucket_key r \<notin> K) rows)
     = (if (sc, h) \<in> K then None else find_bucket sc h rows)"
  by (induction rows) (auto simp: find_bucket_def)

text \<open>A row the maintenance pass removes would be full at its next use.\<close>

lemma expired_bucket_full:
  assumes q: "quota_ok q" and window: "60000000 * q_burst q \<le> retention_window q * q_requests_per_minute q"
    and old: "a \<le> now - retention_window q" and t: "0 \<le> t"
  shows "refill q t a now = of_int (q_burst q)"
proof -
  have r: "0 < rate_per_second q" using rate_positive [OF q] .
  have "(of_int (60000000 * q_burst q) :: rat) \<le> of_int (retention_window q * q_requests_per_minute q)"
    using window by (simp only: of_int_le_iff)
  then have "of_int (q_burst q) \<le> of_int (retention_window q) / 1000000 * rate_per_second q"
    by (simp add: rate_per_second_def field_simps)
  also have "\<dots> \<le> elapsed_seconds now a * rate_per_second q"
  proof -
    have "(of_int (retention_window q) :: rat) / 1000000 \<le> of_int (now - a) / 1000000"
      using old by (simp add: divide_right_mono)
    also have "\<dots> \<le> elapsed_seconds now a" by (simp add: elapsed_seconds_def)
    finally show ?thesis using r by (simp add: mult_right_mono)
  qed
  finally show ?thesis using t by (simp add: refill_def)
qed

lemma collect_keeps_quota:
  assumes q: "quota_ok (dl_quota l)" and ok: "bucket_rows_ok rows" and scope: "dl_scope l \<noteq> legacy_scope"
    and window: "60000000 * q_burst (dl_quota l)
       \<le> retention_window (dl_quota l) * q_requests_per_minute (dl_quota l)"
    and step: "collect_expired l b locked now rows = Inr (n, rows')"
  shows "bucket_rows_ok rows'" and "available l h now rows' \<le> available l h now rows"
proof -
  let ?K = "set (map bucket_key (expired_buckets l b locked now rows))"
  have rows': "rows' = filter (\<lambda>r. bucket_key r \<notin> ?K) rows"
    using step by (simp add: collect_expired_def Let_def split: if_splits)
  show "bucket_rows_ok rows'" using ok by (simp add: rows' bucket_rows_ok_def distinct_map_filter)
  have legacy: "(legacy_scope, h) \<notin> ?K"
    using scope by (auto simp: bucket_key_def dest!: expired_buckets_mem)
  show "available l h now rows' \<le> available l h now rows"
  proof (cases "(dl_scope l, h) \<in> ?K")
    case True
    then obtain r where r: "r \<in> set (expired_buckets l b locked now rows)" "bucket_key r = (dl_scope l, h)"
      by auto
    have d: "distinct (map bucket_key rows)" using ok by (simp add: bucket_rows_ok_def)
    have "find_bucket (dl_scope l) h rows = Some r"
      using r(2) find_bucket_Some [OF d] expired_buckets_mem [OF r(1)] by blast
    then have "held_bucket l h rows = Some r" by (simp add: held_bucket_def)
    then have "available l h now rows = of_int (q_burst (dl_quota l))"
      using expired_buckets_mem [OF r(1)] expired_bucket_full [OF q window] ok
      by (simp add: available_def bucket_rows_ok_def)
    then show ?thesis by (simp add: available_le_burst)
  next
    case False
    with legacy have "held_bucket l h rows' = held_bucket l h rows"
      unfolding held_bucket_def rows' find_bucket_filter by simp
    then show ?thesis by (simp add: available_def)
  qed
qed

subsection \<open>Interleavings of replicas\<close>

text \<open>
  Requests and maintenance of the replicas of one limiter, in time order, each request
  seeing all rows except any inserted under its scope since; the state counts the requests
  granted per key hash.
\<close>

record limiter_state =
  ls_rows :: "rate_bucket list"
  ls_now :: instant
  ls_granted :: "string \<Rightarrow> nat"

inductive limiter_step :: "(string \<Rightarrow> string) \<Rightarrow> database_limiter \<Rightarrow> limiter_state \<Rightarrow> limiter_state \<Rightarrow> bool"
  for sha256 l where
  Requested: "\<lbrakk>ls_now s \<le> now;
     \<forall>r \<in> set (ls_rows s). rb_scope r \<noteq> dl_scope l \<longrightarrow> visible r;
     db_consume sha256 l key now (filter visible (ls_rows s)) (ls_rows s) = Some (answer, rows)\<rbrakk> \<Longrightarrow>
   limiter_step sha256 l s
     \<lparr>ls_rows = rows, ls_now = now,
      ls_granted = (if answer = None then (ls_granted s)(sha256 key := ls_granted s (sha256 key) + 1)
                    else ls_granted s)\<rparr>"
| Maintained: "\<lbrakk>ls_now s \<le> now; collect_expired l batch_size locked now (ls_rows s) = Inr (removed, rows)\<rbrakk> \<Longrightarrow>
   limiter_step sha256 l s \<lparr>ls_rows = rows, ls_now = now, ls_granted = ls_granted s\<rparr>"

text \<open>
  The potential of a key: what it was granted and what it could still take now never
  grow faster than the rate.
\<close>

definition quota_potential :: "database_limiter \<Rightarrow> string \<Rightarrow> limiter_state \<Rightarrow> rat" where
  "quota_potential l h s = of_nat (ls_granted s h) + available l h (ls_now s) (ls_rows s)"

definition window_refills :: "quota \<Rightarrow> bool" where
  "window_refills q \<longleftrightarrow> 60000000 * q_burst q \<le> retention_window q * q_requests_per_minute q"

lemma limiter_step_potential:
  assumes step: "limiter_step sha256 l s s'"
    and q: "quota_ok (dl_quota l)" and scope: "dl_scope l \<noteq> legacy_scope"
    and window: "window_refills (dl_quota l)" and ok: "bucket_rows_ok (ls_rows s)"
  shows "bucket_rows_ok (ls_rows s') \<and> ls_now s \<le> ls_now s'
    \<and> quota_potential l h s'
        \<le> quota_potential l h s + of_int (ls_now s' - ls_now s) / 1000000 * rate_per_second (dl_quota l)"
  using step
proof cases
  case (Requested now visible key answer rows)
  let ?h = "sha256 key"
  have eff: "consume_once l ?h now (ls_rows s) (ls_rows s) = Some (answer, rows)"
    using Requested(4) db_consume_current [OF ok scope, of visible] Requested(3) by simp
  have grow: "available l h now (ls_rows s)
      \<le> available l h (ls_now s) (ls_rows s)
        + of_int (now - ls_now s) / 1000000 * rate_per_second (dl_quota l)"
    using available_lipschitz [OF q Requested(2)] .
  show ?thesis
  proof (cases "h = ?h")
    case True
    then show ?thesis
      using grow consume_current_effect(1,2) [OF q ok eff] Requested(1,2) by (auto simp: quota_potential_def)
  next
    case False
    then have "available l h now rows = available l h now (ls_rows s)"
      using consume_current_effect(3) [OF q ok eff] by simp
    then show ?thesis
      using False grow consume_current_effect(1) [OF q ok eff] Requested(1,2) by (auto simp: quota_potential_def)
  qed
next
  case (Maintained now batch_size locked removed rows)
  have "available l h now rows \<le> available l h now (ls_rows s)"
    using collect_keeps_quota(2) [OF q ok scope _ Maintained(3)] window by (simp add: window_refills_def)
  then show ?thesis
    using Maintained collect_keeps_quota(1) [OF q ok scope _ Maintained(3)] window
      available_lipschitz [OF q Maintained(2), of h "ls_rows s"]
    by (simp add: quota_potential_def window_refills_def)
qed

lemma limiter_run_potential:
  assumes run: "(limiter_step sha256 l)\<^sup>*\<^sup>* s s'"
    and q: "quota_ok (dl_quota l)" and scope: "dl_scope l \<noteq> legacy_scope"
    and window: "window_refills (dl_quota l)" and ok: "bucket_rows_ok (ls_rows s)"
  shows "bucket_rows_ok (ls_rows s')
    \<and> quota_potential l h s'
        \<le> quota_potential l h s + of_int (ls_now s' - ls_now s) / 1000000 * rate_per_second (dl_quota l)"
  using run
proof induction
  case base
  then show ?case using ok by simp
next
  case (step y z)
  have "(of_int (ls_now z - ls_now s) :: rat) / 1000000
      = of_int (ls_now z - ls_now y) / 1000000 + of_int (ls_now y - ls_now s) / 1000000"
    by (simp add: field_simps)
  then have "of_int (ls_now z - ls_now s) / 1000000 * rate_per_second (dl_quota l)
      = of_int (ls_now z - ls_now y) / 1000000 * rate_per_second (dl_quota l)
        + of_int (ls_now y - ls_now s) / 1000000 * rate_per_second (dl_quota l)"
    by (simp only: distrib_right)
  then show ?case using limiter_step_potential [OF step(2) q scope window, of h] step.IH by linarith
qed

lemma granted_within_budget:
  assumes "quota_ok (dl_quota l)" and "dl_scope l \<noteq> legacy_scope" and "window_refills (dl_quota l)"
    and "bucket_rows_ok rows"
    and "(limiter_step sha256 l)\<^sup>*\<^sup>* \<lparr>ls_rows = rows, ls_now = start, ls_granted = (\<lambda>_. 0)\<rparr> s"
  shows "of_nat (ls_granted s h)
    \<le> of_int (q_burst (dl_quota l)) + of_int (ls_now s - start) / 1000000 * rate_per_second (dl_quota l)"
proof -
  have "quota_potential l h s
      \<le> available l h start rows + of_int (ls_now s - start) / 1000000 * rate_per_second (dl_quota l)"
    and "bucket_rows_ok (ls_rows s)"
    using limiter_run_potential [OF assms(5,1-3), of h] assms(4) by (simp_all add: quota_potential_def)
  then show ?thesis
    using available_nonneg [OF assms(1), of "ls_rows s" h "ls_now s"] available_le_burst [of l h start rows]
    unfolding quota_potential_def by linarith
qed



subsection \<open>The wait a refusal names\<close>

text \<open>A refused request is granted when it comes back after the announced wait, and
  refused again before it, as long as its key is not used in between.\<close>

lemma refusal_names_the_wait:
  assumes "quota_ok (dl_quota l)" and "dl_scope l \<noteq> legacy_scope" and "bucket_rows_ok rows"
    and "db_consume sha256 l key now rows rows = Some (Some wait, rows')"
  shows "0 < wait \<and> (\<forall>t. (\<exists>after. db_consume sha256 l key t rows' rows' = Some (None, after))
    \<longleftrightarrow> wait \<le> of_int (t - now) / 1000000)"
proof -
  let ?h = "sha256 key" and ?q = "dl_quota l"
  let ?a = "available l ?h now rows" and ?r = "rate_per_second ?q"
  have current: "db_consume sha256 l key t xs xs = consume_once l ?h t xs xs" if "bucket_rows_ok xs" for t xs
    using db_consume_current [OF that assms(2), of "\<lambda>_. True" sha256 key t] by simp
  have r: "0 < ?r" and b: "1 \<le> (of_int (q_burst ?q) :: rat)"
    using rate_positive [OF assms(1)] assms(1) by (simp_all add: quota_ok_def)
  have step: "consume_once l ?h now rows rows = Some (Some wait, rows')"
    using assms(4) current [OF assms(3)] by simp
  then obtain row where row: "held_bucket l ?h rows = Some row" and low: "\<not> 1 \<le> ?a"
    and wait: "wait = (1 - ?a) / ?r" and rows': "rows' = rewrite_bucket l row ?a now rows"
    by (auto simp: consume_current split: option.splits if_splits)
  have held: "held_bucket l ?h rows'
      = Some (row\<lparr>rb_scope := dl_scope l, rb_tokens := ?a, rb_updated_at := now\<rparr>)"
    unfolding rows' using rewrite_bucket_held [OF assms(3) row] available_nonneg [OF assms(1,3)] by simp
  have ok': "bucket_rows_ok rows'"
    using consume_current_effect(1) [OF assms(1,3) step] .
  have positive: "0 < wait" using low r by (simp add: wait)
  have "1 \<le> available l ?h t rows' \<longleftrightarrow> wait \<le> of_int (t - now) / 1000000" for t
  proof -
    let ?d = "of_int (t - now) / 1000000 :: rat"
    have "1 \<le> available l ?h t rows' \<longleftrightarrow> 1 - ?a \<le> max 0 ?d * ?r"
      using held b by (auto simp: available_def refill_def elapsed_seconds_def)
    also have "\<dots> \<longleftrightarrow> wait \<le> max 0 ?d" using r by (simp add: wait pos_divide_le_eq)
    also have "\<dots> \<longleftrightarrow> wait \<le> ?d" using positive by (simp add: le_max_iff_disj)
    finally show ?thesis .
  qed
  moreover have "(\<exists>after. db_consume sha256 l key t rows' rows' = Some (None, after))
      \<longleftrightarrow> 1 \<le> available l ?h t rows'" for t
    using held by (simp add: current [OF ok'] consume_current)
  ultimately show ?thesis using positive by simp
qed

text \<open>The first request of a bucket of one token leaves a refusal half a second later.\<close>

lemma refusal_names_the_wait_witness:
  "let l = \<lparr>dl_scope = ''tiles'', dl_quota = \<lparr>q_requests_per_minute = 60, q_burst = 1, q_max_keys = 5\<rparr>\<rparr>;
       rows = [\<lparr>rb_scope = ''tiles'', rb_key_hash = ''k'', rb_tokens = 0, rb_updated_at = 0\<rparr>];
       rows' = [\<lparr>rb_scope = ''tiles'', rb_key_hash = ''k'', rb_tokens = 1 / 2, rb_updated_at = 500000\<rparr>]
   in db_consume (\<lambda>k. k) l ''k'' 500000 rows rows = Some (Some (1 / 2), rows')
      \<and> (\<exists>after. db_consume (\<lambda>k. k) l ''k'' 1000000 rows' rows' = Some (None, after))"
proof -
  let ?l = "\<lparr>dl_scope = ''tiles'', dl_quota = \<lparr>q_requests_per_minute = 60, q_burst = 1, q_max_keys = 5\<rparr>\<rparr>"
  let ?rows = "[\<lparr>rb_scope = ''tiles'', rb_key_hash = ''k'', rb_tokens = 0, rb_updated_at = 0\<rparr>]"
  let ?rows' = "[\<lparr>rb_scope = ''tiles'', rb_key_hash = ''k'', rb_tokens = 1 / 2, rb_updated_at = 500000\<rparr>]"
  have step: "db_consume (\<lambda>k. k) ?l ''k'' 500000 ?rows ?rows = Some (Some (1 / 2), ?rows')"
    by (simp add: db_consume_def consume_once_def held_bucket_def find_bucket_def bucket_key_def refill_def
        Let_def elapsed_seconds_def rate_per_second_def)
  have "0 < (1 / 2 :: rat) \<and> (\<forall>t. (\<exists>after. db_consume (\<lambda>k. k) ?l ''k'' t ?rows' ?rows' = Some (None, after))
      \<longleftrightarrow> (1 / 2 :: rat) \<le> of_int (t - 500000) / 1000000)"
    by (rule refusal_names_the_wait [OF _ _ _ step])
      (simp_all add: quota_ok_def legacy_scope_def bucket_rows_ok_def)
  then have "\<exists>after. db_consume (\<lambda>k. k) ?l ''k'' 1000000 ?rows' ?rows' = Some (None, after)" by simp
  with step show ?thesis by simp
qed

subsection \<open>The two limiters agree\<close>

fun tl_run :: "(string \<times> instant) list \<Rightarrow> token_limiter \<Rightarrow> rat option list" where
  "tl_run [] s = []"
| "tl_run ((key, now) # requests) s =
     (case tl_consume key now s of (answer, s') \<Rightarrow> answer # tl_run requests s')"

fun db_run :: "(string \<Rightarrow> string) \<Rightarrow> database_limiter \<Rightarrow> (string \<times> instant) list \<Rightarrow> rate_bucket list
    \<Rightarrow> rat option list option" where
  "db_run sha256 l [] rows = Some []"
| "db_run sha256 l ((key, now) # requests) rows =
     (case db_consume sha256 l key now rows rows of
        None \<Rightarrow> None
      | Some (answer, rows') \<Rightarrow> map_option (Cons answer) (db_run sha256 l requests rows'))"

text \<open>The entries of the dictionary of a limiter, bounded and without duplicates.\<close>

definition entries_ok :: "token_limiter \<Rightarrow> bool" where
  "entries_ok s \<longleftrightarrow> distinct (map fst (tl_buckets s)) \<and> int (length (tl_buckets s)) \<le> q_max_keys (tl_quota s)"

lemma map_of_filter_key: "map_of (filter (\<lambda>e. fst e \<noteq> k) xs) k' = (if k' = k then None else map_of xs k')"
  by (induction xs) auto

lemma length_filter_key:
  assumes "map_of xs k \<noteq> None"
  shows "length (filter (\<lambda>e. fst e \<noteq> k) xs) < length xs"
proof -
  obtain v where "(k, v) \<in> set xs" using assms by (auto dest: map_of_SomeD)
  then show ?thesis by (intro length_filter_less) auto
qed

lemma tl_consume_entries:
  assumes "entries_ok s" and "quota_ok (tl_quota s)"
  shows "entries_ok (snd (tl_consume key now s)) \<and> tl_quota (snd (tl_consume key now s)) = tl_quota s"
proof -
  let ?xs = "tl_buckets s"
  let ?popped = "filter (\<lambda>e. fst e \<noteq> key) ?xs"
  define kept where "kept = (case map_of ?xs key of Some _ \<Rightarrow> ?popped
      | None \<Rightarrow> if q_max_keys (tl_quota s) \<le> int (length ?popped) then drop 1 ?popped else ?popped)"
  have d: "distinct (map fst ?popped)" using assms(1) by (simp add: entries_ok_def distinct_map_filter)
  have absent: "key \<notin> set (map fst ?popped)" by auto
  have popped: "int (length ?popped) \<le> q_max_keys (tl_quota s)"
    using assms(1) length_filter_le [of "\<lambda>e. fst e \<noteq> key" ?xs] unfolding entries_ok_def by linarith
  have "int (length kept) < q_max_keys (tl_quota s)"
  proof (cases "map_of ?xs key")
    case None
    then show ?thesis using popped assms(2) by (auto simp: kept_def quota_ok_def)
  next
    case (Some v)
    then have "length ?popped < length ?xs" by (intro length_filter_key) simp
    with Some assms(1) show ?thesis by (simp add: kept_def entries_ok_def)
  qed
  moreover have "distinct (map fst kept)"
    using d by (auto simp: kept_def drop_map [symmetric] split: option.splits)
  moreover have "key \<notin> set (map fst kept)"
    using absent by (auto simp: kept_def split: option.splits dest: in_set_dropD)
  moreover have "\<exists>v. snd (tl_consume key now s) = s\<lparr>tl_buckets := kept @ [(key, v)]\<rparr>"
    by (auto simp: tl_consume_def Let_def kept_def)
  ultimately show ?thesis by (auto simp: entries_ok_def)
qed

lemma tl_consume_bounded:
  assumes "new_token_limiter rpm b k = Inr s"
  shows "entries_ok (foldl (\<lambda>s (key, now). snd (tl_consume key now s)) s requests)"
proof -
  have "entries_ok s \<and> quota_ok (tl_quota s) \<Longrightarrow>
      entries_ok (foldl (\<lambda>s (key, now). snd (tl_consume key now s)) s requests)" for s
    by (induction requests arbitrary: s) (auto simp: tl_consume_entries)
  then show ?thesis using new_token_limiter_ok [OF assms] by (simp add: entries_ok_def quota_ok_def)
qed

text \<open>
  The relation of the two states: the dictionary has the entry of a key exactly when the
  table has the row of its hash, and the same balance.
\<close>

definition same_buckets ::
  "(string \<Rightarrow> string) \<Rightarrow> string set \<Rightarrow> database_limiter \<Rightarrow> token_limiter \<Rightarrow> rate_bucket list \<Rightarrow> bool" where
  "same_buckets sha256 keys l s rows \<longleftrightarrow>
     tl_quota s = dl_quota l \<and> set (map fst (tl_buckets s)) \<subseteq> keys
     \<and> (\<forall>k \<in> keys. map_of (tl_buckets s) k
          = map_option (\<lambda>r. (rb_tokens r, rb_updated_at r)) (held_bucket l (sha256 k) rows))"

lemma consume_current_rows:
  assumes q: "quota_ok (dl_quota l)" and ok: "bucket_rows_ok rows"
    and step: "consume_once l h now rows rows = Some (answer, rows')"
  shows "\<exists>row. held_bucket l h rows' = Some row \<and> rb_updated_at row = now
      \<and> rb_tokens row = available l h now rows - (if answer = None then 1 else 0)"
    and "h' \<noteq> h \<Longrightarrow> held_bucket l h' rows' = held_bucket l h' rows"
proof -
  let ?a = "available l h now rows"
  have "(\<exists>row. held_bucket l h rows' = Some row \<and> rb_updated_at row = now
      \<and> rb_tokens row = ?a - (if answer = None then 1 else 0))
    \<and> (h' \<noteq> h \<longrightarrow> held_bucket l h' rows' = held_bucket l h' rows)"
  proof (cases "held_bucket l h rows")
    case None
    then have "find_bucket (dl_scope l) h rows = None" by (simp add: held_bucket_def split: option.splits)
    then show ?thesis using step None
      by (auto simp: consume_current available_def held_bucket_def find_bucket_append bucket_key_def
          split: option.splits)
  next
    case (Some row)
    then show ?thesis
      using step available_nonneg [OF q ok, of h now] rewrite_bucket_held [OF ok Some] held_bucket_rewrite_other [OF Some]
      by (auto simp: consume_current split: if_splits)
  qed
  then show "\<exists>row. held_bucket l h rows' = Some row \<and> rb_updated_at row = now
      \<and> rb_tokens row = ?a - (if answer = None then 1 else 0)"
    and "h' \<noteq> h \<Longrightarrow> held_bucket l h' rows' = held_bucket l h' rows" by blast+
qed

lemma limiters_agree_step:
  assumes same: "same_buckets sha256 keys l s rows" and key: "key \<in> keys" and inj: "inj_on sha256 keys"
    and room: "finite keys" "int (card keys) \<le> q_max_keys (dl_quota l)"
    and q: "quota_ok (dl_quota l)" and scope: "dl_scope l \<noteq> legacy_scope"
    and ok: "bucket_rows_ok rows" and entries: "entries_ok s"
  shows "\<exists>answer s' rows'. tl_consume key now s = (answer, s')
    \<and> db_consume sha256 l key now rows rows = Some (answer, rows')
    \<and> same_buckets sha256 keys l s' rows' \<and> bucket_rows_ok rows' \<and> entries_ok s'"
proof -
  let ?h = "sha256 key" and ?xs = "tl_buckets s"
  let ?popped = "filter (\<lambda>e. fst e \<noteq> key) ?xs"
  obtain answer rows' where step: "consume_once l ?h now rows rows = Some (answer, rows')"
    by (cases "consume_once l ?h now rows rows") (auto simp: consume_current)
  have db: "db_consume sha256 l key now rows rows = Some (answer, rows')"
    using step db_consume_current [OF ok scope, of "\<lambda>_. True"] by simp
  have quota: "tl_quota s = dl_quota l" and sub: "set (map fst ?xs) \<subseteq> keys"
    and maps: "\<And>k. k \<in> keys \<Longrightarrow> map_of ?xs k
        = map_option (\<lambda>r. (rb_tokens r, rb_updated_at r)) (held_bucket l (sha256 k) rows)"
    using same by (simp_all add: same_buckets_def)
  have "card (set (map fst ?popped)) < card keys"
    using sub key room(1) by (intro psubset_card_mono) auto
  moreover have "distinct (map fst ?popped)" using entries by (simp add: entries_ok_def distinct_map_filter)
  ultimately have space: "\<not> q_max_keys (tl_quota s) \<le> int (length ?popped)"
    using room(2) distinct_card [of "map fst ?popped"] by (simp add: quota)
  define a where "a = available l ?h now rows"
  have tokens: "refill (dl_quota l)
      (fst (case map_of ?xs key of None \<Rightarrow> (of_int (q_burst (tl_quota s)), now) | Some entry \<Rightarrow> entry))
      (snd (case map_of ?xs key of None \<Rightarrow> (of_int (q_burst (tl_quota s)), now) | Some entry \<Rightarrow> entry)) now = a"
    using maps [OF key] by (cases "held_bucket l ?h rows") (simp_all add: quota a_def available_def refill_now)
  have answer: "answer = (if 1 \<le> a then None else Some ((1 - a) / rate_per_second (dl_quota l)))"
  proof (cases "held_bucket l ?h rows")
    case None
    then have "1 \<le> a" using q by (simp add: a_def available_def quota_ok_def)
    with None show ?thesis using step by (simp add: consume_current)
  next
    case (Some row)
    then show ?thesis using step by (auto simp: consume_current a_def split: if_splits)
  qed
  have kept: "(case map_of ?xs key of Some _ \<Rightarrow> ?popped
      | None \<Rightarrow> if q_max_keys (tl_quota s) \<le> int (length ?popped) then drop 1 ?popped else ?popped) = ?popped"
    using space by (simp split: option.splits)
  define s' where "s' = s\<lparr>tl_buckets := ?popped @ [(key, a - (if answer = None then 1 else 0), now)]\<rparr>"
  have tl: "tl_consume key now s = (answer, s')"
    unfolding tl_consume_def Let_def kept unfolding quota tokens [unfolded quota] using answer
    by (simp add: s'_def)
  obtain row where row: "held_bucket l ?h rows' = Some row" "rb_updated_at row = now"
      "rb_tokens row = a - (if answer = None then 1 else 0)"
    using consume_current_rows(1) [OF q ok step] unfolding a_def by blast
  have "same_buckets sha256 keys l s' rows'"
    unfolding same_buckets_def
  proof (intro conjI ballI)
    show "tl_quota s' = dl_quota l" by (simp add: s'_def quota)
    show "set (map fst (tl_buckets s')) \<subseteq> keys" using sub key by (auto simp: s'_def)
    fix k assume k: "k \<in> keys"
    show "map_of (tl_buckets s') k
        = map_option (\<lambda>r. (rb_tokens r, rb_updated_at r)) (held_bucket l (sha256 k) rows')"
    proof (cases "k = key")
      case True
      then show ?thesis using row by (simp add: s'_def map_of_filter_key map_add_def)
    next
      case False
      then have "sha256 k \<noteq> ?h" using inj k key by (auto dest: inj_onD)
      then show ?thesis using False maps [OF k] consume_current_rows(2) [OF q ok step]
        by (auto simp: s'_def map_of_filter_key map_add_def split: option.splits)
    qed
  qed
  with tl db consume_current_effect(1) [OF q ok step] tl_consume_entries [OF entries, of key now] q
  show ?thesis by (auto simp: quota)
qed

lemma limiters_agree_run:
  assumes "same_buckets sha256 keys l s rows" and "fst ` set requests \<subseteq> keys" and "inj_on sha256 keys"
    and "finite keys" and "int (card keys) \<le> q_max_keys (dl_quota l)"
    and "quota_ok (dl_quota l)" and "dl_scope l \<noteq> legacy_scope"
    and "bucket_rows_ok rows" and "entries_ok s"
  shows "db_run sha256 l requests rows = Some (tl_run requests s)"
  using assms(1,2,8,9)
proof (induction requests arbitrary: s rows)
  case Nil
  show ?case by simp
next
  case (Cons r requests)
  obtain key now where r: "r = (key, now)" by (cases r)
  then have "key \<in> keys" using Cons.prems(2) by simp
  from limiters_agree_step [OF Cons.prems(1) this assms(3-7) Cons.prems(3,4), of now]
  obtain answer s' rows' where "tl_consume key now s = (answer, s')"
      "db_consume sha256 l key now rows rows = Some (answer, rows')"
      "same_buckets sha256 keys l s' rows'" "bucket_rows_ok rows'" "entries_ok s'" by blast
  with Cons.IH [of s' rows'] Cons.prems(2) show ?case by (simp add: r)
qed

text \<open>As long as no more keys are in use than the dictionary holds and the digests of the
  keys differ, the limiter shared through the database answers every sequence of
  requests as the in-process limiter does.\<close>

lemma limiters_agree:
  assumes "new_token_limiter rpm burst max_keys = Inr s"
    and "new_database_limiter scope rpm burst max_keys = Inr l"
    and "inj_on sha256 (fst ` set requests)" and "int (card (fst ` set requests)) \<le> max_keys"
  shows "db_run sha256 l requests [] = Some (tl_run requests s)"
proof (rule limiters_agree_run [OF _ subset_refl assms(3)])
  have s: "tl_quota s = \<lparr>q_requests_per_minute = rpm, q_burst = burst, q_max_keys = max_keys\<rparr>" "tl_buckets s = []"
    using assms(1) by (auto simp: new_token_limiter_def rbind_Inr_iff)
  have l: "dl_quota l = \<lparr>q_requests_per_minute = rpm, q_burst = burst, q_max_keys = max_keys\<rparr>"
    using assms(2) by (auto simp: new_database_limiter_def rbind_Inr_iff split: if_splits)
  show "same_buckets sha256 (fst ` set requests) l s []"
    by (simp add: same_buckets_def s l held_bucket_def find_bucket_def)
  show "int (card (fst ` set requests)) \<le> q_max_keys (dl_quota l)" using assms(4) by (simp add: l)
  show "quota_ok (dl_quota l)" "dl_scope l \<noteq> legacy_scope" using new_database_limiter_ok [OF assms(2)] by simp_all
  show "entries_ok s" using new_token_limiter_ok [OF assms(1)] by (simp add: entries_ok_def quota_ok_def s)
qed (simp_all add: bucket_rows_ok_def)

text \<open>Two keys, one of them refused at its third request.\<close>

lemma limiters_agree_witness:
  "db_run (\<lambda>k. k) \<lparr>dl_scope = ''tiles'', dl_quota = \<lparr>q_requests_per_minute = 60, q_burst = 2, q_max_keys = 5\<rparr>\<rparr>
      [(''a'', 0), (''b'', 0), (''a'', 0), (''a'', 500000)] [] = Some [None, None, None, Some (1 / 2)]"
proof -
  let ?q = "\<lparr>q_requests_per_minute = 60, q_burst = 2, q_max_keys = 5\<rparr> :: quota"
  let ?reqs = "[(''a'', 0), (''b'', 0), (''a'', 0), (''a'', 500000)] :: (string \<times> instant) list"
  have "db_run (\<lambda>k. k) \<lparr>dl_scope = ''tiles'', dl_quota = ?q\<rparr> ?reqs []
      = Some (tl_run ?reqs \<lparr>tl_quota = ?q, tl_buckets = []\<rparr>)"
    by (rule limiters_agree [of 60 2 5 _ "''tiles''"])
      (simp_all add: new_token_limiter_def new_database_limiter_def validate_configuration_def legacy_scope_def inj_on_def
        card_insert_if)
  also have "tl_run ?reqs \<lparr>tl_quota = ?q, tl_buckets = []\<rparr> = [None, None, None, Some (1 / 2)]"
    by (simp add: tl_consume_def refill_def elapsed_seconds_def rate_per_second_def Let_def)
  finally show ?thesis .
qed

end
