(* ===== verification/RequestGates.thy ===== *)
theory RequestGates
  imports ApiSecurity
begin

text \<open>
  The layers a request passes before its route (\<open>app4-dashboard/api/rate_limit.py\<close>,
  \<open>http_middleware.py\<close>): the origin check of cookie requests, the identity limiter, the
  organization's request quota and the limiter of raster tiles, composed as the application
  composes them; the streaming body limit; and the session endpoint of \<open>routers/auth.py\<close>.

  An application is a function of a request and the world of the API, which gives a response
  or raises. Limiters are ports: a function of the key and of the limiters' common state.
\<close>

subsection \<open>Requests, responses and the world\<close>

record http_request =
  hr_method :: string
  hr_path :: string
  hr_headers :: request_headers
  hr_origin :: "string option"
  hr_client :: "string option"
  hr_state :: request_state

record http_response =
  hp_status :: int
  hp_detail :: string
  hp_headers :: "(string \<times> string) list"

record 'l api_world =
  aw_limits :: 'l
  aw_identities :: identity_db
  aw_quotas :: db

record 'l limiter_port =
  lp_consume :: "string \<Rightarrow> 'l \<Rightarrow> rat option res \<times> 'l"
  lp_requests_per_minute :: int

record 'l api_settings =
  as_library :: identity_library
  as_codec :: session_codec
  as_decoder :: decoder
  as_environ :: environ
  as_world :: world
  as_now :: instant
  as_peer :: "'l limiter_port"
  as_credential :: "'l limiter_port"
  as_tile :: "'l limiter_port"

type_synonym 'l application = "http_request \<Rightarrow> 'l api_world \<Rightarrow> http_response res \<times> 'l api_world"

definition set_default_header :: "string \<Rightarrow> string \<Rightarrow> http_response \<Rightarrow> http_response" where
  "set_default_header name value r =
     (if str_lower name \<in> set (map (str_lower \<circ> fst) (hp_headers r)) then r
      else r\<lparr>hp_headers := hp_headers r @ [(name, value)]\<rparr>)"

definition retry_after_header :: "rat \<Rightarrow> string \<times> string" where
  "retry_after_header wait = (''Retry-After'', int_text (max 1 \<lceil>wait\<rceil>))"

subsection \<open>The identity limiter\<close>

definition BODY_CREDENTIAL_PATHS :: "(string \<times> string) list" where
  "BODY_CREDENTIAL_PATHS = [(''POST'', ''/auth/session''), (''POST'', ''/auth/capabilities/redeem'')]"

definition PUBLIC_IDENTITY_EXEMPT_PATHS :: "string list" where
  "PUBLIC_IDENTITY_EXEMPT_PATHS = [''/'', ''/live'', ''/ready'']"

definition unverified_request_token :: "request_headers \<Rightarrow> string option" where
  "unverified_request_token h =
     (case rh_api_key h of
        Some (c # cs) \<Rightarrow> Some (str_strip (c # cs))
      | _ \<Rightarrow>
          (case partition_at CHR '' '' (given_text (rh_authorization h)) of (scheme, separator, bearer) \<Rightarrow>
             if str_lower scheme = ''bearer'' \<and> str_strip bearer \<noteq> [] then Some (str_strip bearer)
             else (case rh_session_cookie h of Some (c # cs) \<Rightarrow> Some (str_strip (c # cs)) | _ \<Rightarrow> None)))"

definition public_credential_identity :: "'l api_settings \<Rightarrow> string option \<Rightarrow> string option" where
  "public_credential_identity cfg token =
     (let t = given_text token
      in if t = [] then None
         else case credential_id_from_token t of
           Some i \<Rightarrow> Some (''tenant:'' @ i)
         | None \<Rightarrow>
             (case platform_credential_id_from_token t of
                Some i \<Rightarrow> Some (''platform:'' @ i)
              | None \<Rightarrow>
                  (case capability_id_from_token t of
                     Some i \<Rightarrow> Some (''capability:'' @ i)
                   | None \<Rightarrow> session_public_credential_identity (as_codec cfg) (as_decoder cfg) (as_environ cfg) t)))"

definition peer_of :: "http_request \<Rightarrow> string" where
  "peer_of req = (case hr_client req of None \<Rightarrow> ''unknown'' | Some host \<Rightarrow> host)"

definition consume_identity_rate_limit ::
  "'l api_settings \<Rightarrow> http_request \<Rightarrow> string option \<Rightarrow> 'l \<Rightarrow> (rat option \<times> int) res \<times> 'l" where
  "consume_identity_rate_limit cfg req token l =
     (case lp_consume (as_peer cfg) (''identity:peer:'' @ peer_of req) l of
        (Inl e, l1) \<Rightarrow> (Inl e, l1)
      | (Inr (Some wait), l1) \<Rightarrow> (Inr (Some wait, lp_requests_per_minute (as_peer cfg)), l1)
      | (Inr None, l1) \<Rightarrow>
          (case public_credential_identity cfg
                  (if token \<noteq> None then token else unverified_request_token (hr_headers req)) of
             None \<Rightarrow> (Inr (None, lp_requests_per_minute (as_peer cfg)), l1)
           | Some name \<Rightarrow>
               (case lp_consume (as_credential cfg) (''identity:credential:'' @ name) l1 of
                  (Inl e, l2) \<Rightarrow> (Inl e, l2)
                | (Inr wait, l2) \<Rightarrow> (Inr (wait, lp_requests_per_minute (as_credential cfg)), l2))))"

definition identity_refusal :: "(rat option \<times> int) res \<Rightarrow> http_response option" where
  "identity_refusal answer =
     (case answer of
        Inl _ \<Rightarrow> Some \<lparr>hp_status = 503, hp_detail = ''Identity rate limiter unavailable'', hp_headers = []\<rparr>
      | Inr (None, _) \<Rightarrow> None
      | Inr (Some wait, limit) \<Rightarrow>
          Some \<lparr>hp_status = 429, hp_detail = ''Identity request rate limit exceeded'',
            hp_headers = [retry_after_header wait, (''X-RateLimit-Scope'', ''identity''),
              (''X-RateLimit-Limit'', int_text limit)]\<rparr>)"

definition enforce_identity_rate_limit ::
  "'l api_settings \<Rightarrow> http_request \<Rightarrow> string option \<Rightarrow> 'l \<Rightarrow> http_response option \<times> 'l" where
  "enforce_identity_rate_limit cfg req token l =
     (case consume_identity_rate_limit cfg req token l of (answer, l') \<Rightarrow> (identity_refusal answer, l'))"

definition identity_metered :: "http_request \<Rightarrow> bool" where
  "identity_metered req \<longleftrightarrow>
     \<not> ((hr_method req, hr_path req) \<in> set BODY_CREDENTIAL_PATHS
        \<or> (hr_method req = ''DELETE'' \<and> hr_path req = ''/auth/session'')
        \<or> hr_method req = ''OPTIONS'' \<or> hr_path req \<in> set PUBLIC_IDENTITY_EXEMPT_PATHS
        \<or> (\<not> (starts_with ''/auth'' (hr_path req) \<or> starts_with ''/platform'' (hr_path req))
           \<and> unverified_request_token (hr_headers req) = None))"

definition identity_rate_limit_middleware :: "'l api_settings \<Rightarrow> 'l application \<Rightarrow> 'l application" where
  "identity_rate_limit_middleware cfg call_next req w =
     (if \<not> identity_metered req then call_next req w
      else
        (case enforce_identity_rate_limit cfg req (unverified_request_token (hr_headers req)) (aw_limits w) of
           (Some refusal, l) \<Rightarrow> (Inr refusal, w\<lparr>aw_limits := l\<rparr>)
         | (None, l) \<Rightarrow> call_next req (w\<lparr>aw_limits := l\<rparr>)))"

subsection \<open>The request quota of an organization\<close>

definition organization_request_quotas_enabled :: "environ \<Rightarrow> bool res" where
  "organization_request_quotas_enabled env =
     (let raw = str_lower (str_strip (getenv env ''DRONEAI_ORGANIZATION_REQUEST_QUOTAS_ENABLED'' ''false''))
      in if raw \<notin> {''true'', ''false''}
         then Inl (RuntimeError ''DRONEAI_ORGANIZATION_REQUEST_QUOTAS_ENABLED must be true or false'')
         else Inr (raw = ''true''))"

text \<open>The principal of a request, kept in the request's state for the next layer.\<close>

definition request_principal ::
  "'l api_settings \<Rightarrow> http_request \<Rightarrow> 'l api_world \<Rightarrow> (principal option \<times> http_request \<times> 'l api_world) res" where
  "request_principal cfg req w =
     rbind (authenticate_request (as_library cfg) (as_codec cfg) (as_decoder cfg) (as_environ cfg) (as_now cfg)
              (hr_headers req) (hr_state req) (aw_identities w)) (\<lambda>(p, rs, d).
       Inr (p, req\<lparr>hr_state := rs\<rparr>, w\<lparr>aw_identities := d\<rparr>))"

definition quota_headers :: "request_quota_decision \<Rightarrow> http_response \<Rightarrow> http_response" where
  "quota_headers decision r =
     (case rq_requests_per_minute decision of
        None \<Rightarrow> r
      | Some rpm \<Rightarrow>
          set_default_header ''X-RateLimit-Limit'' (int_text rpm)
            (set_default_header ''X-RateLimit-Scope'' ''organization'' r))"

definition rate_text :: "int option \<Rightarrow> string" where
  "rate_text r = (case r of None \<Rightarrow> ''None'' | Some n \<Rightarrow> int_text n)"

definition organization_request_quota_middleware :: "'l api_settings \<Rightarrow> 'l application \<Rightarrow> 'l application" where
  "organization_request_quota_middleware cfg call_next req w =
     (case organization_request_quotas_enabled (as_environ cfg) of
        Inl e \<Rightarrow> (Inl e, w)
      | Inr enabled \<Rightarrow>
          if \<not> enabled \<or> hr_method req = ''OPTIONS'' \<or> hr_path req \<in> {''/'', ''/live'', ''/ready''}
          then call_next req w
          else
            (case request_principal cfg req w of
               Inl e \<Rightarrow> (Inl e, w)
             | Inr (found, req1, w1) \<Rightarrow>
                 (case found of
                    None \<Rightarrow> call_next req1 w1
                  | Some p \<Rightarrow>
                      if pr_realm p \<noteq> ''tenant'' then call_next req1 w1
                      else
                        (case consume_request_quota (as_world cfg) (pr_organization_id p) (pr_subject p) (as_now cfg)
                                (aw_quotas w1) of
                           Inl _ \<Rightarrow> (Inr \<lparr>hp_status = 503, hp_detail = ''Organization request quota unavailable'',
                                       hp_headers = []\<rparr>, w1)
                         | Inr (decision, d) \<Rightarrow>
                             (case rq_retry_after_seconds decision of
                                Some wait \<Rightarrow>
                                  (Inr \<lparr>hp_status = 429, hp_detail = ''Organization request quota exceeded'',
                                     hp_headers = [retry_after_header wait, (''X-RateLimit-Scope'', ''organization''),
                                       (''X-RateLimit-Limit'', rate_text (rq_requests_per_minute decision))]\<rparr>,
                                   w1\<lparr>aw_quotas := d\<rparr>)
                              | None \<Rightarrow>
                                  (case call_next req1 (w1\<lparr>aw_quotas := d\<rparr>) of
                                     (Inl e, w2) \<Rightarrow> (Inl e, w2)
                                   | (Inr r, w2) \<Rightarrow> (Inr (quota_headers decision r), w2)))))))"

subsection \<open>Raster tiles\<close>

definition is_tile_request :: "http_request \<Rightarrow> bool" where
  "is_tile_request req \<longleftrightarrow>
     hr_method req = ''GET'' \<and> starts_with ''/maps/'' (hr_path req) \<and> contains_sub ''/tiles/'' (hr_path req)
     \<and> ends_with ''.png'' (hr_path req)"

definition rate_limit_identity ::
  "'l api_settings \<Rightarrow> http_request \<Rightarrow> 'l api_world \<Rightarrow> (string \<times> http_request \<times> 'l api_world) res" where
  "rate_limit_identity cfg req w =
     rbind (request_principal cfg req w) (\<lambda>(found, req1, w1).
       Inr (case found of
              Some p \<Rightarrow> ''organization:'' @ pr_organization_id p @ '':subject:'' @ pr_subject p
            | None \<Rightarrow> ''peer:'' @ peer_of req, req1, w1))"

definition raster_tile_rate_limit_middleware :: "'l api_settings \<Rightarrow> 'l application \<Rightarrow> 'l application" where
  "raster_tile_rate_limit_middleware cfg call_next req w =
     (if \<not> is_tile_request req then call_next req w
      else
        (case rate_limit_identity cfg req w of
           Inl e \<Rightarrow> (Inl e, w)
         | Inr (identity, req1, w1) \<Rightarrow>
             (case lp_consume (as_tile cfg) identity (aw_limits w1) of
                (Inl e, l) \<Rightarrow> (Inl e, w1\<lparr>aw_limits := l\<rparr>)
              | (Inr (Some wait), l) \<Rightarrow>
                  (Inr \<lparr>hp_status = 429, hp_detail = ''Raster tile rate limit exceeded'',
                     hp_headers = [retry_after_header wait]\<rparr>, w1\<lparr>aw_limits := l\<rparr>)
              | (Inr None, l) \<Rightarrow>
                  (case call_next req1 (w1\<lparr>aw_limits := l\<rparr>) of
                     (Inl e, w2) \<Rightarrow> (Inl e, w2)
                   | (Inr r, w2) \<Rightarrow>
                       (Inr (set_default_header ''X-RateLimit-Limit'' (int_text (lp_requests_per_minute (as_tile cfg))) r),
                        w2)))))"

subsection \<open>The stack\<close>

definition cookie_csrf_guard :: "'l api_settings \<Rightarrow> 'l application \<Rightarrow> 'l application" where
  "cookie_csrf_guard cfg call_next req w =
     (case enforce_cookie_csrf (as_environ cfg) (hr_method req) (rh_session_cookie (hr_headers req) \<noteq> None) (hr_origin req) of
        Inl (HttpError code detail) \<Rightarrow> (Inr \<lparr>hp_status = code, hp_detail = detail, hp_headers = []\<rparr>, w)
      | Inl (ServerError e) \<Rightarrow> (Inl e, w)
      | Inr _ \<Rightarrow> call_next req w)"

definition guarded_application :: "'l api_settings \<Rightarrow> 'l application \<Rightarrow> 'l application" where
  "guarded_application cfg app =
     cookie_csrf_guard cfg (identity_rate_limit_middleware cfg
       (organization_request_quota_middleware cfg (raster_tile_rate_limit_middleware cfg app)))"

definition configured_http_max_body_bytes :: "environ \<Rightarrow> int res" where
  "configured_http_max_body_bytes env =
     (case parse_int (getenv env ''DRONEAI_HTTP_MAX_BODY_BYTES'' ''2097152'') of
        None \<Rightarrow> Inl (RuntimeError ''DRONEAI_HTTP_MAX_BODY_BYTES must be an integer'')
      | Some value \<Rightarrow>
          if \<not> (4096 \<le> value \<and> value \<le> 16 * 1024 * 1024)
          then Inl (RuntimeError ''DRONEAI_HTTP_MAX_BODY_BYTES must be between 4096 and 16777216'')
          else Inr value)"

text \<open>
  The body limit: a declared length is checked at once, and the chunks the application reads
  are counted until the limit is passed; \<open>None\<close> is a refusal before or while reading. The
  chunks that reach the application are the ones in front of a refusal.
\<close>

definition declared_length_refusal :: "int \<Rightarrow> string option \<Rightarrow> http_response option" where
  "declared_length_refusal max_body_bytes content_length =
     (case content_length of
        None \<Rightarrow> None
      | Some header \<Rightarrow>
          (case parse_int header of
             None \<Rightarrow> Some \<lparr>hp_status = 400, hp_detail = ''Invalid Content-Length'', hp_headers = []\<rparr>
           | Some n \<Rightarrow>
               if n < 0 then Some \<lparr>hp_status = 400, hp_detail = ''Invalid Content-Length'', hp_headers = []\<rparr>
               else if n > max_body_bytes
               then Some \<lparr>hp_status = 413, hp_detail = ''Request body too large'', hp_headers = []\<rparr>
               else None))"

fun receive_body :: "int \<Rightarrow> int \<Rightarrow> string list \<Rightarrow> string list \<times> bool" where
  "receive_body max_body_bytes received [] = ([], False)"
| "receive_body max_body_bytes received (body # bodies) =
     (if received + int (length body) > max_body_bytes then ([], True)
      else (case receive_body max_body_bytes (received + int (length body)) bodies of
              (passed, refused) \<Rightarrow> (body # passed, refused)))"

subsection \<open>The session endpoint\<close>

record session_cookie =
  co_value :: string
  co_max_age :: int
  co_secure :: bool

definition create_session ::
  "'l api_settings \<Rightarrow> http_request \<Rightarrow> string \<Rightarrow> 'l api_world \<Rightarrow> (principal \<times> session_cookie) api \<times> 'l api_world" where
  "create_session cfg req api_key w =
     (case enforce_identity_rate_limit cfg req (Some api_key) (aw_limits w) of
        (Some refusal, l) \<Rightarrow> (Inl (HttpError (hp_status refusal) (hp_detail refusal)), w\<lparr>aw_limits := l\<rparr>)
      | (None, l) \<Rightarrow>
          (case authenticate_api_key (as_library cfg) (as_decoder cfg) (as_environ cfg) (as_now cfg) (Some api_key)
                  (aw_identities w) of
             Inl e \<Rightarrow> (Inl (ServerError e), w\<lparr>aw_limits := l\<rparr>)
           | Inr (None, d) \<Rightarrow> (Inl (HttpError 401 ''Invalid API credential''), w\<lparr>aw_limits := l, aw_identities := d\<rparr>)
           | Inr (Some p, d) \<Rightarrow>
               (case env_int (as_environ cfg) ''DRONEAI_SESSION_MAX_AGE_SECONDS'' 28800 of
                  Inl e \<Rightarrow> (Inl (ServerError e), w\<lparr>aw_limits := l, aw_identities := d\<rparr>)
                | Inr max_age \<Rightarrow>
                    if max_age \<le> 0
                    then (Inl (ServerError (RuntimeError ''DRONEAI_SESSION_MAX_AGE_SECONDS must be positive'')),
                          w\<lparr>aw_limits := l, aw_identities := d\<rparr>)
                    else
                      (case issue_session_token (as_codec cfg) (as_decoder cfg) (as_environ cfg) (as_now cfg) p max_age of
                         Inl e \<Rightarrow> (Inl (ServerError e), w\<lparr>aw_limits := l, aw_identities := d\<rparr>)
                       | Inr token \<Rightarrow>
                           (Inr (p, \<lparr>co_value = token, co_max_age = max_age,
                              co_secure = is_production (as_environ cfg)\<rparr>), w\<lparr>aw_limits := l, aw_identities := d\<rparr>)))))"

subsection \<open>The limiter sees the token that is authenticated\<close>

lemma limiter_reads_request_token:
  "unverified_request_token h = extract_token (rh_authorization h) (rh_api_key h) (rh_session_cookie h)"
  by (cases "rh_api_key h"; cases "rh_session_cookie h")
    (auto simp: unverified_request_token_def extract_token_def given_text_def split: list.splits prod.splits)

text \<open>
  A finding: the layer skips the two paths whose credential is in the body, and with them the
  headers of such a request. A token in a header of a POST to the session endpoint is
  authenticated by the quota layer without any limiter having been asked.
\<close>

lemma session_endpoint_authenticates_unmetered:
  assumes "hr_method req = ''POST''" "hr_path req = ''/auth/session''"
    and "organization_request_quotas_enabled (as_environ cfg) = Inr True"
    and "request_principal cfg req w = Inr (None, req1, w1)"
  shows "identity_rate_limit_middleware cfg (organization_request_quota_middleware cfg app) req w = app req1 w1"
  using assms by (simp add: identity_rate_limit_middleware_def identity_metered_def BODY_CREDENTIAL_PATHS_def
      organization_request_quota_middleware_def)

subsection \<open>Requests of one peer are metered before authentication\<close>

text \<open>
  The peer limiter of the replicas as a port: the first component of the limiters' state is
  the shared table.
\<close>

definition peer_table_port ::
  "(string \<Rightarrow> string) \<Rightarrow> database_limiter \<Rightarrow> instant \<Rightarrow> (rate_bucket list \<times> 'm) limiter_port" where
  "peer_table_port sha256 l now =
     \<lparr>lp_consume = (\<lambda>key (rows, rest).
        (case db_consume sha256 l key now rows rows of
           None \<Rightarrow> (Inl (RuntimeError ''rate limiter contention''), (rows, rest))
         | Some (answer, rows') \<Rightarrow> (Inr answer, (rows', rest)))),
      lp_requests_per_minute = q_requests_per_minute (dl_quota l)\<rparr>"

definition keeps_peer_table :: "(rate_bucket list \<times> 'm) application \<Rightarrow> bool" where
  "keeps_peer_table app \<longleftrightarrow> (\<forall>req w. fst (aw_limits (snd (app req w))) = fst (aw_limits w))"

definition port_keeps_peer_table :: "(rate_bucket list \<times> 'm) limiter_port \<Rightarrow> bool" where
  "port_keeps_peer_table p \<longleftrightarrow> (\<forall>key l. fst (snd (lp_consume p key l)) = fst l)"

text \<open>Whether a request gets past the layers in front of authentication.\<close>

definition reaches_authentication :: "'l api_settings \<Rightarrow> http_request \<Rightarrow> 'l api_world \<Rightarrow> bool" where
  "reaches_authentication cfg req w \<longleftrightarrow>
     enforce_cookie_csrf (as_environ cfg) (hr_method req) (rh_session_cookie (hr_headers req) \<noteq> None) (hr_origin req) = Inr ()
     \<and> fst (enforce_identity_rate_limit cfg req (unverified_request_token (hr_headers req)) (aw_limits w)) = None"

fun serve_all ::
  "(instant \<Rightarrow> 'l api_settings) \<Rightarrow> 'l application \<Rightarrow> (instant \<times> http_request) list \<Rightarrow> 'l api_world \<Rightarrow> nat \<times> 'l api_world" where
  "serve_all cfg app [] w = (0, w)"
| "serve_all cfg app ((now, req) # reqs) w =
     (case serve_all cfg app reqs (snd (guarded_application (cfg now) app req w)) of
        (n, w') \<Rightarrow> ((if reaches_authentication (cfg now) req w then n + 1 else n), w'))"

lemma request_principal_limits: "request_principal cfg req w = Inr (p, req1, w1) \<Longrightarrow> aw_limits w1 = aw_limits w"
  by (auto simp: request_principal_def rbind_Inr_iff)

text \<open>A layer that only adds headers to the answer leaves the world to the next one.\<close>

lemma snd_response [simp]:
  "snd (case x of (Inl e, w) \<Rightarrow> (Inl e, w) | (Inr r, w) \<Rightarrow> (Inr (f r), w)) = snd x"
  by (cases x; cases "fst x") auto

lemma tile_layer_keeps:
  assumes app: "keeps_peer_table app" and port: "port_keeps_peer_table (as_tile cfg)"
  shows "keeps_peer_table (raster_tile_rate_limit_middleware cfg app)"
  unfolding keeps_peer_table_def
proof (intro allI)
  fix req w
  show "fst (aw_limits (snd (raster_tile_rate_limit_middleware cfg app req w))) = fst (aw_limits w)"
  proof (cases "is_tile_request req")
    case False
    then show ?thesis using app by (simp add: raster_tile_rate_limit_middleware_def keeps_peer_table_def)
  next
    case True
    show ?thesis
    proof (cases "rate_limit_identity cfg req w")
      case (Inl e)
      then show ?thesis using True by (simp add: raster_tile_rate_limit_middleware_def)
    next
      case (Inr r)
      obtain i req1 w1 where r: "r = (i, req1, w1)" by (cases r) simp
      have "aw_limits w1 = aw_limits w"
        using Inr by (auto simp: r rate_limit_identity_def rbind_Inr_iff dest: request_principal_limits)
      moreover obtain a l where l: "lp_consume (as_tile cfg) i (aw_limits w1) = (a, l)"
        by (cases "lp_consume (as_tile cfg) i (aw_limits w1)")
      moreover have "fst l = fst (aw_limits w1)" using port l by (metis port_keeps_peer_table_def snd_conv)
      moreover have "fst (aw_limits (snd (app req1 (w1\<lparr>aw_limits := l\<rparr>)))) = fst l"
        using app by (simp add: keeps_peer_table_def)
      ultimately show ?thesis using True Inr
        by (cases a; cases "projr a") (simp_all add: raster_tile_rate_limit_middleware_def r)
    qed
  qed
qed

lemma quota_layer_keeps:
  assumes app: "keeps_peer_table app"
  shows "keeps_peer_table (organization_request_quota_middleware cfg app)"
  unfolding keeps_peer_table_def
proof (intro allI)
  fix req w
  have next_keeps: "fst (aw_limits (snd (app req1 w1))) = fst (aw_limits w1)" for req1 w1
    using app by (simp add: keeps_peer_table_def)
  show "fst (aw_limits (snd (organization_request_quota_middleware cfg app req w))) = fst (aw_limits w)"
  proof (cases "request_principal cfg req w")
    case (Inl e)
    then show ?thesis
      by (cases "organization_request_quotas_enabled (as_environ cfg)")
        (simp_all add: organization_request_quota_middleware_def next_keeps)
  next
    case (Inr r)
    obtain found req1 w1 where r: "r = (found, req1, w1)" by (cases r) simp
    have w1: "aw_limits w1 = aw_limits w" using Inr request_principal_limits by (simp add: r)
    have metered: "fst (aw_limits (snd (case consume_request_quota (as_world cfg) o' s (as_now cfg) (aw_quotas w1) of
        Inl _ \<Rightarrow> (Inr refused, w1)
      | Inr (decision, d) \<Rightarrow>
          (case rq_retry_after_seconds decision of
             Some wait \<Rightarrow> (Inr (refuse decision wait), w1\<lparr>aw_quotas := d\<rparr>)
           | None \<Rightarrow> (case app req1 (w1\<lparr>aw_quotas := d\<rparr>) of
                (Inl e, w2) \<Rightarrow> (Inl e, w2) | (Inr r, w2) \<Rightarrow> (Inr (quota_headers decision r), w2)))))) = fst (aw_limits w)"
      for o' s refused refuse
      by (auto simp: next_keeps w1 split: sum.split option.split)
    show ?thesis
      using Inr metered w1
      by (cases "organization_request_quotas_enabled (as_environ cfg)"; cases found)
        (simp_all add: organization_request_quota_middleware_def next_keeps r)
  qed
qed

text \<open>What the identity layer does to the peer's table: one request of the peer's key.\<close>

lemma identity_layer_step:
  assumes port: "as_peer cfg = peer_table_port sha256 l now" and credential: "port_keeps_peer_table (as_credential cfg)"
    and rows: "ls_rows s = fst (aw_limits w)" and time: "ls_now s \<le> now"
    and enforced: "enforce_identity_rate_limit cfg req token (aw_limits w) = (refusal, limits)"
  obtains s' where "(limiter_step sha256 l)\<^sup>*\<^sup>* s s'" "ls_rows s' = fst limits" "ls_now s' \<le> now"
    "ls_granted s (sha256 (''identity:peer:'' @ peer_of req)) + (if refusal = None then 1 else 0)
       \<le> ls_granted s' (sha256 (''identity:peer:'' @ peer_of req))"
proof -
  let ?key = "''identity:peer:'' @ peer_of req"
  obtain rows0 rest where w: "aw_limits w = (rows0, rest)" by (cases "aw_limits w")
  show thesis
  proof (cases "db_consume sha256 l ?key now rows0 rows0")
    case None
    then have "refusal \<noteq> None \<and> limits = (rows0, rest)"
      using enforced by (auto simp: enforce_identity_rate_limit_def consume_identity_rate_limit_def port
          peer_table_port_def w identity_refusal_def)
    then show thesis using that [of s] rows time w by simp
  next
    case (Some r)
    obtain answer rows' where r: "r = (answer, rows')" by (cases r)
    let ?s = "\<lparr>ls_rows = rows', ls_now = now,
      ls_granted = (if answer = None then (ls_granted s)(sha256 ?key := ls_granted s (sha256 ?key) + 1) else ls_granted s)\<rparr>"
    have step: "limiter_step sha256 l s ?s"
      using Some rows w time by (intro limiter_step.Requested [where visible = "\<lambda>_. True"]) (simp_all add: r)
    have peer: "lp_consume (as_peer cfg) ?key (aw_limits w) = (Inr answer, (rows', rest))"
      using Some by (simp add: port peer_table_port_def w r)
    have "fst (snd (consume_identity_rate_limit cfg req token (aw_limits w))) = rows'"
    proof (cases "answer = None")
      case True
      have kept: "fst (snd (lp_consume (as_credential cfg) k (rows', rest))) = rows'" for k
        using credential by (simp add: port_keeps_peer_table_def)
      show ?thesis
        using peer True kept by (auto simp: consume_identity_rate_limit_def split: option.split prod.split sum.split)
    qed (use peer in \<open>auto simp: consume_identity_rate_limit_def\<close>)
    then have limits: "fst limits = rows'"
      using enforced by (auto simp: enforce_identity_rate_limit_def split: prod.splits)
    have "answer = None" if "refusal = None"
      using that enforced peer by (cases answer) (auto simp: enforce_identity_rate_limit_def
          consume_identity_rate_limit_def identity_refusal_def)
    then show thesis using that [of ?s] r_into_rtranclp [of "limiter_step sha256 l", OF step] limits by auto
  qed
qed

text \<open>What the whole stack does to it: at most that.\<close>

lemma guarded_step:
  assumes port: "as_peer cfg = peer_table_port sha256 l now" and ports: "port_keeps_peer_table (as_credential cfg)"
      "port_keeps_peer_table (as_tile cfg)"
    and app: "keeps_peer_table app" and metered: "identity_metered req"
    and rows: "ls_rows s = fst (aw_limits w)" and time: "ls_now s \<le> now"
  obtains s' where "(limiter_step sha256 l)\<^sup>*\<^sup>* s s'" "ls_now s' \<le> now"
    "ls_rows s' = fst (aw_limits (snd (guarded_application cfg app req w)))"
    "ls_granted s (sha256 (''identity:peer:'' @ peer_of req)) + (if reaches_authentication cfg req w then 1 else 0)
       \<le> ls_granted s' (sha256 (''identity:peer:'' @ peer_of req))"
proof -
  let ?inner = "organization_request_quota_middleware cfg (raster_tile_rate_limit_middleware cfg app)"
  let ?token = "unverified_request_token (hr_headers req)"
  have inner: "fst (aw_limits (snd (?inner req w1))) = fst (aw_limits w1)" for w1
    using quota_layer_keeps [OF tile_layer_keeps [OF app ports(2)], of cfg] by (simp add: keeps_peer_table_def)
  obtain refusal limits where e: "enforce_identity_rate_limit cfg req ?token (aw_limits w) = (refusal, limits)"
    by (cases "enforce_identity_rate_limit cfg req ?token (aw_limits w)")
  have layer: "fst (aw_limits (snd (identity_rate_limit_middleware cfg ?inner req w))) = fst limits"
    using inner metered e by (cases refusal) (simp_all add: identity_rate_limit_middleware_def)
  show thesis
  proof (cases "enforce_cookie_csrf (as_environ cfg) (hr_method req) (rh_session_cookie (hr_headers req) \<noteq> None) (hr_origin req)")
    case (Inl err)
    then show thesis using that [of s] rows time
      by (cases err) (simp_all add: guarded_application_def cookie_csrf_guard_def reaches_authentication_def)
  next
    case (Inr u)
    obtain s' where "(limiter_step sha256 l)\<^sup>*\<^sup>* s s'" "ls_rows s' = fst limits" "ls_now s' \<le> now"
      "ls_granted s (sha256 (''identity:peer:'' @ peer_of req)) + (if refusal = None then 1 else 0)
         \<le> ls_granted s' (sha256 (''identity:peer:'' @ peer_of req))"
      by (rule identity_layer_step [OF port ports(1) rows time e])
    then show thesis using that [of s'] Inr layer e
      by (simp add: guarded_application_def cookie_csrf_guard_def reaches_authentication_def)
  qed
qed

lemma serve_all_run:
  assumes ports: "\<And>t. as_peer (cfg t) = peer_table_port sha256 l t" "\<And>t. port_keeps_peer_table (as_credential (cfg t))"
      "\<And>t. port_keeps_peer_table (as_tile (cfg t))" and app: "keeps_peer_table app"
  shows "\<lbrakk>ls_rows s = fst (aw_limits w); sorted (ls_now s # map fst reqs @ [until]);
      \<forall>(t, req) \<in> set reqs. identity_metered req \<and> peer_of req = peer\<rbrakk> \<Longrightarrow>
    \<exists>s'. (limiter_step sha256 l)\<^sup>*\<^sup>* s s' \<and> ls_now s' \<le> until
      \<and> ls_granted s (sha256 (''identity:peer:'' @ peer)) + fst (serve_all cfg app reqs w)
          \<le> ls_granted s' (sha256 (''identity:peer:'' @ peer))"
proof (induction reqs arbitrary: s w)
  case Nil
  then show ?case by (intro exI [of _ s]) simp
next
  case (Cons r reqs)
  obtain now req where r: "r = (now, req)" by (cases r)
  let ?w = "snd (guarded_application (cfg now) app req w)"
  obtain s1 where s1: "(limiter_step sha256 l)\<^sup>*\<^sup>* s s1" "ls_now s1 \<le> now" "ls_rows s1 = fst (aw_limits ?w)"
    "ls_granted s (sha256 (''identity:peer:'' @ peer)) + (if reaches_authentication (cfg now) req w then 1 else 0)
       \<le> ls_granted s1 (sha256 (''identity:peer:'' @ peer))"
    using guarded_step [OF ports app, of req s w now] Cons.prems by (auto simp: r)
  have "sorted (ls_now s1 # map fst reqs @ [until])" using Cons.prems(2) s1(2) by (auto simp: r)
  with Cons.IH [of s1 ?w] s1(3) Cons.prems(3) obtain s' where
    s': "(limiter_step sha256 l)\<^sup>*\<^sup>* s1 s'" "ls_now s' \<le> until"
    "ls_granted s1 (sha256 (''identity:peer:'' @ peer)) + fst (serve_all cfg app reqs ?w)
          \<le> ls_granted s' (sha256 (''identity:peer:'' @ peer))" by auto
  have "fst (serve_all cfg app (r # reqs) w)
      = fst (serve_all cfg app reqs ?w) + (if reaches_authentication (cfg now) req w then 1 else 0)"
    by (simp add: r split: prod.split)
  then show ?case using s1 s' by (intro exI [of _ s']) auto
qed


text \<open>Two requests of a peer without a token, half a second apart: the second is refused.\<close>

definition example_peer_limiter :: database_limiter where
  "example_peer_limiter =
     \<lparr>dl_scope = ''identity:peer'', dl_quota = \<lparr>q_requests_per_minute = 60, q_burst = 1, q_max_keys = 5\<rparr>\<rparr>"

definition open_port :: "(rate_bucket list \<times> 'm) limiter_port" where
  "open_port = \<lparr>lp_consume = (\<lambda>key l. (Inr None, l)), lp_requests_per_minute = 60\<rparr>"

definition example_api :: "instant \<Rightarrow> (rate_bucket list \<times> unit) api_settings" where
  "example_api now =
     \<lparr>as_library = example_identity_library, as_codec = example_codec, as_decoder = example_key_decoder,
      as_environ = (\<lambda>_. None), as_world = example_world, as_now = now,
      as_peer = peer_table_port (\<lambda>k. k) example_peer_limiter now, as_credential = open_port, as_tile = open_port\<rparr>"

definition example_request :: http_request where
  "example_request =
     \<lparr>hr_method = ''GET'', hr_path = ''/auth/members'',
      hr_headers = \<lparr>rh_authorization = None, rh_api_key = None, rh_session_cookie = None\<rparr>, hr_origin = None,
      hr_client = Some ''10.0.0.7'', hr_state = \<lparr>rs_principal = None, rs_attempted = False\<rparr>\<rparr>"

definition empty_application :: "'l application" where
  "empty_application req w = (Inr \<lparr>hp_status = 200, hp_detail = [], hp_headers = []\<rparr>, w)"

definition example_api_world :: "(rate_bucket list \<times> unit) api_world" where
  "example_api_world = \<lparr>aw_limits = ([], ()), aw_identities = example_identities, aw_quotas = empty_db\<rparr>"

lemma example_requests_served:
  "fst (serve_all example_api empty_application [(0, example_request), (500000, example_request)] example_api_world) = 1"
  by code_simp


end
