(* ===== verification/ApiAnswers.thy ===== *)
theory ApiAnswers
  imports ApiSecurity
begin

text \<open>
  What a request handler returns: an answer with the state after its transaction, or an error,
  which rolls the transaction back. An exception that is not an HTTP error is a server error.
\<close>

subsection \<open>Answers\<close>

definition abind :: "'a api \<Rightarrow> ('a \<Rightarrow> 'b api) \<Rightarrow> 'b api" where
  "abind r f = (case r of Inl e \<Rightarrow> Inl e | Inr x \<Rightarrow> f x)"

lemma abind_simps [simp]: "abind (Inl e) f = Inl e" "abind (Inr x) f = f x"
  by (simp_all add: abind_def)

lemma abind_Inr_iff: "abind r f = Inr y \<longleftrightarrow> (\<exists>x. r = Inr x \<and> f x = Inr y)"
  by (cases r) simp_all

definition served :: "'a res \<Rightarrow> 'a api" where
  "served r = (case r of Inl e \<Rightarrow> Inl (ServerError e) | Inr x \<Rightarrow> Inr x)"

lemma served_Inr_iff [simp]: "served r = Inr x \<longleftrightarrow> r = Inr x"
  by (cases r) (simp_all add: served_def)

lemma served_simps [simp]: "served (Inr x) = Inr x" "served (Inl e) = Inl (ServerError e)"
  by (simp_all add: served_def)

definition require :: "bool \<Rightarrow> int \<Rightarrow> string \<Rightarrow> unit api" where
  "require ok code detail = (if ok then Inr () else Inl (HttpError code detail))"

lemma require_Inr_iff [simp]: "require ok code detail = Inr u \<longleftrightarrow> ok"
  by (simp add: require_def)

lemma require_True [simp]: "require True code detail = Inr ()"
  by (simp add: require_def)

definition require_some :: "'a option \<Rightarrow> int \<Rightarrow> string \<Rightarrow> 'a api" where
  "require_some v code detail = (case v of None \<Rightarrow> Inl (HttpError code detail) | Some x \<Rightarrow> Inr x)"

lemma require_some_Inr_iff [simp]: "require_some v code detail = Inr x \<longleftrightarrow> v = Some x"
  by (cases v) (simp_all add: require_some_def)

lemma require_role_Inr: "require_role least p = Inr q \<Longrightarrow> q = p \<and> pr_realm p = ''tenant'' \<and> role_rank (pr_role p) \<noteq> None"
  by (auto simp: require_role_def split: option.splits if_splits)

end
