(* ===== verification/IdentityAdmin.thy ===== *)
theory IdentityAdmin
  imports ApiAnswers
begin

text \<open>
  The administration of identities: the handlers of \<open>routers/identity_members.py\<close>,
  \<open>routers/identity_credentials.py\<close> and \<open>routers/identity_capabilities.py\<close> over the rows of
  Identity, with the lookups and audit states of \<open>identity_api.py\<close>. A handler gets the
  principal its route's dependency admits and answers with its value and the rows after the
  transaction, or with an error, which rolls the transaction back. Payloads are as the request
  models let them through; listings and response fields beyond the audit states are left out.
\<close>

subsection \<open>Lookups and audit states\<close>

definition member_state :: "member \<Rightarrow> dict" where
  "member_state m = fmap_of_list
     [(''id'', PStr (mm_id m)), (''subject'', PStr (mm_subject m)), (''role'', PStr (role_name (mm_role m))),
      (''status'', PStr (member_status_name (mm_status m))), (''auth_version'', PInt (mm_auth_version m))]"

definition timestamp :: "instant option \<Rightarrow> pyval" where
  "timestamp v = (case v of None \<Rightarrow> PNone | Some t \<Rightarrow> PStr (isoformat t))"

definition credential_state :: "api_credential \<Rightarrow> dict" where
  "credential_state c = fmap_of_list
     [(''id'', PStr (ac_id c)), (''member_id'', PStr (ac_member_id c)), (''name'', PStr (ac_name c)),
      (''status'', PStr (credential_status_name (ac_status c))), (''expires_at'', timestamp (ac_expires_at c)),
      (''last_used_at'', timestamp (ac_last_used_at c)), (''revoked_at'', timestamp (ac_revoked_at c)),
      (''revoked_by'', opt_str (ac_revoked_by c)), (''revocation_reason'', opt_str (ac_revocation_reason c)),
      (''rotated_from_id'', opt_str (ac_rotated_from_id c))]"

definition find_member :: "string \<Rightarrow> string \<Rightarrow> identity_db \<Rightarrow> member option res" where
  "find_member organization_id subject d =
     one_or_none (filter (\<lambda>m. mm_organization_id m = organization_id \<and> mm_subject m = subject) (id_members d))"

definition find_credential :: "principal \<Rightarrow> string \<Rightarrow> identity_db \<Rightarrow> api_credential api" where
  "find_credential p credential_id d =
     abind (served (one_or_none (filter (\<lambda>c. ac_id c = credential_id \<and> ac_organization_id c = pr_organization_id p)
       (id_credentials d)))) (\<lambda>found. require_some found 404 ''Credential not found'')"

definition authorize_member_access :: "principal \<Rightarrow> member \<Rightarrow> unit api" where
  "authorize_member_access p m =
     require (pr_role p = ''admin'' \<or> mm_subject m = pr_subject p) 403 ''Cannot manage another member''"

definition put_organization :: "organization \<Rightarrow> identity_db \<Rightarrow> identity_db" where
  "put_organization o' d = d\<lparr>id_organizations := update_where (\<lambda>x. og_id x = og_id o') (\<lambda>_. o') (id_organizations d)\<rparr>"

subsection \<open>Organizations and members\<close>

definition new_member ::
  "identity_library \<Rightarrow> string \<Rightarrow> string \<Rightarrow> member_role \<Rightarrow> string \<Rightarrow> identity_db \<Rightarrow> member \<times> identity_db" where
  "new_member lib organization_id subject role actor d =
     (case draw_id lib d of (member_id, d1) \<Rightarrow>
      let m = \<lparr>mm_id = member_id, mm_organization_id = organization_id, mm_subject = subject, mm_role = role,
            mm_status = MemberActive, mm_auth_version = 1, mm_created_by = actor, mm_updated_by = actor\<rparr>
      in (m, d1\<lparr>id_members := id_members d1 @ [m]\<rparr>))"

definition create_member_row ::
  "identity_library \<Rightarrow> string \<Rightarrow> string \<Rightarrow> member_role \<Rightarrow> string \<Rightarrow> identity_db \<Rightarrow> member \<times> identity_db" where
  "create_member_row lib organization_id subject role actor d =
     (case new_member lib organization_id subject role actor d of (m, d1) \<Rightarrow>
       (m, append_audit_event organization_id actor ''member_created'' ''member'' (mm_id m) None
             (Some (member_state m)) d1))"

definition organization_status_name :: "organization_status \<Rightarrow> string" where
  "organization_status_name st = (case st of OrganizationActive \<Rightarrow> ''active'' | OrganizationSuspended \<Rightarrow> ''suspended'')"

definition bootstrap_organization ::
  "identity_library \<Rightarrow> string \<Rightarrow> principal \<Rightarrow> identity_db \<Rightarrow> ((bool \<times> organization \<times> member) \<times> identity_db) api" where
  "bootstrap_organization lib display_name who d =
     abind (require_role ''admin'' who) (\<lambda>p.
     let found = get_organization d (pr_organization_id p);
         o' = (case found of
                 Some row \<Rightarrow> row
               | None \<Rightarrow> \<lparr>og_id = pr_organization_id p, og_display_name = display_name, og_status = OrganizationActive,
                           og_created_by = pr_subject p, og_updated_by = pr_subject p\<rparr>);
         d1 = (if found = None then d\<lparr>id_organizations := id_organizations d @ [o']\<rparr> else d)
     in abind (served (find_member (pr_organization_id p) (pr_subject p) d1)) (\<lambda>existing.
       (case (case existing of
                Some m \<Rightarrow> (m, d1)
              | None \<Rightarrow> create_member_row lib (pr_organization_id p) (pr_subject p) Admin (pr_subject p) d1) of (m, d2) \<Rightarrow>
        let created = (found = None \<or> existing = None)
        in Inr ((created, o', m),
          if created
          then append_audit_event (pr_organization_id p) (pr_subject p) ''organization_bootstrapped'' ''organization''
                 (og_id o') None
                 (Some (fmap_of_list [(''id'', PStr (og_id o')), (''display_name'', PStr (og_display_name o')),
                    (''status'', PStr (organization_status_name (og_status o'))), (''member_id'', PStr (mm_id m))])) d2
          else d2))))"

definition update_organization_name ::
  "string \<Rightarrow> principal \<Rightarrow> identity_db \<Rightarrow> (organization \<times> identity_db) api" where
  "update_organization_name display_name who d =
     abind (require_role ''admin'' who) (\<lambda>p.
     abind (require_some (get_organization d (pr_organization_id p)) 404 ''Organization not bootstrapped'') (\<lambda>o'.
       let o1 = update_organization display_name (pr_subject p) o'
       in Inr (o1, append_audit_event (pr_organization_id p) (pr_subject p) ''organization_updated'' ''organization''
            (og_id o') (Some (fmap_of_list [(''display_name'', PStr (og_display_name o'))]))
            (Some (fmap_of_list [(''display_name'', PStr (og_display_name o1))])) (put_organization o1 d))))"

definition create_member ::
  "identity_library \<Rightarrow> string \<Rightarrow> member_role \<Rightarrow> principal \<Rightarrow> identity_db \<Rightarrow> (member \<times> identity_db) api" where
  "create_member lib subject role who d =
     abind (require_role ''admin'' who) (\<lambda>p.
     abind (require_some (get_organization d (pr_organization_id p)) 409 ''Bootstrap the organization first'') (\<lambda>o'.
     abind (require (og_status o' = OrganizationActive) 409 ''Organization is suspended'') (\<lambda>_.
     abind (served (find_member (pr_organization_id p) subject d)) (\<lambda>existing.
     abind (require (existing = None) 409 ''Member already exists'') (\<lambda>_.
       Inr (create_member_row lib (pr_organization_id p) subject role (pr_subject p) d))))))"

definition active_admins :: "string \<Rightarrow> identity_db \<Rightarrow> member list" where
  "active_admins organization_id d =
     filter (\<lambda>m. mm_organization_id m = organization_id \<and> mm_role m = Admin \<and> mm_status m = MemberActive) (id_members d)"

definition update_member ::
  "string \<Rightarrow> member_role option \<Rightarrow> member_status option \<Rightarrow> principal \<Rightarrow> identity_db \<Rightarrow> (member \<times> identity_db) api" where
  "update_member subject role status who d =
     abind (require_role ''admin'' who) (\<lambda>p.
     abind (served (one_or_none (filter (\<lambda>o'. og_id o' = pr_organization_id p) (id_organizations d)))) (\<lambda>found.
     abind (require_some found 404 ''Organization not bootstrapped'') (\<lambda>o'.
     abind (served (find_member (pr_organization_id p) subject d)) (\<lambda>found_member.
     abind (require_some found_member 404 ''Member not found'') (\<lambda>m.
       let next_role = (case role of None \<Rightarrow> mm_role m | Some r \<Rightarrow> r);
           next_status = (case status of None \<Rightarrow> mm_status m | Some s \<Rightarrow> s);
           removes_active_admin = (mm_role m = Admin \<and> mm_status m = MemberActive
             \<and> (next_role \<noteq> Admin \<or> next_status \<noteq> MemberActive))
       in abind (require (\<not> (removes_active_admin \<and> length (active_admins (pr_organization_id p) d) \<le> 1)) 409
              ''Cannot remove the last active organization admin'') (\<lambda>_.
          if next_role \<noteq> mm_role m \<or> next_status \<noteq> mm_status m
          then (let m1 = apply_member_update next_role next_status (pr_subject p) m
                in Inr (m1, append_audit_event (pr_organization_id p) (pr_subject p) ''member_updated'' ''member'' (mm_id m)
                     (Some (member_state m)) (Some (member_state m1)) (put_member m1 d)))
          else Inr (m, d)))))))"

subsection \<open>Credentials\<close>

definition locked_owned_credential :: "principal \<Rightarrow> string \<Rightarrow> identity_db \<Rightarrow> (api_credential \<times> member) api" where
  "locked_owned_credential p credential_id d =
     abind (find_credential p credential_id d) (\<lambda>c.
     abind (require_some (get_member d (ac_member_id c)) 404 ''Member not found'') (\<lambda>m.
     abind (authorize_member_access p m) (\<lambda>_. Inr (c, m))))"

definition create_credential ::
  "identity_library \<Rightarrow> environ \<Rightarrow> instant \<Rightarrow> string \<Rightarrow> string option \<Rightarrow> instant option \<Rightarrow> principal \<Rightarrow> identity_db
     \<Rightarrow> ((api_credential \<times> string) \<times> identity_db) api" where
  "create_credential lib env now name member_subject expires_at who d =
     abind (require_role ''viewer'' who) (\<lambda>p.
     let target = (if given_text member_subject \<noteq> [] then given_text member_subject else pr_subject p)
     in abind (served (find_member (pr_organization_id p) target d)) (\<lambda>found.
     abind (require_some found 404 ''Member not found'') (\<lambda>m.
     abind (authorize_member_access p m) (\<lambda>_.
     abind (require (mm_status m = MemberActive) 409 ''Member is suspended'') (\<lambda>_.
     abind (require (case expires_at of None \<Rightarrow> True | Some t \<Rightarrow> now < t) 422 ''expires_at must be in the future'') (\<lambda>_.
     abind (served (issue_credential lib env m name (pr_subject p) expires_at None d)) (\<lambda>((c, token), d1).
       Inr ((c, token), append_audit_event (pr_organization_id p) (pr_subject p) ''credential_created'' ''credential''
         (ac_id c) None (Some (credential_state c)) d1))))))))"

definition revoke_credential ::
  "instant \<Rightarrow> string \<Rightarrow> string option \<Rightarrow> principal \<Rightarrow> identity_db \<Rightarrow> (api_credential \<times> identity_db) api" where
  "revoke_credential now credential_id reason who d =
     abind (require_role ''viewer'' who) (\<lambda>p.
     abind (locked_owned_credential p credential_id d) (\<lambda>(c, m).
       if ac_status c = CredentialActive
       then (let c1 = mark_credential_revoked now (pr_subject p) reason c
             in Inr (c1, append_audit_event (pr_organization_id p) (pr_subject p) ''credential_revoked'' ''credential''
                  (ac_id c) (Some (credential_state c)) (Some (credential_state c1)) (put_credential c1 d)))
       else Inr (c, d)))"

definition rotate_credential ::
  "identity_library \<Rightarrow> environ \<Rightarrow> instant \<Rightarrow> string \<Rightarrow> string option \<Rightarrow> principal \<Rightarrow> identity_db
     \<Rightarrow> ((api_credential \<times> string) \<times> identity_db) api" where
  "rotate_credential lib env now credential_id name who d =
     abind (require_role ''viewer'' who) (\<lambda>p.
     abind (locked_owned_credential p credential_id d) (\<lambda>(c, m).
     abind (require (ac_status c = CredentialActive) 409 ''Credential is not active'') (\<lambda>_.
     abind (require (mm_status m = MemberActive) 409 ''Member is suspended'') (\<lambda>_.
     abind (served (issue_credential lib env m (if given_text name \<noteq> [] then given_text name else ac_name c)
              (pr_subject p) (ac_expires_at c) (Some (ac_id c)) d)) (\<lambda>((replacement, token), d1).
       let revoked = mark_credential_revoked now (pr_subject p) (Some ''rotated'') c
       in Inr ((replacement, token),
            append_audit_event (pr_organization_id p) (pr_subject p) ''credential_rotated'' ''credential'' (ac_id c)
              (Some (credential_state c))
              (Some (fmap_of_list [(''revoked'', PDict (credential_state revoked)),
                 (''replacement'', PDict (credential_state replacement))]))
              (put_credential revoked d1)))))))"

subsection \<open>Invitations and recovery\<close>

definition active_capability_exists ::
  "instant \<Rightarrow> string \<Rightarrow> capability_purpose \<Rightarrow> string \<Rightarrow> identity_db \<Rightarrow> bool" where
  "active_capability_exists now organization_id purpose subject d =
     list_ex (\<lambda>c. cp_organization_id c = organization_id \<and> cp_purpose c = purpose \<and> cp_subject c = subject
       \<and> cp_status c = CapabilityPending \<and> now < cp_expires_at c) (id_capabilities d)"

definition hours :: "int \<Rightarrow> instant" where
  "hours n = seconds (n * 3600)"

text \<open>
  The role of the principal as the row of a recovery token stores it. \<open>require_role\<close> admits only
  the names of the three roles, so the conversion never fails behind it.
\<close>

definition role_of_name :: "string \<Rightarrow> member_role option" where
  "role_of_name s = map_of [(''viewer'', Viewer), (''operator'', Operator), (''admin'', Admin)] s"

definition create_invitation ::
  "identity_library \<Rightarrow> environ \<Rightarrow> instant \<Rightarrow> string \<Rightarrow> member_role \<Rightarrow> int \<Rightarrow> principal \<Rightarrow> identity_db
     \<Rightarrow> ((capability \<times> string) \<times> identity_db) api" where
  "create_invitation lib env now subject role expires_in_hours who d =
     abind (require_role ''admin'' who) (\<lambda>p.
     abind (served (one_or_none (filter (\<lambda>o'. og_id o' = pr_organization_id p) (id_organizations d)))) (\<lambda>o'.
     abind (require (map_option og_status o' = Some OrganizationActive) 409 ''Organization is not active'') (\<lambda>_.
     abind (served (find_member (pr_organization_id p) subject d)) (\<lambda>existing.
     abind (require (existing = None) 409 ''Member already exists'') (\<lambda>_.
     abind (require (\<not> active_capability_exists now (pr_organization_id p) Invitation subject d) 409
              ''Invitation already pending'') (\<lambda>_.
     abind (served (issue_capability lib env now (pr_organization_id p) Invitation subject role (pr_subject p)
              (now + hours expires_in_hours) None d)) (\<lambda>((c, token), d1).
       Inr ((c, token), append_audit_event (pr_organization_id p) (pr_subject p) ''invitation_created''
         ''identity_capability'' (cp_id c) None
         (Some (fmap_of_list [(''subject'', PStr subject), (''role'', PStr (role_name role)),
            (''expires_at'', PStr (isoformat (cp_expires_at c)))])) d1))))))))"

definition revoke_found_capability ::
  "instant \<Rightarrow> string \<Rightarrow> string \<Rightarrow> principal \<Rightarrow> capability \<Rightarrow> identity_db \<Rightarrow> (capability \<times> identity_db) api" where
  "revoke_found_capability now action capability_id p c d =
     (if cp_status c = CapabilityPending
      then (let c1 = revoke_capability now (pr_subject p) c
            in Inr (c1, append_audit_event (pr_organization_id p) (pr_subject p) action ''identity_capability'' capability_id
                 (Some (fmap_of_list [(''status'', PStr ''pending'')]))
                 (Some (fmap_of_list [(''status'', PStr ''revoked'')])) (put_capability c1 d)))
      else Inr (c, d))"

definition revoke_invitation ::
  "instant \<Rightarrow> string \<Rightarrow> principal \<Rightarrow> identity_db \<Rightarrow> (capability \<times> identity_db) api" where
  "revoke_invitation now capability_id who d =
     abind (require_role ''admin'' who) (\<lambda>p.
     abind (served (one_or_none (filter (\<lambda>c. cp_id c = capability_id \<and> cp_organization_id c = pr_organization_id p
       \<and> cp_purpose c = Invitation) (id_capabilities d)))) (\<lambda>found.
     abind (require_some found 404 ''Invitation not found'') (\<lambda>c.
       revoke_found_capability now ''invitation_revoked'' capability_id p c d)))"

definition create_recovery_token ::
  "identity_library \<Rightarrow> environ \<Rightarrow> instant \<Rightarrow> int \<Rightarrow> principal \<Rightarrow> identity_db \<Rightarrow> ((capability \<times> string) \<times> identity_db) api" where
  "create_recovery_token lib env now expires_in_hours who d =
     abind (require_role ''viewer'' who) (\<lambda>p.
     abind (require_some (pr_member_id p) 409 ''Bootstrap a durable credential before creating recovery tokens'') (\<lambda>member_id.
     abind (served (one_or_none (filter (\<lambda>m. mm_id m = member_id) (id_members d)))) (\<lambda>m.
     abind (require (map_option mm_status m = Some MemberActive) 409 ''Member is not active'') (\<lambda>_.
     abind (require (\<not> active_capability_exists now (pr_organization_id p) Recovery (pr_subject p) d) 409
              ''Recovery token already pending'') (\<lambda>_.
     abind (require_some (role_of_name (pr_role p)) 500 ''IntegrityError'') (\<lambda>role.
     abind (served (issue_capability lib env now (pr_organization_id p) Recovery (pr_subject p) role (pr_subject p)
              (now + hours expires_in_hours) (Some member_id) d)) (\<lambda>((c, token), d1).
       Inr ((c, token), append_audit_event (pr_organization_id p) (pr_subject p) ''recovery_created''
         ''identity_capability'' (cp_id c) None
         (Some (fmap_of_list [(''member_id'', PStr member_id),
            (''expires_at'', PStr (isoformat (cp_expires_at c)))])) d1))))))))"

definition revoke_recovery_token ::
  "instant \<Rightarrow> string \<Rightarrow> principal \<Rightarrow> identity_db \<Rightarrow> (capability \<times> identity_db) api" where
  "revoke_recovery_token now capability_id who d =
     abind (require_role ''viewer'' who) (\<lambda>p.
     abind (require_some (pr_member_id p) 404 ''Recovery token not found'') (\<lambda>member_id.
     abind (served (one_or_none (filter (\<lambda>c. cp_id c = capability_id \<and> cp_organization_id c = pr_organization_id p
       \<and> cp_member_id c = Some member_id \<and> cp_purpose c = Recovery) (id_capabilities d)))) (\<lambda>found.
     abind (require_some found 404 ''Recovery token not found'') (\<lambda>c.
       revoke_found_capability now ''recovery_revoked'' capability_id p c d))))"

text \<open>
  Redeeming needs no principal. The limiter in front of it is that of the session endpoint and
  is not repeated here.
\<close>

definition redeeming_member ::
  "identity_library \<Rightarrow> capability \<Rightarrow> identity_db \<Rightarrow> ((member \<times> string) \<times> identity_db) api" where
  "redeeming_member lib c d =
     abind (served (capability_member c d)) (\<lambda>found.
       (case cp_purpose c of
          Invitation \<Rightarrow>
            abind (require (found = None) 409 ''Member already exists'') (\<lambda>_.
              (case new_member lib (cp_organization_id c) (cp_subject c) (cp_role c) (cp_created_by c) d of (m, d1) \<Rightarrow>
                Inr ((m, ''invitation_accepted''),
                  append_audit_event (cp_organization_id c) (cp_subject c) ''member_created'' ''member'' (mm_id m) None
                    (Some (member_state m)) d1)))
        | Recovery \<Rightarrow>
            abind (require_some found 409 ''Member is not active'') (\<lambda>m.
            abind (require (mm_status m = MemberActive) 409 ''Member is not active'') (\<lambda>_.
              Inr ((m, ''recovery_redeemed''), d)))))"

definition redeem_identity_capability ::
  "identity_library \<Rightarrow> environ \<Rightarrow> instant \<Rightarrow> string \<Rightarrow> string \<Rightarrow> identity_db
     \<Rightarrow> ((member \<times> api_credential \<times> string) \<times> identity_db) api" where
  "redeem_identity_capability lib env now token label d =
     abind (require (capability_id_from_token token \<noteq> None) 401 ''Invalid identity capability'') (\<lambda>_.
     abind (served (authenticate_capability lib env now token d)) (\<lambda>found.
     abind (require_some found 401 ''Invalid identity capability'') (\<lambda>c.
     abind (require (active_organization d (cp_organization_id c)) 409 ''Organization is not active'') (\<lambda>_.
     abind (redeeming_member lib c d) (\<lambda>((m, action), d1).
     abind (served (issue_credential lib env m label (cp_subject c) None None d1)) (\<lambda>((issued, secret_token), d2).
       Inr ((m, issued, secret_token),
         put_capability (redeem_capability now c)
           (append_audit_event (cp_organization_id c) (cp_subject c) action ''identity_capability'' (cp_id c)
              (Some (fmap_of_list [(''status'', PStr ''pending'')]))
              (Some (fmap_of_list [(''status'', PStr ''redeemed''), (''member_id'', PStr (mm_id m)),
                 (''credential_id'', PStr (ac_id issued))]))
              (append_audit_event (cp_organization_id c) (cp_subject c) ''credential_created'' ''credential'' (ac_id issued)
                 None (Some (credential_state issued)) d2)))))))))"

subsection \<open>All requests\<close>

datatype identity_request =
    BootstrapOrganization string
  | RenameOrganization string
  | CreateMember string member_role
  | UpdateMember string "member_role option" "member_status option"
  | CreateCredential string "string option" "instant option"
  | RevokeCredential string "string option"
  | RotateCredential string "string option"
  | CreateInvitation string member_role int
  | RevokeInvitation string
  | CreateRecovery int
  | RevokeRecovery string

fun handle_identity_request ::
  "identity_library \<Rightarrow> environ \<Rightarrow> instant \<Rightarrow> principal \<Rightarrow> identity_request \<Rightarrow> identity_db \<Rightarrow> identity_db api" where
  "handle_identity_request lib env now p (BootstrapOrganization n) d = map_sum id snd (bootstrap_organization lib n p d)"
| "handle_identity_request lib env now p (RenameOrganization n) d = map_sum id snd (update_organization_name n p d)"
| "handle_identity_request lib env now p (CreateMember s r) d = map_sum id snd (create_member lib s r p d)"
| "handle_identity_request lib env now p (UpdateMember s r st) d = map_sum id snd (update_member s r st p d)"
| "handle_identity_request lib env now p (CreateCredential n s e) d = map_sum id snd (create_credential lib env now n s e p d)"
| "handle_identity_request lib env now p (RevokeCredential i r) d = map_sum id snd (revoke_credential now i r p d)"
| "handle_identity_request lib env now p (RotateCredential i n) d = map_sum id snd (rotate_credential lib env now i n p d)"
| "handle_identity_request lib env now p (CreateInvitation s r h) d = map_sum id snd (create_invitation lib env now s r h p d)"
| "handle_identity_request lib env now p (RevokeInvitation i) d = map_sum id snd (revoke_invitation now i p d)"
| "handle_identity_request lib env now p (CreateRecovery h) d = map_sum id snd (create_recovery_token lib env now h p d)"
| "handle_identity_request lib env now p (RevokeRecovery i) d = map_sum id snd (revoke_recovery_token now i p d)"

end
