(* ===== verification/IdentityLifecycle.thy ===== *)
theory IdentityLifecycle
  imports IdentityAdmin
begin

text \<open>
  What the handlers of IdentityAdmin keep over time. Every handler is a sequence of elementary
  changes of the rows of one organization; an invariant of the rows, the administrators of an
  organization, revoked credentials, redeemed capabilities and the isolation of tenants are
  followed through these changes.
\<close>

subsection \<open>The identities over time\<close>

text \<open>
  Rows as the constraints and the code keep them: keys are unique, a member's subject is
  unique in its organization, credentials and recovery capabilities belong to a member of
  their organization, and UUIDs not drawn yet are not in use.
\<close>

definition owner_in :: "string \<Rightarrow> string \<Rightarrow> identity_db \<Rightarrow> bool" where
  "owner_in organization_id member_id d \<longleftrightarrow>
     (\<exists>m \<in> set (id_members d). mm_id m = member_id \<and> mm_organization_id m = organization_id)"

definition identity_keys :: "identity_db \<Rightarrow> string set" where
  "identity_keys d = mm_id ` set (id_members d) \<union> ac_id ` set (id_credentials d) \<union> cp_id ` set (id_capabilities d)"

definition identity_ok :: "identity_library \<Rightarrow> identity_db \<Rightarrow> bool" where
  "identity_ok lib d \<longleftrightarrow>
     distinct (map og_id (id_organizations d)) \<and> distinct (map mm_id (id_members d))
     \<and> distinct (map ac_id (id_credentials d)) \<and> distinct (map cp_id (id_capabilities d))
     \<and> distinct (map (\<lambda>m. (mm_organization_id m, mm_subject m)) (id_members d))
     \<and> (\<forall>c \<in> set (id_credentials d). owner_in (ac_organization_id c) (ac_member_id c) d)
     \<and> (\<forall>c \<in> set (id_capabilities d). \<forall>i. cp_member_id c = Some i \<longrightarrow> owner_in (cp_organization_id c) i d)
     \<and> (\<forall>n \<ge> id_uuids d. il_uuid4 lib n \<notin> identity_keys d)"

text \<open>The member a durable principal stands for is one of its organization.\<close>

definition principal_placed :: "principal \<Rightarrow> identity_db \<Rightarrow> bool" where
  "principal_placed p d \<longleftrightarrow> (\<forall>i. pr_member_id p = Some i \<longrightarrow> owner_in (pr_organization_id p) i d)"

text \<open>
  What happens to the identities over time: requests of tenant principals, redeemed
  capabilities, and authentications, which may touch a credential's last use.
\<close>

inductive identity_step :: "identity_library \<Rightarrow> environ \<Rightarrow> identity_db \<Rightarrow> identity_db \<Rightarrow> bool" for lib env where
  Requested: "principal_placed p d \<Longrightarrow> handle_identity_request lib env now p req d = Inr d' \<Longrightarrow> identity_step lib env d d'"
| Redeemed: "redeem_identity_capability lib env now token name d = Inr (answer, d') \<Longrightarrow> identity_step lib env d d'"
| Authenticated: "authenticate_credential lib env now touch token d = Inr (found, d') \<Longrightarrow> identity_step lib env d d'"

subsection \<open>Elementary changes\<close>

text \<open>
  Every handler is a sequence of a few changes of the rows of one organization: these are
  the cases a proof over the handlers has to consider.
\<close>

inductive identity_change :: "identity_library \<Rightarrow> string \<Rightarrow> identity_db \<Rightarrow> identity_db \<Rightarrow> bool" for lib org where
  Organization_added: "get_organization d org = None \<Longrightarrow> og_id row = org \<Longrightarrow>
    identity_change lib org d (d\<lparr>id_organizations := id_organizations d @ [row]\<rparr>)"
| Organization_named: "get_organization d org = Some row \<Longrightarrow>
    identity_change lib org d (put_organization (update_organization n actor row) d)"
| Member_added: "find_member org subject d = Inr None \<Longrightarrow>
    identity_change lib org d (snd (new_member lib org subject role actor d))"
| Member_changed: "m \<in> set (id_members d) \<Longrightarrow> mm_organization_id m = org \<Longrightarrow>
    (mm_role m = Admin \<and> mm_status m = MemberActive \<and> (role \<noteq> Admin \<or> status \<noteq> MemberActive)
       \<longrightarrow> 2 \<le> length (active_admins org d)) \<Longrightarrow>
    identity_change lib org d (put_member (apply_member_update role status actor m) d)"
| Credential_issued: "m \<in> set (id_members d) \<Longrightarrow> mm_organization_id m = org \<Longrightarrow>
    issue_credential lib env m name actor expires_at rotated_from d = Inr (r, d') \<Longrightarrow> identity_change lib org d d'"
| Credential_revoked: "c \<in> set (id_credentials d) \<Longrightarrow> ac_organization_id c = org \<Longrightarrow>
    identity_change lib org d (put_credential (mark_credential_revoked now actor reason c) d)"
| Credential_used: "c \<in> set (id_credentials d) \<Longrightarrow> ac_organization_id c = org \<Longrightarrow>
    identity_change lib org d (put_credential (c\<lparr>ac_last_used_at := Some now\<rparr>) d)"
| Capability_issued: "member_id = None \<or> owner_in org (the member_id) d \<Longrightarrow>
    issue_capability lib env now org purpose subject role actor expires_at member_id d = Inr (r, d') \<Longrightarrow>
    identity_change lib org d d'"
| Capability_closed: "c \<in> set (id_capabilities d) \<Longrightarrow> cp_organization_id c = org \<Longrightarrow>
    c' \<in> {redeem_capability now c, revoke_capability now actor c} \<Longrightarrow> identity_change lib org d (put_capability c' d)"
| Audited: "identity_change lib org d (append_audit_event org actor action target_type target_id before after d)"

lemma find_member_mem: "find_member o' s d = Inr (Some m) \<Longrightarrow> m \<in> set (id_members d) \<and> mm_organization_id m = o' \<and> mm_subject m = s"
proof -
  assume "find_member o' s d = Inr (Some m)"
  then have "filter (\<lambda>m. mm_organization_id m = o' \<and> mm_subject m = s) (id_members d) = [m]"
    by (simp add: find_member_def one_or_none_Some)
  then have "m \<in> set (filter (\<lambda>m. mm_organization_id m = o' \<and> mm_subject m = s) (id_members d))" by simp
  then show ?thesis by simp
qed

lemma found_row_mem: "one_or_none (filter P xs) = Inr (Some x) \<Longrightarrow> x \<in> set xs \<and> P x"
proof -
  assume "one_or_none (filter P xs) = Inr (Some x)"
  then have "x \<in> set (filter P xs)" by (simp add: one_or_none_Some)
  then show ?thesis by simp
qed

lemma get_organization_mem: "get_organization d i = Some o' \<Longrightarrow> o' \<in> set (id_organizations d) \<and> og_id o' = i"
  by (auto simp: get_organization_def find_Some_iff)

text \<open>The rows after an audit event was appended.\<close>

definition audited :: "string \<Rightarrow> identity_db \<Rightarrow> identity_db \<Rightarrow> bool" where
  "audited org d d' \<longleftrightarrow> (\<exists>actor action t i b e. d' = append_audit_event org actor action t i b e d)"

lemma auditedI [simp, intro]: "audited org d (append_audit_event org actor action t i b e d)"
  unfolding audited_def by (intro exI) (rule refl)

lemma change_audited: "(identity_change lib org)\<^sup>*\<^sup>* d d1 \<Longrightarrow> audited org d1 d' \<Longrightarrow> (identity_change lib org)\<^sup>*\<^sup>* d d'"
  by (auto simp: audited_def intro: rtranclp.rtrancl_into_rtrancl Audited)

lemma change_then_audit: "identity_change lib org d d1 \<Longrightarrow> audited org d1 d' \<Longrightarrow> (identity_change lib org)\<^sup>*\<^sup>* d d'"
  by (rule change_audited [OF r_into_rtranclp])

lemma map_sum_Inr: "map_sum id snd r = Inr y \<longleftrightarrow> (\<exists>x. r = Inr (x, y))"
  by (cases r) auto

lemma issue_credential_members: "issue_credential lib env m n a e r d = Inr (x, d') \<Longrightarrow> id_members d' = id_members d"
  by (auto simp: issue_credential_def draw_id_def draw_secret_def Let_def rbind_Inr_iff)

lemma issue_credential_keeps: "issue_credential lib env m n a e r d = Inr (x, d') \<Longrightarrow> c \<in> set (id_credentials d) \<Longrightarrow> c \<in> set (id_credentials d')"
  by (auto simp: issue_credential_def draw_id_def draw_secret_def Let_def rbind_Inr_iff)

lemma issue_credential_capabilities: "issue_credential lib env m n a e r d = Inr (x, d') \<Longrightarrow> id_capabilities d' = id_capabilities d"
  by (auto simp: issue_credential_def draw_id_def draw_secret_def Let_def rbind_Inr_iff)

lemma audit_frame [simp]:
  "id_organizations (append_audit_event o' a n t i b e d) = id_organizations d"
  "id_members (append_audit_event o' a n t i b e d) = id_members d"
  "id_credentials (append_audit_event o' a n t i b e d) = id_credentials d"
  "id_capabilities (append_audit_event o' a n t i b e d) = id_capabilities d"
  "id_uuids (append_audit_event o' a n t i b e d) = id_uuids d"
  by (simp_all add: append_audit_event_def)

lemma new_member_frame [simp]:
  "id_organizations (snd (new_member lib o' s r a d)) = id_organizations d"
  "id_credentials (snd (new_member lib o' s r a d)) = id_credentials d"
  "id_capabilities (snd (new_member lib o' s r a d)) = id_capabilities d"
  "id_audit (snd (new_member lib o' s r a d)) = id_audit d"
  "id_members (snd (new_member lib o' s r a d)) = id_members d @ [fst (new_member lib o' s r a d)]"
  "mm_organization_id (fst (new_member lib o' s r a d)) = o'"
  by (simp_all add: new_member_def draw_id_def Let_def)

lemma create_member_row_change:
  assumes "find_member org s d = Inr None"
  shows "(identity_change lib org)\<^sup>*\<^sup>* d (snd (create_member_row lib org s r a d))"
proof -
  have "audited org (snd (new_member lib org s r a d)) (snd (create_member_row lib org s r a d))"
    by (simp add: create_member_row_def split: prod.split)
  then show ?thesis using Member_added [OF assms] by (rule change_then_audit [rotated])
qed

subsection \<open>Handlers are sequences of elementary changes\<close>

lemma bootstrap_changes:
  assumes "bootstrap_organization lib n p d = Inr (x, d')"
  shows "(identity_change lib (pr_organization_id p))\<^sup>*\<^sup>* d d'"
proof -
  let ?org = "pr_organization_id p" and ?found = "get_organization d (pr_organization_id p)"
  define row where "row = (case ?found of Some row \<Rightarrow> row
     | None \<Rightarrow> \<lparr>og_id = ?org, og_display_name = n, og_status = OrganizationActive,
                 og_created_by = pr_subject p, og_updated_by = pr_subject p\<rparr>)"
  define d1 where "d1 = (if ?found = None then d\<lparr>id_organizations := id_organizations d @ [row]\<rparr> else d)"
  obtain q where q: "require_role ''admin'' p = Inr q"
    using assms by (auto simp: bootstrap_organization_def abind_Inr_iff)
  then have qp: "q = p" using require_role_Inr by blast
  have body: "abind (served (find_member ?org (pr_subject p) d1)) (\<lambda>existing.
       (case (case existing of Some m \<Rightarrow> (m, d1)
              | None \<Rightarrow> create_member_row lib ?org (pr_subject p) Admin (pr_subject p) d1) of (m, d2) \<Rightarrow>
        let created = (?found = None \<or> existing = None)
        in Inr ((created, row, m),
          if created
          then append_audit_event ?org (pr_subject p) ''organization_bootstrapped'' ''organization'' (og_id row) None
                 (Some (fmap_of_list [(''id'', PStr (og_id row)), (''display_name'', PStr (og_display_name row)),
                    (''status'', PStr (organization_status_name (og_status row))), (''member_id'', PStr (mm_id m))])) d2
          else d2))) = Inr (x, d')"
    using assms q qp by (simp only: bootstrap_organization_def abind_simps Let_def row_def d1_def)
  then obtain existing where existing: "find_member ?org (pr_subject p) d1 = Inr existing"
    by (auto simp: abind_Inr_iff)
  define d2 where "d2 = (case existing of Some m \<Rightarrow> d1 | None \<Rightarrow>
     snd (create_member_row lib ?org (pr_subject p) Admin (pr_subject p) d1))"
  have "og_id row = ?org" by (auto simp: row_def dest: get_organization_mem split: option.split)
  then have "(identity_change lib ?org)\<^sup>*\<^sup>* d d1" using Organization_added [of d ?org row lib] by (auto simp: d1_def)
  moreover have "(identity_change lib ?org)\<^sup>*\<^sup>* d1 d2"
    using existing create_member_row_change by (auto simp: d2_def split: option.split)
  moreover have "d' = d2 \<or> audited ?org d2 d'"
    using body existing by (cases existing) (auto simp: Let_def d2_def served_def split: prod.splits if_splits)
  ultimately show ?thesis using change_audited rtranclp_trans by metis
qed

lemma rename_changes:
  assumes "update_organization_name n p d = Inr (x, d')"
  shows "(identity_change lib (pr_organization_id p))\<^sup>*\<^sup>* d d'"
proof -
  obtain row where "get_organization d (pr_organization_id p) = Some row"
      "audited (pr_organization_id p) (put_organization (update_organization n (pr_subject p) row) d) d'"
    using assms require_role_Inr [of "''admin''" p] by (auto simp: update_organization_name_def abind_Inr_iff Let_def)
  then show ?thesis using change_then_audit [OF Organization_named] by blast
qed

lemma create_member_changes:
  assumes "create_member lib s r p d = Inr (x, d')"
  shows "(identity_change lib (pr_organization_id p))\<^sup>*\<^sup>* d d'"
proof -
  have "find_member (pr_organization_id p) s d = Inr None"
    "d' = snd (create_member_row lib (pr_organization_id p) s r (pr_subject p) d)"
    using assms require_role_Inr [of "''admin''" p] by (auto simp: create_member_def abind_Inr_iff)
  then show ?thesis using create_member_row_change by simp
qed

lemma update_member_changes:
  assumes "update_member s r st p d = Inr (x, d')"
  shows "(identity_change lib (pr_organization_id p))\<^sup>*\<^sup>* d d'"
proof -
  obtain m where m: "find_member (pr_organization_id p) s d = Inr (Some m)"
    using assms require_role_Inr [of "''admin''" p] by (auto simp: update_member_def abind_Inr_iff)
  obtain q where q: "require_role ''admin'' p = Inr q"
    using assms by (auto simp: update_member_def abind_Inr_iff)
  then have qp: "q = p" using require_role_Inr by blast
  define role where "role = (case r of None \<Rightarrow> mm_role m | Some r \<Rightarrow> r)"
  define status where "status = (case st of None \<Rightarrow> mm_status m | Some s \<Rightarrow> s)"
  have guard: "\<not> ((mm_role m = Admin \<and> mm_status m = MemberActive \<and> (role \<noteq> Admin \<or> status \<noteq> MemberActive))
      \<and> length (active_admins (pr_organization_id p) d) \<le> 1)"
    and result: "d' = d \<or> audited (pr_organization_id p) (put_member (apply_member_update role status (pr_subject p) m) d) d'"
    using assms unfolding update_member_def q abind_simps qp
    by (auto simp: m abind_Inr_iff Let_def role_def [symmetric] status_def [symmetric] split: if_split_asm)
  have "identity_change lib (pr_organization_id p) d (put_member (apply_member_update role status (pr_subject p) m) d)"
    using guard find_member_mem [OF m] by (intro Member_changed) auto
  then show ?thesis using result change_then_audit by blast
qed

lemma owner_in_member:
  assumes "identity_ok lib d" "owner_in org i d" "get_member d i = Some m"
  shows "m \<in> set (id_members d) \<and> mm_organization_id m = org"
proof -
  obtain m' where m': "m' \<in> set (id_members d)" "mm_id m' = i" "mm_organization_id m' = org"
    using assms(2) by (auto simp: owner_in_def)
  have "m \<in> set (id_members d)" "mm_id m = i" using get_member_mem [OF assms(3)] by auto
  moreover have "inj_on mm_id (set (id_members d))" using assms(1) by (simp add: identity_ok_def distinct_map)
  ultimately have "m = m'" using m' inj_onD by metis
  then show ?thesis using m' by simp
qed

lemma owned_credential_cases:
  assumes "locked_owned_credential p i d = Inr (c, m)" "identity_ok lib d"
  shows "c \<in> set (id_credentials d) \<and> ac_organization_id c = pr_organization_id p
    \<and> m \<in> set (id_members d) \<and> mm_organization_id m = pr_organization_id p"
proof -
  have c: "c \<in> set (id_credentials d)" "ac_organization_id c = pr_organization_id p" "get_member d (ac_member_id c) = Some m"
    using assms(1) by (auto simp: locked_owned_credential_def find_credential_def abind_Inr_iff dest!: found_row_mem)
  then have "owner_in (ac_organization_id c) (ac_member_id c) d" using assms(2) by (auto simp: identity_ok_def)
  with c owner_in_member [OF assms(2)] show ?thesis by auto
qed

lemma create_credential_changes:
  assumes "create_credential lib env now n s e p d = Inr (x, d')"
  shows "(identity_change lib (pr_organization_id p))\<^sup>*\<^sup>* d d'"
proof -
  define target where "target = (if given_text s \<noteq> [] then given_text s else pr_subject p)"
  obtain m row d1 where m: "find_member (pr_organization_id p) target d = Inr (Some m)"
    "issue_credential lib env m n (pr_subject p) e None d = Inr (row, d1)" "audited (pr_organization_id p) d1 d'"
    using assms require_role_Inr [of "''viewer''" p]
    by (auto simp: create_credential_def target_def [symmetric] abind_Inr_iff simp del: if_split_asm)
  then show ?thesis using find_member_mem [OF m(1)] change_then_audit [OF Credential_issued] by blast
qed

lemma revoke_credential_changes:
  assumes "revoke_credential now i r p d = Inr (x, d')" "identity_ok lib d"
  shows "(identity_change lib (pr_organization_id p))\<^sup>*\<^sup>* d d'"
proof -
  obtain c m where c: "locked_owned_credential p i d = Inr (c, m)"
    "d' = d \<or> audited (pr_organization_id p) (put_credential (mark_credential_revoked now (pr_subject p) r c) d) d'"
    using assms(1) require_role_Inr [of "''viewer''" p]
    by (auto simp: revoke_credential_def abind_Inr_iff Let_def split: if_splits)
  have "identity_change lib (pr_organization_id p) d (put_credential (mark_credential_revoked now (pr_subject p) r c) d)"
    using owned_credential_cases [OF c(1) assms(2)] by (intro Credential_revoked) auto
  then show ?thesis using c(2) change_then_audit by blast
qed

lemma rotate_credential_changes:
  assumes "rotate_credential lib env now i n p d = Inr (x, d')" "identity_ok lib d"
  shows "(identity_change lib (pr_organization_id p))\<^sup>*\<^sup>* d d'"
proof -
  obtain c m row d1 name where c: "locked_owned_credential p i d = Inr (c, m)"
    "issue_credential lib env m name (pr_subject p) (ac_expires_at c) (Some (ac_id c)) d = Inr (row, d1)"
    "audited (pr_organization_id p) (put_credential (mark_credential_revoked now (pr_subject p) (Some ''rotated'') c) d1) d'"
    using assms(1) require_role_Inr [of "''viewer''" p] by (auto simp: rotate_credential_def abind_Inr_iff Let_def)
  note own = owned_credential_cases [OF c(1) assms(2)]
  have "identity_change lib (pr_organization_id p) d d1"
    using own by (intro Credential_issued [OF _ _ c(2)]) auto
  moreover have "identity_change lib (pr_organization_id p) d1
      (put_credential (mark_credential_revoked now (pr_subject p) (Some ''rotated'') c) d1)"
    using own issue_credential_keeps [OF c(2)] by (intro Credential_revoked) auto
  ultimately have "(identity_change lib (pr_organization_id p))\<^sup>*\<^sup>* d
      (put_credential (mark_credential_revoked now (pr_subject p) (Some ''rotated'') c) d1)" by auto
  then show ?thesis using c(3) by (rule change_audited)
qed

lemma create_invitation_changes:
  assumes "create_invitation lib env now s r h p d = Inr (x, d')"
  shows "(identity_change lib (pr_organization_id p))\<^sup>*\<^sup>* d d'"
proof -
  obtain row d1 where
    issued: "issue_capability lib env now (pr_organization_id p) Invitation s r (pr_subject p) (now + hours h) None d = Inr (row, d1)"
    and audit: "audited (pr_organization_id p) d1 d'"
    using assms require_role_Inr [of "''admin''" p] by (auto simp: create_invitation_def abind_Inr_iff)
  show ?thesis by (rule change_then_audit [OF Capability_issued [OF _ issued] audit]) simp
qed

lemma create_recovery_changes:
  assumes "create_recovery_token lib env now h p d = Inr (x, d')" "principal_placed p d"
  shows "(identity_change lib (pr_organization_id p))\<^sup>*\<^sup>* d d'"
proof -
  obtain row d1 member_id role where placed: "pr_member_id p = Some member_id"
    and issued: "issue_capability lib env now (pr_organization_id p) Recovery (pr_subject p) role (pr_subject p)
      (now + hours h) (Some member_id) d = Inr (row, d1)"
    and audit: "audited (pr_organization_id p) d1 d'"
    using assms(1) require_role_Inr [of "''viewer''" p] by (auto simp: create_recovery_token_def abind_Inr_iff)
  show ?thesis
    by (rule change_then_audit [OF Capability_issued [OF _ issued] audit]) (use assms(2) placed in \<open>simp add: principal_placed_def\<close>)
qed

lemma revoke_found_changes:
  assumes "revoke_found_capability now a i p c d = Inr (x, d')" "c \<in> set (id_capabilities d)"
    "cp_organization_id c = pr_organization_id p"
  shows "(identity_change lib (pr_organization_id p))\<^sup>*\<^sup>* d d'"
proof -
  have "identity_change lib (pr_organization_id p) d (put_capability (revoke_capability now (pr_subject p) c) d)"
    using assms(2,3) by (intro Capability_closed) auto
  moreover have "d' = d \<or> audited (pr_organization_id p) (put_capability (revoke_capability now (pr_subject p) c) d) d'"
    using assms(1) by (auto simp: revoke_found_capability_def Let_def split: if_splits)
  ultimately show ?thesis using change_then_audit by blast
qed

lemma revoke_invitation_changes:
  assumes "revoke_invitation now i p d = Inr (x, d')"
  shows "(identity_change lib (pr_organization_id p))\<^sup>*\<^sup>* d d'"
proof -
  obtain c where c: "one_or_none (filter (\<lambda>c. cp_id c = i \<and> cp_organization_id c = pr_organization_id p
       \<and> cp_purpose c = Invitation) (id_capabilities d)) = Inr (Some c)"
    "revoke_found_capability now ''invitation_revoked'' i p c d = Inr (x, d')"
    using assms require_role_Inr [of "''admin''" p] by (auto simp: revoke_invitation_def abind_Inr_iff)
  then show ?thesis using found_row_mem [OF c(1)] revoke_found_changes [OF c(2)] by simp
qed

lemma revoke_recovery_changes:
  assumes "revoke_recovery_token now i p d = Inr (x, d')"
  shows "(identity_change lib (pr_organization_id p))\<^sup>*\<^sup>* d d'"
proof -
  obtain c j where c: "one_or_none (filter (\<lambda>c. cp_id c = i \<and> cp_organization_id c = pr_organization_id p
       \<and> cp_member_id c = Some j \<and> cp_purpose c = Recovery) (id_capabilities d)) = Inr (Some c)"
    "revoke_found_capability now ''recovery_revoked'' i p c d = Inr (x, d')"
    using assms require_role_Inr [of "''viewer''" p] by (auto simp: revoke_recovery_token_def abind_Inr_iff)
  then show ?thesis using found_row_mem [OF c(1)] revoke_found_changes [OF c(2)] by simp
qed

lemma request_changes:
  assumes "handle_identity_request lib env now p req d = Inr d'" "identity_ok lib d" "principal_placed p d"
  shows "(identity_change lib (pr_organization_id p))\<^sup>*\<^sup>* d d'"
  using assms
  by (cases req) (auto simp: map_sum_Inr intro: bootstrap_changes rename_changes create_member_changes update_member_changes
      create_credential_changes revoke_credential_changes rotate_credential_changes create_invitation_changes
      create_recovery_changes revoke_invitation_changes revoke_recovery_changes)


lemma authenticate_capability_Some:
  assumes "authenticate_capability lib env now token d = Inr (Some c)"
  shows "c \<in> set (id_capabilities d) \<and> capability_id_from_token token = Some (cp_id c) \<and> cp_status c = CapabilityPending"
  using assms
  by (auto simp: authenticate_capability_def rbind_Inr_iff dest!: found_row_mem split: option.splits if_split_asm)

lemma redeeming_member_changes:
  assumes "redeeming_member lib c d = Inr ((m, action), d1)" "identity_ok lib d" "c \<in> set (id_capabilities d)"
  shows "(identity_change lib (cp_organization_id c))\<^sup>*\<^sup>* d d1 \<and> m \<in> set (id_members d1)
    \<and> mm_organization_id m = cp_organization_id c \<and> id_capabilities d1 = id_capabilities d"
proof -
  obtain found where found: "capability_member c d = Inr found"
    using assms(1) by (auto simp: redeeming_member_def abind_Inr_iff)
  have in_org: "m \<in> set (id_members d) \<and> mm_organization_id m = cp_organization_id c" if "found = Some m"
  proof (cases "cp_member_id c")
    case None
    then show ?thesis using found that by (auto simp: capability_member_def dest: found_row_mem)
  next
    case (Some i)
    then have "owner_in (cp_organization_id c) i d" using assms(2,3) by (auto simp: identity_ok_def)
    then show ?thesis using owner_in_member [OF assms(2)] found that Some by (auto simp: capability_member_def)
  qed
  show ?thesis
  proof (cases "cp_purpose c")
    case Recovery
    then have "found = Some m" "d1 = d"
      using assms(1) found by (auto simp: redeeming_member_def abind_Inr_iff)
    with in_org show ?thesis by simp
  next
    case Invitation
    then have none: "found = None" using assms(1) found by (auto simp: redeeming_member_def abind_Inr_iff)
    have "cp_member_id c = None"
    proof (rule ccontr)
      assume "cp_member_id c \<noteq> None"
      then obtain i where i: "cp_member_id c = Some i" by blast
      then have "owner_in (cp_organization_id c) i d" using assms(2,3) by (auto simp: identity_ok_def)
      then have "get_member d i \<noteq> None" by (auto simp: owner_in_def get_member_def find_None_iff)
      then show False using found none i by (simp add: capability_member_def)
    qed
    then have new: "find_member (cp_organization_id c) (cp_subject c) d = Inr None"
      using found none by (simp add: capability_member_def find_member_def)
    let ?new = "new_member lib (cp_organization_id c) (cp_subject c) (cp_role c) (cp_created_by c) d"
    have "m = fst ?new" "audited (cp_organization_id c) (snd ?new) d1"
      using assms(1) found none Invitation by (auto simp: redeeming_member_def split: prod.splits)
    then show ?thesis using change_then_audit [OF Member_added [OF new]] by (auto simp: audited_def)
  qed
qed

text \<open>A redemption issues a credential and closes the capability last.\<close>

lemma redeem_Inr:
  assumes "redeem_identity_capability lib env now token n d = Inr (x, d')" "identity_ok lib d"
  obtains c d4 where "c \<in> set (id_capabilities d)" "capability_id_from_token token = Some (cp_id c)"
    "(identity_change lib (cp_organization_id c))\<^sup>*\<^sup>* d d4" "id_capabilities d4 = id_capabilities d"
    "d' = put_capability (redeem_capability now c) d4"
proof -
  obtain c m action d1 row d2 d3 d4 where c: "authenticate_capability lib env now token d = Inr (Some c)"
    and m: "redeeming_member lib c d = Inr ((m, action), d1)"
    and issued: "issue_credential lib env m n (cp_subject c) None None d1 = Inr (row, d2)"
    and audit: "audited (cp_organization_id c) d2 d3" "audited (cp_organization_id c) d3 d4"
    and d': "d' = put_capability (redeem_capability now c) d4"
    using assms(1) unfolding redeem_identity_capability_def
    by (clarsimp simp: abind_Inr_iff) (metis auditedI)
  let ?chg = "identity_change lib (cp_organization_id c)"
  note c = authenticate_capability_Some [OF c]
  note m = redeeming_member_changes [OF m assms(2)]
  have "?chg d1 d2" using m c by (intro Credential_issued [OF _ _ issued]) auto
  then have "?chg\<^sup>*\<^sup>* d d2" using m c by auto
  then have "?chg\<^sup>*\<^sup>* d d4" using change_audited audit by blast
  moreover have "id_capabilities d4 = id_capabilities d"
    using m c issue_credential_capabilities [OF issued] audit by (auto simp: audited_def)
  ultimately show thesis using that c d' by blast
qed

lemma redeem_changes:
  assumes "redeem_identity_capability lib env now token n d = Inr (x, d')" "identity_ok lib d"
  shows "\<exists>org. (identity_change lib org)\<^sup>*\<^sup>* d d'"
  using assms
proof (rule redeem_Inr)
  fix c d4
  assume c: "c \<in> set (id_capabilities d)" "(identity_change lib (cp_organization_id c))\<^sup>*\<^sup>* d d4"
    "id_capabilities d4 = id_capabilities d" "d' = put_capability (redeem_capability now c) d4"
  then have "identity_change lib (cp_organization_id c) d4 d'"
    unfolding c(4) by (intro Capability_closed [where c = c, OF _ _ insertI1]) simp_all
  with c(2) show ?thesis by (blast intro: rtranclp.rtrancl_into_rtrancl)
qed

lemma authenticate_changes:
  assumes "authenticate_credential lib env now touch token d = Inr (found, d')"
  shows "\<exists>org. (identity_change lib org)\<^sup>*\<^sup>* d d'"
proof (cases found)
  case None
  then show ?thesis using authenticate_credential_None assms by blast
next
  case (Some i)
  with assms obtain c m where "live_credential now c m d"
      "d' = d \<or> d' = put_credential (c\<lparr>ac_last_used_at := Some now\<rparr>) d"
    using authenticate_credential_Some by metis
  then show ?thesis using Credential_used [of c d "ac_organization_id c" lib now] by (auto simp: live_credential_def)
qed

theorem identity_steps_change:
  assumes "identity_step lib env d d'" "identity_ok lib d"
  shows "\<exists>org. (identity_change lib org)\<^sup>*\<^sup>* d d'"
  using assms
  by cases (blast intro: request_changes redeem_changes authenticate_changes)+


subsection \<open>The invariant of the rows\<close>

text \<open>Writing a row by its key keeps what the new row shares with the old one.\<close>

lemma map_put_row:
  assumes "distinct (map key xs)" "x \<in> set xs" "key y = key x" "g y = g x"
  shows "map g (update_where (\<lambda>z. key z = key y) (\<lambda>_. y) xs) = map g xs"
proof -
  have "z = x" if "z \<in> set xs" "key z = key y" for z
    using assms(1,2,3) that by (auto simp: distinct_map inj_on_def)
  then show ?thesis using assms(4) by (auto simp: update_where_def)
qed

lemma put_row_mem:
  "z \<in> set (update_where (\<lambda>z. key z = key y) (\<lambda>_. y) xs) \<Longrightarrow> z = y \<or> z \<in> set xs \<and> key z \<noteq> key y"
  by (auto simp: update_where_def split: if_splits)

text \<open>The part of the rows that the invariant is about.\<close>

definition identity_shape ::
  "identity_db \<Rightarrow> string list \<times> (string \<times> string \<times> string) list \<times> (string \<times> string \<times> string) list
     \<times> (string \<times> string \<times> string option) list \<times> nat" where
  "identity_shape d =
     (map og_id (id_organizations d), map (\<lambda>m. (mm_id m, mm_organization_id m, mm_subject m)) (id_members d),
      map (\<lambda>c. (ac_id c, ac_organization_id c, ac_member_id c)) (id_credentials d),
      map (\<lambda>c. (cp_id c, cp_organization_id c, cp_member_id c)) (id_capabilities d), id_uuids d)"

fun shape_ok ::
  "identity_library \<Rightarrow> string list \<times> (string \<times> string \<times> string) list \<times> (string \<times> string \<times> string) list
     \<times> (string \<times> string \<times> string option) list \<times> nat \<Rightarrow> bool" where
  "shape_ok lib (os, ms, cs, ps, n) \<longleftrightarrow>
     distinct os \<and> distinct (map fst ms) \<and> distinct (map fst cs) \<and> distinct (map fst ps) \<and> distinct (map snd ms)
     \<and> (\<forall>(i, org, j) \<in> set cs. \<exists>s. (j, org, s) \<in> set ms)
     \<and> (\<forall>(i, org, v) \<in> set ps. \<forall>j. v = Some j \<longrightarrow> (\<exists>s. (j, org, s) \<in> set ms))
     \<and> (\<forall>k \<ge> n. il_uuid4 lib k \<notin> fst ` set ms \<union> fst ` set cs \<union> fst ` set ps)"

lemma later_uuid: "inj (f :: nat \<Rightarrow> string) \<Longrightarrow> Suc n \<le> k \<Longrightarrow> f k \<noteq> f n"
  by (auto dest: injD)

lemma shape_ok_member:
  assumes "inj (il_uuid4 lib)" "shape_ok lib (os, ms, cs, ps, n)" "\<And>i. (i, org, s) \<notin> set ms"
  shows "shape_ok lib (os, ms @ [(il_uuid4 lib n, org, s)], cs, ps, Suc n)"
  using assms later_uuid [OF assms(1), of n] by fastforce

lemma shape_ok_credential:
  assumes "inj (il_uuid4 lib)" "shape_ok lib (os, ms, cs, ps, n)" "\<exists>s. (j, org, s) \<in> set ms"
  shows "shape_ok lib (os, ms, cs @ [(il_uuid4 lib n, org, j)], ps, Suc n)"
  using assms later_uuid [OF assms(1), of n] by fastforce

lemma shape_ok_capability:
  assumes "inj (il_uuid4 lib)" "shape_ok lib (os, ms, cs, ps, n)" "\<And>j. v = Some j \<Longrightarrow> \<exists>s. (j, org, s) \<in> set ms"
  shows "shape_ok lib (os, ms, cs, ps @ [(il_uuid4 lib n, org, v)], Suc n)"
  using assms later_uuid [OF assms(1), of n] by fastforce

declare shape_ok.simps [simp del]

lemma owner_in_shape:
  "owner_in org i d \<longleftrightarrow> (\<exists>s. (i, org, s) \<in> set (map (\<lambda>m. (mm_id m, mm_organization_id m, mm_subject m)) (id_members d)))"
  by (auto simp: owner_in_def)

lemma identity_ok_shape: "identity_ok lib d \<longleftrightarrow> shape_ok lib (identity_shape d)"
  unfolding identity_ok_def identity_shape_def shape_ok.simps owner_in_shape identity_keys_def
  by (simp add: comp_def image_image)

lemma issue_credential_row:
  assumes "issue_credential lib env m n a e r d = Inr ((c, token), d')"
  shows "d' = d\<lparr>id_uuids := id_uuids d + 1, id_secrets := id_secrets d + 1, id_credentials := id_credentials d @ [c]\<rparr>
    \<and> ac_id c = il_uuid4 lib (id_uuids d) \<and> ac_organization_id c = mm_organization_id m \<and> ac_member_id c = mm_id m"
  using assms by (auto simp: issue_credential_def draw_id_def draw_secret_def Let_def rbind_Inr_iff)

lemma issue_capability_row:
  assumes "issue_capability lib env now org purpose s r a e i d = Inr ((c, token), d')"
  shows "d' = d\<lparr>id_uuids := id_uuids d + 1, id_secrets := id_secrets d + 1, id_capabilities := id_capabilities d @ [c]\<rparr>
    \<and> cp_id c = il_uuid4 lib (id_uuids d) \<and> cp_organization_id c = org \<and> cp_member_id c = i"
  using assms
  by (auto simp: issue_capability_def draw_id_def draw_secret_def Let_def rbind_Inr_iff split: if_split_asm)

lemma new_member_row:
  "snd (new_member lib org s r a d) = d\<lparr>id_uuids := id_uuids d + 1, id_members := id_members d @ [fst (new_member lib org s r a d)]\<rparr>"
  "mm_id (fst (new_member lib org s r a d)) = il_uuid4 lib (id_uuids d)"
  "mm_organization_id (fst (new_member lib org s r a d)) = org"
  "mm_subject (fst (new_member lib org s r a d)) = s"
  by (simp_all add: new_member_def draw_id_def Let_def)

lemma closed_capability_key: "c' \<in> {redeem_capability now c, revoke_capability now actor c} \<Longrightarrow>
  cp_id c' = cp_id c \<and> cp_organization_id c' = cp_organization_id c \<and> cp_member_id c' = cp_member_id c
    \<and> cp_status c' \<noteq> CapabilityPending"
  by (auto simp: redeem_capability_def revoke_capability_def)

lemma put_member_shape:
  assumes "identity_ok lib d" "m \<in> set (id_members d)"
    "(mm_id m', mm_organization_id m', mm_subject m') = (mm_id m, mm_organization_id m, mm_subject m)"
  shows "identity_shape (put_member m' d) = identity_shape d"
  using assms map_put_row [of mm_id "id_members d" m m' "\<lambda>m. (mm_id m, mm_organization_id m, mm_subject m)"]
  by (simp add: identity_shape_def put_member_def identity_ok_def)

lemma put_credential_shape:
  assumes "identity_ok lib d" "c \<in> set (id_credentials d)"
    "(ac_id c', ac_organization_id c', ac_member_id c') = (ac_id c, ac_organization_id c, ac_member_id c)"
  shows "identity_shape (put_credential c' d) = identity_shape d"
  using assms map_put_row [of ac_id "id_credentials d" c c' "\<lambda>c. (ac_id c, ac_organization_id c, ac_member_id c)"]
  by (simp add: identity_shape_def put_credential_def identity_ok_def)

lemma put_capability_shape:
  assumes "identity_ok lib d" "c \<in> set (id_capabilities d)"
    "(cp_id c', cp_organization_id c', cp_member_id c') = (cp_id c, cp_organization_id c, cp_member_id c)"
  shows "identity_shape (put_capability c' d) = identity_shape d"
  using assms map_put_row [of cp_id "id_capabilities d" c c' "\<lambda>c. (cp_id c, cp_organization_id c, cp_member_id c)"]
  by (simp add: identity_shape_def put_capability_def identity_ok_def)

lemma change_keeps_ok:
  assumes "identity_change lib org d d'" "identity_ok lib d" "inj (il_uuid4 lib)"
  shows "identity_ok lib d'"
  using assms(1)
proof cases
  case (Organization_added row)
  then show ?thesis using assms(2)
    by (auto simp: identity_ok_def owner_in_def identity_keys_def get_organization_def find_None_iff)
next
  case (Organization_named row n actor)
  then have "identity_shape d' = identity_shape d" using assms(2)
    by (auto simp: identity_shape_def put_organization_def update_organization_def update_where_def identity_ok_def)
  then show ?thesis using assms(2) by (simp add: identity_ok_shape)
next
  case (Member_added subject role actor)
  obtain os ms cs ps where d: "identity_shape d = (os, ms, cs, ps, id_uuids d)"
      "ms = map (\<lambda>m. (mm_id m, mm_organization_id m, mm_subject m)) (id_members d)"
    by (simp add: identity_shape_def)
  have "(i, org, subject) \<notin> set ms" for i
    using Member_added(2) by (auto simp: d(2) find_member_def one_or_none_None filter_empty_conv)
  moreover have "identity_shape d' = (os, ms @ [(il_uuid4 lib (id_uuids d), org, subject)], cs, ps, Suc (id_uuids d))"
    using d Member_added(1) new_member_row [of lib org subject role actor d] by (simp add: identity_shape_def)
  ultimately show ?thesis
    using shape_ok_member [OF assms(3)] assms(2) by (simp add: identity_ok_shape d(1))
next
  case (Member_changed m role status actor)
  then show ?thesis using assms(2) put_member_shape [OF assms(2) Member_changed(2)]
    by (simp add: identity_ok_shape apply_member_update_def)
next
  case (Credential_issued m env name actor expires_at rotated_from r)
  obtain os ms cs ps where d: "identity_shape d = (os, ms, cs, ps, id_uuids d)"
      "ms = map (\<lambda>m. (mm_id m, mm_organization_id m, mm_subject m)) (id_members d)"
    by (simp add: identity_shape_def)
  have "\<exists>s. (mm_id m, org, s) \<in> set ms" using Credential_issued(1,2) by (auto simp: d(2))
  moreover have "identity_shape d' = (os, ms, cs @ [(il_uuid4 lib (id_uuids d), org, mm_id m)], ps, Suc (id_uuids d))"
    using d issue_credential_row [of lib env m name actor expires_at rotated_from d "fst r" "snd r" d'] Credential_issued
    by (simp add: identity_shape_def)
  ultimately show ?thesis
    using shape_ok_credential [OF assms(3)] assms(2) by (simp add: identity_ok_shape d(1))
next
  case (Credential_revoked c now actor reason)
  then show ?thesis using assms(2) put_credential_shape [OF assms(2) Credential_revoked(2)]
    by (simp add: identity_ok_shape mark_credential_revoked_def)
next
  case (Credential_used c now)
  then show ?thesis using assms(2) put_credential_shape [OF assms(2) Credential_used(2)]
    by (simp add: identity_ok_shape)
next
  case (Capability_issued member_id env now purpose subject role actor expires_at r)
  obtain os ms cs ps where d: "identity_shape d = (os, ms, cs, ps, id_uuids d)"
      "ms = map (\<lambda>m. (mm_id m, mm_organization_id m, mm_subject m)) (id_members d)"
    by (simp add: identity_shape_def)
  have "\<exists>s. (j, org, s) \<in> set ms" if "member_id = Some j" for j
    using Capability_issued(1) that by (auto simp: d(2) owner_in_def)
  moreover have "identity_shape d' = (os, ms, cs, ps @ [(il_uuid4 lib (id_uuids d), org, member_id)], Suc (id_uuids d))"
    using d Capability_issued(2)
      issue_capability_row [of lib env now org purpose subject role actor expires_at member_id d "fst r" "snd r" d']
    by (simp add: identity_shape_def)
  ultimately show ?thesis
    using shape_ok_capability [OF assms(3)] assms(2) by (simp add: identity_ok_shape d(1))
next
  case (Capability_closed c c' now actor)
  then show ?thesis
    using assms(2) put_capability_shape [OF assms(2) Capability_closed(2)] closed_capability_key [OF Capability_closed(4)]
    by (simp add: identity_ok_shape)
next
  case Audited
  then show ?thesis using assms(2) by (simp add: identity_ok_shape identity_shape_def)
qed


lemma changes_keep:
  assumes "(identity_change lib org)\<^sup>*\<^sup>* d d'" "inj (il_uuid4 lib)" "identity_ok lib d" "P d"
    and "\<And>x y. identity_change lib org x y \<Longrightarrow> identity_ok lib x \<Longrightarrow> P x \<Longrightarrow> P y"
  shows "identity_ok lib d' \<and> P d'"
  using assms(1)
proof induction
  case base
  then show ?case using assms(3,4) by simp
next
  case (step x y)
  then show ?case using assms(5) change_keeps_ok [OF _ _ assms(2)] by blast
qed

text \<open>What every elementary change keeps is kept by all requests, redemptions and authentications.\<close>

locale kept_by_changes =
  fixes lib :: identity_library and kept :: "identity_db \<Rightarrow> bool"
  assumes change: "identity_change lib org d d' \<Longrightarrow> identity_ok lib d \<Longrightarrow> kept d \<Longrightarrow> kept d'"
begin

lemma steps:
  assumes "(identity_step lib env)\<^sup>*\<^sup>* d d'" "inj (il_uuid4 lib)" "identity_ok lib d" "kept d"
  shows "identity_ok lib d' \<and> kept d'"
  using assms(1)
proof induction
  case base
  then show ?case using assms(3,4) by simp
next
  case (step x y)
  then have x: "identity_ok lib x" "kept x" by simp_all
  obtain org where "(identity_change lib org)\<^sup>*\<^sup>* x y" using identity_steps_change [OF step(2) x(1)] by blast
  then show ?case using changes_keep [OF _ assms(2) x(1), of org y kept] x(2) change by blast
qed

end

subsection \<open>Administrators\<close>

lemma admins_of_update:
  assumes "distinct (map mm_id ms)" "m \<in> set ms" "mm_id m' = mm_id m" "mm_organization_id m' = mm_organization_id m"
    and "2 \<le> length (filter (\<lambda>x. mm_organization_id x = org \<and> mm_role x = Admin \<and> mm_status x = MemberActive) ms)"
  shows "filter (\<lambda>x. mm_organization_id x = org \<and> mm_role x = Admin \<and> mm_status x = MemberActive)
    (update_where (\<lambda>x. mm_id x = mm_id m') (\<lambda>_. m') ms) \<noteq> []"
proof -
  let ?admin = "\<lambda>x. mm_organization_id x = org \<and> mm_role x = Admin \<and> mm_status x = MemberActive"
  obtain a b rest where two: "filter ?admin ms = a # b # rest"
    using assms(5) by (auto simp: numeral_2_eq_2 Suc_le_length_iff)
  have "distinct (map mm_id (filter ?admin ms))" using assms(1) by (rule distinct_map_filter)
  then have "mm_id a \<noteq> mm_id b" by (simp add: two)
  then obtain x where x: "x \<in> set (filter ?admin ms)" "mm_id x \<noteq> mm_id m'"
    unfolding two by (metis list.set_intros)
  then have "x \<in> set (update_where (\<lambda>x. mm_id x = mm_id m') (\<lambda>_. m') ms)" by (auto simp: update_where_def)
  then show ?thesis using x by (auto simp: filter_empty_conv)
qed

lemma change_keeps_admins:
  assumes "identity_change lib o' d d'" "identity_ok lib d" "active_admins org d \<noteq> []"
  shows "active_admins org d' \<noteq> []"
  using assms(1)
proof cases
  case (Member_added subject role actor)
  then show ?thesis using assms(3) by (simp add: active_admins_def)
next
  case (Member_changed m role status actor)
  let ?m' = "apply_member_update role status actor m"
  have ids: "distinct (map mm_id (id_members d))" using assms(2) by (simp add: identity_ok_def)
  have m': "mm_id ?m' = mm_id m" "mm_organization_id ?m' = mm_organization_id m" "mm_role ?m' = role" "mm_status ?m' = status"
    by (simp_all add: apply_member_update_def)
  obtain a where a: "a \<in> set (id_members d)" "mm_organization_id a = org" "mm_role a = Admin" "mm_status a = MemberActive"
    using assms(3) by (auto simp: active_admins_def filter_empty_conv)
  show ?thesis
  proof (cases "a = m \<and> (role \<noteq> Admin \<or> status \<noteq> MemberActive)")
    case True
    then have "2 \<le> length (active_admins org d)" using Member_changed a by auto
    then show ?thesis
      using admins_of_update [OF ids Member_changed(2) m'(1,2)] Member_changed(1)
      by (simp add: active_admins_def put_member_def)
  next
    case False
    have "(if mm_id a = mm_id m then ?m' else a) \<in> set (id_members d')"
      using a(1) Member_changed(1) m'(1) by (auto simp: put_member_def update_where_def)
    moreover have "a = m" if "mm_id a = mm_id m"
      using ids a(1) Member_changed(2) that by (auto simp: distinct_map dest: inj_onD)
    ultimately show ?thesis using a False m' by (auto simp: active_admins_def filter_empty_conv split: if_splits)
  qed
next
  case (Credential_issued m env name actor expires_at rotated_from r)
  then show ?thesis using assms(3) issue_credential_members by (auto simp: active_admins_def)
next
  case (Capability_issued member_id env now purpose subject role actor expires_at r)
  then show ?thesis
    using assms(3) issue_capability_row [of lib env now o' purpose subject role actor expires_at member_id d "fst r" "snd r" d']
    by (simp add: active_admins_def)
qed (use assms(3) in \<open>simp_all add: active_admins_def put_organization_def put_credential_def put_capability_def\<close>)


interpretation admins: kept_by_changes lib "\<lambda>d. active_admins org d \<noteq> []" for lib org
  by unfold_locales (rule change_keeps_admins)

subsection \<open>Revoked credentials and redeemed capabilities\<close>

definition revoked_id :: "string \<Rightarrow> identity_db \<Rightarrow> bool" where
  "revoked_id i d \<longleftrightarrow> (\<exists>c \<in> set (id_credentials d). ac_id c = i \<and> ac_status c = CredentialRevoked)"

definition closed_id :: "string \<Rightarrow> identity_db \<Rightarrow> bool" where
  "closed_id i d \<longleftrightarrow> (\<exists>c \<in> set (id_capabilities d). cp_id c = i \<and> cp_status c \<noteq> CapabilityPending)"

lemma row_by_key: "distinct (map key xs) \<Longrightarrow> x \<in> set xs \<Longrightarrow> y \<in> set xs \<Longrightarrow> key x = key y \<Longrightarrow> x = y"
  by (auto simp: distinct_map dest: inj_onD)

text \<open>Writing one row keeps a fact about the row of a key, when the new row of that key has it too.\<close>

lemma put_keeps_fact:
  assumes "distinct (map key xs)" "x \<in> set xs" "key y = key x" "P x \<Longrightarrow> P y"
    and "\<exists>z \<in> set xs. key z = i \<and> P z"
  shows "\<exists>z \<in> set (update_where (\<lambda>z. key z = key y) (\<lambda>_. y) xs). key z = i \<and> P z"
proof -
  obtain z where z: "z \<in> set xs" "key z = i" "P z" using assms(5) by blast
  show ?thesis
  proof (cases "key z = key y")
    case True
    then have "z = x" using row_by_key [OF assms(1) z(1) assms(2)] assms(3) by simp
    moreover have "y \<in> set (update_where (\<lambda>z. key z = key y) (\<lambda>_. y) xs)"
      using assms(2,3) by (force simp: update_where_def)
    ultimately show ?thesis using z assms(3,4) by auto
  next
    case False
    then have "z \<in> set (update_where (\<lambda>z. key z = key y) (\<lambda>_. y) xs)" using z(1) by (force simp: update_where_def)
    then show ?thesis using z by blast
  qed
qed

lemma change_keeps_revoked:
  assumes "identity_change lib org d d'" "identity_ok lib d" "revoked_id i d"
  shows "revoked_id i d'"
  using assms(1)
proof cases
  case (Credential_issued m env name actor expires_at rotated_from r)
  then show ?thesis using assms(3) issue_credential_keeps unfolding revoked_id_def by blast
next
  case (Credential_revoked c now actor reason)
  then show ?thesis
    using put_keeps_fact [of ac_id "id_credentials d" c "mark_credential_revoked now actor reason c"
        "\<lambda>c. ac_status c = CredentialRevoked" i] assms(2,3)
    by (simp add: revoked_id_def identity_ok_def put_credential_def mark_credential_revoked_def)
next
  case (Credential_used c now)
  then show ?thesis
    using put_keeps_fact [of ac_id "id_credentials d" c "c\<lparr>ac_last_used_at := Some now\<rparr>"
        "\<lambda>c. ac_status c = CredentialRevoked" i] assms(2,3)
    by (simp add: revoked_id_def identity_ok_def put_credential_def)
next
  case (Capability_issued member_id env now purpose subject role actor expires_at r)
  then show ?thesis
    using assms(3) issue_capability_row [of lib env now org purpose subject role actor expires_at member_id d "fst r" "snd r" d']
    by (simp add: revoked_id_def)
qed (use assms(3) in \<open>simp_all add: revoked_id_def put_organization_def put_member_def put_capability_def\<close>)

lemma change_keeps_closed:
  assumes "identity_change lib org d d'" "identity_ok lib d" "closed_id i d"
  shows "closed_id i d'"
  using assms(1)
proof cases
  case (Credential_issued m env name actor expires_at rotated_from r)
  then show ?thesis using assms(3) issue_credential_capabilities by (auto simp: closed_id_def)
next
  case (Capability_issued member_id env now purpose subject role actor expires_at r)
  then show ?thesis
    using assms(3) issue_capability_row [of lib env now org purpose subject role actor expires_at member_id d "fst r" "snd r" d']
    by (auto simp: closed_id_def)
next
  case (Capability_closed c c' now actor)
  then show ?thesis
    using put_keeps_fact [of cp_id "id_capabilities d" c c' "\<lambda>c. cp_status c \<noteq> CapabilityPending" i]
      closed_capability_key [OF Capability_closed(4)] assms(2,3)
    by (simp add: closed_id_def identity_ok_def put_capability_def)
qed (use assms(3) in \<open>simp_all add: closed_id_def put_organization_def put_member_def put_credential_def\<close>)

interpretation revoked: kept_by_changes lib "revoked_id i" for lib i
  by unfold_locales (rule change_keeps_revoked)

interpretation closed: kept_by_changes lib "closed_id i" for lib i
  by unfold_locales (rule change_keeps_closed)

lemma revoked_not_found:
  assumes "identity_ok lib d" "revoked_id i d" "c \<in> set (id_credentials d)" "ac_id c = i"
  shows "ac_status c = CredentialRevoked"
  using assms row_by_key [of ac_id "id_credentials d"] by (auto simp: revoked_id_def identity_ok_def)

lemma revoked_no_session:
  assumes "identity_ok lib d" "revoked_id i d"
  shows "validate_session_identity now m i v d = None"
proof (cases "get_credential d i")
  case None
  then show ?thesis by (simp add: validate_session_identity_def)
next
  case (Some c)
  then have "ac_status c = CredentialRevoked" using revoked_not_found [OF assms] get_credential_mem by blast
  then show ?thesis using Some by (simp add: validate_session_identity_def split: option.split)
qed

lemma revoked_not_authenticated:
  assumes "identity_ok lib d" "revoked_id i d"
    and "authenticate_credential lib' env now touch token d = Inr (Some r, d')"
  shows "ai_credential_id r \<noteq> i"
  using assms(3)
proof (rule authenticate_credential_Some)
  fix c m pepper
  assume "live_credential now c m d" "r = identity_of m c"
  then show ?thesis using revoked_not_found [OF assms(1,2), of c] by (auto simp: live_credential_def identity_of_def)
qed

lemma closed_not_redeemed:
  assumes "identity_ok lib d" "closed_id i d" "capability_id_from_token token = Some i"
  shows "redeem_identity_capability lib env now token label d = Inl (HttpError 401 ''Invalid identity capability'')"
proof -
  obtain c where c: "c \<in> set (id_capabilities d)" "cp_id c = i" "cp_status c \<noteq> CapabilityPending"
    using assms(2) by (auto simp: closed_id_def)
  have "distinct (map cp_id (id_capabilities d))" using assms(1) by (simp add: identity_ok_def)
  then have "filter (\<lambda>c. cp_id c = i) (id_capabilities d) = [c]"
    using distinct_filter_one [of cp_id "id_capabilities d" c] c by simp
  then have "authenticate_capability lib env now token d = Inr None"
    using assms(3) c(3) by (simp add: authenticate_capability_def)
  then show ?thesis using assms(3) by (simp add: redeem_identity_capability_def require_some_def)
qed

lemma redeemed_closed:
  assumes "redeem_identity_capability lib env now token n d = Inr (x, d')" "identity_ok lib d"
  obtains i where "capability_id_from_token token = Some i" "closed_id i d'"
  using assms
proof (rule redeem_Inr)
  fix c d4
  assume c: "c \<in> set (id_capabilities d)" "capability_id_from_token token = Some (cp_id c)"
    "id_capabilities d4 = id_capabilities d" "d' = put_capability (redeem_capability now c) d4"
  have "redeem_capability now c \<in> set (id_capabilities d')"
    using c by (force simp: put_capability_def update_where_def redeem_capability_def)
  then have "closed_id (cp_id c) d'"
    unfolding closed_id_def by (rule bexI [rotated]) (simp add: redeem_capability_def)
  with that c(2) show thesis by blast
qed

subsection \<open>Tenants\<close>

text \<open>Everything that is stored of an organization.\<close>

definition tenant_rows ::
  "string \<Rightarrow> identity_db \<Rightarrow> organization list \<times> member list \<times> api_credential list \<times> capability list
     \<times> identity_audit_event list" where
  "tenant_rows org d =
     (filter (\<lambda>x. og_id x = org) (id_organizations d), filter (\<lambda>x. mm_organization_id x = org) (id_members d),
      filter (\<lambda>x. ac_organization_id x = org) (id_credentials d), filter (\<lambda>x. cp_organization_id x = org) (id_capabilities d),
      filter (\<lambda>x. ia_organization_id x = org) (id_audit d))"

lemma filter_put_row:
  assumes "distinct (map key xs)" "x \<in> set xs" "key y = key x" "\<not> P x" "\<not> P y"
  shows "filter P (update_where (\<lambda>z. key z = key y) (\<lambda>_. y) xs) = filter P xs"
proof -
  have "z = x" if "z \<in> set xs" "key z = key y" for z
    using row_by_key [OF assms(1) that(1) assms(2)] that(2) assms(3) by simp
  then have "\<forall>z \<in> set xs. P (if key z = key y then y else z) = P z \<and> (P z \<longrightarrow> (if key z = key y then y else z) = z)"
    using assms(4,5) by auto
  then show ?thesis unfolding update_where_def by (induction xs) auto
qed

lemma change_is_local:
  assumes "identity_change lib o' d d'" "identity_ok lib d" "org \<noteq> o'"
  shows "tenant_rows org d' = tenant_rows org d"
  using assms(1)
proof cases
  case (Organization_added row)
  then show ?thesis using assms(3) by (simp add: tenant_rows_def)
next
  case (Organization_named row n actor)
  then have row: "row \<in> set (id_organizations d)" "og_id row = o'" using get_organization_mem by blast+
  then show ?thesis
    using filter_put_row [of og_id "id_organizations d" row "update_organization n actor row" "\<lambda>x. og_id x = org"]
      Organization_named assms(2,3)
    by (simp add: tenant_rows_def put_organization_def update_organization_def identity_ok_def)
next
  case (Member_added subject role actor)
  then show ?thesis using assms(3) by (simp add: tenant_rows_def)
next
  case (Member_changed m role status actor)
  then show ?thesis
    using filter_put_row [of mm_id "id_members d" m "apply_member_update role status actor m" "\<lambda>x. mm_organization_id x = org"]
      assms(2,3)
    by (simp add: tenant_rows_def put_member_def apply_member_update_def identity_ok_def)
next
  case (Credential_issued m env name actor expires_at rotated_from r)
  then show ?thesis
    using issue_credential_row [of lib env m name actor expires_at rotated_from d "fst r" "snd r" d'] assms(3)
    by (simp add: tenant_rows_def)
next
  case (Credential_revoked c now actor reason)
  then show ?thesis
    using filter_put_row [of ac_id "id_credentials d" c "mark_credential_revoked now actor reason c"
        "\<lambda>x. ac_organization_id x = org"] assms(2,3)
    by (simp add: tenant_rows_def put_credential_def mark_credential_revoked_def identity_ok_def)
next
  case (Credential_used c now)
  then show ?thesis
    using filter_put_row [of ac_id "id_credentials d" c "c\<lparr>ac_last_used_at := Some now\<rparr>"
        "\<lambda>x. ac_organization_id x = org"] assms(2,3)
    by (simp add: tenant_rows_def put_credential_def identity_ok_def)
next
  case (Capability_issued member_id env now purpose subject role actor expires_at r)
  then show ?thesis
    using issue_capability_row [of lib env now o' purpose subject role actor expires_at member_id d "fst r" "snd r" d'] assms(3)
    by (simp add: tenant_rows_def)
next
  case (Capability_closed c c' now actor)
  then show ?thesis
    using filter_put_row [of cp_id "id_capabilities d" c c' "\<lambda>x. cp_organization_id x = org"]
      closed_capability_key [OF Capability_closed(4)] assms(2,3)
    by (simp add: tenant_rows_def put_capability_def identity_ok_def)
next
  case Audited
  then show ?thesis using assms(3) by (simp add: tenant_rows_def append_audit_event_def)
qed


subsection \<open>Properties\<close>

lemma not_isl_Inr: "\<not> isl r \<Longrightarrow> \<exists>x. r = Inr x"
  by (cases r) simp_all

text \<open>
  An organization with two administrators, whose UUIDs are all different: the first two have
  the form that tokens carry.
\<close>

definition example_lifecycle_library :: identity_library where
  "example_lifecycle_library = example_identity_library
     \<lparr>il_uuid4 := \<lambda>n. if n = 0 then ''00000000-0000-4000-8000-000000000001'' else replicate (40 + n) CHR ''x''\<rparr>"

definition example_admin :: "string \<Rightarrow> string \<Rightarrow> member" where
  "example_admin i subject = example_member\<lparr>mm_id := i, mm_subject := subject, mm_role := Admin\<rparr>"

definition example_administrator :: principal where
  "example_administrator = (static_principal ''ada'' ''admin'' ''acme'' ''durable'')\<lparr>pr_member_id := Some ''m-1''\<rparr>"

definition example_revoked :: api_credential where
  "example_revoked = mark_credential_revoked 0 ''ada'' None example_credential"

definition example_invitation_token :: string where
  "example_invitation_token = token_text CAPABILITY_TOKEN_PREFIX ''00000000-0000-4000-8000-000000000001'' example_secret"

definition example_invitation :: capability where
  "example_invitation =
     \<lparr>cp_id = ''00000000-0000-4000-8000-000000000001'', cp_organization_id = ''acme'', cp_member_id = None,
      cp_purpose = Invitation, cp_subject = ''eve'', cp_role = Viewer, cp_secret_hash = example_invitation_token,
      cp_status = CapabilityPending, cp_expires_at = seconds 60, cp_redeemed_at = None, cp_revoked_at = None,
      cp_revoked_by = None, cp_created_by = ''ada''\<rparr>"

definition example_tenants :: "api_credential list \<Rightarrow> capability list \<Rightarrow> identity_db" where
  "example_tenants credentials capabilities = example_identities
     \<lparr>id_organizations := [\<lparr>og_id = ''acme'', og_display_name = ''Acme'', og_status = OrganizationActive,
          og_created_by = ''root'', og_updated_by = ''root''\<rparr>, \<lparr>og_id = ''other'', og_display_name = ''Other'',
          og_status = OrganizationActive, og_created_by = ''root'', og_updated_by = ''root''\<rparr>],
      id_members := [example_admin ''m-1'' ''ada'', example_admin ''m-2'' ''bob'',
        (example_admin ''m-3'' ''ada'')\<lparr>mm_organization_id := ''other''\<rparr>],
      id_credentials := credentials, id_capabilities := capabilities\<rparr>"

lemma example_uuids_differ: "inj (il_uuid4 example_lifecycle_library)"
proof (rule injI)
  fix m n
  assume "il_uuid4 example_lifecycle_library m = il_uuid4 example_lifecycle_library n"
  then have "length (il_uuid4 example_lifecycle_library m) = length (il_uuid4 example_lifecycle_library n)" by simp
  then show "m = n" by (simp add: example_lifecycle_library_def split: if_splits)
qed

lemma example_later_uuids:
  "length i < 41 \<Longrightarrow> 1 \<le> n \<Longrightarrow> il_uuid4 example_lifecycle_library n \<noteq> i"
  by (auto simp: example_lifecycle_library_def)

lemma example_tenants_ok:
  "identity_ok example_lifecycle_library (example_tenants [] [])"
  "identity_ok example_lifecycle_library (example_tenants [example_revoked] [])"
  "identity_ok example_lifecycle_library (example_tenants [] [example_invitation])"
  using example_later_uuids
  by (auto simp: identity_ok_def identity_keys_def example_tenants_def example_identities_def example_admin_def
      example_member_def owner_in_def example_revoked_def mark_credential_revoked_def example_credential_def
      example_invitation_def)

text \<open>C11: An organization that has an active administrator never loses its last one, whatever
  requests, redemptions and authentications follow in whatever order.\<close>

theorem organizations_keep_an_admin:
  assumes "inj (il_uuid4 lib)" and "identity_ok lib d" and "(identity_step lib env)\<^sup>*\<^sup>* d d'"
    and "active_admins org d \<noteq> []"
  shows "active_admins org d' \<noteq> []"
  using admins.steps [OF assms(3,1,2,4)] by blast

definition example_suspended :: identity_db where
  "example_suspended =
     (let m = example_admin ''m-2'' ''bob''; m1 = apply_member_update Admin MemberSuspended ''ada'' m
      in append_audit_event ''acme'' ''ada'' ''member_updated'' ''member'' ''m-2'' (Some (member_state m))
           (Some (member_state m1)) (put_member m1 (example_tenants [] [])))"

lemma example_suspension:
  "handle_identity_request example_lifecycle_library (example_production False) 0 example_administrator
     (UpdateMember ''bob'' None (Some MemberSuspended)) (example_tenants [] []) = Inr example_suspended"
  by code_simp

lemma example_administrator_placed: "principal_placed example_administrator (example_tenants cs ps)"
  by (auto simp: principal_placed_def owner_in_def example_administrator_def static_principal_def example_tenants_def
      example_identities_def example_admin_def example_member_def)

text \<open>The second administrator may be suspended; the first may then not step down.\<close>

lemma organizations_keep_an_admin_witness:
  "\<exists>d'. handle_identity_request example_lifecycle_library (example_production False) 0 example_administrator
        (UpdateMember ''bob'' None (Some MemberSuspended)) (example_tenants [] []) = Inr d'
    \<and> active_admins ''acme'' d' \<noteq> []
    \<and> handle_identity_request example_lifecycle_library (example_production False) 0 example_administrator
        (UpdateMember ''ada'' (Some Viewer) None) d'
      = Inl (HttpError 409 ''Cannot remove the last active organization admin'')"
proof (intro exI conjI)
  have before: "active_admins ''acme'' (example_tenants [] []) \<noteq> []" by code_simp
  have "identity_step example_lifecycle_library (example_production False) (example_tenants [] []) example_suspended"
    by (rule Requested [OF example_administrator_placed example_suspension])
  then show "active_admins ''acme'' example_suspended \<noteq> []"
    using organizations_keep_an_admin [OF example_uuids_differ example_tenants_ok(1) _ before] by blast
qed (rule example_suspension, code_simp)

text \<open>C12: Once a credential is revoked, no token and no session of it is accepted again, whatever
  requests, redemptions and authentications follow: there is no way back to active.\<close>

theorem revoked_credentials_stay_revoked:
  assumes "inj (il_uuid4 lib)" and "identity_ok lib d" and "(identity_step lib env)\<^sup>*\<^sup>* d d'"
    and "c \<in> set (id_credentials d)" and "ac_status c = CredentialRevoked"
  shows "(\<forall>now touch token r d2. authenticate_credential lib env now touch token d' = Inr (Some r, d2)
       \<longrightarrow> ai_credential_id r \<noteq> ac_id c)
    \<and> (\<forall>now i v. validate_session_identity now i (ac_id c) v d' = None)"
proof -
  have "revoked_id (ac_id c) d" using assms(4,5) by (auto simp: revoked_id_def)
  then have "identity_ok lib d' \<and> revoked_id (ac_id c) d'"
    using revoked.steps [OF assms(3,1,2)] by blast
  then show ?thesis using revoked_not_authenticated revoked_no_session by blast
qed

text \<open>A session of a revoked credential after a member was added.\<close>

lemma revoked_credentials_stay_revoked_witness:
  "\<exists>d'. handle_identity_request example_lifecycle_library (example_production False) 0 example_administrator
        (CreateMember ''eve'' Viewer) (example_tenants [example_revoked] []) = Inr d'
    \<and> validate_session_identity 0 ''m-1'' (ac_id example_revoked) 3 d' = None"
proof -
  have "\<not> isl (handle_identity_request example_lifecycle_library (example_production False) 0 example_administrator
      (CreateMember ''eve'' Viewer) (example_tenants [example_revoked] []))" by code_simp
  then obtain d' where d': "handle_identity_request example_lifecycle_library (example_production False) 0
      example_administrator (CreateMember ''eve'' Viewer) (example_tenants [example_revoked] []) = Inr d'"
    by (metis not_isl_Inr)
  have "identity_step example_lifecycle_library (example_production False) (example_tenants [example_revoked] []) d'"
    by (rule Requested [OF example_administrator_placed d'])
  then have run: "(identity_step example_lifecycle_library (example_production False))\<^sup>*\<^sup>*
      (example_tenants [example_revoked] []) d'" by blast
  have "example_revoked \<in> set (id_credentials (example_tenants [example_revoked] []))"
    "ac_status example_revoked = CredentialRevoked"
    by (simp_all add: example_tenants_def example_revoked_def mark_credential_revoked_def)
  note revoked_credentials_stay_revoked [OF example_uuids_differ example_tenants_ok(2) run this]
  with d' show ?thesis by blast
qed

text \<open>C34: An invitation or recovery token works once: after a redemption every later one with the
  same token is refused with status 401, whatever happens in between.\<close>

theorem capabilities_are_redeemed_once:
  assumes "inj (il_uuid4 lib)" and "identity_ok lib d"
    and "redeem_identity_capability lib env now token n d = Inr (x, d1)" and "(identity_step lib env)\<^sup>*\<^sup>* d1 d2"
  shows "redeem_identity_capability lib env now' token n' d2 = Inl (HttpError 401 ''Invalid identity capability'')"
  using assms(3,2)
proof (rule redeemed_closed)
  fix i
  assume i: "capability_id_from_token token = Some i" "closed_id i d1"
  obtain org where "(identity_change lib org)\<^sup>*\<^sup>* d d1" using redeem_changes [OF assms(3,2)] by blast
  then have "identity_ok lib d1" using changes_keep [OF _ assms(1,2), of org d1 "\<lambda>_. True"] by blast
  then have "identity_ok lib d2 \<and> closed_id i d2"
    using closed.steps [OF assms(4,1)] i(2) by blast
  then show ?thesis using closed_not_redeemed i(1) by blast
qed

lemma capabilities_are_redeemed_once_witness:
  "\<exists>x d1. redeem_identity_capability example_lifecycle_library (example_production False) 0 example_invitation_token
        ''laptop'' (example_tenants [] [example_invitation]) = Inr (x, d1)
    \<and> redeem_identity_capability example_lifecycle_library (example_production False) 1 example_invitation_token
        ''phone'' d1 = Inl (HttpError 401 ''Invalid identity capability'')"
proof -
  have "\<not> isl (redeem_identity_capability example_lifecycle_library (example_production False) 0
      example_invitation_token ''laptop'' (example_tenants [] [example_invitation]))" by code_simp
  then obtain x d1 where r: "redeem_identity_capability example_lifecycle_library (example_production False) 0
      example_invitation_token ''laptop'' (example_tenants [] [example_invitation]) = Inr (x, d1)"
    by (metis not_isl_Inr surj_pair)
  with capabilities_are_redeemed_once [OF example_uuids_differ example_tenants_ok(3) r rtranclp.rtrancl_refl]
  show ?thesis by blast
qed

text \<open>C10: A request of a tenant's principal leaves every row of every other organization as it
  was: its organization, members, credentials, capabilities and audit events.\<close>

theorem tenants_are_isolated:
  assumes "inj (il_uuid4 lib)" and "identity_ok lib d" and "principal_placed p d"
    and "handle_identity_request lib env now p req d = Inr d'" and "org \<noteq> pr_organization_id p"
  shows "tenant_rows org d' = tenant_rows org d"
  using changes_keep [OF request_changes [OF assms(4,2,3)] assms(1,2), of "\<lambda>x. tenant_rows org x = tenant_rows org d"]
    change_is_local assms(5) by metis

lemma tenants_are_isolated_witness:
  "\<exists>d'. handle_identity_request example_lifecycle_library (example_production False) 0 example_administrator
        (UpdateMember ''bob'' None (Some MemberSuspended)) (example_tenants [] []) = Inr d'
    \<and> tenant_rows ''other'' d' = tenant_rows ''other'' (example_tenants [] [])"
  using tenants_are_isolated [OF example_uuids_differ example_tenants_ok(1) example_administrator_placed example_suspension,
      of "''other''"]
    example_suspension
  by (simp add: example_administrator_def static_principal_def)

end
