(* ===== verification/MissionState.thy ===== *)
theory MissionState
  imports PhaseDag EventContracts MissionCancellation
begin

text \<open>
  The durable state of a mission under status events (\<open>app4-dashboard/api/mission_state.py\<close>,
  \<open>get_or_create_mission\<close> of \<open>shared/database.py\<close>): the overall status of the services, and the
  transaction that applies one validated status event to the mission, its stage run and its log.

  Instants are readings of the clock of the transaction; the event is the validated object.
\<close>

subsection \<open>The overall status\<close>

definition SERVICE_ORDER :: "string list" where
  "SERVICE_ORDER = [''COLMAP'', ''TILER'', ''IA'']"

definition TERMINAL_STATUSES :: "string list" where
  "TERMINAL_STATUSES = [''success'', ''error'', ''cancelled'']"

definition service_status :: "pyval \<Rightarrow> string" where
  "service_status v =
     (case v of
        PDict d \<Rightarrow> (case fmlookup d ''status'' of Some (PStr s) \<Rightarrow> s | _ \<Rightarrow> ''processing'')
      | _ \<Rightarrow> ''processing'')"

text \<open>A facade run ends the mission with the success of its only service.\<close>

definition facade_finished :: "dict \<Rightarrow> bool" where
  "facade_finished services =
     (case dget services ''COLMAP'' of
        PDict colmap \<Rightarrow>
          (case dget colmap ''details'' of
             PDict details \<Rightarrow>
               dget colmap ''status'' = PStr ''success'' \<and> dget details ''process'' = PStr ''facade''
               \<and> dget details ''terminal'' = PBool True
           | _ \<Rightarrow> False)
      | _ \<Rightarrow> False)"

definition some_service :: "string \<Rightarrow> dict \<Rightarrow> bool" where
  "some_service s services \<longleftrightarrow> \<not> fmpred (\<lambda>_ v. service_status v \<noteq> s) services"

definition compute_overall_status :: "dict \<Rightarrow> string" where
  "compute_overall_status services =
     (if services = fmempty then ''idle''
      else if some_service ''error'' services then ''error''
      else if some_service ''cancelled'' services then ''cancelled''
      else if facade_finished services then ''success''
      else if fmpred (\<lambda>_ v. service_status v \<noteq> [] \<longrightarrow> service_status v = ''success'') services
              \<and> list_all (\<lambda>s. fmlookup services s \<noteq> None) SERVICE_ORDER then ''success''
      else ''processing'')"

subsection \<open>The mission of an event\<close>

text \<open>A new mission with the defaults of its columns.\<close>

definition created_mission :: "instant \<Rightarrow> int \<Rightarrow> string \<Rightarrow> string \<Rightarrow> string \<Rightarrow> mission" where
  "created_mission now i organization_id vol_id prefix =
     \<lparr>m_id = i, m_vol_id = vol_id, m_owner_subject = ''local-development'', m_organization_id = organization_id,
      m_status = MissionPending, m_pipeline = ''modern'', m_dataset_id = None, m_input_dataset = None,
      m_workspace_prefix = prefix, m_params = None, m_current_step = None, m_progress = 0, m_retry_count = 0,
      m_service_states = Some fmempty, m_resume_info = None, m_error_message = None, m_total_tiles = None,
      m_tiles_received = 0, m_ortho_s3_key = None, m_tiling_metadata = None,
      m_aggregation_status = AggregationPending, m_aggregation_completed_at = None, m_created_at = now,
      m_updated_at = now\<rparr>"

definition get_or_create_mission :: "instant \<Rightarrow> string \<Rightarrow> string \<Rightarrow> db \<Rightarrow> (mission \<times> db) res" where
  "get_or_create_mission now organization_id vol_id d =
     (case first_row (filter (\<lambda>m. m_organization_id m = organization_id \<and> m_vol_id m = vol_id) (db_missions d)) of
        Some m \<Rightarrow> Inr (m, d)
      | None \<Rightarrow>
          rbind (mission_prefix organization_id vol_id) (\<lambda>prefix.
            (let m = created_mission now (next_id (map m_id (db_missions d))) organization_id vol_id prefix
             in Inr (m, d\<lparr>db_missions := db_missions d @ [m]\<rparr>))))"

subsection \<open>Applying an event\<close>

record mission_log =
  ml_mission_id :: int
  ml_vol_id :: string
  ml_service :: string
  ml_step :: "string option"
  ml_status :: string
  ml_progress :: int
  ml_message :: "string option"
  ml_details :: "dict option"

text \<open>The value of a text column and of an integer column; the database refuses others.\<close>

definition column_text :: "pyval \<Rightarrow> string option res" where
  "column_text v =
     (case v of PNone \<Rightarrow> Inr None | PStr s \<Rightarrow> Inr (Some s) | _ \<Rightarrow> Inl (TypeError ''not a text''))"

definition column_int :: "pyval \<Rightarrow> int res" where
  "column_int v = (case v of PInt i \<Rightarrow> Inr i | _ \<Rightarrow> Inl (TypeError ''not an integer''))"

definition final_mission_status :: "string \<Rightarrow> mission_status option" where
  "final_mission_status s =
     map_of [(''success'', MissionSuccess), (''error'', MissionError), (''cancelled'', MissionCancelled)] s"

definition next_mission_status :: "string \<Rightarrow> string \<Rightarrow> mission_status \<Rightarrow> mission_status" where
  "next_mission_status overall event_status current =
     (case final_mission_status overall of
        Some s \<Rightarrow> s
      | None \<Rightarrow>
          if (current = MissionError \<and> event_status = ''processing'')
             \<or> current \<notin> {MissionSuccess, MissionError, MissionCancelled}
          then MissionProcessing else current)"

definition next_error_message :: "string \<Rightarrow> string \<Rightarrow> string option \<Rightarrow> string option \<Rightarrow> string option" where
  "next_error_message overall event_status log_message current =
     (if event_status = ''error'' \<and> log_message \<noteq> None \<and> log_message \<noteq> Some [] then log_message
      else if overall = ''success'' \<or> event_status = ''cancelled'' \<or> (event_status = ''processing'' \<and> overall \<noteq> ''error'')
      then None else current)"

text \<open>Membership of an unhashable event in the set of command events raises.\<close>

definition next_resume_info :: "dict option \<Rightarrow> dict option \<Rightarrow> dict option res" where
  "next_resume_info details current =
     (case details of
        None \<Rightarrow> Inr current
      | Some d \<Rightarrow>
          (if d = fmempty then Inr current
           else if \<not> hashable (dget d ''event'') then Inl (TypeError ''unhashable type'')
           else if dget d ''event'' \<in> PStr ` {''command_started'', ''command_finished'', ''command_failed'', ''command_cancelled''}
           then Inr (Some (fmupd ''last_command_event'' (PDict d) (dict_or current)))
           else if dget d ''event'' = PStr ''copy_progress''
           then Inr (Some (fmupd ''copy_progress'' (PDict d) (dict_or current)))
           else Inr (Some (dict_or current))))"

definition applied_mission ::
  "instant \<Rightarrow> dict \<Rightarrow> string \<Rightarrow> string option \<Rightarrow> int \<Rightarrow> string \<Rightarrow> string option \<Rightarrow> dict option \<Rightarrow> mission \<Rightarrow> mission res" where
  "applied_mission now payload service step progress event_status log_message details m =
     (let states = fmupd service (PDict payload) (dict_or (m_service_states m));
          overall = compute_overall_status states
      in rbind (next_resume_info details (m_resume_info m)) (\<lambda>resume.
         Inr (m\<lparr>m_service_states := Some states, m_current_step := step, m_progress := progress,
                m_status := next_mission_status overall event_status (m_status m), m_updated_at := now,
                m_error_message := next_error_message overall event_status log_message (m_error_message m),
                m_resume_info := resume\<rparr>)))"

definition apply_mission_state :: "instant \<Rightarrow> dict \<Rightarrow> db \<Rightarrow> (mission_log \<times> db) res" where
  "apply_mission_state now payload d =
     (case dget payload ''vol_id'' of
        PStr vol_id \<Rightarrow>
          (if vol_id = [] then Inl (ValueError ''status event has no vol_id'')
           else
             (let service = py_str (py_or (dget payload ''service'') (PStr ''UNKNOWN''));
                  event_status = py_str (case fmlookup payload ''status'' of None \<Rightarrow> PStr ''processing'' | Some v \<Rightarrow> v);
                  details = (case dget payload ''details'' of PDict x \<Rightarrow> Some x | _ \<Rightarrow> None);
                  organization_id = py_str (py_or (dget payload ''organization_id'') (PStr LEGACY_ORGANIZATION_ID))
              in rbind (column_text (dget payload ''step'')) (\<lambda>step.
                 rbind (case fmlookup payload ''progress'' of None \<Rightarrow> Inr 0 | Some v \<Rightarrow> column_int v) (\<lambda>progress.
                 rbind (column_text (dget payload ''log'')) (\<lambda>log_message.
                 rbind (column_text (dget payload ''stage_run_id'')) (\<lambda>stage_run_id.
                 rbind (get_or_create_mission now organization_id vol_id d) (\<lambda>(m, d1).
                 rbind (applied_mission now payload service step progress event_status log_message details m) (\<lambda>m1.
                   Inr (\<lparr>ml_mission_id = m_id m, ml_vol_id = vol_id, ml_service = service, ml_step = step,
                         ml_status = event_status, ml_progress = progress, ml_message = log_message,
                         ml_details = details\<rparr>,
                     project_status_to_stage_run now m1 service step event_status progress log_message stage_run_id
                       (put_mission m1 d1)))))))))) 
      | _ \<Rightarrow> Inl (ValueError ''status event has no vol_id''))"

subsection \<open>What an event changes\<close>

lemma project_status_frame [simp]:
  "db_missions (project_status_to_stage_run now m s st ev p e rid d) = db_missions d"
proof -
  have "db_missions (foldl (\<lambda>d' s. case latest_of_stage runs s of None \<Rightarrow> d'
      | Some previous \<Rightarrow> put_run (complete_previous now previous) d') d ss) = db_missions d" for runs ss
    by (induction ss rule: rev_induct) (simp_all split: option.split)
  then show ?thesis by (simp add: project_status_to_stage_run_def Let_def split: option.split)
qed

text \<open>The mission an event is about, and the service it comes from.\<close>

definition event_mission :: "db \<Rightarrow> dict \<Rightarrow> mission option" where
  "event_mission d payload =
     first_row (filter (\<lambda>m. m_organization_id m = py_str (py_or (dget payload ''organization_id'') (PStr LEGACY_ORGANIZATION_ID))
       \<and> PStr (m_vol_id m) = dget payload ''vol_id'') (db_missions d))"

definition event_service :: "dict \<Rightarrow> string" where
  "event_service payload = py_str (py_or (dget payload ''service'') (PStr ''UNKNOWN''))"

definition event_status :: "dict \<Rightarrow> string" where
  "event_status payload = py_str (case fmlookup payload ''status'' of None \<Rightarrow> PStr ''processing'' | Some v \<Rightarrow> v)"

lemma apply_mission_state_Inr:
  assumes "apply_mission_state now payload d = Inr (entry, d')" "event_mission d payload = Some m"
  obtains step progress message m' where
    "applied_mission now payload (event_service payload) step progress (event_status payload) message
       (case dget payload ''details'' of PDict x \<Rightarrow> Some x | _ \<Rightarrow> None) m = Inr m'"
    "dget payload ''step'' = opt_str step" "db_missions d' = db_missions (put_mission m' d)"
proof -
  obtain vol where vol: "dget payload ''vol_id'' = PStr vol" "vol \<noteq> []"
    using assms(1) by (auto simp: apply_mission_state_def split: pyval.splits if_splits)
  have found: "first_row (filter (\<lambda>m. m_organization_id m = py_str (py_or (dget payload ''organization_id'') (PStr LEGACY_ORGANIZATION_ID))
       \<and> m_vol_id m = vol) (db_missions d)) = Some m"
    using assms(2) vol by (simp add: event_mission_def)
  obtain step progress message rid m' where
    step: "column_text (dget payload ''step'') = Inr step"
    and m': "applied_mission now payload (event_service payload) step progress (event_status payload) message
       (case dget payload ''details'' of PDict x \<Rightarrow> Some x | _ \<Rightarrow> None) m = Inr m'"
    and d': "d' = project_status_to_stage_run now m' (event_service payload) step (event_status payload) progress message rid
       (put_mission m' d)"
    using assms(1) vol
    by (auto simp: apply_mission_state_def rbind_Inr_iff Let_def get_or_create_mission_def found event_service_def event_status_def)
  have "dget payload ''step'' = opt_str step"
    using step by (auto simp: column_text_def opt_str_def split: pyval.splits)
  with that m' d' show thesis by simp
qed


lemma applied_mission_fields:
  assumes "applied_mission now payload service step progress ev message details m = Inr m'"
  shows "m_id m' = m_id m" "m_vol_id m' = m_vol_id m" "m_organization_id m' = m_organization_id m"
    "m_service_states m' = Some (fmupd service (PDict payload) (dict_or (m_service_states m)))"
    "m_status m' = next_mission_status (compute_overall_status (fmupd service (PDict payload) (dict_or (m_service_states m))))
       ev (m_status m)"
    "m_current_step m' = step"
  using assms by (auto simp: applied_mission_def rbind_Inr_iff Let_def)

lemma event_mission_mem: "event_mission d payload = Some m \<Longrightarrow> m \<in> set (db_missions d)"
  unfolding event_mission_def by (drule first_row_Some_mem) simp

text \<open>
  A status event takes a mission out of the deletion it is in: its status does not stay one of
  the two deletion statuses, and its step becomes the step of the event, whatever marker stood
  there.
\<close>

theorem status_events_undo_deletions:
  assumes "apply_mission_state now payload d = Inr (entry, d')" "event_mission d payload = Some m"
    and "m_status m \<in> {MissionDeleting, MissionDeletionFailed}"
  shows "\<exists>m' \<in> set (db_missions d'). m_id m' = m_id m \<and> m_status m' \<notin> {MissionDeleting, MissionDeletionFailed}
    \<and> opt_str (m_current_step m') = dget payload ''step''"
  using assms(1,2)
proof (rule apply_mission_state_Inr)
  fix step progress message m'
  assume a: "applied_mission now payload (event_service payload) step progress (event_status payload) message
       (case dget payload ''details'' of PDict x \<Rightarrow> Some x | _ \<Rightarrow> None) m = Inr m'"
    and step: "dget payload ''step'' = opt_str step" and d': "db_missions d' = db_missions (put_mission m' d)"
  note fields = applied_mission_fields [OF a]
  have "m_status m' \<notin> {MissionDeleting, MissionDeletionFailed}"
    using assms(3) unfolding fields(5)
    by (auto simp: next_mission_status_def final_mission_status_def split: option.splits if_splits)
  moreover have "m' \<in> set (db_missions d')"
    unfolding d' using missions.put_present [OF event_mission_mem [OF assms(2)]] fields(1) by simp
  ultimately show ?thesis using fields(1,6) step by auto
qed

subsection \<open>Events of several services\<close>

fun apply_events :: "(instant \<times> dict) list \<Rightarrow> db \<Rightarrow> db res" where
  "apply_events [] d = Inr d"
| "apply_events ((now, e) # es) d = rbind (apply_mission_state now e d) (\<lambda>(_, d'). apply_events es d')"

definition last_states :: "dict list \<Rightarrow> dict \<Rightarrow> dict" where
  "last_states es states = foldl (\<lambda>st e. fmupd (event_service e) (PDict e) st) states es"

lemma last_states_lookup:
  "fmlookup (last_states es states) s =
     (case rev (filter (\<lambda>e. event_service e = s) es) of [] \<Rightarrow> fmlookup states s | e # _ \<Rightarrow> Some (PDict e))"
  unfolding last_states_def
  by (induction es arbitrary: states rule: rev_induct) (auto split: list.splits)

text \<open>The events of one mission.\<close>

definition events_of :: "mission \<Rightarrow> (instant \<times> dict) list \<Rightarrow> bool" where
  "events_of m es \<longleftrightarrow> list_all (\<lambda>(_, e). dget e ''vol_id'' = PStr (m_vol_id m)
     \<and> py_str (py_or (dget e ''organization_id'') (PStr LEGACY_ORGANIZATION_ID)) = m_organization_id m) es"

definition missions_distinct :: "db \<Rightarrow> bool" where
  "missions_distinct d \<longleftrightarrow>
     distinct (map m_id (db_missions d)) \<and> distinct (map (\<lambda>m. (m_organization_id m, m_vol_id m)) (db_missions d))"

lemma event_mission_found:
  assumes "missions_distinct d" "m \<in> set (db_missions d)" "events_of m [(t, e)]"
  shows "event_mission d e = Some m"
proof -
  have "filter (\<lambda>x. (m_organization_id x, m_vol_id x) = (m_organization_id m, m_vol_id m)) (db_missions d) = [m]"
    using distinct_filter_one [of "\<lambda>m. (m_organization_id m, m_vol_id m)"] assms(1,2) by (auto simp: missions_distinct_def)
  then show ?thesis using assms(3) by (simp add: event_mission_def events_of_def first_row_def)
qed

lemma apply_event_keeps:
  assumes "apply_mission_state now e d = Inr (entry, d')" "missions_distinct d" "m \<in> set (db_missions d)" "events_of m [(now, e)]"
  obtains m' where "m' \<in> set (db_missions d')" "missions_distinct d'" "m_id m' = m_id m" "m_vol_id m' = m_vol_id m"
    "m_organization_id m' = m_organization_id m"
    "m_service_states m' = Some (fmupd (event_service e) (PDict e) (dict_or (m_service_states m)))"
    "m_status m' = next_mission_status (compute_overall_status (dict_or (m_service_states m'))) (event_status e) (m_status m)"
  using assms(1) event_mission_found [OF assms(2-4)]
proof (rule apply_mission_state_Inr)
  fix step progress message m'
  assume a: "applied_mission now e (event_service e) step progress (event_status e) message
       (case dget e ''details'' of PDict x \<Rightarrow> Some x | _ \<Rightarrow> None) m = Inr m'"
    and d': "db_missions d' = db_missions (put_mission m' d)"
  note fields = applied_mission_fields [OF a]
  have ids: "map m_id (db_missions d') = map m_id (db_missions d)" unfolding d' by (rule missions.keys_put)
  have "z = m" if "z \<in> set (db_missions d)" "m_id z = m_id m'" for z
    using assms(2,3) that fields(1) by (auto simp: missions_distinct_def distinct_map inj_on_def)
  then have "map (\<lambda>m. (m_organization_id m, m_vol_id m)) (db_missions d') = map (\<lambda>m. (m_organization_id m, m_vol_id m)) (db_missions d)"
    unfolding d' missions.rows_put using fields(2,3) by (auto simp: update_where_def)
  then have "missions_distinct d'" using ids assms(2) by (simp add: missions_distinct_def)
  moreover have "m' \<in> set (db_missions d')"
    unfolding d' using missions.put_present [OF assms(3)] fields(1) by simp
  ultimately show thesis using that fields by (simp add: dict_or_def)
qed

lemma apply_events_states:
  assumes "apply_events es d = Inr d'" "missions_distinct d" "m \<in> set (db_missions d)" "events_of m es" "es \<noteq> []"
  shows "\<exists>m' \<in> set (db_missions d'). missions_distinct d' \<and> m_id m' = m_id m
    \<and> m_service_states m' = Some (last_states (map snd es) (dict_or (m_service_states m)))
    \<and> (\<forall>s. final_mission_status (compute_overall_status (last_states (map snd es) (dict_or (m_service_states m)))) = Some s
         \<longrightarrow> m_status m' = s)"
  using assms
proof (induction es arbitrary: d m)
  case (Cons x es)
  obtain now e where x: "x = (now, e)" by (cases x)
  obtain entry d1 where first: "apply_mission_state now e d = Inr (entry, d1)" and rest: "apply_events es d1 = Inr d'"
    using Cons.prems(1) by (auto simp: x rbind_Inr_iff)
  have ev: "events_of m [(now, e)]" "events_of m es" using Cons.prems(4) by (simp_all add: x events_of_def)
  obtain m1 where m1: "m1 \<in> set (db_missions d1)" "missions_distinct d1" "m_id m1 = m_id m" "m_vol_id m1 = m_vol_id m"
    "m_organization_id m1 = m_organization_id m"
    "m_service_states m1 = Some (fmupd (event_service e) (PDict e) (dict_or (m_service_states m)))"
    "m_status m1 = next_mission_status (compute_overall_status (dict_or (m_service_states m1))) (event_status e) (m_status m)"
    using apply_event_keeps [OF first Cons.prems(2,3) ev(1)] by metis
  show ?case
  proof (cases "es = []")
    case True
    then have "d' = d1" using rest by simp
    then show ?thesis using m1 True by (auto simp: x last_states_def dict_or_def next_mission_status_def intro!: bexI [of _ m1])
  next
    case False
    have "events_of m1 es" using ev(2) m1(4,5) by (simp add: events_of_def)
    from Cons.IH [OF rest m1(2,1) this False] show ?thesis using m1(3,6) by (simp add: x last_states_def dict_or_def)
  qed
qed simp



definition example_status :: "string \<Rightarrow> string \<Rightarrow> dict" where
  "example_status service status = fmap_of_list
     [(''vol_id'', PStr ''m-1''), (''organization_id'', PStr ''acme''), (''service'', PStr service),
      (''status'', PStr status), (''step'', PStr ''X''), (''progress'', PInt 50)]"

definition example_state_db :: db where
  "example_state_db = example_cancel_db\<lparr>db_missions := [example_cancelled_mission\<lparr>m_status := MissionPending\<rparr>]\<rparr>"


text \<open>The late event of a mission that retention is deleting.\<close>

lemma example_late_event:
  "\<exists>d'. apply_mission_state 5 (example_status ''IA'' ''processing'')
       (example_state_db\<lparr>db_missions := [example_cancelled_mission\<lparr>m_status := MissionDeleting\<rparr>]\<rparr>) = Inr d'
    \<and> map m_status (db_missions (snd d')) = [MissionProcessing]"
proof -
  let ?r = "apply_mission_state 5 (example_status ''IA'' ''processing'')
       (example_state_db\<lparr>db_missions := [example_cancelled_mission\<lparr>m_status := MissionDeleting\<rparr>]\<rparr>)"
  have "map_sum id (\<lambda>x. map m_status (db_missions (snd x))) ?r = Inr [MissionProcessing]" by code_simp
  then show ?thesis by (cases ?r) auto
qed

end
