(* ===== verification/MissionCommands.thy ===== *)
theory MissionCommands
  imports ApiAnswers AnalysisStages OutboxDelivery MissionState
begin

text \<open>
  The commands on a mission (\<open>routers/missions.py\<close>, \<open>mission_access.py\<close>, \<open>access_audit.py\<close> and
  \<open>analysis_support.py\<close> of the API, \<open>shared/access_audit.py\<close>): owner-scoped lookup with audited
  delegation to administrators, cancellation, and the request to delete a mission.

  The state of a command is the database, the outbox, the audit of delegations and the number of
  random UUIDs drawn for events. A command that raises leaves all of it as it was.
\<close>

subsection \<open>Owners and delegation\<close>

record access_audit_event =
  aa_organization_id :: string
  aa_actor_subject :: string
  aa_actor_role :: string
  aa_actor_realm :: string
  aa_actor_member_id :: "string option"
  aa_actor_credential_id :: "string option"
  aa_action :: string
  aa_target_owner_subject :: string
  aa_resource_type :: string
  aa_resource_id :: "string option"
  aa_outcome :: string

record command_state =
  cs_db :: db
  cs_outbox :: "outbox_event list"
  cs_audit :: "access_audit_event list"
  cs_uuids :: nat

definition record_cross_member_access ::
  "principal \<Rightarrow> string \<Rightarrow> string \<Rightarrow> string \<Rightarrow> string option \<Rightarrow> command_state \<Rightarrow> command_state" where
  "record_cross_member_access p action owner resource_type resource_id s =
     s\<lparr>cs_audit := cs_audit s @ [\<lparr>aa_organization_id = pr_organization_id p, aa_actor_subject = pr_subject p,
         aa_actor_role = pr_role p, aa_actor_realm = pr_realm p, aa_actor_member_id = pr_member_id p,
         aa_actor_credential_id = pr_credential_id p, aa_action = action, aa_target_owner_subject = owner,
         aa_resource_type = resource_type, aa_resource_id = resource_id, aa_outcome = ''authorized''\<rparr>]\<rparr>"

definition resolve_owner_subject ::
  "principal \<Rightarrow> string option \<Rightarrow> string \<Rightarrow> string option \<Rightarrow> bool \<Rightarrow> command_state \<Rightarrow> (string \<times> command_state) api" where
  "resolve_owner_subject p requested action vol_id audited s =
     (let owner = str_strip (if given_text requested \<noteq> [] then given_text requested else pr_subject p)
      in if owner = [] then Inl (HttpError 400 ''Owner subject cannot be empty'')
         else if owner = pr_subject p then Inr (owner, s)
         else if pr_role p \<noteq> ''admin'' then Inl (HttpError 404 ''Mission not found'')
         else if \<not> audited
         then Inl (ServerError (RuntimeError ''Cross-member mission access requires a durable audit session''))
         else Inr (owner, record_cross_member_access p action owner ''mission'' vol_id s))"

definition owned_missions :: "principal \<Rightarrow> string \<Rightarrow> db \<Rightarrow> mission list" where
  "owned_missions p owner d =
     filter (\<lambda>m. m_organization_id m = pr_organization_id p \<and> m_owner_subject m = owner) (db_missions d)"

definition find_mission ::
  "principal \<Rightarrow> string \<Rightarrow> string option \<Rightarrow> string \<Rightarrow> command_state \<Rightarrow> (mission option \<times> command_state) api" where
  "find_mission p vol_id requested action s =
     abind (resolve_owner_subject p requested action (Some vol_id) True s) (\<lambda>(owner, s1).
       Inr (first_row (filter (\<lambda>m. m_vol_id m = vol_id) (owned_missions p owner (cs_db s1))), s1))"

definition get_owned_mission ::
  "principal \<Rightarrow> string \<Rightarrow> string option \<Rightarrow> string \<Rightarrow> command_state \<Rightarrow> (mission \<times> command_state) api" where
  "get_owned_mission p vol_id requested action s =
     abind (find_mission p vol_id requested action s) (\<lambda>(found, s1).
     abind (require_some found 404 ''Mission not found'') (\<lambda>m. Inr (m, s1)))"

subsection \<open>Cancellation\<close>

definition TOPIC_CONTROL :: string where
  "TOPIC_CONTROL = ''pipeline-control''"

definition MANUAL_DELETION_STEP :: string where
  "MANUAL_DELETION_STEP = ''DELETION_REQUESTED''"

definition MANUAL_DELETION_FAILED_STEP :: string where
  "MANUAL_DELETION_FAILED_STEP = ''MANUAL_DELETION_FAILED''"

definition attempt_of :: "mission \<Rightarrow> attempt_key" where
  "attempt_of m = \<lparr>ak_organization = Some (m_organization_id m), ak_vol_id = m_vol_id m, ak_run_id = None,
     ak_attempt = m_retry_count m\<rparr>"

text \<open>The cancel event of the attempt, in the outbox of the same transaction.\<close>

definition enqueue_cancel ::
  "event_library \<Rightarrow> (nat \<Rightarrow> string) \<Rightarrow> instant \<Rightarrow> principal \<Rightarrow> mission \<Rightarrow> command_state \<Rightarrow> command_state api" where
  "enqueue_cancel lib uuid4 now p m s =
     (case build_cancel_event lib uuid4 now (m_vol_id m) (m_organization_id m) (m_retry_count m) (cs_uuids s) of
        (event, n) \<Rightarrow>
          abind (served event) (\<lambda>e.
          abind (served (tenant_mission_key (m_organization_id m) (m_vol_id m))) (\<lambda>key.
          abind (served (enqueue_outbox lib (Some (pr_organization_id p)) TOPIC_CONTROL (PDict e) (Some key) now
                   (cs_outbox s))) (\<lambda>(_, rows). Inr (s\<lparr>cs_outbox := rows, cs_uuids := n\<rparr>)))))"

definition cancel_mission ::
  "event_library \<Rightarrow> (nat \<Rightarrow> string) \<Rightarrow> instant \<Rightarrow> string \<Rightarrow> string option \<Rightarrow> principal \<Rightarrow> command_state
     \<Rightarrow> (unit \<times> command_state) api" where
  "cancel_mission lib uuid4 now vol_id owner who s =
     abind (require_role ''operator'' who) (\<lambda>p.
     abind (find_mission p vol_id owner ''cancel'' s) (\<lambda>(found, s1).
     abind (require_some found 404 (''Mission '' @ vol_id @ '' not found'')) (\<lambda>m.
       (case mark_cancellation_requested (attempt_of m) now (cs_db s1) of
          (False, _) \<Rightarrow> Inl (HttpError 409 (''Mission '' @ vol_id @ '' changed generation before cancellation''))
        | (True, d) \<Rightarrow> abind (enqueue_cancel lib uuid4 now p m (s1\<lparr>cs_db := d\<rparr>)) (\<lambda>s2. Inr ((), s2))))))"

subsection \<open>Deletion\<close>

definition active_analysis :: "analysis \<Rightarrow> bool" where
  "active_analysis a \<longleftrightarrow> ar_status a \<in> {AnalysisQueued, AnalysisTiling, AnalysisRunning, AnalysisFinalizing}"

fun cancel_analyses :: "world \<Rightarrow> instant \<Rightarrow> analysis list \<Rightarrow> db \<Rightarrow> (int \<times> db) res" where
  "cancel_analyses w now [] d = Inr (0, d)"
| "cancel_analyses w now (a # as) d =
     rbind (cancel_analysis_stages w now a d) (\<lambda>(b, d1).
     rbind (cancel_analyses w now as d1) (\<lambda>(n, d2). Inr ((if b then n + 1 else n), d2)))"

definition request_mission_analysis_cancellations :: "world \<Rightarrow> instant \<Rightarrow> int \<Rightarrow> db \<Rightarrow> (int \<times> db) res" where
  "request_mission_analysis_cancellations w now mission_id d =
     cancel_analyses w now (filter (\<lambda>a. ar_mission_id a = mission_id \<and> active_analysis a) (db_analyses d)) d"

definition active_run :: "stage_run \<Rightarrow> bool" where
  "active_run r \<longleftrightarrow> sr_status r \<in> {Queued, Running}"

definition cancel_active_runs :: "instant \<Rightarrow> int \<Rightarrow> db \<Rightarrow> db" where
  "cancel_active_runs now mission_id d =
     d\<lparr>db_runs := update_where (\<lambda>r. sr_mission_id r = mission_id \<and> active_run r)
         (\<lambda>r. r\<lparr>sr_status := Cancelled, sr_completed_at := Some now\<rparr>) (db_runs d)\<rparr>"

definition set_step :: "string \<Rightarrow> int \<Rightarrow> db \<Rightarrow> db" where
  "set_step step mission_id d =
     d\<lparr>db_missions := update_where (\<lambda>x. m_id x = mission_id) (\<lambda>x. x\<lparr>m_current_step := Some step\<rparr>) (db_missions d)\<rparr>"

definition deletion_started :: "mission \<Rightarrow> bool" where
  "deletion_started m \<longleftrightarrow>
     m_current_step m = Some MANUAL_DELETION_STEP \<or> m_status m \<in> {MissionDeleting, MissionDeletionFailed}"

text \<open>The answer says whether the mission exists.\<close>

definition delete_mission ::
  "event_library \<Rightarrow> world \<Rightarrow> (nat \<Rightarrow> string) \<Rightarrow> instant \<Rightarrow> string \<Rightarrow> string option \<Rightarrow> principal \<Rightarrow> command_state
     \<Rightarrow> (bool \<times> command_state) api" where
  "delete_mission lib w uuid4 now vol_id owner who s =
     abind (require_role ''admin'' who) (\<lambda>p.
     abind (find_mission p vol_id owner ''delete'' s) (\<lambda>(found, s1).
       (case found of
          None \<Rightarrow> Inr (False, s1)
        | Some m \<Rightarrow>
            if deletion_started m then Inr (True, s1)
            else
              (case mark_cancellation_requested (attempt_of m) now (cs_db s1) of
                 (False, _) \<Rightarrow> Inl (HttpError 409 (''Mission '' @ vol_id @ '' changed generation before deletion''))
               | (True, d) \<Rightarrow>
                   abind (served (request_mission_analysis_cancellations w now (m_id m) (cancel_active_runs now (m_id m) d))) (\<lambda>(_, d1).
                   abind (enqueue_cancel lib uuid4 now p m (s1\<lparr>cs_db := set_step MANUAL_DELETION_STEP (m_id m) d1\<rparr>)) (\<lambda>s2.
                     Inr (True, s2)))))))"

subsection \<open>What cancelling analyses changes\<close>

text \<open>
  Cancelling the analyses of a mission only takes runs of that mission out of the states from
  which work can start or go on.
\<close>

definition only_cancels :: "int \<Rightarrow> db \<Rightarrow> db \<Rightarrow> bool" where
  "only_cancels mid d d' \<longleftrightarrow>
     map sr_id (db_runs d') = map sr_id (db_runs d) \<and> db_missions d' = db_missions d \<and> db_artifacts d' = db_artifacts d
     \<and> db_parents d' = db_parents d \<and> db_policies d' = db_policies d
     \<and> (\<forall>r \<in> set (db_runs d'). sr_mission_id r \<noteq> mid \<or> cancellable (sr_status r) \<longrightarrow> r \<in> set (db_runs d))
     \<and> (\<forall>r \<in> set (db_runs d). sr_mission_id r \<noteq> mid \<longrightarrow> r \<in> set (db_runs d'))"

lemma only_cancels_refl [simp]: "only_cancels mid d d"
  by (simp add: only_cancels_def)

lemma only_cancels_runs:
  "only_cancels mid d d' \<Longrightarrow> r \<in> set (db_runs d') \<Longrightarrow> sr_mission_id r \<noteq> mid \<or> cancellable (sr_status r) \<Longrightarrow> r \<in> set (db_runs d)"
  "only_cancels mid d d' \<Longrightarrow> r \<in> set (db_runs d) \<Longrightarrow> sr_mission_id r \<noteq> mid \<Longrightarrow> r \<in> set (db_runs d')"
  by (simp_all add: only_cancels_def)

lemma only_cancels_trans:
  assumes "only_cancels mid d d1" "only_cancels mid d1 d2"
  shows "only_cancels mid d d2"
  unfolding only_cancels_def
proof (intro conjI ballI impI)
  fix r
  assume "r \<in> set (db_runs d2)" and c: "sr_mission_id r \<noteq> mid \<or> cancellable (sr_status r)"
  then show "r \<in> set (db_runs d)" using only_cancels_runs(1) [OF assms(1) _ c] only_cancels_runs(1) [OF assms(2) _ c] by blast
next
  fix r
  assume "r \<in> set (db_runs d)" and c: "sr_mission_id r \<noteq> mid"
  then show "r \<in> set (db_runs d2)" using only_cancels_runs(2) [OF assms(1) _ c] only_cancels_runs(2) [OF assms(2) _ c] by blast
qed (use assms in \<open>simp_all add: only_cancels_def\<close>)

lemma put_only_cancels:
  assumes "distinct (map sr_id (db_runs d))" "x \<in> set (db_runs d)" "sr_id r = sr_id x" "sr_mission_id x = mid"
    "sr_mission_id r = mid" "\<not> cancellable (sr_status r)"
  shows "only_cancels mid d (put_run r d)"
proof -
  have "r' \<in> set (db_runs (put_run r d))" if "r' \<in> set (db_runs d)" "sr_mission_id r' \<noteq> mid" for r'
  proof -
    have "sr_id r' \<noteq> sr_id r" using assms(1-4) that by (auto simp: distinct_map inj_on_def)
    then show ?thesis using runs.put_other that(1) by blast
  qed
  moreover have "map sr_id (db_runs (put_run r d)) = map sr_id (db_runs d)" by (rule runs.keys_put)
  moreover have "r' \<in> set (db_runs d)"
    if "r' \<in> set (db_runs (put_run r d))" "sr_mission_id r' \<noteq> mid \<or> cancellable (sr_status r')" for r'
    using runs.put_member [OF that(1)] that(2) assms(5,6) by auto
  ultimately show ?thesis by (simp add: only_cancels_def)
qed

lemma sync_only_cancels:
  assumes "sync_analysis_stage w now stage d = Inr (stage', d')" "distinct (map sr_id (db_runs d))"
    "stage \<in> set (db_runs d)" "sr_mission_id stage = mid" "\<not> cancellable (sr_status stage)"
  shows "only_cancels mid d d'"
  using assms(1)
proof (cases rule: sync_cases)
  case (Current a a')
  have "only_cancels mid d (put_run stage' d)"
    using assms(2-5) sync_ids(2,4,11) [OF assms(1)] by (intro put_only_cancels [of d stage]) simp_all
  then show ?thesis using Current(5) by (simp add: only_cancels_def)
qed simp_all

lemma cancel_stages_only:
  assumes "cancel_stages w now stages d = Inr (stages', d')" "distinct (map sr_id (db_runs d))"
    "distinct (map sr_id stages)" "set stages \<subseteq> set (db_runs d)" "\<forall>s \<in> set stages. sr_mission_id s = mid"
  shows "only_cancels mid d d' \<and> set stages' \<subseteq> set (db_runs d') \<and> (\<forall>s \<in> set stages'. sr_mission_id s = mid)
    \<and> map sr_id stages' = map sr_id stages \<and> (\<forall>r \<in> set (db_runs d). sr_id r \<notin> sr_id ` set stages \<longrightarrow> r \<in> set (db_runs d'))"
  using assms
proof (induction stages arbitrary: stages' d)
  case (Cons s ss)
  show ?case
  proof (cases "cancellable (sr_status s)")
    case False
    then obtain ss' where rest: "cancel_stages w now ss d = Inr (ss', d')" and eq: "stages' = s # ss'"
      using Cons.prems(1) by (auto simp: rbind_Inr_iff)
    have "s \<in> set (db_runs d)" "sr_id s \<notin> sr_id ` set ss" using Cons.prems(3,4) by auto
    then show ?thesis using Cons.IH [OF rest Cons.prems(2)] Cons.prems(3-5) eq by auto
  next
    case True
    let ?c = "cancel_run now s"
    obtain s' d1 ss' where sync: "sync_analysis_stage w now ?c (put_run ?c d) = Inr (s', d1)"
      and rest: "cancel_stages w now ss d1 = Inr (ss', d')" and eq: "stages' = s' # ss'"
      using True Cons.prems(1) by (auto simp: rbind_Inr_iff)
    have c: "sr_mission_id ?c = mid" "\<not> cancellable (sr_status ?c)" "?c \<in> set (db_runs (put_run ?c d))"
      using Cons.prems(4,5) runs.put_present [of s d ?c] by (simp_all add: cancel_run_def cancellable_def)
    have put: "only_cancels mid d (put_run ?c d)"
      using Cons.prems(2,4,5) c by (intro put_only_cancels [of d s]) simp_all
    have ids: "distinct (map sr_id (db_runs (put_run ?c d)))" using put Cons.prems(2) by (simp add: only_cancels_def)
    note one = only_cancels_trans [OF put sync_only_cancels [OF sync ids c(3,1,2)]]
    have ids1: "distinct (map sr_id (db_runs d1))" using one Cons.prems(2) by (simp add: only_cancels_def)
    have others: "r \<in> set (db_runs d1)" if "r \<in> set (db_runs d)" "sr_id r \<noteq> sr_id s" for r
      using sync_rows(2) [OF sync c(3)] runs.put_other [OF that(1), of ?c] that(2) by simp
    have s': "s' \<in> set (db_runs d1)" "sr_mission_id s' = mid" "sr_id s' = sr_id s"
      using sync_rows(1) [OF sync c(3)] sync_ids(2,11) [OF sync] c(1) by simp_all
    have "sr_id x \<noteq> sr_id s" if "x \<in> set ss" for x using Cons.prems(3) that by (metis distinct.simps(2) image_eqI list.simps(9) set_map)
    then have "set ss \<subseteq> set (db_runs d1)" using Cons.prems(4) others by (meson list.set_intros(2) subset_iff)
    from Cons.IH [OF rest ids1 _ this] Cons.prems(3,5)
    have IH: "only_cancels mid d1 d'" "set ss' \<subseteq> set (db_runs d')" "\<forall>s \<in> set ss'. sr_mission_id s = mid"
      "map sr_id ss' = map sr_id ss" "\<forall>r \<in> set (db_runs d1). sr_id r \<notin> sr_id ` set ss \<longrightarrow> r \<in> set (db_runs d')" by auto
    have "s' \<in> set (db_runs d')" using IH(5) s' Cons.prems(3) by auto
    then show ?thesis using IH s' one only_cancels_trans others by (auto simp: eq)
  qed
qed simp

lemma cancel_analysis_only:
  assumes "cancel_analysis_stages w now a d = Inr (b, d')" "distinct (map sr_id (db_runs d))" "ar_mission_id a = mid"
  shows "only_cancels mid d d'"
proof (cases b)
  case False
  then have "d' = d" using assms(1) by (auto simp: cancel_analysis_stages_def rbind_Inr_iff Let_def split: list.splits if_splits)
  then show ?thesis by simp
next
  case True
  then obtain stages' d1 s2 where c: "cancel_stages w now (analysis_stages d a) d = Inr (stages', d1)"
    and sync: "sync_analysis_stage w now (hd stages') d1 = Inr (s2, d')" and ne: "analysis_stages d a \<noteq> []"
    using assms(1) by (auto simp: cancel_analysis_stages_def rbind_Inr_iff Let_def split: list.splits if_splits)
  have sub: "set (analysis_stages d a) \<subseteq> set (db_runs d)" "\<forall>s \<in> set (analysis_stages d a). sr_mission_id s = mid"
    using assms(3) analysis_stages_set [of d a] by auto
  note dis = analysis_stages_distinct [OF assms(2), of a]
  note only = cancel_stages_only [OF c assms(2) dis sub]
  have "length stages' = length (analysis_stages d a)" using only by (metis length_map)
  then have hd: "hd stages' \<in> set stages'" using ne by (cases stages') auto
  have "\<not> cancellable (sr_status (hd stages'))"
    using cancel_stages_rows [OF c assms(2) dis sub(1)] hd by (auto simp: list_all_iff)
  moreover have "distinct (map sr_id (db_runs d1))" using only assms(2) by (simp add: only_cancels_def)
  ultimately have "only_cancels mid d1 d'" using sync_only_cancels [OF sync] only hd by auto
  with only show ?thesis using only_cancels_trans by blast
qed

lemma cancel_analyses_only:
  assumes "cancel_analyses w now as d = Inr (n, d')" "distinct (map sr_id (db_runs d))" "\<forall>a \<in> set as. ar_mission_id a = mid"
  shows "only_cancels mid d d'"
  using assms
proof (induction as arbitrary: d n)
  case (Cons a as)
  obtain b d1 n' where first: "cancel_analysis_stages w now a d = Inr (b, d1)" and rest: "cancel_analyses w now as d1 = Inr (n', d')"
    using Cons.prems(1) by (auto simp: rbind_Inr_iff split: if_splits)
  have one: "only_cancels mid d d1" using cancel_analysis_only [OF first Cons.prems(2)] Cons.prems(3) by simp
  then have "distinct (map sr_id (db_runs d1))" using Cons.prems(2) by (simp add: only_cancels_def)
  from Cons.IH [OF rest this] Cons.prems(3) one show ?case using only_cancels_trans by auto
qed simp

lemma request_cancellations_only:
  "request_mission_analysis_cancellations w now mid d = Inr (n, d') \<Longrightarrow> distinct (map sr_id (db_runs d)) \<Longrightarrow>
   only_cancels mid d d'"
  unfolding request_mission_analysis_cancellations_def by (erule cancel_analyses_only) simp_all

subsection \<open>Ownership\<close>

lemma enqueue_cancel_frame: "enqueue_cancel lib uuid4 now p m s = Inr s' \<Longrightarrow> cs_db s' = cs_db s \<and> cs_audit s' = cs_audit s"
  by (auto simp: enqueue_cancel_def abind_Inr_iff split: prod.splits)

lemma resolve_owner_Inr:
  assumes "resolve_owner_subject p requested action vol_id audited s = Inr (owner, s1)"
  shows "cs_db s1 = cs_db s \<and> (owner = pr_subject p \<and> s1 = s
    \<or> owner \<noteq> pr_subject p \<and> pr_role p = ''admin'' \<and> s1 = record_cross_member_access p action owner ''mission'' vol_id s)"
  using assms by (auto simp: resolve_owner_subject_def Let_def record_cross_member_access_def split: if_splits)

lemma find_mission_Inr:
  assumes "find_mission p vol_id requested action s = Inr (found, s1)"
  obtains owner where "resolve_owner_subject p requested action (Some vol_id) True s = Inr (owner, s1)"
    "\<And>m. found = Some m \<Longrightarrow> m \<in> set (db_missions (cs_db s)) \<and> m_vol_id m = vol_id
       \<and> m_organization_id m = pr_organization_id p \<and> m_owner_subject m = owner"
proof -
  obtain owner where o: "resolve_owner_subject p requested action (Some vol_id) True s = Inr (owner, s1)"
    and f: "found = first_row (filter (\<lambda>m. m_vol_id m = vol_id) (owned_missions p owner (cs_db s1)))"
    using assms by (auto simp: find_mission_def abind_Inr_iff)
  have "cs_db s1 = cs_db s" using resolve_owner_Inr [OF o] by simp
  then have "m \<in> set (db_missions (cs_db s)) \<and> m_vol_id m = vol_id \<and> m_organization_id m = pr_organization_id p
      \<and> m_owner_subject m = owner" if "found = Some m" for m
    using first_row_Some_mem [of "filter (\<lambda>m. m_vol_id m = vol_id) (owned_missions p owner (cs_db s1))" m] f that
    by (simp add: owned_missions_def)
  with that o show thesis by blast
qed

text \<open>Who may act on a mission: its owner, or an administrator of its organization whose access is recorded.\<close>

definition access_recorded :: "principal \<Rightarrow> string \<Rightarrow> mission \<Rightarrow> access_audit_event list \<Rightarrow> bool" where
  "access_recorded p action m events \<longleftrightarrow>
     m_organization_id m = pr_organization_id p
     \<and> (m_owner_subject m = pr_subject p
        \<or> pr_role p = ''admin''
          \<and> list_ex (\<lambda>e. aa_organization_id e = m_organization_id m \<and> aa_actor_subject e = pr_subject p \<and> aa_action e = action
               \<and> aa_target_owner_subject e = m_owner_subject m \<and> aa_resource_id e = Some (m_vol_id m)) events)"

lemma found_access_recorded:
  assumes "find_mission p vol_id requested action s = Inr (Some m, s1)"
  shows "access_recorded p action m (cs_audit s1) \<and> cs_db s1 = cs_db s \<and> m \<in> set (db_missions (cs_db s)) \<and> m_vol_id m = vol_id"
  using assms
proof (rule find_mission_Inr)
  fix owner
  assume o: "resolve_owner_subject p requested action (Some vol_id) True s = Inr (owner, s1)"
    and m: "\<And>m'. Some m = Some m' \<Longrightarrow> m' \<in> set (db_missions (cs_db s)) \<and> m_vol_id m' = vol_id
       \<and> m_organization_id m' = pr_organization_id p \<and> m_owner_subject m' = owner"
  show ?thesis using resolve_owner_Inr [OF o] m [OF refl]
    by (auto simp: access_recorded_def record_cross_member_access_def)
qed

lemma enqueue_cancel_organization: "enqueue_cancel lib uuid4 now p m s = Inr s' \<Longrightarrow> m_organization_id m \<noteq> []"
  by (auto simp: enqueue_cancel_def abind_Inr_iff tenant_mission_key_def rbind_Inr_iff validate_organization_id_Inr
      str_strip_def str_rstrip_def str_lstrip_def organization_id_pattern_def split: prod.splits if_splits)

lemma mark_attempt:
  assumes "mark_cancellation_requested (attempt_of m) now d = (True, d')" "m \<in> set (db_missions d)" "missions_distinct d"
    "m_organization_id m \<noteq> []"
  shows "d' = d\<lparr>db_missions := update_where (\<lambda>x. m_id x = m_id m)
      (\<lambda>x. x\<lparr>m_status := MissionCancelled, m_error_message := None, m_current_step := Some ''CANCELLATION_REQUESTED'',
             m_updated_at := now\<rparr>) (db_missions d)\<rparr>"
proof -
  have "filter (\<lambda>x. (m_organization_id x, m_vol_id x) = (m_organization_id m, m_vol_id m)) (db_missions d) = [m]"
    using distinct_filter_one [of "\<lambda>m. (m_organization_id m, m_vol_id m)"] assms(2,3) by (auto simp: missions_distinct_def)
  then have "filter (\<lambda>x. m_vol_id x = m_vol_id m \<and> m_organization_id x = m_organization_id m) (db_missions d) = [m]"
    by (simp add: conj_commute)
  then have "cancellation_record (attempt_of m) d = Some (MissionTarget m)"
    using assms(4) by (simp add: cancellation_record_def attempt_of_def target_organization_def first_row_def)
  then show ?thesis using assms(1) by (simp add: mark_cancellation_requested_def split: if_splits)
qed

text \<open>What a command did to the mission it found; every other mission is as it was.\<close>

definition only_mission :: "int \<Rightarrow> db \<Rightarrow> db \<Rightarrow> bool" where
  "only_mission i d d' \<longleftrightarrow> filter (\<lambda>m. m_id m \<noteq> i) (db_missions d') = filter (\<lambda>m. m_id m \<noteq> i) (db_missions d)"

lemma only_mission_update:
  "(\<And>x. m_id (f x) = m_id x) \<Longrightarrow> filter (\<lambda>m. m_id m \<noteq> i) (update_where (\<lambda>x. m_id x = i) f ms) = filter (\<lambda>m. m_id m \<noteq> i) ms"
  by (induction ms) auto

lemma cancel_mission_Inr:
  assumes "cancel_mission lib uuid4 now vol_id owner p s = Inr (u, s')"
  obtains m s1 d where "find_mission p vol_id owner ''cancel'' s = Inr (Some m, s1)"
    "mark_cancellation_requested (attempt_of m) now (cs_db s1) = (True, d)"
    "enqueue_cancel lib uuid4 now p m (s1\<lparr>cs_db := d\<rparr>) = Inr s'"
proof -
  obtain m s1 where found: "find_mission p vol_id owner ''cancel'' s = Inr (Some m, s1)"
    using assms require_role_Inr [of "''operator''" p] by (auto simp: cancel_mission_def abind_Inr_iff)
  obtain q where q: "require_role ''operator'' p = Inr q" using assms by (auto simp: cancel_mission_def abind_Inr_iff)
  then have qp: "q = p" using require_role_Inr by blast
  obtain b d where mark: "mark_cancellation_requested (attempt_of m) now (cs_db s1) = (b, d)" by fastforce
  with assms found q qp have "b" "enqueue_cancel lib uuid4 now p m (s1\<lparr>cs_db := d\<rparr>) = Inr s'"
    by (auto simp: cancel_mission_def abind_Inr_iff split: bool.splits)
  with that found mark show thesis by simp
qed

text \<open>A deletion that was not under way: the transaction step by step.\<close>

lemma delete_mission_Inr:
  assumes "delete_mission lib w uuid4 now vol_id owner p s = Inr (True, s')"
  obtains (Started) m where "find_mission p vol_id owner ''delete'' s = Inr (Some m, s')" "deletion_started m"
    | (Requested) m s1 d n d1 where "find_mission p vol_id owner ''delete'' s = Inr (Some m, s1)"
      "\<not> deletion_started m" "mark_cancellation_requested (attempt_of m) now (cs_db s1) = (True, d)"
      "request_mission_analysis_cancellations w now (m_id m) (cancel_active_runs now (m_id m) d) = Inr (n, d1)"
      "enqueue_cancel lib uuid4 now p m (s1\<lparr>cs_db := set_step MANUAL_DELETION_STEP (m_id m) d1\<rparr>) = Inr s'"
proof -
  obtain m s1 where found: "find_mission p vol_id owner ''delete'' s = Inr (Some m, s1)"
    using assms require_role_Inr [of "''admin''" p]
    by (auto simp: delete_mission_def abind_Inr_iff split: option.splits)
  obtain q where q: "require_role ''admin'' p = Inr q" using assms by (auto simp: delete_mission_def abind_Inr_iff)
  then have qp: "q = p" using require_role_Inr by blast
  show thesis
  proof (cases "deletion_started m")
    case True
    then show thesis using Started [of m] assms found q qp by (simp add: delete_mission_def)
  next
    case False
    obtain b d where mark: "mark_cancellation_requested (attempt_of m) now (cs_db s1) = (b, d)" by fastforce
    show thesis
    proof (cases b)
      case False
      then show thesis using assms found q qp mark \<open>\<not> deletion_started m\<close> by (simp add: delete_mission_def)
    next
      case True
      with assms found q qp mark \<open>\<not> deletion_started m\<close> obtain n d1 where
        "request_mission_analysis_cancellations w now (m_id m) (cancel_active_runs now (m_id m) d) = Inr (n, d1)"
        "enqueue_cancel lib uuid4 now p m (s1\<lparr>cs_db := set_step MANUAL_DELETION_STEP (m_id m) d1\<rparr>) = Inr s'"
        by (auto simp: delete_mission_def abind_Inr_iff)
      then show thesis using Requested [OF found \<open>\<not> deletion_started m\<close>] mark True by simp
    qed
  qed
qed


lemma update_where_filter_other:
  "(\<And>x. P x \<Longrightarrow> \<not> Q x) \<Longrightarrow> (\<And>x. P x \<Longrightarrow> \<not> Q (f x)) \<Longrightarrow> filter Q (update_where P f xs) = filter Q xs"
  by (induction xs) auto

text \<open>The runs of other missions.\<close>

definition same_runs_elsewhere :: "int \<Rightarrow> db \<Rightarrow> db \<Rightarrow> bool" where
  "same_runs_elsewhere i d d' \<longleftrightarrow> (\<forall>r. sr_mission_id r \<noteq> i \<longrightarrow> (r \<in> set (db_runs d') \<longleftrightarrow> r \<in> set (db_runs d)))"

lemma cancel_active_runs_facts:
  "map sr_id (db_runs (cancel_active_runs now i d)) = map sr_id (db_runs d)"
  "db_missions (cancel_active_runs now i d) = db_missions d"
  "same_runs_elsewhere i d (cancel_active_runs now i d)"
  "r \<in> set (db_runs (cancel_active_runs now i d)) \<Longrightarrow> sr_mission_id r = i \<Longrightarrow> \<not> active_run r"
proof -
  let ?new = "\<lambda>r. if sr_mission_id r = i \<and> active_run r then r\<lparr>sr_status := Cancelled, sr_completed_at := Some now\<rparr> else r"
  have runs: "db_runs (cancel_active_runs now i d) = map ?new (db_runs d)"
    by (simp add: cancel_active_runs_def update_where_def)
  then show "map sr_id (db_runs (cancel_active_runs now i d)) = map sr_id (db_runs d)" by simp
  show "db_missions (cancel_active_runs now i d) = db_missions d" by (simp add: cancel_active_runs_def)
  show "same_runs_elsewhere i d (cancel_active_runs now i d)"
    unfolding same_runs_elsewhere_def
  proof (intro allI impI iffI)
    fix r
    assume i: "sr_mission_id r \<noteq> i" and "r \<in> set (db_runs (cancel_active_runs now i d))"
    then obtain r0 where "r0 \<in> set (db_runs d)" "r = ?new r0" unfolding runs set_map by blast
    then show "r \<in> set (db_runs d)" using i by (cases "sr_mission_id r0 = i \<and> active_run r0") simp_all
  next
    fix r
    assume "sr_mission_id r \<noteq> i" "r \<in> set (db_runs d)"
    then show "r \<in> set (db_runs (cancel_active_runs now i d))"
      unfolding runs set_map by (intro image_eqI [of _ _ r]) simp_all
  qed
  show "\<not> active_run r" if r: "r \<in> set (db_runs (cancel_active_runs now i d))" "sr_mission_id r = i"
  proof -
    obtain r0 where r0: "r = ?new r0" using r(1) unfolding runs set_map by blast
    show ?thesis
    proof (cases "sr_mission_id r0 = i \<and> active_run r0")
      case True
      then show ?thesis using r0 by (simp add: active_run_def)
    next
      case False
      then have "r = r0" using r0 by (simp only: if_False)
      then show ?thesis using False r(2) by blast
    qed
  qed
qed

lemma update_where_present: "x \<in> set xs \<Longrightarrow> P x \<Longrightarrow> f x \<in> set (update_where P f xs)"
  by (force simp: update_where_def)

text \<open>What a deletion that was not under way leaves behind.\<close>

lemma requested_deletion:
  assumes "find_mission p vol_id owner ''delete'' s = Inr (Some m, s1)"
    and "mark_cancellation_requested (attempt_of m) now (cs_db s1) = (True, d)"
    and "request_mission_analysis_cancellations w now (m_id m) (cancel_active_runs now (m_id m) d) = Inr (n, d1)"
    and "enqueue_cancel lib uuid4 now p m (s1\<lparr>cs_db := set_step MANUAL_DELETION_STEP (m_id m) d1\<rparr>) = Inr s'"
    and "missions_distinct (cs_db s)" "distinct (map sr_id (db_runs (cs_db s)))"
  shows "(\<exists>m' \<in> set (db_missions (cs_db s')). m_id m' = m_id m \<and> m_status m' = MissionCancelled
       \<and> m_current_step m' = Some MANUAL_DELETION_STEP)
    \<and> (\<forall>r \<in> set (db_runs (cs_db s')). sr_mission_id r = m_id m \<longrightarrow> \<not> active_run r)
    \<and> only_mission (m_id m) (cs_db s) (cs_db s') \<and> same_runs_elsewhere (m_id m) (cs_db s) (cs_db s')"
proof -
  have found: "cs_db s1 = cs_db s" "m \<in> set (db_missions (cs_db s))" using found_access_recorded [OF assms(1)] by auto
  have d: "d = (cs_db s)\<lparr>db_missions := update_where (\<lambda>x. m_id x = m_id m)
      (\<lambda>x. x\<lparr>m_status := MissionCancelled, m_error_message := None, m_current_step := Some ''CANCELLATION_REQUESTED'',
             m_updated_at := now\<rparr>) (db_missions (cs_db s))\<rparr>"
    using mark_attempt [OF assms(2)] found assms(5) enqueue_cancel_organization [OF assms(4)] by simp
  have s': "cs_db s' = set_step MANUAL_DELETION_STEP (m_id m) d1" using enqueue_cancel_frame [OF assms(4)] by simp
  let ?c = "cancel_active_runs now (m_id m) d"
  have ids: "distinct (map sr_id (db_runs ?c))" using assms(6) by (simp add: cancel_active_runs_facts d)
  note only = request_cancellations_only [OF assms(3) ids]
  have missions: "db_missions d1 = db_missions d" using only by (simp add: only_cancels_def cancel_active_runs_facts)
  have runs: "db_runs (cs_db s') = db_runs d1" by (simp add: s' set_step_def)
  have "\<not> active_run r" if r: "r \<in> set (db_runs d1)" "sr_mission_id r = m_id m" for r
  proof
    assume "active_run r"
    then have "r \<in> set (db_runs ?c)"
      using only_cancels_runs(1) [OF only r(1)] by (simp add: active_run_def cancellable_def)
    then show False using cancel_active_runs_facts(4) r(2) \<open>active_run r\<close> by blast
  qed
  moreover have "same_runs_elsewhere (m_id m) (cs_db s) (cs_db s')"
    using cancel_active_runs_facts(3) [of "m_id m" d now] only_cancels_runs [OF only]
    by (auto simp: same_runs_elsewhere_def runs d)
  moreover have "only_mission (m_id m) (cs_db s) (cs_db s')"
    by (simp add: only_mission_def s' set_step_def missions d only_mission_update)
  moreover have "\<exists>m' \<in> set (db_missions (cs_db s')). m_id m' = m_id m \<and> m_status m' = MissionCancelled
       \<and> m_current_step m' = Some MANUAL_DELETION_STEP"
  proof -
    let ?f = "\<lambda>x. x\<lparr>m_status := MissionCancelled, m_error_message := None,
      m_current_step := Some ''CANCELLATION_REQUESTED'', m_updated_at := now\<rparr>"
    let ?g = "\<lambda>x. x\<lparr>m_current_step := Some MANUAL_DELETION_STEP\<rparr>"
    have "?f m \<in> set (db_missions d)" using update_where_present [OF found(2), of "\<lambda>x. m_id x = m_id m" ?f] by (simp add: d)
    then have "?g (?f m) \<in> set (db_missions (cs_db s'))"
      using update_where_present [of "?f m" "db_missions d" "\<lambda>x. m_id x = m_id m" ?g] by (simp add: s' set_step_def missions)
    then show ?thesis by (intro bexI [of _ "?g (?f m)"]) simp_all
  qed
  ultimately show ?thesis by (simp add: runs)
qed

text \<open>C15: A mission that is to be deleted stops computing in the same transaction: it is cancelled and
  marked for deletion, and none of its runs is queued or running any more; a deletion that was
  already under way changes nothing.\<close>

theorem deletions_stop_compute:
  assumes "delete_mission lib w uuid4 now vol_id owner p s = Inr (True, s')"
    and "missions_distinct (cs_db s)" and "distinct (map sr_id (db_runs (cs_db s)))"
  shows "\<exists>m \<in> set (db_missions (cs_db s)). m_vol_id m = vol_id \<and>
    (deletion_started m \<and> cs_db s' = cs_db s
     \<or> (\<exists>m' \<in> set (db_missions (cs_db s')). m_id m' = m_id m \<and> m_status m' = MissionCancelled
          \<and> m_current_step m' = Some MANUAL_DELETION_STEP)
       \<and> \<not> (\<exists>r \<in> set (db_runs (cs_db s')). sr_mission_id r = m_id m \<and> active_run r))"
  using assms(1)
proof (cases rule: delete_mission_Inr)
  case (Started m)
  then show ?thesis using found_access_recorded [OF Started(1)] by auto
next
  case (Requested m s1 d n d1)
  from requested_deletion [OF Requested(1,3,4,5) assms(2,3)] found_access_recorded [OF Requested(1)]
  show ?thesis by blast
qed

text \<open>C16: A command reaches only a mission of the caller's organization that the caller owns, or that
  an administrator names by its owner; then the access is in the audit. Other missions and
  their runs are not touched.\<close>

theorem commands_need_ownership:
  assumes "cancel_mission lib uuid4 now vol_id owner p s = Inr ((), s') \<or> delete_mission lib w uuid4 now vol_id owner p s = Inr (True, s')"
    and "missions_distinct (cs_db s)" and "distinct (map sr_id (db_runs (cs_db s)))"
  shows "\<exists>m \<in> set (db_missions (cs_db s)). \<exists>action \<in> {''cancel'', ''delete''}. m_vol_id m = vol_id
    \<and> access_recorded p action m (cs_audit s') \<and> only_mission (m_id m) (cs_db s) (cs_db s')
    \<and> same_runs_elsewhere (m_id m) (cs_db s) (cs_db s')"
  using assms(1)
proof
  assume "cancel_mission lib uuid4 now vol_id owner p s = Inr ((), s')"
  then show ?thesis
  proof (rule cancel_mission_Inr)
    fix m s1 d
    assume c: "find_mission p vol_id owner ''cancel'' s = Inr (Some m, s1)"
      "mark_cancellation_requested (attempt_of m) now (cs_db s1) = (True, d)"
      "enqueue_cancel lib uuid4 now p m (s1\<lparr>cs_db := d\<rparr>) = Inr s'"
    note found = found_access_recorded [OF c(1)]
    have s': "cs_db s' = d" "cs_audit s' = cs_audit s1" using enqueue_cancel_frame [OF c(3)] by simp_all
    have "only_mission (m_id m) (cs_db s) d" "same_runs_elsewhere (m_id m) (cs_db s) d"
      using mark_attempt [OF c(2)] found assms(2) enqueue_cancel_organization [OF c(3)]
      by (simp_all add: only_mission_def only_mission_update same_runs_elsewhere_def)
    then show ?thesis using found s' by auto
  qed
next
  assume "delete_mission lib w uuid4 now vol_id owner p s = Inr (True, s')"
  then show ?thesis
  proof (cases rule: delete_mission_Inr)
    case (Started m)
    then show ?thesis
      using found_access_recorded [OF Started(1)] by (auto simp: only_mission_def same_runs_elsewhere_def)
  next
    case (Requested m s1 d n d1)
    have "cs_audit s' = cs_audit s1" using enqueue_cancel_frame [OF Requested(5)] by simp
    with requested_deletion [OF Requested(1,3,4,5) assms(2,3)] found_access_recorded [OF Requested(1)]
    show ?thesis by auto
  qed
qed

definition example_root :: principal where
  "example_root = static_principal ''root'' ''admin'' ''acme'' ''static''"

definition example_commands :: command_state where
  "example_commands = \<lparr>cs_db = example_analysis_db, cs_outbox = [], cs_audit = [], cs_uuids = 0\<rparr>"

lemma example_deletion:
  "\<exists>s'. delete_mission (example_library fmempty) example_digest_world (\<lambda>_. ''u'') 9 ''flight-7'' (Some ''ann'') example_root
     example_commands = Inr (True, s')"
proof -
  let ?r = "delete_mission (example_library fmempty) example_digest_world (\<lambda>_. ''u'') 9 ''flight-7'' (Some ''ann'') example_root
     example_commands"
  have "map_sum id fst ?r = Inr True" by code_simp
  then show ?thesis by (cases ?r) auto
qed


lemma example_commands_ok:
  "missions_distinct (cs_db example_commands)" "distinct (map sr_id (db_runs (cs_db example_commands)))"
  "db_missions (cs_db example_commands) = [example_mission]" "\<not> deletion_started example_mission"
  by (code_simp, code_simp, simp_all add: example_commands_def example_analysis_db_def example_pipeline_def
      example_mission_def deletion_started_def)

text \<open>An administrator deletes the mission of a member while its analysis runs.\<close>

lemma deletions_stop_compute_witness:
  "\<exists>s'. delete_mission (example_library fmempty) example_digest_world (\<lambda>_. ''u'') 9 ''flight-7'' (Some ''ann'') example_root
      example_commands = Inr (True, s')
    \<and> \<not> (\<exists>r \<in> set (db_runs (cs_db s')). sr_mission_id r = m_id example_mission \<and> active_run r)"
proof -
  obtain s' where s': "delete_mission (example_library fmempty) example_digest_world (\<lambda>_. ''u'') 9 ''flight-7'' (Some ''ann'')
      example_root example_commands = Inr (True, s')" using example_deletion by blast
  from deletions_stop_compute [OF s' example_commands_ok(1,2)] show ?thesis
    using s' example_commands_ok(3,4) by auto
qed

lemma commands_need_ownership_witness:
  "\<exists>s'. \<exists>action \<in> {''cancel'', ''delete''}.
     delete_mission (example_library fmempty) example_digest_world (\<lambda>_. ''u'') 9 ''flight-7'' (Some ''ann'') example_root
       example_commands = Inr (True, s')
    \<and> access_recorded example_root action example_mission (cs_audit s')"
proof -
  obtain s' where s': "delete_mission (example_library fmempty) example_digest_world (\<lambda>_. ''u'') 9 ''flight-7'' (Some ''ann'')
      example_root example_commands = Inr (True, s')" using example_deletion by blast
  from commands_need_ownership [OF disjI2 [OF s'] example_commands_ok(1,2)] show ?thesis
    using s' example_commands_ok(3) by auto
qed

end
