(* ===== verification/Retention.thy ===== *)
theory Retention
  imports MissionCommands InboxConsumption OrganizationSaas
begin

text \<open>
  Retention and deletion of missions (\<open>app4-dashboard/api/retention.py\<close>): a pass claims the
  missions that are due and whose compute is quiescent, deletes their objects under their key
  prefix, and then removes their rows and records the released bytes; a failure is recorded and
  tried again later. The object store is a parameter, the function that deletes a prefix.

  A pass takes one clock reading. \<open>touched\<close> is the \<open>onupdate\<close> hook of \<open>updated_at\<close>, which the
  schedule of the retries depends on: a write that changes a row sets it. The tiles of analyses
  are given by the identifiers of the runs that have a queued one.
\<close>

subsection \<open>What keeps a mission\<close>

definition RETENTION_DRAINING_STEP :: string where
  "RETENTION_DRAINING_STEP = ''RETENTION_DRAINING''"

record retention_candidate =
  rc_mission_id :: int
  rc_organization_id :: string
  rc_vol_id :: string
  rc_prefix :: string
  rc_reason :: string

definition artifacts_of :: "db \<Rightarrow> int \<Rightarrow> artifact list" where
  "artifacts_of d mission_id = filter (\<lambda>a. ma_mission_id a = mission_id) (db_artifacts d)"

definition has_external_artifact_dependants :: "db \<Rightarrow> int \<Rightarrow> bool" where
  "has_external_artifact_dependants d mission_id =
     (let own = map ma_id (artifacts_of d mission_id)
      in list_ex (\<lambda>e. mp_parent_artifact_id e \<in> set own \<and> mp_artifact_id e \<notin> set own) (db_parents d))"

definition run_quiescent :: "stage_run \<Rightarrow> bool" where
  "run_quiescent r \<longleftrightarrow>
     \<not> active_run r
     \<and> (sr_executor r \<noteq> Some ''kubernetes-job'' \<or> sr_job_name r \<in> {None, Some []}
        \<or> truthy (dget (sr_provenance r) ''cleanup_confirmed_at''))"

definition compute_is_quiescent :: "int list \<Rightarrow> db \<Rightarrow> int \<Rightarrow> bool" where
  "compute_is_quiescent queued_tile_runs d mission_id =
     (if \<not> list_all run_quiescent (filter (\<lambda>r. sr_mission_id r = mission_id) (db_runs d)) then False
      else
        (let analyses = filter (\<lambda>a. ar_mission_id a = mission_id) (db_analyses d)
         in if list_ex active_analysis analyses then False
            else \<not> list_ex (\<lambda>a. active_analysis a \<and> ar_id a \<in> set queued_tile_runs) analyses))"

subsection \<open>Claiming\<close>

definition touched :: "instant \<Rightarrow> mission \<Rightarrow> mission \<Rightarrow> mission" where
  "touched now m m' = (if m' = m then m else m'\<lparr>m_updated_at := now\<rparr>)"

definition manual_deletion :: "mission \<Rightarrow> bool" where
  "manual_deletion m \<longleftrightarrow> m_current_step m \<in> {Some MANUAL_DELETION_STEP, Some MANUAL_DELETION_FAILED_STEP}"

definition retention_days_of :: "db \<Rightarrow> mission \<Rightarrow> int option" where
  "retention_days_of d m =
     (case first_row (filter (\<lambda>p. po_organization_id p = m_organization_id m) (db_policies d)) of
        None \<Rightarrow> None | Some p \<Rightarrow> po_retention_days p)"

definition retention_row :: "db \<Rightarrow> mission \<Rightarrow> bool" where
  "retention_row d m \<longleftrightarrow>
     (retention_days_of d m \<noteq> None \<and> retention_terminal (m_status m)) \<or> manual_deletion m
     \<or> m_status m \<in> {MissionDeleting, MissionDeletionFailed}"

definition days :: "int \<Rightarrow> instant" where
  "days n = seconds (n * 86400)"

definition retention_eligible :: "instant \<Rightarrow> int \<Rightarrow> db \<Rightarrow> mission \<Rightarrow> bool" where
  "retention_eligible now retry_seconds d m =
     (if manual_deletion m
      then m_current_step m \<noteq> Some MANUAL_DELETION_FAILED_STEP \<or> m_updated_at m \<le> now - seconds retry_seconds
      else if m_current_step m = Some RETENTION_DRAINING_STEP then True
      else if m_status m \<in> {MissionDeleting, MissionDeletionFailed} then m_updated_at m \<le> now - seconds retry_seconds
      else (case retention_days_of d m of None \<Rightarrow> False | Some n \<Rightarrow> m_updated_at m \<le> now - days n))"

definition deleting_mission :: "string \<Rightarrow> mission \<Rightarrow> mission" where
  "deleting_mission step m = m\<lparr>m_status := MissionDeleting, m_current_step := Some step, m_error_message := None\<rparr>"

definition claim_step :: "mission \<Rightarrow> string" where
  "claim_step m = (if manual_deletion m then ''DELETION_DRAINED'' else ''RETENTION_DELETING'')"

definition claim_mission ::
  "world \<Rightarrow> int list \<Rightarrow> instant \<Rightarrow> int \<Rightarrow> mission \<Rightarrow> db \<Rightarrow> (retention_candidate option \<times> db) res" where
  "claim_mission w queued_tile_runs now retry_seconds m d =
     (if \<not> retention_eligible now retry_seconds d m then Inr (None, d)
      else if has_external_artifact_dependants d (m_id m)
      then Inr (None, put_mission (touched now m (m\<lparr>m_error_message :=
             Some ''Deletion deferred: another mission references an artifact''\<rparr>)) d)
      else if \<not> compute_is_quiescent queued_tile_runs d (m_id m)
      then
        (let m1 = (if manual_deletion m then m
                   else deleting_mission RETENTION_DRAINING_STEP m)
         in rbind (request_mission_analysis_cancellations w now (m_id m) (put_mission (touched now m m1) d)) (\<lambda>(_, d1).
            Inr (None, d1)))
      else
        rbind (ns_from_binding (m_organization_id m) (m_vol_id m) (Some (m_workspace_prefix m))) (\<lambda>namespace.
        rbind (ns_prefix namespace []) (\<lambda>prefix.
          Inr (Some \<lparr>rc_mission_id = m_id m, rc_organization_id = m_organization_id m, rc_vol_id = m_vol_id m,
                     rc_prefix = prefix, rc_reason = (if manual_deletion m then ''manual'' else ''retention'')\<rparr>,
            put_mission (touched now m (deleting_mission (claim_step m) m)) d))))"

fun claim_missions ::
  "world \<Rightarrow> int list \<Rightarrow> instant \<Rightarrow> int \<Rightarrow> nat \<Rightarrow> mission list \<Rightarrow> db \<Rightarrow> (retention_candidate list \<times> db) res" where
  "claim_missions w queued now retry_seconds limit [] d = Inr ([], d)"
| "claim_missions w queued now retry_seconds limit (m # ms) d =
     rbind (claim_mission w queued now retry_seconds m d) (\<lambda>(found, d1).
       (case found of
          None \<Rightarrow> claim_missions w queued now retry_seconds limit ms d1
        | Some c \<Rightarrow>
            if limit \<le> 1 then Inr ([c], d1)
            else rbind (claim_missions w queued now retry_seconds (limit - 1) ms d1) (\<lambda>(cs, d2). Inr (c # cs, d2))))"

definition retention_rows :: "(int \<Rightarrow> bool) \<Rightarrow> db \<Rightarrow> mission list" where
  "retention_rows locked d =
     sort_key (\<lambda>m. (m_updated_at m, m_id m))
       (filter (\<lambda>m. retention_row d m \<and> \<not> locked (m_id m)) (db_missions d))"

definition claim_retention_candidates ::
  "world \<Rightarrow> (int \<Rightarrow> bool) \<Rightarrow> int list \<Rightarrow> instant \<Rightarrow> int \<Rightarrow> nat \<Rightarrow> db \<Rightarrow> (retention_candidate list \<times> db) res" where
  "claim_retention_candidates w locked queued now retry_seconds limit d =
     claim_missions w queued now retry_seconds limit (retention_rows locked d) d"

subsection \<open>Completion and failure\<close>

definition locked_deleting_mission :: "db \<Rightarrow> retention_candidate \<Rightarrow> mission option res" where
  "locked_deleting_mission d c =
     one_or_none (filter (\<lambda>m. m_id m = rc_mission_id c \<and> m_organization_id m = rc_organization_id c
       \<and> m_status m = MissionDeleting) (db_missions d))"

text \<open>
  Deleting the row of a mission deletes what refers to it: its runs with their receipts, its
  artifacts with the edges to their parents, its analyses and features. An edge of another
  mission's artifact to one of its own forbids it.
\<close>

definition removed_artifacts :: "db \<Rightarrow> int \<Rightarrow> int list" where
  "removed_artifacts d mission_id =
     map ma_id (filter (\<lambda>a. ma_mission_id a = mission_id
       \<or> list_ex (\<lambda>r. sr_mission_id r = mission_id \<and> sr_id r = ma_stage_run_id a) (db_runs d)) (db_artifacts d))"

definition drop_internal_edges :: "int \<Rightarrow> db \<Rightarrow> db" where
  "drop_internal_edges mission_id d =
     (let own = map ma_id (artifacts_of d mission_id)
      in d\<lparr>db_parents := filter (\<lambda>e. \<not> (mp_artifact_id e \<in> set own \<and> mp_parent_artifact_id e \<in> set own)) (db_parents d)\<rparr>)"

definition delete_mission_row :: "int \<Rightarrow> db \<Rightarrow> db_failure + db" where
  "delete_mission_row mission_id d =
     (let gone = removed_artifacts d mission_id;
          run_gone = (\<lambda>i. list_ex (\<lambda>r. sr_mission_id r = mission_id \<and> sr_id r = i) (db_runs d))
      in if list_ex (\<lambda>e. mp_parent_artifact_id e \<in> set gone) (db_parents d) then Inl IntegrityError
         else Inr (d\<lparr>db_missions := filter (\<lambda>m. m_id m \<noteq> mission_id) (db_missions d),
                db_runs := filter (\<lambda>r. sr_mission_id r \<noteq> mission_id) (db_runs d),
                db_receipts := filter (\<lambda>x. \<not> run_gone (dr_stage_run_id x)) (db_receipts d),
                db_artifacts := filter (\<lambda>a. ma_id a \<notin> set gone) (db_artifacts d),
                db_parents := filter (\<lambda>e. mp_artifact_id e \<notin> set gone) (db_parents d),
                db_analyses := filter (\<lambda>a. ar_mission_id a \<noteq> mission_id) (db_analyses d),
                db_features := filter (\<lambda>x. mf_mission_id x \<noteq> mission_id) (db_features d)\<rparr>))"

definition deletion_entry :: "retention_candidate \<Rightarrow> int \<Rightarrow> int \<Rightarrow> usage_entry" where
  "deletion_entry c artifact_bytes objects_deleted =
     (let manual = (rc_reason c = ''manual'')
      in \<lparr>un_organization_id = rc_organization_id c,
          un_action = (if manual then StorageReleased else RetentionDeleted),
          un_resource_type = ''mission'', un_resource_id = rc_vol_id c,
          un_actor_subject = (if manual then ''system:mission-deletion'' else ''system:retention''),
          un_quantity = Some (- artifact_bytes), un_unit = Some ''bytes'',
          un_idempotency_key = Some ((if manual then ''storage-released:mission:'' else ''retention-deleted:mission:'')
            @ int_text (rc_mission_id c)),
          un_details = fmap_of_list [(''objects_deleted'', PInt objects_deleted),
            (''deletion_reason'', PStr (rc_reason c))]\<rparr>)"

definition complete_retention :: "world \<Rightarrow> retention_candidate \<Rightarrow> int \<Rightarrow> db \<Rightarrow> db_failure + bool \<times> db" where
  "complete_retention w c objects_deleted d =
     (case locked_deleting_mission d c of
        Inl e \<Rightarrow> Inl (Failure e)
      | Inr None \<Rightarrow> Inr (False, d)
      | Inr (Some _) \<Rightarrow>
          (let artifact_bytes = sum_list (map (\<lambda>a. size_or_zero (ma_size_bytes a)) (artifacts_of d (rc_mission_id c)))
           in case append_usage_event w (deletion_entry c artifact_bytes objects_deleted) d of
                Inl e \<Rightarrow> Inl (Failure e)
              | Inr (_, d1) \<Rightarrow>
                  (case delete_mission_row (rc_mission_id c) (drop_internal_edges (rc_mission_id c) d1) of
                     Inl f \<Rightarrow> Inl f | Inr d2 \<Rightarrow> Inr (True, d2))))"

definition fail_retention :: "world \<Rightarrow> instant \<Rightarrow> retention_candidate \<Rightarrow> string \<Rightarrow> db \<Rightarrow> db res" where
  "fail_retention w now c error d =
     rbind (locked_deleting_mission d c) (\<lambda>found.
       (case found of
          None \<Rightarrow> Inr d
        | Some m \<Rightarrow>
            rbind (append_usage_event w
                \<lparr>un_organization_id = rc_organization_id c, un_action = RetentionFailed, un_resource_type = ''mission'',
                 un_resource_id = rc_vol_id c, un_actor_subject = ''system:retention'', un_quantity = None,
                 un_unit = None, un_idempotency_key = None,
                 un_details = fmap_of_list [(''error'', PStr (take 1000 error))]\<rparr>
              (put_mission (touched now m (m\<lparr>m_status := MissionDeletionFailed,
                 m_current_step := Some (if rc_reason c = ''manual'' then MANUAL_DELETION_FAILED_STEP else ''RETENTION_FAILED''),
                 m_error_message := Some (take 4000 (''Retention object deletion failed: '' @ error))\<rparr>)) d))
             (\<lambda>(_, d'). Inr d')))"

subsection \<open>A pass\<close>

text \<open>
  The object store: deleting a prefix counts the objects or raises. The texts of the errors are
  those of the driver.
\<close>

record 's retention_ports =
  rt_delete_prefix :: "string \<Rightarrow> 's \<Rightarrow> (py_error + int) \<times> 's"
  rt_conflict_text :: string

definition deletion_failure_text :: "'s retention_ports \<Rightarrow> db_failure \<Rightarrow> string" where
  "deletion_failure_text p f = (case f of IntegrityError \<Rightarrow> rt_conflict_text p | Failure e \<Rightarrow> error_text e)"

definition delete_candidate ::
  "world \<Rightarrow> 's retention_ports \<Rightarrow> instant \<Rightarrow> retention_candidate \<Rightarrow> 's \<Rightarrow> db \<Rightarrow> (int \<times> db) res \<times> 's" where
  "delete_candidate w p now c s d =
     (case rt_delete_prefix p (rc_prefix c) s of
        (deleted, s1) \<Rightarrow>
          ((case (case deleted of Inl e \<Rightarrow> Inl (Failure e) | Inr n \<Rightarrow> complete_retention w c n d) of
              Inr (b, d1) \<Rightarrow> Inr ((if b then 1 else 0), d1)
            | Inl f \<Rightarrow> rbind (fail_retention w now c (deletion_failure_text p f) d) (\<lambda>d1. Inr (0, d1))), s1))"

fun delete_candidates ::
  "world \<Rightarrow> 's retention_ports \<Rightarrow> instant \<Rightarrow> retention_candidate list \<Rightarrow> 's \<Rightarrow> db \<Rightarrow> int res \<times> 's \<times> db" where
  "delete_candidates w p now [] s d = (Inr 0, s, d)"
| "delete_candidates w p now (c # cs) s d =
     (case delete_candidate w p now c s d of
        (Inl e, s1) \<Rightarrow> (Inl e, s1, d)
      | (Inr (k, d1), s1) \<Rightarrow>
          (case delete_candidates w p now cs s1 d1 of (r, s2, d2) \<Rightarrow> (rbind r (\<lambda>n. Inr (k + n)), s2, d2)))"

definition retention_cleanup_once ::
  "world \<Rightarrow> 's retention_ports \<Rightarrow> (int \<Rightarrow> bool) \<Rightarrow> int list \<Rightarrow> instant \<Rightarrow> int \<Rightarrow> 's \<Rightarrow> db \<Rightarrow> int res \<times> 's \<times> db" where
  "retention_cleanup_once w p locked queued now retry_seconds s d =
     (case claim_retention_candidates w locked queued now retry_seconds 100 d of
        Inl e \<Rightarrow> (Inl e, s, d)
      | Inr (cs, d1) \<Rightarrow> delete_candidates w p now cs s d1)"

subsection \<open>What a claim changes\<close>

text \<open>Everything of other missions, and what the conditions of a claim read, stays.\<close>

definition claim_frame :: "int \<Rightarrow> db \<Rightarrow> db \<Rightarrow> bool" where
  "claim_frame i d d' \<longleftrightarrow>
     db_artifacts d' = db_artifacts d \<and> db_parents d' = db_parents d \<and> db_policies d' = db_policies d
     \<and> map sr_id (db_runs d') = map sr_id (db_runs d) \<and> map m_id (db_missions d') = map m_id (db_missions d)
     \<and> only_mission i d d' \<and> same_runs_elsewhere i d d'"

lemma touched_fields [simp]: "m_id (touched now m m') = (if m' = m then m_id m else m_id m')"
  by (simp add: touched_def)

lemma deleting_mission_fields [simp]:
  "m_id (deleting_mission step m) = m_id m" "m_status (deleting_mission step m) = MissionDeleting"
  "m_current_step (deleting_mission step m) = Some step" "mission_stopped (deleting_mission step m)"
  by (simp_all add: deleting_mission_def mission_stopped_def)

lemma mission_stopped_touched [simp]: "mission_stopped m' \<Longrightarrow> mission_stopped (touched now m m')"
  by (auto simp: touched_def mission_stopped_def)

lemma replaced_elsewhere:
  "filter (\<lambda>m. m_id m \<noteq> m_id m') (update_where (\<lambda>x. m_id x = m_id m') (\<lambda>_. m') ms) = filter (\<lambda>m. m_id m \<noteq> m_id m') ms"
  by (induction ms) auto

lemma put_mission_frame:
  assumes "m_id m' = i"
  shows "claim_frame i d (put_mission m' d)"
  using assms missions.keys_put [of m' d]
  by (auto simp: claim_frame_def put_mission_def only_mission_def replaced_elsewhere same_runs_elsewhere_def)

lemma claim_frame_cancels:
  assumes "claim_frame i d d1" "only_cancels i d1 d2"
  shows "claim_frame i d d2"
proof -
  have "same_runs_elsewhere i d1 d2"
    using only_cancels_runs [OF assms(2)] unfolding same_runs_elsewhere_def by blast
  moreover have "same_runs_elsewhere i d d1" using assms(1) by (simp add: claim_frame_def)
  ultimately have "same_runs_elsewhere i d d2" by (simp add: same_runs_elsewhere_def)
  with assms show ?thesis by (simp add: claim_frame_def only_cancels_def only_mission_def)
qed

lemma claim_mission_frame:
  assumes "claim_mission w queued now retry m d = Inr (found, d')" "distinct (map sr_id (db_runs d))"
  shows "claim_frame (m_id m) d d'"
proof -
  have refl: "claim_frame (m_id m) d d" by (simp add: claim_frame_def only_mission_def same_runs_elsewhere_def)
  have put: "claim_frame (m_id m) d (put_mission (touched now m m') d)" if "m_id m' = m_id m" for m'
    using that by (intro put_mission_frame) simp
  have cancels: "claim_frame (m_id m) d d2"
    if "request_mission_analysis_cancellations w now (m_id m) (put_mission (touched now m m') d) = Inr (n, d2)"
      "m_id m' = m_id m" for n d2 m'
    using claim_frame_cancels [OF put [OF that(2)] request_cancellations_only [OF that(1)]] assms(2)
      put [OF that(2)] by (simp add: claim_frame_def)
  show ?thesis
    using assms(1) refl put cancels
    by (auto simp: claim_mission_def rbind_Inr_iff Let_def split: if_split_asm)
qed

text \<open>A claimed mission: due, unreferenced, quiescent, and under its own prefix.\<close>

lemma claim_mission_Some:
  assumes "claim_mission w queued now retry m d = Inr (Some c, d')"
  shows "retention_eligible now retry d m" "\<not> has_external_artifact_dependants d (m_id m)"
    "compute_is_quiescent queued d (m_id m)"
    "rc_mission_id c = m_id m" "rc_organization_id c = m_organization_id m" "rc_vol_id c = m_vol_id m"
    "rc_reason c = (if manual_deletion m then ''manual'' else ''retention'')"
    "\<exists>n. ns_create (m_organization_id m) (m_vol_id m) = Inr n \<and> rc_prefix c = ns_root n @ ''/''"
    "d' = put_mission (touched now m (deleting_mission (claim_step m) m)) d"
  using assms
  by (auto simp: claim_mission_def rbind_Inr_iff Let_def ns_prefix_def ns_key_def ns_from_binding_Inr split: if_split_asm)


text \<open>A claim of one mission leaves the rows of another as they are.\<close>

definition unaffected :: "int \<Rightarrow> db \<Rightarrow> db \<Rightarrow> bool" where
  "unaffected i d d' \<longleftrightarrow>
     db_artifacts d' = db_artifacts d \<and> db_parents d' = db_parents d \<and> db_policies d' = db_policies d
     \<and> map sr_id (db_runs d') = map sr_id (db_runs d)
     \<and> (\<forall>m. m_id m = i \<longrightarrow> (m \<in> set (db_missions d') \<longleftrightarrow> m \<in> set (db_missions d)))
     \<and> (\<forall>r. sr_mission_id r = i \<longrightarrow> (r \<in> set (db_runs d') \<longleftrightarrow> r \<in> set (db_runs d)))"

lemma unaffected_refl [simp]: "unaffected i d d"
  by (simp add: unaffected_def)

lemma unaffected_trans: "unaffected i d d1 \<Longrightarrow> unaffected i d1 d2 \<Longrightarrow> unaffected i d d2"
  by (simp add: unaffected_def)

lemma claim_frame_unaffected:
  assumes "claim_frame j d d'" "i \<noteq> j"
  shows "unaffected i d d'"
proof -
  have "filter (\<lambda>m. m_id m \<noteq> j) (db_missions d') = filter (\<lambda>m. m_id m \<noteq> j) (db_missions d)"
    using assms(1) by (simp add: claim_frame_def only_mission_def)
  then have "{m \<in> set (db_missions d'). m_id m \<noteq> j} = {m \<in> set (db_missions d). m_id m \<noteq> j}"
    by (metis set_filter)
  then have "m \<in> set (db_missions d') \<longleftrightarrow> m \<in> set (db_missions d)" if "m_id m = i" for m
    using that assms(2) by blast
  then show ?thesis using assms by (simp add: claim_frame_def unaffected_def same_runs_elsewhere_def)
qed

lemma claim_missions_unaffected:
  assumes "claim_missions w queued now retry limit ms d = Inr (cs, d')" "distinct (map sr_id (db_runs d))"
    "i \<notin> m_id ` set ms"
  shows "unaffected i d d'"
  using assms
proof (induction ms arbitrary: limit d cs)
  case (Cons m ms)
  obtain found d1 where first: "claim_mission w queued now retry m d = Inr (found, d1)"
    using Cons.prems(1) by (auto simp: rbind_Inr_iff)
  have one: "unaffected i d d1"
    using claim_frame_unaffected [OF claim_mission_frame [OF first Cons.prems(2)]] Cons.prems(3) by simp
  then have ids: "distinct (map sr_id (db_runs d1))" using Cons.prems(2) by (simp add: unaffected_def)
  have "d' = d1 \<or> (\<exists>limit' cs'. claim_missions w queued now retry limit' ms d1 = Inr (cs', d'))"
    using Cons.prems(1) first by (auto simp: rbind_Inr_iff split: option.splits if_splits)
  then show ?case
  proof
    assume "\<exists>limit' cs'. claim_missions w queued now retry limit' ms d1 = Inr (cs', d')"
    then obtain limit' cs' where "claim_missions w queued now retry limit' ms d1 = Inr (cs', d')" by blast
    from Cons.IH [OF this ids] Cons.prems(3) show ?thesis using one unaffected_trans by simp
  qed (use one in simp)
qed simp

text \<open>What a claimed candidate stands for, in terms of the rows before and after the claims.\<close>

definition claimed_ok :: "int list \<Rightarrow> instant \<Rightarrow> int \<Rightarrow> db \<Rightarrow> db \<Rightarrow> mission \<Rightarrow> retention_candidate \<Rightarrow> bool" where
  "claimed_ok queued now retry d d' m c \<longleftrightarrow>
     rc_mission_id c = m_id m \<and> rc_organization_id c = m_organization_id m \<and> rc_vol_id c = m_vol_id m
     \<and> retention_eligible now retry d m \<and> \<not> has_external_artifact_dependants d' (m_id m)
     \<and> (\<forall>r \<in> set (db_runs d'). sr_mission_id r = m_id m \<longrightarrow> run_quiescent r)
     \<and> (\<exists>n. ns_create (m_organization_id m) (m_vol_id m) = Inr n \<and> rc_prefix c = ns_root n @ ''/'')
     \<and> (\<exists>m' \<in> set (db_missions d'). m_id m' = m_id m \<and> mission_stopped m')"

lemma retention_eligible_cong: "db_policies d' = db_policies d \<Longrightarrow> retention_eligible now retry d' m = retention_eligible now retry d m"
  by (simp add: retention_eligible_def retention_days_of_def)

lemma external_dependants_cong:
  "db_artifacts d' = db_artifacts d \<Longrightarrow> db_parents d' = db_parents d \<Longrightarrow>
   has_external_artifact_dependants d' i = has_external_artifact_dependants d i"
  by (simp add: has_external_artifact_dependants_def artifacts_of_def)

lemma claim_mission_claimed:
  assumes "claim_mission w queued now retry m d = Inr (Some c, d1)" "m \<in> set (db_missions d)" "unaffected (m_id m) d1 d'"
  shows "claimed_ok queued now retry d d' m c"
proof -
  note c = claim_mission_Some [OF assms(1)]
  let ?m' = "touched now m (deleting_mission (claim_step m) m)"
  have runs: "db_runs d1 = db_runs d" "db_artifacts d1 = db_artifacts d" "db_parents d1 = db_parents d"
    by (simp_all add: c(9) put_mission_def)
  have "m_id ?m' = m_id m" by simp
  then have "?m' \<in> set (db_missions d1)" using missions.put_present [OF assms(2)] unfolding c(9) by simp
  moreover have stopped: "mission_stopped ?m'" by simp
  moreover have "list_all run_quiescent (filter (\<lambda>r. sr_mission_id r = m_id m) (db_runs d))"
    using c(3) by (auto simp: compute_is_quiescent_def split: if_splits)
  then have "\<forall>r \<in> set (db_runs d'). sr_mission_id r = m_id m \<longrightarrow> run_quiescent r"
    using assms(3) by (auto simp: unaffected_def list_all_iff runs)
  moreover have "\<not> has_external_artifact_dependants d' (m_id m)"
    using c(2) external_dependants_cong [of d' d] assms(3) by (simp add: unaffected_def runs)
  moreover have "?m' \<in> set (db_missions d')"
    using \<open>?m' \<in> set (db_missions d1)\<close> \<open>m_id ?m' = m_id m\<close> assms(3) unfolding unaffected_def by blast
  then have "\<exists>m' \<in> set (db_missions d'). m_id m' = m_id m \<and> mission_stopped m'"
    using \<open>m_id ?m' = m_id m\<close> stopped by blast
  ultimately show ?thesis using c(1,4-6,8) by (simp add: claimed_ok_def)
qed

lemma claim_missions_claimed:
  assumes "claim_missions w queued now retry limit ms d = Inr (cs, d')" "distinct (map sr_id (db_runs d))"
    "distinct (map m_id ms)" "set ms \<subseteq> set (db_missions d)" "c \<in> set cs"
  shows "\<exists>m \<in> set ms. claimed_ok queued now retry d d' m c"
  using assms
proof (induction ms arbitrary: limit d cs)
  case (Cons m ms)
  obtain found d1 where first: "claim_mission w queued now retry m d = Inr (found, d1)"
    using Cons.prems(1) by (auto simp: rbind_Inr_iff)
  note frame = claim_mission_frame [OF first Cons.prems(2)]
  then have ids: "distinct (map sr_id (db_runs d1))" and pol: "db_policies d1 = db_policies d"
    using Cons.prems(2) by (simp_all add: claim_frame_def)
  have new: "m_id m \<notin> m_id ` set ms" using Cons.prems(3) by simp
  have sub: "set ms \<subseteq> set (db_missions d1)"
  proof
    fix x
    assume "x \<in> set ms"
    then have "m_id x \<noteq> m_id m" using new by (metis imageI)
    moreover have "x \<in> set (db_missions d)" using \<open>x \<in> set ms\<close> Cons.prems(4) by auto
    ultimately
    show "x \<in> set (db_missions d1)" using claim_frame_unaffected [OF frame] by (auto simp: unaffected_def)
  qed
  have m: "m \<in> set (db_missions d)" using Cons.prems(4) by simp
  have rest: "\<exists>x \<in> set ms. claimed_ok queued now retry d d' x c"
    if "claim_missions w queued now retry limit' ms d1 = Inr (cs', d')" "c \<in> set cs'" for limit' cs'
    using Cons.IH [OF that(1) ids _ sub that(2)] Cons.prems(3) retention_eligible_cong [OF pol]
    by (auto simp: claimed_ok_def)
  show ?case
  proof (cases found)
    case None
    then have "claim_missions w queued now retry limit ms d1 = Inr (cs, d')" using Cons.prems(1) first by simp
    with rest Cons.prems(5) show ?thesis by auto
  next
    case (Some c0)
    note claimed = claim_mission_claimed [OF first [unfolded Some] m]
    show ?thesis
    proof (cases "limit \<le> 1")
      case True
      then have "cs = [c0]" "d' = d1" using Cons.prems(1) first Some by simp_all
      then show ?thesis using claimed Cons.prems(5) by simp
    next
      case False
      then obtain cs' where cs': "claim_missions w queued now retry (limit - 1) ms d1 = Inr (cs', d')" "cs = c0 # cs'"
        using Cons.prems(1) first Some by (auto simp: rbind_Inr_iff)
      show ?thesis
      proof (cases "c = c0")
        case True
        then show ?thesis using claimed [OF claim_missions_unaffected [OF cs'(1) ids new]] by simp
      next
        case False
        then show ?thesis using rest [OF cs'(1)] Cons.prems(5) cs'(2) by auto
      qed
    qed
  qed
qed simp

subsection \<open>What a pass deletes\<close>

text \<open>The ports with the prefixes they were asked to delete, in order.\<close>

definition logged :: "'s retention_ports \<Rightarrow> ('s \<times> string list) retention_ports" where
  "logged p = \<lparr>rt_delete_prefix = (\<lambda>prefix (s, ps). (case rt_delete_prefix p prefix s of (r, s1) \<Rightarrow> (r, s1, ps @ [prefix]))),
     rt_conflict_text = rt_conflict_text p\<rparr>"

lemma delete_candidate_logged:
  "delete_candidate w (logged p) now c (s, ps) d = (r, s1, ps1) \<Longrightarrow> ps1 = ps @ [rc_prefix c]"
  by (auto simp: delete_candidate_def logged_def split: prod.splits)

lemma delete_candidates_logged:
  "delete_candidates w (logged p) now cs (s, ps) d = (r, (s1, ps1), d1) \<Longrightarrow> set ps1 \<subseteq> set ps \<union> rc_prefix ` set cs"
proof (induction cs arbitrary: s ps d r)
  case (Cons c cs)
  obtain r2 s2 ps2 where one: "delete_candidate w (logged p) now c (s, ps) d = (r2, s2, ps2)" by (metis prod_cases3)
  note ps2 = delete_candidate_logged [OF one]
  show ?case
  proof (cases r2)
    case (Inl e)
    with Cons.prems one ps2 show ?thesis by auto
  next
    case (Inr kd)
    then obtain k d2 where kd: "r2 = Inr (k, d2)" by (cases kd) auto
    obtain r3 where "delete_candidates w (logged p) now cs (s2, ps2) d2 = (r3, (s1, ps1), d1)"
      using Cons.prems one kd by (auto split: prod.splits)
    from Cons.IH [OF this] ps2 show ?thesis by auto
  qed
qed simp

lemma retention_rows_set: "set (retention_rows locked d) = {m \<in> set (db_missions d). retention_row d m \<and> \<not> locked (m_id m)}"
  by (auto simp: retention_rows_def)

lemma retention_rows_distinct: "distinct (map m_id (db_missions d)) \<Longrightarrow> distinct (map m_id (retention_rows locked d))"
  by (auto simp: retention_rows_def distinct_map inj_on_def)


definition example_deleted_mission :: mission where
  "example_deleted_mission = example_mission\<lparr>m_status := MissionCancelled, m_current_step := Some MANUAL_DELETION_STEP\<rparr>"

definition example_retention_db :: db where
  "example_retention_db = example_pipeline\<lparr>db_missions := [example_deleted_mission],
     db_runs := [example_run\<lparr>sr_status := Succeeded\<rparr>], db_artifacts := [example_artifact]\<rparr>"

definition example_ports :: "unit retention_ports" where
  "example_ports = \<lparr>rt_delete_prefix = (\<lambda>_ s. (Inr 4, s)), rt_conflict_text = []\<rparr>"

definition example_deletion_pass :: "int res \<times> (unit \<times> string list) \<times> db" where
  "example_deletion_pass = retention_cleanup_once example_digest_world (logged example_ports) (\<lambda>_. False) [] 9 3600 ((), []) example_retention_db"

lemma example_deletion_pass_result:
  "fst example_deletion_pass = Inr 1" "snd (fst (snd example_deletion_pass)) = [''organizations/acme/missions/flight-7/'']"
  by code_simp+


lemma touched_step: "m_current_step (touched now m m') = m_current_step m'"
  by (auto simp: touched_def)

text \<open>A mission whose owner asked for its deletion is claimed as one of the policy when the pass that
  claimed it first did not finish: its released bytes are then booked as expired.\<close>

lemma interrupted_deletion_loses_its_reason:
  assumes "claim_mission w queued now retry_seconds m d = Inr (Some c, d1)" "manual_deletion m"
    and "m' = touched now m (deleting_mission (claim_step m) m)"
    and "claim_mission w queued' now' retry_seconds m' d2 = Inr (Some c', d3)"
  shows "rc_reason c = ''manual'' \<and> rc_reason c' = ''retention''"
proof -
  have "m_current_step m' = Some ''DELETION_DRAINED''"
    using assms(2,3) by (simp add: touched_step claim_step_def)
  then have "\<not> manual_deletion m'"
    by (simp add: manual_deletion_def MANUAL_DELETION_STEP_def MANUAL_DELETION_FAILED_STEP_def)
  then show ?thesis using claim_mission_Some(7) [OF assms(1)] claim_mission_Some(7) [OF assms(4)] assms(2) by simp
qed

subsection \<open>The released bytes\<close>

definition artifacts_placed :: "db \<Rightarrow> bool" where
  "artifacts_placed d \<longleftrightarrow>
     (\<forall>a \<in> set (db_artifacts d). \<forall>r \<in> set (db_runs d). sr_id r = ma_stage_run_id a \<longrightarrow> ma_mission_id a = sr_mission_id r)"

lemma removed_artifacts_own:
  assumes "artifacts_placed d" "distinct (map ma_id (db_artifacts d))" "a \<in> set (db_artifacts d)"
  shows "ma_id a \<in> set (removed_artifacts d i) \<longleftrightarrow> ma_mission_id a = i"
proof -
  have "ma_id a \<in> set (removed_artifacts d i) \<longleftrightarrow>
      ma_mission_id a = i \<or> list_ex (\<lambda>r. sr_mission_id r = i \<and> sr_id r = ma_stage_run_id a) (db_runs d)"
    using assms(2,3) by (auto simp: removed_artifacts_def distinct_map dest: inj_onD)
  then show ?thesis using assms(1,3) by (auto simp: artifacts_placed_def list_ex_iff)
qed

lemma delete_mission_row_Inr:
  assumes "delete_mission_row i d = Inr d'"
  shows "db_usage d' = db_usage d" "db_datasets d' = db_datasets d" "db_uploads d' = db_uploads d"
    "db_missions d' = filter (\<lambda>m. m_id m \<noteq> i) (db_missions d)" "db_runs d' = filter (\<lambda>r. sr_mission_id r \<noteq> i) (db_runs d)"
    "db_analyses d' = filter (\<lambda>a. ar_mission_id a \<noteq> i) (db_analyses d)"
    "db_artifacts d' = filter (\<lambda>a. ma_id a \<notin> set (removed_artifacts d i)) (db_artifacts d)"
  using assms by (auto simp: delete_mission_row_def Let_def split: if_splits)

lemma drop_internal_edges_fields:
  "db_usage (drop_internal_edges i d) = db_usage d" "db_datasets (drop_internal_edges i d) = db_datasets d"
  "db_uploads (drop_internal_edges i d) = db_uploads d" "db_missions (drop_internal_edges i d) = db_missions d"
  "db_runs (drop_internal_edges i d) = db_runs d" "db_analyses (drop_internal_edges i d) = db_analyses d"
  "db_artifacts (drop_internal_edges i d) = db_artifacts d"
  by (simp_all add: drop_internal_edges_def Let_def)

lemma sum_list_split: "sum_list (map f xs) = sum_list (map f (filter P xs)) + (sum_list (map f (filter (\<lambda>x. \<not> P x) xs)) :: int)"
  by (induction xs) auto

definition artifact_share :: "db \<Rightarrow> string \<Rightarrow> artifact \<Rightarrow> int" where
  "artifact_share d org a = sum_list (map (\<lambda>_. size_or_zero (ma_size_bytes a)) (artifact_missions d org a))"

lemma storage_usage_shares:
  "storage_usage_bytes d org =
     sum_list (map ds_total_bytes (filter (\<lambda>x. ds_organization_id x = org \<and> ds_status x \<noteq> DatasetDeleted) (db_datasets d)))
     + sum_list (map us_total_bytes (filter (\<lambda>x. us_organization_id x = org \<and> active_upload (us_status x)) (db_uploads d)))
     + sum_list (map (artifact_share d org) (db_artifacts d))"
  by (simp add: storage_usage_bytes_def Let_def artifact_share_def [abs_def])

lemma storage_change:
  assumes "db_datasets d' = db_datasets d" "db_uploads d' = db_uploads d"
    and "db_artifacts d' = filter (\<lambda>a. ma_mission_id a \<noteq> i) (db_artifacts d)"
    and "db_missions d' = filter (\<lambda>m. m_id m \<noteq> i) (db_missions d)"
    and "filter (\<lambda>m. m_id m = i \<and> m_organization_id m = org) (db_missions d) = [m]"
  shows "storage_usage_bytes d' org - storage_usage_bytes d org
    = - sum_list (map (\<lambda>a. size_or_zero (ma_size_bytes a)) (artifacts_of d i))"
proof -
  have kept: "artifact_share d' org a = artifact_share d org a" if "ma_mission_id a \<noteq> i" for a
  proof -
    have "artifact_missions d' org a = artifact_missions d org a"
      using that by (auto simp: artifact_missions_def assms(4) intro!: filter_cong)
    then show ?thesis by (simp add: artifact_share_def)
  qed
  have own: "artifact_share d org a = size_or_zero (ma_size_bytes a)" if "ma_mission_id a = i" for a
    using that assms(5) by (simp add: artifact_share_def artifact_missions_def)
  have "sum_list (map (artifact_share d org) (db_artifacts d)) =
      sum_list (map (artifact_share d org) (artifacts_of d i))
      + sum_list (map (artifact_share d org) (filter (\<lambda>a. ma_mission_id a \<noteq> i) (db_artifacts d)))"
    unfolding artifacts_of_def by (rule sum_list_split)
  moreover have "map (artifact_share d org) (artifacts_of d i) = map (\<lambda>a. size_or_zero (ma_size_bytes a)) (artifacts_of d i)"
    by (simp add: artifacts_of_def own)
  then have "sum_list (map (artifact_share d org) (artifacts_of d i)) =
      sum_list (map (\<lambda>a. size_or_zero (ma_size_bytes a)) (artifacts_of d i))" by (rule arg_cong)
  moreover have "map (artifact_share d' org) (db_artifacts d') =
      map (artifact_share d org) (filter (\<lambda>a. ma_mission_id a \<noteq> i) (db_artifacts d))"
    by (simp add: assms(3) kept)
  then have "sum_list (map (artifact_share d' org) (db_artifacts d')) =
      sum_list (map (artifact_share d org) (filter (\<lambda>a. ma_mission_id a \<noteq> i) (db_artifacts d)))" by (rule arg_cong)
  ultimately show ?thesis unfolding storage_usage_shares assms(1,2) by linarith
qed

lemma filter_owned:
  assumes "distinct (map m_id ms)" "m \<in> set ms"
  shows "filter (\<lambda>x. m_id x = m_id m \<and> m_organization_id x = m_organization_id m) ms = [m]"
proof -
  have "filter (\<lambda>x. m_id x = m_id m) ms = [m]" using distinct_filter_one [OF assms] .
  then have "filter (\<lambda>x. m_organization_id x = m_organization_id m) (filter (\<lambda>x. m_id x = m_id m) ms) = [m]" by simp
  then show ?thesis unfolding filter_filter by (simp add: conj_commute)
qed


definition example_claimed_candidate :: retention_candidate where
  "example_claimed_candidate = \<lparr>rc_mission_id = 7, rc_organization_id = ''acme'', rc_vol_id = ''flight-7'',
     rc_prefix = ''organizations/acme/missions/flight-7/'', rc_reason = ''retention''\<rparr>"

definition example_claimed_db :: db where
  "example_claimed_db = example_retention_db\<lparr>db_missions := [example_mission\<lparr>m_status := MissionDeleting\<rparr>]\<rparr>"


end
