(* ===== verification/StorageAccess.thy ===== *)
theory StorageAccess
  imports MissionCommands
begin

text \<open>
  Authorization of datasets and object paths (\<open>app4-dashboard/api/dataset_access.py\<close>): the owner a
  request acts for, the datasets it may see, and the dataset or mission an object path belongs to.
\<close>

subsection \<open>Datasets\<close>

definition resolve_dataset_owner ::
  "principal \<Rightarrow> string option \<Rightarrow> string \<Rightarrow> string option \<Rightarrow> bool \<Rightarrow> command_state \<Rightarrow> (string \<times> command_state) api" where
  "resolve_dataset_owner p requested action dataset_name audited s =
     (let owner = str_strip (if given_text requested \<noteq> [] then given_text requested else pr_subject p)
      in if owner = [] then Inl (HttpError 400 ''Owner subject cannot be empty'')
         else if owner = pr_subject p then Inr (owner, s)
         else if pr_role p \<noteq> ''admin'' then Inl (HttpError 404 ''Dataset not found'')
         else if \<not> audited
         then Inl (ServerError (RuntimeError ''Cross-member dataset access requires a durable audit session''))
         else Inr (owner, record_cross_member_access p action owner ''dataset'' dataset_name s))"

definition dataset_query ::
  "principal \<Rightarrow> string option \<Rightarrow> string \<Rightarrow> string option \<Rightarrow> dataset_status list \<Rightarrow> command_state
     \<Rightarrow> (dataset list \<times> command_state) api" where
  "dataset_query p requested action dataset_name statuses s =
     abind (resolve_dataset_owner p requested action dataset_name True s) (\<lambda>(owner, s1).
       Inr (filter (\<lambda>x. ds_organization_id x = pr_organization_id p \<and> ds_owner_subject x = owner
              \<and> ds_status x \<in> set statuses) (db_datasets (cs_db s1)), s1))"

definition get_owned_dataset ::
  "principal \<Rightarrow> string option \<Rightarrow> string option \<Rightarrow> string option \<Rightarrow> string \<Rightarrow> dataset_status list \<Rightarrow> command_state
     \<Rightarrow> (dataset \<times> command_state) api" where
  "get_owned_dataset p name prefix requested action statuses s =
     abind (dataset_query p requested action name statuses s) (\<lambda>(datasets, s1).
     abind (require_some (first_row (filter (\<lambda>x. (case name of None \<Rightarrow> True | Some n \<Rightarrow> ds_name x = n)
              \<and> (case prefix of None \<Rightarrow> True | Some f \<Rightarrow> ds_prefix x = f)) datasets)) 404 ''Dataset not found'') (\<lambda>x.
       Inr (x, s1)))"

subsection \<open>Object paths\<close>

definition invalid_path :: api_error where
  "invalid_path = HttpError 400 ''Invalid object storage path''"

definition normalize_storage_path :: "string \<Rightarrow> string api" where
  "normalize_storage_path path =
     (let normalized = str_rstrip (\<lambda>c. c = CHR ''/'') (map (\<lambda>c. if c = CHR 0x5C then CHR ''/'' else c) (str_strip path))
      in if normalized = [] then Inr []
         else if starts_with ''/'' normalized \<or> contains_sub ''//'' normalized then Inl invalid_path
         else if list_ex (\<lambda>part. part \<in> {[], ''.'', ''..''}) (split_text CHR ''/'' normalized) then Inl invalid_path
         else Inr normalized)"

text \<open>A path is a prefix itself or lies under it.\<close>

definition path_below :: "string \<Rightarrow> string \<Rightarrow> bool" where
  "path_below prefix path \<longleftrightarrow> path = prefix \<or> starts_with (prefix @ ''/'') path"

definition authorize_mission_path ::
  "string \<Rightarrow> principal \<Rightarrow> string option \<Rightarrow> string \<Rightarrow> command_state \<Rightarrow> (string \<times> command_state) api" where
  "authorize_mission_path normalized p requested action s =
     (let parts = split_text CHR ''/'' normalized
      in if parts ! 0 = ''missions''
         then abind (served (py_nth parts 1)) (\<lambda>vol_id.
              abind (get_owned_mission p vol_id requested action s) (\<lambda>(_, s1). Inr (normalized, s1)))
         else if 4 \<le> length parts \<and> parts ! 0 = ''organizations'' \<and> parts ! 1 = pr_organization_id p \<and> parts ! 2 = ''missions''
         then abind (get_owned_mission p (parts ! 3) requested action s) (\<lambda>(_, s1). Inr (normalized, s1))
         else Inl (HttpError 404 ''Path not found''))"

definition authorize_storage_path ::
  "string \<Rightarrow> principal \<Rightarrow> string option \<Rightarrow> string \<Rightarrow> command_state \<Rightarrow> (string \<times> command_state) api" where
  "authorize_storage_path path p requested action s =
     abind (normalize_storage_path path) (\<lambda>normalized.
     abind (require (normalized \<noteq> []) 404 ''Path not found'') (\<lambda>_.
     abind (dataset_query p requested action None [DatasetReady] s) (\<lambda>(datasets, s1).
       (case find (\<lambda>x. path_below (ds_prefix x) normalized) datasets of
          Some x \<Rightarrow>
            abind (get_owned_dataset p None (Some (ds_prefix x)) requested action [DatasetReady] s1) (\<lambda>(_, s2).
              Inr (normalized, s2))
        | None \<Rightarrow> authorize_mission_path normalized p requested action s1))))"

subsection \<open>Facts about paths\<close>

lemma split_text_not_Nil [simp]: "split_text c s \<noteq> []"
  by (induction s) (auto split: list.splits)

lemma split_text_single: "split_text c s = [p] \<Longrightarrow> s = p"
  by (induction s arbitrary: p) (auto split: list.splits if_splits)

lemma split_text_more:
  "split_text c s = p # q # ps \<Longrightarrow> \<exists>t. s = p @ c # t \<and> split_text c t = q # ps"
proof (induction s arbitrary: p)
  case (Cons x xs)
  show ?case
  proof (cases "x = c")
    case True
    with Cons.prems show ?thesis by auto
  next
    case False
    with Cons.prems obtain p' where "split_text c xs = p' # q # ps" "p = x # p'"
      by (auto split: list.splits)
    with Cons.IH [of p'] show ?thesis by auto
  qed
qed simp

lemma split_text_head: "split_text c s = p # ps \<Longrightarrow> s = p \<or> (\<exists>t. s = p @ c # t)"
  using split_text_single [of c s p] split_text_more [of c s p] by (cases ps) auto

lemma path_below_split: "split_text CHR ''/'' t = q # qs \<Longrightarrow> path_below (a @ q) (a @ t)"
  using split_text_head [of "CHR ''/''" t q qs] by (auto simp: path_below_def starts_with_def)

subsection \<open>Who reaches an object\<close>

definition dataset_access_recorded :: "principal \<Rightarrow> string \<Rightarrow> dataset \<Rightarrow> access_audit_event list \<Rightarrow> bool" where
  "dataset_access_recorded p action x events \<longleftrightarrow>
     ds_organization_id x = pr_organization_id p
     \<and> (ds_owner_subject x = pr_subject p
        \<or> pr_role p = ''admin''
          \<and> list_ex (\<lambda>e. aa_organization_id e = ds_organization_id x \<and> aa_actor_subject e = pr_subject p
               \<and> aa_action e = action \<and> aa_target_owner_subject e = ds_owner_subject x
               \<and> aa_resource_type e = ''dataset'') events)"

lemma resolve_dataset_owner_Inr:
  assumes "resolve_dataset_owner p requested action name audited s = Inr (owner, s1)"
  shows "cs_db s1 = cs_db s \<and> (\<exists>new. cs_audit s1 = cs_audit s @ new) \<and> (owner = pr_subject p
    \<or> pr_role p = ''admin'' \<and> s1 = record_cross_member_access p action owner ''dataset'' name s)"
  using assms by (auto simp: resolve_dataset_owner_def Let_def record_cross_member_access_def split: if_splits)

lemma dataset_query_Inr:
  assumes "dataset_query p requested action name statuses s = Inr (datasets, s1)"
  shows "cs_db s1 = cs_db s" "\<exists>new. cs_audit s1 = cs_audit s @ new"
    "x \<in> set datasets \<Longrightarrow> x \<in> set (db_datasets (cs_db s)) \<and> ds_status x \<in> set statuses
       \<and> dataset_access_recorded p action x (cs_audit s1)"
proof -
  obtain owner where o: "resolve_dataset_owner p requested action name True s = Inr (owner, s1)"
    and f: "datasets = filter (\<lambda>x. ds_organization_id x = pr_organization_id p \<and> ds_owner_subject x = owner
              \<and> ds_status x \<in> set statuses) (db_datasets (cs_db s1))"
    using assms by (auto simp: dataset_query_def abind_Inr_iff)
  note owner = resolve_dataset_owner_Inr [OF o]
  then show "cs_db s1 = cs_db s" "\<exists>new. cs_audit s1 = cs_audit s @ new" by simp_all
  show "x \<in> set (db_datasets (cs_db s)) \<and> ds_status x \<in> set statuses \<and> dataset_access_recorded p action x (cs_audit s1)"
    if "x \<in> set datasets"
    using that owner by (auto simp: f dataset_access_recorded_def record_cross_member_access_def)
qed

lemma dataset_access_kept:
  "dataset_access_recorded p action x events \<Longrightarrow> dataset_access_recorded p action x (events @ new)"
  by (auto simp: dataset_access_recorded_def)

lemma get_owned_dataset_Inr:
  assumes "get_owned_dataset p name prefix requested action statuses s = Inr (x, s1)"
  shows "cs_db s1 = cs_db s \<and> (\<exists>new. cs_audit s1 = cs_audit s @ new) \<and> x \<in> set (db_datasets (cs_db s))
    \<and> ds_status x \<in> set statuses \<and> dataset_access_recorded p action x (cs_audit s1)
    \<and> (\<forall>f. prefix = Some f \<longrightarrow> ds_prefix x = f) \<and> (\<forall>n. name = Some n \<longrightarrow> ds_name x = n)"
proof -
  obtain datasets where q: "dataset_query p requested action name statuses s = Inr (datasets, s1)"
    and f: "first_row (filter (\<lambda>x. (case name of None \<Rightarrow> True | Some n \<Rightarrow> ds_name x = n)
              \<and> (case prefix of None \<Rightarrow> True | Some f \<Rightarrow> ds_prefix x = f)) datasets) = Some x"
    using assms by (auto simp: get_owned_dataset_def abind_Inr_iff)
  from first_row_Some_mem [OF f] dataset_query_Inr [OF q] show ?thesis by auto
qed

lemma get_owned_mission_Inr:
  assumes "get_owned_mission p vol_id requested action s = Inr (m, s1)"
  shows "access_recorded p action m (cs_audit s1)" "cs_db s1 = cs_db s" "m \<in> set (db_missions (cs_db s))" "m_vol_id m = vol_id"
proof -
  have "find_mission p vol_id requested action s = Inr (Some m, s1)"
    using assms by (auto simp: get_owned_mission_def abind_Inr_iff)
  from found_access_recorded [OF this] show "access_recorded p action m (cs_audit s1)" "cs_db s1 = cs_db s"
    "m \<in> set (db_missions (cs_db s))" "m_vol_id m = vol_id" by simp_all
qed

text \<open>The paths of a mission: under its organization, and for the legacy organization also directly.\<close>

definition mission_area :: "string \<Rightarrow> string \<Rightarrow> string \<Rightarrow> bool" where
  "mission_area organization_id vol_id path \<longleftrightarrow>
     path_below (''organizations/'' @ organization_id @ ''/missions/'' @ vol_id) path
     \<or> organization_id = LEGACY_ORGANIZATION_ID \<and> path_below (''missions/'' @ vol_id) path"

lemma authorize_mission_path_Inr:
  assumes "authorize_mission_path path p requested action s = Inr (key, s')"
    and "pr_organization_id p = LEGACY_ORGANIZATION_ID \<or> \<not> starts_with ''missions/'' key"
  shows "\<exists>m \<in> set (db_missions (cs_db s)). access_recorded p action m (cs_audit s')
    \<and> mission_area (m_organization_id m) (m_vol_id m) key"
proof -
  let ?parts = "split_text CHR ''/'' path"
  have key: "key = path"
    using assms(1) by (auto simp: authorize_mission_path_def Let_def abind_Inr_iff split: if_splits)
  show ?thesis
  proof (cases "?parts ! 0 = ''missions''")
    case True
    then obtain vol_id m where v: "py_nth ?parts 1 = Inr vol_id" and m: "get_owned_mission p vol_id requested action s = Inr (m, s')"
      using assms(1) by (auto simp: authorize_mission_path_def Let_def abind_Inr_iff)
    obtain ps where parts: "?parts = ''missions'' # vol_id # ps"
      using True v by (cases ?parts; cases "tl ?parts") (auto simp: py_nth_def split: if_splits)
    obtain t where t: "path = ''missions'' @ CHR ''/'' # t" "split_text CHR ''/'' t = vol_id # ps"
      using split_text_more [OF parts] by blast
    have "pr_organization_id p = LEGACY_ORGANIZATION_ID" using assms(2) t(1) key by (auto simp: starts_with_def)
    moreover have "path_below (''missions/'' @ vol_id) path" using path_below_split [OF t(2), of "''missions/''"] t(1) by simp
    ultimately show ?thesis
      using get_owned_mission_Inr [OF m] key by (auto simp: mission_area_def access_recorded_def)
  next
    case False
    then have org: "4 \<le> length ?parts" "?parts ! 0 = ''organizations''" "?parts ! 1 = pr_organization_id p" "?parts ! 2 = ''missions''"
      and "\<exists>m. get_owned_mission p (?parts ! 3) requested action s = Inr (m, s')"
      using assms(1) by (auto simp: authorize_mission_path_def Let_def abind_Inr_iff split: if_splits)
    then obtain m where m: "get_owned_mission p (?parts ! 3) requested action s = Inr (m, s')" by blast
    obtain vol_id ps where parts: "?parts = ''organizations'' # pr_organization_id p # ''missions'' # vol_id # ps"
      using org by (cases ?parts; cases "tl ?parts"; cases "tl (tl ?parts)"; cases "tl (tl (tl ?parts))") auto
    obtain t1 where t1: "path = ''organizations'' @ CHR ''/'' # t1" "split_text CHR ''/'' t1 = pr_organization_id p # ''missions'' # vol_id # ps"
      using split_text_more [OF parts] by blast
    obtain t2 where t2: "t1 = pr_organization_id p @ CHR ''/'' # t2" "split_text CHR ''/'' t2 = ''missions'' # vol_id # ps"
      using split_text_more [OF t1(2)] by blast
    obtain t3 where t3: "t2 = ''missions'' @ CHR ''/'' # t3" "split_text CHR ''/'' t3 = vol_id # ps"
      using split_text_more [OF t2(2)] by blast
    have "path_below (''organizations/'' @ pr_organization_id p @ ''/missions/'' @ vol_id) path"
      using path_below_split [OF t3(2), of "''organizations/'' @ pr_organization_id p @ ''/missions/''"] t1(1) t2(1) t3(1) by simp
    moreover have "m_organization_id m = pr_organization_id p" "m_vol_id m = vol_id"
      using get_owned_mission_Inr [OF m] parts by (auto simp: access_recorded_def)
    ultimately show ?thesis using get_owned_mission_Inr [OF m] key by (auto simp: mission_area_def)
  qed
qed

text \<open>C20: An object path is authorized only inside a ready dataset or a mission of the caller's own
  organization that the caller owns, or an administrator reaches with an access in the audit;
  except for paths under missions/, which belong to the legacy organization.\<close>

theorem storage_paths_stay_in_tenant:
  assumes "authorize_storage_path path p requested action s = Inr (key, s')"
    and "pr_organization_id p = LEGACY_ORGANIZATION_ID \<or> \<not> starts_with ''missions/'' key"
  shows "(\<exists>x \<in> set (db_datasets (cs_db s)). ds_status x = DatasetReady \<and> dataset_access_recorded p action x (cs_audit s')
        \<and> path_below (ds_prefix x) key)
    \<or> (\<exists>m \<in> set (db_missions (cs_db s)). access_recorded p action m (cs_audit s')
        \<and> mission_area (m_organization_id m) (m_vol_id m) key)"
proof -
  obtain normalized datasets s1 where q: "dataset_query p requested action None [DatasetReady] s = Inr (datasets, s1)"
    and cont: "(case find (\<lambda>x. path_below (ds_prefix x) normalized) datasets of
          Some x \<Rightarrow>
            abind (get_owned_dataset p None (Some (ds_prefix x)) requested action [DatasetReady] s1) (\<lambda>(_, s2).
              Inr (normalized, s2))
        | None \<Rightarrow> authorize_mission_path normalized p requested action s1) = Inr (key, s')"
    using assms(1) by (auto simp: authorize_storage_path_def abind_Inr_iff)
  have db: "cs_db s1 = cs_db s" using dataset_query_Inr [OF q] by simp
  show ?thesis
  proof (cases "find (\<lambda>x. path_below (ds_prefix x) normalized) datasets")
    case None
    with cont have "authorize_mission_path normalized p requested action s1 = Inr (key, s')" by simp
    from authorize_mission_path_Inr [OF this assms(2)] db show ?thesis by simp
  next
    case (Some x)
    then have below: "path_below (ds_prefix x) normalized" by (auto simp: find_Some_iff)
    obtain y where y: "get_owned_dataset p None (Some (ds_prefix x)) requested action [DatasetReady] s1 = Inr (y, s')"
      "key = normalized" using cont Some by (auto simp: abind_Inr_iff)
    from get_owned_dataset_Inr [OF y(1)] below db y(2) show ?thesis by auto
  qed
qed

definition example_owner :: principal where
  "example_owner = static_principal ''ann'' ''operator'' ''acme'' ''static''"

lemma storage_paths_stay_in_tenant_witness:
  "\<exists>s'. authorize_storage_path ''organizations/acme/missions/flight-7/o.tif'' example_owner None ''download_storage''
      example_commands = Inr (''organizations/acme/missions/flight-7/o.tif'', s')
    \<and> mission_area ''acme'' ''flight-7'' ''organizations/acme/missions/flight-7/o.tif''"
proof -
  let ?key = "''organizations/acme/missions/flight-7/o.tif''"
  let ?r = "authorize_storage_path ?key example_owner None ''download_storage'' example_commands"
  have "map_sum id fst ?r = Inr ?key" by code_simp
  then obtain s' where s': "?r = Inr (?key, s')" by (cases ?r) auto
  have "pr_organization_id example_owner = LEGACY_ORGANIZATION_ID \<or> \<not> starts_with ''missions/'' ?key"
    "db_datasets (cs_db example_commands) = []" by code_simp+
  from storage_paths_stay_in_tenant [OF s' this(1)] this(2) example_commands_ok(3)
  have "mission_area (m_organization_id example_mission) (m_vol_id example_mission) ?key" by simp
  with s' show ?thesis by (simp add: example_mission_def)
qed

text \<open>A path under missions/ is authorized by a mission of that name in any organization, although its
  objects are those of the legacy organization.\<close>

lemma legacy_mission_objects_leak:
  "map_sum id fst (authorize_storage_path ''missions/flight-7/o.tif'' example_owner None ''download_storage'' example_commands)
     = Inr ''missions/flight-7/o.tif''"
  "pr_organization_id example_owner \<noteq> LEGACY_ORGANIZATION_ID"
  "path_below (root_of LEGACY_ORGANIZATION_ID ''flight-7'') ''missions/flight-7/o.tif''"
  by code_simp+

end
