(* ===== verification/GcpBundles.thy ===== *)
theory GcpBundles
  imports EventContracts ShardReceipts
begin

text \<open>
  Bundles of operator-marked ground control points (\<open>shared/gcp_bundle.py\<close>, and their assembly in
  \<open>app4-dashboard/api/gcp_workspace.py\<close>): the coordinate and accuracy files, the descriptor that a
  stage request carries, and the check of a descriptor.

  Coordinates are rationals; their text (\<open>format(x, ".12g")\<close>) is the argument \<open>fmt\<close>. Texts have code
  points below 256.
\<close>

subsection \<open>Files\<close>

record bundle_observation =
  bo_image_name :: string
  bo_pixel_x :: rat
  bo_pixel_y :: rat

record bundle_point =
  bp_external_id :: string
  bp_source_xyz :: "rat \<times> rat \<times> rat"
  bp_role :: string
  bp_horizontal_accuracy_m :: rat
  bp_vertical_accuracy_m :: rat
  bp_image_accuracy_px :: rat
  bp_observations :: "bundle_observation list"

record gcp_bundle_files =
  gf_gcp_list :: string
  gf_accuracy_csv :: string
  gf_adjustment_points :: int
  gf_checkpoint_points :: int
  gf_observation_count :: int

definition newline :: string where
  "newline = [CHR 0x0A]"

text \<open>A row of \<open>csv.writer\<close>: a field with a comma, a quote or a line break is quoted.\<close>

definition csv_field :: "string \<Rightarrow> string" where
  "csv_field s =
     (if list_ex (\<lambda>c. c \<in> set '','' \<or> c = CHR 0x22 \<or> c = CHR 0x0A \<or> c = CHR 0x0D) s
      then [CHR 0x22] @ concat (map (\<lambda>c. if c = CHR 0x22 then [c, c] else [c]) s) @ [CHR 0x22] else s)"

definition csv_row :: "string list \<Rightarrow> string" where
  "csv_row cells = join_text '','' (map csv_field cells) @ newline"

definition quoted_text :: "string \<Rightarrow> string" where
  "quoted_text s = py_repr (PStr s)"

definition observation_line :: "(rat \<Rightarrow> string) \<Rightarrow> bundle_point \<Rightarrow> bundle_observation \<Rightarrow> string res" where
  "observation_line fmt p ob =
     (if list_ex is_space (bo_image_name ob)
      then Inl (ValueError (''Image name contains whitespace and cannot be exported to ODM: '' @ quoted_text (bo_image_name ob)))
      else
        (case bp_source_xyz p of
           (x, y, z) \<Rightarrow>
             Inr (join_text '' '' [fmt x, fmt y, fmt z, fmt (bo_pixel_x ob), fmt (bo_pixel_y ob), bo_image_name ob,
                    bp_external_id p])))"

definition accuracy_row :: "(rat \<Rightarrow> string) \<Rightarrow> bundle_point \<Rightarrow> string" where
  "accuracy_row fmt p =
     csv_row [bp_external_id p, fmt (bp_horizontal_accuracy_m p), fmt (bp_vertical_accuracy_m p),
       fmt (bp_image_accuracy_px p), bp_role p]"

definition point_output :: "(rat \<Rightarrow> string) \<Rightarrow> bundle_point \<Rightarrow> (string \<times> string list) res" where
  "point_output fmt p =
     (if list_ex is_space (bp_external_id p)
      then Inl (ValueError (''GCP identifier contains whitespace: '' @ quoted_text (bp_external_id p)))
      else rbind (rmap (observation_line fmt p) (sort_key bo_image_name (bp_observations p))) (\<lambda>lines.
             Inr (accuracy_row fmt p, lines)))"

definition active_points :: "bundle_point list \<Rightarrow> bundle_point list" where
  "active_points points = sort_key bp_external_id (filter (\<lambda>p. bp_role p \<noteq> ''disabled'') points)"

definition role_count :: "string \<Rightarrow> bundle_point list \<Rightarrow> int" where
  "role_count role points = int (length (filter (\<lambda>p. bp_role p = role) points))"

definition build_gcp_bundle_files :: "(rat \<Rightarrow> string) \<Rightarrow> string \<Rightarrow> bundle_point list \<Rightarrow> gcp_bundle_files res" where
  "build_gcp_bundle_files fmt source_crs points =
     (let active = active_points points;
          invalid = map bp_external_id (filter (\<lambda>p. length (bp_observations p) < 2) active)
      in if invalid \<noteq> []
         then Inl (ValueError (''Every active GCP requires at least two marked photos: '' @ join_text '', '' invalid))
         else if role_count ''adjustment'' active < 3
         then Inl (ValueError ''At least three marked adjustment GCPs are required'')
         else
           rbind (rmap (point_output fmt) active) (\<lambda>outputs.
             (let lines = concat (map snd outputs)
              in Inr \<lparr>gf_gcp_list = join_text newline (source_crs # lines) @ newline,
                      gf_accuracy_csv = csv_row [''point_id'', ''horizontal_accuracy_m'', ''vertical_accuracy_m'',
                          ''image_accuracy_px'', ''role''] @ concat (map fst outputs),
                      gf_adjustment_points = role_count ''adjustment'' active,
                      gf_checkpoint_points = role_count ''checkpoint'' active,
                      gf_observation_count = int (length lines)\<rparr>)))"

subsection \<open>Descriptors\<close>

text \<open>The number of bytes of a text in UTF-8.\<close>

definition utf8_size :: "string \<Rightarrow> int" where
  "utf8_size s = sum_list (map (\<lambda>c. if (of_char c :: nat) < 128 then 1 else 2) s)"

definition bundle_blob :: "world \<Rightarrow> string \<Rightarrow> string \<Rightarrow> dict res" where
  "bundle_blob w data organization_id =
     (let checksum = w_sha256 w data
      in rbind (content_addressed_blob_key checksum organization_id) (\<lambda>key.
           Inr (fmap_of_list [(''key'', PStr key), (''size'', PInt (utf8_size data)), (''sha256'', PStr checksum)])))"

definition verification_status :: "int \<Rightarrow> string" where
  "verification_status checkpoints = (if 0 < checkpoints then ''independent-checkpoints'' else ''adjustment-only-unverified'')"

definition gcp_bundle :: "world \<Rightarrow> string \<Rightarrow> string \<Rightarrow> string \<Rightarrow> gcp_bundle_files \<Rightarrow> dict res" where
  "gcp_bundle w organization_id set_id source_sha256 files =
     rbind (bundle_blob w (gf_gcp_list files) organization_id) (\<lambda>gcp_list.
     rbind (bundle_blob w (gf_accuracy_csv files) organization_id) (\<lambda>accuracy.
       Inr (fmap_of_list
         [(''schema_version'', PInt 2), (''organization_id'', PStr organization_id), (''set_id'', PStr set_id),
          (''source_sha256'', PStr source_sha256), (''gcp_list'', PDict gcp_list), (''accuracy_csv'', PDict accuracy),
          (''quality'', PDict (fmap_of_list
             [(''adjustment_points'', PInt (gf_adjustment_points files)),
              (''checkpoint_points'', PInt (gf_checkpoint_points files)),
              (''marked_observations'', PInt (gf_observation_count files)),
              (''verification'', PStr (verification_status (gf_checkpoint_points files)))]))])))"

subsection \<open>The check of a descriptor\<close>

definition invalid :: "string \<Rightarrow> 'a res" where
  "invalid message = Inl (ValueError message)"

definition bundle_organization :: "dict \<Rightarrow> string res" where
  "bundle_organization payload =
     (if dget payload ''schema_version'' \<noteq> PInt 2 then invalid ''Unsupported GCP bundle schema version''
      else
        (case dget payload ''organization_id'' of
           PStr raw \<Rightarrow>
             rbind (validate_organization_id raw) (\<lambda>organization.
               if organization = LEGACY_ORGANIZATION_ID then invalid ''GCP bundle v2 requires a non-legacy organization''
               else if fmdom payload \<noteq> fset_of_list [''schema_version'', ''set_id'', ''source_sha256'', ''gcp_list'',
                         ''accuracy_csv'', ''quality'', ''organization_id'']
               then invalid ''GCP bundle fields are invalid''
               else Inr organization)
         | _ \<Rightarrow> invalid ''GCP bundle organization is invalid''))"

definition validate_bundle_tenant :: "string \<Rightarrow> string option \<Rightarrow> unit res" where
  "validate_bundle_tenant organization expected =
     (case expected of
        None \<Rightarrow> Inr ()
      | Some expected_id \<Rightarrow>
          rbind (validate_organization_id expected_id) (\<lambda>expected_organization.
            if organization \<noteq> expected_organization then invalid ''GCP bundle organization does not match mission''
            else Inr ()))"

definition validate_bundle_identity :: "dict \<Rightarrow> unit res" where
  "validate_bundle_identity payload =
     (if \<not> uuid_text (py_str (dget payload ''set_id'')) then invalid ''GCP bundle set_id is invalid''
      else
        (case dget payload ''source_sha256'' of
           PStr s \<Rightarrow> (if is_lower_sha256 s then Inr () else invalid ''GCP bundle source checksum is invalid'')
         | _ \<Rightarrow> invalid ''GCP bundle source checksum is invalid''))"

definition quality_count :: "dict \<Rightarrow> string \<Rightarrow> int res" where
  "quality_count quality name =
     (case dget quality name of
        PInt n \<Rightarrow> (if n < 0 then invalid (''GCP bundle quality field '' @ name @ '' is invalid'') else Inr n)
      | _ \<Rightarrow> invalid (''GCP bundle quality field '' @ name @ '' is invalid''))"

definition validate_bundle_quality :: "dict \<Rightarrow> unit res" where
  "validate_bundle_quality payload =
     (case dget payload ''quality'' of
        PDict quality \<Rightarrow>
          (if fmdom quality \<noteq> fset_of_list [''adjustment_points'', ''checkpoint_points'', ''marked_observations'', ''verification'']
           then invalid ''GCP bundle quality summary is invalid''
           else
             rbind (quality_count quality ''adjustment_points'') (\<lambda>adjustment.
             rbind (quality_count quality ''checkpoint_points'') (\<lambda>checkpoints.
             rbind (quality_count quality ''marked_observations'') (\<lambda>observations.
               if adjustment < 3 then invalid ''GCP bundle requires at least three adjustment points''
               else if observations < 2 * (adjustment + checkpoints)
               then invalid ''GCP bundle observation count is inconsistent''
               else if dget quality ''verification'' \<noteq> PStr (verification_status checkpoints)
               then invalid ''GCP bundle verification status is inconsistent''
               else Inr ()))))
      | _ \<Rightarrow> invalid ''GCP bundle quality summary is invalid'')"

definition validated_bundle_descriptor :: "dict \<Rightarrow> string \<Rightarrow> string \<Rightarrow> dict res" where
  "validated_bundle_descriptor payload name organization =
     (case dget payload name of
        PDict descriptor \<Rightarrow>
          (if fmdom descriptor \<noteq> fset_of_list [''key'', ''size'', ''sha256'']
           then invalid (''GCP bundle '' @ name @ '' descriptor is invalid'')
           else
             (case dget descriptor ''sha256'' of
                PStr checksum \<Rightarrow>
                  (if \<not> is_lower_sha256 checksum then invalid (''GCP bundle '' @ name @ '' checksum is invalid'')
                   else
                     (case dget descriptor ''size'' of
                        PInt n \<Rightarrow>
                          (if n \<le> 0 then invalid (''GCP bundle '' @ name @ '' size is invalid'')
                           else
                             rbind (content_addressed_blob_key checksum organization) (\<lambda>key.
                               if dget descriptor ''key'' \<noteq> PStr key
                               then invalid (''GCP bundle '' @ name @ '' key is not content-addressed'')
                               else Inr descriptor))
                      | _ \<Rightarrow> invalid (''GCP bundle '' @ name @ '' size is invalid'')))
              | _ \<Rightarrow> invalid (''GCP bundle '' @ name @ '' checksum is invalid'')))
      | _ \<Rightarrow> invalid (''GCP bundle '' @ name @ '' descriptor is invalid''))"

definition validate_gcp_bundle :: "pyval \<Rightarrow> string option \<Rightarrow> (dict \<times> dict) res" where
  "validate_gcp_bundle v expected_organization_id =
     (case v of
        PDict payload \<Rightarrow>
          rbind (bundle_organization payload) (\<lambda>organization.
          rbind (validate_bundle_tenant organization expected_organization_id) (\<lambda>_.
          rbind (validate_bundle_identity payload) (\<lambda>_.
          rbind (validate_bundle_quality payload) (\<lambda>_.
          rbind (validated_bundle_descriptor payload ''gcp_list'' organization) (\<lambda>gcp_list.
          rbind (validated_bundle_descriptor payload ''accuracy_csv'' organization) (\<lambda>accuracy.
            Inr (gcp_list, accuracy)))))))
      | _ \<Rightarrow> invalid ''GCP bundle fields are invalid'')"

subsection \<open>Facts\<close>

lemma invalid_not_Inr [simp]: "invalid m \<noteq> Inr x" "Inr x \<noteq> invalid m" "is_value_error (ValueError m)"
  by (simp_all add: invalid_def)

text \<open>Every active point contributes its observations.\<close>

lemma point_output_lines: "point_output fmt p = Inr (row, lines) \<Longrightarrow> length lines = length (bp_observations p)"
  by (auto simp: point_output_def rbind_Inr_iff rmap_length split: if_splits)

lemma observations_counted:
  "rmap (point_output fmt) ps = Inr outputs \<Longrightarrow> \<forall>p \<in> set ps. 2 \<le> length (bp_observations p) \<Longrightarrow>
   2 * (role_count ''adjustment'' ps + role_count ''checkpoint'' ps) \<le> int (length (concat (map snd outputs)))"
proof (induction ps arbitrary: outputs)
  case (Cons p ps)
  then obtain row lines rest where o: "point_output fmt p = Inr (row, lines)" "rmap (point_output fmt) ps = Inr rest"
    "outputs = (row, lines) # rest" by (auto simp: rbind_Inr_iff)
  have "2 \<le> length lines" using point_output_lines [OF o(1)] Cons.prems(2) by simp
  with Cons.IH [OF o(2)] Cons.prems(2) show ?case by (auto simp: o(3) role_count_def)
qed (simp add: role_count_def)

lemma build_bundle_Inr:
  assumes "build_gcp_bundle_files fmt crs points = Inr files"
  shows "3 \<le> gf_adjustment_points files \<and> 0 \<le> gf_checkpoint_points files
    \<and> 2 * (gf_adjustment_points files + gf_checkpoint_points files) \<le> gf_observation_count files
    \<and> gf_gcp_list files \<noteq> [] \<and> gf_accuracy_csv files \<noteq> []"
proof -
  let ?active = "active_points points"
  obtain outputs where out: "rmap (point_output fmt) ?active = Inr outputs"
    and two: "filter (\<lambda>p. length (bp_observations p) < 2) ?active = []" and three: "3 \<le> role_count ''adjustment'' ?active"
    and files: "gf_adjustment_points files = role_count ''adjustment'' ?active"
      "gf_checkpoint_points files = role_count ''checkpoint'' ?active"
      "gf_observation_count files = int (length (concat (map snd outputs)))"
      "gf_gcp_list files \<noteq> []" "gf_accuracy_csv files \<noteq> []"
    using assms by (auto simp: build_gcp_bundle_files_def Let_def rbind_Inr_iff newline_def csv_row_def split: if_splits)
  have "\<forall>p \<in> set ?active. 2 \<le> length (bp_observations p)"
    using two by (auto simp: filter_empty_conv)
  from observations_counted [OF out this] three files show ?thesis by (simp add: role_count_def)
qed

lemma utf8_size_pos: "s \<noteq> [] \<Longrightarrow> 0 < utf8_size s"
proof (cases s)
  case (Cons c cs)
  have "0 \<le> sum_list (map (\<lambda>c. if (of_char c :: nat) < 128 then 1 else 2 :: int) cs)" by (rule sum_list_nonneg) auto
  then show ?thesis by (simp add: Cons utf8_size_def)
qed simp

lemma bundle_blob_Inr:
  "bundle_blob w data organization = Inr b \<longleftrightarrow>
   (\<exists>key. content_addressed_blob_key (w_sha256 w data) organization = Inr key
     \<and> b = fmap_of_list [(''key'', PStr key), (''size'', PInt (utf8_size data)), (''sha256'', PStr (w_sha256 w data))])"
  by (auto simp: bundle_blob_def Let_def rbind_Inr_iff)

lemma built_descriptor_accepted:
  assumes "bundle_blob w data organization = Inr b" "data \<noteq> []" "dget payload name = PDict b"
  shows "validated_bundle_descriptor payload name organization = Inr b"
proof -
  obtain key where key: "content_addressed_blob_key (w_sha256 w data) organization = Inr key"
    and b: "b = fmap_of_list [(''key'', PStr key), (''size'', PInt (utf8_size data)), (''sha256'', PStr (w_sha256 w data))]"
    using assms(1) unfolding bundle_blob_Inr by blast
  have reads: "dget b ''key'' = PStr key" "dget b ''size'' = PInt (utf8_size data)" "dget b ''sha256'' = PStr (w_sha256 w data)"
    "fmdom b = fset_of_list [''key'', ''size'', ''sha256'']"
    by (simp_all add: b dget_def fmlookup_of_list)
  have "is_lower_sha256 (w_sha256 w data)" using key by (auto simp: content_addressed_blob_key_def split: if_splits)
  then show ?thesis
    using utf8_size_pos [OF assms(2)] key by (simp add: validated_bundle_descriptor_def assms(3) reads)
qed

text \<open>C21: What the builder of a bundle assembles from marked points is what the stage request accepts for
  a mission of the same organization: the descriptors that come out are those that went in.\<close>

theorem built_gcp_bundles_are_accepted:
  assumes "build_gcp_bundle_files fmt crs points = Inr files" and "gcp_bundle w organization set_id source files = Inr bundle"
    and "uuid_text set_id" and "is_lower_sha256 source"
  shows "\<exists>gcp_list accuracy. validate_gcp_bundle (PDict bundle) (Some organization) = Inr (gcp_list, accuracy)
    \<and> bundle_blob w (gf_gcp_list files) organization = Inr gcp_list
    \<and> bundle_blob w (gf_accuracy_csv files) organization = Inr accuracy"
proof -
  note built = build_bundle_Inr [OF assms(1)]
  obtain l a where blobs: "bundle_blob w (gf_gcp_list files) organization = Inr l" "bundle_blob w (gf_accuracy_csv files) organization = Inr a"
    and eq: "bundle = fmap_of_list
         [(''schema_version'', PInt 2), (''organization_id'', PStr organization), (''set_id'', PStr set_id),
          (''source_sha256'', PStr source), (''gcp_list'', PDict l), (''accuracy_csv'', PDict a),
          (''quality'', PDict (fmap_of_list
             [(''adjustment_points'', PInt (gf_adjustment_points files)),
              (''checkpoint_points'', PInt (gf_checkpoint_points files)),
              (''marked_observations'', PInt (gf_observation_count files)),
              (''verification'', PStr (verification_status (gf_checkpoint_points files)))]))]"
    using assms(2) by (auto simp: gcp_bundle_def rbind_Inr_iff)
  obtain valid where valid: "validate_organization_id organization = Inr valid" "valid \<noteq> LEGACY_ORGANIZATION_ID"
    using blobs(1) by (auto simp: bundle_blob_Inr content_addressed_blob_key_def validate_cas_organization_def rbind_Inr_iff
        split: if_splits)
  have dom: "fmdom bundle = fset_of_list [''schema_version'', ''set_id'', ''source_sha256'', ''gcp_list'',
      ''accuracy_csv'', ''quality'', ''organization_id'']"
    unfolding eq by (simp only: fmdom_fmap_of_list list.map fst_conv fset_of_list_simps finsert_commute)
  have reads: "dget bundle ''schema_version'' = PInt 2" "dget bundle ''organization_id'' = PStr organization"
    by (simp_all add: eq dget_def fmlookup_of_list)
  have "bundle_organization bundle = Inr valid"
    using valid unfolding bundle_organization_def reads dom by simp
  moreover have "validate_bundle_tenant valid (Some organization) = Inr ()"
    using valid by (simp add: validate_bundle_tenant_def)
  moreover have "validate_bundle_identity bundle = Inr ()"
    using assms(3,4) by (simp add: validate_bundle_identity_def eq dget_def fmlookup_of_list)
  moreover have "validate_bundle_quality bundle = Inr ()"
    using built by (simp add: validate_bundle_quality_def quality_count_def eq dget_def fmlookup_of_list)
  moreover have "content_addressed_blob_key c valid = content_addressed_blob_key c organization" for c
    using valid(1) by (simp add: content_addressed_blob_key_def validate_cas_organization_def validate_organization_id_idem)
  then have "bundle_blob w data valid = bundle_blob w data organization" for data
    by (simp add: bundle_blob_def)
  then have same: "bundle_blob w (gf_gcp_list files) valid = Inr l" "bundle_blob w (gf_accuracy_csv files) valid = Inr a"
    using blobs by simp_all
  have get: "dget bundle ''gcp_list'' = PDict l" "dget bundle ''accuracy_csv'' = PDict a"
    by (simp_all add: eq dget_def fmlookup_of_list)
  have "validated_bundle_descriptor bundle ''gcp_list'' valid = Inr l" "validated_bundle_descriptor bundle ''accuracy_csv'' valid = Inr a"
    using built_descriptor_accepted [OF same(1) _ get(1)] built_descriptor_accepted [OF same(2) _ get(2)] built by simp_all
  ultimately show ?thesis using blobs by (simp add: validate_gcp_bundle_def)
qed

definition example_point :: "string \<Rightarrow> bundle_point" where
  "example_point i = \<lparr>bp_external_id = i, bp_source_xyz = (1, 2, 3), bp_role = ''adjustment'', bp_horizontal_accuracy_m = 1,
     bp_vertical_accuracy_m = 1, bp_image_accuracy_px = 1,
     bp_observations = [\<lparr>bo_image_name = ''b.jpg'', bo_pixel_x = 1, bo_pixel_y = 2\<rparr>, \<lparr>bo_image_name = ''a.jpg'', bo_pixel_x = 3, bo_pixel_y = 4\<rparr>]\<rparr>"

definition example_hash_world :: world where
  "example_hash_world = example_digest_world\<lparr>w_sha256 := \<lambda>_. replicate 64 CHR ''a''\<rparr>"

lemma built_gcp_bundles_are_accepted_witness:
  "\<exists>files bundle. build_gcp_bundle_files (\<lambda>_. ''1'') ''EPSG:2154'' (map example_point [''c'', ''a'', ''b'']) = Inr files
    \<and> gcp_bundle example_hash_world ''acme'' (replicate 32 CHR ''0'') (replicate 64 CHR ''b'') files = Inr bundle
    \<and> \<not> isl (validate_gcp_bundle (PDict bundle) (Some ''acme''))"
proof -
  let ?b = "build_gcp_bundle_files (\<lambda>_. ''1'') ''EPSG:2154'' (map example_point [''c'', ''a'', ''b''])"
  have "\<not> isl ?b" by code_simp
  then obtain files where files: "?b = Inr files" by (cases ?b) auto
  have "\<not> isl (gcp_bundle example_hash_world ''acme'' (replicate 32 CHR ''0'') (replicate 64 CHR ''b'') files)"
    by (simp add: gcp_bundle_def bundle_blob_def example_hash_world_def content_addressed_blob_key_def is_lower_sha256_def
        hex_char_def list_all_iff validate_cas_organization_def LEGACY_ORGANIZATION_ID_def) code_simp
  then obtain payload where made: "gcp_bundle example_hash_world ''acme'' (replicate 32 CHR ''0'') (replicate 64 CHR ''b'') files = Inr payload"
    by (cases "gcp_bundle example_hash_world ''acme'' (replicate 32 CHR ''0'') (replicate 64 CHR ''b'') files") auto
  have "uuid_text (replicate 32 CHR ''0'')" "is_lower_sha256 (replicate 64 CHR ''b'')" by code_simp+
  from built_gcp_bundles_are_accepted [OF files made this] show ?thesis using files made by auto
qed

end
