(* ===== verification/StageCommands.thy ===== *)
theory StageCommands
  imports StorageAccess StageExecution OrchestratorSettings GcpBundles
begin

text \<open>
  The commands on the stages of a mission (\<open>routers/mission_stages.py\<close> of the API): a retry of one
  stage under an idempotency key, and the publication of an artifact by an administrator.

  Request models are taken as already checked: the artifact identifiers of a request are UUIDs, and
  the parents of a publication are distinct. The store answers \<open>head_object\<close> with the checksum in
  the metadata of an object, if it has the object.
\<close>

subsection \<open>Requests\<close>

record stage_request =
  sq_parameters :: dict
  sq_upstream_artifact_ids :: "(stage_id \<times> string) list"

definition request_key :: "world \<Rightarrow> principal \<Rightarrow> string \<Rightarrow> string" where
  "request_key w p raw_key =
     w_sha256 w (''stage-request-v2:'' @ pr_organization_id p @ '':'' @ pr_subject p @ '':'' @ raw_key)"

text \<open>An \<open>except ValueError\<close> clause that answers with status 422.\<close>

definition unprocessable :: "'a res \<Rightarrow> 'a api" where
  "unprocessable r =
     (case r of
        Inl e \<Rightarrow> (if is_value_error e then Inl (HttpError 422 (error_text e)) else Inl (ServerError e))
      | Inr x \<Rightarrow> Inr x)"

definition requested_parameters :: "stage_request \<Rightarrow> dict \<Rightarrow> dict" where
  "requested_parameters q mission_parameters =
     (let parameters = dict_merge (fmap_of_list [(''dag_version'', PInt STAGE_DAG_VERSION)]) (sq_parameters q)
      in if fmlookup parameters ''work_drive'' = None \<and> mission_parameters \<noteq> fmempty
         then fmupd ''work_drive'' (dget mission_parameters ''work_drive'') parameters else parameters)"

definition stage_parameters :: "stage_id \<Rightarrow> stage_request \<Rightarrow> dict \<Rightarrow> string \<Rightarrow> dict api" where
  "stage_parameters stage q mission_parameters organization_id =
     (let parameters = requested_parameters q mission_parameters
      in if dget parameters ''gcp_bundle'' = PNone then Inr parameters
         else if stage \<noteq> Reconstruction
         then Inl (HttpError 422 ''A GCP bundle is only valid for the reconstruction stage'')
         else abind (unprocessable (validate_gcp_bundle (dget parameters ''gcp_bundle'') (Some organization_id)))
                (\<lambda>_. Inr parameters))"

subsection \<open>Upstream artifacts\<close>

definition artifacts_for_request :: "db \<Rightarrow> mission \<Rightarrow> string list \<Rightarrow> artifact list api" where
  "artifacts_for_request d m ids =
     (if ids = [] then Inr []
      else
        (let artifacts = input_artifacts d m ids
         in if set (map ma_artifact_id artifacts) \<noteq> set ids
            then Inl (HttpError 422 ''Every upstream artifact must exist in the same mission'')
            else Inr artifacts))"

fun validate_dependency_artifacts :: "db \<Rightarrow> artifact list \<Rightarrow> (stage_id \<times> string) list \<Rightarrow> unit api" where
  "validate_dependency_artifacts d artifacts [] = Inr ()"
| "validate_dependency_artifacts d artifacts ((dependency, i) # requested) =
     (case artifact_by_id artifacts i of
        None \<Rightarrow> Inl (ServerError (KeyError i))
      | Some a \<Rightarrow>
          abind (served (artifact_stage_run d a)) (\<lambda>producer.
            if sr_stage producer \<noteq> dependency
            then Inl (HttpError 422 (''Artifact '' @ i @ '' was produced by stage '' @ stage_name (sr_stage producer)
                        @ '', not '' @ stage_name dependency))
            else validate_dependency_artifacts d artifacts requested))"

subsection \<open>A retry of a stage\<close>

definition replayed_request :: "stage_id \<Rightarrow> stage_request \<Rightarrow> mission \<Rightarrow> stage_run \<Rightarrow> unit api" where
  "replayed_request stage q m existing =
     (if sr_mission_id existing \<noteq> m_id m \<or> sr_stage existing \<noteq> stage
      then Inl (HttpError 409 ''Idempotency key is already used by another stage request'')
      else
        abind (stage_parameters stage q (dict_or (m_params m)) (m_organization_id m)) (\<lambda>parameters.
          require (dict_eq (sr_parameters existing) parameters
              \<and> set (sr_upstream_artifact_ids existing) = set (map snd (sq_upstream_artifact_ids q)))
            409 ''Idempotency key was replayed with a different request''))"

definition retry_refused :: "mission \<Rightarrow> bool" where
  "retry_refused m \<longleftrightarrow>
     mission_stopped m \<or> m_current_step m \<in> {Some MANUAL_DELETION_STEP, Some MANUAL_DELETION_FAILED_STEP}"

definition stage_attempts :: "db \<Rightarrow> int \<Rightarrow> stage_id \<Rightarrow> int list" where
  "stage_attempts d mission_id stage =
     map sr_attempt (filter (\<lambda>r. sr_mission_id r = mission_id \<and> sr_stage r = stage) (db_runs d))"

definition retry_attempt :: "int list \<Rightarrow> int" where
  "retry_attempt tried = (if tried = [] then 0 else next_attempt tried)"

definition retry_spec :: "stage_id \<Rightarrow> int \<Rightarrow> dict \<Rightarrow> string list \<Rightarrow> string \<Rightarrow> resource_class \<Rightarrow> stage_run_spec" where
  "retry_spec stage attempt parameters upstream key cls =
     \<lparr>sp_stage = stage, sp_attempt = attempt, sp_status = Queued, sp_parameters = parameters,
      sp_upstream_artifact_ids = upstream, sp_idempotency_key = key, sp_resource_class = cls\<rparr>"

text \<open>The row of a retry; a constraint that it breaks is an \<open>IntegrityError\<close>.\<close>

definition queue_retry ::
  "world \<Rightarrow> instant \<Rightarrow> stage_id \<Rightarrow> stage_request \<Rightarrow> string \<Rightarrow> mission \<Rightarrow> db \<Rightarrow> (stage_run \<times> db) api" where
  "queue_retry w now stage q key m d =
     (let upstream = map snd (sq_upstream_artifact_ids q)
      in abind (require (set (map fst (sq_upstream_artifact_ids q)) = set (stage_dependencies stage)) 422
             (''Stage '' @ stage_name stage @ '' requires exact upstream artifact keys: ''
              @ join_text '', '' (sort (map stage_name (stage_dependencies stage))))) (\<lambda>_.
         abind (artifacts_for_request d m upstream) (\<lambda>artifacts.
         abind (validate_dependency_artifacts d artifacts (sq_upstream_artifact_ids q)) (\<lambda>_.
         abind (stage_parameters stage q (dict_or (m_params m)) (m_organization_id m)) (\<lambda>parameters.
         abind (served (resource_class_for_stage stage parameters)) (\<lambda>cls.
           (case add_stage_run w now (m_id m) None None
                   (retry_spec stage (retry_attempt (stage_attempts d (m_id m) stage)) parameters upstream key cls) d of
              (run, d1) \<Rightarrow>
                abind (require (run_table_ok (db_runs d1)) 409 ''Concurrent stage request already created this attempt'')
                  (\<lambda>_. Inr (run, d1)))))))))"

definition create_stage_run ::
  "world \<Rightarrow> environ \<Rightarrow> instant \<Rightarrow> string \<Rightarrow> stage_id \<Rightarrow> stage_request \<Rightarrow> principal \<Rightarrow> string \<Rightarrow> string option
     \<Rightarrow> command_state \<Rightarrow> (stage_run \<times> command_state) api" where
  "create_stage_run w env now vol_id stage q who raw_key owner s =
     abind (require_role ''operator'' who) (\<lambda>p.
     abind (served (bounded_stage_jobs_enabled env)) (\<lambda>enabled.
     abind (require enabled 503 ''Stage retries require Stage Jobs'') (\<lambda>_.
       (let key = request_key w p raw_key
        in case first_row (filter (\<lambda>r. sr_idempotency_key r = key) (db_runs (cs_db s))) of
             Some existing \<Rightarrow>
               abind (get_owned_mission p vol_id owner ''stage_retry_idempotent'' s) (\<lambda>(m, s1).
               abind (replayed_request stage q m existing) (\<lambda>_. Inr (existing, s1)))
           | None \<Rightarrow>
               abind (get_owned_mission p vol_id owner ''stage_retry'' s) (\<lambda>(m, s1).
               abind (require (\<not> retry_refused m) 409
                   ''Cancelled or deleting missions cannot queue stage retries; create a new mission'') (\<lambda>_.
               abind (queue_retry w now stage q key m (cs_db s1)) (\<lambda>(run, d1).
                 Inr (run, s1\<lparr>cs_db := d1\<rparr>))))))))"

subsection \<open>Artifact publication\<close>

text \<open>\<open>urlsplit\<close>; the host inside brackets is not looked at.\<close>

record split_url =
  su_scheme :: string
  su_netloc :: string
  su_path :: string
  su_query :: string
  su_fragment :: string

definition scheme_char :: "char \<Rightarrow> bool" where
  "scheme_char c \<longleftrightarrow> is_lower c \<or> is_upper c \<or> is_digit c \<or> c \<in> set ''+-.''"

definition url_scheme :: "string \<Rightarrow> string \<times> string" where
  "url_scheme url =
     (case partition_at CHR '':'' url of
        (before, found, after) \<Rightarrow>
          if found \<and> before \<noteq> [] \<and> (is_lower (hd before) \<or> is_upper (hd before)) \<and> list_all scheme_char before
          then (str_lower before, after) else ([], url))"

definition url_netloc :: "string \<Rightarrow> string \<times> string" where
  "url_netloc url =
     (if starts_with ''//'' url
      then (takeWhile (\<lambda>c. c \<notin> set ''/?#'') (drop 2 url), dropWhile (\<lambda>c. c \<notin> set ''/?#'') (drop 2 url))
      else ([], url))"

definition url_split :: "string \<Rightarrow> split_url res" where
  "url_split text =
     (let url = filter (\<lambda>c. c \<notin> {CHR 0x09, CHR 0x0A, CHR 0x0D}) (dropWhile (\<lambda>c. (of_char c :: nat) \<le> 32) text)
      in case url_scheme url of
           (scheme, rest) \<Rightarrow>
             (case url_netloc rest of
                (netloc, tail) \<Rightarrow>
                  if (CHR ''['' \<in> set netloc) \<noteq> (CHR '']'' \<in> set netloc) then Inl (ValueError ''Invalid IPv6 URL'')
                  else
                    (case partition_at CHR ''#'' tail of
                       (address, _, fragment) \<Rightarrow>
                         (case partition_at CHR ''?'' address of
                            (path, _, query) \<Rightarrow>
                              Inr \<lparr>su_scheme = scheme, su_netloc = netloc, su_path = path, su_query = query,
                                   su_fragment = fragment\<rparr>))))"

record artifact_request =
  aq_artifact_id :: string
  aq_kind :: string
  aq_uri :: string
  aq_checksum_sha256 :: string
  aq_size_bytes :: int
  aq_metadata :: dict
  aq_parent_artifact_ids :: "string list"

text \<open>\<open>storage.verify_object_checksum\<close> does not raise.\<close>

definition checksum_verified :: "(string \<Rightarrow> string option option) \<Rightarrow> string \<Rightarrow> string \<Rightarrow> bool" where
  "checksum_verified head_object key expected_sha256 \<longleftrightarrow>
     (case head_object key of None \<Rightarrow> False | Some remote \<Rightarrow> given_text remote = expected_sha256)"

definition manifest_key :: "mission \<Rightarrow> stage_run \<Rightarrow> string res" where
  "manifest_key m run =
     rbind (ns_from_binding (m_organization_id m) (m_vol_id m) (Some (m_workspace_prefix m))) (\<lambda>namespace.
       ns_key namespace [''stage-runs'', sr_run_id run, stage_name (sr_stage run) @ ''-workspace'', ''manifest.json''])"

definition identifies_object :: "string \<Rightarrow> string \<Rightarrow> split_url \<Rightarrow> bool" where
  "identifies_object bucket key url \<longleftrightarrow>
     su_scheme url = ''s3'' \<and> su_netloc url = bucket \<and> su_path url = ''/'' @ key \<and> su_query url = [] \<and> su_fragment url = []"

definition validate_published_artifact ::
  "string \<Rightarrow> (string \<Rightarrow> string option option) \<Rightarrow> mission \<Rightarrow> stage_run \<Rightarrow> artifact_request \<Rightarrow> unit api" where
  "validate_published_artifact bucket head_object m run q =
     abind (require (aq_kind q = stage_artifact_kind (sr_stage run)) 422
         (''Stage '' @ stage_name (sr_stage run) @ '' requires artifact kind '' @ stage_artifact_kind (sr_stage run))) (\<lambda>_.
     abind (served (manifest_key m run)) (\<lambda>key.
     abind (served (url_split (aq_uri q))) (\<lambda>url.
     abind (require (identifies_object bucket key url) 422 ''Artifact URI must identify this exact stage-run manifest'') (\<lambda>_.
     abind (require (dget (aq_metadata q) ''manifest_key'' = PStr key) 422
         ''Artifact metadata must identify this exact stage-run manifest'') (\<lambda>_.
     abind (require (set (aq_parent_artifact_ids q) = set (sr_upstream_artifact_ids run)) 422
         ''Artifact parents must match the durable stage inputs exactly'') (\<lambda>_.
       require (checksum_verified head_object key (aq_checksum_sha256 q)) 422
         ''Artifact manifest is missing or failed remote checksum verification''))))))"

definition immutable_artifact_matches :: "db \<Rightarrow> artifact \<Rightarrow> artifact_request \<Rightarrow> bool" where
  "immutable_artifact_matches d existing q \<longleftrightarrow>
     ma_kind existing = aq_kind q \<and> ma_uri existing = aq_uri q \<and> ma_checksum_sha256 existing = aq_checksum_sha256 q
     \<and> ma_size_bytes existing = Some (aq_size_bytes q) \<and> dict_eq (ma_metadata existing) (aq_metadata q)
     \<and> parent_ids d existing = set (aq_parent_artifact_ids q)"

definition reserved_for :: "world \<Rightarrow> principal \<Rightarrow> mission \<Rightarrow> stage_run \<Rightarrow> artifact_request \<Rightarrow> db \<Rightarrow> db api" where
  "reserved_for w p m run q d =
     (case reserve_stage_output_storage w (m_organization_id m) (sr_run_id run) (aq_artifact_id q) (aq_size_bytes q)
             (pr_subject p) d of
        Inl (StorageQuotaExceeded a b c) \<Rightarrow> Inl (HttpError 409 (error_text (StorageQuotaExceeded a b c)))
      | Inl e \<Rightarrow> Inl (ServerError e)
      | Inr d1 \<Rightarrow> Inr d1)"

definition requested_artifact :: "int \<Rightarrow> instant \<Rightarrow> mission \<Rightarrow> stage_run \<Rightarrow> artifact_request \<Rightarrow> artifact" where
  "requested_artifact i now m run q =
     \<lparr>ma_id = i, ma_artifact_id = aq_artifact_id q, ma_mission_id = m_id m, ma_stage_run_id = sr_id run,
      ma_kind = aq_kind q, ma_uri = aq_uri q, ma_checksum_sha256 = aq_checksum_sha256 q,
      ma_size_bytes = Some (aq_size_bytes q), ma_metadata = aq_metadata q, ma_created_at = now\<rparr>"

text \<open>The rows of a new artifact, the end of its run and the release of the runs that waited for it.\<close>

definition publish_new_artifact ::
  "instant \<Rightarrow> mission \<Rightarrow> stage_run \<Rightarrow> artifact_request \<Rightarrow> artifact list \<Rightarrow> db \<Rightarrow> stage_run list \<times> db" where
  "publish_new_artifact now m run q parents d =
     (let a = requested_artifact (next_id (map ma_id (db_artifacts d))) now m run q;
          d1 = d\<lparr>db_artifacts := db_artifacts d @ [a],
                 db_parents := db_parents d @ map (\<lambda>p. \<lparr>mp_artifact_id = ma_id a, mp_parent_artifact_id = ma_id p,
                   mp_relation = ''derived_from''\<rparr>) parents\<rparr>
      in release_ready_stage_runs m (put_run (mark_stage_run_succeeded now run) d1))"

text \<open>The answer: the artifact and, for a new one, the released runs.\<close>

definition publish_stage_artifact ::
  "world \<Rightarrow> string \<Rightarrow> (string \<Rightarrow> string option option) \<Rightarrow> instant \<Rightarrow> string \<Rightarrow> string \<Rightarrow> artifact_request \<Rightarrow> principal
     \<Rightarrow> string option \<Rightarrow> command_state \<Rightarrow> ((string \<times> string list option) \<times> command_state) api" where
  "publish_stage_artifact w bucket head_object now vol_id run_id q who owner s =
     abind (require_role ''admin'' who) (\<lambda>p.
     abind (get_owned_mission p vol_id owner ''artifact_publish'' s) (\<lambda>(m, s1).
     abind (require_some (first_row (filter (\<lambda>r. sr_mission_id r = m_id m \<and> sr_run_id r = run_id) (db_runs (cs_db s1))))
         404 ''Stage run not found'') (\<lambda>run.
     abind (require (sr_analysis_run_id run = None) 409 ''Analysis results must be published by their Stage Job'') (\<lambda>_.
     abind (validate_published_artifact bucket head_object m run q) (\<lambda>_.
       (case first_row (filter (\<lambda>a. ma_artifact_id a = aq_artifact_id q) (db_artifacts (cs_db s1))) of
          Some existing \<Rightarrow>
            abind (require (ma_mission_id existing = m_id m \<and> ma_stage_run_id existing = sr_id run
                \<and> immutable_artifact_matches (cs_db s1) existing q) 409
                ''Artifact identity already exists with different immutable data'') (\<lambda>_.
            abind (require (sr_status run = Succeeded) 409 ''Existing artifact conflicts with the durable stage state'') (\<lambda>_.
              Inr ((ma_artifact_id existing, None), s1)))
        | None \<Rightarrow>
            abind (require (sr_status run = Running) 409 ''A new artifact can only be published for a running stage'') (\<lambda>_.
            abind (artifacts_for_request (cs_db s1) m (aq_parent_artifact_ids q)) (\<lambda>parents.
            abind (reserved_for w p m run q (cs_db s1)) (\<lambda>d1.
              (case publish_new_artifact now m run q parents d1 of
                 (released, d2) \<Rightarrow>
                   Inr ((aq_artifact_id q, Some (map sr_run_id released)), s1\<lparr>cs_db := d2\<rparr>)))))))))))"

subsection \<open>What a retry has checked\<close>

lemma unprocessable_Inr_iff [simp]: "unprocessable r = Inr x \<longleftrightarrow> r = Inr x"
  by (cases r) (simp_all add: unprocessable_def)

lemma artifacts_for_request_Inr:
  assumes "artifacts_for_request d m ids = Inr artifacts"
  shows "set (map ma_artifact_id artifacts) = set ids"
    "a \<in> set artifacts \<Longrightarrow> a \<in> set (db_artifacts d) \<and> ma_mission_id a = m_id m"
  using assms by (auto simp: artifacts_for_request_def input_artifacts_def Let_def split: if_splits)

lemma validate_dependency_Inr:
  assumes "validate_dependency_artifacts d artifacts requested = Inr u" "(dependency, i) \<in> set requested"
  shows "\<exists>a \<in> set artifacts. ma_artifact_id a = i
    \<and> (\<exists>producer. artifact_stage_run d a = Inr producer \<and> sr_stage producer = dependency)"
  using assms
proof (induction d artifacts requested rule: validate_dependency_artifacts.induct)
  case (2 d artifacts dep j requested)
  from 2(2) obtain a producer where a: "artifact_by_id artifacts j = Some a" "artifact_stage_run d a = Inr producer"
    "sr_stage producer = dep" "validate_dependency_artifacts d artifacts requested = Inr u"
    by (auto simp: abind_Inr_iff split: option.splits if_splits)
  have "a \<in> set artifacts \<and> ma_artifact_id a = j"
    using a(1) by (auto simp: artifact_by_id_def find_Some_iff) (metis nth_mem length_rev set_rev)
  then show ?case using 2(1) [OF a(1) _ a(4)] a(2,3) 2(3) by auto
qed simp

lemma retry_attempt_new: "x \<in> set tried \<Longrightarrow> x < retry_attempt tried"
proof -
  have "x \<le> foldr max xs y" if "x \<in> set xs \<or> x = y" for x y :: int and xs
    using that by (induction xs) (auto simp: le_max_iff_disj)
  then have "x \<le> foldr max (tl tried) (hd tried)" if "x \<in> set tried" for x
    using that by (cases tried) auto
  then show "x \<in> set tried \<Longrightarrow> x < retry_attempt tried"
    by (cases tried) (force simp: retry_attempt_def next_attempt_def)+
qed

text \<open>A run has an input from a stage: an artifact of the same mission that a run of this stage produced.\<close>

definition fed_by :: "db \<Rightarrow> stage_run \<Rightarrow> stage_id \<Rightarrow> bool" where
  "fed_by d run dependency \<longleftrightarrow>
     list_ex (\<lambda>a. ma_mission_id a = sr_mission_id run \<and> ma_artifact_id a \<in> set (sr_upstream_artifact_ids run)
       \<and> map_sum id sr_stage (artifact_stage_run d a) = Inr dependency) (db_artifacts d)"

lemma queue_retry_Inr:
  assumes "queue_retry w now stage q key m d = Inr (run, d1)"
  shows "db_runs d1 = db_runs d @ [run] \<and> run_table_ok (db_runs d1) \<and> db_missions d1 = db_missions d
    \<and> sr_status run = Queued \<and> sr_stage run = stage \<and> sr_mission_id run = m_id m \<and> sr_idempotency_key run = key
    \<and> sr_attempt run = retry_attempt (stage_attempts d (m_id m) stage)
    \<and> stage_parameters stage q (dict_or (m_params m)) (m_organization_id m) = Inr (sr_parameters run)
    \<and> sr_upstream_artifact_ids run = map snd (sq_upstream_artifact_ids q)
    \<and> resource_class_for_stage stage (sr_parameters run) = Inr (sr_resource_class run)
    \<and> list_all (fed_by d run) (stage_dependencies stage)"
proof -
  from assms obtain artifacts parameters cls where
    keys: "set (map fst (sq_upstream_artifact_ids q)) = set (stage_dependencies stage)"
    and arts: "artifacts_for_request d m (map snd (sq_upstream_artifact_ids q)) = Inr artifacts"
    and dep: "validate_dependency_artifacts d artifacts (sq_upstream_artifact_ids q) = Inr ()"
    and par: "stage_parameters stage q (dict_or (m_params m)) (m_organization_id m) = Inr parameters"
      "resource_class_for_stage stage parameters = Inr cls"
    and add: "add_stage_run w now (m_id m) None None (retry_spec stage (retry_attempt (stage_attempts d (m_id m) stage)) parameters
                   (map snd (sq_upstream_artifact_ids q)) key cls) d = (run, d1)" and ok: "run_table_ok (db_runs d1)"
    unfolding queue_retry_def Let_def by (auto simp: abind_Inr_iff case_prod_beta)
  have run: "db_runs d1 = db_runs d @ [run]" "db_missions d1 = db_missions d" "sr_status run = Queued" "sr_stage run = stage"
    "sr_mission_id run = m_id m" "sr_idempotency_key run = key" "sr_parameters run = parameters" "sr_resource_class run = cls"
    "sr_attempt run = retry_attempt (stage_attempts d (m_id m) stage)"
    "sr_upstream_artifact_ids run = map snd (sq_upstream_artifact_ids q)"
    using add by (auto simp: add_stage_run_def draw_uuid_def new_stage_run_def retry_spec_def Let_def)
  have "fed_by d run dependency" if "dependency \<in> set (stage_dependencies stage)" for dependency
  proof -
    from that keys have "dependency \<in> fst ` set (sq_upstream_artifact_ids q)" by simp
    then obtain i where i: "(dependency, i) \<in> set (sq_upstream_artifact_ids q)" by auto
    obtain a producer where a: "a \<in> set artifacts" "ma_artifact_id a = i" "artifact_stage_run d a = Inr producer"
      "sr_stage producer = dependency" using validate_dependency_Inr [OF dep i] by blast
    then show ?thesis using artifacts_for_request_Inr(2) [OF arts a(1)] i run(5,10)
      by (force simp: fed_by_def list_ex_iff)
  qed
  then show ?thesis using run par ok by (simp add: list_all_iff)
qed

text \<open>A retry that is answered has found its mission, either with the run of the key or with a new one.\<close>

lemma create_stage_run_cases:
  assumes "create_stage_run w env now vol_id stage q who raw_key owner s = Inr (run, s')"
  obtains
    (Replayed) m where "get_owned_mission who vol_id owner ''stage_retry_idempotent'' s = Inr (m, s')"
      "first_row (filter (\<lambda>r. sr_idempotency_key r = request_key w who raw_key) (db_runs (cs_db s))) = Some run"
      "replayed_request stage q m run = Inr ()"
  | (Queued) m s1 d1 where "get_owned_mission who vol_id owner ''stage_retry'' s = Inr (m, s1)"
      "request_key w who raw_key \<notin> set (map sr_idempotency_key (db_runs (cs_db s)))" "\<not> retry_refused m"
      "queue_retry w now stage q (request_key w who raw_key) m (cs_db s1) = Inr (run, d1)" "s' = s1\<lparr>cs_db := d1\<rparr>"
proof -
  obtain p where p: "require_role ''operator'' who = Inr p" using assms by (auto simp: create_stage_run_def abind_Inr_iff)
  have who: "p = who" using require_role_Inr [OF p] by simp
  show thesis
  proof (cases "first_row (filter (\<lambda>r. sr_idempotency_key r = request_key w who raw_key) (db_runs (cs_db s)))")
    case None
    then have "request_key w who raw_key \<notin> set (map sr_idempotency_key (db_runs (cs_db s)))"
      by (auto simp: filter_empty_conv)
    then show ?thesis
      using assms None p unfolding create_stage_run_def Let_def who by (auto simp: abind_Inr_iff intro: Queued)
  next
    case (Some existing)
    then show ?thesis
      using assms p unfolding create_stage_run_def Let_def who by (auto simp: abind_Inr_iff intro: Replayed)
  qed
qed

text \<open>C17: A retry under a new key queues exactly one run, of a mission the caller reaches and that is
  neither cancelled nor being deleted: with a new attempt number, inside the envelope of its stage, and
  with an input from every stage it depends on, all of the same mission. Nothing else changes in the runs.\<close>

theorem stage_retries_are_sound:
  assumes "create_stage_run w env now vol_id stage q who raw_key owner s = Inr (run, s')"
    and "request_key w who raw_key \<notin> set (map sr_idempotency_key (db_runs (cs_db s)))"
  shows "db_runs (cs_db s') = db_runs (cs_db s) @ [run] \<and> sr_status run = Queued \<and> sr_stage run = stage
    \<and> sr_idempotency_key run = request_key w who raw_key
    \<and> (\<exists>m \<in> set (db_missions (cs_db s)). m_id m = sr_mission_id run \<and> \<not> retry_refused m
         \<and> access_recorded who ''stage_retry'' m (cs_audit s'))
    \<and> list_all (\<lambda>r. sr_mission_id r = sr_mission_id run \<and> sr_stage r = stage \<longrightarrow> sr_attempt r < sr_attempt run) (db_runs (cs_db s))
    \<and> list_all (fed_by (cs_db s) run) (stage_dependencies stage)
    \<and> resource_class_meets_envelope (sr_resource_class run) (default_stage_resource_class stage)"
  using assms(1)
proof (cases rule: create_stage_run_cases)
  case (Replayed m)
  then show ?thesis using assms(2) first_row_Some_mem [OF Replayed(2)] by force
next
  case (Queued m s1 d1)
  note found = get_owned_mission_Inr [OF Queued(1)]
  have new: "sr_attempt r < retry_attempt (stage_attempts (cs_db s) (m_id m) stage)"
    if "r \<in> set (db_runs (cs_db s))" "sr_mission_id r = m_id m" "sr_stage r = stage" for r
    using that by (intro retry_attempt_new) (auto simp: stage_attempts_def)
  show ?thesis
    using queue_retry_Inr [OF Queued(4)] Queued(3,5) found new resource_class_for_stage_meets_default
    by (auto simp: list_all_iff)
qed

subsection \<open>Replays\<close>

text \<open>What a mission keeps while it is worked on, and what a run keeps.\<close>

definition mission_identity :: "mission \<Rightarrow> int \<times> string \<times> string \<times> string \<times> dict option" where
  "mission_identity m = (m_id m, m_vol_id m, m_owner_subject m, m_organization_id m, m_params m)"

definition run_identity :: "stage_run \<Rightarrow> string \<times> int \<times> stage_id \<times> dict \<times> string list" where
  "run_identity r = (sr_idempotency_key r, sr_mission_id r, sr_stage r, sr_parameters r, sr_upstream_artifact_ids r)"

lemma first_row_same:
  assumes "map f xs = map f ys" "\<And>x y. f x = f y \<Longrightarrow> P x = P y"
  shows "map_option f (first_row (filter P xs)) = map_option f (first_row (filter P ys))"
  using assms(1)
proof (induction xs arbitrary: ys)
  case (Cons x xs)
  then obtain y ys' where y: "ys = y # ys'" "f x = f y" "map f xs = map f ys'" by auto
  then show ?case using Cons.IH [OF y(3)] assms(2) [OF y(2)] by (simp add: first_row_def)
qed simp

lemma get_owned_mission_again:
  assumes "get_owned_mission p vol_id requested action s = Inr (m, s1)"
    and "map mission_identity (db_missions (cs_db t)) = map mission_identity (db_missions (cs_db s))"
  shows "\<exists>m' t1. get_owned_mission p vol_id requested action' t = Inr (m', t1) \<and> cs_db t1 = cs_db t
    \<and> mission_identity m' = mission_identity m"
proof -
  obtain owner s0 where o: "resolve_owner_subject p requested action (Some vol_id) True s = Inr (owner, s0)"
    and f: "first_row (filter (\<lambda>m. m_vol_id m = vol_id) (owned_missions p owner (cs_db s0))) = Some m"
    using assms(1) by (auto simp: get_owned_mission_def find_mission_def abind_Inr_iff)
  obtain t0 where t: "resolve_owner_subject p requested action' (Some vol_id) True t = Inr (owner, t0)" "cs_db t0 = cs_db t"
    using o by (auto simp: resolve_owner_subject_def Let_def record_cross_member_access_def split: if_splits)
  let ?P = "\<lambda>m. m_vol_id m = vol_id \<and> m_organization_id m = pr_organization_id p \<and> m_owner_subject m = owner"
  have "first_row (filter ?P (db_missions (cs_db s))) = Some m"
    using f resolve_owner_Inr [OF o] by (simp add: owned_missions_def conj_commute)
  moreover have "map_option mission_identity (first_row (filter ?P (db_missions (cs_db t))))
      = map_option mission_identity (first_row (filter ?P (db_missions (cs_db s))))"
    using assms(2) by (rule first_row_same) (auto simp: mission_identity_def)
  ultimately obtain m' where m': "first_row (filter ?P (db_missions (cs_db t))) = Some m'" "mission_identity m' = mission_identity m"
    by auto
  then have "find_mission p vol_id requested action' t = Inr (Some m', t0)"
    using t by (simp add: find_mission_def owned_missions_def conj_commute)
  then show ?thesis using m'(2) t(2) by (simp add: get_owned_mission_def require_some_def)
qed

lemma first_row_unique:
  assumes "distinct (map f xs)" "x \<in> set xs"
  shows "first_row (filter (\<lambda>y. f y = f x) xs) = Some x"
  using distinct_filter_one [OF assms] by (simp add: first_row_def)

text \<open>C18: A request that is sent again under its key is answered by the run it queued the first time,
  however far that run, its mission and the other runs have come since, and changes nothing.\<close>

theorem stage_retries_are_idempotent:
  assumes "create_stage_run w env now vol_id stage q who raw_key owner s = Inr (run, s1)"
    and "map mission_identity (db_missions (cs_db s2)) = map mission_identity (db_missions (cs_db s1))"
    and "run_table_ok (db_runs (cs_db s2))" and "run2 \<in> set (db_runs (cs_db s2))" and "run_identity run2 = run_identity run"
  shows "\<exists>s3. create_stage_run w env later vol_id stage q who raw_key owner s2 = Inr (run2, s3) \<and> cs_db s3 = cs_db s2"
proof -
  let ?key = "request_key w who raw_key"
  obtain action m s0 parameters where m: "get_owned_mission who vol_id owner action s = Inr (m, s0)"
    and keeps: "db_missions (cs_db s1) = db_missions (cs_db s)"
    and run: "sr_idempotency_key run = ?key" "sr_mission_id run = m_id m" "sr_stage run = stage"
      "stage_parameters stage q (dict_or (m_params m)) (m_organization_id m) = Inr parameters"
      "dict_eq (sr_parameters run) parameters" "set (sr_upstream_artifact_ids run) = set (map snd (sq_upstream_artifact_ids q))"
    using assms(1)
  proof (cases rule: create_stage_run_cases)
    case (Replayed m)
    have "sr_idempotency_key run = ?key" using first_row_Some_mem [OF Replayed(2)] by simp
    then show ?thesis using that [OF Replayed(1)] Replayed(3) get_owned_mission_Inr [OF Replayed(1)]
      by (auto simp: replayed_request_def abind_Inr_iff split: if_splits)
  next
    case (Queued m s0 d1)
    show ?thesis using that [OF Queued(1)] queue_retry_Inr [OF Queued(4)] get_owned_mission_Inr [OF Queued(1)] Queued(5)
      by simp
  qed
  obtain m2 s3 where m2: "get_owned_mission who vol_id owner ''stage_retry_idempotent'' s2 = Inr (m2, s3)" "cs_db s3 = cs_db s2"
    "mission_identity m2 = mission_identity m"
    using get_owned_mission_again [OF m, where t = s2 and action' = "''stage_retry_idempotent''"] assms(2) keeps by auto
  have same: "m_id m2 = m_id m" "m_params m2 = m_params m" "m_organization_id m2 = m_organization_id m"
    using m2(3) by (simp_all add: mission_identity_def)
  have run2: "sr_idempotency_key run2 = ?key" "replayed_request stage q m2 run2 = Inr ()"
    using assms(5) run by (simp_all add: run_identity_def replayed_request_def same)
  have "first_row (filter (\<lambda>r. sr_idempotency_key r = ?key) (db_runs (cs_db s2))) = Some run2"
    using first_row_unique [OF _ assms(4), of sr_idempotency_key] assms(3) run2(1) by (simp add: run_table_ok_def)
  moreover obtain p where p: "require_role ''operator'' who = Inr p" "bounded_stage_jobs_enabled env = Inr True"
    using assms(1) by (auto simp: create_stage_run_def abind_Inr_iff)
  have "p = who" using require_role_Inr [OF p(1)] by simp
  ultimately show ?thesis using p m2(1,2) run2(2) by (simp add: create_stage_run_def)
qed

subsection \<open>What a publication has checked\<close>

lemma validate_published_Inr:
  assumes "validate_published_artifact bucket head_object m run q = Inr u"
  shows "\<exists>key url. manifest_key m run = Inr key \<and> url_split (aq_uri q) = Inr url \<and> identifies_object bucket key url
    \<and> checksum_verified head_object key (aq_checksum_sha256 q) \<and> aq_kind q = stage_artifact_kind (sr_stage run)
    \<and> set (aq_parent_artifact_ids q) = set (sr_upstream_artifact_ids run)"
  using assms by (auto simp: validate_published_artifact_def abind_Inr_iff)

lemma reserved_for_Inr: "reserved_for w p m run q d = Inr d1 \<longleftrightarrow>
  reserve_stage_output_storage w (m_organization_id m) (sr_run_id run) (aq_artifact_id q) (aq_size_bytes q) (pr_subject p) d = Inr d1"
  by (auto simp: reserved_for_def split: sum.splits py_error.splits)

lemma release_objects_frame [frame_simps]:
  "db_parents (snd (release_ready_stage_runs m d)) = db_parents d"
  "db_datasets (snd (release_ready_stage_runs m d)) = db_datasets d"
  "db_uploads (snd (release_ready_stage_runs m d)) = db_uploads d"
proof -
  have "db_parents (put_runs rs x) = db_parents x \<and> db_datasets (put_runs rs x) = db_datasets x \<and> db_uploads (put_runs rs x) = db_uploads x"
    for rs x by (induction rs arbitrary: x) simp_all
  then show "db_parents (snd (release_ready_stage_runs m d)) = db_parents d"
    "db_datasets (snd (release_ready_stage_runs m d)) = db_datasets d"
    "db_uploads (snd (release_ready_stage_runs m d)) = db_uploads d"
    by (simp_all add: release_ready_stage_runs_def Let_def)
qed

lemma publish_new_artifact_rows:
  assumes "publish_new_artifact now m run q parents d = (released, d2)"
    and "distinct (map sr_id (db_runs d))" and "run \<in> set (db_runs d)"
  defines "a \<equiv> requested_artifact (next_id (map ma_id (db_artifacts d))) now m run q"
  shows "db_artifacts d2 = db_artifacts d @ [a]"
    "db_parents d2 = db_parents d @ map (\<lambda>p. \<lparr>mp_artifact_id = ma_id a, mp_parent_artifact_id = ma_id p, mp_relation = ''derived_from''\<rparr>) parents"
    "mark_stage_run_succeeded now run \<in> set (db_runs d2)"
    "db_missions d2 = db_missions d" "db_datasets d2 = db_datasets d" "db_uploads d2 = db_uploads d"
proof -
  let ?done = "mark_stage_run_succeeded now run"
  define d1 where "d1 = d\<lparr>db_artifacts := db_artifacts d @ [a], db_parents := db_parents d
    @ map (\<lambda>p. \<lparr>mp_artifact_id = ma_id a, mp_parent_artifact_id = ma_id p, mp_relation = ''derived_from''\<rparr>) parents\<rparr>"
  have d2: "d2 = snd (release_ready_stage_runs m (put_run ?done d1))"
    using arg_cong [OF assms(1), of snd] by (simp add: publish_new_artifact_def Let_def a_def d1_def)
  have d1: "db_artifacts d1 = db_artifacts d @ [a]" "db_runs d1 = db_runs d" "db_missions d1 = db_missions d"
      "db_datasets d1 = db_datasets d" "db_uploads d1 = db_uploads d"
      "db_parents d1 = db_parents d @ map (\<lambda>p. \<lparr>mp_artifact_id = ma_id a, mp_parent_artifact_id = ma_id p, mp_relation = ''derived_from''\<rparr>) parents"
    by (simp_all add: d1_def)
  show "db_artifacts d2 = db_artifacts d @ [a]" "db_missions d2 = db_missions d" "db_datasets d2 = db_datasets d" "db_uploads d2 = db_uploads d"
    "db_parents d2 = db_parents d @ map (\<lambda>p. \<lparr>mp_artifact_id = ma_id a, mp_parent_artifact_id = ma_id p, mp_relation = ''derived_from''\<rparr>) parents"
    using d1 by (simp_all add: d2 frame_simps)
  have "?done \<in> set (db_runs (put_run ?done d1))"
    using assms(3) runs.put_present [of run d1 ?done] d1(2) by (simp add: mark_stage_run_succeeded_def)
  moreover have "distinct (map sr_id (db_runs (put_run ?done d1)))" using assms(2) d1(2) by (simp add: runs.keys_put)
  moreover have "\<not> blocked_pipeline_run m ?done" by (simp add: blocked_pipeline_run_def mark_stage_run_succeeded_def)
  ultimately show "?done \<in> set (db_runs d2)" unfolding d2 by (auto simp: release_rows intro!: image_eqI [of _ _ ?done])
qed

lemma new_parent_ids:
  assumes "db_artifacts d2 = db_artifacts d @ [a]" "ma_id a \<notin> set (map ma_id (db_artifacts d))"
    and "db_parents d2 = db_parents d @ map (\<lambda>p. \<lparr>mp_artifact_id = ma_id a, mp_parent_artifact_id = ma_id p, mp_relation = r\<rparr>) parents"
    and "distinct (map ma_id (db_artifacts d))" "set parents \<subseteq> set (db_artifacts d)"
    and "\<forall>e \<in> set (db_parents d). mp_artifact_id e \<in> set (map ma_id (db_artifacts d))"
  shows "parent_ids d2 a = ma_artifact_id ` set parents"
proof -
  have old: "filter (\<lambda>e. mp_artifact_id e = ma_id a) (db_parents d) = []"
    using assms(2,6) by (metis (mono_tags, lifting) filter_False)
  have "filter (\<lambda>x. ma_id x = ma_id p) (db_artifacts d2) = [p]" if "p \<in> set parents" for p
  proof -
    have "p \<in> set (db_artifacts d)" using that assms(5) by blast
    then show ?thesis using distinct_filter_one [OF assms(4), of p] assms(1,2) by auto
  qed
  then show ?thesis by (simp add: parent_ids_def assms(3) old image_UN comp_def)
qed

lemma published_new_cases:
  assumes "publish_stage_artifact w bucket head_object now vol_id run_id q who owner s = Inr ((aid, Some ids), s')"
  obtains m s1 run parents d1 released d2 where
    "get_owned_mission who vol_id owner ''artifact_publish'' s = Inr (m, s1)"
    "run \<in> set (db_runs (cs_db s))" "sr_mission_id run = m_id m" "sr_run_id run = run_id" "sr_analysis_run_id run = None"
    "sr_status run = Running" "validate_published_artifact bucket head_object m run q = Inr ()"
    "artifacts_for_request (cs_db s) m (aq_parent_artifact_ids q) = Inr parents"
    "reserve_stage_output_storage w (m_organization_id m) (sr_run_id run) (aq_artifact_id q) (aq_size_bytes q) (pr_subject who)
       (cs_db s) = Inr d1"
    "publish_new_artifact now m run q parents d1 = (released, d2)" "aid = aq_artifact_id q" "s' = s1\<lparr>cs_db := d2\<rparr>"
proof -
  obtain p m s1 run where p: "require_role ''admin'' who = Inr p"
    and m: "get_owned_mission p vol_id owner ''artifact_publish'' s = Inr (m, s1)"
    and run: "first_row (filter (\<lambda>r. sr_mission_id r = m_id m \<and> sr_run_id r = run_id) (db_runs (cs_db s1))) = Some run"
    and rest: "sr_analysis_run_id run = None" "validate_published_artifact bucket head_object m run q = Inr ()"
      "(case first_row (filter (\<lambda>a. ma_artifact_id a = aq_artifact_id q) (db_artifacts (cs_db s1))) of
          Some existing \<Rightarrow>
            abind (require (ma_mission_id existing = m_id m \<and> ma_stage_run_id existing = sr_id run
                \<and> immutable_artifact_matches (cs_db s1) existing q) 409
                ''Artifact identity already exists with different immutable data'') (\<lambda>_.
            abind (require (sr_status run = Succeeded) 409 ''Existing artifact conflicts with the durable stage state'') (\<lambda>_.
              Inr ((ma_artifact_id existing, None), s1)))
        | None \<Rightarrow>
            abind (require (sr_status run = Running) 409 ''A new artifact can only be published for a running stage'') (\<lambda>_.
            abind (artifacts_for_request (cs_db s1) m (aq_parent_artifact_ids q)) (\<lambda>parents.
            abind (reserved_for w p m run q (cs_db s1)) (\<lambda>d1.
              (case publish_new_artifact now m run q parents d1 of
                 (released, d2) \<Rightarrow>
                   Inr ((aq_artifact_id q, Some (map sr_run_id released)), s1\<lparr>cs_db := d2\<rparr>)))))) = Inr ((aid, Some ids), s')"
    using assms by (auto simp: publish_stage_artifact_def abind_Inr_iff)
  have who: "p = who" using require_role_Inr [OF p] by simp
  have db: "cs_db s1 = cs_db s" using get_owned_mission_Inr [OF m] by simp
  have mem: "run \<in> set (db_runs (cs_db s))" "sr_mission_id run = m_id m" "sr_run_id run = run_id"
    using first_row_Some_mem [OF run] db by simp_all
  from rest(3) have "sr_status run = Running \<and> (\<exists>parents d1 released d2. artifacts_for_request (cs_db s) m (aq_parent_artifact_ids q) = Inr parents
     \<and> reserved_for w p m run q (cs_db s) = Inr d1 \<and> publish_new_artifact now m run q parents d1 = (released, d2)
     \<and> aid = aq_artifact_id q \<and> s' = s1\<lparr>cs_db := d2\<rparr>)"
    by (auto simp: db abind_Inr_iff case_prod_beta prod_eq_iff split: option.splits)
  then show thesis using that [OF m [unfolded who] mem] rest(1,2) by (auto simp: reserved_for_Inr who)
qed

text \<open>C19: What an administrator publishes is the artifact of a running stage run of a mission the
  administrator reaches: under the manifest of exactly that run, whose stored checksum is the published
  one, of the kind of its stage, derived from exactly the inputs of the run. The run has succeeded, and
  the organization stays within its storage limit.\<close>

theorem admin_publications_are_verified:
  assumes "publish_stage_artifact w bucket head_object now vol_id run_id q who owner s = Inr ((aid, Some ids), s')"
    and "distinct (map sr_id (db_runs (cs_db s)))" and "distinct (map ma_id (db_artifacts (cs_db s)))"
    and "distinct (map m_id (db_missions (cs_db s)))"
    and "\<forall>e \<in> set (db_parents (cs_db s)). mp_artifact_id e \<in> set (map ma_id (db_artifacts (cs_db s)))"
  shows "\<exists>m \<in> set (db_missions (cs_db s)). \<exists>run \<in> set (db_runs (cs_db s)). \<exists>a key url.
      access_recorded who ''artifact_publish'' m (cs_audit s') \<and> sr_mission_id run = m_id m \<and> sr_run_id run = run_id
    \<and> sr_status run = Running \<and> mark_stage_run_succeeded now run \<in> set (db_runs (cs_db s'))
    \<and> db_artifacts (cs_db s') = db_artifacts (cs_db s) @ [a] \<and> ma_artifact_id a = aid
    \<and> ma_mission_id a = m_id m \<and> ma_stage_run_id a = sr_id run \<and> ma_kind a = stage_artifact_kind (sr_stage run)
    \<and> manifest_key m run = Inr key \<and> checksum_verified head_object key (ma_checksum_sha256 a)
    \<and> url_split (ma_uri a) = Inr url \<and> identifies_object bucket key url
    \<and> parent_ids (cs_db s') a = set (sr_upstream_artifact_ids run)
    \<and> (\<forall>p limit. get_policy (cs_db s) (m_organization_id m) = Inr (Some p) \<longrightarrow> po_storage_limit_bytes p = Some limit
         \<longrightarrow> storage_usage_bytes (cs_db s') (m_organization_id m) \<le> limit)"
  using assms(1)
proof (rule published_new_cases)
  fix m s1 run parents d1 released d2
  assume m: "get_owned_mission who vol_id owner ''artifact_publish'' s = Inr (m, s1)"
    and run: "run \<in> set (db_runs (cs_db s))" "sr_mission_id run = m_id m" "sr_run_id run = run_id" "sr_status run = Running"
    and valid: "validate_published_artifact bucket head_object m run q = Inr ()"
    and parents: "artifacts_for_request (cs_db s) m (aq_parent_artifact_ids q) = Inr parents"
    and reserve: "reserve_stage_output_storage w (m_organization_id m) (sr_run_id run) (aq_artifact_id q) (aq_size_bytes q)
       (pr_subject who) (cs_db s) = Inr d1"
    and new: "publish_new_artifact now m run q parents d1 = (released, d2)" and aid: "aid = aq_artifact_id q" "s' = s1\<lparr>cs_db := d2\<rparr>"
  let ?org = "m_organization_id m"
  obtain e x where c: "check_storage_reservation (cs_db s) ?org (aq_size_bytes q) = Inr (storage_usage_bytes (cs_db s) ?org)"
    and e: "append_usage_event w e (cs_db s) = Inr (x, d1)" using reserve_stage_output_Inr [OF reserve] by blast
  note frame = append_usage_event_frame [OF e]
  let ?a = "requested_artifact (next_id (map ma_id (db_artifacts (cs_db s)))) now m run q"
  have "distinct (map sr_id (db_runs d1))" "run \<in> set (db_runs d1)" using assms(2) run(1) frame by simp_all
  note rows = publish_new_artifact_rows [OF new this, unfolded frame]
  have a: "ma_artifact_id ?a = aid" "ma_mission_id ?a = m_id m" "ma_stage_run_id ?a = sr_id run" "ma_kind ?a = aq_kind q"
    "ma_checksum_sha256 ?a = aq_checksum_sha256 q" "ma_uri ?a = aq_uri q" "ma_size_bytes ?a = Some (aq_size_bytes q)"
    "ma_id ?a \<notin> set (map ma_id (db_artifacts (cs_db s)))"
    using next_id_fresh [of "map ma_id (db_artifacts (cs_db s))"] by (simp_all add: requested_artifact_def aid)
  have "set parents \<subseteq> set (db_artifacts (cs_db s))" using artifacts_for_request_Inr(2) [OF parents] by blast
  then have "parent_ids d2 ?a = set (aq_parent_artifact_ids q)"
    using new_parent_ids [OF rows(1) a(8) rows(2) assms(3) _ assms(5)] artifacts_for_request_Inr(1) [OF parents] by simp
  note found = get_owned_mission_Inr [OF m]
  have "storage_usage_bytes d2 ?org = storage_usage_bytes (cs_db s\<lparr>db_artifacts := db_artifacts (cs_db s) @ [?a]\<rparr>) ?org"
    using rows by (intro storage_usage_cong) simp_all
  also have "\<dots> = storage_usage_bytes (cs_db s) ?org + aq_size_bytes q"
    using storage_usage_new_artifact [OF assms(4) found(3) a(2) refl] a(7) by (simp add: size_or_zero_def)
  finally have quota: "storage_usage_bytes d2 ?org \<le> limit"
    if "get_policy (cs_db s) ?org = Inr (Some p)" "po_storage_limit_bytes p = Some limit" for p limit
    using check_storage_reservation_Inr [OF c] that by simp
  obtain key url where ok: "manifest_key m run = Inr key" "url_split (aq_uri q) = Inr url" "identifies_object bucket key url"
    "checksum_verified head_object key (aq_checksum_sha256 q)" "aq_kind q = stage_artifact_kind (sr_stage run)"
    "set (aq_parent_artifact_ids q) = set (sr_upstream_artifact_ids run)" using validate_published_Inr [OF valid] by blast
  show ?thesis
    using found run rows(1,3) a(1-6) ok \<open>parent_ids d2 ?a = _\<close> quota
    by (intro bexI [of _ m] bexI [of _ run] exI [of _ ?a] exI [of _ key] exI [of _ url]) (simp_all add: aid)
qed

subsection \<open>Examples\<close>

definition example_stage_environ :: environ where
  "example_stage_environ name = (if name = ''DRONEAI_STAGE_JOBS_ENABLED'' then Some ''true'' else None)"

definition example_retry :: stage_request where
  "example_retry = \<lparr>sq_parameters = fmempty, sq_upstream_artifact_ids = [(Reconstruction, ''a1'')]\<rparr>"

definition example_retry_state :: command_state where
  "example_retry_state = example_commands\<lparr>cs_db := example_pipeline\<lparr>db_artifacts := [example_artifact]\<rparr>\<rparr>"

lemma example_retry_queued:
  "\<exists>run s'. create_stage_run example_hash_world example_stage_environ 9 ''flight-7'' GaussianTraining example_retry example_owner
     ''retry-0001'' None example_retry_state = Inr (run, s') \<and> sr_attempt run = 1"
proof -
  let ?r = "create_stage_run example_hash_world example_stage_environ 9 ''flight-7'' GaussianTraining example_retry example_owner
     ''retry-0001'' None example_retry_state"
  have "map_sum id (\<lambda>x. sr_attempt (fst x)) ?r = Inr 1" by code_simp
  then show ?thesis by (cases ?r) auto
qed

lemma example_retry_key:
  "request_key example_hash_world example_owner ''retry-0001'' \<notin> set (map sr_idempotency_key (db_runs (cs_db example_retry_state)))"
  by code_simp

lemma stage_retries_are_sound_witness:
  "\<exists>run s'. create_stage_run example_hash_world example_stage_environ 9 ''flight-7'' GaussianTraining example_retry example_owner
      ''retry-0001'' None example_retry_state = Inr (run, s')
    \<and> db_runs (cs_db s') = db_runs (cs_db example_retry_state) @ [run] \<and> sr_stage run = GaussianTraining \<and> sr_status run = Queued"
proof -
  obtain run s' where s': "create_stage_run example_hash_world example_stage_environ 9 ''flight-7'' GaussianTraining example_retry
      example_owner ''retry-0001'' None example_retry_state = Inr (run, s')" using example_retry_queued by blast
  from stage_retries_are_sound [OF s' example_retry_key] s' show ?thesis by blast
qed

lemma stage_retries_are_idempotent_witness:
  "\<exists>run s1 s2. create_stage_run example_hash_world example_stage_environ 9 ''flight-7'' GaussianTraining example_retry example_owner
      ''retry-0001'' None example_retry_state = Inr (run, s1)
    \<and> create_stage_run example_hash_world example_stage_environ 99 ''flight-7'' GaussianTraining example_retry example_owner
      ''retry-0001'' None s1 = Inr (run, s2) \<and> cs_db s2 = cs_db s1"
proof -
  obtain run s1 where s1: "create_stage_run example_hash_world example_stage_environ 9 ''flight-7'' GaussianTraining example_retry
      example_owner ''retry-0001'' None example_retry_state = Inr (run, s1)" using example_retry_queued by blast
  have rows: "run_table_ok (db_runs (cs_db s1)) \<and> run \<in> set (db_runs (cs_db s1))"
    using s1
  proof (cases rule: create_stage_run_cases)
    case (Replayed m)
    then show ?thesis using example_retry_key first_row_Some_mem [OF Replayed(2)] by force
  next
    case (Queued m s0 d1)
    have "run_table_ok (db_runs d1)" using queue_retry_Inr [OF Queued(4)] by blast
    moreover have "run \<in> set (db_runs d1)" using queue_retry_Inr [OF Queued(4)] by simp
    ultimately show ?thesis using Queued(5) by simp
  qed
  from stage_retries_are_idempotent [OF s1 refl, of run 99] rows s1 show ?thesis by blast
qed

definition example_publication :: artifact_request where
  "example_publication = \<lparr>aq_artifact_id = ''a9'', aq_kind = ''reconstruction_workspace'',
     aq_uri = ''s3://drone-ai/organizations/acme/missions/flight-7/stage-runs/r1/reconstruction-workspace/manifest.json'',
     aq_checksum_sha256 = replicate 64 CHR ''a'', aq_size_bytes = 900,
     aq_metadata = fmap_of_list [(''manifest_key'',
       PStr ''organizations/acme/missions/flight-7/stage-runs/r1/reconstruction-workspace/manifest.json'')],
     aq_parent_artifact_ids = []\<rparr>"

definition example_publishing_state :: "mission \<Rightarrow> command_state" where
  "example_publishing_state m = example_commands\<lparr>cs_db := example_pipeline\<lparr>db_missions := [m],
     db_runs := update_where (\<lambda>r. sr_run_id r = ''r1'') (\<lambda>r. r\<lparr>sr_status := Running\<rparr>) (db_runs example_pipeline),
     db_policies := [example_policy]\<rparr>\<rparr>"

definition example_head :: "string \<Rightarrow> string option option" where
  "example_head key = Some (Some (replicate 64 CHR ''a''))"

lemma admin_publications_are_verified_witness:
  "\<exists>s' a. publish_stage_artifact example_hash_world ''drone-ai'' example_head 9 ''flight-7'' ''r1'' example_publication example_root
      (Some ''ann'') (example_publishing_state example_mission) = Inr ((''a9'', Some [''r2'']), s')
    \<and> db_artifacts (cs_db s') = [a] \<and> ma_artifact_id a = ''a9''"
proof -
  let ?s = "example_publishing_state example_mission"
  let ?r = "publish_stage_artifact example_hash_world ''drone-ai'' example_head 9 ''flight-7'' ''r1'' example_publication example_root
      (Some ''ann'') ?s"
  have "map_sum id fst ?r = Inr (''a9'', Some [''r2''])" by code_simp
  then obtain s' where s': "?r = Inr ((''a9'', Some [''r2'']), s')" by (cases ?r) auto
  have ok: "distinct (map sr_id (db_runs (cs_db ?s)))" "distinct (map ma_id (db_artifacts (cs_db ?s)))"
    "distinct (map m_id (db_missions (cs_db ?s)))" by code_simp+
  have none: "db_parents (cs_db ?s) = []" "db_artifacts (cs_db ?s) = []" by code_simp+
  have "\<forall>e \<in> set (db_parents (cs_db ?s)). mp_artifact_id e \<in> set (map ma_id (db_artifacts (cs_db ?s)))"
    by (simp add: none)
  from admin_publications_are_verified [OF s' ok this] s' none show ?thesis by auto
qed

text \<open>
  Two faults of the code. A publication does not look at the state of its mission, so that a stage of
  a cancelled mission still succeeds and queues the stages behind it, which no scheduler takes up any
  more. A resource class that does not exist is answered as a server error.
\<close>

lemma cancelled_missions_still_advance:
  "map_sum id fst (publish_stage_artifact example_hash_world ''drone-ai'' example_head 9 ''flight-7'' ''r1'' example_publication
     example_root (Some ''ann'') (example_publishing_state (example_mission\<lparr>m_status := MissionCancelled\<rparr>)))
   = Inr (''a9'', Some [''r2''])"
  by code_simp

lemma unknown_class_is_a_server_error:
  "create_stage_run example_hash_world example_stage_environ 9 ''flight-7'' GaussianTraining
     (example_retry\<lparr>sq_parameters := fmap_of_list [(''resource_class'', PStr ''gpu-huge'')]\<rparr>) example_owner
     ''retry-0002'' None example_retry_state
   = Inl (ServerError (ValueError ''Unknown stage resource class: gpu-huge''))"
  by code_simp

end
