(* ===== verification/Spec2Isabelle.thy ===== *)
theory Spec2Isabelle
  imports ControlLoopExamples ManifestGraph OutboxDelivery InboxConsumption MissionCancellation RequestGates IdentityLifecycle
    MissionCommands Retention StageCommands
begin

text \<open>
  A verification library for the durable control plane of DroneAI: the Python code that
  decides which stage of which mission runs, on which resources, under whose quota, and that
  keeps the database, the cluster and the object store in agreement about it.

  \<^bold>\<open>The program.\<close> A mission is a selection of the stages of a fixed DAG
  (\<open>shared/stage_contracts.py\<close>). Launching it writes one durable row per stage
  (\<open>shared/phase_dag.py\<close>). The stage orchestrator
  (\<open>app4-dashboard/api/stage_orchestrator.py\<close>) is a loop: it reconciles the Kubernetes Jobs
  it created with their rows, picks the next runs inside the capacity envelopes
  (\<open>shared/stage_scheduler.py\<close>), reserves them in a transaction and creates their Jobs
  (\<open>app4-dashboard/api/kubernetes_jobs.py\<close>). A Job's executor
  (\<open>shared/stage_execution.py\<close>) claims the run, reports heartbeats, publishes one immutable
  artifact and releases the stages that waited for it (\<open>shared/stage_artifacts.py\<close>). Large
  detections are split into shards (\<open>shared/detection_sharding.py\<close>) whose receipts
  (\<open>shared/detection_shard_receipts.py\<close>) a finalizer Job collects. Analyses mirror the run of
  their current attempt (\<open>shared/analysis_stages.py\<close>); organizations have policies, quotas and
  a usage ledger (\<open>shared/organization_saas.py\<close>); object keys and events are bound to a tenant
  (\<open>shared/tenancy.py\<close>).

  The parts exchange events (\<open>shared/event_contracts.py\<close>, \<open>shared/event_schemas.py\<close>): a producer
  stores them in the outbox in its own transaction, a dispatcher publishes them, a consumer
  retries, dead-letters and commits (\<open>shared/kafka_reliability.py\<close>), and the inbox drops what it has
  already processed (\<open>shared/inbox_outbox.py\<close>). A cancellation travels this way to the workers
  and marks the attempt it names (\<open>shared/cancellation.py\<close>). Workspaces are described by manifests
  of content-addressed blobs (\<open>shared/artifact_manifest.py\<close>), which a collection marks and sweeps
  (\<open>shared/cas_gc.py\<close>).

  In front of all this is the API. Its layers meter peers and organizations
  (\<open>app4-dashboard/api/rate_limit.py\<close>, \<open>http_middleware.py\<close>, \<open>shared/rate_limiting.py\<close>) and resolve a
  token, a session or a bootstrap key to a principal (\<open>app4-dashboard/api/security.py\<close>) on the
  rows of the durable identities (\<open>shared/identity.py\<close>, \<open>shared/identity_capabilities.py\<close>,
  \<open>shared/platform_identity.py\<close>), which the handlers of \<open>routers/identity_members.py\<close>,
  \<open>routers/identity_credentials.py\<close> and \<open>routers/identity_capabilities.py\<close> administer.

  Status events keep the state of a mission up to date (\<open>app4-dashboard/api/mission_state.py\<close>). Its
  owner, or an administrator with an audited delegation, cancels or deletes it
  (\<open>routers/missions.py\<close>, \<open>mission_access.py\<close>); once its compute is quiescent, a pass of
  \<open>app4-dashboard/api/retention.py\<close> deletes its objects and rows and books the released bytes.

  \<^bold>\<open>The theories,\<close> in the order of their imports:
  \<^item> \<open>Prelude\<close>: errors as values (\<open>py_error + 'a\<close> with \<open>rbind\<close>), JSON values (\<open>pyval\<close>, objects
    as finite maps), the conversions and text functions of Python that the code uses, and
    generic lemmas. \<open>Clock\<close>: instants in microseconds and their ISO text; comparing the texts
    compares the instants.
  \<^item> \<open>StageContracts\<close>, \<open>StageScheduler\<close>, \<open>SchedulerCorrect\<close>: the DAG, the resource classes and
    the selection policy with its queues and counters; the locales \<open>dag\<close> and \<open>envelope\<close> are
    interpreted on the tables of the code. The selection keeps every envelope, is work
    conserving, selects only candidates, and its ancestor loop is the transitive closure.
  \<^item> \<open>DetectionSharding\<close>: tiles, shards, plans and their descriptors; the shards cover the raster
    and enumerate the grid, and descriptors round-trip.
  \<^item> \<open>Tenancy\<close>: namespaces of missions; keys of different missions are disjoint.
  \<^item> \<open>DatabaseModel\<close>: the rows as records, the constraints of their tables, the transaction
    \<open>in_session\<close> (an error leaves the database as it was), and the locale \<open>row_table\<close> for
    writing rows by key, interpreted on runs, analyses and missions.
  \<^item> \<open>OrganizationSaas\<close>: policies, the usage ledger with its idempotency keys, storage
    reservations and the request quota.
  \<^item> \<open>PhaseDag\<close>, \<open>StageArtifacts\<close>, \<open>AnalysisStages\<close>, \<open>ShardReceipts\<close>: launch specifications,
    release of waiting runs, analysis attempts, receipts.
  \<^item> \<open>StageExecution\<close>: claim, heartbeat, publication, failure, and the whole execution of a Job.
  \<^item> \<open>KubernetesJobs\<close>: the manifest of a Job, the comparison of an existing Job with it, and the
    client over a transport.
  \<^item> \<open>OrchestratorSettings\<close>: the settings read from the environment
    (\<open>shared/deployment_mode.py\<close> included).
  \<^item> \<open>JobReservation\<close>, \<open>JobReconciliation\<close>: the reservation, dispatch, reconciliation and the
    tick of the loop.
  \<^item> \<open>ReservationCorrect\<close>: what a reservation may start. \<open>ReconciliationCorrect\<close>: the loop as
    the step relation \<open>control_step\<close>, its invariant by rule induction (through the locale
    \<open>run_condition\<close>), and the refinement of the tick by steps. \<open>ReconciliationSafety\<close>: fencing,
    leases, cleanup, the hand-over to the finalizer, and two faults of the code.
    \<open>ControlLoopExamples\<close>: these theorems at concrete inputs.
  \<^item> \<open>EventContracts\<close>: event models, validation, construction, decoding and identities of events.
    Accepted events are typed; identities are bound to the tenant.
  \<^item> \<open>KafkaReliability\<close>: the retry policy, the assignment watchdog, confirmed publication, dead
    letters and the handling of one message: offsets are committed only after effects.
  \<^item> \<open>OutboxDelivery\<close>, \<open>InboxConsumption\<close>: the outbox with the step relation \<open>dispatch_step\<close> of any
    number of dispatchers and its refinement by the batch, and the inbox transaction with its race
    on the unique key: published means acknowledged, nothing gets stuck, effects happen once.
  \<^item> \<open>MissionCancellation\<close>: the registries and marks of cancellations, over the step relation
    \<open>worker_step\<close>: a mark reaches the workers of its attempt and only them.
  \<^item> \<open>ArtifactManifests\<close>, \<open>ManifestGraph\<close>: parsing and canonical bytes of manifests, the check of
    their parent graph (depth-first search against acyclicity) and the collection plan.
  \<^item> \<open>RateLimiting\<close>: token buckets in memory and in the database, with a potential argument for the
    quota over replicas, and the agreement of the two limiters.
  \<^item> \<open>Identity\<close>, \<open>ApiSecurity\<close>: identity rows, tokens, credentials, capabilities and the platform
    realm; configuration checks, sessions and their signing keys, the resolution of a request to a
    principal, roles and origins. A principal stands for live rows, and production fails closed.
  \<^item> \<open>RequestGates\<close>: the layers before a route in their order, the body limit and the creation of a
    browser session; the peers are metered before they are authenticated.
  \<^item> \<open>ApiAnswers\<close>: the answers of a handler (HTTP errors as values) and its guards.
    \<open>IdentityAdmin\<close>, \<open>IdentityLifecycle\<close>: the handlers that administer identities, and what holds
    over any sequence of them: every handler is a sequence of elementary changes of one
    organization's rows (\<open>identity_change\<close>), and the locale \<open>kept_by_changes\<close> carries what every
    change keeps to all histories.
  \<^item> \<open>MissionState\<close>: the state a status event leaves; over any sequence of events a mission holds the
    last event of each service. \<open>MissionCommands\<close>: ownership, cancellation and deletion; a deletion
    stops compute at once and no command reaches a mission of somebody else. \<open>Retention\<close>: claims,
    completion and failure of deletions; what is deleted is due and quiescent, and the booked bytes
    are the change of the storage usage. Two faults of the code are lemmas of these theories.
  \<^item> \<open>StorageAccess\<close>: the owner a request acts for and what an object path is authorized by
    (\<open>app4-dashboard/api/dataset_access.py\<close>); apart from a fault for legacy paths, which is a lemma, no
    path leaves the organization of the caller. \<open>GcpBundles\<close>: the files and the descriptor of ground
    control bundles and the check of a descriptor (\<open>shared/gcp_bundle.py\<close>), which accept each other.
    \<open>StageCommands\<close>: the retry of one stage and the publication by an administrator
    (\<open>routers/mission_stages.py\<close>): a retry queues one sound run, its replay is answered by that run, and a
    publication is the verified manifest of its running run. Two faults of the code are lemmas.

  \<^bold>\<open>State and operations.\<close> \<open>db\<close> is a record with one list of rows per table; a handler takes
  the database and returns a result and the new database. A transaction that raises is rolled
  back by \<open>in_session\<close>. Every step of \<open>control_step\<close> is one such transaction; observations of
  the cluster, clock readings, the advisory lock and the rows that other transactions have
  locked are arbitrary there, so the reachable states contain every interleaving of any number
  of controllers and executors.

  \<^bold>\<open>Parameters.\<close> \<open>world\<close> holds what is computed by libraries: the canonical digest of a JSON
  value, SHA-256, random and name-based UUIDs, the text of a coordinate. The environment, the
  JSON and float readers (\<open>decoder\<close>), the HTTP transport of the cluster (\<open>kc_call\<close>) and the
  handler of a stage are arguments too, and so are the validation library and the JSON text of
  events (\<open>event_library\<close>), the consumer of a message (\<open>consumption\<close>), the sessions' encoding and
  signature (\<open>session_codec\<close>), the keyed digest, random identifiers and secrets of identities
  (\<open>identity_library\<close>), the object store of a retention pass (\<open>retention_ports\<close>) and of a
  publication (\<open>head_object\<close>) and the application behind the request layers. What a theorem needs of them is a hypothesis of its own
  (\<open>hex_digests\<close>, \<open>honest_cluster\<close>, \<open>event_library_ok\<close>, injectivity of a digest or of the random
  UUIDs), with an instance in its witness.

  \<^bold>\<open>Conventions.\<close> Python integers are \<open>int\<close>; floats are exact rationals, so rounding of token
  buckets and progress is not modelled; a transaction reads the clock once, several readings
  are a function \<open>clock\<close>; the text order of the database is the order of code points. The
  \<open>onupdate\<close> hook of the ORM is modelled where a schedule depends on it (\<open>touched\<close> in \<open>Retention\<close>). Recursive functions are total: the scheduler's
  rounds, the worklist of ancestors and the pages of the candidate query have termination
  measures, the depth-first search of manifests one in the unfinished nodes, and no definition
  needs fuel.

  \<^bold>\<open>Not modelled:\<close> the threads around the heartbeat loop, the dispatcher and the orchestrator's
  tick, metric sinks and logging, the SQL that the queries compile to, listings and response
  fields of the routes, and everything outside the control plane: the launch of a
  mission and its parameters, the routes of datasets and maps, uploads, the Kafka client
  itself, the geometric and image processing of the workers, the tiling and training code, the
  viewers and the tools. These either have no state
  of the control plane or consist of calls into libraries (OpenCV, GDAL, COLMAP, PyTorch, boto3)
  whose behaviour the sources do not define.
\<close>

end
